(* ===== verification/Prelude.thy ===== *)
theory Prelude
  imports Main "HOL-Library.Word" "HOL-Library.Multiset" "HOL-Library.Product_Lexorder"
begin

text \<open>
  Shared ground of the development. It holds the machine arithmetic the Rust code uses
  (\<open>checked_add\<close>, \<open>saturating_add\<close> and their kin on fixed-width words and, where only the
  bound matters, on naturals), the error-or-value type of \<open>Result\<close>, the bounded ring idiom
  (\<open>push_back\<close> followed by \<open>pop_front\<close> while too long), list lemmas the components share and
  two interfaces: deterministic machines with an invariant, and atomic updates that either
  commit or leave the state as it was.
\<close>

named_theorems wf_intros \<open>one-step preservation of the components' invariants\<close>
named_theorems op_defs \<open>definitions of the state-changing operations\<close>

section \<open>Results\<close>

type_synonym ('e, 'a) result = "'e + 'a"

abbreviation Err :: "'e \<Rightarrow> ('e, 'a) result" where
  "Err \<equiv> Inl"

abbreviation Ok :: "'a \<Rightarrow> ('e, 'a) result" where
  "Ok \<equiv> Inr"

fun is_ok :: "('e, 'a) result \<Rightarrow> bool" where
  "is_ok (Inl _) = False"
| "is_ok (Inr _) = True"

definition ok_or :: "'e \<Rightarrow> 'a option \<Rightarrow> ('e, 'a) result" where
  "ok_or e x = (case x of None \<Rightarrow> Err e | Some v \<Rightarrow> Ok v)"

lemma ok_or_simps [simp]:
  "ok_or e None = Err e"
  "ok_or e (Some v) = Ok v"
  by (simp_all add: ok_or_def)

fun res_bind :: "('e, 'a) result \<Rightarrow> ('a \<Rightarrow> ('e, 'b) result) \<Rightarrow> ('e, 'b) result" where
  "res_bind (Inl e) f = Inl e"
| "res_bind (Inr x) f = f x"

lemma res_bind_Inr_iff: "res_bind r f = Inr y \<longleftrightarrow> (\<exists>x. r = Inr x \<and> f x = Inr y)"
  by (cases r) auto

lemma is_ok_iff: "is_ok r \<longleftrightarrow> (\<exists>x. r = Inr x)"
  by (cases r) auto

section \<open>Machine arithmetic\<close>

type_synonym u64 = "64 word"
type_synonym u32 = "32 word"

definition checked_add :: "'w::len word \<Rightarrow> 'w word \<Rightarrow> 'w word option" where
  "checked_add a b = (if a \<le> a + b then Some (a + b) else None)"

definition saturating_add :: "'w::len word \<Rightarrow> 'w word \<Rightarrow> 'w word" where
  "saturating_add a b = (if a \<le> a + b then a + b else - 1)"

lemma checked_add_Some_unat:
  "checked_add a b = Some c \<Longrightarrow> unat c = unat a + unat b"
  by (auto simp: checked_add_def unat_plus_simple split: if_splits)

lemma checked_add_None_iff:
  fixes a b :: "'w::len word"
  shows "checked_add a b = None \<longleftrightarrow> 2 ^ LENGTH('w) \<le> unat a + unat b"
proof -
  have "a \<le> a + b \<longleftrightarrow> unat a + unat b < 2 ^ LENGTH('w)"
    by (rule no_olen_add_nat)
  then show ?thesis by (auto simp: checked_add_def)
qed

lemma checked_add_1_less: "checked_add a 1 = Some c \<Longrightarrow> a < c"
  by (frule checked_add_Some_unat) (simp add: word_less_nat_alt)

lemma checked_add_ge: "checked_add a b = Some c \<Longrightarrow> a \<le> c"
  by (frule checked_add_Some_unat) (simp add: word_le_nat_alt)

lemma saturating_add_ge: "a \<le> saturating_add a b"
  by (simp add: saturating_add_def)

text \<open>The same operations on naturals that stand for an unsigned integer of a given maximum.\<close>

definition u64_max :: nat where
  "u64_max = 18446744073709551615"

definition u32_max :: nat where
  "u32_max = 4294967295"

definition u128_max :: nat where
  "u128_max = 340282366920938463463374607431768211455"

definition nat_checked_add :: "nat \<Rightarrow> nat \<Rightarrow> nat \<Rightarrow> nat option" where
  "nat_checked_add m a b = (if a + b \<le> m then Some (a + b) else None)"

definition nat_saturating_add :: "nat \<Rightarrow> nat \<Rightarrow> nat \<Rightarrow> nat" where
  "nat_saturating_add m a b = min m (a + b)"

lemma nat_saturating_add_le [simp]: "nat_saturating_add m a b \<le> m"
  by (simp add: nat_saturating_add_def)

lemma nat_saturating_add_mono: "a \<le> m \<Longrightarrow> a \<le> nat_saturating_add m a b"
  by (simp add: nat_saturating_add_def)

lemma nat_checked_add_Some [simp]:
  "nat_checked_add m a b = Some c \<longleftrightarrow> c = a + b \<and> c \<le> m"
  by (auto simp: nat_checked_add_def)

lemma nat_checked_add_None [simp]:
  "nat_checked_add m a b = None \<longleftrightarrow> m < a + b"
  by (auto simp: nat_checked_add_def)

section \<open>Lists\<close>

definition remove_nth :: "nat \<Rightarrow> 'a list \<Rightarrow> 'a list" where
  "remove_nth i xs = take i xs @ drop (Suc i) xs"

lemma mset_remove_nth: "i < length xs \<Longrightarrow> add_mset (xs ! i) (mset (remove_nth i xs)) = mset xs"
proof -
  assume i: "i < length xs"
  have "mset xs = mset (take i xs @ xs ! i # drop (Suc i) xs)"
    using i by (simp add: id_take_nth_drop [symmetric])
  then show ?thesis by (simp add: remove_nth_def)
qed

lemma length_remove_nth: "i < length xs \<Longrightarrow> length (remove_nth i xs) = length xs - 1"
  by (simp add: remove_nth_def)

lemma set_remove_nth_subset: "set (remove_nth i xs) \<subseteq> set xs"
  by (auto simp: remove_nth_def dest: in_set_takeD in_set_dropD)

lemma distinct_map_remove_nth: "distinct (map f xs) \<Longrightarrow> distinct (map f (remove_nth i xs))"
proof -
  assume d: "distinct (map f xs)"
  have "map f xs = map f (take i xs) @ map f (drop i xs)"
    by (metis append_take_drop_id map_append)
  moreover have "set (map f (drop (Suc i) xs)) \<subseteq> set (map f (drop i xs))"
    using set_drop_subset_set_drop [of i "Suc i" xs] by auto
  moreover have "distinct (map f (drop (Suc i) xs))"
    using d by (metis distinct_drop drop_map)
  ultimately show ?thesis
    using d by (auto simp: remove_nth_def)
qed

lemma remove_nth_preserves_all: "list_all P xs \<Longrightarrow> list_all P (remove_nth i xs)"
  using set_remove_nth_subset [of i xs] by (auto simp: list_all_iff)

lemma set_tl_subset: "set (tl xs) \<subseteq> set xs"
  by (cases xs) auto

text \<open>
  The ring idiom of the Rust code: append at the back, then drop from the front while the
  deque is longer than its bound.
\<close>

fun pop_front_while_longer :: "nat \<Rightarrow> 'a list \<Rightarrow> 'a list" where
  "pop_front_while_longer n [] = []"
| "pop_front_while_longer n (x # xs) =
     (if length (x # xs) > n then pop_front_while_longer n xs else x # xs)"

lemma pop_front_while_longer_eq: "pop_front_while_longer n xs = drop (length xs - n) xs"
proof (induction xs)
  case Nil
  then show ?case by simp
next
  case (Cons x xs)
  show ?case
  proof (cases "length xs < n")
    case True
    then show ?thesis by simp
  next
    case False
    then have "length (x # xs) - n = Suc (length xs - n)" by simp
    with Cons False show ?thesis by simp
  qed
qed

definition ring_push :: "nat \<Rightarrow> 'a \<Rightarrow> 'a list \<Rightarrow> 'a list" where
  "ring_push n x xs = pop_front_while_longer n (xs @ [x])"

lemma length_ring_push: "length (ring_push n x xs) = min n (Suc (length xs))"
  by (auto simp: ring_push_def pop_front_while_longer_eq)

lemma ring_push_bounded [simp]: "length (ring_push n x xs) \<le> n"
  by (simp add: length_ring_push)

lemma ring_push_last: "0 < n \<Longrightarrow> last (ring_push n x xs) = x"
  by (simp add: ring_push_def pop_front_while_longer_eq last_drop)

lemma set_ring_push: "set (ring_push n x xs) \<subseteq> insert x (set xs)"
  by (auto simp: ring_push_def pop_front_while_longer_eq dest: in_set_dropD)

section \<open>Interfaces\<close>

text \<open>
  A deterministic machine: a step function and an invariant every step keeps. The clients
  of a component call its operations in any order; what they may rely on after any sequence
  of calls is proved once, here.
\<close>

locale machine =
  fixes step :: "'s \<Rightarrow> 'e \<Rightarrow> 's"
    and inv :: "'s \<Rightarrow> bool"
  assumes step_inv: "inv s \<Longrightarrow> inv (step s e)"
begin

lemma run_inv: "inv s \<Longrightarrow> inv (fold (\<lambda>e s. step s e) es s)"
  by (induction es arbitrary: s) (auto intro: step_inv)

lemma run_prefix_inv: "inv s \<Longrightarrow> inv (fold (\<lambda>e s. step s e) (take n es) s)"
  by (rule run_inv)

end

text \<open>
  A machine whose steps also move a measure in one direction only (a cursor, a clock, an
  identifier counter).
\<close>

locale monotone_machine = machine step inv
  for step :: "'s \<Rightarrow> 'e \<Rightarrow> 's" and inv :: "'s \<Rightarrow> bool" +
  fixes gauge :: "'s \<Rightarrow> 'm::preorder"
  assumes step_gauge: "inv s \<Longrightarrow> gauge s \<le> gauge (step s e)"
begin

lemma run_gauge: "inv s \<Longrightarrow> gauge s \<le> gauge (fold (\<lambda>e s. step s e) es s)"
proof (induction es arbitrary: s)
  case Nil
  then show ?case by simp
next
  case (Cons e es)
  have "gauge s \<le> gauge (step s e)"
    using Cons.prems by (rule step_gauge)
  also have "\<dots> \<le> gauge (fold (\<lambda>e s. step s e) es (step s e))"
    using Cons.prems by (intro Cons.IH step_inv)
  finally show ?case by simp
qed

end

text \<open>
  A machine whose invariant is kept only by events the guard admits; a run is a sequence of
  admitted events.
\<close>

inductive guarded_run :: "('s \<Rightarrow> 'e \<Rightarrow> 's) \<Rightarrow> ('s \<Rightarrow> 'e \<Rightarrow> bool) \<Rightarrow> 's \<Rightarrow> 'e list \<Rightarrow> 's \<Rightarrow> bool"
  for step guard where
    guarded_run_Nil: "guarded_run step guard s [] s"
  | guarded_run_Cons: "guard s e \<Longrightarrow> guarded_run step guard (step s e) es s' \<Longrightarrow> guarded_run step guard s (e # es) s'"

inductive_simps guarded_run_simps [simp]:
  "guarded_run step guard s [] s'"
  "guarded_run step guard s (e # es) s'"

locale guarded_machine =
  fixes step :: "'s \<Rightarrow> 'e \<Rightarrow> 's"
    and guard :: "'s \<Rightarrow> 'e \<Rightarrow> bool"
    and inv :: "'s \<Rightarrow> bool"
  assumes guarded_step: "inv s \<Longrightarrow> guard s e \<Longrightarrow> inv (step s e)"
begin

lemma guarded_run_inv: "guarded_run step guard s es s' \<Longrightarrow> inv s \<Longrightarrow> inv s'"
  by (induction rule: guarded_run.induct) (auto intro: guarded_step)

end

end
