(* ===== verification/Native_Error.thy ===== *)
theory Native_Error
  imports Prelude
begin

text \<open>
  The typed failures of the native browser engine
  (\<^verbatim>\<open>crates/glass-browser-core/src/native_engine/error.rs\<close> and \<^verbatim>\<open>lifecycle.rs\<close>), with the
  static class and the bounded resource diagnostic the engine reports instead of the
  error text.
\<close>

datatype native_worker_failure_kind =
    Spawn | Exited | Transport | Timeout | Protocol | Rejected | InvalidTransfer
  | SandboxUnavailable

datatype native_lifecycle_state = LifecycleNew | LifecycleRunning | LifecycleClosed

datatype native_engine_error =
    InvalidConfiguration string string
  | Lifecycle string native_lifecycle_state string
  | UnsupportedUrl string
  | Network string string
  | Worker string string
  | WorkerFailure string native_worker_failure_kind string
  | NavigationCancelled
  | StorageProfileLocked string
  | Parse nat string
  | LimitExceeded string nat nat
  | Scheduler string
  | TargetNotFound
  | AmbiguousTarget nat
  | DetachedTarget
  | TargetNotActionable string
  | DisabledTarget
  | ReadOnlyTarget

fun diagnostic_class :: "native_engine_error \<Rightarrow> string" where
  "diagnostic_class (InvalidConfiguration _ _) = ''invalid_configuration''"
| "diagnostic_class (Lifecycle _ _ _) = ''lifecycle''"
| "diagnostic_class (UnsupportedUrl _) = ''unsupported_url''"
| "diagnostic_class (Network _ _) = ''network''"
| "diagnostic_class (Worker _ _) = ''worker''"
| "diagnostic_class (WorkerFailure _ _ _) = ''worker_failure''"
| "diagnostic_class NavigationCancelled = ''navigation_cancelled''"
| "diagnostic_class (StorageProfileLocked _) = ''storage_profile_locked''"
| "diagnostic_class (Parse _ _) = ''parse''"
| "diagnostic_class (LimitExceeded _ _ _) = ''limit_exceeded''"
| "diagnostic_class (Scheduler _) = ''scheduler''"
| "diagnostic_class TargetNotFound = ''target_not_found''"
| "diagnostic_class (AmbiguousTarget _) = ''ambiguous_target''"
| "diagnostic_class DetachedTarget = ''detached_target''"
| "diagnostic_class (TargetNotActionable _) = ''target_not_actionable''"
| "diagnostic_class DisabledTarget = ''disabled_target''"
| "diagnostic_class ReadOnlyTarget = ''read_only_target''"

definition invalid :: "string \<Rightarrow> string \<Rightarrow> native_engine_error" where
  "invalid field reason = InvalidConfiguration field reason"

definition limit_error :: "string \<Rightarrow> nat \<Rightarrow> nat \<Rightarrow> native_engine_error" where
  "limit_error resource limit actual = LimitExceeded resource limit actual"

end
