(* ===== verification/Nav_Scheduler.thy ===== *)
theory Nav_Scheduler
  imports Native_Error
begin

text \<open>
  The deterministic scheduler of the native browser engine
  (\<^verbatim>\<open>crates/glass-browser-core/src/native_engine/scheduler.rs\<close>): a logical clock and a
  bounded set of typed commit tasks, popped by deadline and then by insertion order.
  Every operation that can fail returns its result beside the state it leaves behind, since
  \<open>schedule\<close> advances the identifier counter before it can still fail on the sequence
  counter.
\<close>

record deterministic_clock =
  now_ms :: u64

datatype native_task = CommitNavigation | CommitSameDocumentNavigation | TraverseHistory

record scheduled_task =
  task_id :: u64
  due_at_ms :: u64
  sequence :: u64
  task :: native_task

record scheduler =
  sch_clock :: deterministic_clock
  sch_tasks :: "scheduled_task list"
  sch_next_id :: u64
  sch_next_sequence :: u64
  sch_max_tasks :: nat

definition clock_advance_by ::
  "deterministic_clock \<Rightarrow> u64 \<Rightarrow> (native_engine_error, unit) result \<times> deterministic_clock" where
  "clock_advance_by c duration_ms =
     (case checked_add (now_ms c) duration_ms of
        None \<Rightarrow> (Err (Scheduler ''logical clock overflow''), c)
      | Some t \<Rightarrow> (Ok (), c\<lparr>now_ms := t\<rparr>))"

definition scheduler_new :: "nat \<Rightarrow> (native_engine_error, scheduler) result" where
  "scheduler_new m =
     (if m = 0 then Err (invalid ''max scheduler tasks'' ''must be greater than zero'')
      else Ok \<lparr>sch_clock = \<lparr>now_ms = 0\<rparr>, sch_tasks = [], sch_next_id = 1, sch_next_sequence = 0, sch_max_tasks = m\<rparr>)"

definition pending_len :: "scheduler \<Rightarrow> nat" where
  "pending_len s = length (sch_tasks s)"

definition scheduler_clear :: "scheduler \<Rightarrow> scheduler" where
  "scheduler_clear s = s\<lparr>sch_tasks := []\<rparr>"

definition advance_by :: "scheduler \<Rightarrow> u64 \<Rightarrow> (native_engine_error, unit) result \<times> scheduler" where
  "advance_by s duration_ms =
     (let (r, c) = clock_advance_by (sch_clock s) duration_ms in (r, s\<lparr>sch_clock := c\<rparr>))"

definition schedule ::
  "scheduler \<Rightarrow> native_task \<Rightarrow> u64 \<Rightarrow> (native_engine_error, u64) result \<times> scheduler" where
  "schedule s t delay_ms =
     (if length (sch_tasks s) \<ge> sch_max_tasks s
      then (Err (limit_error ''scheduler queue'' (sch_max_tasks s) (Suc (length (sch_tasks s)))), s)
      else case checked_add (now_ms (sch_clock s)) delay_ms of
        None \<Rightarrow> (Err (Scheduler ''task deadline overflow''), s)
      | Some due \<Rightarrow>
          (case checked_add (sch_next_id s) 1 of
             None \<Rightarrow> (Err (Scheduler ''task ID space exhausted''), s)
           | Some nid \<Rightarrow>
               (let s1 = s\<lparr>sch_next_id := nid\<rparr> in
                case checked_add (sch_next_sequence s1) 1 of
                  None \<Rightarrow> (Err (Scheduler ''task sequence space exhausted''), s1)
                | Some nseq \<Rightarrow>
                    (Ok (sch_next_id s),
                     s1\<lparr>sch_next_sequence := nseq,
                        sch_tasks := sch_tasks s1 @
                          [\<lparr>task_id = sch_next_id s, due_at_ms = due,
                            sequence = sch_next_sequence s1, task = t\<rparr>]\<rparr>))))"

text \<open>
  \<open>min_by_key\<close> keeps the first of several equal minima; \<open>first_min\<close> scans the enumerated
  candidates the same way.
\<close>

definition task_key :: "scheduled_task \<Rightarrow> u64 \<times> u64" where
  "task_key t = (due_at_ms t, sequence t)"

fun first_min :: "(nat \<times> scheduled_task) list \<Rightarrow> (nat \<times> scheduled_task) option" where
  "first_min [] = None"
| "first_min (c # cs) =
     (case first_min cs of
        None \<Rightarrow> Some c
      | Some d \<Rightarrow> if task_key (snd c) \<le> task_key (snd d) then Some c else Some d)"

definition is_ready :: "scheduler \<Rightarrow> scheduled_task \<Rightarrow> bool" where
  "is_ready s t \<longleftrightarrow> due_at_ms t \<le> now_ms (sch_clock s)"

definition pop_ready :: "scheduler \<Rightarrow> scheduled_task option \<times> scheduler" where
  "pop_ready s =
     (case first_min (filter (\<lambda>(_, t). is_ready s t) (enumerate 0 (sch_tasks s))) of
        None \<Rightarrow> (None, s)
      | Some (i, t) \<Rightarrow> (Some t, s\<lparr>sch_tasks := remove_nth i (sch_tasks s)\<rparr>))"


section \<open>What a pop returns\<close>

lemma first_min_None [simp]: "first_min cs = None \<longleftrightarrow> cs = []"
  by (cases cs) (auto split: option.splits)

lemma first_min_Some:
  "first_min cs = Some c \<Longrightarrow> c \<in> set cs \<and> (\<forall>d\<in>set cs. task_key (snd c) \<le> task_key (snd d))"
proof (induction cs arbitrary: c)
  case Nil
  then show ?case by simp
next
  case (Cons a cs)
  show ?case
  proof (cases "first_min cs")
    case None
    with Cons.prems show ?thesis by simp
  next
    case (Some d)
    with Cons.IH have d: "d \<in> set cs" "\<forall>e\<in>set cs. task_key (snd d) \<le> task_key (snd e)"
      by auto
    from Some Cons.prems have "c = (if task_key (snd a) \<le> task_key (snd d) then a else d)"
      by (auto split: if_splits)
    with d show ?thesis by auto
  qed
qed

lemma no_candidate_iff:
  "filter (\<lambda>(_, t). is_ready s t) (enumerate n ts) = [] \<longleftrightarrow> (\<forall>t\<in>set ts. \<not> is_ready s t)"
  by (induction ts arbitrary: n) auto

lemma pop_ready_None:
  "pop_ready s = (None, s') \<longleftrightarrow> s' = s \<and> (\<forall>t\<in>set (sch_tasks s). \<not> is_ready s t)"
proof (cases "filter (\<lambda>(_, t). is_ready s t) (enumerate 0 (sch_tasks s)) = []")
  case True
  then have "pop_ready s = (None, s)" by (simp only: pop_ready_def first_min.simps option.case)
  with True show ?thesis by (auto simp: no_candidate_iff)
next
  case False
  then obtain c where "first_min (filter (\<lambda>(_, t). is_ready s t) (enumerate 0 (sch_tasks s))) = Some c"
    by (meson first_min_None not_None_eq)
  then have "fst (pop_ready s) \<noteq> None" by (cases c) (simp add: pop_ready_def)
  with False show ?thesis by (auto simp: no_candidate_iff)
qed

lemma pop_ready_Some:
  assumes "pop_ready s = (Some t, s')"
  shows "t \<in> set (sch_tasks s)" and "is_ready s t"
    and "\<And>u. u \<in> set (sch_tasks s) \<Longrightarrow> is_ready s u \<Longrightarrow> task_key t \<le> task_key u"
    and "add_mset t (mset (sch_tasks s')) = mset (sch_tasks s)"
    and "\<exists>i < length (sch_tasks s). s' = s\<lparr>sch_tasks := remove_nth i (sch_tasks s)\<rparr>"
proof -
  let ?ready = "filter (\<lambda>(_, t). is_ready s t) (enumerate 0 (sch_tasks s))"
  from assms obtain i where min: "first_min ?ready = Some (i, t)"
    and s': "s' = s\<lparr>sch_tasks := remove_nth i (sch_tasks s)\<rparr>"
    by (auto simp: pop_ready_def split: option.splits prod.splits)
  from first_min_Some [OF min] have it: "(i, t) \<in> set ?ready"
    and least: "\<forall>d\<in>set ?ready. task_key t \<le> task_key (snd d)"
    by auto
  from it have i: "i < length (sch_tasks s)" "t = sch_tasks s ! i" "is_ready s t"
    by (auto simp: in_set_enumerate_eq)
  then show "t \<in> set (sch_tasks s)" and "is_ready s t" by auto
  show "task_key t \<le> task_key u" if u: "u \<in> set (sch_tasks s)" "is_ready s u" for u
  proof -
    from u obtain j where "j < length (sch_tasks s)" "u = sch_tasks s ! j"
      by (auto simp: in_set_conv_nth)
    with u have "(j, u) \<in> set ?ready" by (auto simp: in_set_enumerate_eq)
    with least show ?thesis by fastforce
  qed
  show "add_mset t (mset (sch_tasks s')) = mset (sch_tasks s)"
    using i mset_remove_nth [of i "sch_tasks s"] by (simp add: s')
  show "\<exists>i < length (sch_tasks s). s' = s\<lparr>sch_tasks := remove_nth i (sch_tasks s)\<rparr>"
    using i s' by blast
qed

section \<open>The invariant\<close>

text \<open>
  Identifiers and sequence numbers in the queue are distinct and below their counters, and
  the queue respects its bound.
\<close>

definition sched_wf :: "scheduler \<Rightarrow> bool" where
  "sched_wf s \<longleftrightarrow>
     0 < sch_max_tasks s \<and> length (sch_tasks s) \<le> sch_max_tasks s \<and>
     distinct (map task_id (sch_tasks s)) \<and> distinct (map sequence (sch_tasks s)) \<and>
     list_all (\<lambda>t. task_id t < sch_next_id s \<and> sequence t < sch_next_sequence s) (sch_tasks s)"

datatype sched_op = Schedule native_task u64 | PopReady | AdvanceBy u64 | Clear

fun sched_step :: "scheduler \<Rightarrow> sched_op \<Rightarrow> scheduler" where
  "sched_step s (Schedule t d) = snd (schedule s t d)"
| "sched_step s PopReady = snd (pop_ready s)"
| "sched_step s (AdvanceBy d) = snd (advance_by s d)"
| "sched_step s Clear = scheduler_clear s"

lemma scheduler_new_wf [wf_intros]: "scheduler_new m = Inr s \<Longrightarrow> sched_wf s"
  by (auto simp: scheduler_new_def sched_wf_def split: if_splits)

lemma advance_by_wf [wf_intros]: "sched_wf s \<Longrightarrow> sched_wf (snd (advance_by s d))"
  by (auto simp: advance_by_def clock_advance_by_def sched_wf_def split: option.splits)

lemma scheduler_clear_wf [wf_intros]: "sched_wf s \<Longrightarrow> sched_wf (scheduler_clear s)"
  by (auto simp: scheduler_clear_def sched_wf_def)

lemma list_all_ids_mono:
  "list_all (\<lambda>t. task_id t < a \<and> sequence t < b) ts \<Longrightarrow> a \<le> a' \<Longrightarrow> b \<le> b' \<Longrightarrow>
   list_all (\<lambda>t. task_id t < a' \<and> sequence t < b') ts"
  by (fastforce simp: list_all_iff)

lemma schedule_cases:
  obtains (error) e s' where "schedule s t d = (Inl e, s')" "sch_tasks s' = sch_tasks s"
      "sch_max_tasks s' = sch_max_tasks s" "sch_next_id s \<le> sch_next_id s'"
      "sch_next_sequence s' = sch_next_sequence s" "sch_clock s' = sch_clock s"
  | (ok) due nid nseq where "length (sch_tasks s) < sch_max_tasks s"
      "checked_add (now_ms (sch_clock s)) d = Some due"
      "checked_add (sch_next_id s) 1 = Some nid" "checked_add (sch_next_sequence s) 1 = Some nseq"
      "schedule s t d = (Inr (sch_next_id s),
         s\<lparr>sch_next_id := nid, sch_next_sequence := nseq,
           sch_tasks := sch_tasks s @ [\<lparr>task_id = sch_next_id s, due_at_ms = due,
                            sequence = sch_next_sequence s, task = t\<rparr>]\<rparr>)"
  by (cases "schedule s t d")
    (auto simp: schedule_def Let_def checked_add_ge split: if_splits option.splits)

lemma schedule_wf [wf_intros]: "sched_wf s \<Longrightarrow> sched_wf (snd (schedule s t d))"
proof (cases rule: schedule_cases [of s t d])
  case (error e s')
  assume "sched_wf s"
  with error show ?thesis
    by (auto simp: sched_wf_def elim: list_all_ids_mono)
next
  case (ok due nid nseq)
  assume wf: "sched_wf s"
  have lt: "sch_next_id s < nid" "sch_next_sequence s < nseq"
    using ok by (auto intro: checked_add_1_less)
  with wf have "list_all (\<lambda>t. task_id t < nid \<and> sequence t < nseq) (sch_tasks s)"
    by (auto simp: sched_wf_def elim!: list_all_ids_mono)
  moreover have "sch_next_id s \<notin> set (map task_id (sch_tasks s))"
    "sch_next_sequence s \<notin> set (map sequence (sch_tasks s))"
    using wf by (auto simp: sched_wf_def list_all_iff)
  ultimately show ?thesis
    using wf ok lt by (simp add: sched_wf_def)
qed

lemma pop_ready_wf [wf_intros]: "sched_wf s \<Longrightarrow> sched_wf (snd (pop_ready s))"
proof (cases "pop_ready s")
  case (Pair r s')
  assume wf: "sched_wf s"
  show ?thesis
  proof (cases r)
    case None
    with Pair have "s' = s" by (simp add: pop_ready_None)
    with Pair wf show ?thesis by simp
  next
    case (Some t)
    with Pair pop_ready_Some(5) obtain i where "i < length (sch_tasks s)"
      and "s' = s\<lparr>sch_tasks := remove_nth i (sch_tasks s)\<rparr>" by blast
    with wf Pair show ?thesis
      by (auto simp: sched_wf_def length_remove_nth intro: distinct_map_remove_nth
          remove_nth_preserves_all)
  qed
qed

lemma sched_step_wf: "sched_wf s \<Longrightarrow> sched_wf (sched_step s e)"
  by (cases e) (auto intro: wf_intros)

interpretation sched: machine sched_step sched_wf
  by unfold_locales (rule sched_step_wf)

lemma sched_step_clock: "now_ms (sch_clock s) \<le> now_ms (sch_clock (sched_step s e))"
proof (cases e)
  case (Schedule t d)
  then show ?thesis by (cases rule: schedule_cases [of s t d]) auto
next
  case PopReady
  then show ?thesis
    by (auto simp: pop_ready_def split: option.splits prod.splits)
next
  case (AdvanceBy d)
  then show ?thesis
    by (auto simp: advance_by_def clock_advance_by_def dest: checked_add_ge split: option.splits)
next
  case Clear
  then show ?thesis by (simp add: scheduler_clear_def)
qed

interpretation sched: monotone_machine sched_step sched_wf "\<lambda>s. now_ms (sch_clock s)"
  by unfold_locales (rule sched_step_clock)

section \<open>Draining the ready tasks\<close>

text \<open>The client's loop: pop until nothing is ready.\<close>

function drain_ready :: "scheduler \<Rightarrow> scheduled_task list \<times> scheduler" where
  "drain_ready s =
     (case pop_ready s of
        (None, s') \<Rightarrow> ([], s')
      | (Some t, s') \<Rightarrow> (let (ts, s'') = drain_ready s' in (t # ts, s'')))"
  by pat_completeness auto
termination
proof (relation "measure (\<lambda>s. length (sch_tasks s))", goal_cases)
  case 1
  then show ?case by simp
next
  case (2 s r s' t)
  then have "pop_ready s = (Some t, s')" by simp
  then have "mset (sch_tasks s) = add_mset t (mset (sch_tasks s'))"
    using pop_ready_Some(4) by metis
  then show ?case by (simp flip: size_mset)
qed

declare drain_ready.simps [simp del]

lemma mset_filter_ready_pop:
  assumes "pop_ready s = (Some t, s')"
  shows "filter_mset (is_ready s) (mset (sch_tasks s)) =
         add_mset t (filter_mset (is_ready s') (mset (sch_tasks s')))"
proof -
  from pop_ready_Some(5) [OF assms] have clock: "is_ready s' = is_ready s"
    by (auto simp: is_ready_def fun_eq_iff)
  have "mset (sch_tasks s) = add_mset t (mset (sch_tasks s'))"
    using pop_ready_Some(4) [OF assms] by simp
  then show ?thesis using pop_ready_Some(2) [OF assms] clock by simp
qed

section \<open>Properties\<close>

text \<open>
  Claim C31. Popping until nothing is ready terminates and hands out exactly the tasks whose
  deadline the logical clock has reached, each once, ordered by deadline and, within one
  deadline, by insertion; the tasks that are not ready stay queued and the clock does not
  move.
\<close>

theorem drain_ready_in_order:
  "drain_ready s = (ts, s') \<Longrightarrow>
     mset ts = filter_mset (is_ready s) (mset (sch_tasks s)) \<and>
     sorted (map task_key ts) \<and>
     mset (sch_tasks s') = filter_mset (\<lambda>t. \<not> is_ready s t) (mset (sch_tasks s)) \<and>
     sch_clock s' = sch_clock s"
proof (induction s arbitrary: ts s' rule: drain_ready.induct)
  case (1 s)
  show ?case
  proof (cases "pop_ready s")
    case (Pair r u)
    show ?thesis
    proof (cases r)
      case None
      with Pair have "u = s" "\<forall>t\<in>set (sch_tasks s). \<not> is_ready s t"
        by (simp_all add: pop_ready_None)
      moreover from Pair None "1.prems" have "ts = []" "s' = u"
        by (simp_all add: drain_ready.simps [of s])
      ultimately show ?thesis by (simp flip: mset_filter)
    next
      case (Some t)
      obtain us where rec: "drain_ready u = (us, s')" and ts: "ts = t # us"
        using "1.prems" Pair Some
        by (auto simp: drain_ready.simps [of s] split: prod.splits)
      note pop = Pair [unfolded Some]
      from "1.IH" [OF Pair [symmetric] Some rec]
      have IH: "mset us = filter_mset (is_ready u) (mset (sch_tasks u))"
        "sorted (map task_key us)"
        "mset (sch_tasks s') = filter_mset (\<lambda>t. \<not> is_ready u t) (mset (sch_tasks u))"
        "sch_clock s' = sch_clock u" by auto
      from pop_ready_Some(5) [OF pop] have clock: "sch_clock u = sch_clock s"
        and sub: "set (sch_tasks u) \<subseteq> set (sch_tasks s)"
        using set_remove_nth_subset by fastforce+
      have ready: "is_ready u = is_ready s" by (simp add: is_ready_def clock fun_eq_iff)
      have least: "task_key t \<le> task_key x" if "x \<in> set us" for x
      proof -
        from that have "x \<in># mset us" by simp
        then have "x \<in> set (sch_tasks s)" "is_ready s x"
          using IH(1) sub ready by auto
        then show ?thesis by (rule pop_ready_Some(3) [OF pop])
      qed
      have rest: "mset (sch_tasks s) = add_mset t (mset (sch_tasks u))"
        using pop_ready_Some(4) [OF pop] by simp
      show ?thesis
        using IH least ts clock mset_filter_ready_pop [OF pop] pop_ready_Some(2) [OF pop]
        by (auto simp: rest ready)
    qed
  qed
qed

theorem drain_ready_in_order_witness:
  "\<exists>ts s'. drain_ready
       \<lparr>sch_clock = \<lparr>now_ms = 5\<rparr>,
        sch_tasks = [\<lparr>task_id = 1, due_at_ms = 9, sequence = 0, task = CommitNavigation\<rparr>,
                     \<lparr>task_id = 2, due_at_ms = 3, sequence = 1, task = TraverseHistory\<rparr>,
                     \<lparr>task_id = 3, due_at_ms = 3, sequence = 2, task = CommitNavigation\<rparr>],
        sch_next_id = 4, sch_next_sequence = 3, sch_max_tasks = 8\<rparr> = (ts, s') \<and>
     sorted (map task_key ts) \<and> length ts = 2 \<and> length (sch_tasks s') = 1"
proof -
  let ?s = "\<lparr>sch_clock = \<lparr>now_ms = 5\<rparr>,
        sch_tasks = [\<lparr>task_id = 1, due_at_ms = 9, sequence = 0, task = CommitNavigation\<rparr>,
                     \<lparr>task_id = 2, due_at_ms = 3, sequence = 1, task = TraverseHistory\<rparr>,
                     \<lparr>task_id = 3, due_at_ms = 3, sequence = 2, task = CommitNavigation\<rparr>],
        sch_next_id = 4, sch_next_sequence = 3, sch_max_tasks = 8\<rparr>"
  obtain ts s' where d: "drain_ready ?s = (ts, s')" by fastforce
  note spec = drain_ready_in_order [OF d]
  then have "size (mset ts) = size (filter_mset (is_ready ?s) (mset (sch_tasks ?s)))"
    "size (mset (sch_tasks s')) = size (filter_mset (\<lambda>t. \<not> is_ready ?s t) (mset (sch_tasks ?s)))"
    by simp_all
  then have "length ts = 2" "length (sch_tasks s') = 1"
    by (simp_all add: is_ready_def)
  with spec d show ?thesis by blast
qed

text \<open>
  From a new scheduler, any sequence of schedule, pop, advance and clear calls
  keeps the queue within its bound and its identifiers and sequence numbers distinct and
  below the counters, and the logical clock never moves backwards.
\<close>

theorem scheduler_history_wf:
  assumes "scheduler_new m = Inr s"
  shows "sched_wf (fold (\<lambda>e s. sched_step s e) es s) \<and>
         now_ms (sch_clock (fold (\<lambda>e s. sched_step s e) es s)) \<le>
         now_ms (sch_clock (fold (\<lambda>e s. sched_step s e) (es @ fs) s))"
proof -
  have wf: "sched_wf s" using assms by (rule scheduler_new_wf)
  then have "sched_wf (fold (\<lambda>e s. sched_step s e) es s)" by (rule sched.run_inv)
  then show ?thesis by (simp add: sched.run_gauge)
qed

theorem scheduler_history_wf_witness:
  "\<exists>s. scheduler_new 2 = Inr s \<and>
     sched_wf (fold (\<lambda>e s. sched_step s e)
       [Schedule CommitNavigation 5, AdvanceBy 7, Schedule TraverseHistory 0, PopReady] s)"
proof -
  obtain s where s: "scheduler_new 2 = Inr s" by (simp add: scheduler_new_def)
  from scheduler_history_wf [OF this] s show ?thesis by blast
qed

end
