(* ===== verification/Native_Runtime.thy ===== *)
theory Native_Runtime
  imports Nav_Scheduler
begin

text \<open>
  The runtime that owns one native engine's work
  (\<^verbatim>\<open>crates/glass-browser-core/src/native_engine/runtime.rs\<close>) and the command loop that
  serialises access to it (\<^verbatim>\<open>worker.rs\<close>): its lifecycle, the scheduler, the bounded
  microtask queue, the cancellation token and the bounded trace.

  A cancellation token is a shared flag: clones of it are handed out, and any holder may
  set it at any time. The model keeps the flags in an explicit store, and a token is the
  address of its flag, so that a token handed out before a restart stays apart from the
  token the restart allocates.
\<close>

definition MAX_NATIVE_MICROTASKS :: nat where
  "MAX_NATIVE_MICROTASKS = 256"

definition MAX_NATIVE_RUNTIME_TRACE :: nat where
  "MAX_NATIVE_RUNTIME_TRACE = 512"

datatype native_runtime_state = RtNew | RtRunning | RtClosed

datatype native_event_kind =
    Blur | FocusOut | Focus | FocusIn | ReadyStateChange | DomContentLoaded | Load | EventError
  | PageHide | Unload | PageShow | BeforeUnload | HashChange | PopState | Invalid | KeyDown
  | KeyUp | Submit | Reset | Click | MouseOver | MouseEnter | DragStart | DragEnter | DragOver
  | Drop | DragEnd | Input | Change | Scroll

datatype native_microtask =
    DispatchEvent native_event_kind
  | ResolvePromise u64
  | RunScript u64

datatype native_runtime_trace_kind =
    Started | ClosedTrace | CancellationRequested | TaskScheduled | TaskReady | MicrotaskQueued
  | MicrotaskReady

record native_runtime_trace_event =
  tr_sequence :: u64
  tr_clock_ms :: u64
  tr_kind :: native_runtime_trace_kind
  tr_work_id :: "u64 option"

type_synonym token = nat

record native_runtime =
  rt_state :: native_runtime_state
  rt_scheduler :: scheduler
  rt_microtasks :: "native_microtask list"
  rt_cancellation :: token
  rt_flags :: "bool list"
  rt_trace :: "native_runtime_trace_event list"
  rt_trace_truncated :: bool
  rt_next_trace_sequence :: u64
  rt_max_microtasks :: nat

section \<open>Cancellation tokens\<close>

definition token_new :: "native_runtime \<Rightarrow> native_runtime" where
  "token_new rt = rt\<lparr>rt_cancellation := length (rt_flags rt), rt_flags := rt_flags rt @ [False]\<rparr>"

definition token_cancel :: "token \<Rightarrow> native_runtime \<Rightarrow> native_runtime" where
  "token_cancel tok rt = rt\<lparr>rt_flags := (rt_flags rt)[tok := True]\<rparr>"

definition token_is_cancelled :: "token \<Rightarrow> native_runtime \<Rightarrow> bool" where
  "token_is_cancelled tok rt \<longleftrightarrow> tok < length (rt_flags rt) \<and> rt_flags rt ! tok"

definition token_check :: "string \<Rightarrow> native_runtime \<Rightarrow> (native_engine_error, unit) result" where
  "token_check operation rt =
     (if token_is_cancelled (rt_cancellation rt) rt
      then Err (Scheduler (operation @ '' was cancelled'')) else Ok ())"

section \<open>Operations\<close>

definition runtime_new :: "nat \<Rightarrow> (native_engine_error, native_runtime) result" where
  "runtime_new max_tasks =
     (case scheduler_new max_tasks of
        Inl e \<Rightarrow> Err e
      | Inr s \<Rightarrow> Ok \<lparr>rt_state = RtNew, rt_scheduler = s, rt_microtasks = [], rt_cancellation = 0,
                     rt_flags = [False], rt_trace = [], rt_trace_truncated = False,
                     rt_next_trace_sequence = 0, rt_max_microtasks = MAX_NATIVE_MICROTASKS\<rparr>)"

definition state_error :: "string \<Rightarrow> string \<Rightarrow> native_engine_error" where
  "state_error operation reason = Scheduler (operation @ '': '' @ reason)"

definition require_running :: "string \<Rightarrow> native_runtime \<Rightarrow> (native_engine_error, unit) result" where
  "require_running operation rt =
     (if rt_state rt = RtRunning then Ok ()
      else Err (state_error operation ''the native runtime is not running''))"

definition record_trace ::
  "native_runtime_trace_kind \<Rightarrow> u64 option \<Rightarrow> native_runtime
     \<Rightarrow> (native_engine_error, unit) result \<times> native_runtime" where
  "record_trace kind work_id rt =
     (case checked_add (rt_next_trace_sequence rt) 1 of
        None \<Rightarrow> (Err (Scheduler ''runtime trace sequence exhausted''), rt)
      | Some nxt \<Rightarrow>
          (let ev = \<lparr>tr_sequence = rt_next_trace_sequence rt,
                     tr_clock_ms = now_ms (sch_clock (rt_scheduler rt)),
                     tr_kind = kind, tr_work_id = work_id\<rparr>;
               full = length (rt_trace rt) \<ge> MAX_NATIVE_RUNTIME_TRACE
           in (Ok (), rt\<lparr>rt_next_trace_sequence := nxt,
                         rt_trace := (if full then tl (rt_trace rt) else rt_trace rt) @ [ev],
                         rt_trace_truncated := rt_trace_truncated rt \<or> full\<rparr>)))"

definition runtime_start ::
  "native_runtime \<Rightarrow> (native_engine_error, unit) result \<times> native_runtime" where
  "runtime_start rt =
     (case rt_state rt of
        RtNew \<Rightarrow> record_trace Started None ((token_new rt)\<lparr>rt_state := RtRunning\<rparr>)
      | RtRunning \<Rightarrow> (Ok (), rt)
      | RtClosed \<Rightarrow> (Err (state_error ''start'' ''a closed native runtime cannot be reopened''), rt))"

definition runtime_close ::
  "native_runtime \<Rightarrow> (native_engine_error, unit) result \<times> native_runtime" where
  "runtime_close rt =
     (case rt_state rt of
        RtNew \<Rightarrow>
          (Err (state_error ''close'' ''the native runtime must be started before close''), rt)
      | RtRunning \<Rightarrow>
          (let rt1 = (token_cancel (rt_cancellation rt) rt)
                       \<lparr>rt_scheduler := scheduler_clear (rt_scheduler rt),
                        rt_microtasks := [], rt_state := RtClosed\<rparr>
           in case record_trace CancellationRequested None rt1 of
                (Inl e, rt2) \<Rightarrow> (Err e, rt2)
              | (Inr _, rt2) \<Rightarrow> record_trace ClosedTrace None rt2)
      | RtClosed \<Rightarrow>
          (Err (state_error ''close'' ''the native runtime is already closed''), rt))"

definition runtime_rollback_start ::
  "native_runtime \<Rightarrow> (native_engine_error, unit) result \<times> native_runtime" where
  "runtime_rollback_start rt =
     (if rt_state rt \<noteq> RtRunning
      then (Err (state_error ''rollback start''
                   ''only a running startup attempt can be rolled back''), rt)
      else if pending_len (rt_scheduler rt) \<noteq> 0 \<or> rt_microtasks rt \<noteq> []
      then (Err (Scheduler ''cannot roll back a runtime with pending work''), rt)
      else (Ok (), (token_new (rt\<lparr>rt_state := RtNew\<rparr>))
              \<lparr>rt_trace := [], rt_trace_truncated := False, rt_next_trace_sequence := 0\<rparr>))"

definition runtime_request_cancellation ::
  "native_runtime \<Rightarrow> (native_engine_error, unit) result \<times> native_runtime" where
  "runtime_request_cancellation rt =
     (case require_running ''cancel'' rt of
        Inl e \<Rightarrow> (Err e, rt)
      | Inr _ \<Rightarrow>
          record_trace CancellationRequested None (token_cancel (rt_cancellation rt) rt))"

text \<open>The two guards every working operation starts with.\<close>

definition guarded ::
  "string \<Rightarrow> native_runtime \<Rightarrow> (native_engine_error, 'a) result \<times> native_runtime
     \<Rightarrow> (native_engine_error, 'a) result \<times> native_runtime" where
  "guarded operation rt body =
     (case require_running operation rt of
        Inl e \<Rightarrow> (Err e, rt)
      | Inr _ \<Rightarrow> (case token_check operation rt of Inl e \<Rightarrow> (Err e, rt) | Inr _ \<Rightarrow> body))"

definition runtime_schedule ::
  "native_task \<Rightarrow> u64 \<Rightarrow> native_runtime \<Rightarrow> (native_engine_error, u64) result \<times> native_runtime" where
  "runtime_schedule t delay_ms rt =
     guarded ''schedule task'' rt
       (case schedule (rt_scheduler rt) t delay_ms of
          (Inl e, s) \<Rightarrow> (Err e, rt\<lparr>rt_scheduler := s\<rparr>)
        | (Inr tid, s) \<Rightarrow>
            (case record_trace TaskScheduled (Some tid) (rt\<lparr>rt_scheduler := s\<rparr>) of
               (Inl e, rt') \<Rightarrow> (Err e, rt')
             | (Inr _, rt') \<Rightarrow> (Ok tid, rt')))"

definition runtime_pop_ready ::
  "native_runtime \<Rightarrow> (native_engine_error, scheduled_task option) result \<times> native_runtime" where
  "runtime_pop_ready rt =
     guarded ''pop task'' rt
       (case pop_ready (rt_scheduler rt) of
          (None, s) \<Rightarrow> (Ok None, rt\<lparr>rt_scheduler := s\<rparr>)
        | (Some t, s) \<Rightarrow>
            (case record_trace TaskReady (Some (task_id t)) (rt\<lparr>rt_scheduler := s\<rparr>) of
               (Inl e, rt') \<Rightarrow> (Err e, rt')
             | (Inr _, rt') \<Rightarrow> (Ok (Some t), rt')))"

definition runtime_advance_by ::
  "u64 \<Rightarrow> native_runtime \<Rightarrow> (native_engine_error, unit) result \<times> native_runtime" where
  "runtime_advance_by duration_ms rt =
     guarded ''advance runtime clock'' rt
       (let (r, s) = advance_by (rt_scheduler rt) duration_ms in (r, rt\<lparr>rt_scheduler := s\<rparr>))"

definition runtime_queue_microtask ::
  "native_microtask \<Rightarrow> native_runtime \<Rightarrow> (native_engine_error, unit) result \<times> native_runtime" where
  "runtime_queue_microtask t rt =
     guarded ''queue microtask'' rt
       (if length (rt_microtasks rt) \<ge> rt_max_microtasks rt
        then (Err (limit_error ''runtime microtask queue'' (rt_max_microtasks rt)
                     (Suc (length (rt_microtasks rt)))), rt)
        else record_trace MicrotaskQueued None (rt\<lparr>rt_microtasks := rt_microtasks rt @ [t]\<rparr>))"

definition runtime_pop_microtask ::
  "native_runtime \<Rightarrow> (native_engine_error, native_microtask option) result \<times> native_runtime" where
  "runtime_pop_microtask rt =
     guarded ''pop microtask'' rt
       (case rt_microtasks rt of
          [] \<Rightarrow> (Ok None, rt)
        | t # ts \<Rightarrow>
            (case record_trace MicrotaskReady None (rt\<lparr>rt_microtasks := ts\<rparr>) of
               (Inl e, rt') \<Rightarrow> (Err e, rt')
             | (Inr _, rt') \<Rightarrow> (Ok (Some t), rt')))"

section \<open>The worker's command loop\<close>

text \<open>
  The worker receives one command at a time and replies with the operation's result; the
  only other thing that changes what the runtime sees is a holder of a token setting its
  flag.
\<close>

datatype native_runtime_worker_command =
    StartCmd | RollbackStartCmd | CloseCmd | ScheduleCmd native_task u64 | PopReadyCmd
  | AdvanceCmd u64 | QueueMicrotaskCmd native_microtask | PopMicrotaskCmd | CancelCmd | TraceCmd

datatype native_runtime_worker_reply =
    UnitReply "(native_engine_error, unit) result"
  | IdReply "(native_engine_error, u64) result"
  | TaskReply "(native_engine_error, scheduled_task option) result"
  | MicrotaskReply "(native_engine_error, native_microtask option) result"
  | TraceReply "(native_engine_error, native_runtime_trace_event list) result"

fun run_command ::
  "native_runtime_worker_command \<Rightarrow> native_runtime \<Rightarrow> native_runtime_worker_reply \<times> native_runtime"
where
  "run_command StartCmd rt = map_prod UnitReply id (runtime_start rt)"
| "run_command RollbackStartCmd rt = map_prod UnitReply id (runtime_rollback_start rt)"
| "run_command CloseCmd rt = map_prod UnitReply id (runtime_close rt)"
| "run_command (ScheduleCmd t d) rt = map_prod IdReply id (runtime_schedule t d rt)"
| "run_command PopReadyCmd rt = map_prod TaskReply id (runtime_pop_ready rt)"
| "run_command (AdvanceCmd d) rt = map_prod UnitReply id (runtime_advance_by d rt)"
| "run_command (QueueMicrotaskCmd t) rt = map_prod UnitReply id (runtime_queue_microtask t rt)"
| "run_command PopMicrotaskCmd rt = map_prod MicrotaskReply id (runtime_pop_microtask rt)"
| "run_command CancelCmd rt = map_prod UnitReply id (runtime_request_cancellation rt)"
| "run_command TraceCmd rt = (TraceReply (Ok (rt_trace rt)), rt)"

datatype runtime_event = Command native_runtime_worker_command | TokenCancelled token

fun runtime_step :: "native_runtime \<Rightarrow> runtime_event \<Rightarrow> native_runtime" where
  "runtime_step rt (Command c) = snd (run_command c rt)"
| "runtime_step rt (TokenCancelled tok) = token_cancel tok rt"

section \<open>The trace\<close>

text \<open>
  The retained trace is a window of consecutive sequence numbers that ends just below the
  counter, its clock readings never go back and none is ahead of the clock.
\<close>

definition trace_wf :: "native_runtime \<Rightarrow> bool" where
  "trace_wf rt \<longleftrightarrow>
     length (rt_trace rt) \<le> MAX_NATIVE_RUNTIME_TRACE \<and>
     (\<forall>i < length (rt_trace rt).
        unat (tr_sequence (rt_trace rt ! i)) + (length (rt_trace rt) - i)
          = unat (rt_next_trace_sequence rt)) \<and>
     sorted (map tr_clock_ms (rt_trace rt)) \<and>
     (\<forall>e \<in> set (rt_trace rt). tr_clock_ms e \<le> now_ms (sch_clock (rt_scheduler rt)))"

definition dense_below :: "nat \<Rightarrow> nat list \<Rightarrow> bool" where
  "dense_below n xs \<longleftrightarrow> (\<forall>i < length xs. xs ! i + (length xs - i) = n)"

lemma dense_below_snoc: "dense_below n xs \<Longrightarrow> dense_below (Suc n) (xs @ [n])"
  by (auto simp: dense_below_def nth_append)

lemma dense_below_tl: "dense_below n xs \<Longrightarrow> dense_below n (tl xs)"
  unfolding dense_below_def by (cases xs) fastforce+

lemma trace_wf_alt:
  "trace_wf rt \<longleftrightarrow>
     length (rt_trace rt) \<le> MAX_NATIVE_RUNTIME_TRACE \<and>
     dense_below (unat (rt_next_trace_sequence rt)) (map (unat \<circ> tr_sequence) (rt_trace rt)) \<and>
     sorted (map tr_clock_ms (rt_trace rt)) \<and>
     (\<forall>e \<in> set (rt_trace rt). tr_clock_ms e \<le> now_ms (sch_clock (rt_scheduler rt)))"
  by (auto simp: trace_wf_def dense_below_def)

lemma record_trace_frame:
  "record_trace k w rt = (r, rt') \<Longrightarrow>
     rt_state rt' = rt_state rt \<and> rt_scheduler rt' = rt_scheduler rt \<and>
     rt_microtasks rt' = rt_microtasks rt \<and> rt_cancellation rt' = rt_cancellation rt \<and>
     rt_flags rt' = rt_flags rt \<and> rt_max_microtasks rt' = rt_max_microtasks rt"
  by (auto simp: record_trace_def Let_def split: option.splits)

lemma record_trace_wf:
  assumes wf: "trace_wf rt" and r: "record_trace k w rt = (r, rt')"
  shows "trace_wf rt'"
proof (cases "checked_add (rt_next_trace_sequence rt) 1")
  case None
  with r have "rt' = rt" by (simp add: record_trace_def)
  with wf show ?thesis by simp
next
  case (Some nxt)
  define xs where "xs = (if length (rt_trace rt) \<ge> MAX_NATIVE_RUNTIME_TRACE
                         then tl (rt_trace rt) else rt_trace rt)"
  let ?ev = "\<lparr>tr_sequence = rt_next_trace_sequence rt,
              tr_clock_ms = now_ms (sch_clock (rt_scheduler rt)), tr_kind = k, tr_work_id = w\<rparr>"
  from Some r have rt': "rt_trace rt' = xs @ [?ev]" "rt_next_trace_sequence rt' = nxt"
    by (auto simp: record_trace_def Let_def xs_def)
  have frame: "rt_scheduler rt' = rt_scheduler rt"
    using record_trace_frame [OF r] by simp
  have nxt: "unat nxt = Suc (unat (rt_next_trace_sequence rt))"
    using checked_add_Some_unat [OF Some] by simp
  have sub: "set xs \<subseteq> set (rt_trace rt)"
    using set_tl_subset [of "rt_trace rt"] by (auto simp: xs_def)
  have dense: "dense_below (unat (rt_next_trace_sequence rt)) (map (unat \<circ> tr_sequence) xs)"
    using wf by (auto simp: trace_wf_alt xs_def map_tl intro: dense_below_tl)
  have sorted: "sorted (map tr_clock_ms xs)"
    using wf by (auto simp: trace_wf_alt xs_def map_tl sorted_tl)
  have "length xs < MAX_NATIVE_RUNTIME_TRACE"
    using wf by (auto simp: trace_wf_alt xs_def MAX_NATIVE_RUNTIME_TRACE_def)
  moreover have "\<forall>e \<in> set xs. tr_clock_ms e \<le> now_ms (sch_clock (rt_scheduler rt))"
    using wf sub by (auto simp: trace_wf_alt)
  ultimately show ?thesis
    using sorted dense_below_snoc [OF dense]
    by (auto simp: trace_wf_alt rt' frame nxt sorted_append)
qed

section \<open>The invariant\<close>

definition no_pending_work :: "native_runtime \<Rightarrow> bool" where
  "no_pending_work rt \<longleftrightarrow> sch_tasks (rt_scheduler rt) = [] \<and> rt_microtasks rt = []"

definition runtime_wf :: "native_runtime \<Rightarrow> bool" where
  "runtime_wf rt \<longleftrightarrow>
     sched_wf (rt_scheduler rt) \<and> trace_wf rt \<and>
     length (rt_microtasks rt) \<le> rt_max_microtasks rt \<and>
     rt_cancellation rt < length (rt_flags rt) \<and>
     (rt_state rt \<noteq> RtRunning \<longrightarrow> no_pending_work rt) \<and>
     (rt_state rt = RtClosed \<longrightarrow> token_is_cancelled (rt_cancellation rt) rt)"

lemmas runtime_defs = runtime_start_def runtime_close_def runtime_rollback_start_def
  runtime_request_cancellation_def runtime_schedule_def runtime_pop_ready_def
  runtime_advance_by_def runtime_queue_microtask_def runtime_pop_microtask_def

lemma runtime_new_wf: "runtime_new m = Inr rt \<Longrightarrow> runtime_wf rt"
  by (auto simp: runtime_new_def runtime_wf_def trace_wf_def no_pending_work_def
      sched_wf_def scheduler_new_def MAX_NATIVE_MICROTASKS_def split: sum.splits if_splits)

lemma guarded_cases:
  assumes "guarded op rt body = (r, rt')"
  obtains (refused) e where "r = Inl e" "rt' = rt"
  | (passed) "rt_state rt = RtRunning" "\<not> token_is_cancelled (rt_cancellation rt) rt"
      "body = (r, rt')"
  using assms
  by (auto simp: guarded_def require_running_def token_check_def split: if_splits)

lemma record_trace_runtime_wf:
  assumes "runtime_wf rt" and "record_trace k w rt = (r, rt')"
  shows "runtime_wf rt'"
  using assms record_trace_frame [OF assms(2)] record_trace_wf [OF _ assms(2)]
  by (auto simp: runtime_wf_def no_pending_work_def token_is_cancelled_def)

lemma nth_list_update':
  "i < length xs \<Longrightarrow> xs[j := x] ! i = (if i = j then x else xs ! i)"
  by auto

lemma token_cancel_wf: "runtime_wf rt \<Longrightarrow> runtime_wf (token_cancel tok rt)"
  by (auto simp: runtime_wf_def token_cancel_def trace_wf_def no_pending_work_def
      token_is_cancelled_def nth_list_update')

lemma token_cancel_cancels:
  "rt_cancellation rt < length (rt_flags rt) \<Longrightarrow>
   token_is_cancelled (rt_cancellation rt) (token_cancel (rt_cancellation rt) rt)"
  by (simp add: token_cancel_def token_is_cancelled_def)

lemma runtime_start_wf: "runtime_wf rt \<Longrightarrow> runtime_start rt = (r, rt') \<Longrightarrow> runtime_wf rt'"
proof (cases "rt_state rt")
  case RtNew
  assume wf: "runtime_wf rt" and st: "runtime_start rt = (r, rt')"
  have "runtime_wf ((token_new rt)\<lparr>rt_state := RtRunning\<rparr>)"
    using wf RtNew by (auto simp: runtime_wf_def token_new_def trace_wf_def)
  then show ?thesis
    using st RtNew by (auto simp: runtime_start_def intro: record_trace_runtime_wf)
qed (auto simp: runtime_start_def)

lemma runtime_close_wf: "runtime_wf rt \<Longrightarrow> runtime_close rt = (r, rt') \<Longrightarrow> runtime_wf rt'"
proof (cases "rt_state rt")
  case RtRunning
  assume wf: "runtime_wf rt" and cl: "runtime_close rt = (r, rt')"
  let ?rt1 = "(token_cancel (rt_cancellation rt) rt)
                \<lparr>rt_scheduler := scheduler_clear (rt_scheduler rt),
                 rt_microtasks := [], rt_state := RtClosed\<rparr>"
  have "token_is_cancelled (rt_cancellation rt) (token_cancel (rt_cancellation rt) rt)"
    using wf by (intro token_cancel_cancels) (simp add: runtime_wf_def)
  then have wf1: "runtime_wf ?rt1"
    using token_cancel_wf [OF wf, of "rt_cancellation rt"] scheduler_clear_wf
    by (auto simp: runtime_wf_def trace_wf_def no_pending_work_def scheduler_clear_def
        token_cancel_def token_is_cancelled_def)
  obtain r2 rt2 where rec: "record_trace CancellationRequested None ?rt1 = (r2, rt2)"
    by fastforce
  with wf1 have "runtime_wf rt2" by (rule record_trace_runtime_wf)
  then show ?thesis
    using cl RtRunning rec
    by (auto simp: runtime_close_def Let_def split: sum.splits intro: record_trace_runtime_wf)
qed (auto simp: runtime_close_def)

lemma runtime_rollback_wf:
  "runtime_wf rt \<Longrightarrow> runtime_rollback_start rt = (r, rt') \<Longrightarrow> runtime_wf rt'"
  by (auto simp: runtime_rollback_start_def runtime_wf_def trace_wf_def no_pending_work_def
      token_new_def pending_len_def split: if_splits)

lemma runtime_request_cancellation_wf:
  "runtime_wf rt \<Longrightarrow> runtime_request_cancellation rt = (r, rt') \<Longrightarrow> runtime_wf rt'"
  by (auto simp: runtime_request_cancellation_def require_running_def split: if_splits
      intro: record_trace_runtime_wf token_cancel_wf)

lemma set_scheduler_wf:
  assumes "runtime_wf rt" "rt_state rt = RtRunning" "sched_wf s"
    "now_ms (sch_clock (rt_scheduler rt)) \<le> now_ms (sch_clock s)"
  shows "runtime_wf (rt\<lparr>rt_scheduler := s\<rparr>)"
  using assms by (auto simp: runtime_wf_def trace_wf_def token_is_cancelled_def dest: order_trans)

lemma schedule_runtime_wf:
  assumes "runtime_wf rt" "rt_state rt = RtRunning" "schedule (rt_scheduler rt) t d = (r, s)"
  shows "runtime_wf (rt\<lparr>rt_scheduler := s\<rparr>)"
  using assms schedule_wf [of "rt_scheduler rt" t d]
    sched_step_clock [of "rt_scheduler rt" "Schedule t d"]
  by (intro set_scheduler_wf) (auto simp: runtime_wf_def)

lemma pop_runtime_wf:
  assumes "runtime_wf rt" "rt_state rt = RtRunning" "pop_ready (rt_scheduler rt) = (r, s)"
  shows "runtime_wf (rt\<lparr>rt_scheduler := s\<rparr>)"
  using assms pop_ready_wf [of "rt_scheduler rt"] sched_step_clock [of "rt_scheduler rt" PopReady]
  by (intro set_scheduler_wf) (auto simp: runtime_wf_def)

lemma runtime_schedule_wf:
  "runtime_wf rt \<Longrightarrow> runtime_schedule t d rt = (r, rt') \<Longrightarrow> runtime_wf rt'"
  unfolding runtime_schedule_def
  by (erule guarded_cases)
    (auto split: prod.splits sum.splits dest: schedule_runtime_wf intro: record_trace_runtime_wf)

lemma runtime_pop_ready_wf:
  "runtime_wf rt \<Longrightarrow> runtime_pop_ready rt = (r, rt') \<Longrightarrow> runtime_wf rt'"
  unfolding runtime_pop_ready_def
  by (erule guarded_cases)
    (auto split: prod.splits sum.splits option.splits dest: pop_runtime_wf
      intro: record_trace_runtime_wf)

lemma runtime_advance_by_wf:
  assumes "runtime_wf rt" "runtime_advance_by d rt = (r, rt')"
  shows "runtime_wf rt'"
  using assms(2) unfolding runtime_advance_by_def
proof (cases rule: guarded_cases)
  case passed
  then obtain s where s: "advance_by (rt_scheduler rt) d = (r, s)" "rt' = rt\<lparr>rt_scheduler := s\<rparr>"
    by (auto split: prod.splits)
  have "sched_wf (rt_scheduler rt)" using assms(1) by (simp add: runtime_wf_def)
  with passed assms(1) s show ?thesis
    using advance_by_wf [of "rt_scheduler rt" d]
      sched_step_clock [of "rt_scheduler rt" "AdvanceBy d"]
    by (auto intro!: set_scheduler_wf)
qed (use assms in auto)

lemma runtime_queue_microtask_wf:
  assumes "runtime_wf rt" "runtime_queue_microtask t rt = (r, rt')"
  shows "runtime_wf rt'"
  using assms(2) unfolding runtime_queue_microtask_def
proof (cases rule: guarded_cases)
  case passed
  show ?thesis
  proof (cases "length (rt_microtasks rt) < rt_max_microtasks rt")
    case True
    with assms(1) passed(1) have "runtime_wf (rt\<lparr>rt_microtasks := rt_microtasks rt @ [t]\<rparr>)"
      by (auto simp: runtime_wf_def trace_wf_def)
    with passed(3) True show ?thesis by (auto intro: record_trace_runtime_wf)
  qed (use passed assms in auto)
qed (use assms in auto)

lemma runtime_pop_microtask_wf:
  assumes "runtime_wf rt" "runtime_pop_microtask rt = (r, rt')"
  shows "runtime_wf rt'"
  using assms(2) unfolding runtime_pop_microtask_def
proof (cases rule: guarded_cases)
  case passed
  show ?thesis
  proof (cases "rt_microtasks rt")
    case (Cons m ms)
    with assms(1) passed(1) have "runtime_wf (rt\<lparr>rt_microtasks := ms\<rparr>)"
      by (auto simp: runtime_wf_def trace_wf_def)
    with passed(3) Cons show ?thesis
      by (auto split: prod.splits sum.splits intro: record_trace_runtime_wf)
  qed (use passed assms in auto)
qed (use assms in auto)

lemma run_command_wf: "runtime_wf rt \<Longrightarrow> runtime_wf (snd (run_command c rt))"
  by (cases c; cases "snd (run_command c rt)")
    (auto simp: map_prod_def split: prod.splits
      intro: runtime_start_wf runtime_close_wf runtime_rollback_wf runtime_request_cancellation_wf
        runtime_schedule_wf runtime_pop_ready_wf runtime_advance_by_wf
        runtime_queue_microtask_wf runtime_pop_microtask_wf)

lemma runtime_step_wf: "runtime_wf rt \<Longrightarrow> runtime_wf (runtime_step rt e)"
  by (cases e) (auto intro: run_command_wf token_cancel_wf)

interpretation rt: machine runtime_step runtime_wf
  by unfold_locales (rule runtime_step_wf)

section \<open>Fences\<close>

fun reply_is_err :: "native_runtime_worker_reply \<Rightarrow> bool" where
  "reply_is_err (UnitReply r) = (\<not> is_ok r)"
| "reply_is_err (IdReply r) = (\<not> is_ok r)"
| "reply_is_err (TaskReply r) = (\<not> is_ok r)"
| "reply_is_err (MicrotaskReply r) = (\<not> is_ok r)"
| "reply_is_err (TraceReply r) = (\<not> is_ok r)"

text \<open>The commands that do or hand out work.\<close>

fun is_work_command :: "native_runtime_worker_command \<Rightarrow> bool" where
  "is_work_command (ScheduleCmd _ _) = True"
| "is_work_command PopReadyCmd = True"
| "is_work_command (AdvanceCmd _) = True"
| "is_work_command (QueueMicrotaskCmd _) = True"
| "is_work_command PopMicrotaskCmd = True"
| "is_work_command _ = False"

definition runtime_cancelled :: "native_runtime \<Rightarrow> bool" where
  "runtime_cancelled rt \<longleftrightarrow> token_is_cancelled (rt_cancellation rt) rt"

lemma guarded_cancelled:
  assumes "runtime_cancelled rt"
  shows "\<not> is_ok (fst (guarded op rt body))" and "snd (guarded op rt body) = rt"
  using assms by (auto simp: runtime_cancelled_def guarded_def require_running_def token_check_def)

lemma work_refused:
  assumes "runtime_cancelled rt" and "is_work_command c"
  shows "reply_is_err (fst (run_command c rt)) \<and> snd (run_command c rt) = rt"
  using assms
  by (cases c) (simp_all add: runtime_schedule_def runtime_pop_ready_def runtime_advance_by_def
      runtime_queue_microtask_def runtime_pop_microtask_def guarded_cancelled)

lemma record_trace_cancelled:
  "runtime_cancelled rt \<Longrightarrow> runtime_cancelled (snd (record_trace k w rt))"
  by (auto simp: record_trace_def runtime_cancelled_def token_is_cancelled_def Let_def
      split: option.splits)

lemma token_cancel_cancelled:
  "runtime_cancelled rt \<Longrightarrow> runtime_cancelled (token_cancel tok rt)"
  by (auto simp: runtime_cancelled_def token_cancel_def token_is_cancelled_def nth_list_update')

text \<open>
  A cancelled runtime that has been started stays cancelled: only rolling the start back
  gives it a new token.
\<close>

lemma cancelled_started_step:
  assumes "runtime_cancelled rt" "rt_state rt \<noteq> RtNew" "e \<noteq> Command RollbackStartCmd"
  shows "runtime_cancelled (runtime_step rt e) \<and> rt_state (runtime_step rt e) \<noteq> RtNew"
proof (cases e)
  case (TokenCancelled tok)
  with assms show ?thesis
    by (simp add: token_cancel_cancelled) (simp add: token_cancel_def)
next
  case (Command c)
  show ?thesis
  proof (cases "is_work_command c")
    case True
    with Command assms work_refused show ?thesis by auto
  next
    case False
    have frame: "rt_state (snd (record_trace k w r)) = rt_state r" for k w r
      using record_trace_frame [of k w r] by (cases "record_trace k w r") auto
    show ?thesis
    proof (cases c)
      case CloseCmd
      let ?rt1 = "(token_cancel (rt_cancellation rt) rt)
                    \<lparr>rt_scheduler := scheduler_clear (rt_scheduler rt),
                     rt_microtasks := [], rt_state := RtClosed\<rparr>"
      have 1: "runtime_cancelled ?rt1"
        using token_cancel_cancelled [OF assms(1)]
        by (simp add: runtime_cancelled_def token_is_cancelled_def token_cancel_def)
      obtain r2 rt2 where rec: "record_trace CancellationRequested None ?rt1 = (r2, rt2)"
        by fastforce
      have 2: "runtime_cancelled rt2" "rt_state rt2 = RtClosed"
        using record_trace_cancelled [OF 1, of CancellationRequested None] record_trace_frame [OF rec]
        by (simp_all add: rec)
      have "runtime_cancelled (snd (runtime_close rt)) \<and> rt_state (snd (runtime_close rt)) \<noteq> RtNew"
        using assms(1,2) 2 rec record_trace_cancelled [OF 2(1)]
        by (cases "rt_state rt") (auto simp: runtime_close_def Let_def frame split: sum.splits)
      with CloseCmd Command show ?thesis by simp
    next
      case StartCmd
      with Command assms show ?thesis
        by (cases "rt_state rt") (auto simp: runtime_start_def)
    next
      case CancelCmd
      with Command assms frame show ?thesis
        by (auto simp: runtime_request_cancellation_def require_running_def token_cancel_def
            intro: record_trace_cancelled token_cancel_cancelled [unfolded token_cancel_def])
    qed (use False Command assms in auto)
  qed
qed

lemma closed_step:
  assumes "rt_state rt = RtClosed"
  shows "\<exists>flags. runtime_step rt e = rt\<lparr>rt_flags := flags\<rparr>"
proof -
  have same: "\<exists>flags. rt = rt\<lparr>rt_flags := flags\<rparr>" by (rule exI [of _ "rt_flags rt"]) simp
  show ?thesis
  proof (cases e)
    case (Command c)
    with assms same show ?thesis
      by (cases c) (auto simp: runtime_defs guarded_def require_running_def)
  next
    case (TokenCancelled tok)
    then show ?thesis by (auto simp: token_cancel_def)
  qed
qed

lemma closed_command_refused:
  "rt_state rt = RtClosed \<Longrightarrow> c \<noteq> TraceCmd \<Longrightarrow> reply_is_err (fst (run_command c rt))"
  by (cases c) (auto simp: runtime_defs guarded_def require_running_def)

section \<open>Properties\<close>

text \<open>
  Claim C32. From a new runtime, after any sequence of worker commands and of flags set by
  token holders, the runtime is well formed: the scheduler's invariant holds, the microtask
  queue and the trace are within their bounds, the retained trace is a gapless run of
  sequence numbers ending at the counter with non-decreasing clock readings, a runtime that
  is not running holds no work, and a closed runtime's token is cancelled.
\<close>

theorem runtime_always_wf:
  assumes "runtime_new m = Inr rt"
  shows "runtime_wf (fold (\<lambda>e rt. runtime_step rt e) es rt)"
  using runtime_new_wf [OF assms] by (rule rt.run_inv)

theorem runtime_always_wf_witness:
  "\<exists>rt. runtime_new 1 = Inr rt \<and>
     runtime_wf (fold (\<lambda>e rt. runtime_step rt e)
       [Command StartCmd, Command (ScheduleCmd CommitNavigation 0), TokenCancelled 1,
        Command PopReadyCmd, Command CloseCmd] rt)"
proof -
  obtain rt where rt: "runtime_new 1 = Inr rt" by (simp add: runtime_new_def scheduler_new_def)
  from runtime_always_wf [OF this] rt show ?thesis by blast
qed

text \<open>
  Closing is final: whatever is sent to a closed runtime, it stays closed with its
  scheduler, microtasks and trace as they were, and every command but reading the trace is
  answered with an error.
\<close>

theorem closed_runtime_inert:
  assumes "rt_state rt = RtClosed" and "rt' = fold (\<lambda>e rt. runtime_step rt e) es rt"
  shows "rt_state rt' = RtClosed \<and> rt_scheduler rt' = rt_scheduler rt \<and>
         rt_microtasks rt' = rt_microtasks rt \<and> rt_trace rt' = rt_trace rt \<and>
         (\<forall>c. c \<noteq> TraceCmd \<longrightarrow> reply_is_err (fst (run_command c rt')))"
proof -
  have "\<exists>flags. fold (\<lambda>e rt. runtime_step rt e) es rt = rt\<lparr>rt_flags := flags\<rparr>"
    using assms(1)
  proof (induction es arbitrary: rt)
    case Nil
    then show ?case by (intro exI [of _ "rt_flags rt"]) simp
  next
    case (Cons e es)
    from closed_step [OF Cons.prems] obtain flags where f: "runtime_step rt e = rt\<lparr>rt_flags := flags\<rparr>"
      by blast
    with Cons.prems Cons.IH [of "rt\<lparr>rt_flags := flags\<rparr>"] show ?case by auto
  qed
  with assms show ?thesis by (auto intro: closed_command_refused)
qed

theorem closed_runtime_inert_witness:
  "\<exists>rt. runtime_new 1 = Inr rt \<and>
     rt_state (runtime_step (runtime_step rt (Command StartCmd)) (Command CloseCmd)) = RtClosed \<and>
     rt_state (fold (\<lambda>e rt. runtime_step rt e) [Command StartCmd, Command PopReadyCmd]
        (runtime_step (runtime_step rt (Command StartCmd)) (Command CloseCmd))) = RtClosed"
proof -
  obtain rt where rt: "runtime_new 1 = Inr rt" by (simp add: runtime_new_def scheduler_new_def)
  have "rt_state (runtime_step (runtime_step rt (Command StartCmd)) (Command CloseCmd)) = RtClosed"
    using rt by (auto simp: runtime_new_def scheduler_new_def runtime_start_def runtime_close_def
        token_new_def token_cancel_def record_trace_def checked_add_def Let_def
        scheduler_clear_def)
  from closed_runtime_inert [OF this refl] this rt show ?thesis by blast
qed

text \<open>
  Once the token of a started runtime is set, by a cancel command, by closing or
  by any holder of a clone, no later event short of rolling the start back lets work
  through: scheduling, popping, advancing the clock and queueing microtasks are refused and
  change nothing.
\<close>

theorem cancellation_fences_work:
  assumes "runtime_cancelled rt" and "rt_state rt \<noteq> RtNew"
    and "Command RollbackStartCmd \<notin> set es" and "rt' = fold (\<lambda>e rt. runtime_step rt e) es rt"
    and "is_work_command c"
  shows "reply_is_err (fst (run_command c rt')) \<and> snd (run_command c rt') = rt'"
proof -
  have "runtime_cancelled (fold (\<lambda>e rt. runtime_step rt e) es rt)"
    using assms(1,2,3)
  proof (induction es arbitrary: rt)
    case (Cons e es)
    with cancelled_started_step [of rt e] show ?case by auto
  qed simp
  with assms(4,5) show ?thesis by (simp add: work_refused)
qed

theorem cancellation_fences_work_witness:
  "\<exists>rt. runtime_new 1 = Inr rt \<and>
     reply_is_err (fst (run_command (ScheduleCmd CommitNavigation 0)
       (fold (\<lambda>e rt. runtime_step rt e) [Command StartCmd]
          (runtime_step (runtime_step rt (Command StartCmd)) (TokenCancelled 1)))))"
proof -
  obtain rt where rt: "runtime_new 1 = Inr rt" by (simp add: runtime_new_def scheduler_new_def)
  let ?rt = "runtime_step (runtime_step rt (Command StartCmd)) (TokenCancelled 1)"
  have c: "runtime_cancelled ?rt" "rt_state ?rt \<noteq> RtNew"
    using rt by (auto simp: runtime_new_def scheduler_new_def runtime_start_def token_new_def
        token_cancel_def record_trace_def checked_add_def Let_def runtime_cancelled_def
        token_is_cancelled_def)
  have "Command RollbackStartCmd \<notin> set [Command StartCmd]" by simp
  from cancellation_fences_work [OF c this refl, of "ScheduleCmd CommitNavigation 0"] rt
  show ?thesis by auto
qed

text \<open>
  A start hands the runtime a token of its own: a holder that cancels any token
  handed out before the start does not cancel the started runtime.
\<close>

theorem start_isolates_old_tokens:
  assumes "rt_state rt = RtNew" and "runtime_start rt = (r, rt')" and "tok < length (rt_flags rt)"
  shows "rt_state rt' = RtRunning \<and> \<not> runtime_cancelled (token_cancel tok rt')"
proof -
  let ?rt1 = "(token_new rt)\<lparr>rt_state := RtRunning\<rparr>"
  from assms(1,2) have "record_trace Started None ?rt1 = (r, rt')"
    by (simp add: runtime_start_def)
  from record_trace_frame [OF this]
  have "rt_state rt' = RtRunning" "rt_cancellation rt' = length (rt_flags rt)"
    "rt_flags rt' = rt_flags rt @ [False]"
    by (simp_all add: token_new_def)
  with assms(3) show ?thesis
    by (simp add: runtime_cancelled_def token_is_cancelled_def token_cancel_def nth_append
        list_update_append)
qed

theorem start_isolates_old_tokens_witness:
  "\<exists>rt r rt'. runtime_new 1 = Inr rt \<and> runtime_start rt = (r, rt') \<and>
     \<not> runtime_cancelled (token_cancel 0 rt')"
proof -
  obtain rt where rt: "runtime_new 1 = Inr rt" by (simp add: runtime_new_def scheduler_new_def)
  then have "rt_state rt = RtNew" "0 < length (rt_flags rt)"
    by (auto simp: runtime_new_def split: sum.splits)
  moreover obtain r rt' where st: "runtime_start rt = (r, rt')" by fastforce
  ultimately have "\<not> runtime_cancelled (token_cancel 0 rt')"
    using start_isolates_old_tokens [of rt r rt' 0] by simp
  with rt st show ?thesis by blast
qed

end
