(* ===== verification/Nav_History.thy ===== *)
theory Nav_History
  imports Prelude
begin

text \<open>
  The bounded session history of the native browsing context
  (\<^verbatim>\<open>crates/glass-browser-core/src/native_engine/history.rs\<close>): a vector of committed entries,
  an index into it, a bound, and a saturating allocator of document identities.

  The JSON state a page attaches to an entry comes from a library, so its type is a
  parameter \<open>'v\<close> of the model and its null value an argument. Indices are \<open>usize\<close> and
  always below a vector length, so they are naturals.
\<close>

record native_point =
  px :: u32
  py :: u32

type_synonym scroll_map = "u32 \<rightharpoonup> native_point"

record 'v native_history_entry =
  he_url :: string
  he_revision :: u64
  he_scroll_offset :: native_point
  he_nested_scroll_offsets :: scroll_map
  he_state :: 'v
  he_document_id :: u64

datatype native_history_direction = Back | Forward

record 'v native_history =
  hs_entries :: "'v native_history_entry list"
  hs_current :: "nat option"
  hs_max_entries :: nat
  hs_next_document_id :: u64

section \<open>Operations\<close>

definition history_new :: "nat \<Rightarrow> 'v native_history" where
  "history_new m = \<lparr>hs_entries = [], hs_current = None, hs_max_entries = m, hs_next_document_id = 1\<rparr>"

definition vec_get :: "'a list \<Rightarrow> nat \<Rightarrow> 'a option" where
  "vec_get xs i = (if i < length xs then Some (xs ! i) else None)"

definition current_entry :: "'v native_history \<Rightarrow> 'v native_history_entry option" where
  "current_entry h = Option.bind (hs_current h) (vec_get (hs_entries h))"

definition allocate_document_id :: "'v native_history \<Rightarrow> u64 \<times> 'v native_history" where
  "allocate_document_id h =
     (hs_next_document_id h, h\<lparr>hs_next_document_id := saturating_add (hs_next_document_id h) 1\<rparr>)"

definition choose_document_id :: "bool \<Rightarrow> 'v native_history \<Rightarrow> u64 \<times> 'v native_history" where
  "choose_document_id same_document h =
     (if same_document
      then (case current_entry h of
              Some e \<Rightarrow> (he_document_id e, h)
            | None \<Rightarrow> allocate_document_id h)
      else allocate_document_id h)"

definition push_with_state ::
  "string \<Rightarrow> u64 \<Rightarrow> native_point \<Rightarrow> scroll_map \<Rightarrow> 'v \<Rightarrow> bool \<Rightarrow> 'v native_history \<Rightarrow> 'v native_history"
where
  "push_with_state url revision scroll_offset nested state same_document h =
     (let (document_id, h1) = choose_document_id same_document h;
          kept = (case hs_current h1 of
                    Some c \<Rightarrow> take (Suc c) (hs_entries h1)
                  | None \<Rightarrow> hs_entries h1);
          pushed = kept @ [\<lparr>he_url = url, he_revision = revision, he_scroll_offset = scroll_offset,
                            he_nested_scroll_offsets = nested, he_state = state,
                            he_document_id = document_id\<rparr>];
          bounded = (if length pushed > hs_max_entries h1
                     then drop (length pushed - hs_max_entries h1) pushed else pushed)
      in h1\<lparr>hs_entries := bounded,
            hs_current := (if length bounded = 0 then None else Some (length bounded - 1))\<rparr>)"

definition history_push :: "'v \<Rightarrow> string \<Rightarrow> u64 \<Rightarrow> native_point \<Rightarrow> 'v native_history \<Rightarrow> 'v native_history"
where
  "history_push null url revision scroll_offset h =
     push_with_state url revision scroll_offset Map.empty null False h"

definition push_same_document ::
  "'v \<Rightarrow> string \<Rightarrow> u64 \<Rightarrow> native_point \<Rightarrow> scroll_map \<Rightarrow> 'v native_history \<Rightarrow> 'v native_history" where
  "push_same_document null url revision scroll_offset nested h =
     push_with_state url revision scroll_offset nested null True h"

definition replace_current_with_state ::
  "string \<Rightarrow> u64 \<Rightarrow> native_point \<Rightarrow> scroll_map \<Rightarrow> 'v \<Rightarrow> bool \<Rightarrow> 'v native_history \<Rightarrow> 'v native_history"
where
  "replace_current_with_state url revision scroll_offset nested state same_document h =
     (let (document_id, h1) = choose_document_id same_document h in
      case hs_current h1 of
        None \<Rightarrow> push_with_state url revision scroll_offset nested state same_document h1
      | Some c \<Rightarrow>
          if c < length (hs_entries h1)
          then h1\<lparr>hs_entries := (hs_entries h1)[c :=
                   \<lparr>he_url = url, he_revision = revision, he_scroll_offset = scroll_offset,
                    he_nested_scroll_offsets = nested, he_state = state,
                    he_document_id = document_id\<rparr>]\<rparr>
          else push_with_state url revision scroll_offset nested state same_document h1)"

definition replace_current ::
  "'v \<Rightarrow> string \<Rightarrow> u64 \<Rightarrow> native_point \<Rightarrow> 'v native_history \<Rightarrow> 'v native_history" where
  "replace_current null url revision scroll_offset h =
     replace_current_with_state url revision scroll_offset Map.empty null False h"

definition can_go_back :: "'v native_history \<Rightarrow> bool" where
  "can_go_back h = (case hs_current h of None \<Rightarrow> False | Some i \<Rightarrow> 0 < i)"

definition can_go_forward :: "'v native_history \<Rightarrow> bool" where
  "can_go_forward h =
     (case hs_current h of None \<Rightarrow> False | Some i \<Rightarrow> Suc i < length (hs_entries h))"

definition target_index :: "native_history_direction \<Rightarrow> 'v native_history \<Rightarrow> nat option" where
  "target_index direction h =
     (case hs_current h of
        None \<Rightarrow> None
      | Some c \<Rightarrow>
          (case direction of
             Back \<Rightarrow> if c = 0 then None else Some (c - 1)
           | Forward \<Rightarrow> if Suc c < length (hs_entries h) then Some (Suc c) else None))"

definition is_same_document :: "nat \<Rightarrow> 'v native_history \<Rightarrow> bool" where
  "is_same_document i h =
     (case current_entry h of
        None \<Rightarrow> False
      | Some c \<Rightarrow>
          (case vec_get (hs_entries h) i of
             None \<Rightarrow> False
           | Some e \<Rightarrow> he_document_id e = he_document_id c))"

definition update_current_scroll ::
  "native_point \<Rightarrow> scroll_map \<Rightarrow> 'v native_history \<Rightarrow> 'v native_history" where
  "update_current_scroll scroll_offset nested h =
     (case hs_current h of
        None \<Rightarrow> h
      | Some i \<Rightarrow>
          if i < length (hs_entries h)
          then h\<lparr>hs_entries := (hs_entries h)[i := (hs_entries h ! i)
                   \<lparr>he_scroll_offset := scroll_offset, he_nested_scroll_offsets := nested\<rparr>]\<rparr>
          else h)"

definition activate ::
  "nat \<Rightarrow> u64 \<Rightarrow> 'v native_history \<Rightarrow> 'v native_history_entry option \<times> 'v native_history" where
  "activate i revision h =
     (if i < length (hs_entries h)
      then let e = (hs_entries h ! i)\<lparr>he_revision := revision\<rparr> in
           (Some e, h\<lparr>hs_entries := (hs_entries h)[i := e], hs_current := Some i\<rparr>)
      else (None, h))"

section \<open>The invariant\<close>

text \<open>
  The index points into the entries exactly when there are entries, the bound is respected,
  and every document identity was handed out by the allocator.
\<close>

definition history_wf :: "'v native_history \<Rightarrow> bool" where
  "history_wf h \<longleftrightarrow>
     (case hs_current h of None \<Rightarrow> hs_entries h = [] | Some i \<Rightarrow> i < length (hs_entries h)) \<and>
     length (hs_entries h) \<le> hs_max_entries h \<and>
     (\<forall>e \<in> set (hs_entries h).
        he_document_id e < hs_next_document_id h \<or> hs_next_document_id h = - 1)"

datatype 'v history_op =
    PushWithState string u64 native_point scroll_map 'v bool
  | ReplaceWithState string u64 native_point scroll_map 'v bool
  | UpdateScroll native_point scroll_map
  | Activate nat u64

fun history_step :: "'v native_history \<Rightarrow> 'v history_op \<Rightarrow> 'v native_history" where
  "history_step h (PushWithState u r p m v b) = push_with_state u r p m v b h"
| "history_step h (ReplaceWithState u r p m v b) = replace_current_with_state u r p m v b h"
| "history_step h (UpdateScroll p m) = update_current_scroll p m h"
| "history_step h (Activate i r) = snd (activate i r h)"

definition id_ok :: "u64 \<Rightarrow> u64 \<Rightarrow> bool" where
  "id_ok nxt d \<longleftrightarrow> d < nxt \<or> nxt = - 1"

lemma saturating_next: "(x::u64) < saturating_add x 1 \<or> saturating_add x 1 = - 1"
  by (auto simp: saturating_add_def order.strict_iff_order)

lemma id_ok_self: "id_ok (saturating_add d 1) d"
  using saturating_next [of d] by (simp add: id_ok_def)

lemma id_ok_mono: "id_ok n d \<Longrightarrow> n \<le> n' \<Longrightarrow> id_ok n' d"
  by (auto simp: id_ok_def word_order.extremum_unique)

lemma history_wf_alt:
  "history_wf h \<longleftrightarrow>
     (case hs_current h of None \<Rightarrow> hs_entries h = [] | Some i \<Rightarrow> i < length (hs_entries h)) \<and>
     length (hs_entries h) \<le> hs_max_entries h \<and>
     (\<forall>e \<in> set (hs_entries h). id_ok (hs_next_document_id h) (he_document_id e))"
  by (simp add: history_wf_def id_ok_def)

lemma choose_document_id_spec:
  assumes "choose_document_id b h = (d, h1)" "history_wf h"
  shows "hs_entries h1 = hs_entries h" "hs_current h1 = hs_current h"
    "hs_max_entries h1 = hs_max_entries h" "history_wf h1" "id_ok (hs_next_document_id h1) d"
proof -
  have mono: "id_ok (saturating_add (hs_next_document_id h) 1) x"
    if "id_ok (hs_next_document_id h) x" for x
    using that saturating_add_ge by (rule id_ok_mono)
  show "hs_entries h1 = hs_entries h" "hs_current h1 = hs_current h"
    "hs_max_entries h1 = hs_max_entries h"
    using assms(1) by (auto simp: choose_document_id_def allocate_document_id_def
        split: if_splits option.splits)
  show "history_wf h1"
    using assms
    by (auto simp: choose_document_id_def allocate_document_id_def history_wf_alt
        split: if_splits option.splits intro!: mono)
  show "id_ok (hs_next_document_id h1) d"
    using assms
    by (auto simp: choose_document_id_def allocate_document_id_def history_wf_alt id_ok_self
        current_entry_def vec_get_def bind_eq_Some_conv split: if_splits option.splits)
qed

lemma push_with_state_wf:
  assumes "history_wf h" shows "history_wf (push_with_state u r p m v b h)"
proof -
  obtain d h1 where c: "choose_document_id b h = (d, h1)" by fastforce
  note spec = choose_document_id_spec [OF c assms]
  show ?thesis
    using spec(4,5) c
    by (auto simp: push_with_state_def Let_def history_wf_alt
        dest!: in_set_dropD in_set_takeD split: option.splits)
qed

lemma replace_current_with_state_wf:
  assumes "history_wf h" shows "history_wf (replace_current_with_state u r p m v b h)"
proof -
  obtain d h1 where c: "choose_document_id b h = (d, h1)" by fastforce
  note spec = choose_document_id_spec [OF c assms]
  show ?thesis
  proof (cases "hs_current h1")
    case None
    with spec(4) c show ?thesis
      by (simp add: replace_current_with_state_def push_with_state_wf)
  next
    case (Some i)
    with spec(4) have "i < length (hs_entries h1)" by (simp add: history_wf_alt)
    with Some spec(4,5) c show ?thesis
      by (auto simp: replace_current_with_state_def history_wf_alt
          dest!: set_update_subset_insert [THEN subsetD])
  qed
qed

lemma update_current_scroll_wf: "history_wf h \<Longrightarrow> history_wf (update_current_scroll p m h)"
  by (auto simp: update_current_scroll_def history_wf_alt split: option.splits
      dest!: set_update_subset_insert [THEN subsetD])

lemma activate_wf: "history_wf h \<Longrightarrow> history_wf (snd (activate i r h))"
  by (cases "i < length (hs_entries h)")
    (auto simp: activate_def history_wf_alt Let_def
      dest!: set_update_subset_insert [THEN subsetD])

lemma history_step_wf: "history_wf h \<Longrightarrow> history_wf (history_step h e)"
  by (cases e) (auto intro: push_with_state_wf replace_current_with_state_wf
      update_current_scroll_wf activate_wf)

interpretation hist: machine history_step history_wf
  by unfold_locales (rule history_step_wf)

lemma history_new_wf: "history_wf (history_new m)"
  by (simp add: history_new_def history_wf_def)

section \<open>The history as a bounded zipper\<close>

text \<open>
  What the session history promises, without indices: the entries behind the current one
  (nearest first), the current one and those ahead.
\<close>

datatype 'e zipper = Zipper (behind: "'e list") (here: 'e) (ahead: "'e list")

definition zip_of :: "'v native_history \<Rightarrow> 'v native_history_entry zipper option" where
  "zip_of h =
     (case hs_current h of
        None \<Rightarrow> None
      | Some i \<Rightarrow> Some (Zipper (rev (take i (hs_entries h))) (hs_entries h ! i)
                              (drop (Suc i) (hs_entries h))))"

definition zpush :: "nat \<Rightarrow> 'e \<Rightarrow> 'e zipper \<Rightarrow> 'e zipper" where
  "zpush n e z = Zipper (take (n - 1) (here z # behind z)) e []"

fun zmove :: "native_history_direction \<Rightarrow> 'e zipper \<Rightarrow> 'e zipper option" where
  "zmove Back (Zipper (b # bs) c fs) = Some (Zipper bs b (c # fs))"
| "zmove Back (Zipper [] c fs) = None"
| "zmove Forward (Zipper bs c (f # fs)) = Some (Zipper (c # bs) f fs)"
| "zmove Forward (Zipper bs c []) = None"

definition zmap_here :: "('e \<Rightarrow> 'e) \<Rightarrow> 'e zipper \<Rightarrow> 'e zipper" where
  "zmap_here f z = Zipper (behind z) (f (here z)) (ahead z)"

definition new_entry ::
  "string \<Rightarrow> u64 \<Rightarrow> native_point \<Rightarrow> scroll_map \<Rightarrow> 'v \<Rightarrow> u64 \<Rightarrow> 'v native_history_entry" where
  "new_entry url revision scroll_offset nested state document_id =
     \<lparr>he_url = url, he_revision = revision, he_scroll_offset = scroll_offset,
      he_nested_scroll_offsets = nested, he_state = state, he_document_id = document_id\<rparr>"

lemma push_shape:
  assumes c: "choose_document_id b h = (d, h1)"
  shows "\<exists>rest. set rest \<subseteq> set (hs_entries h) \<and>
     hs_entries (push_with_state u r p m v b h) =
       (if hs_max_entries h = 0 then [] else rest @ [new_entry u r p m v d]) \<and>
     hs_current (push_with_state u r p m v b h) =
       (if hs_max_entries h = 0 then None else Some (length rest)) \<and>
     rest = (let kept = (case hs_current h of Some i \<Rightarrow> take (Suc i) (hs_entries h)
                                             | None \<Rightarrow> hs_entries h)
             in drop (Suc (length kept) - hs_max_entries h) kept)"
proof -
  have frame: "hs_entries h1 = hs_entries h" "hs_current h1 = hs_current h"
    "hs_max_entries h1 = hs_max_entries h"
    using c by (auto simp: choose_document_id_def allocate_document_id_def
        split: if_splits option.splits)
  define kept where "kept = (case hs_current h of Some i \<Rightarrow> take (Suc i) (hs_entries h)
                                                | None \<Rightarrow> hs_entries h)"
  define k where "k = Suc (length kept) - hs_max_entries h"
  let ?e = "new_entry u r p m v d"
  let ?b = "drop k (kept @ [?e])"
  have push: "push_with_state u r p m v b h = h1\<lparr>hs_entries := ?b,
      hs_current := (if length ?b = 0 then None else Some (length ?b - 1))\<rparr>"
    unfolding push_with_state_def c Let_def frame prod.case kept_def [symmetric]
      new_entry_def [symmetric] by (simp add: k_def)
  have b: "?b = (if hs_max_entries h = 0 then [] else drop k kept @ [?e])"
    by (auto simp: k_def)
  have "set (drop k kept) \<subseteq> set (hs_entries h)"
    by (auto simp: kept_def dest!: in_set_dropD in_set_takeD split: option.splits)
  with b push show ?thesis
    by (intro exI [of _ "drop k kept"]) (auto simp: k_def kept_def Let_def)
qed

lemma zip_of_snoc:
  "hs_entries h = xs @ [e] \<Longrightarrow> hs_current h = Some (length xs) \<Longrightarrow> zip_of h = Some (Zipper (rev xs) e [])"
  by (simp add: zip_of_def)

lemma push_with_state_zip:
  assumes wf: "history_wf h" and z: "zip_of h = Some z" and pos: "0 < hs_max_entries h"
  shows "zip_of (push_with_state u r p m v b h) =
         Some (zpush (hs_max_entries h) (new_entry u r p m v (fst (choose_document_id b h))) z)"
proof -
  obtain d h1 where c: "choose_document_id b h = (d, h1)" by fastforce
  from z obtain i where i: "hs_current h = Some i"
    and zi: "z = Zipper (rev (take i (hs_entries h))) (hs_entries h ! i)
                        (drop (Suc i) (hs_entries h))"
    by (auto simp: zip_of_def split: option.splits)
  from wf i have len: "i < length (hs_entries h)" "length (hs_entries h) \<le> hs_max_entries h"
    by (auto simp: history_wf_def)
  let ?kept = "take (Suc i) (hs_entries h)"
  let ?n = "hs_max_entries h"
  let ?rest = "drop (Suc (Suc i) - ?n) ?kept"
  have lk: "length ?kept = Suc i" using len by simp
  have kept: "rev ?kept = hs_entries h ! i # rev (take i (hs_entries h))"
    using len by (simp add: take_Suc_conv_app_nth)
  have rest: "rev ?rest = take (?n - 1) (rev ?kept)"
    using len unfolding rev_drop lk by (cases "Suc (Suc i) \<le> ?n") (auto simp: not_le le_Suc_eq)
  from push_shape [OF c, of u r p m v] pos i lk
  have "hs_entries (push_with_state u r p m v b h) = ?rest @ [new_entry u r p m v d]"
    "hs_current (push_with_state u r p m v b h) = Some (length ?rest)"
    by (auto simp: Let_def)
  then have "zip_of (push_with_state u r p m v b h) = Some (Zipper (rev ?rest) (new_entry u r p m v d) [])"
    by (rule zip_of_snoc)
  then show ?thesis by (simp add: rest kept zi zpush_def c del: drop_take)
qed

lemma target_index_zip:
  assumes wf: "history_wf h" and z: "zip_of h = Some z"
  shows "(case target_index dir h of
            None \<Rightarrow> None
          | Some i \<Rightarrow> zip_of (snd (activate i rev' h)))
         = map_option (zmap_here (\<lambda>e. e\<lparr>he_revision := rev'\<rparr>)) (zmove dir z)"
proof -
  from z obtain i where i: "hs_current h = Some i"
    and zi: "z = Zipper (rev (take i (hs_entries h))) (hs_entries h ! i)
                        (drop (Suc i) (hs_entries h))"
    by (auto simp: zip_of_def split: option.splits)
  from wf i have len: "i < length (hs_entries h)" by (auto simp: history_wf_def)
  show ?thesis
  proof (cases dir)
    case Back
    show ?thesis
    proof (cases i)
      case 0
      with Back i zi show ?thesis by (simp add: target_index_def)
    next
      case (Suc j)
      have "rev (take (Suc j) (hs_entries h)) = hs_entries h ! j # rev (take j (hs_entries h))"
        using len Suc by (simp add: take_Suc_conv_app_nth)
      moreover have "drop (Suc j) (hs_entries h) = hs_entries h ! i # drop (Suc i) (hs_entries h)"
        using len Suc by (simp add: Cons_nth_drop_Suc)
      ultimately show ?thesis
        using Back Suc i zi len
        by (simp add: target_index_def activate_def zip_of_def Let_def zmap_here_def)
    qed
  next
    case Forward
    show ?thesis
    proof (cases "Suc i < length (hs_entries h)")
      case True
      then have "drop (Suc i) (hs_entries h) = hs_entries h ! Suc i # drop (Suc (Suc i)) (hs_entries h)"
        by (simp add: Cons_nth_drop_Suc)
      moreover have "rev (take (Suc i) (hs_entries h)) = hs_entries h ! i # rev (take i (hs_entries h))"
        using len by (simp add: take_Suc_conv_app_nth)
      ultimately show ?thesis
        using Forward True i zi
        by (simp add: target_index_def activate_def zip_of_def Let_def zmap_here_def)
    next
      case False
      with Forward i zi show ?thesis by (simp add: target_index_def)
    qed
  qed
qed

lemma zip_of_activate: "zip_of h \<noteq> None \<Longrightarrow> zip_of (snd (activate i r h)) \<noteq> None"
  by (auto simp: activate_def zip_of_def Let_def split: option.splits)

lemma zmove_back_forward: "zmove Back z = Some z' \<Longrightarrow> zmove Forward z' = Some z"
  by (cases "(Back, z)" rule: zmove.cases) auto

section \<open>A concrete history\<close>

definition example_history :: "unit native_history" where
  "example_history =
     history_push () ''https://b/'' 2 \<lparr>px = 0, py = 0\<rparr>
       (history_push () ''https://a/'' 1 \<lparr>px = 0, py = 7\<rparr> (history_new 2))"

lemma example_history_eq:
  "example_history =
     \<lparr>hs_entries = [new_entry ''https://a/'' 1 \<lparr>px = 0, py = 7\<rparr> Map.empty () 1,
                   new_entry ''https://b/'' 2 \<lparr>px = 0, py = 0\<rparr> Map.empty () 2],
      hs_current = Some 1, hs_max_entries = 2, hs_next_document_id = 3\<rparr>"
  by (simp add: example_history_def history_push_def push_with_state_def history_new_def
      choose_document_id_def allocate_document_id_def Let_def new_entry_def saturating_add_def)

lemma example_history_wf: "history_wf example_history"
  by (simp add: example_history_eq history_wf_def new_entry_def)

lemma example_history_zip:
  "zip_of example_history =
     Some (Zipper [new_entry ''https://a/'' 1 \<lparr>px = 0, py = 7\<rparr> Map.empty () 1]
                  (new_entry ''https://b/'' 2 \<lparr>px = 0, py = 0\<rparr> Map.empty () 2) [])"
  by (simp add: example_history_eq zip_of_def)

section \<open>Properties\<close>

text \<open>
  From an empty history, any sequence of pushes, replacements, scroll updates and
  activations keeps the current index inside the entries (and absent exactly when there are
  none), the number of entries within the bound, and every entry's document identity one
  that the allocator has handed out.
\<close>

theorem history_always_wf:
  "history_wf (fold (\<lambda>e h. history_step h e) es (history_new m))"
  using history_new_wf by (rule hist.run_inv)

text \<open>
  Claim C33. Pushing an entry is a push onto a bounded zipper: the entry becomes the current
  one, what was ahead is gone, what was behind is kept with the old current entry in front,
  and when the bound is exceeded the oldest entries are the ones dropped.
\<close>

theorem push_refines_zipper:
  assumes "history_wf h" and "zip_of h = Some z" and "0 < hs_max_entries h"
  shows "zip_of (push_with_state url revision scroll nested state same h) =
         Some (zpush (hs_max_entries h)
                 (new_entry url revision scroll nested state (fst (choose_document_id same h))) z)"
  using assms by (rule push_with_state_zip)

theorem push_refines_zipper_witness:
  "\<exists>z. zip_of (push_with_state ''https://c/'' 3 \<lparr>px = 0, py = 0\<rparr> Map.empty () False example_history)
       = Some z \<and> behind z = [new_entry ''https://b/'' 2 \<lparr>px = 0, py = 0\<rparr> Map.empty () 2] \<and>
     he_url (here z) = ''https://c/''"
proof -
  have "0 < hs_max_entries example_history" by (simp add: example_history_eq)
  from push_refines_zipper [OF example_history_wf example_history_zip this] show ?thesis
    by (auto simp: zpush_def new_entry_def example_history_eq)
qed

text \<open>
  Traversal is the zipper's move: a direction has a target exactly when the
  zipper can move that way, and activating the target moves the zipper, changing nothing
  but the revision of the entry arrived at. Going back and then forward therefore returns
  to the entry started from.
\<close>

theorem traversal_refines_zipper:
  assumes "history_wf h" and "zip_of h = Some z"
  shows "(target_index dir h = None \<longleftrightarrow> zmove dir z = None) \<and>
         (\<forall>i z'. target_index dir h = Some i \<and> zmove dir z = Some z' \<longrightarrow>
            zip_of (snd (activate i rev' h)) = Some (zmap_here (\<lambda>e. e\<lparr>he_revision := rev'\<rparr>) z')) \<and>
         (\<forall>z'. zmove Back z = Some z' \<longrightarrow> zmove Forward z' = Some z)"
proof -
  note t = target_index_zip [OF assms, where dir = dir]
  have "target_index dir h = None \<longleftrightarrow> zmove dir z = None"
    using t [where rev' = 0] zip_of_activate [of h] assms(2)
    by (cases "target_index dir h"; cases "zmove dir z") auto
  with t [where rev' = rev'] show ?thesis by (auto intro: zmove_back_forward)
qed

theorem traversal_refines_zipper_witness:
  "target_index Back example_history = Some 0 \<and>
   zip_of (snd (activate 0 9 example_history)) =
     Some (Zipper [] (new_entry ''https://a/'' 9 \<lparr>px = 0, py = 7\<rparr> Map.empty () 1)
            [new_entry ''https://b/'' 2 \<lparr>px = 0, py = 0\<rparr> Map.empty () 2])"
proof -
  have t: "target_index Back example_history = Some 0"
    by (simp add: target_index_def example_history_eq)
  with traversal_refines_zipper [OF example_history_wf example_history_zip, of Back 9]
  show ?thesis by (auto simp: zmap_here_def new_entry_def)
qed

text \<open>
  A full commit starts a new document: after a push that is not a same-document
  navigation, while the identity space is not exhausted, no other entry of the history
  counts as the same document as the new current entry, so no traversal from it is treated
  as a same-document traversal.
\<close>

theorem full_push_is_new_document:
  assumes wf: "history_wf h" and fresh: "hs_next_document_id h \<noteq> - 1"
    and h': "h' = push_with_state url revision scroll nested state False h"
    and i: "i < length (hs_entries h')" and cur: "hs_current h' = Some c" and ne: "i \<noteq> c"
  shows "\<not> is_same_document i h'"
proof -
  let ?d = "hs_next_document_id h"
  have c: "choose_document_id False h =
             (?d, h\<lparr>hs_next_document_id := saturating_add ?d 1\<rparr>)"
    by (simp add: choose_document_id_def allocate_document_id_def)
  have old: "he_document_id e \<noteq> ?d" if "e \<in> set (hs_entries h)" for e
    using wf fresh that by (auto simp: history_wf_def)
  from push_shape [OF c, of url revision scroll nested state] cur obtain rest
    where sub: "set rest \<subseteq> set (hs_entries h)"
      and entries: "hs_entries h' = rest @ [new_entry url revision scroll nested state ?d]"
      and cc: "c = length rest"
    unfolding h' by (auto split: if_splits)
  have "i < length rest" using i ne entries cc by auto
  then have "rest ! i \<in> set (hs_entries h)" using sub by auto
  from old [OF this] show ?thesis
    using cur cc entries \<open>i < length rest\<close>
    by (simp add: is_same_document_def current_entry_def vec_get_def nth_append new_entry_def)
qed

theorem full_push_is_new_document_witness:
  "\<not> is_same_document 0
       (push_with_state ''https://c/'' 3 \<lparr>px = 0, py = 0\<rparr> Map.empty () False example_history)"
proof -
  let ?h = "push_with_state ''https://c/'' 3 \<lparr>px = 0, py = 0\<rparr> Map.empty () False example_history"
  have eval: "hs_next_document_id example_history \<noteq> - 1" "0 < length (hs_entries ?h)"
    "hs_current ?h = Some 1" "(0::nat) \<noteq> 1"
    by (simp_all add: example_history_eq push_with_state_def Let_def choose_document_id_def
        allocate_document_id_def)
  show ?thesis
    by (rule full_push_is_new_document [OF example_history_wf eval(1) refl eval(2,3,4)])
qed

end
