(* ===== verification/Global_Policy.thy ===== *)
theory Global_Policy
  imports Prelude "HOL-Library.While_Combinator"
begin

text \<open>
  The global hard denials of \<^verbatim>\<open>crates/glass-core/src/policy.rs\<close>: the wildcard matcher, the
  denial check over a pattern list and the bounds a policy file has to meet. Patterns and
  values are matched byte by byte, so a value is a \<open>string\<close>, whose characters are bytes.

  The matcher is the classic loop that backtracks to the most recent star only; it is kept as
  a loop (\<open>while_option\<close>), with the early return as part of the loop state. What the file
  system says of the policy file, its bytes, the JSON decoder and the URL parser are parameters.
\<close>

record policy =
  deny_providers :: "string list"
  deny_endpoint_hosts :: "string list"
  deny_shell :: "string list"

record match_state =
  m_i :: nat
  m_j :: nat
  m_star :: "nat option"
  m_mark :: nat
  m_failed :: bool

definition match_init :: match_state where
  "match_init = \<lparr>m_i = 0, m_j = 0, m_star = None, m_mark = 0, m_failed = False\<rparr>"

definition match_cond :: "string \<Rightarrow> match_state \<Rightarrow> bool" where
  "match_cond v st \<longleftrightarrow> \<not> m_failed st \<and> m_j st < length v"

definition match_body :: "string \<Rightarrow> string \<Rightarrow> match_state \<Rightarrow> match_state" where
  "match_body p v st =
     (if m_i st < length p \<and> (p ! m_i st = CHR ''?'' \<or> p ! m_i st = v ! m_j st)
      then st\<lparr>m_i := Suc (m_i st), m_j := Suc (m_j st)\<rparr>
      else if m_i st < length p \<and> p ! m_i st = CHR ''*''
      then st\<lparr>m_star := Some (m_i st), m_i := Suc (m_i st), m_mark := m_j st\<rparr>
      else case m_star st of
        Some s \<Rightarrow> st\<lparr>m_mark := Suc (m_mark st), m_j := Suc (m_mark st), m_i := Suc s\<rparr>
      | None \<Rightarrow> st\<lparr>m_failed := True\<rparr>)"

fun skip_stars :: "string \<Rightarrow> string" where
  "skip_stars [] = []"
| "skip_stars (c # cs) = (if c = CHR ''*'' then skip_stars cs else c # cs)"

definition matches_option :: "string \<Rightarrow> string \<Rightarrow> bool option" where
  "matches_option pattern value =
     map_option
       (\<lambda>st. \<not> m_failed st \<and> skip_stars (drop (m_i st) pattern) = [])
       (while_option (match_cond value) (match_body pattern value) match_init)"

definition matches :: "string \<Rightarrow> string \<Rightarrow> bool" where
  "matches pattern value = (matches_option pattern value = Some True)"

datatype policy_error =
    Blocked string string
  | PolicyMetadata string
  | PolicyNotRegular
  | PolicyUnreadable string
  | PolicyInvalidJson
  | PolicyInvalidPatterns
  | InvalidEndpoint

definition check :: "string list \<Rightarrow> string \<Rightarrow> string \<Rightarrow> (policy_error, unit) result" where
  "check patterns value kind =
     (case find (\<lambda>p. matches p value) patterns of
        Some pattern \<Rightarrow> Err (Blocked kind pattern)
      | None \<Rightarrow> Ok ())"

text \<open>
  What the file system says of \<open>policy.json\<close>, as \<open>symlink_metadata\<close> classifies it, and what
  reading at most 64 KiB of it gives; decoding the JSON is a parameter.
\<close>

datatype file_status = Missing | MetadataFailed string | IrregularFile | RegularFile

definition pattern_ok :: "string \<Rightarrow> bool" where
  "pattern_ok p \<longleftrightarrow> \<not> (p = [] \<or> length p > 256 \<or> CHR 0x00 \<in> set p)"

definition patterns_valid :: "policy \<Rightarrow> bool" where
  "patterns_valid pol \<longleftrightarrow>
     list_all (\<lambda>ps. \<not> (length ps > 64 \<or> \<not> list_all pattern_ok ps))
       [deny_providers pol, deny_endpoint_hosts pol, deny_shell pol]"

definition default_policy :: policy where
  "default_policy = \<lparr>deny_providers = [], deny_endpoint_hosts = [], deny_shell = []\<rparr>"

definition policy_load ::
  "(string \<Rightarrow> policy option) \<Rightarrow> file_status \<Rightarrow> (string, string) result \<Rightarrow>
   (policy_error, policy) result" where
  "policy_load decode status content =
     (case status of
        Missing \<Rightarrow> Ok default_policy
      | MetadataFailed e \<Rightarrow> Err (PolicyMetadata e)
      | IrregularFile \<Rightarrow> Err PolicyNotRegular
      | RegularFile \<Rightarrow>
          (case content of
             Inl e \<Rightarrow> Err (PolicyUnreadable e)
           | Inr bytes \<Rightarrow>
               (case decode bytes of
                  None \<Rightarrow> Err PolicyInvalidJson
                | Some pol \<Rightarrow>
                    if patterns_valid pol then Ok pol else Err PolicyInvalidPatterns)))"

text \<open>
  The two entry points. The URL parser of the endpoint is a parameter: no URL, a URL without
  a host, or a URL with its host.
\<close>

definition policy_provider ::
  "(policy_error, policy) result \<Rightarrow> (string \<Rightarrow> string option option) \<Rightarrow> string \<Rightarrow> string \<Rightarrow>
   (policy_error, unit) result" where
  "policy_provider loaded url_host kind endpoint =
     res_bind loaded (\<lambda>pol.
       res_bind (check (deny_providers pol) kind ''provider'') (\<lambda>_.
         res_bind (ok_or InvalidEndpoint (url_host endpoint)) (\<lambda>host.
           check (deny_endpoint_hosts pol) (case host of None \<Rightarrow> [] | Some h \<Rightarrow> h) ''endpoint'')))"

definition policy_shell ::
  "(policy_error, policy) result \<Rightarrow> string \<Rightarrow> (policy_error, unit) result" where
  "policy_shell loaded command = res_bind loaded (\<lambda>pol. check (deny_shell pol) command ''shell'')"

section \<open>The reference matcher\<close>

text \<open>What a wildcard pattern means: a star stands for any run of bytes, a question mark for one.\<close>

fun glob :: "string \<Rightarrow> string \<Rightarrow> bool" where
  "glob [] cs = (cs = [])"
| "glob (q # ps) cs =
     (if q = CHR ''*'' then (\<exists>k \<le> length cs. glob ps (drop k cs))
      else (case cs of [] \<Rightarrow> False | c # cs' \<Rightarrow> (q = CHR ''?'' \<or> q = c) \<and> glob ps cs'))"

definition no_star :: "string \<Rightarrow> bool" where
  "no_star s \<longleftrightarrow> CHR ''*'' \<notin> set s"

lemma glob_star_rest: "glob (CHR ''*'' # ps) cs \<longleftrightarrow> (\<exists>k \<le> length cs. glob ps (drop k cs))"
  by simp

lemma glob_Nil_iff: "glob ps [] \<longleftrightarrow> skip_stars ps = []"
  by (induction ps) auto

text \<open>A prefix without a star takes exactly as many bytes as it is long.\<close>

lemma glob_no_star_prefix:
  "no_star seg \<Longrightarrow> glob (seg @ ps) cs \<Longrightarrow> length seg \<le> length cs \<and> glob ps (drop (length seg) cs)"
proof (induction seg arbitrary: cs)
  case Nil
  then show ?case by simp
next
  case (Cons q seg)
  from Cons.prems obtain c cs' where cs: "cs = c # cs'" and "glob (seg @ ps) cs'"
    by (auto simp: no_star_def split: list.splits)
  with Cons show ?case by (auto simp: no_star_def)
qed

section \<open>The loop\<close>

text \<open>
  The loop state in range, with the segment between the last star and the pattern index free
  of stars and as long as the run of the value it is being tried on.
\<close>

definition in_range :: "string \<Rightarrow> string \<Rightarrow> match_state \<Rightarrow> bool" where
  "in_range p v st \<longleftrightarrow>
     m_i st \<le> length p \<and> m_j st \<le> length v \<and>
     (\<forall>s. m_star st = Some s \<longrightarrow> s < m_i st \<and> s < length p \<and> m_mark st \<le> m_j st)"

definition rest_matches :: "string \<Rightarrow> string \<Rightarrow> match_state \<Rightarrow> bool" where
  "rest_matches p v st \<longleftrightarrow>
     glob (drop (m_i st) p) (drop (m_j st) v) \<or>
     (\<exists>s. m_star st = Some s \<and>
        (\<exists>k. m_mark st < k \<and> k \<le> length v \<and> glob (drop (Suc s) p) (drop k v)))"

lemma in_range_body: "in_range p v st \<Longrightarrow> match_cond v st \<Longrightarrow> in_range p v (match_body p v st)"
  by (auto simp: in_range_def match_cond_def match_body_def split: option.splits)

definition match_rel :: "string \<Rightarrow> string \<Rightarrow> (match_state \<times> match_state) set" where
  "match_rel p v =
     measures [\<lambda>st. if m_failed st then 0 else 1,
               \<lambda>st. length p - (case m_star st of None \<Rightarrow> 0 | Some s \<Rightarrow> Suc s),
               \<lambda>st. length v - m_mark st, \<lambda>st. length v - m_j st]"

lemma match_body_decreases:
  "in_range p v st \<Longrightarrow> match_cond v st \<Longrightarrow> (match_body p v st, st) \<in> match_rel p v"
  by (auto simp: in_range_def match_cond_def match_body_def match_rel_def split: option.splits)

lemma match_loop_terminates:
  "\<exists>st. while_option (match_cond v) (match_body p v) match_init = Some st"
proof -
  have "in_range p v match_init" by (simp add: in_range_def match_init_def)
  moreover have "wf {(t, s). (in_range p v s \<and> match_cond v s) \<and> t = match_body p v s}"
    by (rule wf_subset [of "match_rel p v"]) (auto simp: match_rel_def intro: match_body_decreases [unfolded match_rel_def])
  ultimately show ?thesis
    using wf_while_option_Some [where P = "in_range p v" and b = "match_cond v" and c = "match_body p v"]
      in_range_body by blast
qed


section \<open>Soundness and completeness of the loop\<close>

definition finished_ok :: "string \<Rightarrow> match_state \<Rightarrow> bool" where
  "finished_ok p st \<longleftrightarrow> \<not> m_failed st \<and> skip_stars (drop (m_i st) p) = []"

lemma matches_iff_final:
  assumes "while_option (match_cond v) (match_body p v) match_init = Some st"
  shows "matches p v \<longleftrightarrow> finished_ok p st"
  using assms by (simp add: matches_def matches_option_def finished_ok_def)

lemma glob_step:
  assumes "i < length p" "j < length v" "p ! i \<noteq> CHR ''*''"
  shows "glob (drop i p) (drop j v) \<longleftrightarrow>
    (p ! i = CHR ''?'' \<or> p ! i = v ! j) \<and> glob (drop (Suc i) p) (drop (Suc j) v)"
  using assms by (simp add: Cons_nth_drop_Suc [symmetric])

lemma glob_star_step:
  assumes "i < length p" "p ! i = CHR ''*''" "j \<le> length v"
  shows "glob (drop i p) (drop j v) \<longleftrightarrow>
    (\<exists>k. j \<le> k \<and> k \<le> length v \<and> glob (drop (Suc i) p) (drop k v))"
proof -
  have "glob (drop i p) (drop j v) \<longleftrightarrow>
      (\<exists>k \<le> length v - j. glob (drop (Suc i) p) (drop (k + j) v))"
    using assms by (simp add: Cons_nth_drop_Suc [symmetric])
  also have "\<dots> \<longleftrightarrow> (\<exists>k. j \<le> k \<and> k \<le> length v \<and> glob (drop (Suc i) p) (drop k v))"
    using assms(3) by (metis Nat.le_diff_conv2 add.commute le_add1 le_add_diff_inverse2)
  finally show ?thesis .
qed

lemma rest_matches_sound_step:
  assumes r: "in_range p v st" "match_cond v st"
    and nf: "\<not> m_failed (match_body p v st)"
    and after: "rest_matches p v (match_body p v st)"
  shows "rest_matches p v st"
proof -
  have j: "m_j st < length v" using r by (simp add: match_cond_def)
  consider (lit) "m_i st < length p" "p ! m_i st = CHR ''?'' \<or> p ! m_i st = v ! m_j st"
    | (star) "m_i st < length p" "p ! m_i st = CHR ''*''" "v ! m_j st \<noteq> CHR ''*''"
    | (retry) s where "\<not> (m_i st < length p \<and> (p ! m_i st = CHR ''?'' \<or> p ! m_i st = v ! m_j st))"
        "\<not> (m_i st < length p \<and> p ! m_i st = CHR ''*'')" "m_star st = Some s"
    using nf by (auto simp: match_body_def split: if_splits option.splits)
  then show ?thesis
  proof cases
    case lit
    have "glob (drop (Suc (m_i st)) p) (drop (Suc (m_j st)) v) \<Longrightarrow> glob (drop (m_i st) p) (drop (m_j st) v)"
      using lit j by (cases "p ! m_i st = CHR ''*''")
        (auto simp: glob_step glob_star_step intro: exI [of _ "Suc (m_j st)"])
    with after lit show ?thesis by (auto simp: rest_matches_def match_body_def)
  next
    case star
    then have b: "match_body p v st = st\<lparr>m_star := Some (m_i st), m_i := Suc (m_i st), m_mark := m_j st\<rparr>"
      by (simp add: match_body_def)
    from after b have "\<exists>k. m_j st \<le> k \<and> k \<le> length v \<and> glob (drop (Suc (m_i st)) p) (drop k v)"
      using j by (auto simp: rest_matches_def intro: less_imp_le)
    with star j show ?thesis by (simp add: rest_matches_def glob_star_step)
  next
    case retry
    then have b: "match_body p v st = st\<lparr>m_mark := Suc (m_mark st), m_j := Suc (m_mark st), m_i := Suc s\<rparr>"
      by (auto simp: match_body_def)
    have "Suc (m_mark st) \<le> length v"
      using r j retry by (auto simp: in_range_def)
    with after b retry show ?thesis
      by (auto simp: rest_matches_def intro: Suc_lessD)
  qed
qed

text \<open>
  For completeness the segment tried since the last star matters: it has no star of its own
  and has been matched against as many bytes as it is long.
\<close>

definition segment_inv :: "string \<Rightarrow> match_state \<Rightarrow> bool" where
  "segment_inv p st \<longleftrightarrow>
     (\<forall>s. m_star st = Some s \<longrightarrow>
        m_j st - m_mark st = m_i st - Suc s \<and> no_star (take (m_i st - Suc s) (drop (Suc s) p)))"

lemma no_star_nth: "no_star v \<Longrightarrow> j < length v \<Longrightarrow> v ! j \<noteq> CHR ''*''"
  by (auto simp: no_star_def in_set_conv_nth)

lemma segment_inv_body:
  assumes "no_star v" "in_range p v st" "match_cond v st" "segment_inv p st"
  shows "segment_inv p (match_body p v st)"
proof (cases "m_i st < length p \<and> (p ! m_i st = CHR ''?'' \<or> p ! m_i st = v ! m_j st)")
  case True
  have "p ! m_i st \<noteq> CHR ''*''"
    using True assms by (auto simp: match_cond_def dest: no_star_nth)
  moreover have "take (Suc (m_i st) - Suc s) (drop (Suc s) p) =
      take (m_i st - Suc s) (drop (Suc s) p) @ [p ! m_i st]" if "s < m_i st" for s
    using that True take_Suc_conv_app_nth [of "m_i st - Suc s" "drop (Suc s) p"]
    by (simp add: Suc_diff_Suc diff_less_mono)
  ultimately show ?thesis
    using True assms by (auto simp: segment_inv_def match_body_def in_range_def no_star_def)
next
  case False
  with assms show ?thesis
    by (auto simp: segment_inv_def match_body_def no_star_def split: option.splits)
qed

text \<open>The alternatives of an older star are subsumed by what the pattern index can still match.\<close>

lemma older_star_shift:
  assumes "in_range p v st" "segment_inv p st" "m_star st = Some s"
    and k: "m_mark st < k" "k \<le> length v" "glob (drop (Suc s) p) (drop k v)"
  shows "\<exists>k'. m_j st < k' \<and> k' \<le> length v \<and> glob (drop (m_i st) p) (drop k' v)"
proof -
  let ?l = "m_i st - Suc s"
  have l: "m_j st - m_mark st = ?l" "no_star (take ?l (drop (Suc s) p))" "s < m_i st" "m_mark st \<le> m_j st"
    "m_i st \<le> length p"
    using assms by (auto simp: segment_inv_def in_range_def)
  have len: "length (take ?l (drop (Suc s) p)) = ?l" using l by simp
  have "drop (Suc s) p = take ?l (drop (Suc s) p) @ drop (m_i st) p"
    using l by (metis Suc_leI append_take_drop_id drop_drop le_add_diff_inverse2)
  with k(3) have "glob (take ?l (drop (Suc s) p) @ drop (m_i st) p) (drop k v)" by simp
  from glob_no_star_prefix [OF l(2) this] len k(2)
  have "?l + k \<le> length v" "glob (drop (m_i st) p) (drop (?l + k) v)" by auto
  moreover have "m_j st < ?l + k" using l k(1) by linarith
  ultimately show ?thesis by blast
qed

lemma stuck_no_glob:
  assumes "j < length v" "\<not> (i < length p \<and> (p ! i = CHR ''?'' \<or> p ! i = v ! j))"
    "\<not> (i < length p \<and> p ! i = CHR ''*'')"
  shows "\<not> glob (drop i p) (drop j v)"
proof (cases "i < length p")
  case True
  then show ?thesis using assms by (simp add: glob_step)
next
  case False
  then show ?thesis using assms(1) by simp
qed

lemma rest_matches_complete_step:
  assumes nv: "no_star v" and r: "in_range p v st" "match_cond v st" and seg: "segment_inv p st"
    and before: "rest_matches p v st"
  shows "\<not> m_failed (match_body p v st) \<and> rest_matches p v (match_body p v st)"
proof -
  have j: "m_j st < length v" "\<not> m_failed st" using r by (simp_all add: match_cond_def)
  have vj: "v ! m_j st \<noteq> CHR ''*''" using nv j by (simp add: no_star_nth)
  let ?lit = "m_i st < length p \<and> (p ! m_i st = CHR ''?'' \<or> p ! m_i st = v ! m_j st)"
  let ?star = "m_i st < length p \<and> p ! m_i st = CHR ''*''"
  consider (lit) ?lit | (star) "\<not> ?lit" ?star | (retry) "\<not> ?lit" "\<not> ?star" by blast
  then show ?thesis
  proof cases
    case lit
    then have "p ! m_i st \<noteq> CHR ''*''" using vj by auto
    with lit j before show ?thesis
      by (auto simp: rest_matches_def match_body_def glob_step)
  next
    case star
    have "\<exists>k. m_j st \<le> k \<and> k \<le> length v \<and> glob (drop (m_i st) p) (drop k v)"
      using before j(1) unfolding rest_matches_def
      by (meson older_star_shift [OF r(1) seg] less_imp_le le_refl)
    then obtain k where "m_j st \<le> k" "k \<le> length v" "glob (drop (Suc (m_i st)) p) (drop k v)"
      using star by (auto simp: glob_star_step) (meson order_trans)
    moreover have "match_body p v st = st\<lparr>m_star := Some (m_i st), m_i := Suc (m_i st), m_mark := m_j st\<rparr>"
      using star vj by (auto simp: match_body_def)
    ultimately show ?thesis
      using j(2) by (cases "k = m_j st") (auto simp: rest_matches_def)
  next
    case retry
    with before stuck_no_glob [OF j(1)] obtain s k where
      k: "m_star st = Some s" "m_mark st < k" "k \<le> length v" "glob (drop (Suc s) p) (drop k v)"
      by (auto simp: rest_matches_def)
    moreover from retry k(1) have
      "match_body p v st = st\<lparr>m_mark := Suc (m_mark st), m_j := Suc (m_mark st), m_i := Suc s\<rparr>"
      by (auto simp: match_body_def)
    ultimately show ?thesis
      using j(2) by (cases "k = Suc (m_mark st)") (auto simp: rest_matches_def)
  qed
qed

lemma final_rest_matches:
  assumes "in_range p v st" "segment_inv p st" "\<not> match_cond v st" "\<not> m_failed st"
  shows "rest_matches p v st \<longleftrightarrow> finished_ok p st"
proof -
  have "m_j st = length v" using assms by (simp add: in_range_def match_cond_def)
  moreover have "\<not> (\<exists>s k. m_star st = Some s \<and> m_mark st < k \<and> k \<le> length v \<and>
      glob (drop (Suc s) p) (drop k v))"
    using older_star_shift [OF assms(1,2)] calculation by fastforce
  ultimately show ?thesis
    using assms(4) by (auto simp: rest_matches_def finished_ok_def glob_Nil_iff)
qed

lemma match_init_facts:
  "in_range p v match_init" "segment_inv p match_init"
  "rest_matches p v match_init \<longleftrightarrow> glob p v" "\<not> m_failed match_init"
  by (simp_all add: in_range_def segment_inv_def rest_matches_def match_init_def)

lemma matches_imp_glob: "matches p v \<Longrightarrow> glob p v"
proof -
  assume m: "matches p v"
  obtain st where w: "while_option (match_cond v) (match_body p v) match_init = Some st"
    using match_loop_terminates by blast
  let ?P = "\<lambda>st. in_range p v st \<and> (\<not> m_failed st \<longrightarrow> rest_matches p v st \<longrightarrow> glob p v)"
  have "?P st"
  proof (rule while_option_rule [OF _ w])
    show "?P match_init" by (simp add: match_init_facts)
    fix s assume "?P s" "match_cond v s"
    then show "?P (match_body p v s)"
      using in_range_body [of p v s] rest_matches_sound_step [of p v s] by (auto simp: match_cond_def)
  qed
  moreover have "finished_ok p st" using m matches_iff_final [OF w] by simp
  moreover have "\<not> match_cond v st" using while_option_stop [OF w] .
  ultimately show ?thesis
    by (auto simp: finished_ok_def rest_matches_def in_range_def match_cond_def glob_Nil_iff)
qed

lemma glob_imp_matches: "no_star v \<Longrightarrow> glob p v \<Longrightarrow> matches p v"
proof -
  assume nv: "no_star v" and g: "glob p v"
  obtain st where w: "while_option (match_cond v) (match_body p v) match_init = Some st"
    using match_loop_terminates by blast
  let ?P = "\<lambda>st. in_range p v st \<and> segment_inv p st \<and> \<not> m_failed st \<and> rest_matches p v st"
  have "?P st"
  proof (rule while_option_rule [OF _ w])
    show "?P match_init" using g by (simp add: match_init_facts)
    fix s assume "?P s" "match_cond v s"
    then show "?P (match_body p v s)"
      using in_range_body segment_inv_body [OF nv] rest_matches_complete_step [OF nv] by blast
  qed
  with final_rest_matches [of p v st] while_option_stop [OF w] matches_iff_final [OF w]
  show ?thesis by blast
qed


section \<open>What a denial means\<close>

text \<open>
  Claim C34. The matcher always returns, and for a value without a literal star its answer is
  exactly what the wildcard pattern means: backtracking to the most recent star only loses no match.
\<close>

theorem matches_correct:
  "(\<exists>b. matches_option p v = Some b) \<and> (no_star v \<longrightarrow> (matches p v \<longleftrightarrow> glob p v))"
proof
  show "\<exists>b. matches_option p v = Some b"
    using match_loop_terminates [of v p] by (auto simp: matches_option_def)
  show "no_star v \<longrightarrow> (matches p v \<longleftrightarrow> glob p v)"
    using matches_imp_glob glob_imp_matches by blast
qed

lemma matches_correct_witness:
  "no_star ''git push -f'' \<and> matches ''git*-f'' ''git push -f'' \<and> glob ''git*-f'' ''git push -f''"
proof -
  have "no_star ''git push -f''" by (simp add: no_star_def)
  moreover have "matches ''git*-f'' ''git push -f''" by code_simp
  ultimately show ?thesis using matches_correct [of "''git*-f''" "''git push -f''"] by blast
qed

lemma check_Ok_iff: "check ps v kind = Ok () \<longleftrightarrow> (\<forall>p \<in> set ps. \<not> matches p v)"
  by (auto simp: check_def find_None_iff find_Some_iff split: option.splits)

lemma check_Err_iff:
  "check ps v kind = Err e \<longleftrightarrow> (\<exists>p. find (\<lambda>p. matches p v) ps = Some p \<and> e = Blocked kind p)"
  by (auto simp: check_def split: option.splits)

text \<open>
  Claim C35. A shell command without a literal star is let through exactly when there is no policy file or
  the policy loads and none of its shell patterns covers the command; every policy that cannot be
  read, decoded or validated refuses the command. A star in the command may hide a match
  (\<open>literal_star_hides_match\<close>).
\<close>

theorem shell_allowed_iff:
  assumes "no_star command"
  shows "policy_shell (policy_load decode status content) command = Ok () \<longleftrightarrow>
    status = Missing \<or>
    (status = RegularFile \<and>
      (\<exists>bytes pol. content = Ok bytes \<and> decode bytes = Some pol \<and> patterns_valid pol \<and>
        (\<forall>p \<in> set (deny_shell pol). \<not> glob p command)))"
proof -
  have g: "matches p command \<longleftrightarrow> glob p command" for p
    using assms matches_imp_glob glob_imp_matches by blast
  show ?thesis
    by (auto simp: policy_shell_def policy_load_def res_bind_Inr_iff check_Ok_iff g default_policy_def
        split: file_status.splits sum.splits option.splits)
qed

lemma shell_allowed_iff_witness:
  "no_star ''ls'' \<and>
   policy_shell (policy_load (\<lambda>_. Some \<lparr>deny_providers = [], deny_endpoint_hosts = [], deny_shell = [''rm *'']\<rparr>)
     RegularFile (Ok ''{}'')) ''ls'' = Ok ()"
proof -
  let ?pol = "\<lparr>deny_providers = [], deny_endpoint_hosts = [], deny_shell = [''rm *'']\<rparr>"
  have n: "no_star ''ls''" by (simp add: no_star_def)
  have "patterns_valid ?pol" by (simp add: patterns_valid_def pattern_ok_def)
  then show ?thesis
    using n shell_allowed_iff [OF n, of "\<lambda>_. Some ?pol" RegularFile "Ok ''{}''"] by simp
qed

text \<open>
  A provider that is let through matches no provider pattern, and its endpoint parsed
  to a host (the empty one when the URL has none) that matches no endpoint pattern; the
  provider denial is reported before the endpoint is looked at.
\<close>

theorem provider_checks_in_order:
  "policy_provider (Ok pol) url_host kind endpoint =
     (case find (\<lambda>p. matches p kind) (deny_providers pol) of
        Some p \<Rightarrow> Err (Blocked ''provider'' p)
      | None \<Rightarrow>
          (case url_host endpoint of
             None \<Rightarrow> Err InvalidEndpoint
           | Some host \<Rightarrow>
               (case find (\<lambda>p. matches p (case host of None \<Rightarrow> [] | Some h \<Rightarrow> h)) (deny_endpoint_hosts pol) of
                  Some p \<Rightarrow> Err (Blocked ''endpoint'' p)
                | None \<Rightarrow> Ok ())))"
  by (auto simp: policy_provider_def check_def split: option.splits)

text \<open>
  Where the value itself holds a star the matcher can miss a match: the literal star
  of the value consumes the pattern's star as if it were an ordinary byte, and the pattern
  loses its wildcard. A deny pattern for any command that contains \<open>rm\<close> lets a command
  through that starts with a star.
\<close>

theorem literal_star_hides_match:
  "glob ''*rm*'' ''*; rm x'' \<and> \<not> matches ''*rm*'' ''*; rm x''
   \<and> check [''*rm*''] ''*; rm x'' ''shell'' = Ok ()"
proof -
  have "glob (drop 1 ''*rm*'') (drop 3 ''*; rm x'')"
    by (simp add: glob_star_rest exI [of _ 2])
  then have "glob ''*rm*'' ''*; rm x''"
    unfolding glob_star_rest by (intro exI [of _ 3]) simp
  moreover have "\<not> matches ''*rm*'' ''*; rm x''" by code_simp
  ultimately show ?thesis by (simp add: check_def)
qed

end
