(* ===== verification/BTree_Map.thy ===== *)
theory BTree_Map
  imports Prelude "HOL-Library.List_Lexorder" "HOL-Library.Char_ord"
begin

text \<open>
  The ordered maps of the Rust code (\<open>BTreeMap\<close>) as association lists sorted by key. Iteration
  order is part of the model, since the code takes the first match of a traversal; lookups
  are \<open>map_of\<close>. The interface the components use is the locale \<open>ordered_map\<close>, interpreted here on
  the sorted lists; \<open>bt_entry\<close> and \<open>bt_adjust\<close> are the entry and \<open>get_mut\<close> idioms.
\<close>

type_synonym ('k, 'v) btree = "('k \<times> 'v) list"

definition bt_wf :: "('k::linorder, 'v) btree \<Rightarrow> bool" where
  "bt_wf m \<longleftrightarrow> sorted_wrt (<) (map fst m)"

definition bt_get :: "('k, 'v) btree \<Rightarrow> 'k \<Rightarrow> 'v option" where
  "bt_get m k = map_of m k"

definition bt_contains :: "('k, 'v) btree \<Rightarrow> 'k \<Rightarrow> bool" where
  "bt_contains m k \<longleftrightarrow> bt_get m k \<noteq> None"

definition bt_values :: "('k, 'v) btree \<Rightarrow> 'v list" where
  "bt_values m = map snd m"

fun bt_insert :: "'k::linorder \<Rightarrow> 'v \<Rightarrow> ('k, 'v) btree \<Rightarrow> ('k, 'v) btree" where
  "bt_insert k v [] = [(k, v)]"
| "bt_insert k v ((k', v') # m) =
     (if k < k' then (k, v) # (k', v') # m
      else if k = k' then (k, v) # m
      else (k', v') # bt_insert k v m)"

definition bt_remove :: "'k \<Rightarrow> ('k, 'v) btree \<Rightarrow> ('k, 'v) btree" where
  "bt_remove k m = filter (\<lambda>kv. fst kv \<noteq> k) m"

definition bt_retain :: "('k \<Rightarrow> bool) \<Rightarrow> ('k, 'v) btree \<Rightarrow> ('k, 'v) btree" where
  "bt_retain P m = filter (\<lambda>kv. P (fst kv)) m"

definition bt_map :: "('v \<Rightarrow> 'w) \<Rightarrow> ('k, 'v) btree \<Rightarrow> ('k, 'w) btree" where
  "bt_map f m = map (\<lambda>kv. (fst kv, f (snd kv))) m"

definition bt_get_or :: "'v \<Rightarrow> ('k, 'v) btree \<Rightarrow> 'k \<Rightarrow> 'v" where
  "bt_get_or d m k = (case bt_get m k of None \<Rightarrow> d | Some v \<Rightarrow> v)"

definition bt_entry :: "'k::linorder \<Rightarrow> 'v \<Rightarrow> ('v \<Rightarrow> 'v) \<Rightarrow> ('k, 'v) btree \<Rightarrow> ('k, 'v) btree" where
  "bt_entry k d f m = bt_insert k (f (bt_get_or d m k)) m"

definition bt_adjust :: "'k::linorder \<Rightarrow> ('v \<Rightarrow> 'v) \<Rightarrow> ('k, 'v) btree \<Rightarrow> ('k, 'v) btree" where
  "bt_adjust k f m = (case bt_get m k of None \<Rightarrow> m | Some v \<Rightarrow> bt_insert k (f v) m)"

section \<open>Lookup laws\<close>

lemma bt_get_Nil [simp]: "bt_get [] k = None"
  by (simp add: bt_get_def)

lemma bt_get_insert [simp]: "bt_get (bt_insert k v m) j = (if j = k then Some v else bt_get m j)"
  by (induction m) (auto simp: bt_get_def)

lemma bt_get_remove [simp]: "bt_get (bt_remove k m) j = (if j = k then None else bt_get m j)"
  by (induction m) (auto simp: bt_get_def bt_remove_def)

lemma bt_get_retain [simp]: "bt_get (bt_retain P m) j = (if P j then bt_get m j else None)"
  by (induction m) (auto simp: bt_get_def bt_retain_def)

lemma bt_get_map [simp]: "bt_get (bt_map f m) j = map_option f (bt_get m j)"
  by (induction m) (auto simp: bt_get_def bt_map_def)

lemma bt_get_entry [simp]:
  "bt_get (bt_entry k d f m) j = (if j = k then Some (f (bt_get_or d m k)) else bt_get m j)"
  by (simp add: bt_entry_def)

lemma bt_get_adjust [simp]:
  "bt_get (bt_adjust k f m) j = (if j = k then map_option f (bt_get m k) else bt_get m j)"
  by (auto simp: bt_adjust_def split: option.splits)

lemma bt_get_or_simps:
  "bt_get m k = Some v \<Longrightarrow> bt_get_or d m k = v"
  "bt_get m k = None \<Longrightarrow> bt_get_or d m k = d"
  by (simp_all add: bt_get_or_def)

lemma bt_contains_iff: "bt_contains m k \<longleftrightarrow> (\<exists>v. bt_get m k = Some v)"
  by (auto simp: bt_contains_def)

section \<open>Well-formedness\<close>

lemma bt_wf_Nil [simp]: "bt_wf []"
  by (simp add: bt_wf_def)

lemma bt_get_insert_fun: "bt_get (bt_insert k v m) = (bt_get m)(k \<mapsto> v)"
  by auto

lemma bt_dom: "dom (bt_get m) = fst ` set m"
  by (simp add: bt_get_def [abs_def] dom_map_of_conv_image_fst)

lemma fst_set_bt_insert: "fst ` set (bt_insert k v m) = insert k (fst ` set m)"
  by (metis bt_dom bt_get_insert_fun dom_fun_upd option.distinct(1))

lemma bt_wf_insert [simp, intro]: "bt_wf m \<Longrightarrow> bt_wf (bt_insert k v m)"
proof (induction m)
  case Nil
  then show ?case by (simp add: bt_wf_def)
next
  case (Cons kv m)
  obtain k' v' where kv: "kv = (k', v')" by fastforce
  have "bt_wf (bt_insert k v m)" using Cons by (simp add: bt_wf_def)
  moreover have "\<forall>x \<in> set (map fst (bt_insert k v m)). k' < x" if "k' < k"
    using that Cons.prems fst_set_bt_insert [of k v m] by (auto simp: kv bt_wf_def)
  ultimately show ?case
    using Cons.prems by (auto simp: kv bt_wf_def)
qed

lemma bt_wf_filter: "bt_wf m \<Longrightarrow> bt_wf (filter P m)"
  by (induction m) (auto simp: bt_wf_def)

lemma bt_wf_remove [simp, intro]: "bt_wf m \<Longrightarrow> bt_wf (bt_remove k m)"
  by (simp add: bt_remove_def bt_wf_filter)

lemma bt_wf_retain [simp, intro]: "bt_wf m \<Longrightarrow> bt_wf (bt_retain P m)"
  by (simp add: bt_retain_def bt_wf_filter)

lemma bt_wf_map [simp]: "bt_wf (bt_map f m) = bt_wf m"
  by (simp add: bt_wf_def bt_map_def comp_def)

lemma bt_wf_entry [simp, intro]: "bt_wf m \<Longrightarrow> bt_wf (bt_entry k d f m)"
  by (simp add: bt_entry_def)

lemma bt_wf_adjust [simp, intro]: "bt_wf m \<Longrightarrow> bt_wf (bt_adjust k f m)"
  by (simp add: bt_adjust_def split: option.splits)

lemma bt_wf_distinct: "bt_wf m \<Longrightarrow> distinct (map fst m)"
  by (simp add: bt_wf_def strict_sorted_iff)

lemma bt_get_iff_mem: "bt_wf m \<Longrightarrow> bt_get m k = Some v \<longleftrightarrow> (k, v) \<in> set m"
  by (simp add: bt_get_def bt_wf_distinct map_of_eq_Some_iff)

lemma bt_get_mem: "bt_get m k = Some v \<Longrightarrow> (k, v) \<in> set m"
  by (simp add: bt_get_def map_of_SomeD)

lemma in_bt_values_iff: "bt_wf m \<Longrightarrow> v \<in> set (bt_values m) \<longleftrightarrow> (\<exists>k. bt_get m k = Some v)"
  by (force simp: bt_values_def bt_get_iff_mem)

lemma bt_get_in_values: "bt_get m k = Some v \<Longrightarrow> v \<in> set (bt_values m)"
  by (force simp: bt_values_def dest: bt_get_mem)

lemma bt_ball_iff:
  "bt_wf m \<Longrightarrow> (\<forall>kv \<in> set m. P (fst kv) (snd kv)) \<longleftrightarrow> (\<forall>k v. bt_get m k = Some v \<longrightarrow> P k v)"
  by (auto simp: bt_get_iff_mem)

text \<open>An assignment through \<open>get_mut\<close> leaves the order of the keys.\<close>

lemma adjust_as_map: "bt_wf m \<Longrightarrow> bt_adjust k f m = map (\<lambda>(i, v). (i, if i = k then f v else v)) m"
proof (induction m)
  case (Cons kv m)
  obtain i v where kv: "kv = (i, v)" by fastforce
  have wf: "bt_wf m" "\<forall>j \<in> set (map fst m). i < j" using Cons.prems by (auto simp: kv bt_wf_def)
  show ?case
  proof (cases "i = k")
    case True
    then have "map (\<lambda>(j, x). (j, if j = k then f x else x)) m = m" using wf(2) by (intro map_idI) auto
    then show ?thesis using True by (simp add: kv bt_adjust_def bt_get_def)
  next
    case False
    have "i < k" if "bt_get m k = Some x" for x using wf(2) bt_get_mem [OF that] by force
    then have "bt_adjust k f (kv # m) = kv # bt_adjust k f m" using False
      by (auto simp: kv bt_adjust_def bt_get_def split: option.split dest: less_asym)
    then show ?thesis using Cons.IH [OF wf(1)] False by (simp add: kv)
  qed
qed (simp add: bt_adjust_def)

lemma finite_bt_dom [simp]: "finite (dom (bt_get m))"
  by (simp add: bt_dom)

lemma bt_length_card: "bt_wf m \<Longrightarrow> length m = card (dom (bt_get m))"
  by (metis bt_dom bt_wf_distinct distinct_card length_map list.set_map)

lemma bt_length_le:
  assumes "bt_wf m" "bt_wf n" "\<And>k v. bt_get m k = Some v \<Longrightarrow> \<exists>w. bt_get n k = Some w"
  shows "length m \<le> length n"
proof -
  have "dom (bt_get m) \<subseteq> dom (bt_get n)" using assms(3) by blast
  then have "card (dom (bt_get m)) \<le> card (dom (bt_get n))" by (simp add: card_mono)
  then show ?thesis using assms(1,2) by (simp add: bt_length_card)
qed

lemma bt_length_insert:
  "bt_wf m \<Longrightarrow> length (bt_insert k v m) = (if bt_get m k = None then Suc (length m) else length m)"
  by (auto simp: bt_length_card bt_get_insert_fun card_insert_if domIff)

lemma bt_length_retain: "length (bt_retain P m) \<le> length m"
  by (simp add: bt_retain_def)

lemma bt_length_insert_le: "length (bt_insert k v m) \<le> Suc (length m)"
  by (induction m) auto

lemma bt_length_remove: "length (bt_remove k m) \<le> length m"
  by (simp add: bt_remove_def)

lemma bt_length_map [simp]: "length (bt_map f m) = length m"
  by (simp add: bt_map_def)

section \<open>The interface\<close>

locale ordered_map =
  fixes empty :: 'm
    and get :: "'m \<Rightarrow> 'k \<Rightarrow> 'v option"
    and insert :: "'k \<Rightarrow> 'v \<Rightarrow> 'm \<Rightarrow> 'm"
    and remove :: "'k \<Rightarrow> 'm \<Rightarrow> 'm"
    and invar :: "'m \<Rightarrow> bool"
  assumes get_empty: "get empty k = None"
    and get_insert: "get (insert k v m) j = (if j = k then Some v else get m j)"
    and get_remove: "get (remove k m) j = (if j = k then None else get m j)"
    and invar_empty: "invar empty"
    and invar_insert: "invar m \<Longrightarrow> invar (insert k v m)"
    and invar_remove: "invar m \<Longrightarrow> invar (remove k m)"
begin

lemma overwrite: "get (insert k v (insert k w m)) = get (insert k v m)"
  by (auto simp: get_insert)

lemma insert_fresh_remove: "get m k = None \<Longrightarrow> get (remove k (insert k v m)) = get m"
  by (auto simp: get_insert get_remove)

lemma all_values_insert:
  "(\<forall>j w. get m j = Some w \<longrightarrow> P j w) \<Longrightarrow> P k v \<Longrightarrow> \<forall>j w. get (insert k v m) j = Some w \<longrightarrow> P j w"
  by (auto simp: get_insert)

end

interpretation btm: ordered_map "[]" bt_get bt_insert bt_remove bt_wf
  by unfold_locales auto

end
