(* ===== verification/Task_Model.thy ===== *)
theory Task_Model
  imports BTree_Map Json_Value
begin

text \<open>
  The data model of the task scheduler (\<^verbatim>\<open>crates/glass-dev/src/tasks.rs\<close>): tasks, budgets,
  verification requirements and evidence, with the pure decisions taken on them. Strings are
  byte strings, so that lengths are what the code's \<open>len()\<close> counts.
\<close>

datatype development_error =
    InvalidInput string
  | Conflict string
  | NotFound string
  | Io string
  | PathOutsideWorkspace string
  | Serialization

type_synonym task_id = string

definition MAX_TASKS :: nat where
  "MAX_TASKS = 128"

definition MAX_DEPENDENCIES :: nat where
  "MAX_DEPENDENCIES = 32"

definition MAX_TASK_EVIDENCE :: nat where
  "MAX_TASK_EVIDENCE = 128"

definition MAX_TASK_TEXT_BYTES :: nat where
  "MAX_TASK_TEXT_BYTES = 128 * 1024"

definition MAX_VERIFIER_COMMAND_BYTES :: nat where
  "MAX_VERIFIER_COMMAND_BYTES = 16 * 1024"

datatype task_state =
    Queued | Ready | Running | Waiting | Verifying | Succeeded | Failed | Cancelled | Paused | Blocked

fun task_terminal :: "task_state \<Rightarrow> bool" where
  "task_terminal Succeeded = True"
| "task_terminal Failed = True"
| "task_terminal Cancelled = True"
| "task_terminal _ = False"

record task_budget =
  max_runtime_seconds :: nat
  max_events :: nat
  max_tokens :: "nat option"

record retry_policy =
  max_retries :: nat
  backoff_seconds :: nat

datatype verification_requirement =
    Inferred
  | Settled
  | CommandCheck string int nat
  | LspDiagnostics nat
  | BrowserWorkflow string
  | SemanticRegression string nat
  | DebuggerAssertion string string
  | GitChange bool bool
  | TrustedCustom string
  | AllOf "verification_requirement list"

record task_evidence =
  ev_kind :: string
  ev_actor :: string
  ev_source :: string
  ev_passed :: "bool option"
  ev_observed_at_ms :: nat
  ev_attempt :: nat
  ev_details :: json

record task_snapshot =
  sn_id :: task_id
  sn_title :: string
  sn_goal :: string
  sn_prompt :: string
  sn_role :: string
  sn_dependencies :: "task_id list"
  sn_assigned_agent :: "string option"
  sn_worktree :: string
  sn_model :: "string option"
  sn_thinking :: "string option"
  sn_budget :: task_budget
  sn_verification :: verification_requirement
  sn_retry :: retry_policy
  sn_state :: task_state
  sn_attempt :: nat
  sn_observed_tokens :: nat
  sn_created_at_ms :: nat
  sn_started_at_ms :: "nat option"
  sn_completed_at_ms :: "nat option"
  sn_updated_at_ms :: nat
  sn_last_error :: "string option"
  sn_evidence :: "task_evidence list"
  sn_blocked_override :: bool
  sn_recovery_pending :: bool
  sn_evidence_truncated :: bool

record task_record =
  tr_snapshot :: task_snapshot
  tr_next_retry_at_ms :: "nat option"

type_synonym task_table = "(task_id, task_record) btree"

section \<open>Evidence\<close>

definition detail_at_most :: "string \<Rightarrow> nat \<Rightarrow> task_evidence \<Rightarrow> bool" where
  "detail_at_most field bound e =
     (case Option.bind (json_get field (ev_details e)) as_u64 of
        Some n \<Rightarrow> n \<le> bound | None \<Rightarrow> False)"

definition evidence_satisfies :: "verification_requirement \<Rightarrow> task_evidence \<Rightarrow> bool" where
  "evidence_satisfies req e =
     (if ev_passed e \<noteq> Some True then False
      else case req of
        LspDiagnostics max_errors \<Rightarrow> detail_at_most ''errors'' max_errors e
      | SemanticRegression _ maximum_regressions \<Rightarrow>
          detail_at_most ''regressions'' maximum_regressions e
      | GitChange require_changes require_clean \<Rightarrow>
          Option.bind (json_get ''hasChanges'' (ev_details e)) as_bool = Some require_changes \<and>
          (\<not> require_clean \<or> Option.bind (json_get ''clean'' (ev_details e)) as_bool = Some True)
      | _ \<Rightarrow> True)"

fun verification_kind :: "verification_requirement \<Rightarrow> string" where
  "verification_kind (LspDiagnostics _) = ''lspDiagnostics''"
| "verification_kind (BrowserWorkflow _) = ''browserWorkflow''"
| "verification_kind (SemanticRegression _ _) = ''semanticRegression''"
| "verification_kind (DebuggerAssertion _ _) = ''debuggerAssertion''"
| "verification_kind (GitChange _ _) = ''gitChange''"
| "verification_kind (TrustedCustom _) = ''trustedCustom''"
| "verification_kind _ = ''unknown''"

fun verification_has_evidence_requirement :: "verification_requirement \<Rightarrow> bool" where
  "verification_has_evidence_requirement Settled = False"
| "verification_has_evidence_requirement Inferred = False"
| "verification_has_evidence_requirement (AllOf rs) = list_ex verification_has_evidence_requirement rs"
| "verification_has_evidence_requirement _ = True"

fun is_unproved :: "verification_requirement \<Rightarrow> bool" where
  "is_unproved Settled = True"
| "is_unproved Inferred = True"
| "is_unproved _ = False"

definition evidence_kind :: "verification_requirement \<Rightarrow> string" where
  "evidence_kind req = (case req of CommandCheck _ _ _ \<Rightarrow> ''command'' | _ \<Rightarrow> verification_kind req)"

fun requirement_has_evidence :: "verification_requirement \<Rightarrow> task_snapshot \<Rightarrow> bool" where
  "requirement_has_evidence Settled sn = False"
| "requirement_has_evidence Inferred sn = False"
| "requirement_has_evidence (AllOf rs) sn =
     list_all (\<lambda>r. is_unproved r \<or> requirement_has_evidence r sn) rs"
| "requirement_has_evidence req sn =
     list_ex (\<lambda>e. ev_kind e = evidence_kind req \<and> ev_attempt e = sn_attempt sn \<and>
                  evidence_satisfies req e) (sn_evidence sn)"

definition has_required_attempt_evidence :: "task_snapshot \<Rightarrow> bool" where
  "has_required_attempt_evidence sn \<longleftrightarrow>
     verification_has_evidence_requirement (sn_verification sn) \<and>
     requirement_has_evidence (sn_verification sn) sn"

section \<open>Verification\<close>

datatype verification_outcome =
    Passed "task_evidence list"
  | StillWaiting
  | FailedWith string "task_evidence list"

text \<open>
  Running a verifier command is the environment's business; the model takes what it reports
  as a parameter. The group requirement stops at the first part that is not passed and keeps
  the evidence collected so far.
\<close>

fun verify ::
  "(string \<Rightarrow> int \<Rightarrow> nat \<Rightarrow> (development_error, verification_outcome) result) \<Rightarrow>
   task_evidence list \<Rightarrow> verification_requirement \<Rightarrow>
   (development_error, verification_outcome) result"
and verify_all ::
  "(string \<Rightarrow> int \<Rightarrow> nat \<Rightarrow> (development_error, verification_outcome) result) \<Rightarrow>
   task_evidence list \<Rightarrow> verification_requirement list \<Rightarrow> task_evidence list \<Rightarrow>
   (development_error, verification_outcome) result"
where
  "verify run evs Inferred =
     Err (Conflict ''inferred task verification was not resolved at creation'')"
| "verify run evs Settled = Ok (Passed [])"
| "verify run evs (CommandCheck c expected_exit timeout) = run c expected_exit timeout"
| "verify run evs (AllOf rs) = verify_all run evs rs []"
| "verify run evs req =
     (case find (\<lambda>e. ev_kind e = verification_kind req) (rev evs) of
        Some e \<Rightarrow>
          if evidence_satisfies req e then Ok (Passed [])
          else if ev_passed e = Some False
          then Ok (FailedWith (verification_kind req @ '' verification failed'') [])
          else Ok StillWaiting
      | None \<Rightarrow> Ok StillWaiting)"
| "verify_all run evs [] collected = Ok (Passed collected)"
| "verify_all run evs (r # rs) collected =
     (case verify run evs r of
        Inl e \<Rightarrow> Err e
      | Inr (Passed current) \<Rightarrow> verify_all run evs rs (collected @ current)
      | Inr StillWaiting \<Rightarrow> Ok StillWaiting
      | Inr (FailedWith error current) \<Rightarrow> Ok (FailedWith error (collected @ current)))"

fun validate_verification :: "nat \<Rightarrow> verification_requirement \<Rightarrow> (development_error, unit) result" where
  "validate_verification depth (CommandCheck command ec timeout) =
     (if depth > 8 then Err (InvalidInput ''task verification nesting exceeds 8'')
      else if command = [] \<or> length command > MAX_VERIFIER_COMMAND_BYTES \<or> CHR 0x00 \<in> set command
        \<or> timeout = 0 \<or> timeout > 600
      then Err (InvalidInput ''invalid task verification command'')
      else Ok ())"
| "validate_verification depth (AllOf rs) =
     (if depth > 8 then Err (InvalidInput ''task verification nesting exceeds 8'')
      else if rs = [] \<or> length rs > 16
      then Err (InvalidInput ''task verification group must contain 1..=16 requirements'')
      else fold (\<lambda>r acc. res_bind acc (\<lambda>_. validate_verification (Suc depth) r)) rs (Ok ()))"
| "validate_verification depth _ =
     (if depth > 8 then Err (InvalidInput ''task verification nesting exceeds 8'') else Ok ())"

definition push_snapshot_evidence :: "nat \<Rightarrow> task_evidence \<Rightarrow> task_snapshot \<Rightarrow> task_snapshot" where
  "push_snapshot_evidence now e sn =
     (let full = length (sn_evidence sn) = MAX_TASK_EVIDENCE in
      sn\<lparr>sn_evidence := (if full then tl (sn_evidence sn) else sn_evidence sn) @ [e],
         sn_evidence_truncated := sn_evidence_truncated sn \<or> full,
         sn_updated_at_ms := now\<rparr>)"

definition text_ok :: "nat \<Rightarrow> string \<Rightarrow> bool" where
  "text_ok maximum v \<longleftrightarrow> \<not> (v = [] \<or> length v > maximum \<or> CHR 0x00 \<in> set v)"

definition validate_text :: "string \<Rightarrow> string \<Rightarrow> (development_error, unit) result" where
  "validate_text label v =
     (if text_ok MAX_TASK_TEXT_BYTES v then Ok ()
      else Err (InvalidInput (label @ '' must contain 1..=131072 bytes without NUL'')))"

end
