(* ===== verification/Coord_State.thy ===== *)
theory Coord_State
  imports Task_Model
begin

text \<open>
  The durable coordination state of \<^verbatim>\<open>crates/glass-dev/src/tasks/task_coordination.rs\<close>: task
  bindings, the child-event inbox with its reorder buffers and cursors, wake policies, wake
  leases and counters, and the checks a checkpoint has to pass before it is loaded again
  (\<open>validate\<close>). The length of an event's JSON encoding is a parameter, \<open>enc\<close>, which is \<open>None\<close>
  where encoding fails.
\<close>

section \<open>Bounds\<close>

definition COORDINATION_VERSION :: nat where "COORDINATION_VERSION = 1"
definition MAX_BINDINGS :: nat where "MAX_BINDINGS = MAX_TASKS * 4"
definition MAX_HISTORICAL_BINDINGS :: nat where "MAX_HISTORICAL_BINDINGS = MAX_BINDINGS"
definition MAX_EVENT_STREAMS :: nat where "MAX_EVENT_STREAMS = MAX_BINDINGS"
definition MAX_INBOX_EVENTS :: nat where "MAX_INBOX_EVENTS = 256"
definition MAX_INBOX_EVENT_BYTES :: nat where "MAX_INBOX_EVENT_BYTES = 8 * 1024"
definition MAX_INBOX_BYTES :: nat where "MAX_INBOX_BYTES = 512 * 1024"
definition MAX_REORDERED_EVENTS_PER_STREAM :: nat where "MAX_REORDERED_EVENTS_PER_STREAM = 32"
definition MAX_REORDER_DISTANCE :: nat where "MAX_REORDER_DISTANCE = 32"
definition MAX_REQUIRED_TASKS :: nat where "MAX_REQUIRED_TASKS = MAX_TASKS"
definition MAX_WAKE_LEASE_MS :: nat where "MAX_WAKE_LEASE_MS = 60000"
definition MAX_COORDINATION_TEXT_BYTES :: nat where "MAX_COORDINATION_TEXT_BYTES = 512"

section \<open>Data\<close>

record task_binding_intent =
  bi_intent_id :: string
  bi_workspace_id :: string
  bi_core_session_id :: string
  bi_todo_id :: string
  bi_todo_revision :: nat
  bi_plan_revision :: nat

datatype binding_status = Pending | Resolved | ReconciliationRequired

record task_execution_binding =
  tb_version :: nat
  tb_intent :: task_binding_intent
  tb_root_task_id :: "task_id option"
  tb_task_id :: "task_id option"
  tb_attempt :: "nat option"
  tb_child_session_id :: "string option"
  tb_parent_call_id :: "string option"
  tb_status :: binding_status
  tb_stop_reason :: "string option"

datatype task_inbox_event_kind =
  ProgressEvent | QuestionEvent | BlockedEvent | VerifiedCompletion | CancelledEvent

record task_inbox_event =
  ie_event_id :: string
  ie_workspace_id :: string
  ie_root_task_id :: task_id
  ie_task_id :: task_id
  ie_attempt :: nat
  ie_parent_session_id :: string
  ie_recipient_session_id :: string
  ie_child_session_id :: string
  ie_parent_call_id :: string
  ie_sequence :: nat
  ie_kind :: task_inbox_event_kind
  ie_redacted_summary :: string
  ie_parent_redaction_applied :: bool
  ie_observed_at_ms :: nat

datatype inbox_append_result = Accepted | BufferedOutOfOrder | Duplicate | Stale

text \<open>
  The identity of an event stream, in the order of its fields: root task, task, attempt,
  parent session, parent call, child session. The order on streams is lexicographic, as
  derived in the code.
\<close>

type_synonym task_event_stream_id = "task_id \<times> task_id \<times> nat \<times> string \<times> string \<times> string"

fun st_root_task_id :: "task_event_stream_id \<Rightarrow> task_id" where
  "st_root_task_id (r, t, a, p, c, k) = r"

fun st_task_id :: "task_event_stream_id \<Rightarrow> task_id" where
  "st_task_id (r, t, a, p, c, k) = t"

fun st_attempt :: "task_event_stream_id \<Rightarrow> nat" where
  "st_attempt (r, t, a, p, c, k) = a"

record task_stream_cursor =
  cu_next_sequence :: nat
  cu_gap_detected_at_ms :: "nat option"

record task_coordination_counters =
  co_accepted_events :: nat
  co_accepted_event_bytes :: nat
  co_duplicate_events :: nat
  co_stale_events :: nat
  co_wake_reservations :: nat
  co_wake_dispatches :: nat
  co_unknown_wake_outcomes :: nat
  co_stop_reason :: "string option"

definition default_counters :: task_coordination_counters where
  "default_counters =
     \<lparr>co_accepted_events = 0, co_accepted_event_bytes = 0, co_duplicate_events = 0,
      co_stale_events = 0, co_wake_reservations = 0, co_wake_dispatches = 0,
      co_unknown_wake_outcomes = 0, co_stop_reason = None\<rparr>"

record root_wake_policy =
  wp_version :: nat
  wp_root_task_id :: task_id
  wp_owner_session_id :: string
  wp_owner_turn_id :: string
  wp_required_task_ids :: "task_id list"
  wp_max_events :: nat
  wp_max_event_bytes :: nat
  wp_max_owner_wakes :: nat
  wp_reserved_wakes :: nat

datatype wake_lease_state =
  Reserved | Dispatching | Delivered | SettledLease | UnknownOutcome | FailedBeforeDispatch

fun lease_terminal :: "wake_lease_state \<Rightarrow> bool" where
  "lease_terminal SettledLease = True"
| "lease_terminal FailedBeforeDispatch = True"
| "lease_terminal _ = False"

record owner_wake_lease =
  wl_lease_id :: string
  wl_root_task_id :: task_id
  wl_owner_session_id :: string
  wl_owner_turn_id :: string
  wl_event_ids :: "string list"
  wl_inbox_watermark :: nat
  wl_reserved_at_ms :: nat
  wl_expires_at_ms :: nat
  wl_state :: wake_lease_state
  wl_stop_reason :: "string option"

datatype wake_delivery_outcome = Acknowledged | DefinitelyNotSent | UnknownDelivery

record coordination_state =
  cs_format_version :: nat
  cs_bindings :: "(string, task_execution_binding) btree"
  cs_historical_bindings :: "task_execution_binding list"
  cs_inbox :: "task_inbox_event list"
  cs_out_of_order :: "(task_event_stream_id, (nat, task_inbox_event) btree) btree"
  cs_stream_cursors :: "(task_event_stream_id, task_stream_cursor) btree"
  cs_completion_receipts :: "(task_id, task_inbox_event) btree"
  cs_wake_policies :: "(task_id, root_wake_policy) btree"
  cs_wake_leases :: "(string, owner_wake_lease) btree"
  cs_counters :: "(task_id, task_coordination_counters) btree"

definition default_coordination :: coordination_state where
  "default_coordination =
     \<lparr>cs_format_version = COORDINATION_VERSION, cs_bindings = [], cs_historical_bindings = [],
      cs_inbox = [], cs_out_of_order = [], cs_stream_cursors = [], cs_completion_receipts = [],
      cs_wake_policies = [], cs_wake_leases = [], cs_counters = []\<rparr>"

section \<open>Identity checks\<close>

type_synonym event_encoder = "task_inbox_event \<Rightarrow> nat option"

definition validate_identifier :: "string \<Rightarrow> string \<Rightarrow> nat \<Rightarrow> (development_error, unit) result" where
  "validate_identifier label v maximum =
     (if v = [] \<or> length v > maximum \<or> CHR 0x00 \<in> set v then Err (InvalidInput label) else Ok ())"

definition encoded_event_len :: "event_encoder \<Rightarrow> task_inbox_event \<Rightarrow> (development_error, nat) result" where
  "encoded_event_len enc ev = ok_or Serialization (enc ev)"

definition event_stream_id :: "task_inbox_event \<Rightarrow> task_event_stream_id" where
  "event_stream_id ev =
     (ie_root_task_id ev, ie_task_id ev, ie_attempt ev, ie_parent_session_id ev,
      ie_parent_call_id ev, ie_child_session_id ev)"

definition is_ascii_digit :: "char \<Rightarrow> bool" where
  "is_ascii_digit c \<longleftrightarrow> 48 \<le> (of_char c :: nat) \<and> (of_char c :: nat) \<le> 57"

text \<open>A sequence of checks that stops at the first error, as a chain of \<open>?\<close> does.\<close>

fun all_checks :: "(development_error, unit) result list \<Rightarrow> (development_error, unit) result" where
  "all_checks [] = Ok ()"
| "all_checks (c # cs) = (case c of Inl e \<Rightarrow> Err e | Inr _ \<Rightarrow> all_checks cs)"

definition reject_if :: "bool \<Rightarrow> string \<Rightarrow> (development_error, unit) result" where
  "reject_if b reason = (if b then Err (InvalidInput reason) else Ok ())"

definition validate_binding :: "task_binding_intent \<Rightarrow> string \<Rightarrow> (development_error, unit) result" where
  "validate_binding i workspace =
     all_checks
       [validate_identifier ''binding intent ID'' (bi_intent_id i) 128,
        validate_identifier ''workspace ID'' (bi_workspace_id i) 1024,
        validate_identifier ''Core session ID'' (bi_core_session_id i) 256,
        validate_identifier ''Core todo ID'' (bi_todo_id i) 64,
        reject_if
          (bi_workspace_id i \<noteq> workspace \<or> bi_todo_revision i = 0 \<or> bi_plan_revision i = 0 \<or>
           \<not> (bi_todo_id i \<noteq> [] \<and> hd (bi_todo_id i) = CHR ''T'') \<or>
           \<not> list_all is_ascii_digit (tl (bi_todo_id i)))
          ''task binding workspace or todo identity is invalid'']"

definition event_fields_ok :: "task_inbox_event \<Rightarrow> string \<Rightarrow> bool" where
  "event_fields_ok ev workspace \<longleftrightarrow>
     \<not> (ie_workspace_id ev \<noteq> workspace \<or> ie_sequence ev = 0 \<or> ie_attempt ev = 0 \<or>
        \<not> ie_parent_redaction_applied ev \<or>
        length (ie_redacted_summary ev) > MAX_COORDINATION_TEXT_BYTES)"

definition validate_event ::
  "event_encoder \<Rightarrow> task_inbox_event \<Rightarrow> string \<Rightarrow> (development_error, unit) result" where
  "validate_event enc ev workspace =
     all_checks
       [validate_identifier ''task event ID'' (ie_event_id ev) 128,
        validate_identifier ''task event workspace ID'' (ie_workspace_id ev) 1024,
        validate_identifier ''child session ID'' (ie_child_session_id ev) 256,
        validate_identifier ''parent session ID'' (ie_parent_session_id ev) 256,
        validate_identifier ''recipient session ID'' (ie_recipient_session_id ev) 256,
        validate_identifier ''parent call ID'' (ie_parent_call_id ev) 256,
        validate_identifier ''redacted task event summary'' (ie_redacted_summary ev)
          MAX_INBOX_EVENT_BYTES,
        (if \<not> event_fields_ok ev workspace
         then Err (InvalidInput ''task event identity or payload exceeds supported bounds'')
         else case encoded_event_len enc ev of
           Inl e \<Rightarrow> Err e
         | Inr n \<Rightarrow> reject_if (n > MAX_INBOX_EVENT_BYTES)
                     ''task event identity or payload exceeds supported bounds'')]"

definition validate_stream_id :: "task_event_stream_id \<Rightarrow> (development_error, unit) result" where
  "validate_stream_id s =
     (case s of (r, t, attempt, parent_session, parent_call, child_session) \<Rightarrow>
        all_checks
          [validate_identifier ''child session ID'' child_session 256,
           validate_identifier ''parent session ID'' parent_session 256,
           validate_identifier ''parent call ID'' parent_call 256,
           reject_if (attempt = 0) ''task event stream attempt must be nonzero''])"

section \<open>Descendants\<close>

text \<open>
  The dependency walk: a stack of tasks still to visit, popped from its end, and the set of
  visited tasks. Every turn either visits a task of the table that was not visited before, or
  only shortens the stack, so the walk ends also on a cyclic table.
\<close>

definition task_dependencies :: "task_table \<Rightarrow> task_id \<Rightarrow> task_id list" where
  "task_dependencies tasks t =
     (case bt_get tasks t of None \<Rightarrow> [] | Some r \<Rightarrow> sn_dependencies (tr_snapshot r))"

function descend ::
  "task_table \<Rightarrow> task_id \<Rightarrow> task_id list \<Rightarrow> task_id list \<Rightarrow> bool" where
  "descend tasks required pending visited =
     (if pending = [] then False
      else let t = last pending; rest = butlast pending in
        if t = required then True
        else if t \<in> set visited then descend tasks required rest visited
        else descend tasks required (rest @ task_dependencies tasks t) (t # visited))"
  by pat_completeness auto

termination
proof (relation "measures [\<lambda>(tasks, required, pending, visited). card (fst ` set tasks - set visited),
      \<lambda>(tasks, required, pending, visited). card (set pending - set visited - fst ` set tasks),
      \<lambda>(tasks, required, pending, visited). length pending]", goal_cases)
  case 1
  then show ?case by simp
next
  case (2 tasks required pending visited t rest)
  have "set rest \<subseteq> set pending" using 2 by (auto dest: in_set_butlastD)
  then have "card (set rest - set visited - fst ` set tasks)
      \<le> card (set pending - set visited - fst ` set tasks)"
    by (intro card_mono) auto
  then show ?case using 2 by (auto simp: le_less)
next
  case (3 tasks required pending visited t rest)
  show ?case
  proof (cases "t \<in> fst ` set tasks")
    case True
    have "card (fst ` set tasks - set (t # visited)) < card (fst ` set tasks - set visited)"
      using 3 True by (intro psubset_card_mono) auto
    then show ?thesis by simp
  next
    case False
    then have nd: "task_dependencies tasks t = []"
      by (auto simp: task_dependencies_def bt_get_def split: option.splits dest: map_of_SomeD)
        (metis (no_types, lifting) fst_conv image_eqI map_of_SomeD)
    have "set rest \<subseteq> set pending" "t \<in> set pending" using 3 by (auto dest: in_set_butlastD)
    then have "card (set rest - set (t # visited) - fst ` set tasks)
        < card (set pending - set visited - fst ` set tasks)"
      using 3 False by (intro psubset_card_mono) auto
    moreover have "fst ` set tasks - set (t # visited) = fst ` set tasks - set visited"
      using False by auto
    ultimately show ?thesis using nd by simp
  qed
qed

declare descend.simps [simp del]

definition task_is_descendant :: "task_id \<Rightarrow> task_id \<Rightarrow> task_table \<Rightarrow> bool" where
  "task_is_descendant root required tasks = descend tasks required (task_dependencies tasks root) []"

section \<open>Checking a checkpoint\<close>

text \<open>A loop that checks each element and threads what it has seen so far.\<close>

fun thread :: "('a \<Rightarrow> 's \<Rightarrow> (development_error, 's) result) \<Rightarrow> 'a list \<Rightarrow> 's \<Rightarrow> (development_error, 's) result" where
  "thread f [] s = Ok s"
| "thread f (x # xs) s = (case f x s of Inl e \<Rightarrow> Err e | Inr s' \<Rightarrow> thread f xs s')"

definition all_bindings :: "coordination_state \<Rightarrow> task_execution_binding list" where
  "all_bindings st = bt_values (cs_bindings st) @ cs_historical_bindings st"

definition task_attempt :: "task_table \<Rightarrow> task_id \<Rightarrow> nat option" where
  "task_attempt tasks t = map_option (\<lambda>r. sn_attempt (tr_snapshot r)) (bt_get tasks t)"

definition required_task_step ::
  "task_table \<Rightarrow> task_id \<Rightarrow> task_id \<Rightarrow> task_id list \<times> nat \<Rightarrow>
   (development_error, task_id list \<times> nat) result" where
  "required_task_step tasks root t seen =
     (case bt_get tasks t of
        None \<Rightarrow> Err (InvalidInput ''wake policy references a missing task'')
      | Some r \<Rightarrow>
          if \<not> verification_has_evidence_requirement (sn_verification (tr_snapshot r)) \<or>
             t \<in> set (fst seen) \<or> t = root \<or> \<not> task_is_descendant root t tasks
          then Err (InvalidInput ''required wake tasks must be unique and use evidence verification'')
          else Ok (t # fst seen,
                   nat_saturating_add u64_max (snd seen) (max_events (sn_budget (tr_snapshot r)))))"

definition validate_required_tasks ::
  "task_table \<Rightarrow> task_id \<Rightarrow> task_id list \<Rightarrow> nat \<Rightarrow> (development_error, unit) result" where
  "validate_required_tasks tasks root required limit =
     (case thread (required_task_step tasks root) required ([], 0) of
        Inl e \<Rightarrow> Err e
      | Inr seen \<Rightarrow>
          reject_if (limit > snd seen)
            ''root wake event limit exceeds the required tasks' inherited event budgets'')"

definition validate_wake_policy :: "root_wake_policy \<Rightarrow> task_table \<Rightarrow> (development_error, unit) result" where
  "validate_wake_policy p tasks =
     all_checks
       [validate_identifier ''owner session ID'' (wp_owner_session_id p) 256,
        validate_identifier ''owner turn ID'' (wp_owner_turn_id p) 256,
        reject_if
          (wp_version p \<noteq> 1 \<or> wp_max_owner_wakes p \<noteq> 1 \<or>
           wp_reserved_wakes p > wp_max_owner_wakes p \<or> wp_max_events p = 0 \<or>
           wp_max_events p > 10000000 \<or> wp_max_event_bytes p = 0 \<or>
           wp_max_event_bytes p > MAX_INBOX_BYTES \<or> wp_required_task_ids p = [] \<or>
           length (wp_required_task_ids p) > MAX_REQUIRED_TASKS \<or>
           \<not> bt_contains tasks (wp_root_task_id p))
          ''root wake policy exceeds supported bounds'',
        validate_required_tasks tasks (wp_root_task_id p) (wp_required_task_ids p) (wp_max_events p),
        reject_if
          (case bt_get tasks (wp_root_task_id p) of
             None \<Rightarrow> True
           | Some r \<Rightarrow> \<not> verification_has_evidence_requirement (sn_verification (tr_snapshot r)))
          ''wake root must use evidence-producing verification'']"

definition lease_event_step :: "string \<Rightarrow> string list \<Rightarrow> (development_error, string list) result" where
  "lease_event_step event_id seen =
     (case validate_identifier ''owner wake event ID'' event_id 128 of
        Inl e \<Rightarrow> Err e
      | Inr _ \<Rightarrow>
          if event_id \<in> set seen then Err (InvalidInput ''owner wake lease repeats an event ID'')
          else Ok (event_id # seen))"

definition validate_wake_lease :: "owner_wake_lease \<Rightarrow> (development_error, unit) result" where
  "validate_wake_lease l =
     all_checks
       [validate_identifier ''owner wake lease ID'' (wl_lease_id l) 128,
        validate_identifier ''owner session ID'' (wl_owner_session_id l) 256,
        validate_identifier ''owner turn ID'' (wl_owner_turn_id l) 256,
        reject_if
          (wl_event_ids l = [] \<or> length (wl_event_ids l) > MAX_REQUIRED_TASKS \<or>
           wl_expires_at_ms l < wl_reserved_at_ms l \<or>
           wl_expires_at_ms l - wl_reserved_at_ms l > MAX_WAKE_LEASE_MS)
          ''owner wake lease event set is outside its bound'',
        (case thread lease_event_step (wl_event_ids l) [] of Inl e \<Rightarrow> Err e | Inr _ \<Rightarrow> Ok ()),
        (case wl_stop_reason l of
           None \<Rightarrow> Ok ()
         | Some reason \<Rightarrow>
             validate_identifier ''owner wake stop reason'' reason MAX_COORDINATION_TEXT_BYTES)]"

definition binding_for_event :: "task_inbox_event \<Rightarrow> task_execution_binding \<Rightarrow> bool" where
  "binding_for_event ev b \<longleftrightarrow>
     tb_status b = Resolved \<and>
     tb_root_task_id b = Some (ie_root_task_id ev) \<and>
     tb_task_id b = Some (ie_task_id ev) \<and>
     tb_child_session_id b = Some (ie_child_session_id ev) \<and>
     tb_parent_call_id b = Some (ie_parent_call_id ev) \<and>
     bi_core_session_id (tb_intent b) = ie_parent_session_id ev \<and>
     bi_core_session_id (tb_intent b) = ie_recipient_session_id ev"

definition validate_stored_event ::
  "event_encoder \<Rightarrow> coordination_state \<Rightarrow> task_inbox_event \<Rightarrow> string \<Rightarrow> task_table \<Rightarrow>
   (development_error, unit) result" where
  "validate_stored_event enc st ev workspace tasks =
     (case validate_event enc ev workspace of
        Inl e \<Rightarrow> Err e
      | Inr _ \<Rightarrow>
        (case bt_get tasks (ie_task_id ev) of
           None \<Rightarrow> Err (InvalidInput ''task event references a missing task'')
         | Some task \<Rightarrow>
           if \<not> bt_contains tasks (ie_root_task_id ev) \<or>
              ie_attempt ev > sn_attempt (tr_snapshot task)
           then Err (InvalidInput ''task event references an invalid root or future attempt'')
           else (case bt_get (cs_wake_policies st) (ie_root_task_id ev) of
             None \<Rightarrow> Err (InvalidInput ''task event has no persisted root policy'')
           | Some p \<Rightarrow>
             all_checks
               [reject_if (ie_task_id ev \<notin> set (wp_required_task_ids p))
                  ''task event is not in the persisted root requirement set'',
                reject_if (wp_owner_session_id p \<noteq> ie_parent_session_id ev)
                  ''task event parent session does not match the persisted root owner'',
                reject_if
                  (\<not> list_ex (\<lambda>b. binding_for_event ev b \<and> tb_attempt b = Some (ie_attempt ev))
                     (all_bindings st))
                  ''task event has no persisted current or historical execution binding'',
                reject_if
                  (ie_kind ev = VerifiedCompletion \<and> ie_attempt ev = sn_attempt (tr_snapshot task) \<and>
                   (sn_state (tr_snapshot task) \<noteq> Succeeded \<or>
                    \<not> has_required_attempt_evidence (tr_snapshot task)))
                  ''current completion receipt has no current-attempt verifier evidence''])))"

definition validate_bounds :: "coordination_state \<Rightarrow> (development_error, unit) result" where
  "validate_bounds st =
     reject_if
       (cs_format_version st \<noteq> COORDINATION_VERSION \<or> length (cs_bindings st) > MAX_BINDINGS \<or>
        length (cs_historical_bindings st) > MAX_HISTORICAL_BINDINGS \<or>
        length (cs_stream_cursors st) > MAX_EVENT_STREAMS \<or>
        length (cs_inbox st) > MAX_INBOX_EVENTS \<or> length (cs_wake_policies st) > MAX_TASKS \<or>
        length (cs_wake_leases st) > MAX_TASKS \<or> length (cs_counters st) > MAX_TASKS)
       ''task coordination checkpoint exceeds supported bounds''"

text \<open>What the event loops thread: the event ids seen and the bytes counted so far.\<close>

type_synonym event_scan = "string list \<times> nat"

definition count_event ::
  "event_encoder \<Rightarrow> task_inbox_event \<Rightarrow> event_scan \<Rightarrow> (development_error, event_scan) result" where
  "count_event enc ev scan =
     (case encoded_event_len enc ev of
        Inl e \<Rightarrow> Err e
      | Inr n \<Rightarrow> Ok (ie_event_id ev # fst scan, nat_saturating_add u64_max (snd scan) n))"

definition validate_inbox_event ::
  "event_encoder \<Rightarrow> coordination_state \<Rightarrow> string \<Rightarrow> task_table \<Rightarrow> task_inbox_event \<Rightarrow> event_scan \<Rightarrow>
   (development_error, event_scan) result" where
  "validate_inbox_event enc st workspace tasks ev scan =
     (case validate_stored_event enc st ev workspace tasks of
        Inl e \<Rightarrow> Err e
      | Inr _ \<Rightarrow>
          if ie_event_id ev \<in> set (fst scan)
          then Err (InvalidInput ''task event inbox repeats an event ID'')
          else count_event enc ev scan)"

definition validate_pending_event ::
  "event_encoder \<Rightarrow> coordination_state \<Rightarrow> string \<Rightarrow> task_table \<Rightarrow> task_event_stream_id \<Rightarrow>
   task_stream_cursor \<Rightarrow> nat \<times> task_inbox_event \<Rightarrow> event_scan \<Rightarrow> (development_error, event_scan) result" where
  "validate_pending_event enc st workspace tasks stream cursor entry scan =
     (let s = fst entry; ev = snd entry in
      case validate_stored_event enc st ev workspace tasks of
        Inl e \<Rightarrow> Err e
      | Inr _ \<Rightarrow>
          if ie_event_id ev \<in> set (fst scan) \<or> ie_sequence ev \<noteq> s \<or> s \<le> cu_next_sequence cursor \<or>
             s - cu_next_sequence cursor > MAX_REORDER_DISTANCE \<or> event_stream_id ev \<noteq> stream
          then Err (InvalidInput ''task event reorder entry has a mismatched identity'')
          else count_event enc ev scan)"

definition validate_reorder_buffer ::
  "event_encoder \<Rightarrow> coordination_state \<Rightarrow> string \<Rightarrow> task_table \<Rightarrow>
   task_event_stream_id \<times> (nat, task_inbox_event) btree \<Rightarrow> event_scan \<Rightarrow>
   (development_error, event_scan) result" where
  "validate_reorder_buffer enc st workspace tasks buffer scan =
     (let stream = fst buffer; pending = snd buffer in
      case validate_stream_id stream of
        Inl e \<Rightarrow> Err e
      | Inr _ \<Rightarrow>
          if length pending > MAX_REORDERED_EVENTS_PER_STREAM
          then Err (InvalidInput ''task event reorder buffer exceeds supported bounds'')
          else (case bt_get (cs_stream_cursors st) stream of
            None \<Rightarrow> Err (InvalidInput ''task event reorder buffer has no stream cursor'')
          | Some cursor \<Rightarrow>
              thread (validate_pending_event enc st workspace tasks stream cursor) pending scan))"

definition pending_count :: "coordination_state \<Rightarrow> nat" where
  "pending_count st = sum_list (map length (bt_values (cs_out_of_order st)))"

definition validate_events ::
  "event_encoder \<Rightarrow> coordination_state \<Rightarrow> string \<Rightarrow> task_table \<Rightarrow> (development_error, nat) result" where
  "validate_events enc st workspace tasks =
     (case thread (validate_inbox_event enc st workspace tasks) (cs_inbox st) ([], 0) of
        Inl e \<Rightarrow> Err e
      | Inr scan \<Rightarrow>
          (case thread (validate_reorder_buffer enc st workspace tasks) (cs_out_of_order st) scan of
             Inl e \<Rightarrow> Err e
           | Inr scan' \<Rightarrow> Ok (snd scan')))"

definition validate_cursor ::
  "task_table \<Rightarrow> task_event_stream_id \<times> task_stream_cursor \<Rightarrow> (development_error, unit) result" where
  "validate_cursor tasks entry =
     all_checks
       [validate_stream_id (fst entry),
        reject_if
          (cu_next_sequence (snd entry) = 0 \<or> \<not> bt_contains tasks (st_root_task_id (fst entry)) \<or>
           (case task_attempt tasks (st_task_id (fst entry)) of
              None \<Rightarrow> True
            | Some a \<Rightarrow> st_attempt (fst entry) > a))
          ''task event stream cursor is invalid'']"

definition validate_totals :: "coordination_state \<Rightarrow> nat \<Rightarrow> (development_error, unit) result" where
  "validate_totals st inbox_bytes =
     reject_if
       (length (cs_inbox st) + pending_count st > MAX_INBOX_EVENTS \<or> inbox_bytes > MAX_INBOX_BYTES)
       ''task event inbox exceeds supported bounds''"

definition binding_complete :: "task_execution_binding \<Rightarrow> bool" where
  "binding_complete b \<longleftrightarrow>
     tb_root_task_id b \<noteq> None \<and> tb_task_id b \<noteq> None \<and> tb_attempt b \<noteq> None \<and>
     tb_child_session_id b \<noteq> None \<and> tb_parent_call_id b \<noteq> None"

definition known_task :: "task_table \<Rightarrow> task_id option \<Rightarrow> bool" where
  "known_task tasks t = (case t of None \<Rightarrow> True | Some i \<Rightarrow> bt_contains tasks i)"

definition validate_current_binding ::
  "string \<Rightarrow> task_table \<Rightarrow> string \<times> task_execution_binding \<Rightarrow> (development_error, unit) result" where
  "validate_current_binding workspace tasks entry =
     (let intent_id = fst entry; b = snd entry in
      all_checks
        [validate_binding (tb_intent b) workspace,
         reject_if (tb_version b \<noteq> 1 \<or> intent_id \<noteq> bi_intent_id (tb_intent b))
           ''task binding key does not match its intent'',
         reject_if (\<not> known_task tasks (tb_task_id b)) ''task binding references a missing task'',
         reject_if (\<not> known_task tasks (tb_root_task_id b))
           ''task binding references a missing root task'',
         reject_if (tb_status b = Resolved \<and> \<not> binding_complete b)
           ''resolved task binding is incomplete''])"

definition validate_historical_binding ::
  "string \<Rightarrow> task_table \<Rightarrow> task_execution_binding \<Rightarrow> (development_error, unit) result" where
  "validate_historical_binding workspace tasks b =
     all_checks
       [validate_binding (tb_intent b) workspace,
        reject_if
          (tb_version b \<noteq> 1 \<or> tb_status b \<noteq> Resolved \<or> \<not> binding_complete b \<or>
           \<not> known_task tasks (tb_task_id b) \<or> \<not> known_task tasks (tb_root_task_id b))
          ''historical task binding is invalid or incomplete'']"

text \<open>
  The identities of the resolved bindings, current before historical: an attempt the scheduler
  has reached, a dependency of the root, and no child session and no task attempt twice.
  A resolved binding is complete at this point; an incomplete one, on which the code's
  \<open>expect\<close> would panic, is rejected.
\<close>

definition validate_resolved_binding ::
  "task_table \<Rightarrow> task_execution_binding \<Rightarrow> string list \<times> (task_id \<times> nat) list \<Rightarrow>
   (development_error, string list \<times> (task_id \<times> nat) list) result" where
  "validate_resolved_binding tasks b seen =
     (if tb_status b \<noteq> Resolved then Ok seen
      else case (tb_task_id b, tb_root_task_id b, tb_attempt b, tb_child_session_id b) of
        (Some t, Some root, Some attempt, Some child) \<Rightarrow>
          if (case task_attempt tasks t of None \<Rightarrow> True | Some a \<Rightarrow> a < attempt) \<or>
             \<not> task_is_descendant root t tasks \<or> child \<in> set (fst seen) \<or>
             (t, attempt) \<in> set (snd seen)
          then Err (InvalidInput
                 ''resolved task binding identities overlap or exceed the scheduler attempt'')
          else Ok (child # fst seen, (t, attempt) # snd seen)
      | _ \<Rightarrow> Err (InvalidInput ''resolved binding checked''))"

definition owner_mismatch :: "task_id \<Rightarrow> root_wake_policy \<Rightarrow> task_execution_binding \<Rightarrow> bool" where
  "owner_mismatch root p b \<longleftrightarrow>
     tb_status b = Resolved \<and> tb_root_task_id b = Some root \<and>
     (case tb_task_id b of None \<Rightarrow> False | Some t \<Rightarrow> t \<in> set (wp_required_task_ids p)) \<and>
     bi_core_session_id (tb_intent b) \<noteq> wp_owner_session_id p"

definition lease_count :: "coordination_state \<Rightarrow> task_id \<Rightarrow> nat" where
  "lease_count st root = length (filter (\<lambda>l. wl_root_task_id l = root) (bt_values (cs_wake_leases st)))"

definition validate_policy_entry ::
  "coordination_state \<Rightarrow> task_table \<Rightarrow> task_id \<times> root_wake_policy \<Rightarrow> (development_error, unit) result" where
  "validate_policy_entry st tasks entry =
     (let root = fst entry; p = snd entry in
      all_checks
        [validate_wake_policy p tasks,
         reject_if (root \<noteq> wp_root_task_id p) ''task wake policy key does not match its root'',
         reject_if (list_ex (owner_mismatch root p) (all_bindings st))
           ''resolved required-task binding does not match its root wake owner'',
         reject_if (lease_count st root \<noteq> wp_reserved_wakes p)
           ''task wake reservation count does not match persisted leases'',
         reject_if
           (wp_reserved_wakes p > 0 \<and>
            (case bt_get (cs_counters st) root of
               None \<Rightarrow> True
             | Some c \<Rightarrow> co_wake_reservations c \<noteq> wp_reserved_wakes p))
           ''task wake counters do not match the persisted policy''])"

definition receipt_missing ::
  "coordination_state \<Rightarrow> task_table \<Rightarrow> owner_wake_lease \<Rightarrow> task_id \<Rightarrow> bool" where
  "receipt_missing st tasks l t =
     (case bt_get (cs_completion_receipts st) t of
        None \<Rightarrow> True
      | Some r \<Rightarrow>
          ie_root_task_id r \<noteq> wl_root_task_id l \<or> ie_event_id r \<notin> set (wl_event_ids l) \<or>
          task_attempt tasks t \<noteq> Some (ie_attempt r))"

definition validate_lease_entry ::
  "coordination_state \<Rightarrow> task_table \<Rightarrow> string \<times> owner_wake_lease \<Rightarrow> (development_error, unit) result" where
  "validate_lease_entry st tasks entry =
     (let l = snd entry in
      all_checks
        [validate_wake_lease l,
         reject_if (fst entry \<noteq> wl_lease_id l \<or> \<not> bt_contains tasks (wl_root_task_id l))
           ''task wake lease identity is invalid'',
         (case bt_get (cs_wake_policies st) (wl_root_task_id l) of
            None \<Rightarrow> Err (InvalidInput ''owner wake lease has no root policy'')
          | Some p \<Rightarrow>
              all_checks
                [reject_if
                   (wl_owner_session_id l \<noteq> wp_owner_session_id p \<or>
                    wl_owner_turn_id l \<noteq> wp_owner_turn_id p)
                   ''owner wake lease does not match its root policy'',
                 reject_if
                   (\<not> lease_terminal (wl_state l) \<and>
                    (length (wl_event_ids l) \<noteq> length (wp_required_task_ids p) \<or>
                     list_ex (receipt_missing st tasks l) (wp_required_task_ids p)))
                   ''active owner wake lease does not match required completion receipts''])])"

definition validate_counters_entry ::
  "coordination_state \<Rightarrow> task_table \<Rightarrow> task_id \<times> task_coordination_counters \<Rightarrow>
   (development_error, unit) result" where
  "validate_counters_entry st tasks entry =
     (let root = fst entry; c = snd entry in
      all_checks
        [reject_if
           (\<not> bt_contains tasks root \<or>
            (case co_stop_reason c of
               None \<Rightarrow> False
             | Some reason \<Rightarrow> length reason > MAX_COORDINATION_TEXT_BYTES))
           ''task coordination counter identity is invalid'',
         reject_if
           (case bt_get (cs_wake_policies st) root of
              None \<Rightarrow> False
            | Some p \<Rightarrow>
                co_accepted_events c > wp_max_events p \<or>
                co_accepted_event_bytes c > wp_max_event_bytes p \<or>
                co_wake_reservations c \<noteq> wp_reserved_wakes p \<or>
                co_wake_dispatches c > co_wake_reservations c \<or>
                co_unknown_wake_outcomes c > co_wake_reservations c)
           ''task coordination counters exceed the root wake policy'',
         reject_if (\<not> bt_contains (cs_wake_policies st) root)
           ''task coordination counters have no root wake policy''])"

definition validate_receipt_entry ::
  "event_encoder \<Rightarrow> coordination_state \<Rightarrow> string \<Rightarrow> task_table \<Rightarrow> task_id \<times> task_inbox_event \<Rightarrow>
   (development_error, unit) result" where
  "validate_receipt_entry enc st workspace tasks entry =
     all_checks
       [validate_stored_event enc st (snd entry) workspace tasks,
        reject_if
          (ie_kind (snd entry) \<noteq> VerifiedCompletion \<or> ie_task_id (snd entry) \<noteq> fst entry \<or>
           \<not> bt_contains tasks (fst entry))
          ''task completion receipt identity is invalid'']"

definition validate ::
  "event_encoder \<Rightarrow> coordination_state \<Rightarrow> string \<Rightarrow> task_table \<Rightarrow> (development_error, unit) result" where
  "validate enc st workspace tasks =
     res_bind (validate_bounds st) (\<lambda>_.
     res_bind (validate_events enc st workspace tasks) (\<lambda>inbox_bytes.
     res_bind (all_checks (map (validate_cursor tasks) (cs_stream_cursors st))) (\<lambda>_.
     res_bind (validate_totals st inbox_bytes) (\<lambda>_.
     res_bind (all_checks (map (validate_current_binding workspace tasks) (cs_bindings st))) (\<lambda>_.
     res_bind (all_checks
       (map (validate_historical_binding workspace tasks) (cs_historical_bindings st))) (\<lambda>_.
     res_bind (thread (validate_resolved_binding tasks) (all_bindings st) ([], [])) (\<lambda>_.
     res_bind (all_checks (map (validate_policy_entry st tasks) (cs_wake_policies st))) (\<lambda>_.
     res_bind (all_checks (map (validate_lease_entry st tasks) (cs_wake_leases st))) (\<lambda>_.
     res_bind (all_checks (map (validate_counters_entry st tasks) (cs_counters st))) (\<lambda>_.
       all_checks (map (validate_receipt_entry enc st workspace tasks) (cs_completion_receipts st))
     ))))))))))"

end
