(* ===== verification/Coord_Ops.thy ===== *)
theory Coord_Ops
  imports Coord_State
begin

text \<open>
  The operations of the coordination part of the task scheduler
  (\<^verbatim>\<open>crates/glass-dev/src/tasks/task_coordination.rs\<close>): bindings, the event inbox and the owner
  wake leases. The scheduler state holds the workspace, the task table, the coordination state
  in memory and the coordination state the checkpoint file holds.

  Writing the checkpoint (\<open>persist_checkpoint\<close>) is the environment's business: the parameter
  \<open>io\<close> says, for the state to be written, whether the write succeeds and, when it fails, whether
  the file had already been replaced. The code never rolls its memory back when a write fails,
  and neither does the model.
\<close>

record task_scheduler =
  ts_root :: string
  ts_tasks :: task_table
  ts_coordination :: coordination_state
  ts_saved :: "coordination_state option"

datatype persist_outcome = Persisted | PersistFailed development_error bool

type_synonym checkpoint_io = "task_scheduler \<Rightarrow> persist_outcome"

type_synonym 'a outcome = "(development_error, 'a) result \<times> task_scheduler"

definition persist_checkpoint :: "checkpoint_io \<Rightarrow> task_scheduler \<Rightarrow> unit outcome" where
  "persist_checkpoint io s =
     (case io s of
        Persisted \<Rightarrow> (Ok (), s\<lparr>ts_saved := Some (ts_coordination s)\<rparr>)
      | PersistFailed e replaced \<Rightarrow>
          (Err e, if replaced then s\<lparr>ts_saved := Some (ts_coordination s)\<rparr> else s))"

text \<open>Persist and return a value, or persist and return an error: the two ways operations end.\<close>

definition persist_ok :: "checkpoint_io \<Rightarrow> 'a \<Rightarrow> task_scheduler \<Rightarrow> 'a outcome" where
  "persist_ok io v s =
     (case persist_checkpoint io s of (Inl e, s') \<Rightarrow> (Err e, s') | (Inr _, s') \<Rightarrow> (Ok v, s'))"

definition persist_err :: "checkpoint_io \<Rightarrow> development_error \<Rightarrow> task_scheduler \<Rightarrow> 'a outcome" where
  "persist_err io e s =
     (case persist_checkpoint io s of (Inl e', s') \<Rightarrow> (Err e', s') | (Inr _, s') \<Rightarrow> (Err e, s'))"

definition update_coordination ::
  "(coordination_state \<Rightarrow> coordination_state) \<Rightarrow> task_scheduler \<Rightarrow> task_scheduler" where
  "update_coordination f s = s\<lparr>ts_coordination := f (ts_coordination s)\<rparr>"

definition task_record_of :: "task_scheduler \<Rightarrow> task_id \<Rightarrow> (development_error, task_snapshot) result" where
  "task_record_of s t = ok_or (NotFound (''task '' @ t)) (map_option tr_snapshot (bt_get (ts_tasks s) t))"

definition adjust_counters ::
  "task_id \<Rightarrow> (task_coordination_counters \<Rightarrow> task_coordination_counters) \<Rightarrow>
   coordination_state \<Rightarrow> coordination_state" where
  "adjust_counters root f st =
     st\<lparr>cs_counters := bt_entry root default_counters f (cs_counters st)\<rparr>"

definition stop_with :: "task_id \<Rightarrow> string \<Rightarrow> coordination_state \<Rightarrow> coordination_state" where
  "stop_with root reason = adjust_counters root (\<lambda>c. c\<lparr>co_stop_reason := Some reason\<rparr>)"

section \<open>Bindings\<close>

definition begin_task_binding ::
  "checkpoint_io \<Rightarrow> task_binding_intent \<Rightarrow> task_scheduler \<Rightarrow> task_execution_binding outcome" where
  "begin_task_binding io intent s =
     (let st = ts_coordination s in
      case validate_binding intent (ts_root s) of
        Inl e \<Rightarrow> (Err e, s)
      | Inr _ \<Rightarrow>
        (case bt_get (cs_bindings st) (bi_intent_id intent) of
           Some existing \<Rightarrow>
             if tb_intent existing = intent then (Ok existing, s)
             else (Err (Conflict
                     ''task binding intent ID was reused with different source revisions''), s)
         | None \<Rightarrow>
             if length (cs_bindings st) \<ge> MAX_BINDINGS
             then (Err (Conflict ''task binding table reached its supported limit''), s)
             else let b = \<lparr>tb_version = 1, tb_intent = intent, tb_root_task_id = None,
                           tb_task_id = None, tb_attempt = None, tb_child_session_id = None,
                           tb_parent_call_id = None, tb_status = Pending, tb_stop_reason = None\<rparr>
                  in persist_ok io b
                       (update_coordination
                          (\<lambda>st. st\<lparr>cs_bindings := bt_insert (bi_intent_id intent) b (cs_bindings st)\<rparr>) s)))"

definition identity_taken ::
  "coordination_state \<Rightarrow> string \<Rightarrow> task_id \<Rightarrow> nat \<Rightarrow> string \<Rightarrow> bool" where
  "identity_taken st intent_id t attempt child \<longleftrightarrow>
     list_ex
       (\<lambda>b. tb_status b = Resolved \<and>
            (tb_child_session_id b = Some child \<or>
             (tb_task_id b = Some t \<and> tb_attempt b = Some attempt)))
       (map snd (filter (\<lambda>kv. fst kv \<noteq> intent_id) (cs_bindings st)) @ cs_historical_bindings st)"

definition rebind_error ::
  "coordination_state \<Rightarrow> task_execution_binding \<Rightarrow> task_id \<Rightarrow> task_id \<Rightarrow> nat \<Rightarrow> string \<Rightarrow> string \<Rightarrow>
   development_error option" where
  "rebind_error st b root t attempt child call =
     (if (case bt_get (cs_wake_policies st) root of
            None \<Rightarrow> False
          | Some p \<Rightarrow> t \<in> set (wp_required_task_ids p) \<and>
                     wp_owner_session_id p \<noteq> bi_core_session_id (tb_intent b))
      then Some (Conflict ''required child binding must use the root owner's Core session'')
      else if (case tb_task_id b of
                 None \<Rightarrow> False
               | Some existing \<Rightarrow> existing \<noteq> t \<or> tb_root_task_id b \<noteq> Some root)
      then Some (Conflict ''task binding intent already resolves to another task'')
      else case tb_attempt b of
        None \<Rightarrow> None
      | Some existing \<Rightarrow>
          if attempt < existing
          then Some (Conflict ''task binding cannot move back to an earlier attempt'')
          else if attempt = existing \<and>
                  (tb_child_session_id b \<noteq> Some child \<or> tb_parent_call_id b \<noteq> Some call)
          then Some (Conflict ''task execution identity cannot change within an attempt'')
          else None)"

text \<open>Moving a binding to a later attempt files the old one and drops the old attempt's streams.\<close>

definition file_prior_attempt ::
  "task_execution_binding \<Rightarrow> task_id \<Rightarrow> nat \<Rightarrow> coordination_state \<Rightarrow> coordination_state" where
  "file_prior_attempt b t attempt st =
     (let keep = (\<lambda>stream. st_task_id stream \<noteq> t \<or> st_attempt stream \<ge> attempt) in
      st\<lparr>cs_historical_bindings := cs_historical_bindings st @ [b],
         cs_stream_cursors := bt_retain keep (cs_stream_cursors st),
         cs_out_of_order := bt_retain keep (cs_out_of_order st)\<rparr>)"

definition resolve_binding ::
  "task_id \<Rightarrow> task_id \<Rightarrow> nat \<Rightarrow> string \<Rightarrow> string \<Rightarrow> task_execution_binding \<Rightarrow> task_execution_binding" where
  "resolve_binding root t attempt child call b =
     b\<lparr>tb_root_task_id := Some root, tb_task_id := Some t, tb_attempt := Some attempt,
       tb_child_session_id := Some child, tb_parent_call_id := Some call, tb_status := Resolved,
       tb_stop_reason := None\<rparr>"

definition resolve_task_binding ::
  "checkpoint_io \<Rightarrow> string \<Rightarrow> task_id \<Rightarrow> task_id \<Rightarrow> nat \<Rightarrow> string \<Rightarrow> string \<Rightarrow> task_scheduler \<Rightarrow>
   task_execution_binding outcome" where
  "resolve_task_binding io intent_id root t attempt child call s =
     (let st = ts_coordination s in
      case all_checks
        [validate_identifier ''child session ID'' child 256,
         validate_identifier ''parent call ID'' call 256,
         reject_if (attempt = 0) ''task binding attempt must be nonzero''] of
        Inl e \<Rightarrow> (Err e, s)
      | Inr _ \<Rightarrow>
        (case task_record_of s t of
           Inl e \<Rightarrow> (Err e, s)
         | Inr task \<Rightarrow>
           (case task_record_of s root of
              Inl e \<Rightarrow> (Err e, s)
            | Inr _ \<Rightarrow>
              if root = t \<or> \<not> task_is_descendant root t (ts_tasks s)
              then (Err (Conflict ''bound child task must be a dependency of its root task''), s)
              else if sn_attempt task \<noteq> attempt
              then (Err (Conflict ''task binding attempt does not match the scheduler''), s)
              else if identity_taken st intent_id t attempt child
              then (Err (Conflict ''task execution identity is already bound''), s)
              else (case bt_get (cs_bindings st) intent_id of
                 None \<Rightarrow> (Err (NotFound ''task binding intent''), s)
               | Some b \<Rightarrow>
                 (case rebind_error st b root t attempt child call of
                    Some e \<Rightarrow> (Err e, s)
                  | None \<Rightarrow>
                    let moving = (case tb_attempt b of None \<Rightarrow> False | Some existing \<Rightarrow> attempt > existing);
                        resolved = resolve_binding root t attempt child call b
                    in if moving \<and> length (cs_historical_bindings st) \<ge> MAX_HISTORICAL_BINDINGS
                       then (Err (Conflict
                         ''historical task binding capacity is full; reconcile before retrying''), s)
                       else persist_ok io resolved
                         (update_coordination
                           (\<lambda>st. let st1 = (if moving then file_prior_attempt b t attempt st else st)
                                 in st1\<lparr>cs_bindings := bt_insert intent_id resolved (cs_bindings st1)\<rparr>)
                           s))))))"

definition mark_binding_reconciliation_required ::
  "checkpoint_io \<Rightarrow> string \<Rightarrow> string \<Rightarrow> task_scheduler \<Rightarrow> unit outcome" where
  "mark_binding_reconciliation_required io intent_id reason s =
     (case validate_identifier ''binding stop reason'' reason MAX_COORDINATION_TEXT_BYTES of
        Inl e \<Rightarrow> (Err e, s)
      | Inr _ \<Rightarrow>
        (case bt_get (cs_bindings (ts_coordination s)) intent_id of
           None \<Rightarrow> (Err (NotFound ''task binding intent''), s)
         | Some b \<Rightarrow>
             persist_checkpoint io
               (update_coordination
                  (\<lambda>st. st\<lparr>cs_bindings := bt_insert intent_id
                     (b\<lparr>tb_status := ReconciliationRequired, tb_stop_reason := Some reason\<rparr>)
                     (cs_bindings st)\<rparr>) s)))"

section \<open>Wake policies\<close>

definition late_owner_mismatch ::
  "coordination_state \<Rightarrow> task_table \<Rightarrow> root_wake_policy \<Rightarrow> task_id \<Rightarrow> bool" where
  "late_owner_mismatch st tasks p t \<longleftrightarrow>
     list_ex
       (\<lambda>b. tb_status b = Resolved \<and> tb_root_task_id b = Some (wp_root_task_id p) \<and>
            tb_task_id b = Some t \<and>
            (case (tb_attempt b, task_attempt tasks t) of
               (Some a, Some current) \<Rightarrow> a \<le> current | _ \<Rightarrow> False) \<and>
            bi_core_session_id (tb_intent b) \<noteq> wp_owner_session_id p)
       (all_bindings st)"

definition same_policy :: "root_wake_policy \<Rightarrow> root_wake_policy \<Rightarrow> bool" where
  "same_policy prior p \<longleftrightarrow>
     wp_version prior = wp_version p \<and> wp_root_task_id prior = wp_root_task_id p \<and>
     wp_owner_session_id prior = wp_owner_session_id p \<and>
     wp_owner_turn_id prior = wp_owner_turn_id p \<and>
     wp_required_task_ids prior = wp_required_task_ids p \<and>
     wp_max_events prior = wp_max_events p \<and> wp_max_event_bytes prior = wp_max_event_bytes p \<and>
     wp_max_owner_wakes prior = wp_max_owner_wakes p"

definition register_root_wake_policy ::
  "checkpoint_io \<Rightarrow> root_wake_policy \<Rightarrow> task_scheduler \<Rightarrow> unit outcome" where
  "register_root_wake_policy io p s =
     (let st = ts_coordination s in
      if wp_reserved_wakes p \<noteq> 0
      then (Err (InvalidInput ''owner wake reservations are scheduler-managed''), s)
      else case validate_wake_policy p (ts_tasks s) of
        Inl e \<Rightarrow> (Err e, s)
      | Inr _ \<Rightarrow>
          if list_ex (late_owner_mismatch st (ts_tasks s) p) (wp_required_task_ids p)
          then (Err (Conflict ''root wake owner must match every resolved required-task binding''), s)
          else (case bt_get (cs_wake_policies st) (wp_root_task_id p) of
             Some prior \<Rightarrow>
               if same_policy prior p then (Ok (), s)
               else (Err (Conflict ''root task already has a different wake policy''), s)
           | None \<Rightarrow>
               persist_checkpoint io
                 (update_coordination
                    (\<lambda>st. st\<lparr>cs_wake_policies := bt_insert (wp_root_task_id p) p (cs_wake_policies st)\<rparr>)
                    s)))"

section \<open>The inbox\<close>

definition pending_events :: "coordination_state \<Rightarrow> task_inbox_event list" where
  "pending_events st = concat (map bt_values (bt_values (cs_out_of_order st)))"

definition queued_events :: "coordination_state \<Rightarrow> task_inbox_event list" where
  "queued_events st = cs_inbox st @ pending_events st"

definition inbox_bytes :: "event_encoder \<Rightarrow> coordination_state \<Rightarrow> nat" where
  "inbox_bytes enc st =
     fold (\<lambda>n acc. nat_saturating_add u64_max acc n) (List.map_filter enc (queued_events st)) 0"

definition note_stale_event :: "checkpoint_io \<Rightarrow> task_id \<Rightarrow> task_scheduler \<Rightarrow> inbox_append_result outcome" where
  "note_stale_event io root s =
     persist_ok io Stale
       (update_coordination
          (adjust_counters root
             (\<lambda>c. c\<lparr>co_stale_events := nat_saturating_add u64_max (co_stale_events c) 1\<rparr>)) s)"

definition note_duplicate_event ::
  "checkpoint_io \<Rightarrow> task_id \<Rightarrow> task_scheduler \<Rightarrow> inbox_append_result outcome" where
  "note_duplicate_event io root s =
     persist_ok io Duplicate
       (update_coordination
          (adjust_counters root
             (\<lambda>c. c\<lparr>co_duplicate_events := nat_saturating_add u64_max (co_duplicate_events c) 1\<rparr>)) s)"

definition validate_verified_completion ::
  "task_inbox_event \<Rightarrow> task_scheduler \<Rightarrow> (development_error, unit) result" where
  "validate_verified_completion ev s =
     res_bind (task_record_of s (ie_task_id ev)) (\<lambda>sn.
       if sn_state sn \<noteq> Succeeded \<or> sn_attempt sn \<noteq> ie_attempt ev \<or>
          \<not> has_required_attempt_evidence sn
       then Err (Conflict ''verified completion requires current-attempt evidence'') else Ok ())"

definition count_accepted_event :: "nat \<Rightarrow> task_inbox_event \<Rightarrow> coordination_state \<Rightarrow> coordination_state" where
  "count_accepted_event bytes ev =
     adjust_counters (ie_root_task_id ev)
       (\<lambda>c. c\<lparr>co_accepted_events := nat_saturating_add u64_max (co_accepted_events c) 1,
              co_accepted_event_bytes := nat_saturating_add u64_max (co_accepted_event_bytes c) bytes\<rparr>)"

definition over_event_budget ::
  "root_wake_policy \<Rightarrow> nat \<Rightarrow> task_inbox_event \<Rightarrow> coordination_state \<Rightarrow> bool" where
  "over_event_budget p bytes ev st \<longleftrightarrow>
     (let c = bt_get_or default_counters (cs_counters st) (ie_root_task_id ev) in
      co_accepted_events c \<ge> wp_max_events p \<or>
      nat_saturating_add u64_max (co_accepted_event_bytes c) bytes > wp_max_event_bytes p)"

definition project_event_stop_reason :: "task_inbox_event \<Rightarrow> coordination_state \<Rightarrow> coordination_state" where
  "project_event_stop_reason ev =
     adjust_counters (ie_root_task_id ev)
       (\<lambda>c. case ie_kind ev of
          QuestionEvent \<Rightarrow> c\<lparr>co_stop_reason := Some ''child is waiting for a human answer''\<rparr>
        | BlockedEvent \<Rightarrow> c\<lparr>co_stop_reason := Some (ie_redacted_summary ev)\<rparr>
        | CancelledEvent \<Rightarrow> c\<lparr>co_stop_reason := Some (ie_redacted_summary ev)\<rparr>
        | _ \<Rightarrow> c)"

text \<open>What delivering one event in order does: advance the cursor, file a completion, queue it.\<close>

definition next_cursor :: "task_stream_cursor \<Rightarrow> task_stream_cursor" where
  "next_cursor cu =
     \<lparr>cu_next_sequence = nat_saturating_add u64_max (cu_next_sequence cu) 1, cu_gap_detected_at_ms = None\<rparr>"

definition file_completion :: "task_inbox_event \<Rightarrow> coordination_state \<Rightarrow> coordination_state" where
  "file_completion ev st =
     (if ie_kind ev = VerifiedCompletion
      then st\<lparr>cs_completion_receipts := bt_insert (ie_task_id ev) ev (cs_completion_receipts st)\<rparr>
      else st)"

definition push_inbox :: "task_inbox_event \<Rightarrow> coordination_state \<Rightarrow> coordination_state" where
  "push_inbox ev st = st\<lparr>cs_inbox := cs_inbox st @ [ev]\<rparr>"

definition fresh_cursor :: "nat \<Rightarrow> task_stream_cursor" where
  "fresh_cursor n = \<lparr>cu_next_sequence = n, cu_gap_detected_at_ms = None\<rparr>"

definition enqueue_in_order ::
  "nat \<Rightarrow> task_inbox_event \<Rightarrow> coordination_state \<Rightarrow>
   (development_error, unit) result \<times> coordination_state" where
  "enqueue_in_order bytes ev st =
     (let st1 = count_accepted_event bytes ev st;
          stream = event_stream_id ev;
          cursor = bt_get_or (fresh_cursor 1) (cs_stream_cursors st1) stream in
      if ie_sequence ev \<noteq> cu_next_sequence cursor
      then (Err (Conflict ''task inbox event is not next in its stream''),
            st1\<lparr>cs_stream_cursors := bt_insert stream cursor (cs_stream_cursors st1)\<rparr>)
      else (Ok (),
            push_inbox ev (project_event_stop_reason ev (file_completion ev
              (st1\<lparr>cs_stream_cursors := bt_insert stream (next_cursor cursor) (cs_stream_cursors st1)\<rparr>)))))"

definition stream_next :: "task_event_stream_id \<Rightarrow> coordination_state \<Rightarrow> nat" where
  "stream_next stream st =
     (case bt_get (cs_stream_cursors st) stream of None \<Rightarrow> 1 | Some cu \<Rightarrow> cu_next_sequence cu)"

definition take_pending :: "task_event_stream_id \<Rightarrow> coordination_state \<Rightarrow> task_inbox_event option" where
  "take_pending stream st =
     bt_get (bt_get_or [] (cs_out_of_order st) stream) (stream_next stream st)"

text \<open>
  One turn of the promotion loop. The cursor exists, since an event of this stream has just
  been queued; on a missing one, where the code's \<open>expect\<close> would panic, the adjustment is void.
\<close>

definition promote_one :: "task_event_stream_id \<Rightarrow> task_inbox_event \<Rightarrow> coordination_state \<Rightarrow> coordination_state" where
  "promote_one stream ev st =
     push_inbox ev (project_event_stop_reason ev (file_completion ev
       (st\<lparr>cs_out_of_order := bt_adjust stream (bt_remove (stream_next stream st)) (cs_out_of_order st),
           cs_stream_cursors := bt_adjust stream next_cursor (cs_stream_cursors st)\<rparr>)))"

definition mark_remaining_gap :: "task_event_stream_id \<Rightarrow> coordination_state \<Rightarrow> coordination_state" where
  "mark_remaining_gap stream st =
     (case bt_get (cs_out_of_order st) stream of
        Some (first # rest) \<Rightarrow>
          st\<lparr>cs_stream_cursors :=
               bt_adjust stream (\<lambda>cu. cu\<lparr>cu_gap_detected_at_ms := Some (ie_observed_at_ms (snd first))\<rparr>)
                 (cs_stream_cursors st)\<rparr>
      | _ \<Rightarrow> st)"

lemma cs_out_of_order_effects [simp]:
  "cs_out_of_order (push_inbox ev st) = cs_out_of_order st"
  "cs_out_of_order (file_completion ev st) = cs_out_of_order st"
  "cs_out_of_order (project_event_stop_reason ev st) = cs_out_of_order st"
  "cs_out_of_order (adjust_counters r f st) = cs_out_of_order st"
  by (simp_all add: push_inbox_def file_completion_def project_event_stop_reason_def adjust_counters_def)

lemma length_bt_remove_less: "bt_get m k = Some v \<Longrightarrow> length (bt_remove k m) < length m"
  unfolding bt_remove_def
  by (rule length_filter_less [of "(k, v)"]) (auto dest: bt_get_mem)

function promote_loop :: "task_event_stream_id \<Rightarrow> coordination_state \<Rightarrow> coordination_state" where
  "promote_loop stream st =
     (case take_pending stream st of
        None \<Rightarrow> mark_remaining_gap stream st
      | Some ev \<Rightarrow> promote_loop stream (promote_one stream ev st))"
  by pat_completeness auto

termination
  by (relation "measure (\<lambda>(stream, st). length (bt_get_or [] (cs_out_of_order st) stream))")
    (auto simp: promote_one_def take_pending_def bt_get_or_def length_bt_remove_less split: option.splits)

declare promote_loop.simps [simp del]

definition drop_empty_buffer :: "task_event_stream_id \<Rightarrow> coordination_state \<Rightarrow> coordination_state" where
  "drop_empty_buffer stream st =
     (if bt_get (cs_out_of_order st) stream = Some []
      then st\<lparr>cs_out_of_order := bt_remove stream (cs_out_of_order st)\<rparr> else st)"

definition AWAITING_GAP :: string where
  "AWAITING_GAP = ''task event sequence gap is awaiting earlier events''"

definition RECONCILE_GAP :: string where
  "RECONCILE_GAP = ''task event sequence gap requires reconciliation''"

definition clear_gap_reasons :: "coordination_state \<Rightarrow> coordination_state" where
  "clear_gap_reasons st =
     (if list_all (\<lambda>cu. cu_gap_detected_at_ms cu = None) (bt_values (cs_stream_cursors st))
      then st\<lparr>cs_counters := bt_map
             (\<lambda>c. if co_stop_reason c = Some AWAITING_GAP \<or> co_stop_reason c = Some RECONCILE_GAP
                  then c\<lparr>co_stop_reason := None\<rparr> else c) (cs_counters st)\<rparr>
      else st)"

definition promote_contiguous_pending :: "task_event_stream_id \<Rightarrow> coordination_state \<Rightarrow> coordination_state" where
  "promote_contiguous_pending stream st =
     clear_gap_reasons (drop_empty_buffer stream (promote_loop stream st))"

definition INBOX_FULL :: development_error where
  "INBOX_FULL = Conflict ''task event inbox is full; reconcile or acknowledge queued events''"

definition inbox_full :: "event_encoder \<Rightarrow> nat \<Rightarrow> coordination_state \<Rightarrow> bool" where
  "inbox_full enc bytes st \<longleftrightarrow>
     length (cs_inbox st) + pending_count st \<ge> MAX_INBOX_EVENTS \<or>
     nat_saturating_add u64_max (inbox_bytes enc st) bytes > MAX_INBOX_BYTES"

definition ensure_inbox_capacity :: "event_encoder \<Rightarrow> coordination_state \<Rightarrow> (development_error, unit) result" where
  "ensure_inbox_capacity enc st =
     (if length (cs_inbox st) + pending_count st > MAX_INBOX_EVENTS \<or> inbox_bytes enc st > MAX_INBOX_BYTES
      then Err INBOX_FULL else Ok ())"

definition refuse_full :: "checkpoint_io \<Rightarrow> task_inbox_event \<Rightarrow> task_scheduler \<Rightarrow> inbox_append_result outcome" where
  "refuse_full io ev s =
     persist_err io INBOX_FULL
       (update_coordination
          (stop_with (ie_root_task_id ev) ''task event inbox requires reconciliation'') s)"

definition refuse_budget :: "checkpoint_io \<Rightarrow> task_inbox_event \<Rightarrow> task_scheduler \<Rightarrow> inbox_append_result outcome" where
  "refuse_budget io ev s =
     persist_err io
       (Conflict ''root task event budget exhausted; human reconciliation is required'')
       (update_coordination (stop_with (ie_root_task_id ev) ''root task event budget exhausted'') s)"

definition mark_gap :: "task_event_stream_id \<Rightarrow> nat \<Rightarrow> nat \<Rightarrow> coordination_state \<Rightarrow> coordination_state" where
  "mark_gap stream next_sequence observed st =
     st\<lparr>cs_stream_cursors :=
          bt_entry stream (fresh_cursor next_sequence)
            (\<lambda>cu. cu\<lparr>cu_gap_detected_at_ms := Some observed\<rparr>) (cs_stream_cursors st)\<rparr>"

definition buffer_event :: "task_event_stream_id \<Rightarrow> task_inbox_event \<Rightarrow> coordination_state \<Rightarrow> coordination_state" where
  "buffer_event stream ev st =
     st\<lparr>cs_out_of_order := bt_entry stream [] (bt_insert (ie_sequence ev) ev) (cs_out_of_order st)\<rparr>"

text \<open>An event ahead of its stream: buffered within the reorder window, refused beyond it.\<close>

definition append_ahead ::
  "checkpoint_io \<Rightarrow> event_encoder \<Rightarrow> root_wake_policy \<Rightarrow> nat \<Rightarrow> nat \<Rightarrow> task_inbox_event \<Rightarrow>
   task_scheduler \<Rightarrow> inbox_append_result outcome" where
  "append_ahead io enc p bytes next_sequence ev s =
     (let st = ts_coordination s; stream = event_stream_id ev;
          pending = bt_get_or [] (cs_out_of_order st) stream in
      if ie_sequence ev - next_sequence > MAX_REORDER_DISTANCE
      then persist_err io (Conflict ''task event sequence gap requires reconciliation'')
             (update_coordination
                (stop_with (ie_root_task_id ev) RECONCILE_GAP \<circ>
                 mark_gap stream next_sequence (ie_observed_at_ms ev)) s)
      else (case bt_get pending (ie_sequence ev) of
         Some existing \<Rightarrow>
           if existing = ev then (Ok Duplicate, s)
           else (Err (Conflict ''task stream sequence was reused with a different event ID''), s)
       | None \<Rightarrow>
           if length pending \<ge> MAX_REORDERED_EVENTS_PER_STREAM \<or> inbox_full enc bytes st
           then refuse_full io ev s
           else if over_event_budget p bytes ev st then refuse_budget io ev s
           else persist_ok io BufferedOutOfOrder
                  (update_coordination
                     (stop_with (ie_root_task_id ev) AWAITING_GAP \<circ>
                      mark_gap stream next_sequence (ie_observed_at_ms ev) \<circ>
                      count_accepted_event bytes ev \<circ> buffer_event stream ev) s)))"

text \<open>The event its stream is waiting for: queued, with the buffered successors behind it.\<close>

definition append_next ::
  "checkpoint_io \<Rightarrow> event_encoder \<Rightarrow> root_wake_policy \<Rightarrow> nat \<Rightarrow> task_inbox_event \<Rightarrow>
   task_scheduler \<Rightarrow> inbox_append_result outcome" where
  "append_next io enc p bytes ev s =
     (let st = ts_coordination s in
      if over_event_budget p bytes ev st then refuse_budget io ev s
      else if inbox_full enc bytes st then refuse_full io ev s
      else (case enqueue_in_order bytes ev st of
         (Inl e, st') \<Rightarrow> (Err e, s\<lparr>ts_coordination := st'\<rparr>)
       | (Inr _, st') \<Rightarrow>
           let s' = s\<lparr>ts_coordination := promote_contiguous_pending (event_stream_id ev) st'\<rparr> in
           (case ensure_inbox_capacity enc (ts_coordination s') of
              Inl e \<Rightarrow> (Err e, s')
            | Inr _ \<Rightarrow> persist_ok io Accepted s')))"

definition append_in_stream ::
  "checkpoint_io \<Rightarrow> event_encoder \<Rightarrow> root_wake_policy \<Rightarrow> nat \<Rightarrow> task_inbox_event \<Rightarrow>
   task_scheduler \<Rightarrow> inbox_append_result outcome" where
  "append_in_stream io enc p bytes ev s =
     (let st = ts_coordination s; stream = event_stream_id ev; next_sequence = stream_next stream st in
      if \<not> bt_contains (cs_stream_cursors st) stream \<and> length (cs_stream_cursors st) \<ge> MAX_EVENT_STREAMS
      then persist_err io (Conflict ''task event stream table is full; reconciliation is required'')
             (update_coordination
                (stop_with (ie_root_task_id ev) ''task event stream table requires reconciliation'') s)
      else if ie_sequence ev < next_sequence then note_stale_event io (ie_root_task_id ev) s
      else if ie_sequence ev = 0
      then (Err (InvalidInput ''task event sequence must start at one''), s)
      else if ie_sequence ev > next_sequence then append_ahead io enc p bytes next_sequence ev s
      else append_next io enc p bytes ev s)"

text \<open>
  A completion is taken once per attempt: a filed receipt or a queued completion of the same
  attempt makes a further one stale, unless it is the very receipt.
\<close>

datatype completion_check = CompletionDuplicate | CompletionReused | CompletionStale | CompletionFresh

definition check_completion :: "task_inbox_event \<Rightarrow> coordination_state \<Rightarrow> completion_check" where
  "check_completion ev st =
     (case bt_get (cs_completion_receipts st) (ie_task_id ev) of
        Some r \<Rightarrow>
          if ie_attempt r = ie_attempt ev
          then if ie_event_id r = ie_event_id ev
               then if r = ev then CompletionDuplicate else CompletionReused
               else CompletionStale
          else if list_ex (\<lambda>q. ie_task_id q = ie_task_id ev \<and> ie_attempt q = ie_attempt ev \<and>
                              ie_kind q = VerifiedCompletion) (queued_events st)
          then CompletionStale else CompletionFresh
      | None \<Rightarrow>
          if list_ex (\<lambda>q. ie_task_id q = ie_task_id ev \<and> ie_attempt q = ie_attempt ev \<and>
                         ie_kind q = VerifiedCompletion) (queued_events st)
          then CompletionStale else CompletionFresh)"

definition COMPLETION_REUSED :: development_error where
  "COMPLETION_REUSED = Conflict ''task event ID was reused with different completion content''"

text \<open>The event has a binding of its own attempt and comes from a required task of its root.\<close>

definition append_required ::
  "checkpoint_io \<Rightarrow> event_encoder \<Rightarrow> root_wake_policy \<Rightarrow> nat \<Rightarrow> task_inbox_event \<Rightarrow>
   task_scheduler \<Rightarrow> inbox_append_result outcome" where
  "append_required io enc p bytes ev s =
     (case task_record_of s (ie_task_id ev) of
        Inl e \<Rightarrow> (Err e, s)
      | Inr task \<Rightarrow>
          if sn_attempt task \<noteq> ie_attempt ev \<or>
             (task_terminal (sn_state task) \<and> ie_kind ev \<noteq> VerifiedCompletion \<and>
              \<not> (ie_kind ev = CancelledEvent \<and> sn_state task = Cancelled))
          then note_stale_event io (ie_root_task_id ev) s
          else if ie_kind ev = VerifiedCompletion
          then (case check_completion ev (ts_coordination s) of
             CompletionDuplicate \<Rightarrow> note_duplicate_event io (ie_root_task_id ev) s
           | CompletionReused \<Rightarrow> (Err COMPLETION_REUSED, s)
           | CompletionStale \<Rightarrow> note_stale_event io (ie_root_task_id ev) s
           | CompletionFresh \<Rightarrow>
               (case validate_verified_completion ev s of
                  Inl e \<Rightarrow> (Err e, s)
                | Inr _ \<Rightarrow> append_in_stream io enc p bytes ev s))
          else append_in_stream io enc p bytes ev s)"

definition append_bound ::
  "checkpoint_io \<Rightarrow> event_encoder \<Rightarrow> nat \<Rightarrow> task_inbox_event \<Rightarrow> task_scheduler \<Rightarrow>
   inbox_append_result outcome" where
  "append_bound io enc bytes ev s =
     (let st = ts_coordination s in
      case find (binding_for_event ev) (all_bindings st) of
        None \<Rightarrow> (Err (Conflict ''task event has no matching binding''), s)
      | Some b \<Rightarrow>
          if tb_attempt b \<noteq> Some (ie_attempt ev) then note_stale_event io (ie_root_task_id ev) s
          else (case bt_get (cs_wake_policies st) (ie_root_task_id ev) of
             None \<Rightarrow> (Err (Conflict ''task event has no root policy''), s)
           | Some p \<Rightarrow>
               if wp_owner_session_id p \<noteq> ie_parent_session_id ev
               then (Err (Conflict ''task event parent session does not match the root wake owner''), s)
               else if ie_task_id ev \<notin> set (wp_required_task_ids p)
               then (Err (Conflict ''task event is not from a required root task''), s)
               else append_required io enc p bytes ev s))"

definition append_task_inbox_event ::
  "checkpoint_io \<Rightarrow> event_encoder \<Rightarrow> task_inbox_event \<Rightarrow> task_scheduler \<Rightarrow>
   inbox_append_result outcome" where
  "append_task_inbox_event io enc ev s =
     (let st = ts_coordination s in
      case validate_event enc ev (ts_root s) of
        Inl e \<Rightarrow> (Err e, s)
      | Inr _ \<Rightarrow>
        if ie_sequence ev = u64_max
        then (Err (InvalidInput ''task event sequence is exhausted''), s)
        else (case find (\<lambda>r. ie_event_id r = ie_event_id ev) (bt_values (cs_completion_receipts st)) of
           Some receipt \<Rightarrow>
             if receipt \<noteq> ev then (Err COMPLETION_REUSED, s)
             else note_duplicate_event io (ie_root_task_id ev) s
         | None \<Rightarrow>
           (case find (\<lambda>q. ie_event_id q = ie_event_id ev) (queued_events st) of
              Some queued \<Rightarrow>
                if queued = ev then note_duplicate_event io (ie_root_task_id ev) s
                else (Err (Conflict ''task event ID was reused with different content''), s)
            | None \<Rightarrow>
                (case encoded_event_len enc ev of
                   Inl e \<Rightarrow> (Err e, s)
                 | Inr bytes \<Rightarrow> append_bound io enc bytes ev s))))"

definition task_inbox :: "task_id \<Rightarrow> task_scheduler \<Rightarrow> task_inbox_event list" where
  "task_inbox root s = filter (\<lambda>ev. ie_root_task_id ev = root) (cs_inbox (ts_coordination s))"

fun position :: "('a \<Rightarrow> bool) \<Rightarrow> 'a list \<Rightarrow> nat option" where
  "position P [] = None"
| "position P (x # xs) = (if P x then Some 0 else map_option Suc (position P xs))"

definition acknowledge_task_inbox_event :: "checkpoint_io \<Rightarrow> string \<Rightarrow> task_scheduler \<Rightarrow> bool outcome" where
  "acknowledge_task_inbox_event io event_id s =
     (let inbox = cs_inbox (ts_coordination s) in
      case position (\<lambda>ev. ie_event_id ev = event_id) inbox of
        None \<Rightarrow> (Ok False, s)
      | Some i \<Rightarrow>
          if ie_kind (inbox ! i) = VerifiedCompletion
          then (Err (Conflict
                 ''verified completion is retained until the owner wake is reconciled''), s)
          else persist_ok io True
                 (update_coordination (\<lambda>st. st\<lparr>cs_inbox := remove_nth i (cs_inbox st)\<rparr>) s))"

definition task_coordination_counters_of :: "task_id \<Rightarrow> task_scheduler \<Rightarrow> task_coordination_counters" where
  "task_coordination_counters_of root s =
     bt_get_or default_counters (cs_counters (ts_coordination s)) root"

section \<open>Owner wakes\<close>

text \<open>
  The receipts a wake rests on: \<open>Some\<close> with the event ids and the highest sequence when every
  required task has succeeded with evidence, is bound to its current attempt and has a receipt
  of that attempt; \<open>None\<close> as soon as one has not.
\<close>

definition required_receipt ::
  "task_scheduler \<Rightarrow> root_wake_policy \<Rightarrow> task_id \<Rightarrow> task_id \<Rightarrow>
   (development_error, task_inbox_event option) result" where
  "required_receipt s p root t =
     (let st = ts_coordination s in
      res_bind (task_record_of s t) (\<lambda>sn.
        if sn_state sn \<noteq> Succeeded \<or> \<not> has_required_attempt_evidence sn then Ok None
        else if \<not> list_ex (\<lambda>b. tb_status b = Resolved \<and> tb_root_task_id b = Some root \<and>
                            tb_task_id b = Some t \<and> tb_attempt b = Some (sn_attempt sn) \<and>
                            bi_core_session_id (tb_intent b) = wp_owner_session_id p)
                    (bt_values (cs_bindings st))
        then Ok None
        else case bt_get (cs_completion_receipts st) t of
          None \<Rightarrow> Ok None
        | Some r \<Rightarrow>
            if ie_attempt r \<noteq> sn_attempt sn \<or> ie_kind r \<noteq> VerifiedCompletion then Ok None
            else Ok (Some r)))"

fun collect_receipts ::
  "task_scheduler \<Rightarrow> root_wake_policy \<Rightarrow> task_id \<Rightarrow> task_id list \<Rightarrow>
   (development_error, task_inbox_event list option) result" where
  "collect_receipts s p root [] = Ok (Some [])"
| "collect_receipts s p root (t # ts) =
     (case required_receipt s p root t of
        Inl e \<Rightarrow> Err e
      | Inr None \<Rightarrow> Ok None
      | Inr (Some r) \<Rightarrow> res_bind (collect_receipts s p root ts) (\<lambda>rest. Ok (map_option ((#) r) rest)))"

definition new_lease ::
  "string \<Rightarrow> task_id \<Rightarrow> root_wake_policy \<Rightarrow> task_inbox_event list \<Rightarrow> nat \<Rightarrow> nat \<Rightarrow> owner_wake_lease" where
  "new_lease lease_id root p receipts now_ms duration =
     \<lparr>wl_lease_id = lease_id, wl_root_task_id = root, wl_owner_session_id = wp_owner_session_id p,
      wl_owner_turn_id = wp_owner_turn_id p,
      wl_event_ids = remdups_adj (sort (map ie_event_id receipts)),
      wl_inbox_watermark = fold (\<lambda>r m. max m (ie_sequence r)) receipts 0,
      wl_reserved_at_ms = now_ms,
      wl_expires_at_ms = nat_saturating_add u128_max now_ms duration,
      wl_state = Reserved, wl_stop_reason = None\<rparr>"

definition record_lease :: "owner_wake_lease \<Rightarrow> coordination_state \<Rightarrow> coordination_state" where
  "record_lease l st =
     adjust_counters (wl_root_task_id l)
       (\<lambda>c. c\<lparr>co_wake_reservations := nat_saturating_add u32_max (co_wake_reservations c) 1\<rparr>)
       (st\<lparr>cs_wake_leases := bt_insert (wl_lease_id l) l (cs_wake_leases st),
           cs_wake_policies := bt_adjust (wl_root_task_id l)
             (\<lambda>p. p\<lparr>wp_reserved_wakes := nat_saturating_add u32_max (wp_reserved_wakes p) 1\<rparr>)
             (cs_wake_policies st)\<rparr>)"

definition reserve_owner_wake ::
  "checkpoint_io \<Rightarrow> task_id \<Rightarrow> string \<Rightarrow> nat \<Rightarrow> nat \<Rightarrow> task_scheduler \<Rightarrow> owner_wake_lease option outcome" where
  "reserve_owner_wake io root lease_id now_ms duration s =
     (let st = ts_coordination s in
      case validate_identifier ''owner wake lease ID'' lease_id 128 of
        Inl e \<Rightarrow> (Err e, s)
      | Inr _ \<Rightarrow>
        if duration = 0 \<or> duration > MAX_WAKE_LEASE_MS
        then (Err (InvalidInput ''owner wake lease duration is outside the supported bound''), s)
        else (case bt_get (cs_wake_leases st) lease_id of
           Some existing \<Rightarrow>
             if wl_root_task_id existing \<noteq> root
             then (Err (Conflict ''owner wake lease ID was reused for another root''), s)
             else (Ok (Some existing), s)
         | None \<Rightarrow>
           (case bt_get (cs_wake_policies st) root of
              None \<Rightarrow> (Err (NotFound ''root wake policy''), s)
            | Some p \<Rightarrow>
              (case find (\<lambda>l. wl_root_task_id l = root \<and> \<not> lease_terminal (wl_state l))
                      (bt_values (cs_wake_leases st)) of
                 Some existing \<Rightarrow> (Ok (Some existing), s)
               | None \<Rightarrow>
                 if wp_reserved_wakes p \<ge> wp_max_owner_wakes p then (Ok None, s)
                 else if list_ex (\<lambda>l. wl_owner_session_id l = wp_owner_session_id p \<and>
                                    \<not> lease_terminal (wl_state l)) (bt_values (cs_wake_leases st))
                 then (Err (Conflict ''owner session already has a fenced wake lease''), s)
                 else (case collect_receipts s p root (wp_required_task_ids p) of
                    Inl e \<Rightarrow> (Err e, s)
                  | Inr None \<Rightarrow> (Ok None, s)
                  | Inr (Some receipts) \<Rightarrow>
                      if receipts = [] then (Ok None, s)
                      else let l = new_lease lease_id root p receipts now_ms duration
                           in persist_ok io (Some l) (update_coordination (record_lease l) s))))))"

definition count_unknown :: "task_id \<Rightarrow> string option \<Rightarrow> coordination_state \<Rightarrow> coordination_state" where
  "count_unknown root reason =
     adjust_counters root
       (\<lambda>c. c\<lparr>co_unknown_wake_outcomes := nat_saturating_add u32_max (co_unknown_wake_outcomes c) 1,
              co_stop_reason := reason\<rparr>)"

definition EXPIRED_WAKE :: string where
  "EXPIRED_WAKE = ''wake reservation expired before reconciliation''"

text \<open>
  A lease is stored under its own id, so replacing it is an insertion under the id it was
  looked up with.
\<close>

definition set_lease :: "string \<Rightarrow> owner_wake_lease \<Rightarrow> coordination_state \<Rightarrow> coordination_state" where
  "set_lease lease_id l st = st\<lparr>cs_wake_leases := bt_insert lease_id l (cs_wake_leases st)\<rparr>"

definition mark_owner_wake_dispatching ::
  "checkpoint_io \<Rightarrow> string \<Rightarrow> nat \<Rightarrow> task_scheduler \<Rightarrow> owner_wake_lease outcome" where
  "mark_owner_wake_dispatching io lease_id now_ms s =
     (case bt_get (cs_wake_leases (ts_coordination s)) lease_id of
        None \<Rightarrow> (Err (NotFound ''owner wake lease''), s)
      | Some l \<Rightarrow>
          if wl_state l = Dispatching
          then (Err (Conflict ''owner wake dispatch is already in progress and must be reconciled''), s)
          else if wl_state l \<noteq> Reserved
          then (Err (Conflict ''owner wake lease is no longer available for dispatch''), s)
          else if now_ms \<ge> wl_expires_at_ms l
          then persist_err io (Conflict ''owner wake reservation requires reconciliation'')
                 (update_coordination
                    (count_unknown (wl_root_task_id l) (Some EXPIRED_WAKE) \<circ>
                     set_lease lease_id (l\<lparr>wl_state := UnknownOutcome, wl_stop_reason := Some EXPIRED_WAKE\<rparr>)) s)
          else let l' = l\<lparr>wl_state := Dispatching\<rparr> in
               persist_ok io l'
                 (update_coordination
                    (adjust_counters (wl_root_task_id l)
                       (\<lambda>c. c\<lparr>co_wake_dispatches := nat_saturating_add u32_max (co_wake_dispatches c) 1\<rparr>) \<circ>
                     set_lease lease_id l') s))"

fun apply_outcome :: "wake_delivery_outcome \<Rightarrow> string option \<Rightarrow> owner_wake_lease \<Rightarrow> owner_wake_lease" where
  "apply_outcome Acknowledged reason l = l\<lparr>wl_state := Delivered, wl_stop_reason := None\<rparr>"
| "apply_outcome DefinitelyNotSent reason l =
     l\<lparr>wl_state := FailedBeforeDispatch,
       wl_stop_reason := Some (case reason of None \<Rightarrow> ''wake was confirmed not sent'' | Some r \<Rightarrow> r)\<rparr>"
| "apply_outcome UnknownDelivery reason l =
     l\<lparr>wl_state := UnknownOutcome,
       wl_stop_reason := Some (case reason of None \<Rightarrow> ''wake delivery outcome is unknown'' | Some r \<Rightarrow> r)\<rparr>"

definition finish_owner_wake_dispatch ::
  "checkpoint_io \<Rightarrow> string \<Rightarrow> wake_delivery_outcome \<Rightarrow> string option \<Rightarrow> task_scheduler \<Rightarrow>
   owner_wake_lease outcome" where
  "finish_owner_wake_dispatch io lease_id delivery reason s =
     (case (case reason of
              None \<Rightarrow> Ok ()
            | Some r \<Rightarrow> validate_identifier ''wake stop reason'' r MAX_COORDINATION_TEXT_BYTES) of
        Inl e \<Rightarrow> (Err e, s)
      | Inr _ \<Rightarrow>
        (case bt_get (cs_wake_leases (ts_coordination s)) lease_id of
           None \<Rightarrow> (Err (NotFound ''owner wake lease''), s)
         | Some l \<Rightarrow>
             if wl_state l \<noteq> Dispatching
             then (Err (Conflict ''owner wake dispatch was not started''), s)
             else let l' = apply_outcome delivery reason l in
                  persist_ok io l'
                    (update_coordination
                       ((if wl_state l' = UnknownOutcome
                         then count_unknown (wl_root_task_id l') (wl_stop_reason l') else id) \<circ>
                        set_lease lease_id l') s)))"

definition reconcile_owner_wake ::
  "checkpoint_io \<Rightarrow> string \<Rightarrow> bool \<Rightarrow> task_scheduler \<Rightarrow> owner_wake_lease outcome" where
  "reconcile_owner_wake io lease_id delivered s =
     (case bt_get (cs_wake_leases (ts_coordination s)) lease_id of
        None \<Rightarrow> (Err (NotFound ''owner wake lease''), s)
      | Some l \<Rightarrow>
          if wl_state l \<noteq> UnknownOutcome
          then (Err (Conflict ''only an unknown owner wake can be reconciled''), s)
          else let l' = l\<lparr>wl_state := (if delivered then Delivered else FailedBeforeDispatch),
                          wl_stop_reason := None\<rparr>
               in persist_ok io l'
                    (update_coordination
                       (\<lambda>st. (set_lease lease_id l' st)
                          \<lparr>cs_counters := bt_adjust (wl_root_task_id l) (\<lambda>c. c\<lparr>co_stop_reason := None\<rparr>)
                             (cs_counters st)\<rparr>) s))"

definition settle_owner_wake ::
  "checkpoint_io \<Rightarrow> string \<Rightarrow> string \<Rightarrow> string \<Rightarrow> task_scheduler \<Rightarrow> owner_wake_lease outcome" where
  "settle_owner_wake io lease_id owner_session owner_turn s =
     (case bt_get (cs_wake_leases (ts_coordination s)) lease_id of
        None \<Rightarrow> (Err (NotFound ''owner wake lease''), s)
      | Some l \<Rightarrow>
          if wl_state l \<noteq> Delivered \<or> wl_owner_session_id l \<noteq> owner_session \<or>
             wl_owner_turn_id l \<noteq> owner_turn
          then (Err (Conflict ''owner wake settlement does not match its delivered session turn''), s)
          else let l' = l\<lparr>wl_state := SettledLease\<rparr> in
               persist_ok io l'
                 (update_coordination
                    (\<lambda>st. (set_lease lease_id l' st)
                       \<lparr>cs_inbox := filter (\<lambda>ev. ie_event_id ev \<notin> set (wl_event_ids l)) (cs_inbox st)\<rparr>) s))"

definition dispatch_reserved_owner_wake ::
  "checkpoint_io \<Rightarrow> checkpoint_io \<Rightarrow> (owner_wake_lease \<Rightarrow> wake_delivery_outcome) \<Rightarrow> string \<Rightarrow> nat \<Rightarrow>
   task_scheduler \<Rightarrow> owner_wake_lease outcome" where
  "dispatch_reserved_owner_wake io1 io2 adapter lease_id now_ms s =
     (case mark_owner_wake_dispatching io1 lease_id now_ms s of
        (Inl e, s') \<Rightarrow> (Err e, s')
      | (Inr l, s') \<Rightarrow> finish_owner_wake_dispatch io2 lease_id (adapter l) None s')"

definition INTERRUPTED_WAKE :: string where
  "INTERRUPTED_WAKE = ''recovery required after interrupted wake dispatch''"

definition interrupt_lease :: "string \<times> owner_wake_lease \<Rightarrow> coordination_state \<Rightarrow> coordination_state" where
  "interrupt_lease entry st =
     (let l = snd entry in
      if wl_state l = Dispatching
      then count_unknown (wl_root_task_id l) (Some INTERRUPTED_WAKE)
             (set_lease (fst entry)
                (l\<lparr>wl_state := UnknownOutcome, wl_stop_reason := Some INTERRUPTED_WAKE\<rparr>) st)
      else st)"

definition mark_interrupted_wake_dispatches_unknown :: "coordination_state \<Rightarrow> bool \<times> coordination_state" where
  "mark_interrupted_wake_dispatches_unknown st =
     (list_ex (\<lambda>l. wl_state l = Dispatching) (bt_values (cs_wake_leases st)),
      fold interrupt_lease (cs_wake_leases st) st)"

section \<open>Starting again\<close>

text \<open>
  What starting a scheduler does to the coordination state: it takes what the checkpoint holds,
  or an empty state when there is none, refuses one that does not validate, marks interrupted
  dispatches as unknown and writes that back. The task table is the one of the checkpoint; the
  recovery of task states belongs to the task part of the scheduler.
\<close>

definition restart_coordination :: "checkpoint_io \<Rightarrow> event_encoder \<Rightarrow> task_scheduler \<Rightarrow> unit outcome" where
  "restart_coordination io enc s =
     (let st = (case ts_saved s of None \<Rightarrow> default_coordination | Some c \<Rightarrow> c) in
      case (case ts_saved s of None \<Rightarrow> Ok () | Some c \<Rightarrow> validate enc c (ts_root s) (ts_tasks s)) of
        Inl e \<Rightarrow> (Err e, s)
      | Inr _ \<Rightarrow>
          let (interrupted, st') = mark_interrupted_wake_dispatches_unknown st;
              s' = s\<lparr>ts_coordination := st'\<rparr>
          in if interrupted then persist_checkpoint io s' else (Ok (), s'))"

end
