(* ===== verification/Coord_Valid.thy ===== *)
theory Coord_Valid
  imports Coord_Ops
begin

text \<open>
  What a checkpoint that passes \<open>validate\<close> satisfies, as a predicate on the coordination state
  without the order of the checks, and the equivalence of the two. The maps of the state are
  sorted (\<open>coord_wf\<close>), as every \<open>BTreeMap\<close> is.
\<close>

section \<open>Chains of checks\<close>

lemma all_checks_Ok [simp]: "all_checks cs = Inr u \<longleftrightarrow> (\<forall>c \<in> set cs. c = Inr ())"
  by (induction cs) (auto split: sum.splits)

declare all_checks.simps [simp del]

lemma reject_if_Ok [simp]: "reject_if b r = Inr u \<longleftrightarrow> \<not> b"
  by (simp add: reject_if_def)

lemma validate_identifier_Ok [simp]: "validate_identifier l v n = Inr u \<longleftrightarrow> text_ok n v"
  by (simp add: validate_identifier_def text_ok_def)

lemma thread_Ok_iff:
  assumes step: "\<And>x s s'. x \<in> set xs \<Longrightarrow> f x s = Inr s' \<longleftrightarrow> P x \<and> key x \<notin> set (fst s) \<and> s' = (key x # fst s, g x (snd s))"
  shows "thread f xs s = Inr s' \<longleftrightarrow>
    (\<forall>x \<in> set xs. P x) \<and> distinct (map key xs) \<and> key ` set xs \<inter> set (fst s) = {} \<and>
    s' = (rev (map key xs) @ fst s, fold g xs (snd s))"
  using step
proof (induction xs arbitrary: s)
  case Nil
  then show ?case by auto
next
  case (Cons x xs)
  have IH: "thread f xs s1 = Inr s' \<longleftrightarrow>
    (\<forall>x \<in> set xs. P x) \<and> distinct (map key xs) \<and> key ` set xs \<inter> set (fst s1) = {} \<and>
    s' = (rev (map key xs) @ fst s1, fold g xs (snd s1))" for s1
    using Cons.IH [of s1] Cons.prems by simp
  have "thread f (x # xs) s = Inr s' \<longleftrightarrow> (\<exists>s1. f x s = Inr s1 \<and> thread f xs s1 = Inr s')"
    by (simp split: sum.splits)
  also have "\<dots> \<longleftrightarrow> P x \<and> key x \<notin> set (fst s) \<and> thread f xs (key x # fst s, g x (snd s)) = Inr s'"
    using Cons.prems [of x s] by (simp del: split_paired_Ex)
  finally show ?case by (auto simp: IH)
qed

section \<open>Stored events\<close>

lemma validate_event_enc: "validate_event enc ev ws = Inr u \<Longrightarrow> \<exists>n. enc ev = Some n \<and> n \<le> MAX_INBOX_EVENT_BYTES"
  by (auto simp: validate_event_def encoded_event_len_def ok_or_def split: if_splits option.splits)

lemma validate_event_facts:
  assumes "validate_event enc ev ws = Inr u"
  shows "text_ok 128 (ie_event_id ev)" "text_ok 256 (ie_child_session_id ev)"
    "text_ok 256 (ie_parent_session_id ev)" "text_ok 256 (ie_parent_call_id ev)"
    "ie_sequence ev \<noteq> 0" "ie_attempt ev \<noteq> 0"
    "length (ie_redacted_summary ev) \<le> MAX_COORDINATION_TEXT_BYTES"
  using assms by (auto simp: validate_event_def event_fields_ok_def split: if_splits)

text \<open>The task an event speaks of: known, not ahead of the scheduler, and proved when it says so.\<close>

definition event_task_ok :: "task_table \<Rightarrow> task_inbox_event \<Rightarrow> bool" where
  "event_task_ok tasks ev \<longleftrightarrow>
     (\<exists>task. bt_get tasks (ie_task_id ev) = Some task \<and> bt_contains tasks (ie_root_task_id ev) \<and>
        ie_attempt ev \<le> sn_attempt (tr_snapshot task) \<and>
        (ie_kind ev = VerifiedCompletion \<and> ie_attempt ev = sn_attempt (tr_snapshot task) \<longrightarrow>
         sn_state (tr_snapshot task) = Succeeded \<and> has_required_attempt_evidence (tr_snapshot task)))"

definition event_policy_ok :: "coordination_state \<Rightarrow> task_inbox_event \<Rightarrow> bool" where
  "event_policy_ok st ev \<longleftrightarrow>
     (\<exists>p. bt_get (cs_wake_policies st) (ie_root_task_id ev) = Some p \<and>
        ie_task_id ev \<in> set (wp_required_task_ids p) \<and> wp_owner_session_id p = ie_parent_session_id ev)"

definition event_bound :: "coordination_state \<Rightarrow> task_inbox_event \<Rightarrow> bool" where
  "event_bound st ev \<longleftrightarrow>
     (\<exists>b \<in> set (all_bindings st). binding_for_event ev b \<and> tb_attempt b = Some (ie_attempt ev))"

definition stored_ok :: "event_encoder \<Rightarrow> coordination_state \<Rightarrow> string \<Rightarrow> task_table \<Rightarrow> task_inbox_event \<Rightarrow> bool" where
  "stored_ok enc st ws tasks ev \<longleftrightarrow>
     validate_event enc ev ws = Ok () \<and> event_task_ok tasks ev \<and> event_policy_ok st ev \<and> event_bound st ev"

lemma validate_stored_event_Ok:
  "validate_stored_event enc st ev ws tasks = Inr u \<longleftrightarrow> stored_ok enc st ws tasks ev"
  by (cases "validate_event enc ev ws"; cases "bt_get tasks (ie_task_id ev)";
      cases "bt_get (cs_wake_policies st) (ie_root_task_id ev)")
    (auto simp: validate_stored_event_def stored_ok_def event_task_ok_def event_policy_ok_def
      event_bound_def list_ex_iff)

section \<open>Sorted maps\<close>

definition coord_wf :: "coordination_state \<Rightarrow> bool" where
  "coord_wf st \<longleftrightarrow>
     bt_wf (cs_bindings st) \<and> bt_wf (cs_out_of_order st) \<and>
     (\<forall>stream pending. bt_get (cs_out_of_order st) stream = Some pending \<longrightarrow> bt_wf pending) \<and>
     bt_wf (cs_stream_cursors st) \<and> bt_wf (cs_completion_receipts st) \<and>
     bt_wf (cs_wake_policies st) \<and> bt_wf (cs_wake_leases st) \<and> bt_wf (cs_counters st)"

section \<open>The parts of a valid state\<close>

definition sat_sum :: "nat list \<Rightarrow> nat" where
  "sat_sum ns = fold (\<lambda>n acc. nat_saturating_add u64_max acc n) ns 0"

lemma sat_fold: "fold (\<lambda>n acc. nat_saturating_add u64_max acc n) ns a =
    (if ns = [] then a else min u64_max (a + sum_list ns))"
proof (induction ns arbitrary: a)
  case Nil
  then show ?case by simp
next
  case (Cons n ns)
  show ?case using Cons.IH [of "nat_saturating_add u64_max a n"]
    by (auto simp: nat_saturating_add_def)
qed

lemma sat_sum_min: "sat_sum ns = min u64_max (sum_list ns)"
  by (simp add: sat_sum_def sat_fold)

lemma sat_sum_le_iff: "m < u64_max \<Longrightarrow> sat_sum ns \<le> m \<longleftrightarrow> sum_list ns \<le> m"
  by (auto simp: sat_sum_def sat_fold)

definition buffer_ok :: "coordination_state \<Rightarrow> task_event_stream_id \<Rightarrow> (nat, task_inbox_event) btree \<Rightarrow> bool" where
  "buffer_ok st stream pending \<longleftrightarrow>
     validate_stream_id stream = Ok () \<and> length pending \<le> MAX_REORDERED_EVENTS_PER_STREAM \<and>
     (\<exists>cu. bt_get (cs_stream_cursors st) stream = Some cu \<and>
        (\<forall>kv \<in> set pending. ie_sequence (snd kv) = fst kv \<and> cu_next_sequence cu < fst kv \<and>
           fst kv - cu_next_sequence cu \<le> MAX_REORDER_DISTANCE \<and> event_stream_id (snd kv) = stream))"

definition events_ok :: "event_encoder \<Rightarrow> coordination_state \<Rightarrow> string \<Rightarrow> task_table \<Rightarrow> bool" where
  "events_ok enc st ws tasks \<longleftrightarrow>
     (\<forall>ev \<in> set (queued_events st). stored_ok enc st ws tasks ev) \<and>
     distinct (map ie_event_id (queued_events st)) \<and>
     (\<forall>kv \<in> set (cs_out_of_order st). buffer_ok st (fst kv) (snd kv))"

definition totals_ok :: "event_encoder \<Rightarrow> coordination_state \<Rightarrow> bool" where
  "totals_ok enc st \<longleftrightarrow>
     length (queued_events st) \<le> MAX_INBOX_EVENTS \<and>
     sum_list (map (\<lambda>ev. the (enc ev)) (queued_events st)) \<le> MAX_INBOX_BYTES"

lemma pending_count_length: "pending_count st = length (pending_events st)"
  by (simp add: pending_count_def pending_events_def length_concat bt_values_def comp_def)

lemma length_queued: "length (cs_inbox st) + pending_count st = length (queued_events st)"
  by (simp add: queued_events_def pending_count_length)

lemma inbox_bytes_eq:
  assumes "\<forall>ev \<in> set (queued_events st). enc ev \<noteq> None"
  shows "inbox_bytes enc st = sat_sum (map (\<lambda>ev. the (enc ev)) (queued_events st))"
proof -
  have "List.map_filter enc evs = map (\<lambda>ev. the (enc ev)) evs" if "\<forall>ev \<in> set evs. enc ev \<noteq> None" for evs
    using that by (induction evs) (auto simp: List.map_filter_simps split: option.splits)
  with assms show ?thesis by (simp add: inbox_bytes_def sat_sum_def)
qed

section \<open>The event loops\<close>

definition event_bytes :: "event_encoder \<Rightarrow> task_inbox_event \<Rightarrow> nat \<Rightarrow> nat" where
  "event_bytes enc ev acc = nat_saturating_add u64_max acc (the (enc ev))"

lemma count_event_Ok:
  "stored_ok enc st ws tasks ev \<Longrightarrow>
   count_event enc ev scan = Inr (ie_event_id ev # fst scan, event_bytes enc ev (snd scan))"
  by (auto simp: count_event_def encoded_event_len_def event_bytes_def stored_ok_def dest!: validate_event_enc)

lemma validate_inbox_event_Ok:
  "validate_inbox_event enc st ws tasks ev scan = Inr scan' \<longleftrightarrow>
     stored_ok enc st ws tasks ev \<and> ie_event_id ev \<notin> set (fst scan) \<and>
     scan' = (ie_event_id ev # fst scan, event_bytes enc ev (snd scan))"
  using validate_stored_event_Ok [of enc st ev ws tasks] count_event_Ok [of enc st ws tasks ev scan]
  by (cases "validate_stored_event enc st ev ws tasks") (auto simp: validate_inbox_event_def)

definition pending_ok ::
  "event_encoder \<Rightarrow> coordination_state \<Rightarrow> string \<Rightarrow> task_table \<Rightarrow> task_event_stream_id \<Rightarrow>
   task_stream_cursor \<Rightarrow> nat \<times> task_inbox_event \<Rightarrow> bool" where
  "pending_ok enc st ws tasks stream cu kv \<longleftrightarrow>
     stored_ok enc st ws tasks (snd kv) \<and> ie_sequence (snd kv) = fst kv \<and> cu_next_sequence cu < fst kv \<and>
     fst kv - cu_next_sequence cu \<le> MAX_REORDER_DISTANCE \<and> event_stream_id (snd kv) = stream"

lemma validate_pending_event_Ok:
  "validate_pending_event enc st ws tasks stream cu kv scan = Inr scan' \<longleftrightarrow>
     pending_ok enc st ws tasks stream cu kv \<and> ie_event_id (snd kv) \<notin> set (fst scan) \<and>
     scan' = (ie_event_id (snd kv) # fst scan, event_bytes enc (snd kv) (snd scan))"
  using validate_stored_event_Ok [of enc st "snd kv" ws tasks]
    count_event_Ok [of enc st ws tasks "snd kv" scan]
  by (cases "validate_stored_event enc st (snd kv) ws tasks")
    (auto simp: validate_pending_event_def pending_ok_def Let_def)

text \<open>Scanning a run of events: all of them stored rightly, no id seen twice.\<close>

definition scan_ok ::
  "event_encoder \<Rightarrow> coordination_state \<Rightarrow> string \<Rightarrow> task_table \<Rightarrow> task_inbox_event list \<Rightarrow>
   event_scan \<Rightarrow> event_scan \<Rightarrow> bool" where
  "scan_ok enc st ws tasks evs scan scan' \<longleftrightarrow>
     (\<forall>ev \<in> set evs. stored_ok enc st ws tasks ev) \<and> distinct (map ie_event_id evs) \<and>
     ie_event_id ` set evs \<inter> set (fst scan) = {} \<and>
     scan' = (rev (map ie_event_id evs) @ fst scan, fold (event_bytes enc) evs (snd scan))"

lemma scan_ok_append:
  "scan_ok enc st ws tasks (xs @ ys) scan scan' \<longleftrightarrow>
     (\<exists>s1. scan_ok enc st ws tasks xs scan s1 \<and> scan_ok enc st ws tasks ys s1 scan')"
proof -
  have "(ie_event_id ` set ys \<inter> (ie_event_id ` set xs \<union> set (fst scan)) = {}) =
      (ie_event_id ` set xs \<inter> ie_event_id ` set ys = {} \<and> ie_event_id ` set ys \<inter> set (fst scan) = {})"
    by blast
  then show ?thesis
    by (auto simp: scan_ok_def image_Un Int_Un_distrib2)
qed

lemma validate_reorder_buffer_Ok:
  "validate_reorder_buffer enc st ws tasks buf scan = Inr scan' \<longleftrightarrow>
     buffer_ok st (fst buf) (snd buf) \<and> scan_ok enc st ws tasks (bt_values (snd buf)) scan scan'"
proof (cases "bt_get (cs_stream_cursors st) (fst buf)")
  case None
  then show ?thesis
    by (auto simp: validate_reorder_buffer_def buffer_ok_def Let_def split: sum.splits)
next
  case (Some cu)
  have t: "thread (validate_pending_event enc st ws tasks (fst buf) cu) (snd buf) scan = Inr scan' \<longleftrightarrow>
      (\<forall>kv \<in> set (snd buf). pending_ok enc st ws tasks (fst buf) cu kv) \<and>
      distinct (map (\<lambda>kv. ie_event_id (snd kv)) (snd buf)) \<and>
      (\<lambda>kv. ie_event_id (snd kv)) ` set (snd buf) \<inter> set (fst scan) = {} \<and>
      scan' = (rev (map (\<lambda>kv. ie_event_id (snd kv)) (snd buf)) @ fst scan,
               fold (\<lambda>kv. event_bytes enc (snd kv)) (snd buf) (snd scan))"
    by (rule thread_Ok_iff) (rule validate_pending_event_Ok)
  have "fold (\<lambda>kv. event_bytes enc (snd kv)) (snd buf) = fold (event_bytes enc) (bt_values (snd buf))"
    by (simp add: bt_values_def fold_map comp_def)
  then show ?thesis
    using Some unfolding validate_reorder_buffer_def Let_def
    by (cases "validate_stream_id (fst buf)")
      (auto simp: t buffer_ok_def scan_ok_def pending_ok_def bt_values_def comp_def image_image)
qed

lemma thread_buffers_Ok:
  "thread (validate_reorder_buffer enc st ws tasks) bufs scan = Inr scan' \<longleftrightarrow>
     (\<forall>buf \<in> set bufs. buffer_ok st (fst buf) (snd buf)) \<and>
     scan_ok enc st ws tasks (concat (map bt_values (bt_values bufs))) scan scan'"
proof (induction bufs arbitrary: scan)
  case Nil
  then show ?case by (auto simp: bt_values_def scan_ok_def)
next
  case (Cons buf bufs)
  have "thread (validate_reorder_buffer enc st ws tasks) (buf # bufs) scan = Inr scan' \<longleftrightarrow>
      (\<exists>s1. validate_reorder_buffer enc st ws tasks buf scan = Inr s1 \<and>
            thread (validate_reorder_buffer enc st ws tasks) bufs s1 = Inr scan')"
    by (simp split: sum.splits)
  moreover have "concat (map bt_values (bt_values (buf # bufs))) =
      bt_values (snd buf) @ concat (map bt_values (bt_values bufs))"
    by (simp add: bt_values_def)
  ultimately show ?case
    unfolding validate_reorder_buffer_Ok Cons.IH by (auto simp: scan_ok_append simp del: split_paired_Ex)
qed

lemma thread_inbox_Ok:
  "thread (validate_inbox_event enc st ws tasks) evs scan = Inr scan' \<longleftrightarrow>
     scan_ok enc st ws tasks evs scan scan'"
  unfolding scan_ok_def by (rule thread_Ok_iff) (rule validate_inbox_event_Ok)

lemma validate_events_Ok:
  "validate_events enc st ws tasks = Inr n \<longleftrightarrow>
     events_ok enc st ws tasks \<and> n = sat_sum (map (\<lambda>ev. the (enc ev)) (queued_events st))"
proof -
  have "validate_events enc st ws tasks = Inr n \<longleftrightarrow>
      (\<exists>scan scan'. thread (validate_inbox_event enc st ws tasks) (cs_inbox st) ([], 0) = Inr scan \<and>
        thread (validate_reorder_buffer enc st ws tasks) (cs_out_of_order st) scan = Inr scan' \<and> n = snd scan')"
    by (auto simp: validate_events_def split: sum.splits)
  also have "\<dots> \<longleftrightarrow> (\<forall>buf \<in> set (cs_out_of_order st). buffer_ok st (fst buf) (snd buf)) \<and>
      (\<exists>scan'. scan_ok enc st ws tasks (queued_events st) ([], 0) scan' \<and> n = snd scan')"
    unfolding thread_inbox_Ok thread_buffers_Ok queued_events_def pending_events_def scan_ok_append by blast
  also have "\<dots> \<longleftrightarrow> events_ok enc st ws tasks \<and> n = fold (event_bytes enc) (queued_events st) 0"
    by (auto simp: events_ok_def scan_ok_def)
  also have "fold (event_bytes enc) (queued_events st) 0 = sat_sum (map (\<lambda>ev. the (enc ev)) (queued_events st))"
    by (simp add: sat_sum_def fold_map comp_def event_bytes_def [abs_def])
  finally show ?thesis .
qed

section \<open>Resolved bindings\<close>

definition resolved_bindings :: "coordination_state \<Rightarrow> task_execution_binding list" where
  "resolved_bindings st = filter (\<lambda>b. tb_status b = Resolved) (all_bindings st)"

definition bound_child :: "task_execution_binding \<Rightarrow> string" where
  "bound_child b = the (tb_child_session_id b)"

definition bound_attempt :: "task_execution_binding \<Rightarrow> task_id \<times> nat" where
  "bound_attempt b = (the (tb_task_id b), the (tb_attempt b))"

definition identity_ok :: "task_table \<Rightarrow> task_execution_binding \<Rightarrow> bool" where
  "identity_ok tasks b \<longleftrightarrow>
     (\<exists>t root attempt child current. tb_task_id b = Some t \<and> tb_root_task_id b = Some root \<and>
        tb_attempt b = Some attempt \<and> tb_child_session_id b = Some child \<and>
        task_attempt tasks t = Some current \<and> attempt \<le> current \<and> task_is_descendant root t tasks)"

definition identities_ok :: "task_table \<Rightarrow> task_execution_binding list \<Rightarrow> bool" where
  "identities_ok tasks rs \<longleftrightarrow>
     (\<forall>b \<in> set rs. identity_ok tasks b) \<and> distinct (map bound_child rs) \<and> distinct (map bound_attempt rs)"

lemma validate_resolved_binding_Ok:
  "tb_status b = Resolved \<Longrightarrow>
   validate_resolved_binding tasks b seen = Inr seen' \<longleftrightarrow>
     identity_ok tasks b \<and> bound_child b \<notin> set (fst seen) \<and> bound_attempt b \<notin> set (snd seen) \<and>
     seen' = (bound_child b # fst seen, bound_attempt b # snd seen)"
  by (cases "tb_task_id b"; cases "tb_root_task_id b"; cases "tb_attempt b"; cases "tb_child_session_id b";
      cases "task_attempt tasks (the (tb_task_id b))")
    (auto simp: validate_resolved_binding_def identity_ok_def bound_child_def bound_attempt_def)

lemma thread_resolved_Ok:
  "(\<exists>seen'. thread (validate_resolved_binding tasks) bs seen = Inr seen') \<longleftrightarrow>
     (let rs = filter (\<lambda>b. tb_status b = Resolved) bs in
      identities_ok tasks rs \<and> bound_child ` set rs \<inter> set (fst seen) = {} \<and>
      bound_attempt ` set rs \<inter> set (snd seen) = {})"
proof (induction bs arbitrary: seen)
  case Nil
  then show ?case by (simp add: identities_ok_def)
next
  case (Cons b bs)
  show ?case
  proof (cases "tb_status b = Resolved")
    case True
    let ?rs = "filter (\<lambda>b. tb_status b = Resolved) bs"
    have "(\<exists>seen'. thread (validate_resolved_binding tasks) (b # bs) seen = Inr seen') \<longleftrightarrow>
        identity_ok tasks b \<and> bound_child b \<notin> set (fst seen) \<and> bound_attempt b \<notin> set (snd seen) \<and>
        (\<exists>seen'. thread (validate_resolved_binding tasks) bs
            (bound_child b # fst seen, bound_attempt b # snd seen) = Inr seen')"
    proof -
      have "(\<exists>seen'. thread (validate_resolved_binding tasks) (b # bs) seen = Inr seen') \<longleftrightarrow>
          (\<exists>s1. validate_resolved_binding tasks b seen = Inr s1 \<and>
            (\<exists>seen'. thread (validate_resolved_binding tasks) bs s1 = Inr seen'))"
        by (simp split: sum.splits)
      then show ?thesis
        unfolding validate_resolved_binding_Ok [OF True, of tasks seen] by blast
    qed
    also have "\<dots> \<longleftrightarrow> identity_ok tasks b \<and> bound_child b \<notin> set (fst seen) \<and> bound_attempt b \<notin> set (snd seen) \<and>
        identities_ok tasks ?rs \<and> bound_child ` set ?rs \<inter> insert (bound_child b) (set (fst seen)) = {} \<and>
        bound_attempt ` set ?rs \<inter> insert (bound_attempt b) (set (snd seen)) = {}"
      unfolding Cons.IH Let_def by simp
    finally show ?thesis
      using True by (auto simp: identities_ok_def Let_def)
  next
    case False
    then have "thread (validate_resolved_binding tasks) (b # bs) seen = thread (validate_resolved_binding tasks) bs seen"
      by (simp add: validate_resolved_binding_def)
    with False Cons.IH show ?thesis by simp
  qed
qed

section \<open>Valid states\<close>

definition bounds_ok :: "coordination_state \<Rightarrow> bool" where
  "bounds_ok st \<longleftrightarrow>
     cs_format_version st = COORDINATION_VERSION \<and> length (cs_bindings st) \<le> MAX_BINDINGS \<and>
     length (cs_historical_bindings st) \<le> MAX_HISTORICAL_BINDINGS \<and>
     length (cs_stream_cursors st) \<le> MAX_EVENT_STREAMS \<and> length (cs_wake_policies st) \<le> MAX_TASKS \<and>
     length (cs_wake_leases st) \<le> MAX_TASKS \<and> length (cs_counters st) \<le> MAX_TASKS"

definition cursor_ok :: "task_table \<Rightarrow> task_event_stream_id \<Rightarrow> task_stream_cursor \<Rightarrow> bool" where
  "cursor_ok tasks stream cu \<longleftrightarrow>
     validate_stream_id stream = Ok () \<and> cu_next_sequence cu \<noteq> 0 \<and> bt_contains tasks (st_root_task_id stream) \<and>
     (\<exists>a. task_attempt tasks (st_task_id stream) = Some a \<and> st_attempt stream \<le> a)"

definition binding_ok :: "string \<Rightarrow> task_table \<Rightarrow> string \<Rightarrow> task_execution_binding \<Rightarrow> bool" where
  "binding_ok ws tasks intent_id b \<longleftrightarrow>
     validate_binding (tb_intent b) ws = Ok () \<and> tb_version b = 1 \<and> intent_id = bi_intent_id (tb_intent b) \<and>
     known_task tasks (tb_task_id b) \<and> known_task tasks (tb_root_task_id b) \<and>
     (tb_status b = Resolved \<longrightarrow> binding_complete b)"

definition historical_ok :: "string \<Rightarrow> task_table \<Rightarrow> task_execution_binding \<Rightarrow> bool" where
  "historical_ok ws tasks b \<longleftrightarrow>
     validate_binding (tb_intent b) ws = Ok () \<and> tb_version b = 1 \<and> tb_status b = Resolved \<and>
     binding_complete b \<and> known_task tasks (tb_task_id b) \<and> known_task tasks (tb_root_task_id b)"

definition policy_ok :: "coordination_state \<Rightarrow> task_table \<Rightarrow> task_id \<Rightarrow> root_wake_policy \<Rightarrow> bool" where
  "policy_ok st tasks root p \<longleftrightarrow>
     validate_wake_policy p tasks = Ok () \<and> root = wp_root_task_id p \<and>
     (\<forall>b \<in> set (all_bindings st). \<not> owner_mismatch root p b) \<and> lease_count st root = wp_reserved_wakes p \<and>
     (wp_reserved_wakes p > 0 \<longrightarrow>
       (\<exists>c. bt_get (cs_counters st) root = Some c \<and> co_wake_reservations c = wp_reserved_wakes p))"

definition lease_ok :: "coordination_state \<Rightarrow> task_table \<Rightarrow> string \<Rightarrow> owner_wake_lease \<Rightarrow> bool" where
  "lease_ok st tasks lease_id l \<longleftrightarrow>
     validate_wake_lease l = Ok () \<and> lease_id = wl_lease_id l \<and> bt_contains tasks (wl_root_task_id l) \<and>
     (\<exists>p. bt_get (cs_wake_policies st) (wl_root_task_id l) = Some p \<and>
        wl_owner_session_id l = wp_owner_session_id p \<and> wl_owner_turn_id l = wp_owner_turn_id p \<and>
        (\<not> lease_terminal (wl_state l) \<longrightarrow>
           length (wl_event_ids l) = length (wp_required_task_ids p) \<and>
           (\<forall>t \<in> set (wp_required_task_ids p). \<not> receipt_missing st tasks l t)))"

definition counters_ok :: "coordination_state \<Rightarrow> task_table \<Rightarrow> task_id \<Rightarrow> task_coordination_counters \<Rightarrow> bool" where
  "counters_ok st tasks root c \<longleftrightarrow>
     bt_contains tasks root \<and>
     (\<forall>reason. co_stop_reason c = Some reason \<longrightarrow> length reason \<le> MAX_COORDINATION_TEXT_BYTES) \<and>
     (\<exists>p. bt_get (cs_wake_policies st) root = Some p \<and> co_accepted_events c \<le> wp_max_events p \<and>
        co_accepted_event_bytes c \<le> wp_max_event_bytes p \<and> co_wake_reservations c = wp_reserved_wakes p \<and>
        co_wake_dispatches c \<le> co_wake_reservations c \<and>
        co_unknown_wake_outcomes c \<le> co_wake_reservations c)"

definition receipt_ok ::
  "event_encoder \<Rightarrow> coordination_state \<Rightarrow> string \<Rightarrow> task_table \<Rightarrow> task_id \<Rightarrow> task_inbox_event \<Rightarrow> bool" where
  "receipt_ok enc st ws tasks t ev \<longleftrightarrow>
     stored_ok enc st ws tasks ev \<and> ie_kind ev = VerifiedCompletion \<and> ie_task_id ev = t"

definition coord_valid :: "event_encoder \<Rightarrow> coordination_state \<Rightarrow> string \<Rightarrow> task_table \<Rightarrow> bool" where
  "coord_valid enc st ws tasks \<longleftrightarrow>
     bounds_ok st \<and> events_ok enc st ws tasks \<and>
     (\<forall>kv \<in> set (cs_stream_cursors st). cursor_ok tasks (fst kv) (snd kv)) \<and>
     totals_ok enc st \<and>
     (\<forall>kv \<in> set (cs_bindings st). binding_ok ws tasks (fst kv) (snd kv)) \<and>
     (\<forall>b \<in> set (cs_historical_bindings st). historical_ok ws tasks b) \<and>
     identities_ok tasks (resolved_bindings st) \<and>
     (\<forall>kv \<in> set (cs_wake_policies st). policy_ok st tasks (fst kv) (snd kv)) \<and>
     (\<forall>kv \<in> set (cs_wake_leases st). lease_ok st tasks (fst kv) (snd kv)) \<and>
     (\<forall>kv \<in> set (cs_counters st). counters_ok st tasks (fst kv) (snd kv)) \<and>
     (\<forall>kv \<in> set (cs_completion_receipts st). receipt_ok enc st ws tasks (fst kv) (snd kv))"

lemma validate_cursor_Ok: "validate_cursor tasks kv = Inr u \<longleftrightarrow> cursor_ok tasks (fst kv) (snd kv)"
  by (auto simp: validate_cursor_def cursor_ok_def not_less split: option.splits)

lemma validate_current_binding_Ok:
  "validate_current_binding ws tasks kv = Inr u \<longleftrightarrow> binding_ok ws tasks (fst kv) (snd kv)"
  by (auto simp: validate_current_binding_def binding_ok_def Let_def)

lemma validate_historical_binding_Ok:
  "validate_historical_binding ws tasks b = Inr u \<longleftrightarrow> historical_ok ws tasks b"
  by (auto simp: validate_historical_binding_def historical_ok_def)

lemma validate_policy_entry_Ok:
  "validate_policy_entry st tasks kv = Inr u \<longleftrightarrow> policy_ok st tasks (fst kv) (snd kv)"
  by (auto simp: validate_policy_entry_def policy_ok_def Let_def list_ex_iff split: option.splits)

lemma validate_lease_entry_Ok:
  "validate_lease_entry st tasks kv = Inr u \<longleftrightarrow> lease_ok st tasks (fst kv) (snd kv)"
  by (auto simp: validate_lease_entry_def lease_ok_def Let_def list_ex_iff split: option.splits)

lemma validate_counters_entry_Ok:
  "validate_counters_entry st tasks kv = Inr u \<longleftrightarrow> counters_ok st tasks (fst kv) (snd kv)"
  by (auto simp: validate_counters_entry_def counters_ok_def Let_def bt_contains_iff not_less split: option.splits)

lemma validate_receipt_entry_Ok:
  "validate_receipt_entry enc st ws tasks kv = Inr u \<longleftrightarrow> receipt_ok enc st ws tasks (fst kv) (snd kv)"
  by (auto simp: validate_receipt_entry_def receipt_ok_def validate_stored_event_Ok stored_ok_def
      event_task_ok_def bt_contains_iff)

text \<open>The checks of a checkpoint accept exactly the valid states.\<close>

lemma validate_Ok_iff:
  "validate enc st ws tasks = Ok () \<longleftrightarrow> coord_valid enc st ws tasks"
proof -
  have events: "res_bind (validate_events enc st ws tasks) f = Inr u \<longleftrightarrow>
      events_ok enc st ws tasks \<and> f (sat_sum (map (\<lambda>ev. the (enc ev)) (queued_events st))) = Inr u" for f u
    by (auto simp: res_bind_Inr_iff validate_events_Ok)
  have resolved: "res_bind (thread (validate_resolved_binding tasks) (all_bindings st) ([], [])) (\<lambda>_. r) = Inr u
      \<longleftrightarrow> identities_ok tasks (resolved_bindings st) \<and> r = Inr u" for r u
    using thread_resolved_Ok [of tasks "all_bindings st" "([], [])"]
    by (simp add: res_bind_Inr_iff resolved_bindings_def)
  have totals: "validate_totals st (sat_sum (map (\<lambda>ev. the (enc ev)) (queued_events st))) = Inr u
      \<longleftrightarrow> totals_ok enc st" for u
    using sat_sum_le_iff [of MAX_INBOX_BYTES]
    by (auto simp: validate_totals_def totals_ok_def length_queued not_less MAX_INBOX_BYTES_def u64_max_def)
  have bounds: "validate_bounds st = Inr u \<longleftrightarrow> bounds_ok st \<and> length (cs_inbox st) \<le> MAX_INBOX_EVENTS" for u
    by (auto simp: validate_bounds_def bounds_ok_def)
  have unit: "res_bind (r :: (development_error, unit) result) f = Inr u \<longleftrightarrow> r = Inr () \<and> f () = Inr u"
    for r and f :: "unit \<Rightarrow> (development_error, unit) result" and u
    by (cases r) auto
  have "totals_ok enc st \<Longrightarrow> length (cs_inbox st) \<le> MAX_INBOX_EVENTS"
    by (simp add: totals_ok_def queued_events_def)
  then show ?thesis
    unfolding validate_def
    by (auto simp: events resolved totals bounds unit coord_valid_def validate_cursor_Ok
        validate_current_binding_Ok validate_historical_binding_Ok validate_policy_entry_Ok
        validate_lease_entry_Ok validate_counters_entry_Ok validate_receipt_entry_Ok)
qed

end
