(* ===== verification/Coord_Inv.thy ===== *)
theory Coord_Inv
  imports Coord_Valid
begin

text \<open>
  The invariant of the coordination state: it passes the checks of a checkpoint, its maps are
  sorted, and a few facts the checks do not look at hold as well. Each effect of an operation is
  shown to keep it; \<open>Coord_Reload\<close> puts the effects together per operation.
\<close>

section \<open>Events as a multiset\<close>

lemma mset_bt_insert:
  "bt_wf m \<Longrightarrow> mset (bt_insert k v m) = add_mset (k, v) (mset (bt_remove k m))"
proof (induction m)
  case Nil
  then show ?case by (simp add: bt_remove_def)
next
  case (Cons kv m)
  obtain k' v' where kv: "kv = (k', v')" by fastforce
  have gt: "\<forall>x \<in> set m. k' < fst x" and wf: "bt_wf m" using Cons.prems by (auto simp: kv bt_wf_def)
  have later: "k \<le> k' \<Longrightarrow> filter_mset (\<lambda>kv. fst kv \<noteq> k) (mset m) = mset m"
    using gt by (auto simp: filter_mset_eq_conv)
  show ?case
    using Cons.IH [OF wf] later by (auto simp: kv bt_remove_def)
qed

lemma mset_bt_split:
  assumes "bt_wf m" "bt_get m k = Some v"
  shows "mset m = add_mset (k, v) (mset (bt_remove k m))"
proof -
  have "bt_insert k v m = m"
    using assms
  proof (induction m)
    case Nil
    then show ?case by simp
  next
    case (Cons kv m)
    obtain k' v' where kv: "kv = (k', v')" by fastforce
    have gt: "\<forall>x \<in> set m. k' < fst x" and wf: "bt_wf m" using Cons.prems by (auto simp: kv bt_wf_def)
    have "\<not> k < k'" using Cons.prems(2) gt by (auto simp: kv bt_get_def split: if_splits dest!: map_of_SomeD)
    then show ?case using Cons.IH [OF wf] Cons.prems(2) by (auto simp: kv bt_get_def)
  qed
  then show ?thesis using mset_bt_insert [OF assms(1), of k v] by simp
qed

lemma bt_remove_absent: "bt_get m k = None \<Longrightarrow> bt_remove k m = m"
  by (auto simp: bt_remove_def bt_get_def map_of_eq_None_iff intro!: filter_True)

definition values_mset :: "('k, ('j, 'v) btree) btree \<Rightarrow> 'v multiset" where
  "values_mset m = mset (concat (map bt_values (bt_values m)))"

lemma values_mset_sum: "values_mset m = (\<Sum>kv \<in># mset m. mset (bt_values (snd kv)))"
  by (simp add: values_mset_def bt_values_def mset_concat comp_def sum_mset_sum_list [symmetric])

lemma values_mset_insert_fresh:
  "bt_wf m \<Longrightarrow> bt_get m k = None \<Longrightarrow> values_mset (bt_insert k v m) = mset (bt_values v) + values_mset m"
  by (simp add: values_mset_sum mset_bt_insert bt_remove_absent)

lemma values_mset_replace:
  "bt_wf m \<Longrightarrow> bt_get m k = Some w \<Longrightarrow>
   values_mset (bt_insert k v m) + mset (bt_values w) = mset (bt_values v) + values_mset m"
  using mset_bt_split [of m k w] by (simp add: values_mset_sum mset_bt_insert ac_simps)

lemma mset_values_insert_fresh:
  "bt_wf m \<Longrightarrow> bt_get m k = None \<Longrightarrow> mset (bt_values (bt_insert k v m)) = add_mset v (mset (bt_values m))"
  by (simp add: bt_values_def mset_bt_insert bt_remove_absent)

lemma mset_values_remove:
  "bt_wf m \<Longrightarrow> bt_get m k = Some v \<Longrightarrow> add_mset v (mset (bt_values (bt_remove k m))) = mset (bt_values m)"
  using mset_bt_split [of m k v] by (simp add: bt_values_def)

lemma values_mset_entry_insert:
  assumes "bt_wf m" "\<And>p. bt_get m k = Some p \<Longrightarrow> bt_wf p" "bt_get (bt_get_or [] m k) j = None"
  shows "values_mset (bt_entry k [] (bt_insert j v) m) = add_mset v (values_mset m)"
proof (cases "bt_get m k")
  case None
  then show ?thesis
    using assms by (simp add: bt_entry_def bt_get_or_def values_mset_insert_fresh bt_values_def)
next
  case (Some p)
  then have "values_mset (bt_insert k (bt_insert j v p) m) + mset (bt_values p) =
      add_mset v (mset (bt_values p)) + values_mset m"
    using values_mset_replace [OF assms(1) Some] mset_values_insert_fresh [of p j v] assms(2,3)
    by (simp add: bt_get_or_def)
  then show ?thesis using Some by (simp add: bt_entry_def bt_get_or_def)
qed

lemma values_mset_adjust_remove:
  assumes "bt_wf m" "bt_get m k = Some p" "bt_wf p" "bt_get p j = Some v"
  shows "add_mset v (values_mset (bt_adjust k (bt_remove j) m)) = values_mset m"
  using values_mset_replace [OF assms(1,2), of "bt_remove j p"] mset_values_remove [OF assms(3,4)] assms(2)
  by (auto simp: bt_adjust_def) (metis add_right_cancel union_commute union_mset_add_mset_left)

lemma values_mset_remove_empty:
  "bt_wf m \<Longrightarrow> bt_get m k = Some [] \<Longrightarrow> values_mset (bt_remove k m) = values_mset m"
  using mset_bt_split [of m k "[]"] by (simp add: values_mset_sum bt_values_def)

lemma values_mset_retain: "values_mset (bt_retain P m) \<subseteq># values_mset m"
proof (induction m)
  case Nil
  then show ?case by (simp add: bt_retain_def)
next
  case (Cons kv m)
  then show ?case
    by (auto simp: values_mset_sum bt_retain_def intro: subset_mset.add_increasing)
qed

definition queued_mset :: "coordination_state \<Rightarrow> task_inbox_event multiset" where
  "queued_mset st = mset (cs_inbox st) + values_mset (cs_out_of_order st)"

lemma queued_mset_eq: "mset (queued_events st) = queued_mset st"
  by (simp add: queued_mset_def queued_events_def pending_events_def values_mset_def)

lemma distinct_map_mset_mono: "mset xs \<subseteq># mset ys \<Longrightarrow> distinct (map f ys) \<Longrightarrow> distinct (map f xs)"
proof -
  assume sub: "mset xs \<subseteq># mset ys" and d: "distinct (map f ys)"
  obtain zs where "mset ys = mset (xs @ zs)"
    using sub by (metis ex_mset mset_append mset_subset_eq_exists_conv)
  then have "mset (map f ys) = mset (map f (xs @ zs))" by (simp add: image_mset_union)
  then have "distinct (map f (xs @ zs))" using d mset_eq_imp_distinct_iff by blast
  then show ?thesis by simp
qed

lemma sum_list_mset_mono: "mset xs \<subseteq># mset ys \<Longrightarrow> sum_list (map f xs) \<le> (sum_list (map f ys) :: nat)"
proof -
  assume "mset xs \<subseteq># mset ys"
  then obtain zs where "mset ys = mset (xs @ zs)"
    by (metis ex_mset mset_append mset_subset_eq_exists_conv)
  then have "mset (map f ys) = mset (map f (xs @ zs))" by (simp add: image_mset_union)
  then have "sum_list (map f ys) = sum_list (map f (xs @ zs))" by (metis sum_mset_sum_list)
  then show ?thesis by simp
qed

section \<open>The invariant\<close>

text \<open>
  Beyond the checks: a binding that is not resolved has no attempt; completions are filed under
  one id once, and never buffered and filed for the same attempt; a cursor stays in the range
  of its type; a reserved lease has not been dispatched and a lease whose outcome is open has
  not been counted as unknown.
\<close>

definition receipts_extra ::
  "(task_id, task_inbox_event) btree \<Rightarrow> task_inbox_event multiset \<Rightarrow> bool" where
  "receipts_extra receipts pending \<longleftrightarrow>
     (\<forall>t r t' r'. bt_get receipts t = Some r \<longrightarrow> bt_get receipts t' = Some r' \<longrightarrow>
        ie_event_id r = ie_event_id r' \<longrightarrow> t = t') \<and>
     (\<forall>t r ev. bt_get receipts t = Some r \<longrightarrow> ev \<in># pending \<longrightarrow> ie_event_id r \<noteq> ie_event_id ev) \<and>
     (\<forall>ev r. ev \<in># pending \<longrightarrow> ie_kind ev = VerifiedCompletion \<longrightarrow>
        bt_get receipts (ie_task_id ev) = Some r \<longrightarrow> ie_attempt r \<noteq> ie_attempt ev) \<and>
     (\<forall>ev ev'. ev \<in># pending \<longrightarrow> ev' \<in># pending \<longrightarrow> ie_kind ev = VerifiedCompletion \<longrightarrow>
        ie_kind ev' = VerifiedCompletion \<longrightarrow> ie_task_id ev = ie_task_id ev' \<longrightarrow>
        ie_attempt ev = ie_attempt ev' \<longrightarrow> ev = ev')"

definition lease_extra :: "owner_wake_lease \<Rightarrow> task_coordination_counters \<Rightarrow> bool" where
  "lease_extra l c \<longleftrightarrow>
     (wl_state l = Reserved \<longrightarrow> co_wake_dispatches c = 0) \<and>
     (wl_state l \<in> {Reserved, Dispatching} \<longrightarrow> co_unknown_wake_outcomes c = 0)"

definition coord_extra :: "coordination_state \<Rightarrow> bool" where
  "coord_extra st \<longleftrightarrow>
     (\<forall>i b. bt_get (cs_bindings st) i = Some b \<longrightarrow> tb_status b \<noteq> Resolved \<longrightarrow> tb_attempt b = None) \<and>
     receipts_extra (cs_completion_receipts st) (values_mset (cs_out_of_order st)) \<and>
     (\<forall>k cu. bt_get (cs_stream_cursors st) k = Some cu \<longrightarrow> cu_next_sequence cu \<le> u64_max) \<and>
     (\<forall>i l. bt_get (cs_wake_leases st) i = Some l \<longrightarrow>
        lease_extra l (bt_get_or default_counters (cs_counters st) (wl_root_task_id l)))"

definition table_ok :: "task_table \<Rightarrow> bool" where
  "table_ok tasks \<longleftrightarrow> bt_wf tasks \<and> length tasks \<le> MAX_TASKS"

text \<open>
  While a run of buffered events is being promoted, the buffer of its stream may hold the very
  event the cursor points at; the invariant is stated with the set of streams allowed this slack.
\<close>

definition buffer_slack ::
  "task_event_stream_id set \<Rightarrow> coordination_state \<Rightarrow> task_event_stream_id \<Rightarrow> (nat, task_inbox_event) btree \<Rightarrow> bool" where
  "buffer_slack W st stream pending \<longleftrightarrow>
     validate_stream_id stream = Ok () \<and> length pending \<le> MAX_REORDERED_EVENTS_PER_STREAM \<and>
     (\<exists>cu. bt_get (cs_stream_cursors st) stream = Some cu \<and>
        (\<forall>kv \<in> set pending. ie_sequence (snd kv) = fst kv \<and>
           (cu_next_sequence cu < fst kv \<or> stream \<in> W \<and> cu_next_sequence cu = fst kv) \<and>
           fst kv - cu_next_sequence cu \<le> MAX_REORDER_DISTANCE \<and> event_stream_id (snd kv) = stream))"

definition events_slack ::
  "task_event_stream_id set \<Rightarrow> event_encoder \<Rightarrow> coordination_state \<Rightarrow> string \<Rightarrow> task_table \<Rightarrow> bool" where
  "events_slack W enc st ws tasks \<longleftrightarrow>
     (\<forall>ev \<in> set (queued_events st). stored_ok enc st ws tasks ev) \<and>
     distinct (map ie_event_id (queued_events st)) \<and>
     (\<forall>kv \<in> set (cs_out_of_order st). buffer_slack W st (fst kv) (snd kv))"

lemma events_slack_empty: "events_slack {} enc st ws tasks \<longleftrightarrow> events_ok enc st ws tasks"
  by (simp add: events_slack_def events_ok_def buffer_slack_def buffer_ok_def)

definition coord_ok ::
  "task_event_stream_id set \<Rightarrow> event_encoder \<Rightarrow> string \<Rightarrow> task_table \<Rightarrow> coordination_state \<Rightarrow> bool" where
  "coord_ok W enc ws tasks st \<longleftrightarrow>
     table_ok tasks \<and> coord_wf st \<and> coord_extra st \<and> bounds_ok st \<and> events_slack W enc st ws tasks \<and>
     (\<forall>kv \<in> set (cs_stream_cursors st). cursor_ok tasks (fst kv) (snd kv)) \<and>
     totals_ok enc st \<and>
     (\<forall>kv \<in> set (cs_bindings st). binding_ok ws tasks (fst kv) (snd kv)) \<and>
     (\<forall>b \<in> set (cs_historical_bindings st). historical_ok ws tasks b) \<and>
     identities_ok tasks (resolved_bindings st) \<and>
     (\<forall>kv \<in> set (cs_wake_policies st). policy_ok st tasks (fst kv) (snd kv)) \<and>
     (\<forall>kv \<in> set (cs_wake_leases st). lease_ok st tasks (fst kv) (snd kv)) \<and>
     (\<forall>kv \<in> set (cs_counters st). counters_ok st tasks (fst kv) (snd kv)) \<and>
     (\<forall>kv \<in> set (cs_completion_receipts st). receipt_ok enc st ws tasks (fst kv) (snd kv))"

lemma coord_ok_valid:
  "coord_ok {} enc ws tasks st \<longleftrightarrow> table_ok tasks \<and> coord_wf st \<and> coord_extra st \<and> coord_valid enc st ws tasks"
  by (auto simp: coord_ok_def coord_valid_def events_slack_empty)

lemma coord_ok_facts:
  assumes "coord_ok W enc ws tasks st"
  shows coord_okT: "table_ok tasks"
    and coord_okW: "coord_wf st"
    and coord_okX: "coord_extra st"
    and coord_ok_bounds: "bounds_ok st"
    and coord_ok_events: "events_slack W enc st ws tasks"
    and coord_ok_totals: "totals_ok enc st"
    and coord_ok_cursors: "bt_get (cs_stream_cursors st) k = Some cu \<Longrightarrow> cursor_ok tasks k cu"
    and coord_ok_bindings: "bt_get (cs_bindings st) i = Some b \<Longrightarrow> binding_ok ws tasks i b"
    and coord_ok_historical: "h \<in> set (cs_historical_bindings st) \<Longrightarrow> historical_ok ws tasks h"
    and coord_ok_identities: "identities_ok tasks (resolved_bindings st)"
    and coord_ok_policies: "bt_get (cs_wake_policies st) r = Some p \<Longrightarrow> policy_ok st tasks r p"
    and coord_ok_leases: "bt_get (cs_wake_leases st) j = Some l \<Longrightarrow> lease_ok st tasks j l"
    and coord_ok_counters: "bt_get (cs_counters st) r = Some c \<Longrightarrow> counters_ok st tasks r c"
    and coord_ok_receipts: "bt_get (cs_completion_receipts st) t = Some ev \<Longrightarrow> receipt_ok enc st ws tasks t ev"
  using assms by (auto simp: coord_ok_def dest!: bt_get_mem)

lemma coord_okI:
  assumes "table_ok tasks" "coord_wf st" "coord_extra st" "bounds_ok st" "events_slack W enc st ws tasks"
    "totals_ok enc st"
    "\<And>k cu. bt_get (cs_stream_cursors st) k = Some cu \<Longrightarrow> cursor_ok tasks k cu"
    "\<And>i b. bt_get (cs_bindings st) i = Some b \<Longrightarrow> binding_ok ws tasks i b"
    "\<And>h. h \<in> set (cs_historical_bindings st) \<Longrightarrow> historical_ok ws tasks h"
    "identities_ok tasks (resolved_bindings st)"
    "\<And>r p. bt_get (cs_wake_policies st) r = Some p \<Longrightarrow> policy_ok st tasks r p"
    "\<And>j l. bt_get (cs_wake_leases st) j = Some l \<Longrightarrow> lease_ok st tasks j l"
    "\<And>r c. bt_get (cs_counters st) r = Some c \<Longrightarrow> counters_ok st tasks r c"
    "\<And>t ev. bt_get (cs_completion_receipts st) t = Some ev \<Longrightarrow> receipt_ok enc st ws tasks t ev"
  shows "coord_ok W enc ws tasks st"
proof -
  show ?thesis
    using assms unfolding coord_ok_def coord_wf_def
    by (intro conjI) (auto simp: bt_get_iff_mem)
qed

section \<open>Policies\<close>

lemma validate_wake_policy_facts:
  assumes "validate_wake_policy p tasks = Ok ()"
  shows "bt_contains tasks (wp_root_task_id p)" "wp_max_owner_wakes p = 1"
    "wp_reserved_wakes p \<le> 1" "wp_required_task_ids p \<noteq> []"
    "length (wp_required_task_ids p) \<le> MAX_REQUIRED_TASKS" "distinct (wp_required_task_ids p)"
    "\<And>t. t \<in> set (wp_required_task_ids p) \<Longrightarrow> bt_contains tasks t"
    "text_ok 256 (wp_owner_session_id p)" "text_ok 256 (wp_owner_turn_id p)"
proof -
  let ?P = "\<lambda>t. \<exists>r. bt_get tasks t = Some r \<and>
      verification_has_evidence_requirement (sn_verification (tr_snapshot r)) \<and>
      t \<noteq> wp_root_task_id p \<and> task_is_descendant (wp_root_task_id p) t tasks"
  have step: "required_task_step tasks (wp_root_task_id p) x s = Inr s' \<longleftrightarrow> ?P x \<and> id x \<notin> set (fst s) \<and>
      s' = (id x # fst s, nat_saturating_add u64_max (snd s)
             (max_events (sn_budget (tr_snapshot (the (bt_get tasks x))))))" for x s s'
    by (cases "bt_get tasks x") (auto simp: required_task_step_def)
  obtain seen where "thread (required_task_step tasks (wp_root_task_id p)) (wp_required_task_ids p) ([], 0) = Inr seen"
    using assms unfolding validate_wake_policy_def validate_required_tasks_def by (auto split: sum.splits)
  then have "(\<forall>x \<in> set (wp_required_task_ids p). ?P x) \<and> distinct (map id (wp_required_task_ids p))"
    by (subst (asm) thread_Ok_iff [where key = id and P = ?P, OF step]) blast
  then show "distinct (wp_required_task_ids p)"
    "\<And>t. t \<in> set (wp_required_task_ids p) \<Longrightarrow> bt_contains tasks t"
    by (auto simp: bt_contains_iff)
qed (use assms in \<open>auto simp: validate_wake_policy_def\<close>)

lemma validate_wake_policy_reserved:
  assumes "validate_wake_policy p tasks = Ok ()" "n \<le> 1"
  shows "validate_wake_policy (p\<lparr>wp_reserved_wakes := n\<rparr>) tasks = Ok ()"
  using assms by (simp add: validate_wake_policy_def)

section \<open>Counters\<close>

lemma counters_or_ok:
  assumes ok: "coord_ok W enc ws tasks st" and pol: "bt_get (cs_wake_policies st) root = Some p"
  shows "counters_ok st tasks root (bt_get_or default_counters (cs_counters st) root)"
proof (cases "bt_get (cs_counters st) root")
  case (Some c)
  then show ?thesis using coord_ok_counters [OF ok Some] by (simp add: bt_get_or_def)
next
  case None
  have "policy_ok st tasks root p" using coord_ok_policies [OF ok pol] .
  then have "wp_reserved_wakes p = 0" "bt_contains tasks root"
    using None validate_wake_policy_facts(1) [of p tasks] by (auto simp: policy_ok_def)
  then show ?thesis
    using None pol by (simp add: counters_ok_def default_counters_def bt_get_or_def)
qed

lemma counters_length:
  assumes "table_ok tasks" "bt_wf m" "\<And>r c. bt_get m r = Some c \<Longrightarrow> bt_contains tasks r"
  shows "length m \<le> MAX_TASKS"
  using bt_length_le [of m tasks] assms by (auto simp: table_ok_def bt_contains_iff)

lemma stored_ok_same:
  "cs_wake_policies st' = cs_wake_policies st \<Longrightarrow> cs_bindings st' = cs_bindings st \<Longrightarrow>
   cs_historical_bindings st' = cs_historical_bindings st \<Longrightarrow>
   stored_ok enc st' ws tasks = stored_ok enc st ws tasks"
  by (rule ext) (simp add: stored_ok_def event_policy_ok_def event_bound_def all_bindings_def)

definition same_wakes :: "task_coordination_counters \<Rightarrow> task_coordination_counters \<Rightarrow> bool" where
  "same_wakes c d \<longleftrightarrow>
     co_wake_reservations d = co_wake_reservations c \<and> co_wake_dispatches d = co_wake_dispatches c \<and>
     co_unknown_wake_outcomes d = co_unknown_wake_outcomes c"

text \<open>A change of counters that leaves the wake counts alone and keeps within the budget.\<close>

lemma coord_ok_new_counters:
  assumes ok: "coord_ok W enc ws tasks st" and wf: "bt_wf m"
    and dom: "\<And>r c. bt_get (cs_counters st) r = Some c \<Longrightarrow> \<exists>d. bt_get m r = Some d"
    and new: "\<And>r d. bt_get m r = Some d \<Longrightarrow>
       same_wakes (bt_get_or default_counters (cs_counters st) r) d \<and> counters_ok st tasks r d"
  shows "coord_ok W enc ws tasks (st\<lparr>cs_counters := m\<rparr>)" (is "coord_ok W enc ws tasks ?st")
proof -
  have stored: "stored_ok enc ?st ws tasks = stored_ok enc st ws tasks"
    by (rule stored_ok_same) simp_all
  have get_or: "same_wakes (bt_get_or default_counters (cs_counters st) r) (bt_get_or default_counters m r)" for r
    using new [of r] dom [of r]
    by (cases "bt_get m r"; cases "bt_get (cs_counters st) r") (auto simp: bt_get_or_def same_wakes_def)
  show ?thesis
  proof (rule coord_okI)
    have "lease_extra l (bt_get_or default_counters m (wl_root_task_id l))"
      if "bt_get (cs_wake_leases st) i = Some l" for i l
    proof -
      have "lease_extra l (bt_get_or default_counters (cs_counters st) (wl_root_task_id l))"
        using coord_okX [OF ok] that by (simp add: coord_extra_def)
      then show ?thesis using get_or [of "wl_root_task_id l"] by (auto simp: lease_extra_def same_wakes_def)
    qed
    then show "coord_extra ?st" using coord_okX [OF ok] by (auto simp: coord_extra_def)
    show "bounds_ok ?st"
      using coord_ok_bounds [OF ok] counters_length [OF coord_okT [OF ok], of m] new wf
      by (auto simp: bounds_ok_def counters_ok_def)
    show "policy_ok ?st tasks r q" if "bt_get (cs_wake_policies ?st) r = Some q" for r q
    proof -
      have "policy_ok st tasks r q" using coord_ok_policies [OF ok] that by simp
      moreover have "\<exists>d. bt_get m r = Some d \<and> co_wake_reservations d = n"
        if "bt_get (cs_counters st) r = Some c" "co_wake_reservations c = n" for c n
        using dom [OF that(1)] new [of r] that by (auto simp: bt_get_or_def same_wakes_def)
      ultimately show ?thesis
        by (auto simp: policy_ok_def all_bindings_def lease_count_def)
    qed
    show "lease_ok ?st tasks j l" if "bt_get (cs_wake_leases ?st) j = Some l" for j l
      using coord_ok_leases [OF ok, of j l] that
      by (simp add: lease_ok_def receipt_missing_def cong: option.case_cong)
    show "counters_ok ?st tasks r d" if "bt_get (cs_counters ?st) r = Some d" for r d
      using new [of r d] that by (simp add: counters_ok_def)
    show "events_slack W enc ?st ws tasks"
      using coord_ok_events [OF ok]
      by (simp add: events_slack_def stored queued_events_def pending_events_def buffer_slack_def)
    show "receipt_ok enc ?st ws tasks t ev" if "bt_get (cs_completion_receipts ?st) t = Some ev" for t ev
      using coord_ok_receipts [OF ok, of t ev] that by (simp add: receipt_ok_def stored)
    show "totals_ok enc ?st"
      using coord_ok_totals [OF ok] by (simp add: totals_ok_def queued_events_def pending_events_def)
    show "identities_ok tasks (resolved_bindings ?st)"
      using coord_ok_identities [OF ok] by (simp add: resolved_bindings_def all_bindings_def)
  qed (use wf coord_okT [OF ok] coord_okW [OF ok] coord_ok_cursors [OF ok] coord_ok_bindings [OF ok]
      coord_ok_historical [OF ok] in \<open>auto simp: coord_wf_def\<close>)
qed

lemma coord_ok_adjust_counters:
  assumes ok: "coord_ok W enc ws tasks st" and pol: "bt_get (cs_wake_policies st) root = Some p"
    and wake: "\<And>c. same_wakes c (f c)"
    and budget: "\<And>c. c = bt_get_or default_counters (cs_counters st) root \<Longrightarrow>
       co_accepted_events (f c) \<le> wp_max_events p \<and> co_accepted_event_bytes (f c) \<le> wp_max_event_bytes p"
    and reason: "\<And>c r. co_stop_reason (f c) = Some r \<Longrightarrow>
       co_stop_reason c = Some r \<or> length r \<le> MAX_COORDINATION_TEXT_BYTES"
  shows "coord_ok W enc ws tasks (adjust_counters root f st)"
proof -
  let ?c = "bt_get_or default_counters (cs_counters st) root"
  have "counters_ok st tasks root ?c" using counters_or_ok [OF ok pol] .
  then have "counters_ok st tasks root (f ?c)"
    using wake [of ?c] budget [OF refl] reason [of ?c] pol
    by (auto simp: counters_ok_def same_wakes_def)
  then show ?thesis
    unfolding adjust_counters_def
    using wake coord_okW [OF ok] coord_ok_counters [OF ok]
    by (intro coord_ok_new_counters [OF ok])
      (auto simp: coord_wf_def bt_get_or_def same_wakes_def split: if_splits)
qed

section \<open>Effects on the event queues\<close>

text \<open>What an effect on inbox, buffers, cursors and receipts has to show; all else is framed.\<close>

lemma coord_ok_queueI:
  assumes ok: "coord_ok W enc ws tasks st"
    and same: "cs_format_version st' = cs_format_version st" "cs_bindings st' = cs_bindings st"
      "cs_historical_bindings st' = cs_historical_bindings st" "cs_wake_policies st' = cs_wake_policies st"
      "cs_wake_leases st' = cs_wake_leases st" "cs_counters st' = cs_counters st"
    and wf: "coord_wf st'"
    and events: "events_slack W' enc st' ws tasks" "totals_ok enc st'"
    and cursors: "\<And>k cu. bt_get (cs_stream_cursors st') k = Some cu \<Longrightarrow> cursor_ok tasks k cu \<and> cu_next_sequence cu \<le> u64_max"
      "length (cs_stream_cursors st') \<le> MAX_EVENT_STREAMS"
    and receipts: "\<And>t r. bt_get (cs_completion_receipts st') t = Some r \<Longrightarrow> receipt_ok enc st ws tasks t r"
      "receipts_extra (cs_completion_receipts st') (values_mset (cs_out_of_order st'))"
      "\<And>t r. bt_get (cs_completion_receipts st) t = Some r \<Longrightarrow> task_attempt tasks t = Some (ie_attempt r) \<Longrightarrow>
         bt_get (cs_completion_receipts st') t = Some r"
  shows "coord_ok W' enc ws tasks st'"
proof -
  have stored: "stored_ok enc st' ws tasks = stored_ok enc st ws tasks"
    by (rule stored_ok_same) (simp_all add: same)
  show ?thesis
  proof (rule coord_okI)
    show "coord_extra st'"
      using coord_okX [OF ok] receipts(2) cursors(1) by (auto simp: coord_extra_def same)
    show "bounds_ok st'"
      using coord_ok_bounds [OF ok] cursors(2) by (simp add: bounds_ok_def same)
    show "policy_ok st' tasks r q" if "bt_get (cs_wake_policies st') r = Some q" for r q
      using coord_ok_policies [OF ok, of r q] that
      by (auto simp: policy_ok_def same all_bindings_def lease_count_def)
    show "lease_ok st' tasks j l" if "bt_get (cs_wake_leases st') j = Some l" for j l
    proof -
      have "lease_ok st tasks j l" using coord_ok_leases [OF ok] that by (simp add: same)
      moreover have "\<not> receipt_missing st tasks l t \<Longrightarrow> \<not> receipt_missing st' tasks l t" for t
        using receipts(3) by (auto simp: receipt_missing_def split: option.splits)
      ultimately show ?thesis by (auto simp: lease_ok_def same)
    qed
    show "counters_ok st' tasks r c" if "bt_get (cs_counters st') r = Some c" for r c
      using coord_ok_counters [OF ok, of r c] that by (simp add: counters_ok_def same)
    show "receipt_ok enc st' ws tasks t ev" if "bt_get (cs_completion_receipts st') t = Some ev" for t ev
      using receipts(1) [OF that] by (simp add: receipt_ok_def stored)
    show "identities_ok tasks (resolved_bindings st')"
      using coord_ok_identities [OF ok] by (simp add: resolved_bindings_def all_bindings_def same)
  qed (use coord_okT [OF ok] wf events cursors(1) coord_ok_bindings [OF ok] coord_ok_historical [OF ok]
      in \<open>auto simp: same\<close>)
qed

lemma totals_mono:
  assumes "totals_ok enc st" "queued_mset st' \<subseteq># queued_mset st"
  shows "totals_ok enc st'"
proof -
  have sub: "mset (queued_events st') \<subseteq># mset (queued_events st)"
    using assms(2) by (simp add: queued_mset_eq)
  then have "length (queued_events st') \<le> length (queued_events st)"
    using size_mset_mono [OF sub] by simp
  with assms(1) sum_list_mset_mono [OF sub] show ?thesis
    unfolding totals_ok_def using order_trans by blast
qed

lemma ids_mono:
  "distinct (map ie_event_id (queued_events st)) \<Longrightarrow> queued_mset st' \<subseteq># queued_mset st \<Longrightarrow>
   distinct (map ie_event_id (queued_events st'))"
  unfolding queued_mset_eq [symmetric] by (rule distinct_map_mset_mono)

lemma stored_mono:
  "\<forall>ev \<in> set (queued_events st). P ev \<Longrightarrow> queued_mset st' \<subseteq># queued_mset st \<Longrightarrow>
   \<forall>ev \<in> set (queued_events st'). P ev"
  unfolding queued_mset_eq [symmetric] by (metis mset_subset_eqD set_mset_mset)

lemma events_slack_sub:
  assumes "events_slack W enc st ws tasks" "queued_mset st' \<subseteq># queued_mset st"
    and "stored_ok enc st' ws tasks = stored_ok enc st ws tasks"
    and "\<forall>kv \<in> set (cs_out_of_order st'). buffer_slack W' st' (fst kv) (snd kv)"
  shows "events_slack W' enc st' ws tasks"
  using assms stored_mono [OF _ assms(2), of "stored_ok enc st ws tasks"] ids_mono [OF _ assms(2)]
  by (simp add: events_slack_def)

text \<open>Adding one new event: its id is new and it fits.\<close>

lemma queue_add:
  assumes q: "queued_mset st' = add_mset ev (queued_mset st)"
    and "\<forall>ev \<in> set (queued_events st). P ev" "P ev"
    and "distinct (map ie_event_id (queued_events st))" "\<forall>q \<in> set (queued_events st). ie_event_id q \<noteq> ie_event_id ev"
  shows "\<forall>ev \<in> set (queued_events st'). P ev" "distinct (map ie_event_id (queued_events st'))"
proof -
  have m: "mset (queued_events st') = mset (ev # queued_events st)"
    using q by (simp add: queued_mset_eq)
  then have "set (queued_events st') = insert ev (set (queued_events st))"
    by (metis list.simps(15) set_mset_mset)
  with assms show "\<forall>ev \<in> set (queued_events st'). P ev" by simp
  have "mset (map ie_event_id (queued_events st')) = mset (map ie_event_id (ev # queued_events st))"
    using m by (metis mset_map)
  moreover have "distinct (map ie_event_id (ev # queued_events st))" using assms by auto
  ultimately show "distinct (map ie_event_id (queued_events st'))"
    using mset_eq_imp_distinct_iff by blast
qed

lemma events_slack_add:
  assumes e: "events_slack W enc st ws tasks" and q: "queued_mset st' = add_mset ev (queued_mset st)"
    and stored: "stored_ok enc st' ws tasks = stored_ok enc st ws tasks" "stored_ok enc st ws tasks ev"
    and fresh: "\<forall>q \<in> set (queued_events st). ie_event_id q \<noteq> ie_event_id ev"
    and bufs: "\<forall>kv \<in> set (cs_out_of_order st'). buffer_slack W' st' (fst kv) (snd kv)"
  shows "events_slack W' enc st' ws tasks"
proof -
  have s: "\<forall>ev \<in> set (queued_events st). stored_ok enc st ws tasks ev"
    and d: "distinct (map ie_event_id (queued_events st))"
    using e unfolding events_slack_def by blast+
  show ?thesis
    unfolding events_slack_def stored(1)
    by (intro conjI bufs queue_add [OF q s stored(2) d fresh])
qed

lemma totals_add:
  assumes q: "queued_mset st' = add_mset ev (queued_mset st)"
    and fits: "length (queued_events st) < MAX_INBOX_EVENTS"
      "sum_list (map (\<lambda>ev. the (enc ev)) (queued_events st)) + the (enc ev) \<le> MAX_INBOX_BYTES"
  shows "totals_ok enc st'"
proof -
  have m: "mset (queued_events st') = mset (ev # queued_events st)"
    using q by (simp add: queued_mset_eq)
  then have "length (queued_events st') = Suc (length (queued_events st))"
    by (metis length_Cons mset_eq_length)
  moreover have "mset (map (\<lambda>ev. the (enc ev)) (queued_events st')) =
      mset (map (\<lambda>ev. the (enc ev)) (ev # queued_events st))"
    using m by (metis mset_map)
  then have "sum_list (map (\<lambda>ev. the (enc ev)) (queued_events st')) =
      sum_list (map (\<lambda>ev. the (enc ev)) (ev # queued_events st))"
    by (metis sum_mset_sum_list)
  ultimately show ?thesis using fits by (simp add: totals_ok_def)
qed

lemma set_bt_insert_subset: "set (bt_insert k v m) \<subseteq> insert (k, v) (set m)"
  by (induction m) (auto split: if_splits)

lemma buffers_get:
  assumes "coord_ok W enc ws tasks st" "bt_get (cs_out_of_order st) k = Some pending"
  shows "buffer_slack W st k pending" "bt_wf pending"
proof -
  show "buffer_slack W st k pending"
    using coord_ok_events [OF assms(1)] bt_get_mem [OF assms(2)] by (auto simp: events_slack_def)
  show "bt_wf pending"
    using coord_okW [OF assms(1)] assms(2) unfolding coord_wf_def by blast
qed

lemma cursor_range: "coord_ok W enc ws tasks st \<Longrightarrow> bt_get (cs_stream_cursors st) k = Some cu \<Longrightarrow>
    cu_next_sequence cu \<le> u64_max"
  using coord_okX [of W enc ws tasks st] unfolding coord_extra_def by blast

lemma receipts_extra_ok: "coord_ok W enc ws tasks st \<Longrightarrow>
    receipts_extra (cs_completion_receipts st) (values_mset (cs_out_of_order st))"
  using coord_okX [of W enc ws tasks st] by (simp add: coord_extra_def)

lemma receipts_extra_mono: "receipts_extra rs pending \<Longrightarrow> pending' \<subseteq># pending \<Longrightarrow> receipts_extra rs pending'"
  unfolding receipts_extra_def by (meson mset_subset_eqD)

lemma receipts_keep:
  assumes "coord_ok W enc ws tasks st"
  shows "\<And>t r. bt_get (cs_completion_receipts st) t = Some r \<Longrightarrow> receipt_ok enc st ws tasks t r"
  using coord_ok_receipts [OF assms] .

text \<open>Cursors may be added or have their gap mark changed.\<close>

lemma coord_ok_new_cursors:
  assumes ok: "coord_ok W enc ws tasks st" and wf: "bt_wf m" and len: "length m \<le> MAX_EVENT_STREAMS"
    and old: "\<And>k cu. bt_get (cs_stream_cursors st) k = Some cu \<Longrightarrow>
       \<exists>cu'. bt_get m k = Some cu' \<and> cu_next_sequence cu' = cu_next_sequence cu"
    and new: "\<And>k cu. bt_get m k = Some cu \<Longrightarrow> cursor_ok tasks k cu \<and> cu_next_sequence cu \<le> u64_max"
  shows "coord_ok W enc ws tasks (st\<lparr>cs_stream_cursors := m\<rparr>)" (is "coord_ok W enc ws tasks ?st")
proof (rule coord_ok_queueI [OF ok])
  have stored: "stored_ok enc ?st ws tasks = stored_ok enc st ws tasks"
    by (rule stored_ok_same) simp_all
  have "buffer_slack W ?st k pending" if b: "buffer_slack W st k pending" for k pending
  proof -
    obtain cu where cu: "bt_get (cs_stream_cursors st) k = Some cu"
      using b by (auto simp: buffer_slack_def)
    obtain cu' where "bt_get m k = Some cu'" "cu_next_sequence cu' = cu_next_sequence cu"
      using old [OF cu] by blast
    with b cu show ?thesis by (simp add: buffer_slack_def)
  qed
  then show "events_slack W enc ?st ws tasks"
    using coord_ok_events [OF ok]
    by (simp add: events_slack_def stored queued_events_def pending_events_def)
  show "totals_ok enc ?st"
    using coord_ok_totals [OF ok] by (simp add: totals_ok_def queued_events_def pending_events_def)
qed (use wf len new coord_okW [OF ok] receipts_extra_ok [OF ok] receipts_keep [OF ok]
    in \<open>auto simp: coord_wf_def\<close>)

lemma coord_ok_mark_gap:
  assumes ok: "coord_ok W enc ws tasks st" and cur: "cursor_ok tasks stream (fresh_cursor n)" "n \<le> u64_max"
    and room: "bt_contains (cs_stream_cursors st) stream \<or> length (cs_stream_cursors st) < MAX_EVENT_STREAMS"
  shows "coord_ok W enc ws tasks (mark_gap stream n obs st)"
proof -
  have b: "length (cs_stream_cursors st) \<le> MAX_EVENT_STREAMS" using coord_ok_bounds [OF ok] by (simp add: bounds_ok_def)
  show ?thesis
    unfolding mark_gap_def
    using coord_okW [OF ok] room b cur coord_ok_cursors [OF ok] cursor_range [OF ok]
    by (intro coord_ok_new_cursors [OF ok])
      (auto simp: coord_wf_def bt_entry_def bt_length_insert bt_contains_def cursor_ok_def fresh_cursor_def
        bt_get_or_def split: if_splits option.splits)
qed

lemma coord_ok_mark_remaining_gap:
  assumes ok: "coord_ok W enc ws tasks st"
  shows "coord_ok W enc ws tasks (mark_remaining_gap stream st)"
proof -
  have b: "length (cs_stream_cursors st) \<le> MAX_EVENT_STREAMS" using coord_ok_bounds [OF ok] by (simp add: bounds_ok_def)
  have "coord_ok W enc ws tasks
      (st\<lparr>cs_stream_cursors := bt_adjust stream (\<lambda>cu. cu\<lparr>cu_gap_detected_at_ms := g\<rparr>) (cs_stream_cursors st)\<rparr>)" for g
    using coord_okW [OF ok] b coord_ok_cursors [OF ok] cursor_range [OF ok]
    by (intro coord_ok_new_cursors [OF ok])
      (auto simp: coord_wf_def bt_adjust_def bt_length_insert cursor_ok_def split: if_splits option.splits)
  then show ?thesis
    by (auto simp: mark_remaining_gap_def ok split: option.splits list.splits)
qed

lemma coord_ok_drop_empty_buffer:
  assumes ok: "coord_ok W enc ws tasks st"
  shows "coord_ok W enc ws tasks (drop_empty_buffer stream st)"
proof (cases "bt_get (cs_out_of_order st) stream = Some []")
  case True
  let ?st = "st\<lparr>cs_out_of_order := bt_remove stream (cs_out_of_order st)\<rparr>"
  have wf: "bt_wf (cs_out_of_order st)" using coord_okW [OF ok] by (simp add: coord_wf_def)
  have q: "values_mset (cs_out_of_order ?st) = values_mset (cs_out_of_order st)"
    using values_mset_remove_empty [OF wf True] by simp
  then have sub: "queued_mset ?st \<subseteq># queued_mset st" by (simp add: queued_mset_def)
  have stored: "stored_ok enc ?st ws tasks = stored_ok enc st ws tasks"
    by (rule stored_ok_same) simp_all
  have "coord_ok W enc ws tasks ?st"
  proof (rule coord_ok_queueI [OF ok])
    show "events_slack W enc ?st ws tasks"
      using coord_ok_events [OF ok]
      by (intro events_slack_sub [OF _ sub stored]) (auto simp: events_slack_def bt_remove_def buffer_slack_def)
    show "totals_ok enc ?st" using totals_mono [OF coord_ok_totals [OF ok] sub] .
  qed (use coord_okW [OF ok] receipts_extra_ok [OF ok] receipts_keep [OF ok] coord_ok_cursors [OF ok]
      cursor_range [OF ok] coord_ok_bounds [OF ok] q in \<open>auto simp: coord_wf_def bounds_ok_def\<close>)
  then show ?thesis using True by (simp add: drop_empty_buffer_def)
next
  case False
  then show ?thesis using ok by (simp add: drop_empty_buffer_def)
qed

lemma coord_ok_drop_from_inbox:
  assumes ok: "coord_ok W enc ws tasks st" and sub: "mset xs \<subseteq># mset (cs_inbox st)"
  shows "coord_ok W enc ws tasks (st\<lparr>cs_inbox := xs\<rparr>)" (is "coord_ok W enc ws tasks ?st")
proof (rule coord_ok_queueI [OF ok])
  have qsub: "queued_mset ?st \<subseteq># queued_mset st" using sub by (simp add: queued_mset_def)
  have stored: "stored_ok enc ?st ws tasks = stored_ok enc st ws tasks"
    by (rule stored_ok_same) simp_all
  show "events_slack W enc ?st ws tasks"
    using coord_ok_events [OF ok]
    by (intro events_slack_sub [OF _ qsub stored]) (auto simp: events_slack_def buffer_slack_def)
  show "totals_ok enc ?st" using totals_mono [OF coord_ok_totals [OF ok] qsub] .
qed (use coord_okW [OF ok] receipts_extra_ok [OF ok] receipts_keep [OF ok] coord_ok_cursors [OF ok]
    cursor_range [OF ok] coord_ok_bounds [OF ok] in \<open>auto simp: coord_wf_def bounds_ok_def\<close>)

section \<open>Buffering an event\<close>

text \<open>A new event: stored rightly, under an id that is neither queued nor filed, and within the bounds.\<close>

definition new_event ::
  "event_encoder \<Rightarrow> string \<Rightarrow> task_table \<Rightarrow> coordination_state \<Rightarrow> task_inbox_event \<Rightarrow> bool" where
  "new_event enc ws tasks st ev \<longleftrightarrow>
     stored_ok enc st ws tasks ev \<and>
     (\<forall>q \<in> set (queued_events st). ie_event_id q \<noteq> ie_event_id ev) \<and>
     (\<forall>t r. bt_get (cs_completion_receipts st) t = Some r \<longrightarrow> ie_event_id r \<noteq> ie_event_id ev) \<and>
     length (queued_events st) < MAX_INBOX_EVENTS \<and>
     sum_list (map (\<lambda>ev. the (enc ev)) (queued_events st)) + the (enc ev) \<le> MAX_INBOX_BYTES \<and>
     (ie_kind ev = VerifiedCompletion \<longrightarrow>
        (\<forall>r. bt_get (cs_completion_receipts st) (ie_task_id ev) = Some r \<longrightarrow> ie_attempt r \<noteq> ie_attempt ev) \<and>
        (\<forall>q \<in> set (queued_events st). \<not> (ie_task_id q = ie_task_id ev \<and> ie_attempt q = ie_attempt ev \<and>
           ie_kind q = VerifiedCompletion)))"

lemma pending_in_queue: "ev \<in># values_mset (cs_out_of_order st) \<Longrightarrow> ev \<in> set (queued_events st)"
  by (simp add: values_mset_def queued_events_def pending_events_def)

lemma receipts_extra_add_pending:
  assumes x: "receipts_extra rs P"
    and fresh: "\<And>t r. bt_get rs t = Some r \<Longrightarrow> ie_event_id r \<noteq> ie_event_id ev"
    and once: "\<And>r. ie_kind ev = VerifiedCompletion \<Longrightarrow> bt_get rs (ie_task_id ev) = Some r \<Longrightarrow> ie_attempt r \<noteq> ie_attempt ev"
      "\<And>q. ie_kind ev = VerifiedCompletion \<Longrightarrow> q \<in># P \<Longrightarrow> ie_task_id q = ie_task_id ev \<Longrightarrow>
         ie_attempt q = ie_attempt ev \<Longrightarrow> ie_kind q \<noteq> VerifiedCompletion"
  shows "receipts_extra rs (add_mset ev P)"
proof -
  have in_iff: "e \<in># add_mset ev P \<longleftrightarrow> e = ev \<or> e \<in># P" for e by simp
  show ?thesis
    unfolding receipts_extra_def in_iff
  proof (intro conjI)
    show "\<forall>t r e. bt_get rs t = Some r \<longrightarrow> e = ev \<or> e \<in># P \<longrightarrow> ie_event_id r \<noteq> ie_event_id e"
      using x fresh unfolding receipts_extra_def by blast
    show "\<forall>e r. e = ev \<or> e \<in># P \<longrightarrow> ie_kind e = VerifiedCompletion \<longrightarrow>
        bt_get rs (ie_task_id e) = Some r \<longrightarrow> ie_attempt r \<noteq> ie_attempt e"
      using x once(1) unfolding receipts_extra_def by blast
    show "\<forall>e e'. e = ev \<or> e \<in># P \<longrightarrow> e' = ev \<or> e' \<in># P \<longrightarrow> ie_kind e = VerifiedCompletion \<longrightarrow>
        ie_kind e' = VerifiedCompletion \<longrightarrow> ie_task_id e = ie_task_id e' \<longrightarrow> ie_attempt e = ie_attempt e' \<longrightarrow> e = e'"
      using x once(2) unfolding receipts_extra_def by metis
  qed (use x in \<open>simp add: receipts_extra_def\<close>)
qed

lemma coord_ok_buffer_event:
  assumes ok: "coord_ok W enc ws tasks st" and new: "new_event enc ws tasks st ev"
    and cu: "bt_get (cs_stream_cursors st) stream = Some cu"
    and ahead: "cu_next_sequence cu < ie_sequence ev" "ie_sequence ev - cu_next_sequence cu \<le> MAX_REORDER_DISTANCE"
    and stream: "event_stream_id ev = stream"
    and free: "bt_get (bt_get_or [] (cs_out_of_order st) stream) (ie_sequence ev) = None"
    and room: "length (bt_get_or [] (cs_out_of_order st) stream) < MAX_REORDERED_EVENTS_PER_STREAM"
  shows "coord_ok W enc ws tasks (buffer_event stream ev st)"
proof -
  let ?st = "buffer_event stream ev st"
  let ?p = "bt_get_or [] (cs_out_of_order st) stream"
  have wf: "bt_wf (cs_out_of_order st)" "bt_wf ?p"
    using coord_okW [OF ok] buffers_get(2) [OF ok, of stream]
    by (auto simp: coord_wf_def bt_get_or_def split: option.splits)
  have v: "values_mset (cs_out_of_order ?st) = add_mset ev (values_mset (cs_out_of_order st))"
    unfolding buffer_event_def using values_mset_entry_insert [OF wf(1) _ free] buffers_get(2) [OF ok]
    by simp
  then have q: "queued_mset ?st = add_mset ev (queued_mset st)"
    by (simp add: queued_mset_def buffer_event_def)
  have stored: "stored_ok enc ?st ws tasks = stored_ok enc st ws tasks"
    by (rule stored_ok_same) (simp_all add: buffer_event_def)
  have ev: "events_slack W enc st ws tasks" using coord_ok_events [OF ok] .
  have old: "buffer_slack W st stream ?p"
    using buffers_get(1) [OF ok, of stream] coord_ok_cursors [OF ok cu] cu
    by (cases "bt_get (cs_out_of_order st) stream") (auto simp: bt_get_or_def buffer_slack_def cursor_ok_def)
  have buf: "buffer_slack W ?st stream (bt_insert (ie_sequence ev) ev ?p)"
    using old cu ahead stream room set_bt_insert_subset [of "ie_sequence ev" ev ?p]
      bt_length_insert [OF wf(2), of "ie_sequence ev" ev]
    by (auto simp: buffer_slack_def buffer_event_def free dest!: subsetD)
  have bufs: "buffer_slack W ?st (fst kv) (snd kv)" if "kv \<in> set (cs_out_of_order ?st)" for kv
  proof -
    have "kv \<in> insert (stream, bt_insert (ie_sequence ev) ev ?p) (set (cs_out_of_order st))"
      using that set_bt_insert_subset by (force simp: buffer_event_def bt_entry_def)
    then show ?thesis
      using buf ev by (auto simp: events_slack_def buffer_slack_def buffer_event_def)
  qed
  show ?thesis
  proof (rule coord_ok_queueI [OF ok])
    show "events_slack W enc ?st ws tasks"
      using new bufs unfolding new_event_def by (intro events_slack_add [OF ev q stored]) blast+
    show "totals_ok enc ?st" using totals_add [OF q] new by (simp add: new_event_def)
    show "receipts_extra (cs_completion_receipts ?st) (values_mset (cs_out_of_order ?st))"
      unfolding v
    proof (rule receipts_extra_add_pending)
      show "receipts_extra (cs_completion_receipts ?st) (values_mset (cs_out_of_order st))"
        using receipts_extra_ok [OF ok] by (simp add: buffer_event_def)
    qed (use new pending_in_queue [of _ st] in \<open>auto simp: new_event_def buffer_event_def\<close>)
    show "coord_wf ?st"
      using coord_okW [OF ok] wf unfolding coord_wf_def buffer_event_def
      by (auto simp del: split_paired_All simp: bt_get_or_def split: if_splits)
  qed (use receipts_keep [OF ok] coord_ok_cursors [OF ok] cursor_range [OF ok] coord_ok_bounds [OF ok]
      in \<open>auto simp: bounds_ok_def buffer_event_def\<close>)
qed

section \<open>Delivering an event\<close>

lemma receipts_extra_file:
  assumes x: "receipts_extra rs P"
    and fresh: "\<And>t r. bt_get rs t = Some r \<Longrightarrow> ie_event_id r \<noteq> ie_event_id ev"
      "\<And>q. q \<in># P \<Longrightarrow> ie_event_id q \<noteq> ie_event_id ev"
    and once: "\<And>q. q \<in># P \<Longrightarrow> ie_kind q = VerifiedCompletion \<Longrightarrow> ie_task_id q = ie_task_id ev \<Longrightarrow>
         ie_attempt q \<noteq> ie_attempt ev"
  shows "receipts_extra (bt_insert (ie_task_id ev) ev rs) P"
proof -
  have g: "bt_get (bt_insert (ie_task_id ev) ev rs) t = Some r \<longleftrightarrow>
      t = ie_task_id ev \<and> r = ev \<or> t \<noteq> ie_task_id ev \<and> bt_get rs t = Some r" for t r
    by auto
  show ?thesis
    unfolding receipts_extra_def g
  proof (intro conjI)
    show "\<forall>t r t' r'. t = ie_task_id ev \<and> r = ev \<or> t \<noteq> ie_task_id ev \<and> bt_get rs t = Some r \<longrightarrow>
        t' = ie_task_id ev \<and> r' = ev \<or> t' \<noteq> ie_task_id ev \<and> bt_get rs t' = Some r' \<longrightarrow>
        ie_event_id r = ie_event_id r' \<longrightarrow> t = t'"
      using x fresh(1) unfolding receipts_extra_def by metis
    show "\<forall>t r e. t = ie_task_id ev \<and> r = ev \<or> t \<noteq> ie_task_id ev \<and> bt_get rs t = Some r \<longrightarrow>
        e \<in># P \<longrightarrow> ie_event_id r \<noteq> ie_event_id e"
      using x fresh(2) unfolding receipts_extra_def by metis
    show "\<forall>e r. e \<in># P \<longrightarrow> ie_kind e = VerifiedCompletion \<longrightarrow>
        ie_task_id e = ie_task_id ev \<and> r = ev \<or> ie_task_id e \<noteq> ie_task_id ev \<and> bt_get rs (ie_task_id e) = Some r \<longrightarrow>
        ie_attempt r \<noteq> ie_attempt e"
      using x once unfolding receipts_extra_def by metis
  qed (use x in \<open>simp add: receipts_extra_def\<close>)
qed

lemma next_cursor_range:
  assumes "cu_next_sequence cu \<le> u64_max"
  shows "cu_next_sequence cu \<le> cu_next_sequence (next_cursor cu)"
    "cu_next_sequence (next_cursor cu) \<le> Suc (cu_next_sequence cu)"
    "cu_next_sequence (next_cursor cu) \<le> u64_max"
  using assms by (auto simp: next_cursor_def nat_saturating_add_def)

lemma cursor_ok_next: "cursor_ok tasks k cu \<Longrightarrow> cu_next_sequence cu \<le> u64_max \<Longrightarrow> cursor_ok tasks k (next_cursor cu)"
  using next_cursor_range(1) [of cu] by (auto simp: cursor_ok_def)

definition deliver :: "task_inbox_event \<Rightarrow> coordination_state \<Rightarrow> coordination_state" where
  "deliver ev st = push_inbox ev (file_completion ev st)"

lemma deliver_fields [simp]:
  "cs_format_version (deliver ev st) = cs_format_version st"
  "cs_bindings (deliver ev st) = cs_bindings st"
  "cs_historical_bindings (deliver ev st) = cs_historical_bindings st"
  "cs_inbox (deliver ev st) = cs_inbox st @ [ev]"
  "cs_out_of_order (deliver ev st) = cs_out_of_order st"
  "cs_stream_cursors (deliver ev st) = cs_stream_cursors st"
  "cs_completion_receipts (deliver ev st) =
     (if ie_kind ev = VerifiedCompletion then bt_insert (ie_task_id ev) ev (cs_completion_receipts st)
      else cs_completion_receipts st)"
  "cs_wake_policies (deliver ev st) = cs_wake_policies st"
  "cs_wake_leases (deliver ev st) = cs_wake_leases st"
  "cs_counters (deliver ev st) = cs_counters st"
  by (simp_all add: deliver_def push_inbox_def file_completion_def)

text \<open>The common part of queueing a new event and promoting a buffered one.\<close>

lemma coord_ok_deliver:
  assumes ok: "coord_ok W enc ws tasks st"
    and same: "cs_format_version st1 = cs_format_version st" "cs_bindings st1 = cs_bindings st"
      "cs_historical_bindings st1 = cs_historical_bindings st" "cs_inbox st1 = cs_inbox st"
      "cs_wake_policies st1 = cs_wake_policies st" "cs_completion_receipts st1 = cs_completion_receipts st"
      "cs_wake_leases st1 = cs_wake_leases st" "cs_counters st1 = cs_counters st"
    and wf: "coord_wf st1" and stored: "stored_ok enc st ws tasks ev"
    and events: "events_slack W' enc (deliver ev st1) ws tasks" "totals_ok enc (deliver ev st1)"
    and cursors: "\<And>k cu. bt_get (cs_stream_cursors st1) k = Some cu \<Longrightarrow> cursor_ok tasks k cu \<and> cu_next_sequence cu \<le> u64_max"
      "length (cs_stream_cursors st1) \<le> MAX_EVENT_STREAMS"
    and receipts: "receipts_extra (cs_completion_receipts st) (values_mset (cs_out_of_order st1))"
      "\<And>t r. bt_get (cs_completion_receipts st) t = Some r \<Longrightarrow> ie_event_id r \<noteq> ie_event_id ev"
      "\<And>q. q \<in># values_mset (cs_out_of_order st1) \<Longrightarrow> ie_event_id q \<noteq> ie_event_id ev"
      "\<And>q. q \<in># values_mset (cs_out_of_order st1) \<Longrightarrow> ie_kind ev = VerifiedCompletion \<Longrightarrow>
         ie_kind q = VerifiedCompletion \<Longrightarrow> ie_task_id q = ie_task_id ev \<Longrightarrow> ie_attempt q \<noteq> ie_attempt ev"
    and once: "\<And>r. ie_kind ev = VerifiedCompletion \<Longrightarrow> bt_get (cs_completion_receipts st) (ie_task_id ev) = Some r \<Longrightarrow>
         ie_attempt r \<noteq> ie_attempt ev"
    and current: "task_attempt tasks (ie_task_id ev) = Some (ie_attempt ev)"
  shows "coord_ok W' enc ws tasks (deliver ev st1)"
proof (rule coord_ok_queueI [OF ok])
  show "receipts_extra (cs_completion_receipts (deliver ev st1)) (values_mset (cs_out_of_order (deliver ev st1)))"
    using receipts receipts_extra_file [OF receipts(1-3)] by (simp add: same)
  show "receipt_ok enc st ws tasks t r"
    if "bt_get (cs_completion_receipts (deliver ev st1)) t = Some r" for t r
    using that stored receipts_keep [OF ok, of t r] by (auto simp: same receipt_ok_def split: if_splits)
  show "bt_get (cs_completion_receipts (deliver ev st1)) t = Some r"
    if "bt_get (cs_completion_receipts st) t = Some r" "task_attempt tasks t = Some (ie_attempt r)" for t r
    using that once current by (auto simp: same)
  show "coord_wf (deliver ev st1)" using wf by (auto simp: coord_wf_def)
qed (use events cursors in \<open>simp_all add: same\<close>)

text \<open>The next event of a stream.\<close>

lemma coord_ok_enqueue:
  assumes ok: "coord_ok {} enc ws tasks st" and new: "new_event enc ws tasks st ev"
    and stream: "event_stream_id ev = stream"
    and cu: "cu = bt_get_or (fresh_cursor 1) (cs_stream_cursors st) stream" "cursor_ok tasks stream cu"
    and room: "bt_contains (cs_stream_cursors st) stream \<or> length (cs_stream_cursors st) < MAX_EVENT_STREAMS"
    and current: "task_attempt tasks (ie_task_id ev) = Some (ie_attempt ev)"
  shows "coord_ok {stream} enc ws tasks
    (deliver ev (st\<lparr>cs_stream_cursors := bt_insert stream (next_cursor cu) (cs_stream_cursors st)\<rparr>))"
    (is "coord_ok _ enc ws tasks (deliver ev ?st)")
proof (rule coord_ok_deliver [OF ok])
  have range: "cu_next_sequence cu \<le> u64_max"
    using cursor_range [OF ok, of stream] cu(1)
    by (auto simp: bt_get_or_def fresh_cursor_def u64_max_def split: option.splits)
  have q: "queued_mset (deliver ev ?st) = add_mset ev (queued_mset st)"
    by (simp add: queued_mset_def)
  have stored: "stored_ok enc (deliver ev ?st) ws tasks = stored_ok enc st ws tasks"
    by (rule stored_ok_same) simp_all
  have bufs: "buffer_slack {stream} (deliver ev ?st) (fst kv) (snd kv)" if mem: "kv \<in> set (cs_out_of_order st)" for kv
  proof -
    have b: "buffer_slack {} st (fst kv) (snd kv)"
      using coord_ok_events [OF ok] mem by (simp add: events_slack_def)
    show ?thesis
    proof (cases "fst kv = stream")
      case True
      then have "bt_get (cs_stream_cursors st) stream = Some cu"
        using b cu(1) by (auto simp: buffer_slack_def bt_get_or_def)
      with b True show ?thesis
        using next_cursor_range [OF range] by (auto simp: buffer_slack_def le_Suc_eq intro: diff_le_mono2 [THEN order_trans])
    next
      case False
      with b show ?thesis by (simp add: buffer_slack_def)
    qed
  qed
  show "events_slack {stream} enc (deliver ev ?st) ws tasks"
    using new bufs unfolding new_event_def
    by (intro events_slack_add [OF coord_ok_events [OF ok] q stored]) simp_all
  show "totals_ok enc (deliver ev ?st)" using totals_add [OF q] new by (simp add: new_event_def)
  show "cursor_ok tasks k c \<and> cu_next_sequence c \<le> u64_max"
    if "bt_get (cs_stream_cursors ?st) k = Some c" for k c
    using that coord_ok_cursors [OF ok, of k c] cursor_range [OF ok, of k c] cursor_ok_next [OF cu(2) range]
      next_cursor_range(3) [OF range] by (auto split: if_splits)
  show "length (cs_stream_cursors ?st) \<le> MAX_EVENT_STREAMS"
    using room coord_ok_bounds [OF ok] coord_okW [OF ok]
    by (auto simp: bt_length_insert bounds_ok_def coord_wf_def bt_contains_def)
  show "coord_wf ?st" using coord_okW [OF ok] by (auto simp: coord_wf_def)
qed (use new current receipts_extra_ok [OF ok] pending_in_queue [of _ st] in \<open>auto simp: new_event_def\<close>)

text \<open>Promoting the buffered event the cursor points at.\<close>

lemma distinct_ids_pending:
  assumes ok: "coord_ok W enc ws tasks st" and p: "values_mset (cs_out_of_order st) = add_mset ev P" and q: "q \<in># P"
  shows "ie_event_id q \<noteq> ie_event_id ev"
proof -
  obtain qs where qs: "mset qs = P" by (metis ex_mset)
  have "mset (queued_events st) = mset (cs_inbox st @ ev # qs)"
    using p qs by (simp add: queued_mset_eq queued_mset_def)
  then have "mset (map ie_event_id (queued_events st)) = mset (map ie_event_id (cs_inbox st @ ev # qs))"
    by (simp only: mset_map)
  moreover have "distinct (map ie_event_id (queued_events st))"
    using coord_ok_events [OF ok] by (simp add: events_slack_def)
  ultimately have "distinct (map ie_event_id (cs_inbox st @ ev # qs))"
    by (rule mset_eq_imp_distinct_iff [THEN iffD1])
  then have "ie_event_id ev \<notin> ie_event_id ` set qs" by simp
  moreover have "q \<in> set qs" using q qs by auto
  ultimately show ?thesis by (metis imageI)
qed

lemma coord_ok_promote:
  assumes ok: "coord_ok {stream} enc ws tasks st"
    and cu: "bt_get (cs_stream_cursors st) stream = Some cu"
    and p: "bt_get (cs_out_of_order st) stream = Some p" and ev: "bt_get p (cu_next_sequence cu) = Some ev"
    and current: "task_attempt tasks (ie_task_id ev) = Some (ie_attempt ev)"
  shows "coord_ok {stream} enc ws tasks
    (deliver ev (st\<lparr>cs_out_of_order := bt_adjust stream (bt_remove (cu_next_sequence cu)) (cs_out_of_order st),
                   cs_stream_cursors := bt_adjust stream next_cursor (cs_stream_cursors st)\<rparr>))"
    (is "coord_ok _ enc ws tasks (deliver ev ?st)")
proof (rule coord_ok_deliver [OF ok])
  have wf: "bt_wf (cs_out_of_order st)" "bt_wf p"
    using coord_okW [OF ok] buffers_get(2) [OF ok p] by (simp_all add: coord_wf_def)
  have range: "cu_next_sequence cu \<le> u64_max" using cursor_range [OF ok cu] .
  have v: "values_mset (cs_out_of_order st) = add_mset ev (values_mset (cs_out_of_order ?st))"
    using values_mset_adjust_remove [OF wf(1) p wf(2) ev] by simp
  then have mem: "ev \<in># values_mset (cs_out_of_order st)" by simp
  have q: "queued_mset (deliver ev ?st) = queued_mset st"
    by (simp add: queued_mset_def v)
  have stored: "stored_ok enc (deliver ev ?st) ws tasks = stored_ok enc st ws tasks"
    by (rule stored_ok_same) simp_all
  show "stored_ok enc st ws tasks ev"
    using coord_ok_events [OF ok] pending_in_queue [OF mem] by (simp add: events_slack_def)
  have bufs: "buffer_slack {stream} (deliver ev ?st) (fst kv) (snd kv)"
    if mem: "kv \<in> set (bt_adjust stream (bt_remove (cu_next_sequence cu)) (cs_out_of_order st))" for kv
  proof (cases "fst kv = stream")
    case True
    have kv: "bt_get (bt_adjust stream (bt_remove (cu_next_sequence cu)) (cs_out_of_order st)) (fst kv) = Some (snd kv)"
      using mem bt_get_iff_mem [OF bt_wf_adjust [OF wf(1)]] by (metis prod.collapse)
    have "buffer_slack {stream} st stream p" using buffers_get(1) [OF ok p] .
    moreover have "snd kv = bt_remove (cu_next_sequence cu) p" using kv True p by simp
    ultimately show ?thesis
      using next_cursor_range [OF range] cu True bt_length_remove [of "cu_next_sequence cu" p]
      by (auto simp: buffer_slack_def bt_remove_def le_Suc_eq
          intro: diff_le_mono2 [THEN order_trans] order_trans [OF length_filter_le])
  next
    case False
    then have "kv \<in> set (cs_out_of_order st)"
      using mem p set_bt_insert_subset [of stream "bt_remove (cu_next_sequence cu) p" "cs_out_of_order st"]
      by (auto simp: bt_adjust_def)
    then show ?thesis
      using False coord_ok_events [OF ok] by (auto simp: events_slack_def buffer_slack_def)
  qed
  show "events_slack {stream} enc (deliver ev ?st) ws tasks"
    using bufs by (intro events_slack_sub [OF coord_ok_events [OF ok] _ stored]) (simp_all add: q)
  show "totals_ok enc (deliver ev ?st)" using totals_mono [OF coord_ok_totals [OF ok]] q by simp
  show "cursor_ok tasks k c \<and> cu_next_sequence c \<le> u64_max"
    if "bt_get (cs_stream_cursors ?st) k = Some c" for k c
    using that cu coord_ok_cursors [OF ok, of k] cursor_range [OF ok, of k] cursor_ok_next [OF _ range, of tasks stream]
      next_cursor_range(3) [OF range] by (auto split: if_splits)
  show "length (cs_stream_cursors ?st) \<le> MAX_EVENT_STREAMS"
    using cu coord_ok_bounds [OF ok] coord_okW [OF ok]
    by (auto simp: bt_adjust_def bt_length_insert bounds_ok_def coord_wf_def)
  show "coord_wf ?st"
    using coord_okW [OF ok] wf p unfolding coord_wf_def
    by (auto simp del: split_paired_All split: if_splits)
  have x: "receipts_extra (cs_completion_receipts st) (values_mset (cs_out_of_order st))"
    using receipts_extra_ok [OF ok] .
  show "receipts_extra (cs_completion_receipts st) (values_mset (cs_out_of_order ?st))"
    using x by (rule receipts_extra_mono) (simp add: v)
  show "ie_event_id r \<noteq> ie_event_id ev" if "bt_get (cs_completion_receipts st) t = Some r" for t r
    using x mem that unfolding receipts_extra_def by metis
  show fresh: "ie_event_id e \<noteq> ie_event_id ev" if "e \<in># values_mset (cs_out_of_order ?st)" for e
    using distinct_ids_pending [OF ok v that] .
  show "ie_attempt e \<noteq> ie_attempt ev"
    if "e \<in># values_mset (cs_out_of_order ?st)" "ie_kind ev = VerifiedCompletion"
      "ie_kind e = VerifiedCompletion" "ie_task_id e = ie_task_id ev" for e
  proof
    assume "ie_attempt e = ie_attempt ev"
    moreover have "e \<in># values_mset (cs_out_of_order st)" using that(1) unfolding v by simp
    ultimately have "e = ev" using x mem that unfolding receipts_extra_def by metis
    with fresh [OF that(1)] show False by simp
  qed
  show "ie_attempt r \<noteq> ie_attempt ev"
    if "ie_kind ev = VerifiedCompletion" "bt_get (cs_completion_receipts st) (ie_task_id ev) = Some r" for r
    using x mem that unfolding receipts_extra_def by metis
qed (use current in simp_all)

section \<open>The promotion loop\<close>

text \<open>Notes on a root that leave its wake counts and its budget alone.\<close>

lemma coord_ok_note:
  assumes ok: "coord_ok W enc ws tasks st" and pol: "bt_get (cs_wake_policies st) root = Some p"
    and f: "\<And>c. same_wakes c (f c) \<and> co_accepted_events (f c) = co_accepted_events c \<and>
       co_accepted_event_bytes (f c) = co_accepted_event_bytes c"
    and reason: "\<And>c r. co_stop_reason (f c) = Some r \<Longrightarrow>
       co_stop_reason c = Some r \<or> length r \<le> MAX_COORDINATION_TEXT_BYTES"
  shows "coord_ok W enc ws tasks (adjust_counters root f st)"
proof (rule coord_ok_adjust_counters [OF ok pol])
  show "co_accepted_events (f c) \<le> wp_max_events p \<and> co_accepted_event_bytes (f c) \<le> wp_max_event_bytes p"
    if "c = bt_get_or default_counters (cs_counters st) root" for c
    using counters_or_ok [OF ok pol] pol f [of c] that by (auto simp: counters_ok_def)
qed (use f reason in auto)

lemma coord_ok_stop_with:
  assumes "coord_ok W enc ws tasks st" "bt_get (cs_wake_policies st) root = Some p"
    "length reason \<le> MAX_COORDINATION_TEXT_BYTES"
  shows "coord_ok W enc ws tasks (stop_with root reason st)"
  unfolding stop_with_def
  by (rule coord_ok_note [OF assms(1,2)]) (use assms(3) in \<open>auto simp: same_wakes_def\<close>)

lemma coord_ok_project:
  assumes ok: "coord_ok W enc ws tasks st" and ev: "stored_ok enc st ws tasks ev"
  shows "coord_ok W enc ws tasks (project_event_stop_reason ev st)"
proof -
  obtain p where p: "bt_get (cs_wake_policies st) (ie_root_task_id ev) = Some p"
    using ev by (auto simp: stored_ok_def event_policy_ok_def)
  have len: "length (ie_redacted_summary ev) \<le> MAX_COORDINATION_TEXT_BYTES"
    using ev validate_event_facts(7) by (auto simp: stored_ok_def)
  show ?thesis
    unfolding project_event_stop_reason_def
    by (rule coord_ok_note [OF ok p])
      (use len in \<open>auto simp: same_wakes_def MAX_COORDINATION_TEXT_BYTES_def split: task_inbox_event_kind.splits\<close>)
qed

lemma project_deliver:
  "push_inbox ev (project_event_stop_reason ev (file_completion ev st)) =
   project_event_stop_reason ev (deliver ev st)"
  by (simp add: deliver_def push_inbox_def file_completion_def project_event_stop_reason_def
      adjust_counters_def)

lemma project_fields [simp]:
  "cs_wake_policies (project_event_stop_reason ev st) = cs_wake_policies st"
  "cs_bindings (project_event_stop_reason ev st) = cs_bindings st"
  "cs_historical_bindings (project_event_stop_reason ev st) = cs_historical_bindings st"
  "cs_stream_cursors (project_event_stop_reason ev st) = cs_stream_cursors st"
  "cs_inbox (project_event_stop_reason ev st) = cs_inbox st"
  "cs_completion_receipts (project_event_stop_reason ev st) = cs_completion_receipts st"
  "cs_wake_leases (project_event_stop_reason ev st) = cs_wake_leases st"
  by (simp_all add: project_event_stop_reason_def adjust_counters_def)

lemma take_pending_Some:
  assumes ok: "coord_ok W enc ws tasks st" and ev: "take_pending stream st = Some ev"
  obtains p cu where "bt_get (cs_out_of_order st) stream = Some p" "bt_get (cs_stream_cursors st) stream = Some cu"
    "bt_get p (cu_next_sequence cu) = Some ev" "stream_next stream st = cu_next_sequence cu"
    "event_stream_id ev = stream"
proof -
  obtain p where p: "bt_get (cs_out_of_order st) stream = Some p" and e: "bt_get p (stream_next stream st) = Some ev"
    using ev by (auto simp: take_pending_def bt_get_or_def split: option.splits)
  have b: "buffer_slack W st stream p" using buffers_get(1) [OF ok p] .
  then obtain cu where cu: "bt_get (cs_stream_cursors st) stream = Some cu" by (auto simp: buffer_slack_def)
  have "event_stream_id ev = stream" using b bt_get_mem [OF e] by (auto simp: buffer_slack_def)
  with that p e cu show ?thesis by (simp add: stream_next_def)
qed

lemma coord_ok_tighten:
  assumes ok: "coord_ok {stream} enc ws tasks st" and none: "take_pending stream st = None"
  shows "coord_ok {} enc ws tasks st"
proof -
  have "buffer_slack {} st (fst kv) (snd kv)" if mem: "kv \<in> set (cs_out_of_order st)" for kv
  proof -
    have b: "buffer_slack {stream} st (fst kv) (snd kv)"
      using coord_ok_events [OF ok] mem by (simp add: events_slack_def)
    have wf: "bt_wf (cs_out_of_order st)" using coord_okW [OF ok] by (simp add: coord_wf_def)
    have g: "bt_get (cs_out_of_order st) (fst kv) = Some (snd kv)"
      using mem bt_get_iff_mem [OF wf] by (metis prod.collapse)
    have "cu_next_sequence cu \<noteq> fst e"
      if "fst kv = stream" "bt_get (cs_stream_cursors st) stream = Some cu" "e \<in> set (snd kv)" for cu e
      using none g that bt_get_iff_mem [OF buffers_get(2) [OF ok g], of "fst e" "snd e"]
      by (auto simp: take_pending_def bt_get_or_def stream_next_def)
    with b show ?thesis unfolding buffer_slack_def by (metis singletonD)
  qed
  with ok show ?thesis by (auto simp: coord_ok_def events_slack_def)
qed

lemma coord_ok_promote_loop:
  assumes "coord_ok {stream} enc ws tasks st"
    and "task_attempt tasks (st_task_id stream) = Some (st_attempt stream)"
  shows "coord_ok {} enc ws tasks (promote_loop stream st)"
  using assms
proof (induction stream st rule: promote_loop.induct)
  case (1 stream st)
  show ?case
  proof (cases "take_pending stream st")
    case None
    then show ?thesis
      using coord_ok_mark_remaining_gap [OF coord_ok_tighten [OF 1(2) None]]
      by (simp add: promote_loop.simps [of stream st])
  next
    case (Some ev)
    from take_pending_Some [OF 1(2) Some] obtain p cu where
      p: "bt_get (cs_out_of_order st) stream = Some p" "bt_get (cs_stream_cursors st) stream = Some cu"
        "bt_get p (cu_next_sequence cu) = Some ev" "stream_next stream st = cu_next_sequence cu"
        "event_stream_id ev = stream" .
    let ?st = "st\<lparr>cs_out_of_order := bt_adjust stream (bt_remove (cu_next_sequence cu)) (cs_out_of_order st),
        cs_stream_cursors := bt_adjust stream next_cursor (cs_stream_cursors st)\<rparr>"
    have cur: "task_attempt tasks (ie_task_id ev) = Some (ie_attempt ev)"
      using 1(3) p(5) by (auto simp: event_stream_id_def)
    have d: "coord_ok {stream} enc ws tasks (deliver ev ?st)"
      by (rule coord_ok_promote [OF 1(2) p(2,1,3) cur])
    moreover have "ev \<in> set (queued_events (deliver ev ?st))" by (simp add: queued_events_def)
    then have "stored_ok enc (deliver ev ?st) ws tasks ev"
      using coord_ok_events [OF d] unfolding events_slack_def by blast
    ultimately have "coord_ok {stream} enc ws tasks (promote_one stream ev st)"
      unfolding promote_one_def project_deliver p(4) by (rule coord_ok_project)
    then show ?thesis
      using 1(1) [OF Some _ 1(3)] Some by (simp add: promote_loop.simps [of stream st])
  qed
qed

lemma coord_ok_clear_gap_reasons:
  assumes ok: "coord_ok W enc ws tasks st"
  shows "coord_ok W enc ws tasks (clear_gap_reasons st)"
proof -
  let ?f = "\<lambda>c. if co_stop_reason c = Some AWAITING_GAP \<or> co_stop_reason c = Some RECONCILE_GAP
                  then c\<lparr>co_stop_reason := None\<rparr> else c"
  have "coord_ok W enc ws tasks (st\<lparr>cs_counters := bt_map ?f (cs_counters st)\<rparr>)"
    using coord_okW [OF ok] coord_ok_counters [OF ok]
    by (intro coord_ok_new_counters [OF ok])
      (auto simp: coord_wf_def bt_get_or_def same_wakes_def counters_ok_def split: if_splits)
  with ok show ?thesis by (simp add: clear_gap_reasons_def)
qed

lemma coord_ok_promote_contiguous:
  "coord_ok {stream} enc ws tasks st \<Longrightarrow> task_attempt tasks (st_task_id stream) = Some (st_attempt stream) \<Longrightarrow>
   coord_ok {} enc ws tasks (promote_contiguous_pending stream st)"
  unfolding promote_contiguous_pending_def
  by (intro coord_ok_clear_gap_reasons coord_ok_drop_empty_buffer coord_ok_promote_loop)

end
