(* ===== verification/Coord_Effects.thy ===== *)
theory Coord_Effects
  imports Coord_Inv
begin

text \<open>
  The remaining effects of the coordination operations on the invariant of \<open>Coord_Inv\<close>: those on
  bindings, on wake policies and on wake leases with their counters.
\<close>

section \<open>Bindings\<close>

lemma bt_retain_True [simp]: "bt_retain (\<lambda>_. True) m = m"
  by (simp add: bt_retain_def)

lemma set_bt_retain: "kv \<in> set (bt_retain K m) \<longleftrightarrow> kv \<in> set m \<and> K (fst kv)"
  by (auto simp: bt_retain_def)

definition same_binding :: "task_execution_binding \<Rightarrow> task_execution_binding \<Rightarrow> bool" where
  "same_binding b b' \<longleftrightarrow>
     tb_status b' = Resolved \<and> tb_root_task_id b' = tb_root_task_id b \<and> tb_task_id b' = tb_task_id b \<and>
     tb_attempt b' = tb_attempt b \<and> tb_child_session_id b' = tb_child_session_id b \<and>
     tb_parent_call_id b' = tb_parent_call_id b \<and> tb_intent b' = tb_intent b"

lemma stored_ok_more_bindings:
  assumes "stored_ok enc st ws tasks ev" "cs_wake_policies st' = cs_wake_policies st"
    and kept: "\<And>b. b \<in> set (all_bindings st) \<Longrightarrow> tb_status b = Resolved \<Longrightarrow>
       \<exists>b' \<in> set (all_bindings st'). same_binding b b'"
  shows "stored_ok enc st' ws tasks ev"
proof -
  obtain b where b: "b \<in> set (all_bindings st)" "binding_for_event ev b" "tb_attempt b = Some (ie_attempt ev)"
    using assms(1) by (auto simp: stored_ok_def event_bound_def)
  then obtain b' where "b' \<in> set (all_bindings st')" "same_binding b b'"
    using kept by (auto simp: binding_for_event_def)
  then have "event_bound st' ev"
    using b by (auto simp: event_bound_def binding_for_event_def same_binding_def)
  with assms show ?thesis by (simp add: stored_ok_def event_policy_ok_def)
qed

text \<open>
  A change of the binding tables, with the streams outside \<open>K\<close> dropped: every resolved binding is
  still there, and the new tables are sound.
\<close>

lemma coord_ok_new_bindings:
  assumes ok: "coord_ok {} enc ws tasks st"
    and st': "st' = st\<lparr>cs_bindings := m, cs_historical_bindings := hs,
        cs_stream_cursors := bt_retain K (cs_stream_cursors st),
        cs_out_of_order := bt_retain K (cs_out_of_order st)\<rparr>"
    and wf: "bt_wf m" and len: "length m \<le> MAX_BINDINGS" "length hs \<le> MAX_HISTORICAL_BINDINGS"
    and kept: "\<And>b. b \<in> set (all_bindings st) \<Longrightarrow> tb_status b = Resolved \<Longrightarrow>
       \<exists>b' \<in> set (all_bindings st'). same_binding b b'"
    and bindings: "\<And>i b. bt_get m i = Some b \<Longrightarrow> binding_ok ws tasks i b"
      "\<And>i b. bt_get m i = Some b \<Longrightarrow> tb_status b \<noteq> Resolved \<Longrightarrow> tb_attempt b = None"
      "\<And>b. b \<in> set hs \<Longrightarrow> historical_ok ws tasks b"
      "identities_ok tasks (resolved_bindings st')"
      "\<And>root p b. bt_get (cs_wake_policies st) root = Some p \<Longrightarrow> b \<in> set (all_bindings st') \<Longrightarrow>
         \<not> owner_mismatch root p b"
  shows "coord_ok {} enc ws tasks st'"
proof -
  have stored: "stored_ok enc st ws tasks ev \<Longrightarrow> stored_ok enc st' ws tasks ev" for ev
    by (rule stored_ok_more_bindings [OF _ _ kept]) (simp_all add: st')
  have v: "values_mset (cs_out_of_order st') \<subseteq># values_mset (cs_out_of_order st)"
    by (simp add: st' values_mset_retain)
  then have sub: "queued_mset st' \<subseteq># queued_mset st" by (simp add: queued_mset_def st')
  have e: "events_slack {} enc st ws tasks" using coord_ok_events [OF ok] .
  have ooo: "bt_wf (cs_out_of_order st)" using coord_okW [OF ok] by (simp add: coord_wf_def)
  show ?thesis
  proof (rule coord_okI)
    show "coord_extra st'"
      using coord_okX [OF ok] bindings(2) receipts_extra_mono [OF receipts_extra_ok [OF ok] v]
      by (auto simp: coord_extra_def st' split: if_splits)
    have "buffer_slack {} st' (fst kv) (snd kv)" if "kv \<in> set (cs_out_of_order st')" for kv
      using e that by (auto simp: st' events_slack_def buffer_slack_def set_bt_retain)
    then show "events_slack {} enc st' ws tasks"
      using e stored_mono [OF _ sub, of "stored_ok enc st ws tasks"] ids_mono [OF _ sub] stored
      by (auto simp: events_slack_def)
    show "totals_ok enc st'" using totals_mono [OF coord_ok_totals [OF ok] sub] .
    show "bounds_ok st'"
      using coord_ok_bounds [OF ok] len bt_length_retain [of K "cs_stream_cursors st"]
      by (auto simp: bounds_ok_def st')
    show "policy_ok st' tasks r p" if "bt_get (cs_wake_policies st') r = Some p" for r p
      using coord_ok_policies [OF ok, of r p] that bindings(5) [of r p]
      by (auto simp: policy_ok_def st' lease_count_def)
    show "lease_ok st' tasks j l" if "bt_get (cs_wake_leases st') j = Some l" for j l
      using coord_ok_leases [OF ok, of j l] that
      by (simp add: lease_ok_def receipt_missing_def st' cong: option.case_cong)
    show "counters_ok st' tasks r c" if "bt_get (cs_counters st') r = Some c" for r c
      using coord_ok_counters [OF ok, of r c] that by (simp add: counters_ok_def st')
    show "receipt_ok enc st' ws tasks t ev" if "bt_get (cs_completion_receipts st') t = Some ev" for t ev
      using coord_ok_receipts [OF ok, of t ev] that stored by (simp add: receipt_ok_def st')
    show "coord_wf st'"
      using coord_okW [OF ok] wf unfolding coord_wf_def st'
      by (auto simp del: split_paired_All split: if_splits)
  qed (use coord_okT [OF ok] coord_ok_cursors [OF ok] bindings in \<open>auto simp: st' split: if_splits\<close>)
qed

lemma in_all_bindings: "bt_wf (cs_bindings st) \<Longrightarrow>
    b \<in> set (all_bindings st) \<longleftrightarrow> (\<exists>i. bt_get (cs_bindings st) i = Some b) \<or> b \<in> set (cs_historical_bindings st)"
  by (simp add: all_bindings_def in_bt_values_iff)

lemma bindings_length: "coord_ok W enc ws tasks st \<Longrightarrow> length (cs_bindings st) \<le> MAX_BINDINGS"
  using coord_ok_bounds [of W enc ws tasks st] by (simp add: bounds_ok_def)

lemma owner_match:
  "coord_ok W enc ws tasks st \<Longrightarrow> bt_get (cs_wake_policies st) root = Some p \<Longrightarrow> b \<in> set (all_bindings st) \<Longrightarrow>
   \<not> owner_mismatch root p b"
  using coord_ok_policies [of W enc ws tasks st root p] by (auto simp: policy_ok_def)

text \<open>The resolved bindings as a multiset, so that the place of a binding does not matter.\<close>

lemma identities_ok_mset:
  assumes "mset xs = mset ys" "identities_ok tasks xs"
  shows "identities_ok tasks ys"
proof -
  have s: "set xs = set ys" using assms(1) by (metis set_mset_mset)
  have d: "distinct (map f xs) \<longleftrightarrow> distinct (map f ys)" for f :: "_ \<Rightarrow> 'b"
    by (rule mset_eq_imp_distinct_iff) (simp add: assms(1))
  then have "distinct (map bound_child ys)" "distinct (map bound_attempt ys)"
    using assms mset_eq_imp_distinct_iff [of "map bound_child xs" "map bound_child ys"]
      mset_eq_imp_distinct_iff [of "map bound_attempt xs" "map bound_attempt ys"]
    by (auto simp: identities_ok_def)
  with assms(2) s show ?thesis by (auto simp: identities_ok_def)
qed

definition resolved_mset :: "coordination_state \<Rightarrow> task_execution_binding multiset" where
  "resolved_mset st = mset (resolved_bindings st)"

lemma resolved_mset_eq:
  "resolved_mset st = filter_mset (\<lambda>b. tb_status b = Resolved) (image_mset snd (mset (cs_bindings st)))
     + filter_mset (\<lambda>b. tb_status b = Resolved) (mset (cs_historical_bindings st))"
  by (simp add: resolved_mset_def resolved_bindings_def all_bindings_def bt_values_def)

definition other_bindings :: "coordination_state \<Rightarrow> string \<Rightarrow> task_execution_binding list" where
  "other_bindings st i = bt_values (bt_remove i (cs_bindings st)) @ cs_historical_bindings st"

definition is_resolved :: "task_execution_binding \<Rightarrow> bool" where
  "is_resolved b \<longleftrightarrow> tb_status b = Resolved"

lemma resolved_split:
  assumes "bt_wf (cs_bindings st)" "bt_get (cs_bindings st) i = Some b"
  shows "mset (resolved_bindings st) = mset (filter is_resolved (b # other_bindings st i))"
  unfolding resolved_mset_def [symmetric] resolved_mset_eq mset_bt_split [OF assms]
  by (simp add: other_bindings_def is_resolved_def bt_values_def)

lemma resolved_update:
  assumes "bt_wf (cs_bindings st)" "cs_bindings st' = bt_insert i b (cs_bindings st)"
    "cs_historical_bindings st' = cs_historical_bindings st @ hs"
  shows "mset (resolved_bindings st') = mset (filter is_resolved (b # hs @ other_bindings st i))"
  unfolding resolved_mset_def [symmetric] resolved_mset_eq assms(2,3) mset_bt_insert [OF assms(1)]
  by (simp add: other_bindings_def is_resolved_def bt_values_def)

lemma set_all_bindings_update:
  assumes "bt_wf (cs_bindings st)" "cs_bindings st' = bt_insert i b (cs_bindings st)"
    "cs_historical_bindings st' = cs_historical_bindings st @ hs"
  shows "set (all_bindings st') = insert b (set hs \<union> set (other_bindings st i))"
proof -
  have "set (bt_insert i b (cs_bindings st)) = insert (i, b) (set (bt_remove i (cs_bindings st)))"
    using mset_bt_insert [OF assms(1), of i b] by (metis set_mset_add_mset_insert set_mset_mset)
  then show ?thesis
    using assms(2,3) by (auto simp: all_bindings_def other_bindings_def bt_values_def)
qed

lemma set_all_bindings_split:
  assumes "bt_wf (cs_bindings st)" "bt_get (cs_bindings st) i = Some b"
  shows "set (all_bindings st) = insert b (set (other_bindings st i))"
proof -
  have "set (cs_bindings st) = insert (i, b) (set (bt_remove i (cs_bindings st)))"
    using mset_bt_split [OF assms] by (metis set_mset_add_mset_insert set_mset_mset)
  then show ?thesis by (auto simp: all_bindings_def other_bindings_def bt_values_def)
qed

lemma unresolved_no_attempt:
  "coord_ok W enc ws tasks st \<Longrightarrow> bt_get (cs_bindings st) i = Some b \<Longrightarrow> tb_status b \<noteq> Resolved \<Longrightarrow> tb_attempt b = None"
  using coord_okX [of W enc ws tasks st] unfolding coord_extra_def by blast

lemma historical_length: "coord_ok W enc ws tasks st \<Longrightarrow> length (cs_historical_bindings st) \<le> MAX_HISTORICAL_BINDINGS"
  using coord_ok_bounds [of W enc ws tasks st] by (simp add: bounds_ok_def)

text \<open>Beginning a binding.\<close>

lemma coord_ok_begin_binding:
  assumes ok: "coord_ok {} enc ws tasks st" and fresh: "bt_get (cs_bindings st) i = None"
    and b: "binding_ok ws tasks i b" "tb_status b = Pending" "tb_attempt b = None"
    and room: "length (cs_bindings st) < MAX_BINDINGS"
  shows "coord_ok {} enc ws tasks (st\<lparr>cs_bindings := bt_insert i b (cs_bindings st)\<rparr>)" (is "coord_ok _ _ _ _ ?st")
proof -
  have wf: "bt_wf (cs_bindings st)" using coord_okW [OF ok] by (simp add: coord_wf_def)
  have others: "other_bindings st i = all_bindings st"
    using bt_remove_absent [OF fresh] by (simp add: other_bindings_def all_bindings_def)
  have all: "set (all_bindings ?st) = insert b (set (all_bindings st))"
    using set_all_bindings_update [OF wf, of ?st i b "[]"] others by simp
  have "mset (resolved_bindings ?st) = mset (resolved_bindings st)"
    using resolved_update [OF wf, of ?st i b "[]"] others b(2) by (simp add: resolved_bindings_def is_resolved_def)
  from identities_ok_mset [OF this [symmetric] coord_ok_identities [OF ok]]
  have ids: "identities_ok tasks (resolved_bindings ?st)" .
  show ?thesis
  proof (rule coord_ok_new_bindings [OF ok, where K = "\<lambda>_. True"])
    show "length (bt_insert i b (cs_bindings st)) \<le> MAX_BINDINGS"
      using room wf fresh by (simp add: bt_length_insert)
    show "\<not> owner_mismatch root p c"
      if "bt_get (cs_wake_policies st) root = Some p" "c \<in> set (all_bindings ?st)" for root p c
      using owner_match [OF ok that(1)] that(2) all b(2) by (auto simp: owner_mismatch_def)
    show "\<exists>b' \<in> set (all_bindings ?st). same_binding c b'"
      if "c \<in> set (all_bindings st)" "tb_status c = Resolved" for c
      using that all by (auto simp: same_binding_def)
  qed (use wf b ids historical_length [OF ok] coord_ok_bindings [OF ok] coord_ok_historical [OF ok]
      unresolved_no_attempt [OF ok] in \<open>auto split: if_splits\<close>)
qed

text \<open>A binding without an attempt may be set aside for reconciliation.\<close>

lemma coord_ok_set_aside:
  assumes ok: "coord_ok {} enc ws tasks st" and b: "bt_get (cs_bindings st) i = Some b" "tb_status b \<noteq> Resolved"
  shows "coord_ok {} enc ws tasks (st\<lparr>cs_bindings := bt_insert i
    (b\<lparr>tb_status := ReconciliationRequired, tb_stop_reason := Some reason\<rparr>) (cs_bindings st)\<rparr>)"
    (is "coord_ok _ _ _ _ ?st")
proof -
  let ?b = "b\<lparr>tb_status := ReconciliationRequired, tb_stop_reason := Some reason\<rparr>"
  have wf: "bt_wf (cs_bindings st)" using coord_okW [OF ok] by (simp add: coord_wf_def)
  have none: "tb_attempt b = None" using unresolved_no_attempt [OF ok b] .
  have all: "set (all_bindings ?st) = insert ?b (set (other_bindings st i))"
    using set_all_bindings_update [OF wf, of ?st i ?b "[]"] by simp
  have old: "set (all_bindings st) = insert b (set (other_bindings st i))"
    using set_all_bindings_split [OF wf b(1)] .
  have "mset (resolved_bindings ?st) = mset (resolved_bindings st)"
    using resolved_update [OF wf, of ?st i ?b "[]"] resolved_split [OF wf b(1)] b(2) by (simp add: is_resolved_def)
  from identities_ok_mset [OF this [symmetric] coord_ok_identities [OF ok]]
  have ids: "identities_ok tasks (resolved_bindings ?st)" .
  show ?thesis
  proof (rule coord_ok_new_bindings [OF ok, where K = "\<lambda>_. True"])
    show "length (bt_insert i ?b (cs_bindings st)) \<le> MAX_BINDINGS"
      using bindings_length [OF ok] wf b by (simp add: bt_length_insert)
    show "\<not> owner_mismatch root p c"
      if "bt_get (cs_wake_policies st) root = Some p" "c \<in> set (all_bindings ?st)" for root p c
      using owner_match [OF ok that(1)] that(2) all old by (auto simp: owner_mismatch_def)
    show "\<exists>b' \<in> set (all_bindings ?st). same_binding c b'"
      if "c \<in> set (all_bindings st)" "tb_status c = Resolved" for c
      using that all old b(2) by (auto simp: same_binding_def)
    show "binding_ok ws tasks j c" if "bt_get (bt_insert i ?b (cs_bindings st)) j = Some c" for j c
      using that coord_ok_bindings [OF ok, of j] b by (auto simp: binding_ok_def split: if_splits)
  qed (use wf none ids historical_length [OF ok] coord_ok_historical [OF ok] unresolved_no_attempt [OF ok]
      in \<open>auto split: if_splits\<close>)
qed

text \<open>Resolving a binding, for a first or a later attempt.\<close>

lemma identity_taken_others:
  "identity_taken st i t attempt child \<longleftrightarrow>
     (\<exists>c \<in> set (other_bindings st i). is_resolved c \<and>
        (tb_child_session_id c = Some child \<or> (tb_task_id c = Some t \<and> tb_attempt c = Some attempt)))"
  by (auto simp: identity_taken_def other_bindings_def is_resolved_def list_ex_iff bt_values_def bt_remove_def)

lemma identity_ok_fields:
  "identity_ok tasks c \<Longrightarrow> tb_child_session_id c = Some (bound_child c) \<and>
     tb_task_id c = Some (fst (bound_attempt c)) \<and> tb_attempt c = Some (snd (bound_attempt c))"
  by (auto simp: identity_ok_def bound_child_def bound_attempt_def)

lemma identities_ok_Cons:
  assumes "identities_ok tasks rs" "identity_ok tasks r"
    and "\<And>c. c \<in> set rs \<Longrightarrow> tb_child_session_id c \<noteq> tb_child_session_id r"
    and "\<And>c. c \<in> set rs \<Longrightarrow> \<not> (tb_task_id c = tb_task_id r \<and> tb_attempt c = tb_attempt r)"
  shows "identities_ok tasks (r # rs)"
proof -
  have "bound_child r \<notin> bound_child ` set rs" "bound_attempt r \<notin> bound_attempt ` set rs"
    using assms identity_ok_fields [of tasks] unfolding identities_ok_def by (metis imageE)+
  with assms(1,2) show ?thesis by (simp add: identities_ok_def)
qed

lemma identities_ok_subset:
  "identities_ok tasks (xs @ ys) \<Longrightarrow> identities_ok tasks ys"
  by (simp add: identities_ok_def)

lemma coord_ok_resolve:
  fixes b child call root t attempt
  defines "r \<equiv> resolve_binding root t attempt child call b"
  assumes ok: "coord_ok {} enc ws tasks st" and b: "bt_get (cs_bindings st) i = Some b"
    and task: "task_attempt tasks t = Some attempt" and root: "bt_contains tasks root"
    and desc: "task_is_descendant root t tasks"
    and free: "\<not> identity_taken st i t attempt child"
    and rebind: "rebind_error st b root t attempt child call = None"
    and moving: "moving \<longleftrightarrow> (\<exists>a. tb_attempt b = Some a \<and> a < attempt)"
    and room: "moving \<Longrightarrow> length (cs_historical_bindings st) < MAX_HISTORICAL_BINDINGS"
    and fresh: "moving \<Longrightarrow> tb_child_session_id b \<noteq> Some child"
    and st1: "st1 = (if moving then file_prior_attempt b t attempt st else st)"
  shows "coord_ok {} enc ws tasks (st1\<lparr>cs_bindings := bt_insert i r (cs_bindings st1)\<rparr>)" (is "coord_ok _ _ _ _ ?st")
proof -
  let ?K = "\<lambda>stream. moving \<longrightarrow> st_task_id stream \<noteq> t \<or> st_attempt stream \<ge> attempt"
  let ?hs = "if moving then [b] else []"
  have wf: "bt_wf (cs_bindings st)" using coord_okW [OF ok] by (simp add: coord_wf_def)
  have st: "?st = st\<lparr>cs_bindings := bt_insert i r (cs_bindings st),
      cs_historical_bindings := cs_historical_bindings st @ ?hs,
      cs_stream_cursors := bt_retain ?K (cs_stream_cursors st), cs_out_of_order := bt_retain ?K (cs_out_of_order st)\<rparr>"
    by (simp add: st1 file_prior_attempt_def Let_def)
  have r: "tb_status r = Resolved" "tb_root_task_id r = Some root" "tb_task_id r = Some t" "tb_attempt r = Some attempt"
    "tb_child_session_id r = Some child" "tb_parent_call_id r = Some call" "tb_intent r = tb_intent b" "tb_version r = tb_version b"
    by (simp_all add: r_def resolve_binding_def)
  have bok: "binding_ok ws tasks i b" using coord_ok_bindings [OF ok b] .
  have res_b: "is_resolved b" if "tb_attempt b = Some a" for a
    using unresolved_no_attempt [OF ok b] that by (auto simp: is_resolved_def)
  have all: "set (all_bindings ?st) = insert r (set ?hs \<union> set (other_bindings st i))"
    by (rule set_all_bindings_update [OF wf]) (simp_all add: st)
  have old: "set (all_bindings st) = insert b (set (other_bindings st i))"
    using set_all_bindings_split [OF wf b] .
  have same: "same_binding b r" if "is_resolved b" "\<not> moving"
    using that moving rebind bok r
    by (auto simp: same_binding_def is_resolved_def rebind_error_def binding_ok_def binding_complete_def
        split: if_splits option.splits)
  have old_ids: "identities_ok tasks (filter is_resolved (b # other_bindings st i))"
    using identities_ok_mset [OF resolved_split [OF wf b] coord_ok_identities [OF ok]] .
  have "identities_ok tasks (filter is_resolved (?hs @ other_bindings st i))"
  proof (cases moving)
    case True
    then show ?thesis using old_ids by simp
  next
    case False
    have "filter is_resolved (b # other_bindings st i) =
        filter is_resolved [b] @ filter is_resolved (other_bindings st i)" by simp
    with old_ids False show ?thesis using identities_ok_subset by auto
  qed
  moreover have "identity_ok tasks r" using r task desc by (auto simp: identity_ok_def)
  moreover have "tb_child_session_id c \<noteq> tb_child_session_id r \<and>
      \<not> (tb_task_id c = tb_task_id r \<and> tb_attempt c = tb_attempt r)"
    if "c \<in> set (filter is_resolved (?hs @ other_bindings st i))" for c
    using that free fresh moving r by (auto simp: identity_taken_others split: if_splits)
  ultimately have new_ids: "identities_ok tasks (r # filter is_resolved (?hs @ other_bindings st i))"
    by (intro identities_ok_Cons) auto
  have new: "mset (resolved_bindings ?st) = mset (r # filter is_resolved (?hs @ other_bindings st i))"
    using resolved_update [OF wf, of ?st i r ?hs] r(1) by (simp add: st is_resolved_def)
  have ids: "identities_ok tasks (resolved_bindings ?st)"
    by (rule identities_ok_mset [OF new [symmetric] new_ids])
  show ?thesis
  proof (rule coord_ok_new_bindings [OF ok st])
    show "length (bt_insert i r (cs_bindings st)) \<le> MAX_BINDINGS"
      using bindings_length [OF ok] wf b by (simp add: bt_length_insert)
    show "length (cs_historical_bindings st @ ?hs) \<le> MAX_HISTORICAL_BINDINGS"
      using historical_length [OF ok] room by auto
    show "\<not> owner_mismatch rt p c"
      if p: "bt_get (cs_wake_policies st) rt = Some p" and c: "c \<in> set (all_bindings ?st)" for rt p c
    proof (cases "c = r")
      case True
      then show ?thesis using p rebind r by (auto simp: owner_mismatch_def rebind_error_def split: if_splits)
    next
      case False
      then show ?thesis using owner_match [OF ok p] c all old by (auto split: if_splits)
    qed
    show "\<exists>b' \<in> set (all_bindings ?st). same_binding c b'"
      if c: "c \<in> set (all_bindings st)" "tb_status c = Resolved" for c
    proof (cases "c = b \<and> \<not> moving")
      case True
      then show ?thesis using same c all by (auto simp: is_resolved_def)
    next
      case False
      then have "c \<in> set (all_bindings ?st)" using c old all by auto
      with c show ?thesis by (auto simp: same_binding_def)
    qed
    show "binding_ok ws tasks j c" if "bt_get (bt_insert i r (cs_bindings st)) j = Some c" for j c
      using that coord_ok_bindings [OF ok, of j] bok r task root
      by (auto simp: binding_ok_def binding_complete_def known_task_def bt_contains_iff task_attempt_def split: if_splits)
    show "historical_ok ws tasks c" if "c \<in> set (cs_historical_bindings st @ ?hs)" for c
      using that coord_ok_historical [OF ok, of c] bok res_b moving
      by (auto simp: historical_ok_def binding_ok_def is_resolved_def split: if_splits)
    show "tb_attempt c = None" if "bt_get (bt_insert i r (cs_bindings st)) j = Some c" "tb_status c \<noteq> Resolved" for j c
      using that unresolved_no_attempt [OF ok, of j] r by (auto split: if_splits)
  qed (use wf ids in auto)
qed

section \<open>Wake policies\<close>

lemma no_policy_no_lease:
  assumes ok: "coord_ok W enc ws tasks st" and none: "bt_get (cs_wake_policies st) root = None"
  shows "lease_count st root = 0" "bt_get (cs_counters st) root = None"
proof -
  have wf: "bt_wf (cs_wake_leases st)" using coord_okW [OF ok] by (simp add: coord_wf_def)
  have "wl_root_task_id l \<noteq> root" if l: "l \<in> set (bt_values (cs_wake_leases st))" for l
  proof -
    obtain j where "bt_get (cs_wake_leases st) j = Some l" using l by (auto simp: in_bt_values_iff [OF wf])
    from coord_ok_leases [OF ok this] none show ?thesis by (auto simp: lease_ok_def)
  qed
  then show "lease_count st root = 0" by (auto simp: lease_count_def filter_empty_conv)
  show "bt_get (cs_counters st) root = None"
    using coord_ok_counters [OF ok, of root] none by (cases "bt_get (cs_counters st) root") (auto simp: counters_ok_def)
qed

lemma late_owner_match:
  assumes ok: "coord_ok W enc ws tasks st"
    and late: "\<forall>t \<in> set (wp_required_task_ids p). \<not> late_owner_mismatch st tasks p t"
    and c: "c \<in> set (all_bindings st)"
  shows "\<not> owner_mismatch (wp_root_task_id p) p c"
proof
  assume m: "owner_mismatch (wp_root_task_id p) p c"
  then have "c \<in> set (resolved_bindings st)" using c by (simp add: owner_mismatch_def resolved_bindings_def)
  then have "identity_ok tasks c" using coord_ok_identities [OF ok] by (simp add: identities_ok_def)
  with m late c show False
    by (auto simp: owner_mismatch_def late_owner_mismatch_def list_ex_iff identity_ok_def)
qed

lemma coord_ok_new_policy:
  assumes ok: "coord_ok {} enc ws tasks st" and none: "bt_get (cs_wake_policies st) (wp_root_task_id p) = None"
    and p: "validate_wake_policy p tasks = Ok ()" "wp_reserved_wakes p = 0"
    and late: "\<forall>t \<in> set (wp_required_task_ids p). \<not> late_owner_mismatch st tasks p t"
  shows "coord_ok {} enc ws tasks
    (st\<lparr>cs_wake_policies := bt_insert (wp_root_task_id p) p (cs_wake_policies st)\<rparr>)" (is "coord_ok _ _ _ _ ?st")
proof -
  note nl = no_policy_no_lease [OF ok none]
  have wf: "bt_wf (cs_wake_policies st)" using coord_okW [OF ok] by (simp add: coord_wf_def)
  have stored: "stored_ok enc st ws tasks ev \<Longrightarrow> stored_ok enc ?st ws tasks ev" for ev
    using none by (auto simp: stored_ok_def event_policy_ok_def event_bound_def all_bindings_def)
  have q: "queued_events ?st = queued_events st" by (simp add: queued_events_def pending_events_def)
  have pol: "policy_ok ?st tasks r q" if "bt_get (cs_wake_policies ?st) r = Some q" for r q
  proof (cases "r = wp_root_task_id p")
    case True
    then have "q = p" using that by simp
    with True p nl late_owner_match [OF ok late] show ?thesis
      by (auto simp: policy_ok_def lease_count_def all_bindings_def)
  next
    case False
    then show ?thesis
      using that coord_ok_policies [OF ok, of r q] by (auto simp: policy_ok_def lease_count_def all_bindings_def)
  qed
  show ?thesis
  proof (rule coord_okI)
    show "coord_extra ?st" using coord_okX [OF ok] by (simp add: coord_extra_def)
    have "bt_contains tasks r" if "bt_get (cs_wake_policies ?st) r = Some q" for r q
      using pol [OF that] validate_wake_policy_facts(1) [of q tasks] by (auto simp: policy_ok_def)
    then show "bounds_ok ?st"
      using coord_ok_bounds [OF ok] counters_length [OF coord_okT [OF ok] bt_wf_insert [OF wf], of "wp_root_task_id p" p]
      by (auto simp: bounds_ok_def)
    show "events_slack {} enc ?st ws tasks"
      using coord_ok_events [OF ok] stored by (auto simp: events_slack_def q buffer_slack_def)
    show "totals_ok enc ?st" using coord_ok_totals [OF ok] by (simp add: totals_ok_def q)
    show "lease_ok ?st tasks j l" if "bt_get (cs_wake_leases ?st) j = Some l" for j l
      using coord_ok_leases [OF ok, of j l] that none
      by (auto simp: lease_ok_def receipt_missing_def cong: option.case_cong)
    show "counters_ok ?st tasks r c" if "bt_get (cs_counters ?st) r = Some c" for r c
      using coord_ok_counters [OF ok, of r c] that none by (auto simp: counters_ok_def)
    show "receipt_ok enc ?st ws tasks t ev" if "bt_get (cs_completion_receipts ?st) t = Some ev" for t ev
      using coord_ok_receipts [OF ok, of t ev] that stored by (simp add: receipt_ok_def)
    show "identities_ok tasks (resolved_bindings ?st)"
      using coord_ok_identities [OF ok] by (simp add: resolved_bindings_def all_bindings_def)
    show "coord_wf ?st" using coord_okW [OF ok] by (simp add: coord_wf_def)
  qed (use coord_okT [OF ok] coord_ok_cursors [OF ok] coord_ok_bindings [OF ok] coord_ok_historical [OF ok] pol in auto)
qed

section \<open>Wake leases\<close>

lemma lease_count_mset:
  "lease_count st root = size (filter_mset (\<lambda>kv. wl_root_task_id (snd kv) = root) (mset (cs_wake_leases st)))"
proof -
  have "filter (\<lambda>l. wl_root_task_id l = root) (map snd m) = map snd (filter (\<lambda>kv. wl_root_task_id (snd kv) = root) m)"
    for m :: "(string \<times> owner_wake_lease) list"
    by (induction m) auto
  then show ?thesis by (simp add: lease_count_def bt_values_def flip: size_mset mset_filter)
qed

lemma lease_count_fresh:
  assumes "bt_wf (cs_wake_leases st)" "bt_get (cs_wake_leases st) i = None"
    "cs_wake_leases st' = bt_insert i l (cs_wake_leases st)"
  shows "lease_count st' root = (if wl_root_task_id l = root then Suc (lease_count st root) else lease_count st root)"
  using assms by (simp add: lease_count_mset mset_bt_insert bt_remove_absent)

lemma lease_count_update:
  assumes "bt_wf (cs_wake_leases st)" "bt_get (cs_wake_leases st) i = Some l" "wl_root_task_id l' = wl_root_task_id l"
    "cs_wake_leases st' = bt_insert i l' (cs_wake_leases st)"
  shows "lease_count st' root = lease_count st root"
  unfolding lease_count_mset assms(4) mset_bt_insert [OF assms(1)] mset_bt_split [OF assms(1,2)]
  using assms(3) by simp

lemma one_lease_per_root:
  assumes ok: "coord_ok W enc ws tasks st"
    and l: "bt_get (cs_wake_leases st) i = Some l" "bt_get (cs_wake_leases st) j = Some k"
    and root: "wl_root_task_id l = wl_root_task_id k"
  shows "i = j"
proof (rule ccontr)
  assume ne: "i \<noteq> j"
  have wf: "bt_wf (cs_wake_leases st)" using coord_okW [OF ok] by (simp add: coord_wf_def)
  have "bt_get (bt_remove i (cs_wake_leases st)) j = Some k" using l(2) ne by simp
  then obtain R where "mset (cs_wake_leases st) = add_mset (i, l) (add_mset (j, k) R)"
    using mset_bt_split [OF wf l(1)] mset_bt_split [OF bt_wf_remove [OF wf]] by metis
  then have "2 \<le> lease_count st (wl_root_task_id k)" using root by (simp add: lease_count_mset)
  moreover obtain p where p: "bt_get (cs_wake_policies st) (wl_root_task_id k) = Some p"
    using coord_ok_leases [OF ok l(2)] by (auto simp: lease_ok_def)
  ultimately show False
    using coord_ok_policies [OF ok p] validate_wake_policy_facts(3) [of p tasks] by (auto simp: policy_ok_def)
qed

lemma leases_length:
  assumes ok: "coord_ok W enc ws tasks st"
    and wf: "bt_wf m" and roots: "\<And>i l. bt_get m i = Some l \<Longrightarrow> bt_contains tasks (wl_root_task_id l)"
    and inj: "\<And>i j l k. bt_get m i = Some l \<Longrightarrow> bt_get m j = Some k \<Longrightarrow> wl_root_task_id l = wl_root_task_id k \<Longrightarrow> i = j"
  shows "length m \<le> MAX_TASKS"
proof -
  let ?f = "\<lambda>i. wl_root_task_id (the (bt_get m i))"
  have "inj_on ?f (dom (bt_get m))" using inj by (auto simp: inj_on_def)
  moreover have "?f ` dom (bt_get m) \<subseteq> dom (bt_get tasks)" using roots by (auto simp: bt_contains_iff)
  ultimately have "card (dom (bt_get m)) \<le> card (dom (bt_get tasks))" by (rule card_inj_on_le) simp
  then show ?thesis
    using bt_length_card [OF wf] bt_length_card [of tasks] coord_okT [OF ok] by (simp add: table_ok_def)
qed

lemma lease_event_step_Ok:
  "lease_event_step i seen = Inr seen' \<longleftrightarrow> text_ok 128 i \<and> i \<notin> set seen \<and> seen' = i # seen"
  by (auto simp: lease_event_step_def validate_identifier_def text_ok_def)

lemma thread_lease_events:
  "(\<exists>seen'. thread lease_event_step ids seen = Inr seen') \<longleftrightarrow>
     (\<forall>i \<in> set ids. text_ok 128 i) \<and> distinct ids \<and> set ids \<inter> set seen = {}"
proof (induction ids arbitrary: seen)
  case Nil
  then show ?case by simp
next
  case (Cons i ids)
  have "(\<exists>seen'. thread lease_event_step (i # ids) seen = Inr seen') \<longleftrightarrow>
      (\<exists>s1. lease_event_step i seen = Inr s1 \<and> (\<exists>seen'. thread lease_event_step ids s1 = Inr seen'))"
    by (simp split: sum.splits)
  then show ?case by (auto simp: lease_event_step_Ok Cons.IH)
qed

definition lease_shape_ok :: "owner_wake_lease \<Rightarrow> bool" where
  "lease_shape_ok l \<longleftrightarrow>
     text_ok 128 (wl_lease_id l) \<and> text_ok 256 (wl_owner_session_id l) \<and> text_ok 256 (wl_owner_turn_id l) \<and>
     wl_event_ids l \<noteq> [] \<and> length (wl_event_ids l) \<le> MAX_REQUIRED_TASKS \<and>
     wl_reserved_at_ms l \<le> wl_expires_at_ms l \<and> wl_expires_at_ms l - wl_reserved_at_ms l \<le> MAX_WAKE_LEASE_MS \<and>
     (\<forall>i \<in> set (wl_event_ids l). text_ok 128 i) \<and> distinct (wl_event_ids l) \<and>
     (\<forall>r. wl_stop_reason l = Some r \<longrightarrow> text_ok MAX_COORDINATION_TEXT_BYTES r)"

lemma validate_wake_lease_Ok: "validate_wake_lease l = Inr u \<longleftrightarrow> lease_shape_ok l"
  using thread_lease_events [of "wl_event_ids l" "[]"]
  by (auto simp: validate_wake_lease_def lease_shape_ok_def not_less split: sum.splits option.splits)

lemma lease_counters_exist:
  assumes ok: "coord_ok W enc ws tasks st" and l: "bt_get (cs_wake_leases st) i = Some l"
  obtains c p where "bt_get (cs_counters st) (wl_root_task_id l) = Some c"
    "bt_get (cs_wake_policies st) (wl_root_task_id l) = Some p" "co_wake_reservations c = 1" "wp_reserved_wakes p = 1"
proof -
  obtain p where p: "bt_get (cs_wake_policies st) (wl_root_task_id l) = Some p"
    using coord_ok_leases [OF ok l] by (auto simp: lease_ok_def)
  have pok: "policy_ok st tasks (wl_root_task_id l) p" using coord_ok_policies [OF ok p] .
  have "l \<in> set (bt_values (cs_wake_leases st))" using bt_get_in_values [OF l] .
  then have "0 < lease_count st (wl_root_task_id l)"
    by (auto simp: lease_count_def filter_empty_conv)
  with pok validate_wake_policy_facts(3) [of p tasks] have "wp_reserved_wakes p = 1"
    by (auto simp: policy_ok_def)
  with pok p that show ?thesis by (auto simp: policy_ok_def)
qed

lemma bt_insert_same: "bt_wf m \<Longrightarrow> bt_get m k = Some v \<Longrightarrow> bt_insert k v m = m"
proof (induction m)
  case (Cons kv m)
  obtain k' v' where kv: "kv = (k', v')" by fastforce
  have gt: "\<forall>x \<in> set m. k' < fst x" and wf: "bt_wf m" using Cons.prems by (auto simp: kv bt_wf_def)
  have "\<not> k < k'" using Cons.prems(2) gt by (auto simp: kv bt_get_def split: if_splits dest!: map_of_SomeD)
  then show ?case using Cons.IH [OF wf] Cons.prems(2) by (auto simp: kv bt_get_def)
qed simp

text \<open>A lease moves to another state, and the counters of its root with it.\<close>

lemma coord_ok_lease_state:
  assumes ok: "coord_ok {} enc ws tasks st" and l: "bt_get (cs_wake_leases st) i = Some l"
    and l': "l' = l\<lparr>wl_state := s, wl_stop_reason := why\<rparr>"
    and why: "\<And>r. why = Some r \<Longrightarrow> text_ok MAX_COORDINATION_TEXT_BYTES r"
    and active: "\<not> lease_terminal s \<Longrightarrow> \<not> lease_terminal (wl_state l)"
    and c: "bt_get (cs_counters st) (wl_root_task_id l) = Some c"
    and c': "co_wake_reservations c' = co_wake_reservations c" "co_wake_dispatches c' \<le> co_wake_reservations c"
      "co_unknown_wake_outcomes c' \<le> co_wake_reservations c" "co_accepted_events c' = co_accepted_events c"
      "co_accepted_event_bytes c' = co_accepted_event_bytes c" "lease_extra l' c'"
    and reason: "\<And>r. co_stop_reason c' = Some r \<Longrightarrow> co_stop_reason c = Some r \<or> length r \<le> MAX_COORDINATION_TEXT_BYTES"
  shows "coord_ok {} enc ws tasks
    (st\<lparr>cs_wake_leases := bt_insert i l' (cs_wake_leases st),
        cs_counters := bt_insert (wl_root_task_id l) c' (cs_counters st)\<rparr>)" (is "coord_ok _ _ _ _ ?st")
proof -
  let ?root = "wl_root_task_id l"
  have wf: "bt_wf (cs_wake_leases st)" "bt_wf (cs_counters st)" using coord_okW [OF ok] by (simp_all add: coord_wf_def)
  have same: "wl_root_task_id l' = ?root" by (simp add: l')
  have count: "lease_count ?st r = lease_count st r" for r
    by (rule lease_count_update [OF wf(1) l same]) simp
  have q: "queued_events ?st = queued_events st" by (simp add: queued_events_def pending_events_def)
  have stored: "stored_ok enc ?st ws tasks = stored_ok enc st ws tasks"
    by (rule stored_ok_same) simp_all
  have cok: "counters_ok st tasks ?root c" using coord_ok_counters [OF ok c] .
  show ?thesis
  proof (rule coord_okI)
    have "lease_extra k (bt_get_or default_counters (bt_insert ?root c' (cs_counters st)) (wl_root_task_id k))"
      if k: "bt_get (bt_insert i l' (cs_wake_leases st)) j = Some k" for j k
    proof (cases "j = i")
      case True
      then show ?thesis using k c'(6) same by (simp add: bt_get_or_def)
    next
      case False
      then have k': "bt_get (cs_wake_leases st) j = Some k" using k by simp
      then have "wl_root_task_id k \<noteq> ?root" using one_lease_per_root [OF ok k' l] False by auto
      with k' coord_okX [OF ok] show ?thesis by (simp add: coord_extra_def bt_get_or_def)
    qed
    then show "coord_extra ?st" using coord_okX [OF ok] by (auto simp: coord_extra_def)
    show "bounds_ok ?st"
      using coord_ok_bounds [OF ok] wf l c by (simp add: bounds_ok_def bt_length_insert)
    show "events_slack {} enc ?st ws tasks"
      using coord_ok_events [OF ok] by (simp add: events_slack_def q stored buffer_slack_def)
    show "totals_ok enc ?st" using coord_ok_totals [OF ok] by (simp add: totals_ok_def q)
    show "policy_ok ?st tasks r p" if "bt_get (cs_wake_policies ?st) r = Some p" for r p
      using coord_ok_policies [OF ok, of r p] that c c'(1) by (auto simp: policy_ok_def count all_bindings_def)
    show "lease_ok ?st tasks j k" if k: "bt_get (cs_wake_leases ?st) j = Some k" for j k
    proof (cases "j = i")
      case True
      have "lease_shape_ok l" using coord_ok_leases [OF ok l] by (simp add: lease_ok_def validate_wake_lease_Ok)
      then have "lease_shape_ok l'" using why by (auto simp: lease_shape_ok_def l')
      with True k coord_ok_leases [OF ok l] active show ?thesis
        by (auto simp: lease_ok_def validate_wake_lease_Ok l' receipt_missing_def cong: option.case_cong)
    next
      case False
      then show ?thesis
        using k coord_ok_leases [OF ok, of j k] by (simp add: lease_ok_def receipt_missing_def cong: option.case_cong)
    qed
    show "counters_ok ?st tasks r d" if d: "bt_get (cs_counters ?st) r = Some d" for r d
    proof (cases "r = ?root")
      case True
      then show ?thesis using d cok c' reason by (auto simp: counters_ok_def)
    next
      case False
      then show ?thesis using d coord_ok_counters [OF ok, of r d] by (simp add: counters_ok_def)
    qed
    show "receipt_ok enc ?st ws tasks t ev" if "bt_get (cs_completion_receipts ?st) t = Some ev" for t ev
      using coord_ok_receipts [OF ok, of t ev] that by (simp add: receipt_ok_def stored)
    show "identities_ok tasks (resolved_bindings ?st)"
      using coord_ok_identities [OF ok] by (simp add: resolved_bindings_def all_bindings_def)
    show "coord_wf ?st" using coord_okW [OF ok] by (simp add: coord_wf_def)
  qed (use coord_okT [OF ok] coord_ok_cursors [OF ok] coord_ok_bindings [OF ok] coord_ok_historical [OF ok] in auto)
qed

text \<open>Reserving the wake of a root: its first lease, on the receipts of all its required tasks.\<close>

lemma reserve_fresh:
  assumes ok: "coord_ok W enc ws tasks st" and p: "bt_get (cs_wake_policies st) root = Some p"
    and free: "wp_reserved_wakes p < wp_max_owner_wakes p"
  shows "wp_reserved_wakes p = 0" "lease_count st root = 0"
    "co_wake_reservations (bt_get_or default_counters (cs_counters st) root) = 0"
    "co_wake_dispatches (bt_get_or default_counters (cs_counters st) root) = 0"
    "co_unknown_wake_outcomes (bt_get_or default_counters (cs_counters st) root) = 0"
proof -
  have "policy_ok st tasks root p" using coord_ok_policies [OF ok p] .
  moreover from this show r: "wp_reserved_wakes p = 0"
    using free validate_wake_policy_facts(2) [of p tasks] by (simp add: policy_ok_def)
  ultimately show "lease_count st root = 0" by (auto simp: policy_ok_def)
  have "counters_ok st tasks root (bt_get_or default_counters (cs_counters st) root)"
    using counters_or_ok [OF ok p] .
  then show "co_wake_reservations (bt_get_or default_counters (cs_counters st) root) = 0"
    "co_wake_dispatches (bt_get_or default_counters (cs_counters st) root) = 0"
    "co_unknown_wake_outcomes (bt_get_or default_counters (cs_counters st) root) = 0"
    using r p by (auto simp: counters_ok_def)
qed

lemma no_lease_of_root:
  assumes "lease_count st root = 0" "bt_get (cs_wake_leases st) j = Some k"
  shows "wl_root_task_id k \<noteq> root"
  using assms bt_get_in_values [OF assms(2)] by (auto simp: lease_count_def filter_empty_conv)

lemma coord_ok_record_lease:
  fixes l st
  defines "root \<equiv> wl_root_task_id l"
  assumes ok: "coord_ok {} enc ws tasks st" and p: "bt_get (cs_wake_policies st) root = Some p"
    and free: "wp_reserved_wakes p < wp_max_owner_wakes p"
    and fresh: "bt_get (cs_wake_leases st) (wl_lease_id l) = None"
    and shape: "lease_shape_ok l" "wl_state l = Reserved" "wl_owner_session_id l = wp_owner_session_id p"
      "wl_owner_turn_id l = wp_owner_turn_id p" "length (wl_event_ids l) = length (wp_required_task_ids p)"
      "\<forall>t \<in> set (wp_required_task_ids p). \<not> receipt_missing st tasks l t"
  shows "coord_ok {} enc ws tasks (record_lease l st)" (is "coord_ok _ _ _ _ ?st")
proof -
  let ?p = "p\<lparr>wp_reserved_wakes := 1\<rparr>"
  let ?c = "bt_get_or default_counters (cs_counters st) root"
  let ?c' = "?c\<lparr>co_wake_reservations := 1\<rparr>"
  note zero = reserve_fresh [OF ok p free]
  have wf: "bt_wf (cs_wake_leases st)" "bt_wf (cs_counters st)" "bt_wf (cs_wake_policies st)"
    using coord_okW [OF ok] by (simp_all add: coord_wf_def)
  have st: "?st = st\<lparr>cs_wake_leases := bt_insert (wl_lease_id l) l (cs_wake_leases st),
      cs_wake_policies := bt_insert root ?p (cs_wake_policies st),
      cs_counters := bt_insert root ?c' (cs_counters st)\<rparr>"
    using p zero by (simp add: record_lease_def adjust_counters_def bt_entry_def bt_adjust_def
        root_def [symmetric] nat_saturating_add_def u32_max_def)
  have count: "lease_count ?st r = (if r = root then 1 else lease_count st r)" for r
    using lease_count_fresh [OF wf(1) fresh, of ?st l r] zero(2) by (auto simp: st root_def)
  have q: "queued_events ?st = queued_events st" by (simp add: st queued_events_def pending_events_def)
  have all: "all_bindings ?st = all_bindings st" by (simp add: st all_bindings_def)
  have stored: "stored_ok enc ?st ws tasks ev" if "stored_ok enc st ws tasks ev" for ev
    using that p by (auto simp: stored_ok_def event_policy_ok_def event_bound_def all_bindings_def st)
  have cok: "counters_ok st tasks root ?c" using counters_or_ok [OF ok p] .
  have pok: "policy_ok st tasks root p" using coord_ok_policies [OF ok p] .
  have lease: "lease_ok ?st tasks j k" if k: "bt_get (cs_wake_leases ?st) j = Some k" for j k
  proof (cases "j = wl_lease_id l")
    case True
    with k have "k = l" by (simp add: st)
    moreover have "bt_contains tasks root" using cok by (simp add: counters_ok_def)
    ultimately show ?thesis
      using True shape p
      by (auto simp: lease_ok_def validate_wake_lease_Ok st root_def [symmetric] receipt_missing_def
          cong: option.case_cong)
  next
    case False
    then have k': "bt_get (cs_wake_leases st) j = Some k" using k by (simp add: st)
    then have "wl_root_task_id k \<noteq> root" using no_lease_of_root [OF zero(2)] by blast
    then show ?thesis
      using coord_ok_leases [OF ok k'] by (simp add: lease_ok_def receipt_missing_def st cong: option.case_cong)
  qed
  have counters: "cs_counters ?st = bt_insert root ?c' (cs_counters st)"
    and policies: "cs_wake_policies ?st = bt_insert root ?p (cs_wake_policies st)"
    and kept: "cs_out_of_order ?st = cs_out_of_order st" "cs_stream_cursors ?st = cs_stream_cursors st"
      "cs_completion_receipts ?st = cs_completion_receipts st" "cs_bindings ?st = cs_bindings st"
      "cs_historical_bindings ?st = cs_historical_bindings st"
    by (simp_all add: st)
  have mismatch: "owner_mismatch rt ?p b = owner_mismatch rt p b" for rt b
    by (simp add: owner_mismatch_def cong: option.case_cong)
  have pol: "policy_ok ?st tasks r pr" if "bt_get (cs_wake_policies ?st) r = Some pr" for r pr
  proof (cases "r = root")
    case True
    then have pr: "pr = ?p" using that by (simp add: policies)
    show ?thesis
      using True pok validate_wake_policy_reserved [of p tasks 1] unfolding pr
      by (auto simp: policy_ok_def count all counters mismatch simp del: One_nat_def)
  next
    case False
    then show ?thesis
      using that coord_ok_policies [OF ok, of r pr] by (auto simp: policy_ok_def count all counters policies)
  qed
  show ?thesis
  proof (rule coord_okI)
    have "lease_extra k (bt_get_or default_counters (bt_insert root ?c' (cs_counters st)) (wl_root_task_id k))"
      if k: "bt_get (bt_insert (wl_lease_id l) l (cs_wake_leases st)) j = Some k" for j k
    proof (cases "j = wl_lease_id l")
      case True
      then show ?thesis using k zero by (simp add: bt_get_or_def root_def lease_extra_def)
    next
      case False
      then have k': "bt_get (cs_wake_leases st) j = Some k" using k by simp
      then have "wl_root_task_id k \<noteq> root" using no_lease_of_root [OF zero(2)] by blast
      with k' coord_okX [OF ok] show ?thesis by (simp add: coord_extra_def bt_get_or_def)
    qed
    then show "coord_extra ?st" using coord_okX [OF ok] by (auto simp: coord_extra_def st)
    have "length (cs_wake_leases ?st) \<le> MAX_TASKS"
    proof (rule leases_length [OF ok])
      show "i = j" if "bt_get (cs_wake_leases ?st) i = Some a" "bt_get (cs_wake_leases ?st) j = Some b"
        "wl_root_task_id a = wl_root_task_id b" for i j a b
        using that one_lease_per_root [OF ok, of i a j b] no_lease_of_root [OF zero(2)]
        by (auto simp: st root_def split: if_splits)
      show "bt_contains tasks (wl_root_task_id a)" if "bt_get (cs_wake_leases ?st) i = Some a" for i a
        using lease [OF that] by (simp add: lease_ok_def)
      show "bt_wf (cs_wake_leases ?st)" using wf by (simp add: st)
    qed
    moreover have "length (cs_counters ?st) \<le> MAX_TASKS"
      using coord_ok_counters [OF ok] cok wf
      by (intro counters_length [OF coord_okT [OF ok]]) (auto simp: st counters_ok_def split: if_splits)
    ultimately show "bounds_ok ?st"
      using coord_ok_bounds [OF ok] wf p by (simp add: bounds_ok_def st bt_length_insert)
    show "events_slack {} enc ?st ws tasks"
      using coord_ok_events [OF ok] stored by (auto simp: events_slack_def q buffer_slack_def kept)
    show "totals_ok enc ?st" using coord_ok_totals [OF ok] by (simp add: totals_ok_def q)
    show "counters_ok ?st tasks r d" if d: "bt_get (cs_counters ?st) r = Some d" for r d
    proof (cases "r = root")
      case True
      then show ?thesis using d cok zero p by (auto simp: counters_ok_def st)
    next
      case False
      then show ?thesis using d coord_ok_counters [OF ok, of r d] by (simp add: counters_ok_def st)
    qed
    show "receipt_ok enc ?st ws tasks t ev" if "bt_get (cs_completion_receipts ?st) t = Some ev" for t ev
      using coord_ok_receipts [OF ok, of t ev] that stored by (auto simp: receipt_ok_def kept)
    show "identities_ok tasks (resolved_bindings ?st)"
      using coord_ok_identities [OF ok] by (simp add: resolved_bindings_def all)
    show "coord_wf ?st" using coord_okW [OF ok] by (simp add: coord_wf_def st)
  qed (use coord_okT [OF ok] coord_ok_cursors [OF ok] coord_ok_bindings [OF ok] coord_ok_historical [OF ok] lease pol
      in \<open>auto simp: kept\<close>)
qed

end
