(* ===== verification/Coord_Reload.thy ===== *)
theory Coord_Reload
  imports Coord_Effects
begin

text \<open>
  The coordination operations as one step function, and that those on bindings, policies and the
  inbox keep the invariant of the coordination state.
\<close>

section \<open>Operations\<close>

datatype coord_op =
    BeginBinding task_binding_intent
  | ResolveBinding string task_id task_id nat string string
  | MarkReconciliation string string
  | RegisterPolicy root_wake_policy
  | AppendEvent task_inbox_event
  | AcknowledgeEvent string
  | ReserveWake task_id string nat nat
  | MarkDispatching string nat
  | FinishDispatch string wake_delivery_outcome "string option"
  | ReconcileWake string bool
  | SettleWake string string string
  | Restart

fun coord_step :: "event_encoder \<Rightarrow> task_scheduler \<Rightarrow> checkpoint_io \<times> coord_op \<Rightarrow> task_scheduler" where
  "coord_step enc s (io, BeginBinding i) = snd (begin_task_binding io i s)"
| "coord_step enc s (io, ResolveBinding i root t a child call) = snd (resolve_task_binding io i root t a child call s)"
| "coord_step enc s (io, MarkReconciliation i reason) = snd (mark_binding_reconciliation_required io i reason s)"
| "coord_step enc s (io, RegisterPolicy p) = snd (register_root_wake_policy io p s)"
| "coord_step enc s (io, AppendEvent ev) = snd (append_task_inbox_event io enc ev s)"
| "coord_step enc s (io, AcknowledgeEvent i) = snd (acknowledge_task_inbox_event io i s)"
| "coord_step enc s (io, ReserveWake root i now d) = snd (reserve_owner_wake io root i now d s)"
| "coord_step enc s (io, MarkDispatching i now) = snd (mark_owner_wake_dispatching io i now s)"
| "coord_step enc s (io, FinishDispatch i d reason) = snd (finish_owner_wake_dispatch io i d reason s)"
| "coord_step enc s (io, ReconcileWake i d) = snd (reconcile_owner_wake io i d s)"
| "coord_step enc s (io, SettleWake i o_s o_t) = snd (settle_owner_wake io i o_s o_t s)"
| "coord_step enc s (io, Restart) = snd (restart_coordination io enc s)"

text \<open>
  The operations that keep the checkpoint loadable: a retried attempt brings a child session of
  its own, an event comes from a root with a wake policy, only an unresolved binding is set
  aside for reconciliation, and clock readings are in the range of their type.
\<close>

fun op_admitted :: "task_scheduler \<Rightarrow> checkpoint_io \<times> coord_op \<Rightarrow> bool" where
  "op_admitted s (io, ResolveBinding i root t a child call) \<longleftrightarrow>
     (case bt_get (cs_bindings (ts_coordination s)) i of
        None \<Rightarrow> True
      | Some b \<Rightarrow> (case tb_attempt b of
          None \<Rightarrow> True
        | Some prior \<Rightarrow> prior < a \<longrightarrow> tb_child_session_id b \<noteq> Some child))"
| "op_admitted s (io, MarkReconciliation i reason) \<longleftrightarrow>
     (case bt_get (cs_bindings (ts_coordination s)) i of
        None \<Rightarrow> True
      | Some b \<Rightarrow> tb_status b \<noteq> Resolved)"
| "op_admitted s (io, AppendEvent ev) \<longleftrightarrow>
     bt_contains (cs_wake_policies (ts_coordination s)) (ie_root_task_id ev)"
| "op_admitted s (io, ReserveWake root i now d) \<longleftrightarrow> now \<le> u128_max"
| "op_admitted s (io, _) \<longleftrightarrow> True"

definition sched_ok :: "event_encoder \<Rightarrow> task_scheduler \<Rightarrow> bool" where
  "sched_ok enc s \<longleftrightarrow> coord_ok {} enc (ts_root s) (ts_tasks s) (ts_coordination s)"

lemma persist_keeps [simp]:
  "ts_coordination (snd (persist_checkpoint io s)) = ts_coordination s"
  "ts_root (snd (persist_checkpoint io s)) = ts_root s"
  "ts_tasks (snd (persist_checkpoint io s)) = ts_tasks s"
  by (simp_all add: persist_checkpoint_def split: persist_outcome.splits)

lemma persist_value_keeps [simp]:
  "ts_coordination (snd (persist_ok io v s)) = ts_coordination s"
  "ts_root (snd (persist_ok io v s)) = ts_root s"
  "ts_tasks (snd (persist_ok io v s)) = ts_tasks s"
  "ts_coordination (snd (persist_err io e s)) = ts_coordination s"
  "ts_root (snd (persist_err io e s)) = ts_root s"
  "ts_tasks (snd (persist_err io e s)) = ts_tasks s"
  by (simp_all add: persist_ok_def persist_err_def persist_checkpoint_def split: persist_outcome.splits)

lemma sched_ok_persist [simp]:
  "sched_ok enc (snd (persist_checkpoint io s)) = sched_ok enc s"
  "sched_ok enc (snd (persist_ok io v s)) = sched_ok enc s"
  "sched_ok enc (snd (persist_err io e s)) = sched_ok enc s"
  by (simp_all add: sched_ok_def)

lemma sched_ok_update:
  "sched_ok enc (update_coordination f s) \<longleftrightarrow> coord_ok {} enc (ts_root s) (ts_tasks s) (f (ts_coordination s))"
  by (simp add: sched_ok_def update_coordination_def)

lemma task_record_of_Ok: "task_record_of s t = Inr sn \<longleftrightarrow> (\<exists>r. bt_get (ts_tasks s) t = Some r \<and> sn = tr_snapshot r)"
  by (auto simp: task_record_of_def ok_or_def split: option.splits)

section \<open>Bindings and policies keep the invariant\<close>

lemma sched_ok_begin:
  assumes ok: "sched_ok enc s"
  shows "sched_ok enc (snd (begin_task_binding io i s))"
proof (cases "validate_binding i (ts_root s)")
  case (Inl e)
  then show ?thesis using ok by (simp add: begin_task_binding_def)
next
  case (Inr u)
  let ?b = "\<lparr>tb_version = 1, tb_intent = i, tb_root_task_id = None, tb_task_id = None, tb_attempt = None,
      tb_child_session_id = None, tb_parent_call_id = None, tb_status = Pending, tb_stop_reason = None\<rparr>"
  have "binding_ok (ts_root s) (ts_tasks s) (bi_intent_id i) ?b"
    using Inr by (simp add: binding_ok_def known_task_def)
  then have "coord_ok {} enc (ts_root s) (ts_tasks s)
      (ts_coordination s\<lparr>cs_bindings := bt_insert (bi_intent_id i) ?b (cs_bindings (ts_coordination s))\<rparr>)"
    if "bt_get (cs_bindings (ts_coordination s)) (bi_intent_id i) = None"
      "length (cs_bindings (ts_coordination s)) < MAX_BINDINGS"
    using ok that by (intro coord_ok_begin_binding) (auto simp: sched_ok_def)
  then show ?thesis
    using ok Inr
    by (auto simp: begin_task_binding_def Let_def sched_ok_update not_le split: option.splits)
qed

lemma sched_ok_mark:
  assumes ok: "sched_ok enc s" and adm: "op_admitted s (io, MarkReconciliation i reason)"
  shows "sched_ok enc (snd (mark_binding_reconciliation_required io i reason s))"
  using ok adm coord_ok_set_aside [of enc "ts_root s" "ts_tasks s" "ts_coordination s" i]
  by (auto simp: mark_binding_reconciliation_required_def sched_ok_update sched_ok_def [of enc s]
      split: sum.splits option.splits)

lemma sched_ok_register:
  assumes ok: "sched_ok enc s"
  shows "sched_ok enc (snd (register_root_wake_policy io p s))"
proof -
  have "coord_ok {} enc (ts_root s) (ts_tasks s)
      (ts_coordination s\<lparr>cs_wake_policies := bt_insert (wp_root_task_id p) p (cs_wake_policies (ts_coordination s))\<rparr>)"
    if "wp_reserved_wakes p = 0" "validate_wake_policy p (ts_tasks s) = Inr u"
      "\<not> list_ex (late_owner_mismatch (ts_coordination s) (ts_tasks s) p) (wp_required_task_ids p)"
      "bt_get (cs_wake_policies (ts_coordination s)) (wp_root_task_id p) = None" for u
    using ok that by (intro coord_ok_new_policy) (auto simp: sched_ok_def list_ex_iff)
  then show ?thesis
    using ok
    by (auto simp: register_root_wake_policy_def Let_def sched_ok_update split: sum.splits option.splits)
qed

lemma resolve_cases:
  obtains
    e where "resolve_task_binding io i root t a child call s = (Err e, s)"
  | b task rr where "bt_get (cs_bindings (ts_coordination s)) i = Some b"
      "bt_get (ts_tasks s) t = Some task" "bt_get (ts_tasks s) root = Some rr"
      "task_is_descendant root t (ts_tasks s)" "sn_attempt (tr_snapshot task) = a"
      "\<not> identity_taken (ts_coordination s) i t a child"
      "rebind_error (ts_coordination s) b root t a child call = None"
      "\<not> ((case tb_attempt b of None \<Rightarrow> False | Some x \<Rightarrow> a > x) \<and>
          length (cs_historical_bindings (ts_coordination s)) \<ge> MAX_HISTORICAL_BINDINGS)"
      "resolve_task_binding io i root t a child call s =
         persist_ok io (resolve_binding root t a child call b)
           (update_coordination
             (\<lambda>st. let st1 = (if (case tb_attempt b of None \<Rightarrow> False | Some x \<Rightarrow> a > x)
                             then file_prior_attempt b t a st else st)
                   in st1\<lparr>cs_bindings := bt_insert i (resolve_binding root t a child call b) (cs_bindings st1)\<rparr>) s)"
proof -
  show ?thesis
  proof (cases "\<exists>e. resolve_task_binding io i root t a child call s = (Err e, s)")
    case True
    then show ?thesis using that(1) by blast
  next
    case False
    let ?checks = "all_checks [validate_identifier ''child session ID'' child 256,
         validate_identifier ''parent call ID'' call 256,
         reject_if (a = 0) ''task binding attempt must be nonzero'']"
    from False obtain u where chk: "?checks = Inr u"
      unfolding resolve_task_binding_def by (cases "?checks") auto
    from False obtain task where task: "task_record_of s t = Inr task"
      unfolding resolve_task_binding_def by (auto simp: Let_def split: sum.splits)
    from False task obtain rr where rr: "task_record_of s root = Inr rr"
      unfolding resolve_task_binding_def by (auto simp: Let_def split: sum.splits)
    from False task rr have c: "root \<noteq> t" "task_is_descendant root t (ts_tasks s)" "sn_attempt task = a"
        "\<not> identity_taken (ts_coordination s) i t a child"
      unfolding resolve_task_binding_def by (auto simp: Let_def split: sum.splits if_splits)
    from False task rr c obtain b where b: "bt_get (cs_bindings (ts_coordination s)) i = Some b"
      unfolding resolve_task_binding_def by (auto simp: Let_def split: sum.splits if_splits option.splits)
    from False task rr c b have re: "rebind_error (ts_coordination s) b root t a child call = None"
      unfolding resolve_task_binding_def by (auto simp: Let_def split: sum.splits if_splits option.splits)
    from False task rr c b re have room: "\<not> ((case tb_attempt b of None \<Rightarrow> False | Some x \<Rightarrow> a > x) \<and>
          length (cs_historical_bindings (ts_coordination s)) \<ge> MAX_HISTORICAL_BINDINGS)"
      unfolding resolve_task_binding_def Let_def by (simp split: sum.splits if_splits)
    obtain r r' where r: "bt_get (ts_tasks s) t = Some r" "task = tr_snapshot r" "bt_get (ts_tasks s) root = Some r'"
      using task rr unfolding task_record_of_Ok by blast
    have "resolve_task_binding io i root t a child call s =
         persist_ok io (resolve_binding root t a child call b)
           (update_coordination
             (\<lambda>st. let st1 = (if (case tb_attempt b of None \<Rightarrow> False | Some x \<Rightarrow> a > x)
                             then file_prior_attempt b t a st else st)
                   in st1\<lparr>cs_bindings := bt_insert i (resolve_binding root t a child call b) (cs_bindings st1)\<rparr>) s)"
      unfolding resolve_task_binding_def Let_def chk sum.case task rr b option.case re
      using c room by auto
    with r c b re room show ?thesis by (intro that(2) [of b r r']) simp_all
  qed
qed

lemma sched_ok_resolve:
  assumes ok: "sched_ok enc s" and adm: "op_admitted s (io, ResolveBinding i root t a child call)"
  shows "sched_ok enc (snd (resolve_task_binding io i root t a child call s))"
proof -
  let ?st = "ts_coordination s"
  have "coord_ok {} enc (ts_root s) (ts_tasks s)
      (let st1 = (if moving then file_prior_attempt b t a ?st else ?st)
       in st1\<lparr>cs_bindings := bt_insert i (resolve_binding root t a child call b) (cs_bindings st1)\<rparr>)"
    if b: "bt_get (cs_bindings ?st) i = Some b" and task: "bt_get (ts_tasks s) t = Some task"
      and root: "bt_get (ts_tasks s) root = Some rr" and desc: "task_is_descendant root t (ts_tasks s)"
      and att: "sn_attempt (tr_snapshot task) = a"
      and free: "\<not> identity_taken ?st i t a child" and re: "rebind_error ?st b root t a child call = None"
      and moving: "moving \<longleftrightarrow> (case tb_attempt b of None \<Rightarrow> False | Some x \<Rightarrow> a > x)"
      and room: "\<not> (moving \<and> length (cs_historical_bindings ?st) \<ge> MAX_HISTORICAL_BINDINGS)"
    for b task rr moving
    unfolding Let_def
  proof (rule coord_ok_resolve [where moving = moving])
    show "moving \<Longrightarrow> tb_child_session_id b \<noteq> Some child"
      using adm b moving by (auto split: option.splits)
    show "moving \<longleftrightarrow> (\<exists>x. tb_attempt b = Some x \<and> x < a)" using moving by (auto split: option.splits)
    show "task_attempt (ts_tasks s) t = Some a" using task att by (simp add: task_attempt_def)
    show "bt_contains (ts_tasks s) root" using root by (simp add: bt_contains_iff)
    show "moving \<Longrightarrow> length (cs_historical_bindings ?st) < MAX_HISTORICAL_BINDINGS" using room by auto
  qed (use ok b desc free re in \<open>auto simp: sched_ok_def\<close>)
  note key = this
  show ?thesis
  proof (cases rule: resolve_cases [of io i root t a child call s])
    case (1 e)
    then show ?thesis using ok by simp
  next
    case (2 b task rr)
    then show ?thesis using key [OF 2(1-7) refl 2(8)] by (simp add: sched_ok_update)
  qed
qed

section \<open>The inbox keeps the invariant\<close>

text \<open>An event that has passed the checks before it is placed in its stream.\<close>

definition placeable ::
  "event_encoder \<Rightarrow> task_scheduler \<Rightarrow> root_wake_policy \<Rightarrow> nat \<Rightarrow> task_inbox_event \<Rightarrow> bool" where
  "placeable enc s p bytes ev \<longleftrightarrow>
     (let st = ts_coordination s in
      enc ev = Some bytes \<and> bt_get (cs_wake_policies st) (ie_root_task_id ev) = Some p \<and>
      stored_ok enc st (ts_root s) (ts_tasks s) ev \<and>
      task_attempt (ts_tasks s) (ie_task_id ev) = Some (ie_attempt ev) \<and>
      (\<forall>q \<in> set (queued_events st). ie_event_id q \<noteq> ie_event_id ev) \<and>
      (\<forall>t r. bt_get (cs_completion_receipts st) t = Some r \<longrightarrow> ie_event_id r \<noteq> ie_event_id ev) \<and>
      (ie_kind ev = VerifiedCompletion \<longrightarrow> check_completion ev st = CompletionFresh))"

lemma completion_fresh:
  assumes "check_completion ev st = CompletionFresh"
  shows "\<And>r. bt_get (cs_completion_receipts st) (ie_task_id ev) = Some r \<Longrightarrow> ie_attempt r \<noteq> ie_attempt ev"
    "\<And>q. q \<in> set (queued_events st) \<Longrightarrow> \<not> (ie_task_id q = ie_task_id ev \<and> ie_attempt q = ie_attempt ev \<and>
       ie_kind q = VerifiedCompletion)"
  using assms by (auto simp: check_completion_def list_ex_iff split: option.splits if_splits)

lemma not_full_fits:
  assumes ok: "sched_ok enc s" and nf: "\<not> inbox_full enc bytes (ts_coordination s)"
  shows "length (queued_events (ts_coordination s)) < MAX_INBOX_EVENTS"
    "sum_list (map (\<lambda>ev. the (enc ev)) (queued_events (ts_coordination s))) + bytes \<le> MAX_INBOX_BYTES"
proof -
  let ?st = "ts_coordination s"
  have "\<forall>ev \<in> set (queued_events ?st). stored_ok enc ?st (ts_root s) (ts_tasks s) ev"
    using ok coord_ok_events by (auto simp: sched_ok_def events_slack_def)
  then have "\<forall>ev \<in> set (queued_events ?st). enc ev \<noteq> None"
    using validate_event_enc by (fastforce simp: stored_ok_def)
  from inbox_bytes_eq [OF this] nf
  have "nat_saturating_add u64_max (sat_sum (map (\<lambda>ev. the (enc ev)) (queued_events ?st))) bytes \<le> MAX_INBOX_BYTES"
    by (simp add: inbox_full_def)
  moreover have "MAX_INBOX_BYTES < u64_max" by (simp add: MAX_INBOX_BYTES_def u64_max_def)
  ultimately show "sum_list (map (\<lambda>ev. the (enc ev)) (queued_events ?st)) + bytes \<le> MAX_INBOX_BYTES"
    unfolding nat_saturating_add_def sat_sum_min by linarith
  show "length (queued_events ?st) < MAX_INBOX_EVENTS"
    using nf by (simp add: inbox_full_def length_queued)
qed

lemma placeable_new_event:
  assumes ok: "sched_ok enc s" and pl: "placeable enc s p bytes ev" and nf: "\<not> inbox_full enc bytes (ts_coordination s)"
  shows "new_event enc (ts_root s) (ts_tasks s) (ts_coordination s) ev"
  using pl not_full_fits [OF ok nf] completion_fresh [of ev "ts_coordination s"]
  unfolding new_event_def placeable_def Let_def by (intro conjI) auto

lemma placeable_cursor:
  assumes ok: "sched_ok enc s" and pl: "placeable enc s p bytes ev"
    and n: "n = stream_next (event_stream_id ev) (ts_coordination s)"
  shows "cursor_ok (ts_tasks s) (event_stream_id ev) (fresh_cursor n)" "n \<le> u64_max"
proof -
  have v: "validate_event enc ev (ts_root s) = Inr ()" and ts: "event_task_ok (ts_tasks s) ev"
    using pl by (auto simp: placeable_def stored_ok_def Let_def)
  have ok': "coord_ok {} enc (ts_root s) (ts_tasks s) (ts_coordination s)" using ok by (simp add: sched_ok_def)
  have "n \<noteq> 0 \<and> n \<le> u64_max"
    using coord_ok_cursors [OF ok', of "event_stream_id ev"] cursor_range [OF ok', of "event_stream_id ev"] n
    by (auto simp: stream_next_def cursor_ok_def u64_max_def split: option.splits)
  then show "n \<le> u64_max" "cursor_ok (ts_tasks s) (event_stream_id ev) (fresh_cursor n)"
    using validate_event_facts [OF v] ts
    by (auto simp: cursor_ok_def fresh_cursor_def event_stream_id_def validate_stream_id_def event_task_ok_def task_attempt_def)
qed

lemma sched_ok_stop:
  assumes ok: "sched_ok enc s" and p: "bt_get (cs_wake_policies (ts_coordination s)) root = Some p"
    and len: "length reason \<le> MAX_COORDINATION_TEXT_BYTES"
  shows "sched_ok enc (update_coordination (stop_with root reason) s)"
  unfolding sched_ok_update using coord_ok_stop_with [OF ok [unfolded sched_ok_def] p len] .

lemma sched_ok_refuse:
  assumes "sched_ok enc s" "bt_get (cs_wake_policies (ts_coordination s)) (ie_root_task_id ev) = Some p"
  shows "sched_ok enc (snd (refuse_full io ev s))" "sched_ok enc (snd (refuse_budget io ev s))"
  unfolding refuse_full_def refuse_budget_def
  using sched_ok_stop [OF assms] by (simp_all add: MAX_COORDINATION_TEXT_BYTES_def)

lemma sched_ok_note:
  assumes ok: "sched_ok enc s" and p: "bt_get (cs_wake_policies (ts_coordination s)) root = Some p"
  shows "sched_ok enc (snd (note_stale_event io root s))" "sched_ok enc (snd (note_duplicate_event io root s))"
  unfolding note_stale_event_def note_duplicate_event_def sched_ok_persist sched_ok_update
  by (rule coord_ok_note [OF ok [unfolded sched_ok_def] p]; simp add: same_wakes_def)+

lemma coord_ok_count:
  assumes ok: "coord_ok W enc ws tasks st" and p: "bt_get (cs_wake_policies st) (ie_root_task_id ev) = Some p"
    and budget: "\<not> over_event_budget p bytes ev st"
  shows "coord_ok W enc ws tasks (count_accepted_event bytes ev st)"
  unfolding count_accepted_event_def
proof (rule coord_ok_adjust_counters [OF ok p])
  fix c assume "c = bt_get_or default_counters (cs_counters st) (ie_root_task_id ev)"
  with budget show "co_accepted_events (c\<lparr>co_accepted_events := nat_saturating_add u64_max (co_accepted_events c) 1,
        co_accepted_event_bytes := nat_saturating_add u64_max (co_accepted_event_bytes c) bytes\<rparr>) \<le> wp_max_events p \<and>
      co_accepted_event_bytes (c\<lparr>co_accepted_events := nat_saturating_add u64_max (co_accepted_events c) 1,
        co_accepted_event_bytes := nat_saturating_add u64_max (co_accepted_event_bytes c) bytes\<rparr>) \<le> wp_max_event_bytes p"
    by (auto simp: over_event_budget_def Let_def nat_saturating_add_def)
qed (auto simp: same_wakes_def)

lemma new_event_mark_gap:
  "new_event enc ws tasks (mark_gap k n obs st) ev \<longleftrightarrow> new_event enc ws tasks st ev"
proof -
  have "stored_ok enc (mark_gap k n obs st) ws tasks = stored_ok enc st ws tasks"
    by (rule stored_ok_same) (simp_all add: mark_gap_def)
  moreover have "queued_events (mark_gap k n obs st) = queued_events st"
    by (simp add: mark_gap_def queued_events_def pending_events_def)
  ultimately show ?thesis by (simp add: new_event_def mark_gap_def)
qed

lemma sched_ok_append_ahead:
  assumes ok: "sched_ok enc s" and pl: "placeable enc s p bytes ev"
    and n: "n = stream_next (event_stream_id ev) (ts_coordination s)" "n < ie_sequence ev"
    and room: "bt_contains (cs_stream_cursors (ts_coordination s)) (event_stream_id ev) \<or>
      length (cs_stream_cursors (ts_coordination s)) < MAX_EVENT_STREAMS"
  shows "sched_ok enc (snd (append_ahead io enc p bytes n ev s))"
proof -
  let ?st = "ts_coordination s" and ?k = "event_stream_id ev"
  let ?g = "mark_gap ?k n (ie_observed_at_ms ev) ?st"
  let ?pending = "bt_get_or [] (cs_out_of_order ?st) ?k"
  have ok': "coord_ok {} enc (ts_root s) (ts_tasks s) ?st" using ok by (simp add: sched_ok_def)
  have p: "bt_get (cs_wake_policies ?st) (ie_root_task_id ev) = Some p" using pl by (simp add: placeable_def Let_def)
  have gap: "coord_ok {} enc (ts_root s) (ts_tasks s) ?g"
    by (rule coord_ok_mark_gap [OF ok' placeable_cursor [OF ok pl n(1)] room])
  have far: "coord_ok {} enc (ts_root s) (ts_tasks s) (stop_with (ie_root_task_id ev) RECONCILE_GAP ?g)"
    using p by (intro coord_ok_stop_with [OF gap]) (simp_all add: mark_gap_def RECONCILE_GAP_def MAX_COORDINATION_TEXT_BYTES_def)
  have near: "coord_ok {} enc (ts_root s) (ts_tasks s)
      (stop_with (ie_root_task_id ev) AWAITING_GAP (count_accepted_event bytes ev (buffer_event ?k ev ?g)))"
    if "ie_sequence ev - n \<le> MAX_REORDER_DISTANCE" "bt_get ?pending (ie_sequence ev) = None"
      "length ?pending < MAX_REORDERED_EVENTS_PER_STREAM" "\<not> inbox_full enc bytes ?st" "\<not> over_event_budget p bytes ev ?st"
  proof -
    have cu: "bt_get (cs_stream_cursors ?g) ?k = Some ((bt_get_or (fresh_cursor n) (cs_stream_cursors ?st) ?k)
        \<lparr>cu_gap_detected_at_ms := Some (ie_observed_at_ms ev)\<rparr>)"
      by (simp add: mark_gap_def)
    have nx: "cu_next_sequence (bt_get_or (fresh_cursor n) (cs_stream_cursors ?st) ?k) = n"
      using n(1) by (simp add: stream_next_def bt_get_or_def fresh_cursor_def split: option.splits)
    have ne: "new_event enc (ts_root s) (ts_tasks s) ?g ev"
      using placeable_new_event [OF ok pl that(4)] by (simp only: new_event_mark_gap)
    have "coord_ok {} enc (ts_root s) (ts_tasks s) (buffer_event ?k ev ?g)"
      using that n(2) nx by (intro coord_ok_buffer_event [OF gap ne cu]) (simp_all add: mark_gap_def)
    then have "coord_ok {} enc (ts_root s) (ts_tasks s) (count_accepted_event bytes ev (buffer_event ?k ev ?g))"
      by (rule coord_ok_count) (use p that(5) in \<open>simp_all add: buffer_event_def mark_gap_def over_event_budget_def\<close>)
    then show ?thesis
      by (rule coord_ok_stop_with)
        (use p in \<open>simp_all add: count_accepted_event_def adjust_counters_def buffer_event_def mark_gap_def
          AWAITING_GAP_def MAX_COORDINATION_TEXT_BYTES_def\<close>)
  qed
  have comm: "mark_gap ?k n obs (count_accepted_event bytes ev (buffer_event ?k ev st)) =
      count_accepted_event bytes ev (buffer_event ?k ev (mark_gap ?k n obs st))" for obs st
    by (simp add: mark_gap_def count_accepted_event_def adjust_counters_def buffer_event_def)
  show ?thesis
    using ok far near sched_ok_refuse [OF ok p]
    by (auto simp: append_ahead_def Let_def sched_ok_update comm not_less not_le split: option.splits)
qed

lemma sched_ok_append_next:
  assumes ok: "sched_ok enc s" and pl: "placeable enc s p bytes ev"
    and n: "ie_sequence ev = stream_next (event_stream_id ev) (ts_coordination s)"
    and room: "bt_contains (cs_stream_cursors (ts_coordination s)) (event_stream_id ev) \<or>
      length (cs_stream_cursors (ts_coordination s)) < MAX_EVENT_STREAMS"
  shows "sched_ok enc (snd (append_next io enc p bytes ev s))"
proof -
  let ?st = "ts_coordination s" and ?k = "event_stream_id ev"
  let ?cu = "bt_get_or (fresh_cursor 1) (cs_stream_cursors ?st) ?k"
  let ?cursors = "bt_insert ?k (next_cursor ?cu) (cs_stream_cursors ?st)"
  have ok': "coord_ok {} enc (ts_root s) (ts_tasks s) ?st" using ok by (simp add: sched_ok_def)
  have p: "bt_get (cs_wake_policies ?st) (ie_root_task_id ev) = Some p"
    and cur: "task_attempt (ts_tasks s) (ie_task_id ev) = Some (ie_attempt ev)"
    and stored: "stored_ok enc ?st (ts_root s) (ts_tasks s) ev"
    using pl by (auto simp: placeable_def Let_def)
  have seq: "cu_next_sequence ?cu = ie_sequence ev"
    using n by (simp add: stream_next_def bt_get_or_def fresh_cursor_def split: option.splits)
  have cok: "cursor_ok (ts_tasks s) ?k ?cu"
    using placeable_cursor(1) [OF ok pl refl] n seq by (simp add: cursor_ok_def fresh_cursor_def)
  have enq: "enqueue_in_order bytes ev ?st =
      (Ok (), project_event_stop_reason ev (count_accepted_event bytes ev (deliver ev (?st\<lparr>cs_stream_cursors := ?cursors\<rparr>))))"
  proof -
    have "cs_stream_cursors (count_accepted_event bytes ev ?st) = cs_stream_cursors ?st"
      by (simp add: count_accepted_event_def adjust_counters_def)
    moreover have "deliver ev ((count_accepted_event bytes ev ?st)\<lparr>cs_stream_cursors := c\<rparr>) =
        count_accepted_event bytes ev (deliver ev (?st\<lparr>cs_stream_cursors := c\<rparr>))" for c
      by (simp add: count_accepted_event_def adjust_counters_def deliver_def push_inbox_def file_completion_def)
    ultimately show ?thesis
      using seq by (simp add: enqueue_in_order_def Let_def project_deliver)
  qed
  have "coord_ok {} enc (ts_root s) (ts_tasks s)
      (promote_contiguous_pending ?k (snd (enqueue_in_order bytes ev ?st)))"
    if nf: "\<not> over_event_budget p bytes ev ?st" "\<not> inbox_full enc bytes ?st"
  proof -
    let ?d = "deliver ev (?st\<lparr>cs_stream_cursors := ?cursors\<rparr>)"
    have "coord_ok {?k} enc (ts_root s) (ts_tasks s) ?d"
      by (rule coord_ok_enqueue [OF ok' placeable_new_event [OF ok pl nf(2)] refl refl cok room cur])
    then have c: "coord_ok {?k} enc (ts_root s) (ts_tasks s) (count_accepted_event bytes ev ?d)"
      by (rule coord_ok_count) (use p nf(1) in \<open>simp_all add: over_event_budget_def\<close>)
    have "stored_ok enc (count_accepted_event bytes ev ?d) (ts_root s) (ts_tasks s) = stored_ok enc ?st (ts_root s) (ts_tasks s)"
      by (rule stored_ok_same) (simp_all add: count_accepted_event_def adjust_counters_def)
    with stored have "stored_ok enc (count_accepted_event bytes ev ?d) (ts_root s) (ts_tasks s) ev" by simp
    from coord_ok_project [OF c this] cur show ?thesis
      unfolding enq snd_conv by (intro coord_ok_promote_contiguous) (simp_all add: event_stream_id_def)
  qed
  then show ?thesis
    using sched_ok_refuse [OF ok p]
    by (auto simp: append_next_def Let_def sched_ok_def enq split: sum.splits)
qed

lemma sched_ok_append_in_stream:
  assumes ok: "sched_ok enc s" and pl: "placeable enc s p bytes ev"
  shows "sched_ok enc (snd (append_in_stream io enc p bytes ev s))"
proof -
  have p: "bt_get (cs_wake_policies (ts_coordination s)) (ie_root_task_id ev) = Some p"
    using pl by (simp add: placeable_def Let_def)
  show ?thesis
    unfolding append_in_stream_def Let_def
    using ok sched_ok_note(1) [OF ok p] sched_ok_append_ahead [OF ok pl refl] sched_ok_append_next [OF ok pl]
      sched_ok_stop [OF ok p, of "''task event stream table requires reconciliation''"]
    by (auto simp: not_le MAX_COORDINATION_TEXT_BYTES_def)
qed

lemma sched_ok_append_required:
  assumes ok: "sched_ok enc s" and p: "bt_get (cs_wake_policies (ts_coordination s)) (ie_root_task_id ev) = Some p"
    and ready: "validate_event enc ev (ts_root s) = Ok ()" "enc ev = Some bytes"
      "event_policy_ok (ts_coordination s) ev" "event_bound (ts_coordination s) ev"
      "\<forall>q \<in> set (queued_events (ts_coordination s)). ie_event_id q \<noteq> ie_event_id ev"
      "\<forall>t r. bt_get (cs_completion_receipts (ts_coordination s)) t = Some r \<longrightarrow> ie_event_id r \<noteq> ie_event_id ev"
  shows "sched_ok enc (snd (append_required io enc p bytes ev s))"
proof (cases "task_record_of s (ie_task_id ev)")
  case (Inl e)
  then show ?thesis using ok by (simp add: append_required_def)
next
  case (Inr task)
  then obtain r where r: "bt_get (ts_tasks s) (ie_task_id ev) = Some r" "task = tr_snapshot r"
    by (auto simp: task_record_of_Ok)
  have ok': "coord_ok {} enc (ts_root s) (ts_tasks s) (ts_coordination s)" using ok by (simp add: sched_ok_def)
  have root: "bt_contains (ts_tasks s) (ie_root_task_id ev)"
    using coord_ok_policies [OF ok' p] validate_wake_policy_facts(1) [of p "ts_tasks s"] by (auto simp: policy_ok_def)
  have place: "sched_ok enc (snd (append_in_stream io enc p bytes ev s))"
    if "sn_attempt task = ie_attempt ev"
      "ie_kind ev = VerifiedCompletion \<Longrightarrow> check_completion ev (ts_coordination s) = CompletionFresh \<and>
         validate_verified_completion ev s = Inr ()"
  proof (rule sched_ok_append_in_stream [OF ok])
    have "event_task_ok (ts_tasks s) ev"
      using r that root Inr
      by (auto simp: event_task_ok_def validate_verified_completion_def split: if_splits)
    then show "placeable enc s p bytes ev"
      using ready p that r by (auto simp: placeable_def Let_def stored_ok_def task_attempt_def)
  qed
  show ?thesis
    using ok place sched_ok_note [OF ok p] Inr
    by (auto simp: append_required_def split: completion_check.splits sum.splits)
qed

lemma sched_ok_append_bound:
  assumes ok: "sched_ok enc s" and adm: "bt_contains (cs_wake_policies (ts_coordination s)) (ie_root_task_id ev)"
    and ready: "validate_event enc ev (ts_root s) = Ok ()" "enc ev = Some bytes"
      "\<forall>q \<in> set (queued_events (ts_coordination s)). ie_event_id q \<noteq> ie_event_id ev"
      "\<forall>t r. bt_get (cs_completion_receipts (ts_coordination s)) t = Some r \<longrightarrow> ie_event_id r \<noteq> ie_event_id ev"
  shows "sched_ok enc (snd (append_bound io enc bytes ev s))"
proof -
  obtain p where p: "bt_get (cs_wake_policies (ts_coordination s)) (ie_root_task_id ev) = Some p"
    using adm by (auto simp: bt_contains_iff)
  show ?thesis
  proof (cases "find (binding_for_event ev) (all_bindings (ts_coordination s))")
    case None
    then show ?thesis using ok by (simp add: append_bound_def Let_def)
  next
    case (Some b)
    then have b: "b \<in> set (all_bindings (ts_coordination s))" "binding_for_event ev b"
      by (auto simp: find_Some_iff)
    have "sched_ok enc (snd (append_required io enc p bytes ev s))"
      if "tb_attempt b = Some (ie_attempt ev)" "wp_owner_session_id p = ie_parent_session_id ev"
        "ie_task_id ev \<in> set (wp_required_task_ids p)"
      using sched_ok_append_required [OF ok p ready(1,2) _ _ ready(3,4)] b p that
      by (auto simp: event_policy_ok_def event_bound_def)
    with Some ok p sched_ok_note(1) [OF ok p] show ?thesis by (simp add: append_bound_def Let_def)
  qed
qed

lemma sched_ok_append:
  assumes ok: "sched_ok enc s" and adm: "op_admitted s (io, AppendEvent ev)"
  shows "sched_ok enc (snd (append_task_inbox_event io enc ev s))"
proof (cases "validate_event enc ev (ts_root s)")
  case (Inl e)
  then show ?thesis using ok by (simp add: append_task_inbox_event_def Let_def)
next
  case v: (Inr u)
  let ?st = "ts_coordination s"
  obtain bytes where bytes: "enc ev = Some bytes" using validate_event_enc [OF v] by blast
  obtain p where p: "bt_get (cs_wake_policies ?st) (ie_root_task_id ev) = Some p"
    using adm by (auto simp: bt_contains_iff)
  have wf: "bt_wf (cs_completion_receipts ?st)" using ok coord_okW by (auto simp: sched_ok_def coord_wf_def)
  note dup = sched_ok_note(2) [OF ok p]
  have "sched_ok enc (snd (append_bound io enc bytes ev s))"
    if "find (\<lambda>r. ie_event_id r = ie_event_id ev) (bt_values (cs_completion_receipts ?st)) = None"
      "find (\<lambda>q. ie_event_id q = ie_event_id ev) (queued_events ?st) = None"
    using that adm v bytes
    by (intro sched_ok_append_bound [OF ok]) (auto simp: find_None_iff dest: bt_get_in_values)
  with ok v bytes dup show ?thesis
    by (auto simp: append_task_inbox_event_def Let_def encoded_event_len_def split: option.splits)
qed

lemma sched_ok_acknowledge:
  assumes ok: "sched_ok enc s"
  shows "sched_ok enc (snd (acknowledge_task_inbox_event io i s))"
proof -
  have pos: "position P xs = Some n \<Longrightarrow> n < length xs" for P n and xs :: "task_inbox_event list"
    by (induction xs arbitrary: n) (auto split: if_splits)
  have "mset (remove_nth n xs) \<subseteq># mset xs" if "n < length xs" for n and xs :: "task_inbox_event list"
    using mset_remove_nth [OF that] by (metis mset_subset_eq_add_right add_mset_add_single union_commute)
  then show ?thesis
    using ok pos
    by (auto simp: acknowledge_task_inbox_event_def Let_def sched_ok_update sched_ok_def [of enc s]
        intro!: coord_ok_drop_from_inbox split: option.splits)
qed

end
