(* ===== verification/Coord_Wake.thy ===== *)
theory Coord_Wake
  imports Coord_Reload
begin

text \<open>
  The owner wake operations keep the invariant of the coordination state: a wake is reserved on
  the receipts of all required tasks, and a lease moves together with the counters of its root.
\<close>

section \<open>Leases that change state\<close>

lemma set_lease_adjust:
  assumes "bt_get (cs_counters st) root = Some c"
  shows "adjust_counters root f (set_lease i l st) =
    st\<lparr>cs_wake_leases := bt_insert i l (cs_wake_leases st), cs_counters := bt_insert root (f c) (cs_counters st)\<rparr>"
  using assms by (simp add: adjust_counters_def set_lease_def bt_entry_def bt_get_or_def)

lemma set_lease_alone:
  assumes "coord_ok W enc ws tasks st" "bt_get (cs_counters st) root = Some c"
  shows "set_lease i l st =
    st\<lparr>cs_wake_leases := bt_insert i l (cs_wake_leases st), cs_counters := bt_insert root c (cs_counters st)\<rparr>"
  using assms coord_okW [OF assms(1)] by (simp add: set_lease_def bt_insert_same coord_wf_def)

lemma lease_extra_of:
  assumes "coord_ok W enc ws tasks st" "bt_get (cs_wake_leases st) i = Some l"
    "bt_get (cs_counters st) (wl_root_task_id l) = Some c"
  shows "lease_extra l c"
  using coord_okX [OF assms(1)] assms(2,3) unfolding coord_extra_def bt_get_or_def by (auto split: option.splits)

lemma lease_counter_bounds:
  assumes "coord_ok W enc ws tasks st" "bt_get (cs_counters st) root = Some c"
  shows "co_wake_dispatches c \<le> co_wake_reservations c" "co_unknown_wake_outcomes c \<le> co_wake_reservations c"
  using coord_ok_counters [OF assms] by (auto simp: counters_ok_def)

lemma coord_ok_unknown:
  assumes ok: "coord_ok {} enc ws tasks st" and l: "bt_get (cs_wake_leases st) i = Some l"
    and open_state: "wl_state l \<in> {Reserved, Dispatching}"
    and why: "text_ok MAX_COORDINATION_TEXT_BYTES why"
  shows "coord_ok {} enc ws tasks (count_unknown (wl_root_task_id l) (Some why)
    (set_lease i (l\<lparr>wl_state := UnknownOutcome, wl_stop_reason := Some why\<rparr>) st))"
proof -
  obtain c p where c: "bt_get (cs_counters st) (wl_root_task_id l) = Some c" "co_wake_reservations c = 1"
    using lease_counters_exist [OF ok l] by metis
  have "co_unknown_wake_outcomes c = 0" using lease_extra_of [OF ok l c(1)] open_state by (auto simp: lease_extra_def)
  then show ?thesis
    unfolding count_unknown_def set_lease_adjust [OF c(1)]
    using open_state why c lease_counter_bounds [OF ok c(1)]
    by (intro coord_ok_lease_state [OF ok l refl])
      (auto simp: nat_saturating_add_def u32_max_def lease_extra_def text_ok_def)
qed

lemma coord_ok_dispatching:
  assumes ok: "coord_ok {} enc ws tasks st" and l: "bt_get (cs_wake_leases st) i = Some l" "wl_state l = Reserved"
  shows "coord_ok {} enc ws tasks (adjust_counters (wl_root_task_id l)
     (\<lambda>c. c\<lparr>co_wake_dispatches := nat_saturating_add u32_max (co_wake_dispatches c) 1\<rparr>)
     (set_lease i (l\<lparr>wl_state := Dispatching\<rparr>) st))"
proof -
  obtain c p where c: "bt_get (cs_counters st) (wl_root_task_id l) = Some c" "co_wake_reservations c = 1"
    using lease_counters_exist [OF ok l(1)] by metis
  have "lease_shape_ok l" using coord_ok_leases [OF ok l(1)] by (simp add: lease_ok_def validate_wake_lease_Ok)
  then have why: "text_ok MAX_COORDINATION_TEXT_BYTES r" if "wl_stop_reason l = Some r" for r
    using that by (simp add: lease_shape_ok_def)
  have "co_wake_dispatches c = 0" "co_unknown_wake_outcomes c = 0"
    using lease_extra_of [OF ok l(1) c(1)] l(2) by (auto simp: lease_extra_def)
  then show ?thesis
    unfolding set_lease_adjust [OF c(1)]
    using l(2) c why
    by (intro coord_ok_lease_state [OF ok l(1), where s = Dispatching and why = "wl_stop_reason l"])
      (auto simp: nat_saturating_add_def u32_max_def lease_extra_def)
qed

text \<open>A lease ends or is delivered: its root's counters stay, but for the stop reason.\<close>

lemma coord_ok_closed:
  assumes ok: "coord_ok {} enc ws tasks st" and l: "bt_get (cs_wake_leases st) i = Some l"
    and s: "s \<notin> {Reserved, Dispatching}" "\<not> lease_terminal s \<Longrightarrow> \<not> lease_terminal (wl_state l)"
    and why: "\<And>r. why = Some r \<Longrightarrow> text_ok MAX_COORDINATION_TEXT_BYTES r"
    and c: "bt_get (cs_counters st) (wl_root_task_id l) = Some c"
    and c': "c' = c \<or> c' = c\<lparr>co_stop_reason := None\<rparr>"
  shows "coord_ok {} enc ws tasks (st\<lparr>cs_wake_leases := bt_insert i (l\<lparr>wl_state := s, wl_stop_reason := why\<rparr>) (cs_wake_leases st),
     cs_counters := bt_insert (wl_root_task_id l) c' (cs_counters st)\<rparr>)"
  using s why c c' lease_counter_bounds [OF ok c]
  by (intro coord_ok_lease_state [OF ok l refl _ _ c]) (auto simp: lease_extra_def)

section \<open>The lease operations keep the invariant\<close>

lemma short_reasons [simp]:
  "text_ok MAX_COORDINATION_TEXT_BYTES EXPIRED_WAKE"
  "text_ok MAX_COORDINATION_TEXT_BYTES INTERRUPTED_WAKE"
  "text_ok MAX_COORDINATION_TEXT_BYTES ''wake was confirmed not sent''"
  "text_ok MAX_COORDINATION_TEXT_BYTES ''wake delivery outcome is unknown''"
  by (simp_all add: text_ok_def EXPIRED_WAKE_def INTERRUPTED_WAKE_def MAX_COORDINATION_TEXT_BYTES_def)

lemma sched_ok_dispatching:
  assumes ok: "sched_ok enc s"
  shows "sched_ok enc (snd (mark_owner_wake_dispatching io i now s))"
proof (cases "bt_get (cs_wake_leases (ts_coordination s)) i")
  case None
  then show ?thesis using ok by (simp add: mark_owner_wake_dispatching_def)
next
  case (Some l)
  then show ?thesis
    using ok coord_ok_unknown [OF ok [unfolded sched_ok_def] Some _ short_reasons(1)]
      coord_ok_dispatching [OF ok [unfolded sched_ok_def] Some]
    by (simp add: mark_owner_wake_dispatching_def Let_def sched_ok_update)
qed

lemma sched_ok_finish:
  assumes ok: "sched_ok enc s"
  shows "sched_ok enc (snd (finish_owner_wake_dispatch io i d reason s))"
proof (cases "(case reason of None \<Rightarrow> Ok () | Some r \<Rightarrow> validate_identifier ''wake stop reason'' r MAX_COORDINATION_TEXT_BYTES)")
  case (Inl e)
  then show ?thesis using ok by (simp add: finish_owner_wake_dispatch_def)
next
  case chk: (Inr u)
  let ?st = "ts_coordination s"
  note ok' = ok [unfolded sched_ok_def]
  show ?thesis
  proof (cases "bt_get (cs_wake_leases ?st) i")
    case None
    then show ?thesis using ok chk by (simp add: finish_owner_wake_dispatch_def)
  next
    case (Some l)
    obtain c p where c: "bt_get (cs_counters ?st) (wl_root_task_id l) = Some c"
      using lease_counters_exist [OF ok' Some] by metis
    have why: "text_ok MAX_COORDINATION_TEXT_BYTES (case reason of None \<Rightarrow> ''wake was confirmed not sent'' | Some r \<Rightarrow> r)"
      "text_ok MAX_COORDINATION_TEXT_BYTES (case reason of None \<Rightarrow> ''wake delivery outcome is unknown'' | Some r \<Rightarrow> r)"
      using chk by (auto split: option.splits)
    have "coord_ok {} enc (ts_root s) (ts_tasks s)
        ((if wl_state (apply_outcome d reason l) = UnknownOutcome
          then count_unknown (wl_root_task_id (apply_outcome d reason l)) (wl_stop_reason (apply_outcome d reason l)) else id)
         (set_lease i (apply_outcome d reason l) ?st))" if "wl_state l = Dispatching"
    proof (cases d)
      case UnknownDelivery
      then show ?thesis using coord_ok_unknown [OF ok' Some _ why(2)] that by simp
    next
      case Acknowledged
      then show ?thesis
        using that coord_ok_closed [OF ok' Some _ _ _ c disjI1 [OF refl], where s = Delivered and why = None]
        by (simp add: set_lease_alone [OF ok' c])
    next
      case DefinitelyNotSent
      then show ?thesis
        using that why(1) coord_ok_closed [OF ok' Some _ _ _ c disjI1 [OF refl], where s = FailedBeforeDispatch
            and why = "Some (case reason of None \<Rightarrow> ''wake was confirmed not sent'' | Some r \<Rightarrow> r)"]
        by (simp add: set_lease_alone [OF ok' c])
    qed
    with ok chk Some show ?thesis by (simp add: finish_owner_wake_dispatch_def Let_def sched_ok_update)
  qed
qed

lemma sched_ok_reconcile:
  assumes ok: "sched_ok enc s"
  shows "sched_ok enc (snd (reconcile_owner_wake io i d s))"
proof (cases "bt_get (cs_wake_leases (ts_coordination s)) i")
  case None
  then show ?thesis using ok by (simp add: reconcile_owner_wake_def)
next
  case (Some l)
  let ?st = "ts_coordination s"
  note ok' = ok [unfolded sched_ok_def]
  obtain c p where c: "bt_get (cs_counters ?st) (wl_root_task_id l) = Some c"
    using lease_counters_exist [OF ok' Some] by metis
  have "coord_ok {} enc (ts_root s) (ts_tasks s)
      ((set_lease i (l\<lparr>wl_state := (if d then Delivered else FailedBeforeDispatch), wl_stop_reason := None\<rparr>) ?st)
        \<lparr>cs_counters := bt_adjust (wl_root_task_id l) (\<lambda>c. c\<lparr>co_stop_reason := None\<rparr>) (cs_counters ?st)\<rparr>)"
    if "wl_state l = UnknownOutcome"
    using that coord_ok_closed [OF ok' Some _ _ _ c disjI2 [OF refl], where s = "if d then Delivered else FailedBeforeDispatch" and why = None] c
    by (simp add: set_lease_def bt_adjust_def)
  with ok Some show ?thesis by (simp add: reconcile_owner_wake_def Let_def sched_ok_update)
qed

lemma sched_ok_settle:
  assumes ok: "sched_ok enc s"
  shows "sched_ok enc (snd (settle_owner_wake io i o_s o_t s))"
proof (cases "bt_get (cs_wake_leases (ts_coordination s)) i")
  case None
  then show ?thesis using ok by (simp add: settle_owner_wake_def)
next
  case (Some l)
  let ?st = "ts_coordination s"
  note ok' = ok [unfolded sched_ok_def]
  obtain c p where c: "bt_get (cs_counters ?st) (wl_root_task_id l) = Some c"
    using lease_counters_exist [OF ok' Some] by metis
  have "lease_shape_ok l" using coord_ok_leases [OF ok' Some] by (simp add: lease_ok_def validate_wake_lease_Ok)
  then have why: "text_ok MAX_COORDINATION_TEXT_BYTES r" if "wl_stop_reason l = Some r" for r
    using that by (simp add: lease_shape_ok_def)
  have "coord_ok {} enc (ts_root s) (ts_tasks s) (set_lease i (l\<lparr>wl_state := SettledLease\<rparr>) ?st)"
    using coord_ok_closed [OF ok' Some _ _ _ c disjI1 [OF refl], where s = SettledLease and why = "wl_stop_reason l"] why
    by (simp add: set_lease_alone [OF ok' c])
  then have "coord_ok {} enc (ts_root s) (ts_tasks s)
      ((set_lease i (l\<lparr>wl_state := SettledLease\<rparr>) ?st)
        \<lparr>cs_inbox := filter (\<lambda>ev. ie_event_id ev \<notin> set (wl_event_ids l)) (cs_inbox ?st)\<rparr>)"
    by (rule coord_ok_drop_from_inbox) (simp add: set_lease_def)
  with ok Some show ?thesis by (simp add: settle_owner_wake_def Let_def sched_ok_update)
qed

lemma coord_ok_recover:
  assumes ok: "coord_ok {} enc ws tasks st"
  shows "coord_ok {} enc ws tasks (snd (mark_interrupted_wake_dispatches_unknown st))"
proof -
  have "coord_ok {} enc ws tasks (fold interrupt_lease kvs st)"
    if "coord_ok {} enc ws tasks st" "\<forall>kv \<in> set kvs. bt_get (cs_wake_leases st) (fst kv) = Some (snd kv)"
      "distinct (map fst kvs)" for kvs st
    using that
  proof (induction kvs arbitrary: st)
    case (Cons kv kvs)
    have "coord_ok {} enc ws tasks (interrupt_lease kv st)"
      using coord_ok_unknown [OF Cons.prems(1), of "fst kv" "snd kv"] Cons.prems
      by (simp add: interrupt_lease_def Let_def)
    moreover have "\<forall>k \<in> set kvs. bt_get (cs_wake_leases (interrupt_lease kv st)) (fst k) = Some (snd k)"
      using Cons.prems
      by (auto simp: interrupt_lease_def Let_def count_unknown_def adjust_counters_def set_lease_def image_iff)
    ultimately show ?case using Cons.IH Cons.prems(3) by simp
  qed simp
  moreover have "bt_wf (cs_wake_leases st)" using coord_okW [OF ok] by (simp add: coord_wf_def)
  then have "\<forall>kv \<in> set (cs_wake_leases st). bt_get (cs_wake_leases st) (fst kv) = Some (snd kv)"
    "distinct (map fst (cs_wake_leases st))"
    by (auto simp: bt_get_iff_mem bt_wf_distinct)
  ultimately show ?thesis using ok by (simp add: mark_interrupted_wake_dispatches_unknown_def)
qed

section \<open>Reserving a wake\<close>

definition backs_wake :: "task_scheduler \<Rightarrow> task_id \<Rightarrow> task_id \<Rightarrow> task_inbox_event \<Rightarrow> bool" where
  "backs_wake s root t r \<longleftrightarrow>
     (\<exists>rec. bt_get (ts_tasks s) t = Some rec \<and> sn_state (tr_snapshot rec) = Succeeded \<and>
        has_required_attempt_evidence (tr_snapshot rec) \<and> ie_attempt r = sn_attempt (tr_snapshot rec)) \<and>
     bt_get (cs_completion_receipts (ts_coordination s)) t = Some r \<and> ie_kind r = VerifiedCompletion \<and>
     (\<exists>b \<in> set (bt_values (cs_bindings (ts_coordination s))). tb_status b = Resolved \<and> tb_root_task_id b = Some root \<and>
        tb_task_id b = Some t \<and> tb_attempt b = Some (ie_attempt r))"

lemma required_receipt_backs:
  assumes "required_receipt s p root t = Inr (Some r)"
  shows "backs_wake s root t r"
proof -
  obtain rec where rec: "bt_get (ts_tasks s) t = Some rec" "task_record_of s t = Inr (tr_snapshot rec)"
    using assms unfolding required_receipt_def Let_def res_bind_Inr_iff task_record_of_Ok by blast
  let ?bs = "bt_values (cs_bindings (ts_coordination s))"
  let ?bound = "\<lambda>b. tb_status b = Resolved \<and> tb_root_task_id b = Some root \<and> tb_task_id b = Some t \<and>
    tb_attempt b = Some (sn_attempt (tr_snapshot rec)) \<and> bi_core_session_id (tb_intent b) = wp_owner_session_id p"
  have run: "(if sn_state (tr_snapshot rec) \<noteq> Succeeded \<or> \<not> has_required_attempt_evidence (tr_snapshot rec) then Inr None
      else if \<not> list_ex ?bound ?bs then Inr None
      else case bt_get (cs_completion_receipts (ts_coordination s)) t of None \<Rightarrow> Inr None
        | Some q \<Rightarrow> if ie_attempt q \<noteq> sn_attempt (tr_snapshot rec) \<or> ie_kind q \<noteq> VerifiedCompletion then Inr None
            else Inr (Some q)) = (Inr (Some r) :: (development_error, _) result)"
    using assms rec(2) by (simp add: required_receipt_def Let_def)
  then have "list_ex ?bound ?bs" "sn_state (tr_snapshot rec) = Succeeded" "has_required_attempt_evidence (tr_snapshot rec)"
    by (auto split: if_splits)
  moreover from this run have "bt_get (cs_completion_receipts (ts_coordination s)) t = Some r"
      "ie_attempt r = sn_attempt (tr_snapshot rec)" "ie_kind r = VerifiedCompletion"
    by (auto split: if_splits option.splits)
  ultimately show ?thesis using rec(1) by (auto simp: backs_wake_def list_ex_iff)
qed

lemma collect_receipts_backs:
  "collect_receipts s p root ts = Inr (Some rs) \<Longrightarrow> list_all2 (backs_wake s root) ts rs"
proof (induction ts arbitrary: rs)
  case (Cons t ts)
  then show ?case
    by (auto simp: res_bind_Inr_iff split: sum.splits option.splits dest: required_receipt_backs)
qed simp

lemma backs_wake_root:
  assumes ok: "sched_ok enc s" and r: "backs_wake s root t r"
  shows "ie_root_task_id r = root" "text_ok 128 (ie_event_id r)"
proof -
  let ?st = "ts_coordination s"
  note ok' = ok [unfolded sched_ok_def]
  obtain b where b: "b \<in> set (all_bindings ?st)" "tb_status b = Resolved" "tb_root_task_id b = Some root"
      "tb_task_id b = Some t" "tb_attempt b = Some (ie_attempt r)"
    using r by (auto simp: backs_wake_def all_bindings_def)
  have rok: "receipt_ok enc ?st (ts_root s) (ts_tasks s) t r"
    using r coord_ok_receipts [OF ok'] by (auto simp: backs_wake_def)
  then show "text_ok 128 (ie_event_id r)"
    using validate_event_facts(1) by (auto simp: receipt_ok_def stored_ok_def)
  obtain d where d: "d \<in> set (all_bindings ?st)" "binding_for_event r d" "tb_attempt d = Some (ie_attempt r)"
    using rok by (auto simp: receipt_ok_def stored_ok_def event_bound_def)
  have "inj_on bound_attempt (set (resolved_bindings ?st))"
    using coord_ok_identities [OF ok'] by (auto simp: identities_ok_def distinct_map)
  moreover have "bound_attempt b = bound_attempt d"
    using b d rok by (simp add: bound_attempt_def binding_for_event_def receipt_ok_def)
  ultimately have "b = d"
    using b d by (auto simp: inj_on_def resolved_bindings_def binding_for_event_def)
  then show "ie_root_task_id r = root" using b d by (simp add: binding_for_event_def)
qed

lemma backs_wake_ids:
  assumes ok: "sched_ok enc s" and rs: "list_all2 (backs_wake s root) ts rs" and d: "distinct ts"
  shows "distinct (map ie_event_id rs)"
  using rs d
proof (induction rule: list_all2_induct)
  case (Cons t ts r rs)
  have "ie_event_id r \<noteq> ie_event_id q" if "q \<in> set rs" for q
  proof
    assume same: "ie_event_id r = ie_event_id q"
    obtain t' where t': "t' \<in> set ts" "backs_wake s root t' q"
      using Cons.hyps(2) \<open>q \<in> set rs\<close> by (metis in_set_conv_nth list_all2_conv_all_nth)
    then have "t = t'"
      using receipts_extra_ok [OF ok [unfolded sched_ok_def]] same Cons.hyps(1)
      by (auto simp: receipts_extra_def backs_wake_def)
    with t' Cons.prems show False by simp
  qed
  with Cons show ?case by auto
qed simp

lemma remdups_adj_sort:
  fixes xs :: "'a :: linorder list"
  assumes "distinct xs"
  shows "remdups_adj (sort xs) = sort xs"
  using assms by (intro remdups_adj_distinct) simp

lemma coord_ok_reserve:
  assumes ok: "sched_ok enc s" and p: "bt_get (cs_wake_policies (ts_coordination s)) root = Some p"
    and free: "wp_reserved_wakes p < wp_max_owner_wakes p"
    and fresh: "bt_get (cs_wake_leases (ts_coordination s)) i = None" and i: "text_ok 128 i"
    and rs: "list_all2 (backs_wake s root) (wp_required_task_ids p) rs"
    and now: "now \<le> u128_max" and d: "d \<le> MAX_WAKE_LEASE_MS"
  shows "sched_ok enc (update_coordination (record_lease (new_lease i root p rs now d)) s)"
proof -
  let ?l = "new_lease i root p rs now d"
  note ok' = ok [unfolded sched_ok_def]
  have pol: "validate_wake_policy p (ts_tasks s) = Ok ()" using coord_ok_policies [OF ok' p] by (simp add: policy_ok_def)
  note facts = validate_wake_policy_facts [OF pol]
  have len: "length rs = length (wp_required_task_ids p)" using rs by (simp add: list_all2_lengthD)
  have ids: "wl_event_ids ?l = sort (map ie_event_id rs)"
    using remdups_adj_sort [OF backs_wake_ids [OF ok rs facts(6)]] by (simp add: new_lease_def)
  have mem: "\<exists>t. backs_wake s root t r" if "r \<in> set rs" for r
    using that rs by (auto simp: list_all2_conv_all_nth in_set_conv_nth)
  have ne: "sort (map ie_event_id rs) \<noteq> []"
    using len facts(4) by (metis length_0_conv length_map length_sort)
  have ids_text: "text_ok 128 (ie_event_id r)" if "r \<in> set rs" for r
    using mem [OF that] backs_wake_root(2) [OF ok] by blast
  have shape: "lease_shape_ok ?l"
    unfolding lease_shape_ok_def ids
    using i facts(4,5,8,9) len now d backs_wake_ids [OF ok rs facts(6)] ne ids_text
    by (auto simp: new_lease_def nat_saturating_add_def)
  have "\<not> receipt_missing (ts_coordination s) (ts_tasks s) ?l t" if t: "t \<in> set (wp_required_task_ids p)" for t
  proof -
    obtain r where r: "r \<in> set rs" "backs_wake s root t r"
      using t rs by (metis in_set_conv_nth list_all2_conv_all_nth)
    have "ie_event_id r \<in> set (wl_event_ids ?l)" unfolding ids using r(1) by simp
    moreover have "ie_root_task_id r = root" using backs_wake_root(1) [OF ok r(2)] .
    ultimately show ?thesis
      using r(2) by (auto simp: receipt_missing_def backs_wake_def task_attempt_def) (simp add: new_lease_def)
  qed
  then show ?thesis
    unfolding sched_ok_update
    using ok' p free fresh shape len
    by (intro coord_ok_record_lease) (auto simp: ids, simp_all add: new_lease_def)
qed

lemma sched_ok_reserve:
  assumes ok: "sched_ok enc s" and adm: "op_admitted s (io, ReserveWake root i now d)"
  shows "sched_ok enc (snd (reserve_owner_wake io root i now d s))"
proof -
  have "sched_ok enc (update_coordination (record_lease (new_lease i root p rs now d)) s)"
    if "bt_get (cs_wake_policies (ts_coordination s)) root = Some p" "wp_reserved_wakes p < wp_max_owner_wakes p"
      "bt_get (cs_wake_leases (ts_coordination s)) i = None" "text_ok 128 i"
      "collect_receipts s p root (wp_required_task_ids p) = Inr (Some rs)" "d \<le> MAX_WAKE_LEASE_MS" for p rs
    using coord_ok_reserve [OF ok that(1-4) collect_receipts_backs [OF that(5)] _ that(6)] adm by simp
  with ok show ?thesis
    by (auto simp: reserve_owner_wake_def Let_def not_le not_less split: sum.splits option.splits)
qed

end
