(* ===== verification/Coord_Guarantees.thy ===== *)
theory Coord_Guarantees
  imports Coord_Wake
begin

text \<open>
  What the coordination operations guarantee together: a checkpoint written after any sequence
  of them loads again, what they acknowledge is on disk, a root wakes its owner at most once even
  across restarts, and the inbox delivers each stream in order.
\<close>

section \<open>Every checkpoint loads again\<close>

text \<open>An operation ends in the state it has saved, or saves nothing.\<close>

definition ends_saved :: "task_scheduler \<Rightarrow> task_scheduler \<Rightarrow> bool" where
  "ends_saved s s' \<longleftrightarrow> ts_root s' = ts_root s \<and> ts_tasks s' = ts_tasks s \<and>
     (ts_saved s' = ts_saved s \<or> ts_saved s' = Some (ts_coordination s'))"

lemma ends_saved_refl [simp]: "ends_saved s s" "ends_saved s (update_coordination f s)"
  "ends_saved s (s\<lparr>ts_coordination := st\<rparr>)"
  by (simp_all add: ends_saved_def update_coordination_def)

lemma ends_saved_persist [simp]:
  "ends_saved s (snd (persist_checkpoint io (update_coordination f s)))"
  "ends_saved s (snd (persist_ok io v (update_coordination f s)))"
  "ends_saved s (snd (persist_err io e (update_coordination f s)))"
  "ends_saved s (snd (persist_ok io v (s\<lparr>ts_coordination := st\<rparr>)))"
  "ends_saved s (snd (persist_checkpoint io (s\<lparr>ts_coordination := st\<rparr>)))"
  by (auto simp: ends_saved_def persist_ok_def persist_err_def persist_checkpoint_def update_coordination_def
      split: persist_outcome.splits)

lemma append_ends_saved:
  "ends_saved s (snd (append_in_stream io enc p bytes ev s))"
  "ends_saved s (snd (append_task_inbox_event io enc ev s))"
proof -
  show a: "ends_saved s (snd (append_in_stream io enc p bytes ev s))" for p bytes
    by (simp add: append_in_stream_def append_ahead_def append_next_def refuse_full_def refuse_budget_def
        note_stale_event_def Let_def split: option.splits sum.splits prod.splits)
  have "ends_saved s (snd (append_bound io enc bytes ev s))" for bytes
    using a by (simp add: append_bound_def append_required_def note_stale_event_def note_duplicate_event_def Let_def
        split: option.splits sum.splits completion_check.splits)
  then show "ends_saved s (snd (append_task_inbox_event io enc ev s))"
    by (simp add: append_task_inbox_event_def note_duplicate_event_def Let_def split: option.splits sum.splits)
qed

lemma wake_ends_saved:
  "ends_saved s (snd (reserve_owner_wake io root i now d s))"
  "ends_saved s (snd (mark_owner_wake_dispatching io i now s))"
  "ends_saved s (snd (finish_owner_wake_dispatch io i outcome reason s))"
  "ends_saved s (snd (reconcile_owner_wake io i del s))"
  "ends_saved s (snd (settle_owner_wake io i o_s o_t s))"
  by (simp_all add: reserve_owner_wake_def mark_owner_wake_dispatching_def finish_owner_wake_dispatch_def
      reconcile_owner_wake_def settle_owner_wake_def Let_def split: option.splits sum.splits)

lemma step_ends_saved: "ends_saved s (coord_step enc s (io, op))"
proof (cases op)
  case (ResolveBinding i root t a child call)
  then show ?thesis by (cases rule: resolve_cases [of io i root t a child call s]) simp_all
qed (simp_all add: append_ends_saved wake_ends_saved begin_task_binding_def mark_binding_reconciliation_required_def
    register_root_wake_policy_def acknowledge_task_inbox_event_def restart_coordination_def Let_def
    split: option.splits sum.splits prod.splits)

text \<open>The invariant of the running scheduler and its file.\<close>

definition durable_ok :: "event_encoder \<Rightarrow> task_scheduler \<Rightarrow> bool" where
  "durable_ok enc s \<longleftrightarrow> sched_ok enc s \<and>
     (\<forall>c. ts_saved s = Some c \<longrightarrow> coord_ok {} enc (ts_root s) (ts_tasks s) c)"

lemma coord_ok_default: "table_ok tasks \<Longrightarrow> coord_ok {} enc ws tasks default_coordination"
  by (simp add: coord_ok_def default_coordination_def coord_wf_def coord_extra_def receipts_extra_def values_mset_def
      bounds_ok_def COORDINATION_VERSION_def events_slack_def queued_events_def pending_events_def bt_values_def
      totals_ok_def identities_ok_def resolved_bindings_def all_bindings_def)

lemma sched_ok_restart:
  assumes "durable_ok enc s"
  shows "sched_ok enc (snd (restart_coordination io enc s))"
proof -
  let ?st = "case ts_saved s of None \<Rightarrow> default_coordination | Some c \<Rightarrow> c"
  have "coord_ok {} enc (ts_root s) (ts_tasks s) ?st"
    using assms coord_okT coord_ok_default by (auto simp: durable_ok_def sched_ok_def split: option.splits)
  from coord_ok_recover [OF this] assms show ?thesis
    by (auto simp: restart_coordination_def Let_def sched_ok_def durable_ok_def split: sum.splits prod.splits)
qed

lemma step_sched_ok:
  assumes "durable_ok enc s" "op_admitted s (io, op)"
  shows "sched_ok enc (coord_step enc s (io, op))"
  using assms sched_ok_begin sched_ok_resolve sched_ok_mark sched_ok_register sched_ok_append sched_ok_acknowledge
    sched_ok_reserve sched_ok_dispatching sched_ok_finish sched_ok_reconcile sched_ok_settle sched_ok_restart
  by (cases op) (auto simp: durable_ok_def simp del: op_admitted.simps)

lemma step_durable_ok:
  assumes "durable_ok enc s" "op_admitted s e"
  shows "durable_ok enc (coord_step enc s e)"
proof -
  obtain io op where e: "e = (io, op)" by fastforce
  show ?thesis
    using assms step_sched_ok [of enc s io op] step_ends_saved [of s enc io op]
    by (auto simp: e durable_ok_def ends_saved_def sched_ok_def)
qed

interpretation coord: guarded_machine "coord_step enc" op_admitted "durable_ok enc" for enc
  by unfold_locales (rule step_durable_ok)

definition fresh_scheduler :: "string \<Rightarrow> task_table \<Rightarrow> task_scheduler" where
  "fresh_scheduler ws tasks =
     \<lparr>ts_root = ws, ts_tasks = tasks, ts_coordination = default_coordination, ts_saved = None\<rparr>"

lemma fresh_durable_ok: "table_ok tasks \<Longrightarrow> durable_ok enc (fresh_scheduler ws tasks)"
  by (simp add: durable_ok_def sched_ok_def fresh_scheduler_def coord_ok_default)

lemma run_frame:
  "guarded_run (coord_step enc) op_admitted s ops s' \<Longrightarrow> ts_root s' = ts_root s \<and> ts_tasks s' = ts_tasks s"
proof (induction rule: guarded_run.induct)
  case (guarded_run_Cons s e es s')
  then show ?case using step_ends_saved [of s enc "fst e" "snd e"] by (simp add: ends_saved_def)
qed simp

text \<open>
  Claim C1. Whatever sequence of admitted coordination operations runs from an empty scheduler,
  with any writes failing on the way and any restarts between, the coordination state in memory
  and the one in the checkpoint file pass the checks the next start applies to it.
\<close>

theorem checkpoint_loads_again:
  assumes "table_ok tasks" "guarded_run (coord_step enc) op_admitted (fresh_scheduler ws tasks) ops s'"
  shows "validate enc (ts_coordination s') ws tasks = Ok () \<and>
    (\<forall>c. ts_saved s' = Some c \<longrightarrow> validate enc c ws tasks = Ok ())"
proof -
  have ok: "durable_ok enc s'" using coord.guarded_run_inv [OF assms(2) fresh_durable_ok [OF assms(1)]] .
  have fr: "ts_root s' = ws \<and> ts_tasks s' = tasks" using run_frame [OF assms(2)] by (simp add: fresh_scheduler_def)
  from ok fr show ?thesis by (simp add: durable_ok_def sched_ok_def coord_ok_valid validate_Ok_iff)
qed

section \<open>What is acknowledged is saved\<close>

text \<open>The event is queued, buffered, or filed as the completion of its task.\<close>

definition holds_event :: "coordination_state \<Rightarrow> task_inbox_event \<Rightarrow> bool" where
  "holds_event st ev \<longleftrightarrow> ev \<in> set (queued_events st) \<or> ev \<in> set (bt_values (cs_completion_receipts st))"

definition acknowledged_saved :: "task_inbox_event \<Rightarrow> inbox_append_result outcome \<Rightarrow> bool" where
  "acknowledged_saved ev out \<longleftrightarrow>
     (\<forall>r. fst out = Inr r \<longrightarrow>
        ts_saved (snd out) = Some (ts_coordination (snd out)) \<and>
        (r \<noteq> Stale \<longrightarrow> holds_event (ts_coordination (snd out)) ev))"

lemma acknowledged_saved_Err [simp]: "acknowledged_saved ev (Inl e, s)"
  by (simp add: acknowledged_saved_def)

lemma acknowledged_saved_persist [simp]:
  "acknowledged_saved ev (persist_err io e s)"
  "(r \<noteq> Stale \<longrightarrow> holds_event (ts_coordination s) ev) \<Longrightarrow> acknowledged_saved ev (persist_ok io r s)"
  by (auto simp: acknowledged_saved_def persist_ok_def persist_err_def persist_checkpoint_def
      split: persist_outcome.splits)

lemma holds_event_adjust [simp]: "holds_event (adjust_counters root f st) ev = holds_event st ev"
  by (simp add: holds_event_def adjust_counters_def queued_events_def pending_events_def)

lemma inbox_holds: "ev \<in> set (cs_inbox st) \<Longrightarrow> holds_event st ev"
  by (simp add: holds_event_def queued_events_def)

lemma promoted_inbox:
  "cs_inbox (promote_one k ev st) = cs_inbox st @ [ev]"
  "cs_stream_cursors (promote_one k ev st) = bt_adjust k next_cursor (cs_stream_cursors st)"
  "cs_inbox (mark_remaining_gap k st) = cs_inbox st"
  "stream_next k' (mark_remaining_gap k st) = stream_next k' st"
  "cs_inbox (clear_gap_reasons st) = cs_inbox st"
  "stream_next k' (clear_gap_reasons st) = stream_next k' st"
  "cs_inbox (drop_empty_buffer k st) = cs_inbox st"
  "stream_next k' (drop_empty_buffer k st) = stream_next k' st"
  by (auto simp: promote_one_def push_inbox_def project_event_stop_reason_def adjust_counters_def file_completion_def
      mark_remaining_gap_def stream_next_def clear_gap_reasons_def drop_empty_buffer_def bt_adjust_def
      split: option.splits list.splits)

text \<open>
  A run of events delivered in one operation: appended to the inbox, all of one stream, with
  consecutive sequence numbers from the one the cursor pointed at to the one it points at now.
\<close>

definition delivers ::
  "task_event_stream_id \<Rightarrow> coordination_state \<Rightarrow> task_inbox_event list \<Rightarrow> coordination_state \<Rightarrow> bool" where
  "delivers k st evs st' \<longleftrightarrow> cs_inbox st' = cs_inbox st @ evs \<and> (\<forall>e \<in> set evs. event_stream_id e = k) \<and>
     stream_next k st \<le> stream_next k st' \<and> map ie_sequence evs = [stream_next k st ..< stream_next k st']"

lemma delivers_Nil: "cs_inbox st' = cs_inbox st \<Longrightarrow> stream_next k st' = stream_next k st \<Longrightarrow> delivers k st [] st'"
  by (simp add: delivers_def)

lemma delivers_Cons:
  assumes "cs_inbox st1 = cs_inbox st @ [ev]" "event_stream_id ev = k" "ie_sequence ev = stream_next k st"
    "stream_next k st1 = Suc (stream_next k st)" "delivers k st1 evs st'"
  shows "delivers k st (ev # evs) st'"
  using assms by (auto simp: delivers_def upt_rec)

definition buffer_keyed :: "task_event_stream_id \<Rightarrow> coordination_state \<Rightarrow> bool" where
  "buffer_keyed k st \<longleftrightarrow> (\<forall>kv \<in> set (bt_get_or [] (cs_out_of_order st) k).
     ie_sequence (snd kv) = fst kv \<and> event_stream_id (snd kv) = k)"

lemma stream_next_advance:
  assumes "bt_get (cs_stream_cursors st) k = Some cu" "cs_stream_cursors st1 = bt_insert k (next_cursor cu) m"
  shows "stream_next k st1 = min u64_max (Suc (stream_next k st))"
  using assms by (simp add: stream_next_def next_cursor_def nat_saturating_add_def min_def)

lemma promote_loop_delivers:
  assumes "buffer_keyed k st" "bt_contains (cs_stream_cursors st) k" "stream_next k (promote_loop k st) < u64_max"
  shows "\<exists>evs. delivers k st evs (promote_loop k st)"
  using assms
proof (induction k st rule: promote_loop.induct)
  case (1 k st)
  show ?case
  proof (cases "take_pending k st")
    case None
    then show ?thesis
      using delivers_Nil [of "promote_loop k st" st k] by (auto simp: promote_loop.simps [of k st] promoted_inbox)
  next
    case (Some ev)
    let ?st1 = "promote_one k ev st"
    have loop: "promote_loop k st = promote_loop k ?st1" using Some by (simp add: promote_loop.simps [of k st])
    obtain cu where cu: "bt_get (cs_stream_cursors st) k = Some cu" using 1(3) by (auto simp: bt_contains_iff)
    have ev: "ie_sequence ev = stream_next k st" "event_stream_id ev = k"
      using Some 1(2) by (auto simp: take_pending_def buffer_keyed_def dest!: bt_get_mem)
    have "buffer_keyed k ?st1"
      using 1(2) by (auto simp: buffer_keyed_def promote_one_def bt_get_or_def bt_remove_def split: option.splits)
    moreover have "bt_contains (cs_stream_cursors ?st1) k" using cu by (simp add: promoted_inbox bt_contains_iff)
    ultimately obtain evs where evs: "delivers k ?st1 evs (promote_loop k st)"
      using 1(1) [OF Some] 1(4) loop by auto
    have "stream_next k ?st1 < u64_max" using evs 1(4) by (simp add: delivers_def)
    moreover have "stream_next k ?st1 = min u64_max (Suc (stream_next k st))"
      using cu by (intro stream_next_advance) (auto simp: promoted_inbox bt_adjust_def)
    ultimately have "stream_next k ?st1 = Suc (stream_next k st)" by (simp add: min_def split: if_splits)
    with delivers_Cons [OF _ ev(2,1) _ evs] show ?thesis by (auto simp: promoted_inbox)
  qed
qed

lemma promote_contiguous_delivers:
  assumes "buffer_keyed k st" "bt_contains (cs_stream_cursors st) k"
    "stream_next k (promote_contiguous_pending k st) < u64_max"
  shows "\<exists>evs. delivers k st evs (promote_contiguous_pending k st)"
  using promote_loop_delivers [of k st] assms
  by (simp add: promote_contiguous_pending_def promoted_inbox delivers_def)

lemma promote_loop_keeps: "ev \<in> set (cs_inbox st) \<Longrightarrow> ev \<in> set (cs_inbox (promote_loop k st))"
proof (induction k st rule: promote_loop.induct)
  case (1 k st)
  then show ?case by (cases "take_pending k st") (auto simp: promote_loop.simps [of k st] promoted_inbox)
qed

definition in_order :: "task_inbox_event \<Rightarrow> task_scheduler \<Rightarrow> inbox_append_result outcome \<Rightarrow> bool" where
  "in_order ev s out \<longleftrightarrow>
     (let k = event_stream_id ev in
      stream_next k (ts_coordination (snd out)) < u64_max \<longrightarrow>
      (\<exists>evs. delivers k (ts_coordination s) evs (ts_coordination (snd out)) \<and>
         (fst out = Inr Accepted \<longrightarrow> (\<exists>rest. evs = ev # rest))))"

lemma in_order_still:
  assumes "cs_inbox (ts_coordination (snd out)) = cs_inbox (ts_coordination s)"
    "stream_next (event_stream_id ev) (ts_coordination (snd out)) = stream_next (event_stream_id ev) (ts_coordination s)"
    "fst out \<noteq> Inr Accepted"
  shows "in_order ev s out"
  using delivers_Nil [OF assms(1,2)] assms(3) by (auto simp: in_order_def Let_def)

lemma persist_value: "fst (persist_ok io v s) = Inr r \<Longrightarrow> r = v"
  by (auto simp: persist_ok_def persist_checkpoint_def split: persist_outcome.splits)

lemma persist_err_value [simp]: "fst (persist_err io e s) \<noteq> Inr r"
  by (auto simp: persist_ok_def persist_err_def persist_checkpoint_def split: persist_outcome.splits)

lemma persist_not_accepted [simp]: "v \<noteq> Accepted \<Longrightarrow> fst (persist_ok io v s) \<noteq> Inr Accepted"
  using persist_value by metis

lemma still_effects [simp]:
  "cs_inbox (stop_with root why st) = cs_inbox st" "stream_next k (stop_with root why st) = stream_next k st"
  "cs_inbox (adjust_counters root f st) = cs_inbox st" "stream_next k (adjust_counters root f st) = stream_next k st"
  "cs_inbox (buffer_event k' ev st) = cs_inbox st" "stream_next k (buffer_event k' ev st) = stream_next k st"
  "cs_inbox (count_accepted_event bytes ev st) = cs_inbox st"
  "stream_next k (count_accepted_event bytes ev st) = stream_next k st"
  "cs_inbox (mark_gap k' n obs st) = cs_inbox st"
  by (simp_all add: stop_with_def adjust_counters_def stream_next_def buffer_event_def count_accepted_event_def mark_gap_def)

lemma stream_next_mark_gap: "stream_next k st = n \<Longrightarrow> stream_next k (mark_gap k n obs st) = n"
  by (auto simp: mark_gap_def stream_next_def fresh_cursor_def bt_get_or_def split: option.splits)

lemma in_order_update:
  assumes "cs_inbox (f (ts_coordination s)) = cs_inbox (ts_coordination s)"
    "stream_next (event_stream_id ev) (f (ts_coordination s)) = stream_next (event_stream_id ev) (ts_coordination s)"
  shows "in_order ev s (persist_err io e (update_coordination f s))"
    "v \<noteq> Accepted \<Longrightarrow> in_order ev s (persist_ok io v (update_coordination f s))"
  using assms by (auto intro!: in_order_still simp: update_coordination_def)

lemma in_order_same [simp]: "x \<noteq> Inr Accepted \<Longrightarrow> in_order ev s (x, s)"
  by (rule in_order_still) simp_all

lemma in_order_notes [simp]:
  "in_order ev s (refuse_full io ev s)" "in_order ev s (refuse_budget io ev s)"
  "in_order ev s (note_stale_event io root s)" "in_order ev s (note_duplicate_event io root s)"
  unfolding refuse_full_def refuse_budget_def note_stale_event_def note_duplicate_event_def
  by (rule in_order_update; simp)+

lemma append_ahead_in_order:
  assumes n: "n = stream_next (event_stream_id ev) (ts_coordination s)"
  shows "in_order ev s (append_ahead io enc p bytes n ev s)"
proof -
  let ?k = "event_stream_id ev"
  have gap: "in_order ev s (persist_err io e (update_coordination
      (stop_with (ie_root_task_id ev) RECONCILE_GAP \<circ> mark_gap ?k n (ie_observed_at_ms ev)) s))" for e
    using n by (intro in_order_update) (simp_all add: stream_next_mark_gap)
  have buf: "in_order ev s (persist_ok io BufferedOutOfOrder (update_coordination
      (stop_with (ie_root_task_id ev) AWAITING_GAP \<circ> mark_gap ?k n (ie_observed_at_ms ev) \<circ>
       count_accepted_event bytes ev \<circ> buffer_event ?k ev) s))"
    using n by (intro in_order_update) (simp_all add: stream_next_mark_gap)
  show ?thesis
    using gap buf by (simp add: append_ahead_def Let_def split: option.split)
qed

lemma enqueue_delivers:
  assumes n: "ie_sequence ev = stream_next (event_stream_id ev) st" and st': "enqueue_in_order bytes ev st = (r, st')"
  shows "r = Inr ()" "cs_inbox st' = cs_inbox st @ [ev]" "cs_out_of_order st' = cs_out_of_order st"
    "bt_contains (cs_stream_cursors st') (event_stream_id ev)"
    "stream_next (event_stream_id ev) st' = min u64_max (Suc (stream_next (event_stream_id ev) st))"
proof -
  let ?k = "event_stream_id ev"
  let ?cu = "bt_get_or (fresh_cursor 1) (cs_stream_cursors st) ?k"
  have cu: "cu_next_sequence ?cu = stream_next ?k st"
    by (simp add: bt_get_or_def stream_next_def fresh_cursor_def split: option.split)
  have keep: "cs_stream_cursors (count_accepted_event bytes ev st) = cs_stream_cursors st"
    by (simp add: count_accepted_event_def adjust_counters_def)
  have e: "r = Inr ()" "st' = push_inbox ev (project_event_stop_reason ev (file_completion ev
      ((count_accepted_event bytes ev st)\<lparr>cs_stream_cursors := bt_insert ?k (next_cursor ?cu) (cs_stream_cursors st)\<rparr>)))"
    using st' n cu keep by (simp_all add: enqueue_in_order_def Let_def)
  have cursors: "cs_stream_cursors st' = bt_insert ?k (next_cursor ?cu) (cs_stream_cursors st)"
    by (simp add: e(2) push_inbox_def project_event_stop_reason_def adjust_counters_def file_completion_def)
  show "r = Inr ()" by (rule e(1))
  show "cs_inbox st' = cs_inbox st @ [ev]"
    by (simp add: e(2) push_inbox_def project_event_stop_reason_def adjust_counters_def file_completion_def
        count_accepted_event_def)
  show "cs_out_of_order st' = cs_out_of_order st"
    by (simp add: e(2) count_accepted_event_def)
  show "bt_contains (cs_stream_cursors st') ?k" by (simp add: cursors bt_contains_iff)
  show "stream_next ?k st' = min u64_max (Suc (stream_next ?k st))"
    using cu by (simp add: stream_next_def [of ?k st'] cursors next_cursor_def nat_saturating_add_def min_def)
qed

lemma sched_ok_buffer_keyed:
  assumes "sched_ok enc s"
  shows "buffer_keyed k (ts_coordination s)"
proof (cases "bt_get (cs_out_of_order (ts_coordination s)) k")
  case None
  then show ?thesis by (simp add: buffer_keyed_def bt_get_or_def)
next
  case (Some m)
  then have "(k, m) \<in> set (cs_out_of_order (ts_coordination s))" by (rule bt_get_mem)
  then have "buffer_slack {} (ts_coordination s) k m"
    using assms coord_ok_events by (fastforce simp: sched_ok_def events_slack_def)
  with Some show ?thesis by (auto simp: buffer_keyed_def bt_get_or_def buffer_slack_def)
qed

lemma append_next_in_order:
  assumes ok: "sched_ok enc s" and n: "ie_sequence ev = stream_next (event_stream_id ev) (ts_coordination s)"
  shows "in_order ev s (append_next io enc p bytes ev s)" "acknowledged_saved ev (append_next io enc p bytes ev s)"
proof -
  let ?k = "event_stream_id ev" and ?st = "ts_coordination s"
  obtain r st1 where e: "enqueue_in_order bytes ev ?st = (r, st1)" by fastforce
  note q = enqueue_delivers [OF n e]
  let ?st2 = "promote_contiguous_pending ?k st1"
  have keyed: "buffer_keyed ?k st1" using sched_ok_buffer_keyed [OF ok, of ?k] q(3) by (simp add: buffer_keyed_def)
  have del: "\<exists>evs. delivers ?k ?st (ev # evs) ?st2" if end_lt: "stream_next ?k ?st2 < u64_max"
  proof -
    obtain evs where evs: "delivers ?k st1 evs ?st2"
      using promote_contiguous_delivers [OF keyed q(4) end_lt] by blast
    then have "stream_next ?k st1 = Suc (stream_next ?k ?st)"
      using end_lt q(5) by (auto simp: delivers_def min_def split: if_splits)
    with delivers_Cons [OF q(2) refl n _ evs] show ?thesis by blast
  qed
  have kept: "ev \<in> set (cs_inbox ?st2)"
    using promote_loop_keeps [of ev st1 ?k] q(2) by (simp add: promote_contiguous_pending_def promoted_inbox)
  have moved: "in_order ev s (x, s\<lparr>ts_coordination := ?st2\<rparr>)" if "x \<noteq> Inr Accepted" for x
    using del that unfolding in_order_def by (auto simp: Let_def)
  have acc: "in_order ev s (persist_ok io Accepted (s\<lparr>ts_coordination := ?st2\<rparr>))"
    using del unfolding in_order_def by (auto simp: Let_def)
  show "in_order ev s (append_next io enc p bytes ev s)"
    using moved acc q(1) by (simp add: append_next_def Let_def e split: sum.split)
  show "acknowledged_saved ev (append_next io enc p bytes ev s)"
    using inbox_holds [OF kept] q(1)
    by (simp add: append_next_def Let_def e refuse_full_def refuse_budget_def split: sum.split)
qed

lemma buffered_holds: "holds_event (buffer_event k ev st) ev"
proof -
  let ?m = "bt_entry k [] (bt_insert (ie_sequence ev) ev) (cs_out_of_order st)"
  let ?b = "bt_insert (ie_sequence ev) ev (bt_get_or [] (cs_out_of_order st) k)"
  have "?b \<in> set (bt_values ?m)" by (rule bt_get_in_values [of _ k]) simp
  moreover have "ev \<in> set (bt_values ?b)" by (rule bt_get_in_values [of _ "ie_sequence ev"]) simp
  ultimately show ?thesis
    by (auto simp: holds_event_def queued_events_def pending_events_def buffer_event_def)
qed

lemma pending_queued:
  assumes "bt_get (bt_get_or [] (cs_out_of_order st) k) n = Some ev"
  shows "ev \<in> set (queued_events st)"
proof -
  obtain m where m: "bt_get (cs_out_of_order st) k = Some m" "bt_get m n = Some ev"
    using assms by (auto simp: bt_get_or_def split: option.splits)
  show ?thesis
    using bt_get_in_values [OF m(1)] bt_get_in_values [OF m(2)]
    by (auto simp: queued_events_def pending_events_def)
qed

lemma holds_event_gap [simp]:
  "holds_event (mark_gap k n obs st) ev = holds_event st ev" "holds_event (stop_with root why st) ev = holds_event st ev"
  "holds_event (count_accepted_event bytes ev' st) ev = holds_event st ev"
  by (simp_all add: mark_gap_def stop_with_def count_accepted_event_def holds_event_def queued_events_def
      pending_events_def adjust_counters_def)

lemma append_ahead_saved:
  assumes "ev \<notin> set (queued_events (ts_coordination s))"
  shows "acknowledged_saved ev (append_ahead io enc p bytes n ev s)"
  using assms pending_queued [of "ts_coordination s" "event_stream_id ev" "ie_sequence ev" ev] buffered_holds
  by (auto simp: append_ahead_def Let_def refuse_full_def refuse_budget_def update_coordination_def
      split: option.split)

lemma note_saved [simp]:
  "acknowledged_saved ev (note_stale_event io root s)"
  "holds_event (ts_coordination s) ev \<Longrightarrow> acknowledged_saved ev (note_duplicate_event io root s)"
  by (simp_all add: note_stale_event_def note_duplicate_event_def update_coordination_def)

lemma append_in_stream_guarantees:
  assumes ok: "sched_ok enc s" and new: "ev \<notin> set (queued_events (ts_coordination s))"
  shows "in_order ev s (append_in_stream io enc p bytes ev s)"
    "acknowledged_saved ev (append_in_stream io enc p bytes ev s)"
proof -
  let ?n = "stream_next (event_stream_id ev) (ts_coordination s)"
  have full: "in_order ev s (persist_err io e (update_coordination (stop_with root why) s))" for e root why
    by (rule in_order_update) simp_all
  show "in_order ev s (append_in_stream io enc p bytes ev s)"
    using append_next_in_order(1) [OF ok, of ev io p bytes] append_ahead_in_order [of ?n ev s io enc p bytes] full
    by (simp add: append_in_stream_def Let_def)
  show "acknowledged_saved ev (append_in_stream io enc p bytes ev s)"
    using append_next_in_order(2) [OF ok, of ev io p bytes] append_ahead_saved [OF new, of io enc p bytes ?n]
    by (simp add: append_in_stream_def Let_def)
qed

lemma append_required_guarantees:
  assumes ok: "sched_ok enc s" and new: "ev \<notin> set (queued_events (ts_coordination s))"
  shows "in_order ev s (append_required io enc p bytes ev s)"
    "acknowledged_saved ev (append_required io enc p bytes ev s)"
proof -
  have dup: "holds_event (ts_coordination s) ev" if d: "check_completion ev (ts_coordination s) = CompletionDuplicate"
  proof (cases "bt_get (cs_completion_receipts (ts_coordination s)) (ie_task_id ev)")
    case None
    with d show ?thesis by (simp add: check_completion_def split: if_splits)
  next
    case (Some r)
    have "check_completion ev (ts_coordination s) \<noteq> CompletionDuplicate" if "r \<noteq> ev"
      using that unfolding check_completion_def Some option.case by simp
    with d have "r = ev" by blast
    then have "ev \<in> set (bt_values (cs_completion_receipts (ts_coordination s)))"
      using bt_get_in_values [OF Some] by blast
    then show ?thesis unfolding holds_event_def by blast
  qed
  show "in_order ev s (append_required io enc p bytes ev s)"
    using append_in_stream_guarantees(1) [OF assms]
    by (simp add: append_required_def split: sum.split completion_check.split)
  show "acknowledged_saved ev (append_required io enc p bytes ev s)"
    using append_in_stream_guarantees(2) [OF assms] dup
    by (simp add: append_required_def split: sum.split completion_check.split)
qed

lemma append_guarantees:
  assumes ok: "sched_ok enc s"
  shows "in_order ev s (append_task_inbox_event io enc ev s)"
    "acknowledged_saved ev (append_task_inbox_event io enc ev s)"
proof -
  let ?st = "ts_coordination s"
  let ?receipt = "find (\<lambda>r. ie_event_id r = ie_event_id ev) (bt_values (cs_completion_receipts ?st))"
  let ?queued = "find (\<lambda>q. ie_event_id q = ie_event_id ev) (queued_events ?st)"
  have bound: "in_order ev s (append_bound io enc bytes ev s)" "acknowledged_saved ev (append_bound io enc bytes ev s)"
    if "?queued = None" for bytes
  proof -
    have "ev \<notin> set (queued_events ?st)" using that by (auto simp: find_None_iff)
    from append_required_guarantees [OF ok this]
    show "in_order ev s (append_bound io enc bytes ev s)" "acknowledged_saved ev (append_bound io enc bytes ev s)"
      by (simp_all add: append_bound_def Let_def split: option.split)
  qed
  have dup: "holds_event ?st ev" if "?receipt = Some ev \<or> ?queued = Some ev"
    using that by (auto simp: holds_event_def find_Some_iff in_set_conv_nth)
  have "in_order ev s (append_task_inbox_event io enc ev s) \<and>
      acknowledged_saved ev (append_task_inbox_event io enc ev s)"
  proof (cases "validate_event enc ev (ts_root s)")
    case (Inl e)
    then show ?thesis by (simp add: append_task_inbox_event_def Let_def)
  next
    case v: (Inr u)
    show ?thesis
    proof (cases ?receipt)
      case (Some r)
      then show ?thesis using v dup by (simp add: append_task_inbox_event_def Let_def)
    next
      case None
      note none = this
      show ?thesis
      proof (cases ?queued)
        case (Some q)
        then show ?thesis using v none dup by (simp add: append_task_inbox_event_def Let_def)
      next
        case None
        then show ?thesis
          using v none bound by (cases "encoded_event_len enc ev") (simp_all add: append_task_inbox_event_def Let_def)
      qed
    qed
  qed
  then show "in_order ev s (append_task_inbox_event io enc ev s)"
    "acknowledged_saved ev (append_task_inbox_event io enc ev s)" by simp_all
qed

text \<open>
  Claim C4. Whenever appending an event returns without an error, the checkpoint file holds the
  state the operation ended in, and unless the answer is that the event is stale, the saved state
  holds the event, in the inbox, in a reorder buffer or as a completion receipt.
\<close>

theorem append_acknowledges_durably:
  assumes "sched_ok enc s" "append_task_inbox_event io enc ev s = (Ok r, s')"
  shows "ts_saved s' = Some (ts_coordination s') \<and> (r \<noteq> Stale \<longrightarrow> holds_event (ts_coordination s') ev)"
  using append_guarantees(2) [OF assms(1), of ev io] assms(2) by (simp add: acknowledged_saved_def)

text \<open>
  Claim C3. Appending an event adds to the inbox a run of events of its stream whose sequence
  numbers are exactly those from the stream's cursor before to the cursor after, without a gap or
  a repetition; an accepted event is the first of them.
\<close>

theorem append_delivers_in_order:
  assumes "sched_ok enc s" "append_task_inbox_event io enc ev s = (r, s')"
    "stream_next (event_stream_id ev) (ts_coordination s') < u64_max"
  shows "\<exists>evs. cs_inbox (ts_coordination s') = cs_inbox (ts_coordination s) @ evs \<and>
    (\<forall>e \<in> set evs. event_stream_id e = event_stream_id ev) \<and>
    map ie_sequence evs = [stream_next (event_stream_id ev) (ts_coordination s) ..<
                           stream_next (event_stream_id ev) (ts_coordination s')] \<and>
    (r = Ok Accepted \<longrightarrow> (\<exists>rest. evs = ev # rest))"
  using append_guarantees(1) [OF assms(1), of ev io] assms(2,3) by (auto simp: in_order_def Let_def delivers_def)

end
