(* ===== verification/Coord_Once.thy ===== *)
theory Coord_Once
  imports Coord_Guarantees
begin

text \<open>
  The life of a wake lease as a state machine, and the promise it serves: the owner of a root is
  woken at most once, whatever writes fail and however often the scheduler is started again.
\<close>

section \<open>The life of a lease\<close>

inductive lease_move :: "wake_lease_state \<Rightarrow> wake_lease_state \<Rightarrow> bool" where
  lease_dispatch: "lease_move Reserved Dispatching"
| lease_expire: "lease_move Reserved UnknownOutcome"
| lease_deliver: "lease_move Dispatching Delivered"
| lease_fail: "lease_move Dispatching FailedBeforeDispatch"
| lease_lose: "lease_move Dispatching UnknownOutcome"
| lease_found: "lease_move UnknownOutcome Delivered"
| lease_not_found: "lease_move UnknownOutcome FailedBeforeDispatch"
| lease_settle: "lease_move Delivered SettledLease"

declare lease_move.intros [simp, intro]

inductive_cases lease_move_to_ReservedE [elim!]: "lease_move x Reserved"
inductive_simps lease_move_from_simps [simp]: "lease_move SettledLease y" "lease_move FailedBeforeDispatch y"

definition lease_kept :: "owner_wake_lease \<Rightarrow> owner_wake_lease \<Rightarrow> bool" where
  "lease_kept l l' \<longleftrightarrow>
     wl_lease_id l' = wl_lease_id l \<and> wl_root_task_id l' = wl_root_task_id l \<and>
     wl_owner_session_id l' = wl_owner_session_id l \<and> wl_owner_turn_id l' = wl_owner_turn_id l \<and>
     wl_event_ids l' = wl_event_ids l \<and> (wl_state l' = wl_state l \<or> lease_move (wl_state l) (wl_state l'))"

definition leases_evolve :: "coordination_state \<Rightarrow> coordination_state \<Rightarrow> bool" where
  "leases_evolve st st' \<longleftrightarrow>
     (\<forall>i l. bt_get (cs_wake_leases st) i = Some l \<longrightarrow>
        (\<exists>l'. bt_get (cs_wake_leases st') i = Some l' \<and> lease_kept l l')) \<and>
     (\<forall>i l'. bt_get (cs_wake_leases st) i = None \<longrightarrow> bt_get (cs_wake_leases st') i = Some l' \<longrightarrow>
        wl_state l' = Reserved)"

lemma leases_evolve_same: "cs_wake_leases st' = cs_wake_leases st \<Longrightarrow> leases_evolve st st'"
  by (simp add: leases_evolve_def lease_kept_def)

lemma leases_evolve_set:
  assumes "bt_get (cs_wake_leases st) i = Some l" "lease_kept l l'"
    "cs_wake_leases st' = bt_insert i l' (cs_wake_leases st)"
  shows "leases_evolve st st'"
  using assms by (auto simp: leases_evolve_def lease_kept_def)

lemma leases_evolve_new:
  assumes "bt_get (cs_wake_leases st) i = None" "wl_state l = Reserved"
    "cs_wake_leases st' = bt_insert i l (cs_wake_leases st)"
  shows "leases_evolve st st'"
  using assms by (auto simp: leases_evolve_def lease_kept_def)

section \<open>Operations that leave the leases alone\<close>

lemma leases_untouched [simp]:
  "cs_wake_leases (adjust_counters r f st) = cs_wake_leases st"
  "cs_wake_leases (stop_with r why st) = cs_wake_leases st"
  "cs_wake_leases (count_accepted_event b ev st) = cs_wake_leases st"
  "cs_wake_leases (count_unknown r reason st) = cs_wake_leases st"
  "cs_wake_leases (mark_gap k n obs st) = cs_wake_leases st"
  "cs_wake_leases (buffer_event k ev st) = cs_wake_leases st"
  "cs_wake_leases (push_inbox ev st) = cs_wake_leases st"
  "cs_wake_leases (file_completion ev st) = cs_wake_leases st"
  "cs_wake_leases (project_event_stop_reason ev st) = cs_wake_leases st"
  "cs_wake_leases (mark_remaining_gap k st) = cs_wake_leases st"
  "cs_wake_leases (drop_empty_buffer k st) = cs_wake_leases st"
  "cs_wake_leases (clear_gap_reasons st) = cs_wake_leases st"
  "cs_wake_leases (promote_one k ev st) = cs_wake_leases st"
  "cs_wake_leases (file_prior_attempt bd t a st) = cs_wake_leases st"
  by (simp_all add: adjust_counters_def stop_with_def count_accepted_event_def count_unknown_def mark_gap_def
      buffer_event_def push_inbox_def file_completion_def project_event_stop_reason_def mark_remaining_gap_def
      drop_empty_buffer_def clear_gap_reasons_def promote_one_def file_prior_attempt_def Let_def
      split: option.split list.split)

lemma promote_loop_leases [simp]: "cs_wake_leases (promote_loop k st) = cs_wake_leases st"
proof (induction k st rule: promote_loop.induct)
  case (1 k st)
  then show ?case by (cases "take_pending k st") (simp_all add: promote_loop.simps [of k st])
qed

lemma promote_leases [simp]: "cs_wake_leases (promote_contiguous_pending k st) = cs_wake_leases st"
  by (simp add: promote_contiguous_pending_def)

lemma enqueue_leases: "enqueue_in_order bytes ev st = (r, st') \<Longrightarrow> cs_wake_leases st' = cs_wake_leases st"
  by (auto simp: enqueue_in_order_def Let_def split: if_splits)

lemma update_leases [simp]: "ts_coordination (update_coordination f s) = f (ts_coordination s)"
  by (simp add: update_coordination_def)

lemma append_next_leases:
  "cs_wake_leases (ts_coordination (snd (append_next io enc p bytes ev s))) = cs_wake_leases (ts_coordination s)"
proof -
  obtain r st' where e: "enqueue_in_order bytes ev (ts_coordination s) = (r, st')" by fastforce
  show ?thesis
    using enqueue_leases [OF e]
    by (simp add: append_next_def Let_def e refuse_full_def refuse_budget_def split: sum.split)
qed

lemma append_in_stream_leases:
  "cs_wake_leases (ts_coordination (snd (append_in_stream io enc p bytes ev s))) = cs_wake_leases (ts_coordination s)"
proof -
  have "cs_wake_leases (ts_coordination (snd (append_ahead io enc p bytes n ev s))) = cs_wake_leases (ts_coordination s)"
    for n
    by (simp add: append_ahead_def Let_def refuse_full_def refuse_budget_def split: option.split)
  then show ?thesis by (simp add: append_in_stream_def Let_def append_next_leases note_stale_event_def)
qed

lemma append_leases:
  "cs_wake_leases (ts_coordination (snd (append_task_inbox_event io enc ev s))) = cs_wake_leases (ts_coordination s)"
proof -
  have "cs_wake_leases (ts_coordination (snd (append_required io enc p bytes ev s))) = cs_wake_leases (ts_coordination s)"
    for p bytes
    by (simp add: append_required_def append_in_stream_leases note_stale_event_def note_duplicate_event_def
        split: sum.split completion_check.split)
  then have "cs_wake_leases (ts_coordination (snd (append_bound io enc bytes ev s))) = cs_wake_leases (ts_coordination s)"
    for bytes
    by (simp add: append_bound_def Let_def note_stale_event_def split: option.split)
  then show ?thesis
    by (simp add: append_task_inbox_event_def Let_def note_duplicate_event_def split: option.split sum.split)
qed

lemma resolve_leases:
  "cs_wake_leases (ts_coordination (snd (resolve_task_binding io i root t a child call s))) =
   cs_wake_leases (ts_coordination s)"
  by (cases rule: resolve_cases [of io i root t a child call s]) (simp_all add: Let_def)

lemma other_leases:
  "cs_wake_leases (ts_coordination (snd (begin_task_binding io b s))) = cs_wake_leases (ts_coordination s)"
  "cs_wake_leases (ts_coordination (snd (mark_binding_reconciliation_required io i reason s))) = cs_wake_leases (ts_coordination s)"
  "cs_wake_leases (ts_coordination (snd (register_root_wake_policy io p s))) = cs_wake_leases (ts_coordination s)"
  "cs_wake_leases (ts_coordination (snd (acknowledge_task_inbox_event io i s))) = cs_wake_leases (ts_coordination s)"
  by (simp_all add: begin_task_binding_def mark_binding_reconciliation_required_def register_root_wake_policy_def
      acknowledge_task_inbox_event_def Let_def split: option.split sum.split)

section \<open>Operations on leases\<close>

lemma reserve_evolves: "leases_evolve (ts_coordination s) (ts_coordination (snd (reserve_owner_wake io root i now d s)))"
proof -
  have "leases_evolve (ts_coordination s) (record_lease (new_lease i root p rs now d) (ts_coordination s))"
    if "bt_get (cs_wake_leases (ts_coordination s)) i = None" for p rs
    using that by (intro leases_evolve_new [of _ i "new_lease i root p rs now d"]) (simp_all add: new_lease_def record_lease_def)
  then show ?thesis
    by (auto simp: reserve_owner_wake_def Let_def leases_evolve_same split: option.split sum.split)
qed

lemma dispatching_evolves: "leases_evolve (ts_coordination s) (ts_coordination (snd (mark_owner_wake_dispatching io i now s)))"
proof (cases "bt_get (cs_wake_leases (ts_coordination s)) i")
  case None
  then show ?thesis by (simp add: mark_owner_wake_dispatching_def leases_evolve_same)
next
  case (Some l)
  have expired: "leases_evolve (ts_coordination s) st'"
    if "wl_state l = Reserved" "cs_wake_leases st' = bt_insert i (l\<lparr>wl_state := UnknownOutcome, wl_stop_reason := why\<rparr>)
        (cs_wake_leases (ts_coordination s))" for st' why
    using that by (intro leases_evolve_set [OF Some]) (auto simp: lease_kept_def)
  have sent: "leases_evolve (ts_coordination s) st'"
    if "wl_state l = Reserved" "cs_wake_leases st' = bt_insert i (l\<lparr>wl_state := Dispatching\<rparr>)
        (cs_wake_leases (ts_coordination s))" for st'
    using that by (intro leases_evolve_set [OF Some]) (auto simp: lease_kept_def)
  show ?thesis
    using Some expired [of _ "Some EXPIRED_WAKE"] sent
    by (simp add: mark_owner_wake_dispatching_def Let_def leases_evolve_same set_lease_def)
qed

lemma finish_evolves: "leases_evolve (ts_coordination s) (ts_coordination (snd (finish_owner_wake_dispatch io i d reason s)))"
proof (cases "bt_get (cs_wake_leases (ts_coordination s)) i")
  case None
  then show ?thesis by (simp add: finish_owner_wake_dispatch_def leases_evolve_same split: sum.split)
next
  case (Some l)
  have kept: "lease_kept l (apply_outcome d reason l)" if "wl_state l = Dispatching"
    using that by (cases d) (simp_all add: lease_kept_def)
  have "leases_evolve (ts_coordination s) st'"
    if "wl_state l = Dispatching"
      "cs_wake_leases st' = bt_insert i (apply_outcome d reason l) (cs_wake_leases (ts_coordination s))" for st'
    using leases_evolve_set [OF Some kept that(2)] that(1) by blast
  then show ?thesis
    using Some by (simp add: finish_owner_wake_dispatch_def Let_def leases_evolve_same set_lease_def split: sum.split)
qed

lemma reconcile_evolves: "leases_evolve (ts_coordination s) (ts_coordination (snd (reconcile_owner_wake io i d s)))"
proof (cases "bt_get (cs_wake_leases (ts_coordination s)) i")
  case None
  then show ?thesis by (simp add: reconcile_owner_wake_def leases_evolve_same)
next
  case (Some l)
  have "leases_evolve (ts_coordination s) st'"
    if "wl_state l = UnknownOutcome" "cs_wake_leases st' = bt_insert i
        (l\<lparr>wl_state := if d then Delivered else FailedBeforeDispatch, wl_stop_reason := None\<rparr>) (cs_wake_leases (ts_coordination s))" for st'
    using that by (intro leases_evolve_set [OF Some]) (auto simp: lease_kept_def)
  then show ?thesis
    using Some by (simp add: reconcile_owner_wake_def Let_def leases_evolve_same set_lease_def)
qed

lemma settle_evolves: "leases_evolve (ts_coordination s) (ts_coordination (snd (settle_owner_wake io i o_s o_t s)))"
proof (cases "bt_get (cs_wake_leases (ts_coordination s)) i")
  case None
  then show ?thesis by (simp add: settle_owner_wake_def leases_evolve_same)
next
  case (Some l)
  have "leases_evolve (ts_coordination s) st'"
    if "wl_state l = Delivered"
      "cs_wake_leases st' = bt_insert i (l\<lparr>wl_state := SettledLease\<rparr>) (cs_wake_leases (ts_coordination s))" for st'
    using that by (intro leases_evolve_set [OF Some]) (auto simp: lease_kept_def)
  then show ?thesis
    using Some by (simp add: settle_owner_wake_def Let_def leases_evolve_same set_lease_def)
qed

lemma recover_evolves:
  assumes "bt_wf (cs_wake_leases st)"
  shows "leases_evolve st (snd (mark_interrupted_wake_dispatches_unknown st))"
proof -
  have "leases_evolve st (fold interrupt_lease kvs st1)"
    if "leases_evolve st st1" "\<forall>kv \<in> set kvs. bt_get (cs_wake_leases st) (fst kv) = Some (snd kv) \<and>
        bt_get (cs_wake_leases st1) (fst kv) = Some (snd kv)" "distinct (map fst kvs)" for kvs st1
    using that
  proof (induction kvs arbitrary: st1)
    case (Cons kv kvs)
    have "leases_evolve st (interrupt_lease kv st1)"
      using Cons.prems(1,2) by (auto simp: leases_evolve_def interrupt_lease_def Let_def set_lease_def lease_kept_def)
    moreover have "\<forall>k \<in> set kvs. bt_get (cs_wake_leases (interrupt_lease kv st1)) (fst k) = Some (snd k)"
      using Cons.prems(2,3) by (auto simp: interrupt_lease_def Let_def set_lease_def image_iff)
    ultimately show ?case using Cons.IH Cons.prems by simp
  qed simp
  with assms show ?thesis
    using leases_evolve_same [of st st] bt_wf_distinct [OF assms]
    by (simp add: mark_interrupted_wake_dispatches_unknown_def bt_get_iff_mem)
qed

section \<open>At most one wake\<close>

text \<open>The checkpoint a restart begins from is the one that was saved.\<close>

definition step_base :: "task_scheduler \<Rightarrow> coord_op \<Rightarrow> coordination_state" where
  "step_base s op =
     (if op = Restart then (case ts_saved s of None \<Rightarrow> default_coordination | Some c \<Rightarrow> c) else ts_coordination s)"

text \<open>
  Claim C5. Along every admitted operation each wake lease is kept with its identity, its owner
  and its receipts, and its state stays or takes one step of the life of a lease; a lease that
  appears is reserved. A restart takes these steps from the saved state, or changes nothing when
  the saved state is refused.
\<close>

theorem leases_follow_their_life:
  assumes "durable_ok enc s" "op_admitted s (io, op)"
  shows "leases_evolve (step_base s op) (ts_coordination (coord_step enc s (io, op))) \<or>
    op = Restart \<and> coord_step enc s (io, op) = s"
proof (cases op)
  case Restart
  let ?st = "case ts_saved s of None \<Rightarrow> default_coordination | Some c \<Rightarrow> c"
  have "bt_wf (cs_wake_leases ?st)"
    using assms(1) coord_okW by (auto simp: durable_ok_def coord_wf_def default_coordination_def split: option.splits)
  from recover_evolves [OF this] Restart show ?thesis
    by (auto simp: step_base_def restart_coordination_def Let_def split: sum.splits prod.splits)
qed (simp_all add: step_base_def leases_evolve_same append_leases resolve_leases other_leases reserve_evolves
    dispatching_evolves finish_evolves reconcile_evolves settle_evolves)

definition spent :: "task_id \<Rightarrow> coordination_state \<Rightarrow> bool" where
  "spent root st \<longleftrightarrow> (\<exists>i l. bt_get (cs_wake_leases st) i = Some l \<and> wl_root_task_id l = root \<and> wl_state l \<noteq> Reserved)"

lemma spent_mono: "leases_evolve st st' \<Longrightarrow> spent root st \<Longrightarrow> spent root st'"
  unfolding leases_evolve_def spent_def lease_kept_def by (metis lease_move_to_ReservedE)

lemma step_evolves:
  assumes "op \<noteq> Restart"
  shows "leases_evolve (ts_coordination s) (ts_coordination (coord_step enc s (io, op)))"
  using assms
  by (cases op) (simp_all add: leases_evolve_same append_leases resolve_leases other_leases reserve_evolves
      dispatching_evolves finish_evolves reconcile_evolves settle_evolves)

definition sealed :: "task_id \<Rightarrow> task_scheduler \<Rightarrow> bool" where
  "sealed root s \<longleftrightarrow> spent root (ts_coordination s) \<and> (\<exists>c. ts_saved s = Some c \<and> spent root c)"

lemma sealed_step:
  assumes ok: "durable_ok enc s" and sealed: "sealed root s"
  shows "sealed root (coord_step enc s (io, op))"
proof (cases "op = Restart")
  case False
  then have "spent root (ts_coordination (coord_step enc s (io, op)))"
    using spent_mono [OF step_evolves] sealed by (simp add: sealed_def)
  then show ?thesis
    using step_ends_saved [of s enc io op] sealed by (auto simp: sealed_def ends_saved_def)
next
  case True
  obtain c where c: "ts_saved s = Some c" "spent root c" using sealed by (auto simp: sealed_def)
  have "bt_wf (cs_wake_leases c)" using ok c(1) coord_okW by (auto simp: durable_ok_def coord_wf_def)
  from spent_mono [OF recover_evolves [OF this] c(2)]
  have "spent root (ts_coordination (coord_step enc s (io, Restart)))"
    using c(1) sealed by (auto simp: restart_coordination_def Let_def sealed_def split: sum.split prod.split)
  with True show ?thesis
    using step_ends_saved [of s enc io Restart] c by (auto simp: sealed_def ends_saved_def)
qed

text \<open>An operation wakes the owner of a root when it hands out a lease of the root for dispatch.\<close>

fun wakes_owner :: "task_id \<Rightarrow> task_scheduler \<Rightarrow> checkpoint_io \<times> coord_op \<Rightarrow> bool" where
  "wakes_owner root s (io, MarkDispatching i now) =
     (case fst (mark_owner_wake_dispatching io i now s) of
        Inl _ \<Rightarrow> False | Inr l \<Rightarrow> wl_root_task_id l = root)"
| "wakes_owner root s _ = False"

fun owner_wakes ::
  "event_encoder \<Rightarrow> task_id \<Rightarrow> task_scheduler \<Rightarrow> (checkpoint_io \<times> coord_op) list \<Rightarrow> nat" where
  "owner_wakes enc root s [] = 0"
| "owner_wakes enc root s (e # es) =
     (if wakes_owner root s e then 1 else 0) + owner_wakes enc root (coord_step enc s e) es"

lemma persist_ok_saved: "fst (persist_ok io v s) = Inr r \<Longrightarrow> ts_saved (snd (persist_ok io v s)) = Some (ts_coordination s)"
  by (auto simp: persist_ok_def persist_checkpoint_def split: persist_outcome.splits)

lemma dispatch_Ok:
  assumes "fst (mark_owner_wake_dispatching io i now s) = Inr l'"
  obtains l where "bt_get (cs_wake_leases (ts_coordination s)) i = Some l" "wl_state l = Reserved"
    "l' = l\<lparr>wl_state := Dispatching\<rparr>"
    "bt_get (cs_wake_leases (ts_coordination (snd (mark_owner_wake_dispatching io i now s)))) i = Some l'"
    "ts_saved (snd (mark_owner_wake_dispatching io i now s)) = Some (ts_coordination (snd (mark_owner_wake_dispatching io i now s)))"
proof (cases "bt_get (cs_wake_leases (ts_coordination s)) i")
  case None
  then show ?thesis using assms by (simp add: mark_owner_wake_dispatching_def)
next
  case (Some l)
  let ?s = "update_coordination (adjust_counters (wl_root_task_id l)
       (\<lambda>c. c\<lparr>co_wake_dispatches := nat_saturating_add u32_max (co_wake_dispatches c) 1\<rparr>) \<circ>
     set_lease i (l\<lparr>wl_state := Dispatching\<rparr>)) s"
  have st: "wl_state l = Reserved"
    using assms Some by (cases "wl_state l") (simp_all add: mark_owner_wake_dispatching_def)
  have "\<not> wl_expires_at_ms l \<le> now"
    by (rule notI) (use assms Some st in \<open>simp add: mark_owner_wake_dispatching_def\<close>)
  then have run: "mark_owner_wake_dispatching io i now s = persist_ok io (l\<lparr>wl_state := Dispatching\<rparr>) ?s"
    using Some st by (simp add: mark_owner_wake_dispatching_def Let_def)
  have l': "l' = l\<lparr>wl_state := Dispatching\<rparr>" using assms unfolding run by (rule persist_value)
  have saved: "ts_saved (snd (persist_ok io (l\<lparr>wl_state := Dispatching\<rparr>) ?s)) = Some (ts_coordination ?s)"
    using assms unfolding run by (rule persist_ok_saved)
  show ?thesis
    by (rule that [OF Some st l']) (use saved in \<open>simp_all add: run l' set_lease_def\<close>)
qed

lemma wake_seals:
  assumes ok: "durable_ok enc s" and wake: "wakes_owner root s e"
  shows "\<not> spent root (ts_coordination s)" "sealed root (coord_step enc s e)"
proof -
  obtain io i now where e: "e = (io, MarkDispatching i now)" using wake by (cases "(root, s, e)" rule: wakes_owner.cases) auto
  obtain l' where l': "fst (mark_owner_wake_dispatching io i now s) = Inr l'" "wl_root_task_id l' = root"
    using wake by (auto simp: e split: sum.splits)
  obtain l where l: "bt_get (cs_wake_leases (ts_coordination s)) i = Some l" "wl_state l = Reserved"
    "l' = l\<lparr>wl_state := Dispatching\<rparr>"
    "bt_get (cs_wake_leases (ts_coordination (snd (mark_owner_wake_dispatching io i now s)))) i = Some l'"
    "ts_saved (snd (mark_owner_wake_dispatching io i now s)) = Some (ts_coordination (snd (mark_owner_wake_dispatching io i now s)))"
    using dispatch_Ok [OF l'(1)] by metis
  have root: "wl_root_task_id l = root" using l(3) l'(2) by simp
  have ok': "coord_ok {} enc (ts_root s) (ts_tasks s) (ts_coordination s)"
    using ok by (simp add: durable_ok_def sched_ok_def)
  show "\<not> spent root (ts_coordination s)"
  proof
    assume "spent root (ts_coordination s)"
    then obtain j k where k: "bt_get (cs_wake_leases (ts_coordination s)) j = Some k" "wl_root_task_id k = root"
        "wl_state k \<noteq> Reserved" by (auto simp: spent_def)
    have "j = i" using one_lease_per_root [OF ok' k(1) l(1)] k(2) root by simp
    with k l show False by simp
  qed
  have "wl_state l' \<noteq> Reserved" using l(3) by simp
  with l(4) l'(2) have "spent root (ts_coordination (coord_step enc s e))" by (auto simp: spent_def e)
  with l(5) show "sealed root (coord_step enc s e)" by (simp add: sealed_def e)
qed

lemma owner_wakes_bound:
  "guarded_run (coord_step enc) op_admitted s ops s' \<Longrightarrow> durable_ok enc s \<Longrightarrow>
   owner_wakes enc root s ops \<le> 1 \<and> (sealed root s \<longrightarrow> owner_wakes enc root s ops = 0)"
proof (induction rule: guarded_run.induct)
  case (guarded_run_Cons s e es s')
  have next_ok: "durable_ok enc (coord_step enc s e)" using step_durable_ok [OF guarded_run_Cons.prems guarded_run_Cons.hyps(1)] .
  show ?case
  proof (cases "wakes_owner root s e")
    case True
    then show ?thesis
      using wake_seals [OF guarded_run_Cons.prems True] guarded_run_Cons.IH [OF next_ok] by (auto simp: sealed_def)
  next
    case False
    then show ?thesis
      using guarded_run_Cons.IH [OF next_ok] sealed_step [OF guarded_run_Cons.prems, of root "fst e" "snd e"] by auto
  qed
qed simp

text \<open>
  Claim C2. From an empty scheduler, whatever admitted operations run, with failing writes and
  restarts in between, the owner of a root task is handed at most one wake.
\<close>

theorem owner_woken_at_most_once:
  assumes "table_ok tasks" "guarded_run (coord_step enc) op_admitted (fresh_scheduler ws tasks) ops s'"
  shows "owner_wakes enc root (fresh_scheduler ws tasks) ops \<le> 1"
  using owner_wakes_bound [OF assms(2) fresh_durable_ok [OF assms(1)]] by blast

end
