(* ===== verification/Coord_Demo.thy ===== *)
theory Coord_Demo
  imports Coord_Once
begin

text \<open>
  A concrete workspace on which the hypotheses of the coordination theorems are met: a root
  \<open>''r''\<close> whose child \<open>''c''\<close> has succeeded with evidence. The child is bound, the root gets a wake
  policy, the completion arrives, and the wake is reserved and dispatched.
\<close>

fun guards_hold :: "('s \<Rightarrow> 'e \<Rightarrow> 's) \<Rightarrow> ('s \<Rightarrow> 'e \<Rightarrow> bool) \<Rightarrow> 's \<Rightarrow> 'e list \<Rightarrow> bool" where
  "guards_hold step guard s [] \<longleftrightarrow> True"
| "guards_hold step guard s (e # es) \<longleftrightarrow> guard s e \<and> guards_hold step guard (step s e) es"

lemma guarded_run_foldl: "guards_hold step guard s es \<Longrightarrow> guarded_run step guard s es (foldl step s es)"
  by (induction es arbitrary: s) auto

definition demo_task :: "task_id \<Rightarrow> task_id list \<Rightarrow> task_state \<Rightarrow> task_evidence list \<Rightarrow> task_record" where
  "demo_task t deps state evs =
     \<lparr>tr_snapshot =
        \<lparr>sn_id = t, sn_title = ''t'', sn_goal = ''g'', sn_prompt = ''p'', sn_role = ''w'', sn_dependencies = deps,
         sn_assigned_agent = None, sn_worktree = ''w'', sn_model = None, sn_thinking = None,
         sn_budget = \<lparr>max_runtime_seconds = 60, max_events = 10, max_tokens = None\<rparr>,
         sn_verification = TrustedCustom ''v'', sn_retry = \<lparr>max_retries = 0, backoff_seconds = 0\<rparr>,
         sn_state = state, sn_attempt = 1, sn_observed_tokens = 0, sn_created_at_ms = 0, sn_started_at_ms = None,
         sn_completed_at_ms = None, sn_updated_at_ms = 0, sn_last_error = None, sn_evidence = evs,
         sn_blocked_override = False, sn_recovery_pending = False, sn_evidence_truncated = False\<rparr>,
      tr_next_retry_at_ms = None\<rparr>"

definition demo_child :: task_record where
  "demo_child = demo_task ''c'' [] Succeeded
     [\<lparr>ev_kind = ''trustedCustom'', ev_actor = ''a'', ev_source = ''s'', ev_passed = Some True, ev_observed_at_ms = 0,
       ev_attempt = 1, ev_details = JNull\<rparr>]"

definition demo_root :: task_record where
  "demo_root = demo_task ''r'' [''c''] Queued []"

definition demo_tasks :: task_table where
  "demo_tasks = [(''c'', demo_child), (''r'', demo_root)]"

definition demo_intent :: "string \<Rightarrow> task_binding_intent" where
  "demo_intent i = \<lparr>bi_intent_id = i, bi_workspace_id = ''w'', bi_core_session_id = ''o'', bi_todo_id = ''T1'',
     bi_todo_revision = 1, bi_plan_revision = 1\<rparr>"

definition demo_policy :: root_wake_policy where
  "demo_policy = \<lparr>wp_version = 1, wp_root_task_id = ''r'', wp_owner_session_id = ''o'', wp_owner_turn_id = ''u'',
     wp_required_task_ids = [''c''], wp_max_events = 5, wp_max_event_bytes = 1000, wp_max_owner_wakes = 1,
     wp_reserved_wakes = 0\<rparr>"

definition demo_event :: task_inbox_event where
  "demo_event = \<lparr>ie_event_id = ''e'', ie_workspace_id = ''w'', ie_root_task_id = ''r'', ie_task_id = ''c'',
     ie_attempt = 1, ie_parent_session_id = ''o'', ie_recipient_session_id = ''o'', ie_child_session_id = ''k'',
     ie_parent_call_id = ''p'', ie_sequence = 1, ie_kind = VerifiedCompletion, ie_redacted_summary = ''s'',
     ie_parent_redaction_applied = True, ie_observed_at_ms = 7\<rparr>"

definition demo_enc :: event_encoder where
  "demo_enc ev = Some 100"

definition always :: checkpoint_io where
  "always s = Persisted"

definition demo_saved :: "coordination_state \<Rightarrow> task_scheduler" where
  "demo_saved c = \<lparr>ts_root = ''w'', ts_tasks = demo_tasks, ts_coordination = c, ts_saved = Some c\<rparr>"

definition demo_binding :: task_execution_binding where
  "demo_binding = \<lparr>tb_version = 1, tb_intent = demo_intent ''i'', tb_root_task_id = None, tb_task_id = None,
     tb_attempt = None, tb_child_session_id = None, tb_parent_call_id = None, tb_status = Pending, tb_stop_reason = None\<rparr>"

definition demo_begun :: coordination_state where
  "demo_begun = default_coordination\<lparr>cs_bindings := [(''i'', demo_binding)]\<rparr>"

definition demo_resolved :: coordination_state where
  "demo_resolved = default_coordination\<lparr>cs_bindings := [(''i'', resolve_binding ''r'' ''c'' 1 ''k'' ''p'' demo_binding)]\<rparr>"

definition demo_registered :: coordination_state where
  "demo_registered = demo_resolved\<lparr>cs_wake_policies := [(''r'', demo_policy)]\<rparr>"

definition demo_received :: coordination_state where
  "demo_received = demo_registered
     \<lparr>cs_inbox := [demo_event], cs_completion_receipts := [(''c'', demo_event)],
      cs_stream_cursors := [(event_stream_id demo_event, fresh_cursor 2)],
      cs_counters := [(''r'', default_counters\<lparr>co_accepted_events := 1, co_accepted_event_bytes := 100\<rparr>)]\<rparr>"

definition demo_lease :: owner_wake_lease where
  "demo_lease = new_lease ''l'' ''r'' demo_policy [demo_event] 1000 500"

definition demo_reserved :: coordination_state where
  "demo_reserved = record_lease demo_lease demo_received"

lemma demo_saved_fields [simp]:
  "ts_root (demo_saved c) = ''w''" "ts_tasks (demo_saved c) = demo_tasks" "ts_coordination (demo_saved c) = c"
  "persist_ok always v (update_coordination f (demo_saved c)) = (Ok v, demo_saved (f c))"
  by (simp_all add: demo_saved_def persist_ok_def persist_checkpoint_def always_def update_coordination_def)

lemma demo_event_fields [simp]:
  "ie_event_id demo_event = ''e''" "ie_root_task_id demo_event = ''r''" "ie_task_id demo_event = ''c''"
  "ie_attempt demo_event = 1" "ie_kind demo_event = VerifiedCompletion" "ie_sequence demo_event = 1"
  "ie_parent_session_id demo_event = ''o''"
  by (simp_all add: demo_event_def)

lemma demo_policy_fields [simp]:
  "wp_owner_session_id demo_policy = ''o''" "wp_required_task_ids demo_policy = [''c'']" "wp_reserved_wakes demo_policy = 0"
  "wp_max_owner_wakes demo_policy = 1" "wp_max_events demo_policy = 5" "wp_max_event_bytes demo_policy = 1000"
  by (simp_all add: demo_policy_def)

lemma demo_table_ok: "table_ok demo_tasks"
  by (simp add: table_ok_def demo_tasks_def MAX_TASKS_def bt_wf_def)

lemma demo_get [simp]: "bt_get demo_tasks ''c'' = Some demo_child" "bt_get demo_tasks ''r'' = Some demo_root"
  by (simp_all add: demo_tasks_def bt_get_def)

lemma demo_fields [simp]:
  "sn_attempt (tr_snapshot demo_child) = 1" "sn_state (tr_snapshot demo_child) = Succeeded"
  "sn_verification (tr_snapshot demo_child) = TrustedCustom ''v''" "sn_verification (tr_snapshot demo_root) = TrustedCustom ''v''"
  "sn_dependencies (tr_snapshot demo_root) = [''c'']"
  "max_events (sn_budget (tr_snapshot demo_child)) = 10" "has_required_attempt_evidence (tr_snapshot demo_child)"
  by (simp_all add: demo_child_def demo_root_def demo_task_def has_required_attempt_evidence_def evidence_kind_def
      evidence_satisfies_def)

lemma demo_descendant [simp]: "task_is_descendant ''r'' ''c'' demo_tasks"
  by (simp add: task_is_descendant_def descend.simps task_dependencies_def Let_def)

lemmas demo_checks = all_checks.simps validate_identifier_def reject_if_def persist_ok_def persist_checkpoint_def
  always_def update_coordination_def Let_def

lemma demo_begin:
  "coord_step demo_enc (fresh_scheduler ''w'' demo_tasks) (always, BeginBinding (demo_intent ''i'')) = demo_saved demo_begun"
  by (simp add: begin_task_binding_def fresh_scheduler_def demo_saved_def demo_begun_def demo_binding_def demo_intent_def
      validate_binding_def demo_checks is_ascii_digit_def default_coordination_def bt_get_def MAX_BINDINGS_def MAX_TASKS_def)

lemma demo_resolve:
  "coord_step demo_enc (demo_saved demo_begun) (always, ResolveBinding ''i'' ''r'' ''c'' 1 ''k'' ''p'') = demo_saved demo_resolved"
proof -
  have t: "task_record_of (demo_saved demo_begun) ''c'' = Inr (tr_snapshot demo_child)"
    "task_record_of (demo_saved demo_begun) ''r'' = Inr (tr_snapshot demo_root)"
    by (simp_all add: task_record_of_def demo_saved_def)
  show ?thesis
    by (simp add: resolve_task_binding_def t all_checks.simps validate_identifier_def reject_if_def Let_def)
      (simp add: demo_saved_def demo_begun_def default_coordination_def identity_taken_def rebind_error_def demo_binding_def
        demo_resolved_def demo_checks bt_get_def)
qed

lemma demo_register:
  "coord_step demo_enc (demo_saved demo_resolved) (always, RegisterPolicy demo_policy) = demo_saved demo_registered"
proof -
  have "validate_required_tasks demo_tasks ''r'' [''c''] 5 = Inr ()"
    by (simp add: validate_required_tasks_def required_task_step_def nat_saturating_add_def u64_max_def)
  then have "validate_wake_policy demo_policy demo_tasks = Inr ()"
    by (simp add: validate_wake_policy_def demo_policy_def text_ok_def MAX_INBOX_BYTES_def MAX_REQUIRED_TASKS_def
        MAX_TASKS_def bt_contains_iff)
  then show ?thesis
    by (simp add: register_root_wake_policy_def demo_saved_def demo_checks demo_resolved_def default_coordination_def
        demo_registered_def bt_get_def)
      (simp add: late_owner_mismatch_def demo_policy_def all_bindings_def bt_values_def resolve_binding_def demo_binding_def demo_intent_def)
qed

lemma demo_received_fields [simp]:
  "cs_wake_policies demo_registered = [(''r'', demo_policy)]" "cs_completion_receipts demo_registered = []"
  "cs_inbox demo_registered = []" "cs_out_of_order demo_registered = []" "cs_stream_cursors demo_registered = []"
  "cs_counters demo_registered = []" "cs_wake_leases demo_registered = []" "cs_historical_bindings demo_registered = []"
  "cs_bindings demo_registered = [(''i'', resolve_binding ''r'' ''c'' 1 ''k'' ''p'' demo_binding)]"
  by (simp_all add: demo_registered_def demo_resolved_def default_coordination_def)

lemma demo_room:
  "pending_count demo_registered = 0" "inbox_bytes demo_enc demo_registered = 0"
  "pending_count demo_received = 0" "inbox_bytes demo_enc demo_received = 100" "length (cs_inbox demo_received) = 1"
  by (simp_all add: pending_count_def inbox_bytes_def queued_events_def pending_events_def bt_values_def demo_received_def
      List.map_filter_simps demo_enc_def nat_saturating_add_def u64_max_def)

lemma demo_enqueue: "enqueue_in_order 100 demo_event demo_registered = (Ok (), demo_received)"
  by (simp add: enqueue_in_order_def Let_def count_accepted_event_def adjust_counters_def bt_entry_def bt_get_or_def bt_get_def
      push_inbox_def project_event_stop_reason_def file_completion_def demo_received_def fresh_cursor_def next_cursor_def
      nat_saturating_add_def u64_max_def default_counters_def)

lemma demo_promote: "promote_contiguous_pending k demo_received = demo_received"
proof -
  have "promote_loop k demo_received = demo_received"
    by (simp add: promote_loop.simps take_pending_def mark_remaining_gap_def bt_get_or_def bt_get_def demo_received_def)
  then show ?thesis
    by (simp add: promote_contiguous_pending_def drop_empty_buffer_def clear_gap_reasons_def demo_received_def bt_get_def
        bt_map_def default_counters_def)
qed

lemma demo_append:
  "append_task_inbox_event always demo_enc demo_event (demo_saved demo_registered) = (Ok Accepted, demo_saved demo_received)"
proof -
  let ?s = "demo_saved demo_registered" and ?st = demo_registered
  have v: "validate_event demo_enc demo_event ''w'' = Inr ()"
    by (simp add: validate_event_def demo_event_def text_ok_def event_fields_ok_def encoded_event_len_def demo_enc_def ok_or_def
        MAX_COORDINATION_TEXT_BYTES_def MAX_INBOX_EVENT_BYTES_def)
  have q: "queued_events ?st = []" by (simp add: queued_events_def pending_events_def bt_values_def)
  have b: "find (binding_for_event demo_event) (all_bindings ?st) = Some (resolve_binding ''r'' ''c'' 1 ''k'' ''p'' demo_binding)"
    by (simp add: all_bindings_def bt_values_def binding_for_event_def demo_event_def resolve_binding_def demo_binding_def
        demo_intent_def)
  have stream: "append_in_stream always demo_enc demo_policy 100 demo_event ?s = (Ok Accepted, demo_saved demo_received)"
    using demo_enqueue demo_promote
    by (simp add: append_in_stream_def append_next_def Let_def bt_contains_def bt_get_def stream_next_def
        over_event_budget_def inbox_full_def demo_room ensure_inbox_capacity_def persist_ok_def persist_checkpoint_def always_def)
      (simp add: demo_saved_def MAX_EVENT_STREAMS_def MAX_BINDINGS_def MAX_TASKS_def demo_room MAX_INBOX_EVENTS_def
        MAX_INBOX_BYTES_def nat_saturating_add_def u64_max_def bt_get_or_def default_counters_def bt_get_def
        demo_event_def demo_policy_def Let_def ensure_inbox_capacity_def persist_ok_def persist_checkpoint_def always_def)
  have t: "task_record_of ?s ''c'' = Inr (tr_snapshot demo_child)" by (simp add: task_record_of_def demo_saved_def)
  have req: "append_required always demo_enc demo_policy 100 demo_event ?s = (Ok Accepted, demo_saved demo_received)"
    using stream t q
    by (simp add: append_required_def check_completion_def bt_get_def validate_verified_completion_def)
  show ?thesis
    using req v q b
    by (simp add: append_task_inbox_event_def append_bound_def Let_def encoded_event_len_def demo_enc_def ok_or_def
        bt_values_def bt_get_def u64_max_def)
      (simp add: resolve_binding_def)
qed

lemma demo_reserve:
  "coord_step demo_enc (demo_saved demo_received) (always, ReserveWake ''r'' ''l'' 1000 500) = demo_saved demo_reserved"
proof -
  let ?s = "demo_saved demo_received"
  have t: "task_record_of ?s ''c'' = Inr (tr_snapshot demo_child)" by (simp add: task_record_of_def demo_saved_def)
  have f: "cs_wake_leases demo_received = []" "cs_wake_policies demo_received = [(''r'', demo_policy)]"
    "cs_bindings demo_received = [(''i'', resolve_binding ''r'' ''c'' 1 ''k'' ''p'' demo_binding)]"
    "cs_completion_receipts demo_received = [(''c'', demo_event)]"
    by (simp_all add: demo_received_def)
  have "required_receipt ?s demo_policy ''r'' ''c'' = Inr (Some demo_event)"
    using t f by (simp add: required_receipt_def Let_def demo_saved_def bt_values_def bt_get_def)
      (simp add: resolve_binding_def demo_binding_def demo_intent_def demo_policy_def demo_event_def)
  then have "collect_receipts ?s demo_policy ''r'' [''c''] = Inr (Some [demo_event])" by simp
  with f show ?thesis
    by (simp add: reserve_owner_wake_def validate_identifier_def Let_def MAX_WAKE_LEASE_MS_def bt_get_def bt_values_def
        demo_reserved_def demo_lease_def del: collect_receipts.simps)
qed

definition demo_ops :: "(checkpoint_io \<times> coord_op) list" where
  "demo_ops = [(always, BeginBinding (demo_intent ''i'')), (always, ResolveBinding ''i'' ''r'' ''c'' 1 ''k'' ''p''),
     (always, RegisterPolicy demo_policy), (always, AppendEvent demo_event), (always, ReserveWake ''r'' ''l'' 1000 500)]"

lemma demo_step_append: "coord_step demo_enc (demo_saved demo_registered) (always, AppendEvent demo_event) = demo_saved demo_received"
  by (simp add: demo_append)

lemma demo_run: "guarded_run (coord_step demo_enc) op_admitted (fresh_scheduler ''w'' demo_tasks) demo_ops (demo_saved demo_reserved)"
proof -
  have "op_admitted (demo_saved demo_begun) (always, ResolveBinding ''i'' ''r'' ''c'' 1 ''k'' ''p'')"
    by (simp add: demo_saved_def demo_begun_def bt_get_def demo_binding_def)
  moreover have "op_admitted (demo_saved demo_registered) (always, AppendEvent demo_event)"
    by (simp add: demo_saved_def bt_contains_def bt_get_def demo_event_def)
  moreover have "op_admitted (demo_saved demo_received) (always, ReserveWake ''r'' ''l'' 1000 500)"
    by (simp add: u128_max_def)
  ultimately show ?thesis
    by (simp add: demo_ops_def demo_begin demo_resolve demo_register demo_step_append demo_reserve
        del: One_nat_def coord_step.simps op_admitted.simps(1,3,4))
qed

lemma demo_registered_run:
  "guarded_run (coord_step demo_enc) op_admitted (fresh_scheduler ''w'' demo_tasks) (take 3 demo_ops) (demo_saved demo_registered)"
proof -
  have "op_admitted (demo_saved demo_begun) (always, ResolveBinding ''i'' ''r'' ''c'' 1 ''k'' ''p'')"
    by (simp add: demo_saved_def demo_begun_def bt_get_def demo_binding_def)
  then show ?thesis
    by (simp add: demo_ops_def demo_begin demo_resolve demo_register del: One_nat_def coord_step.simps op_admitted.simps(1))
qed

lemma demo_registered_ok: "sched_ok demo_enc (demo_saved demo_registered)"
  using coord.guarded_run_inv [OF demo_registered_run fresh_durable_ok [OF demo_table_ok]] by (simp add: durable_ok_def)

lemma demo_received_ok: "durable_ok demo_enc (demo_saved demo_received)"
  using step_durable_ok [OF coord.guarded_run_inv [OF demo_registered_run fresh_durable_ok [OF demo_table_ok]],
      of "(always, AppendEvent demo_event)"]
  by (simp add: demo_append bt_contains_def bt_get_def)

lemma demo_wakes: "wakes_owner ''r'' (demo_saved demo_reserved) (always, MarkDispatching ''l'' 1200)"
  by (simp add: mark_owner_wake_dispatching_def demo_reserved_def record_lease_def demo_received_def demo_lease_def
      new_lease_def bt_get_def nat_saturating_add_def u128_max_def Let_def)

section \<open>Witnesses\<close>

theorem checkpoint_loads_again_witness:
  "validate demo_enc demo_reserved ''w'' demo_tasks = Ok ()"
  using checkpoint_loads_again [OF demo_table_ok demo_run] by simp

theorem append_acknowledges_durably_witness:
  "ts_saved (demo_saved demo_received) = Some demo_received \<and> holds_event demo_received demo_event"
  using append_acknowledges_durably [OF demo_registered_ok demo_append] by simp

theorem append_delivers_in_order_witness:
  "\<exists>evs. cs_inbox demo_received = evs \<and> map ie_sequence evs = [1 ..< 2] \<and> (\<exists>rest. evs = demo_event # rest)"
proof -
  have "stream_next (event_stream_id demo_event) demo_received = 2" "stream_next (event_stream_id demo_event) demo_registered = 1"
    by (simp_all add: stream_next_def demo_received_def bt_get_def fresh_cursor_def)
  then show ?thesis
    using append_delivers_in_order [OF demo_registered_ok demo_append] by (auto simp: u64_max_def)
qed

theorem leases_follow_their_life_witness: "leases_evolve demo_received demo_reserved"
  using leases_follow_their_life [OF demo_received_ok, of always "ReserveWake ''r'' ''l'' 1000 500"]
  by (simp add: step_base_def demo_reserve u128_max_def del: coord_step.simps)

theorem owner_woken_at_most_once_witness:
  "owner_wakes demo_enc ''r'' (fresh_scheduler ''w'' demo_tasks) (demo_ops @ [(always, MarkDispatching ''l'' 1200)]) = 1"
proof -
  have "guarded_run (coord_step demo_enc) op_admitted (fresh_scheduler ''w'' demo_tasks)
      (demo_ops @ [(always, MarkDispatching ''l'' 1200)])
      (coord_step demo_enc (demo_saved demo_reserved) (always, MarkDispatching ''l'' 1200))"
    using demo_run by (simp add: demo_ops_def del: coord_step.simps)
  from owner_woken_at_most_once [OF demo_table_ok this, of "''r''"] show ?thesis
    using demo_wakes
    by (simp add: demo_ops_def demo_begin demo_resolve demo_register demo_step_append demo_reserve
        del: One_nat_def coord_step.simps wakes_owner.simps(1))
qed

end
