(* ===== verification/Coord_Gaps.thy ===== *)
theory Coord_Gaps
  imports Coord_Demo
begin

text \<open>
  Operations outside the guard of the coordination machine, where the code saves a checkpoint its
  own checks refuse at the next start, or answers for work it has not saved, with instances in the
  concrete workspace of \<open>Coord_Demo\<close>.
\<close>

section \<open>An event of an old attempt for a root without a policy\<close>

definition old_event :: task_inbox_event where
  "old_event = demo_event\<lparr>ie_attempt := 2\<rparr>"

lemma demo_resolved_fields [simp]:
  "cs_wake_policies demo_resolved = []" "cs_completion_receipts demo_resolved = []"
  "cs_inbox demo_resolved = []" "cs_out_of_order demo_resolved = []" "cs_counters demo_resolved = []"
  "cs_historical_bindings demo_resolved = []" "cs_wake_leases demo_resolved = []" "cs_stream_cursors demo_resolved = []"
  "cs_bindings demo_resolved = [(''i'', resolve_binding ''r'' ''c'' 1 ''k'' ''p'' demo_binding)]"
  by (simp_all add: demo_resolved_def default_coordination_def)

lemma demo_resolved_ok: "durable_ok demo_enc (demo_saved demo_resolved)"
proof -
  have "guarded_run (coord_step demo_enc) op_admitted (fresh_scheduler ''w'' demo_tasks) (take 2 demo_ops) (demo_saved demo_resolved)"
    by (simp add: demo_ops_def demo_begin demo_resolve del: One_nat_def coord_step.simps op_admitted.simps(1))
      (simp add: demo_saved_def demo_begun_def bt_get_def demo_binding_def)
  from coord.guarded_run_inv [OF this fresh_durable_ok [OF demo_table_ok]] show ?thesis .
qed

lemma counter_needs_policy:
  assumes "bt_get (cs_counters c) root \<noteq> None" "bt_get (cs_wake_policies c) root = None"
  shows "validate enc c ws tasks \<noteq> Ok ()"
proof -
  obtain x where "(root, x) \<in> set (cs_counters c)" using assms(1) bt_get_mem by fastforce
  then have "\<not> coord_valid enc c ws tasks" using assms(2) by (fastforce simp: coord_valid_def counters_ok_def)
  then show ?thesis by (simp add: validate_Ok_iff)
qed

lemma old_attempt_stale:
  assumes "validate_event enc ev (ts_root s) = Ok ()" "ie_sequence ev \<noteq> u64_max"
    "\<forall>q \<in> set (bt_values (cs_completion_receipts (ts_coordination s)) @ queued_events (ts_coordination s)). ie_event_id q \<noteq> ie_event_id ev"
    "find (binding_for_event ev) (all_bindings (ts_coordination s)) = Some b" "tb_attempt b \<noteq> Some (ie_attempt ev)"
  shows "append_task_inbox_event io enc ev s = note_stale_event io (ie_root_task_id ev) s"
proof -
  have f: "find (\<lambda>r. ie_event_id r = ie_event_id ev) (bt_values (cs_completion_receipts (ts_coordination s))) = None"
      "find (\<lambda>q. ie_event_id q = ie_event_id ev) (queued_events (ts_coordination s)) = None"
    using assms(3) by (auto simp: find_None_iff)
  obtain n where "encoded_event_len enc ev = Ok n" using assms(1) by (auto simp: validate_event_def split: sum.splits if_splits)
  then show ?thesis using assms(1,2,4,5) f by (simp add: append_task_inbox_event_def append_bound_def Let_def)
qed

text \<open>
  Claim C28. An acceptable new event whose binding is of another attempt is answered as stale before the root's
  wake policy is looked at. When the root has no policy and the checkpoint is written, the counter this adds
  makes the saved checkpoint one that the checks of a start refuse, whatever the task table, and a restart fails.
\<close>

theorem stale_event_spoils_checkpoint:
  assumes "validate_event enc ev (ts_root s) = Ok ()" "ie_sequence ev \<noteq> u64_max"
    "\<forall>q \<in> set (bt_values (cs_completion_receipts (ts_coordination s)) @ queued_events (ts_coordination s)). ie_event_id q \<noteq> ie_event_id ev"
    "find (binding_for_event ev) (all_bindings (ts_coordination s)) = Some b" "tb_attempt b \<noteq> Some (ie_attempt ev)"
    and "bt_get (cs_wake_policies (ts_coordination s)) (ie_root_task_id ev) = None" "\<forall>x. io x = Persisted"
  shows "\<exists>s' c. append_task_inbox_event io enc ev s = (Ok Stale, s') \<and> ts_saved s' = Some c \<and>
    (\<forall>ws tasks. validate enc c ws tasks \<noteq> Ok ()) \<and> (\<forall>io'. fst (restart_coordination io' enc s') \<noteq> Ok ())"
proof -
  let ?f = "\<lambda>c. c\<lparr>co_stale_events := nat_saturating_add u64_max (co_stale_events c) 1\<rparr>"
  let ?c = "adjust_counters (ie_root_task_id ev) ?f (ts_coordination s)"
  let ?s = "s\<lparr>ts_coordination := ?c, ts_saved := Some ?c\<rparr>"
  have a: "append_task_inbox_event io enc ev s = (Ok Stale, ?s)"
    using old_attempt_stale [OF assms(1-5), of io] assms(7)
    by (simp add: note_stale_event_def persist_ok_def persist_checkpoint_def update_coordination_def)
  have v: "validate enc ?c ws tasks \<noteq> Ok ()" for ws tasks
    by (rule counter_needs_policy [of _ "ie_root_task_id ev"]) (simp_all add: adjust_counters_def assms(6))
  have "fst (restart_coordination io' enc ?s) \<noteq> Ok ()" for io'
    using v [of "ts_root s" "ts_tasks s"] by (cases "validate enc ?c (ts_root s) (ts_tasks s)") (auto simp: restart_coordination_def Let_def)
  then show ?thesis using a v by (intro exI [of _ ?s] exI [of _ ?c]) auto
qed

theorem stale_event_spoils_checkpoint_witness:
  "durable_ok demo_enc (demo_saved demo_resolved) \<and>
   (\<exists>s' c. append_task_inbox_event always demo_enc old_event (demo_saved demo_resolved) = (Ok Stale, s') \<and> ts_saved s' = Some c \<and>
      validate demo_enc c ''w'' demo_tasks \<noteq> Ok ())"
proof -
  have v: "validate_event demo_enc old_event ''w'' = Ok ()"
    by (simp add: validate_event_def demo_event_def old_event_def text_ok_def event_fields_ok_def encoded_event_len_def
        demo_enc_def ok_or_def MAX_COORDINATION_TEXT_BYTES_def MAX_INBOX_EVENT_BYTES_def)
  have q: "queued_events demo_resolved = []" by (simp add: queued_events_def pending_events_def bt_values_def)
  have b: "find (binding_for_event old_event) (all_bindings demo_resolved) = Some (resolve_binding ''r'' ''c'' 1 ''k'' ''p'' demo_binding)"
    by (simp add: all_bindings_def bt_values_def binding_for_event_def demo_event_def old_event_def resolve_binding_def
        demo_binding_def demo_intent_def)
  have f: "ts_root (demo_saved demo_resolved) = ''w''" "ts_coordination (demo_saved demo_resolved) = demo_resolved" by (simp_all add: demo_saved_def)
  have "\<exists>s' c. append_task_inbox_event always demo_enc old_event (demo_saved demo_resolved) = (Ok Stale, s') \<and> ts_saved s' = Some c \<and>
      (\<forall>ws tasks. validate demo_enc c ws tasks \<noteq> Ok ()) \<and> (\<forall>io'. fst (restart_coordination io' demo_enc s') \<noteq> Ok ())"
    by (rule stale_event_spoils_checkpoint [where b = "resolve_binding ''r'' ''c'' 1 ''k'' ''p'' demo_binding"])
      (simp_all add: f v q b bt_values_def resolve_binding_def always_def, simp_all add: old_event_def u64_max_def)
  then show ?thesis using demo_resolved_ok by blast
qed

section \<open>A retry that keeps its child session\<close>

definition retried_tasks :: task_table where
  "retried_tasks = [(''c'', demo_child\<lparr>tr_snapshot := (tr_snapshot demo_child)\<lparr>sn_attempt := 2, sn_state := Running\<rparr>\<rparr>),
     (''r'', demo_root)]"

definition retried_run :: "coordination_state \<Rightarrow> task_scheduler" where
  "retried_run c = \<lparr>ts_root = ''w'', ts_tasks = retried_tasks, ts_coordination = c, ts_saved = Some c\<rparr>"

definition rebound :: coordination_state where
  "rebound = demo_resolved\<lparr>cs_bindings := [(''i'', resolve_binding ''r'' ''c'' 2 ''k'' ''p'' demo_binding)],
     cs_historical_bindings := [resolve_binding ''r'' ''c'' 1 ''k'' ''p'' demo_binding]\<rparr>"

lemma retried_tasks_facts:
  "task_is_descendant ''r'' ''c'' retried_tasks" "bt_get retried_tasks ''r'' = Some demo_root"
  "task_attempt retried_tasks ''c'' = Some 2"
  "bt_get retried_tasks ''c'' = Some (demo_child\<lparr>tr_snapshot := (tr_snapshot demo_child)\<lparr>sn_attempt := 2, sn_state := Running\<rparr>\<rparr>)"
  by (simp_all add: task_is_descendant_def descend.simps task_dependencies_def Let_def retried_tasks_def bt_get_def task_attempt_def)

lemma retried_rebinds:
  "resolve_task_binding always ''i'' ''r'' ''c'' 2 ''k'' ''p'' (retried_run demo_resolved) =
     (Ok (resolve_binding ''r'' ''c'' 2 ''k'' ''p'' demo_binding), retried_run rebound)"
proof -
  have t: "task_record_of (retried_run demo_resolved) ''c'' = Inr ((tr_snapshot demo_child)\<lparr>sn_attempt := 2, sn_state := Running\<rparr>)"
    "task_record_of (retried_run demo_resolved) ''r'' = Inr (tr_snapshot demo_root)"
    by (simp_all add: task_record_of_def retried_run_def retried_tasks_facts)
  have f: "ts_tasks (retried_run demo_resolved) = retried_tasks" "ts_coordination (retried_run demo_resolved) = demo_resolved"
    by (simp_all add: retried_run_def)
  have r: "resolve_binding ''r'' ''c'' 2 ''k'' ''p'' (resolve_binding ''r'' ''c'' 1 ''k'' ''p'' demo_binding) =
      resolve_binding ''r'' ''c'' 2 ''k'' ''p'' demo_binding"
    by (simp add: resolve_binding_def)
  have i: "\<not> identity_taken demo_resolved ''i'' ''c'' 2 ''k''" by (simp add: identity_taken_def)
  have e: "rebind_error demo_resolved (resolve_binding ''r'' ''c'' 1 ''k'' ''p'' demo_binding) ''r'' ''c'' 2 ''k'' ''p'' = None"
    by (simp add: rebind_error_def resolve_binding_def bt_get_def)
  have m: "tb_attempt (resolve_binding ''r'' ''c'' 1 ''k'' ''p'' demo_binding) = Some 1" by (simp add: resolve_binding_def)
  show ?thesis
    using t f i e retried_tasks_facts(1) m
    by (simp add: resolve_task_binding_def all_checks.simps validate_identifier_def reject_if_def Let_def bt_get_def r
        MAX_HISTORICAL_BINDINGS_def MAX_BINDINGS_def MAX_TASKS_def del: One_nat_def)
      (simp add: retried_run_def rebound_def persist_ok_def persist_checkpoint_def always_def update_coordination_def
        file_prior_attempt_def bt_retain_def)
qed

text \<open>
  A binding may move to the next attempt with the child session of the attempt before;
  the checkpoint saved then holds two executions of one child session, which the next start refuses.
\<close>

theorem same_child_retry_spoils_checkpoint:
  "resolve_task_binding always ''i'' ''r'' ''c'' 2 ''k'' ''p'' (retried_run demo_resolved) =
     (Ok (resolve_binding ''r'' ''c'' 2 ''k'' ''p'' demo_binding), retried_run rebound) \<and>
   ts_saved (retried_run rebound) = Some rebound \<and>
   validate demo_enc demo_resolved ''w'' retried_tasks = Ok () \<and>
   validate demo_enc rebound ''w'' retried_tasks \<noteq> Ok ()"
proof -
  have "\<not> identities_ok retried_tasks (resolved_bindings rebound)"
    by (simp add: identities_ok_def resolved_bindings_def all_bindings_def bt_values_def rebound_def bound_child_def resolve_binding_def)
  then have "validate demo_enc rebound ''w'' retried_tasks \<noteq> Ok ()" by (simp add: validate_Ok_iff coord_valid_def)
  moreover have "coord_valid demo_enc demo_resolved ''w'' retried_tasks"
    by (simp add: coord_valid_def bounds_ok_def demo_resolved_def default_coordination_def events_ok_def queued_events_def
        pending_events_def bt_values_def totals_ok_def identities_ok_def resolved_bindings_def all_bindings_def)
      (simp add: binding_ok_def validate_binding_def resolve_binding_def demo_binding_def demo_intent_def text_ok_def
        is_ascii_digit_def known_task_def bt_contains_iff retried_tasks_facts binding_complete_def identity_ok_def
        MAX_BINDINGS_def MAX_TASKS_def)
  ultimately show ?thesis using retried_rebinds by (simp add: retried_run_def validate_Ok_iff)
qed

section \<open>A retried_run intent that was never saved\<close>

definition failing :: checkpoint_io where
  "failing s = PersistFailed (Io ''full'') False"

text \<open>
  When the write of a new binding intent fails the caller is told so, but the intent stays
  in memory: beginning it again answers with the binding and writes nothing, so the caller goes on
  with an intent that a restart forgets.
\<close>

theorem retried_intent_not_saved:
  assumes "validate_binding i (ts_root s) = Ok ()" "bt_get (cs_bindings (ts_coordination s)) (bi_intent_id i) = None"
    "length (cs_bindings (ts_coordination s)) < MAX_BINDINGS"
  shows "\<exists>b s'. fst (begin_task_binding failing i s) = Err (Io ''full'') \<and>
    begin_task_binding always i (snd (begin_task_binding failing i s)) = (Ok b, s') \<and> ts_saved s' = ts_saved s"
  using assms
  by (simp add: begin_task_binding_def persist_ok_def persist_checkpoint_def failing_def Let_def update_coordination_def not_le)

theorem retried_intent_not_saved_witness:
  "\<exists>b s'. begin_task_binding always (demo_intent ''i'')
      (snd (begin_task_binding failing (demo_intent ''i'') (fresh_scheduler ''w'' demo_tasks))) = (Ok b, s') \<and> ts_saved s' = None"
proof -
  have "validate_binding (demo_intent ''i'') ''w'' = Ok ()"
    by (simp add: validate_binding_def demo_intent_def text_ok_def is_ascii_digit_def)
  then show ?thesis
    using retried_intent_not_saved [of "demo_intent ''i''" "fresh_scheduler ''w'' demo_tasks"]
    by (auto simp: fresh_scheduler_def default_coordination_def MAX_BINDINGS_def MAX_TASKS_def)
qed

end
