(* ===== verification/Task_Graph.thy ===== *)
theory Task_Graph
  imports Coord_State
begin

text \<open>
  The dependency walk of the scheduler decides reachability in the dependency relation, and a
  verification passes exactly when all its parts do.
\<close>

section \<open>Descendants\<close>

definition depends_on :: "task_table \<Rightarrow> (task_id \<times> task_id) set" where
  "depends_on tasks = {(a, b). b \<in> set (task_dependencies tasks a)}"

text \<open>The tasks visited so far are done: their dependencies are visited or waiting.\<close>

definition walk_inv :: "task_table \<Rightarrow> task_id \<Rightarrow> task_id list \<Rightarrow> task_id list \<Rightarrow> bool" where
  "walk_inv tasks required pending visited \<longleftrightarrow>
     required \<notin> set visited \<and> (\<forall>v \<in> set visited. set (task_dependencies tasks v) \<subseteq> set pending \<union> set visited)"

definition reaches :: "task_table \<Rightarrow> task_id list \<Rightarrow> task_id \<Rightarrow> bool" where
  "reaches tasks pending required \<longleftrightarrow> (\<exists>p \<in> set pending. (p, required) \<in> (depends_on tasks)\<^sup>*)"

lemma visited_reaches:
  assumes inv: "walk_inv tasks required pending visited"
    and path: "(v, required) \<in> (depends_on tasks)\<^sup>*" and v: "v \<in> set visited"
  shows "reaches tasks pending required"
  using path v
proof (induction rule: converse_rtrancl_induct)
  case base
  then show ?case using inv by (simp add: walk_inv_def)
next
  case (step a b)
  have "b \<in> set pending \<union> set visited" using step.hyps(1) step.prems inv by (auto simp: walk_inv_def depends_on_def)
  then show ?case using step.IH step.hyps(2) by (auto simp: reaches_def)
qed

lemma snoc_split: "pending \<noteq> [] \<Longrightarrow> set pending = insert (last pending) (set (butlast pending))"
  by (induction pending) auto

lemma descend_reaches: "walk_inv tasks required pending visited \<Longrightarrow>
    descend tasks required pending visited \<longleftrightarrow> reaches tasks pending required"
proof (induction tasks required pending visited rule: descend.induct)
  case (1 tasks required pending visited)
  let ?t = "last pending" and ?rest = "butlast pending"
  show ?case
  proof (cases "pending = [] \<or> ?t = required")
    case True
    then show ?thesis
      by (auto simp: descend.simps [of tasks required pending] Let_def reaches_def intro!: bexI [of _ ?t])
  next
    case False
    then have split: "set pending = insert ?t (set ?rest)" and ne: "pending \<noteq> []" "?t \<noteq> required"
      using snoc_split by auto
    show ?thesis
    proof (cases "?t \<in> set visited")
      case True
      have inv: "walk_inv tasks required ?rest visited" using "1.prems" True split by (auto simp: walk_inv_def)
      have "reaches tasks pending required \<longleftrightarrow> reaches tasks ?rest required"
        using visited_reaches [OF inv _ True] split by (auto simp: reaches_def)
      with "1.IH"(1) [OF ne(1) refl refl ne(2) True inv] ne True show ?thesis
        by (simp add: descend.simps [of tasks required pending] Let_def)
    next
      case new: False
      let ?next = "?rest @ task_dependencies tasks ?t"
      have inv: "walk_inv tasks required ?next (?t # visited)" using "1.prems" ne split by (auto simp: walk_inv_def)
      have "reaches tasks pending required \<longleftrightarrow> reaches tasks ?next required"
        using split ne(2) by (auto simp: reaches_def depends_on_def elim: converse_rtranclE intro: converse_rtrancl_into_rtrancl)
      with "1.IH"(2) [OF ne(1) refl refl ne(2) new inv] ne new show ?thesis
        by (simp add: descend.simps [of tasks required pending] Let_def)
    qed
  qed
qed

text \<open>
  Claim C27. The dependency walk, which always ends, answers whether one task is reached from another
  along one or more dependencies, also on a table with cycles or missing tasks.
\<close>

theorem task_is_descendant_correct:
  "task_is_descendant root required tasks \<longleftrightarrow> (root, required) \<in> (depends_on tasks)\<^sup>+"
proof -
  have "walk_inv tasks required (task_dependencies tasks root) []" by (simp add: walk_inv_def)
  from descend_reaches [OF this] show ?thesis
    by (auto simp: task_is_descendant_def reaches_def depends_on_def trancl_unfold_left)
qed

section \<open>Verification\<close>

fun verification_leaves :: "verification_requirement \<Rightarrow> verification_requirement list" where
  "verification_leaves (AllOf rs) = concat (map verification_leaves rs)"
| "verification_leaves r = [r]"

definition passes ::
  "(string \<Rightarrow> int \<Rightarrow> nat \<Rightarrow> (development_error, verification_outcome) result) \<Rightarrow> task_evidence list \<Rightarrow>
   verification_requirement \<Rightarrow> bool" where
  "passes run evs r \<longleftrightarrow> (\<exists>es. verify run evs r = Ok (Passed es))"

lemma verify_passes_iff:
  "passes run evs r \<longleftrightarrow> (\<forall>l \<in> set (verification_leaves r). passes run evs l)"
  "(\<exists>es. verify_all run evs rs acc = Ok (Passed es)) \<longleftrightarrow>
     (\<forall>r \<in> set rs. \<forall>l \<in> set (verification_leaves r). passes run evs l)"
proof (induction run evs r and run evs rs acc rule: verify_verify_all.induct)
  case (4 run evs rs)
  then show ?case by (simp add: passes_def)
next
  case (7 run evs r rs acc)
  show ?case
  proof (cases "verify run evs r")
    case (Inr o1)
    then show ?thesis using 7 by (cases o1) (auto simp: passes_def)
  qed (use 7 in \<open>auto simp: passes_def\<close>)
qed simp_all

text \<open>
  A nested verification passes exactly when every single requirement in it passes.
\<close>

theorem verification_passes_leafwise:
  "(\<exists>es. verify run evs req = Ok (Passed es)) \<longleftrightarrow>
   list_all (\<lambda>l. \<exists>es. verify run evs l = Ok (Passed es)) (verification_leaves req)"
  using verify_passes_iff(1) [of run evs req] by (simp add: passes_def list_all_iff)

end
