(* ===== verification/Task_Monad.thy ===== *)
theory Task_Monad
  imports Task_Model
begin

text \<open>
  The frame in which the scheduler of tasks runs (\<^verbatim>\<open>crates/glass-dev/src/tasks.rs\<close>): its state, the
  environment it talks to and operations that may fail and keep what they changed before they fail.
  Agents live behind the trait \<open>TaskAgentBackend\<close>; the trait, the clock, the checkpoint writer, the
  size of the encoded checkpoint and the file system are parameters. The clock is read once per
  operation.
\<close>

datatype agent_status =
    AgentQueued | AgentStarting | AgentRecoveryPending | AgentUnavailable | AgentIdle | AgentWorking | AgentWaiting
  | AgentCompleted | AgentFailed | AgentCancelled

record agent_snapshot =
  ag_id :: string
  ag_status :: agent_status
  ag_session_file :: "string option"
  ag_last_error :: "string option"

record agent_event =
  ae_sequence :: nat
  ae_agent_id :: string
  ae_timestamp_ms :: nat
  ae_kind :: string
  ae_payload :: json

record agent_spec =
  as_role :: string
  as_task :: string
  as_model :: "string option"
  as_thinking :: "string option"
  as_worktree :: "string option"
  as_fork_from :: "string option"
  as_max_runtime_seconds :: "nat option"
  as_max_events :: "nat option"

text \<open>How a verification command ended: with an exit code or none, or stopped at its deadline.\<close>

datatype command_end = Exited "int option" | TimedOut

record task_spec =
  sp_title :: string
  sp_goal :: string
  sp_prompt :: string
  sp_role :: string
  sp_dependencies :: "task_id list"
  sp_worktree :: "string option"
  sp_model :: "string option"
  sp_thinking :: "string option"
  sp_budget :: task_budget
  sp_verification :: verification_requirement
  sp_retry :: retry_policy

section \<open>State and environment\<close>

record 'b task_world =
  tw_tasks :: task_table
  tw_next_task :: nat
  tw_agent_event_cursor :: nat
  tw_out :: 'b

record 'b task_env =
  en_root :: string
  en_now :: nat
  en_size :: "task_record list \<Rightarrow> nat \<Rightarrow> nat"
  en_write :: "task_table \<Rightarrow> nat \<Rightarrow> 'b \<Rightarrow> (development_error, unit) result \<times> 'b"
  en_refresh_agents :: "'b \<Rightarrow> (development_error, unit) result \<times> 'b"
  en_create_agent :: "agent_spec \<Rightarrow> 'b \<Rightarrow> (development_error, string) result \<times> 'b"
  en_agent_snapshots :: "'b \<Rightarrow> (development_error, agent_snapshot list) result \<times> 'b"
  en_agent_events :: "nat \<Rightarrow> 'b \<Rightarrow> (development_error, agent_event list) result \<times> 'b"
  en_prompt_agent :: "string \<Rightarrow> string \<Rightarrow> 'b \<Rightarrow> (development_error, unit) result \<times> 'b"
  en_cancel_agent :: "string \<Rightarrow> 'b \<Rightarrow> (development_error, unit) result \<times> 'b"
  en_complete_agent :: "string \<Rightarrow> 'b \<Rightarrow> (development_error, unit) result \<times> 'b"
  en_run_command :: "string \<Rightarrow> string \<Rightarrow> nat \<Rightarrow> (development_error, command_end) result"
  en_is_file :: "string \<Rightarrow> string \<Rightarrow> bool"
  en_real_path :: "string \<Rightarrow> (development_error, string) result"
  en_exists :: "string \<Rightarrow> bool"
  en_json_len :: "json \<Rightarrow> nat"

section \<open>Operations that may fail\<close>

type_synonym ('b, 'a) task_op = "'b task_world \<Rightarrow> (development_error, 'a) result \<times> 'b task_world"

definition ret :: "'a \<Rightarrow> ('b, 'a) task_op" where
  "ret x w = (Ok x, w)"

definition fail :: "development_error \<Rightarrow> ('b, 'a) task_op" where
  "fail e w = (Err e, w)"

definition andthen :: "('b, 'a) task_op \<Rightarrow> ('a \<Rightarrow> ('b, 'c) task_op) \<Rightarrow> ('b, 'c) task_op" where
  "andthen m f w = (case m w of (Inl e, w') \<Rightarrow> (Err e, w') | (Inr x, w') \<Rightarrow> f x w')"

definition when_op :: "bool \<Rightarrow> ('b, unit) task_op \<Rightarrow> ('b, unit) task_op" where
  "when_op c m = (if c then m else ret ())"

definition lift_res :: "(development_error, 'a) result \<Rightarrow> ('b, 'a) task_op" where
  "lift_res r w = (r, w)"

definition get_world :: "('b, 'b task_world) task_op" where
  "get_world w = (Ok w, w)"

definition call_out :: "('b \<Rightarrow> (development_error, 'a) result \<times> 'b) \<Rightarrow> ('b, 'a) task_op" where
  "call_out f w = (case f (tw_out w) of (r, out) \<Rightarrow> (r, w\<lparr>tw_out := out\<rparr>))"

fun each :: "('x \<Rightarrow> ('b, unit) task_op) \<Rightarrow> 'x list \<Rightarrow> ('b, unit) task_op" where
  "each f [] = ret ()"
| "each f (x # xs) = andthen (f x) (\<lambda>_. each f xs)"

text \<open>\<open>record\<close>, and an assignment through \<open>record_mut\<close>.\<close>

definition the_record :: "task_id \<Rightarrow> ('b, task_record) task_op" where
  "the_record i w = (ok_or (NotFound (''task '' @ i)) (bt_get (tw_tasks w) i), w)"

definition update_record :: "task_id \<Rightarrow> (task_record \<Rightarrow> task_record) \<Rightarrow> ('b, unit) task_op" where
  "update_record i f = andthen (the_record i) (\<lambda>_ w. (Ok (), w\<lparr>tw_tasks := bt_adjust i f (tw_tasks w)\<rparr>))"

definition set_snapshot :: "task_snapshot \<Rightarrow> task_record \<Rightarrow> task_record" where
  "set_snapshot sn r = r\<lparr>tr_snapshot := sn\<rparr>"

section \<open>What an operation keeps\<close>

text \<open>
  An operation keeps a predicate when it holds after it whenever it held before, whether the
  operation succeeds or fails. The rules follow the shape of the operations.
\<close>

definition keeps :: "('b task_world \<Rightarrow> bool) \<Rightarrow> ('b, 'a) task_op \<Rightarrow> bool" where
  "keeps P m \<longleftrightarrow> (\<forall>w. P w \<longrightarrow> P (snd (m w)))"

named_theorems keeps_intros \<open>rules for what operations keep\<close>

lemma keepsI: "(\<And>w. P w \<Longrightarrow> P (snd (m w))) \<Longrightarrow> keeps P m"
  by (simp add: keeps_def)

lemma keepsD: "keeps P m \<Longrightarrow> P w \<Longrightarrow> P (snd (m w))"
  by (simp add: keeps_def)

lemma keeps_pure [keeps_intros]: "keeps P (ret x)" "keeps P (fail e)" "keeps P (lift_res r)" "keeps P get_world" "keeps P (the_record i)"
  by (simp_all add: keeps_def ret_def fail_def lift_res_def get_world_def the_record_def)

lemma keeps_andthen [keeps_intros]: "keeps P m \<Longrightarrow> (\<And>x. keeps P (f x)) \<Longrightarrow> keeps P (andthen m f)"
  by (auto simp: keeps_def andthen_def split: prod.split sum.split)

text \<open>The same with the result of the first operation at hand.\<close>

lemma keeps_andthen_result:
  assumes "keeps P m" "\<And>w x w'. P w \<Longrightarrow> m w = (Ok x, w') \<Longrightarrow> P (snd (f x w'))"
  shows "keeps P (andthen m f)"
  using assms by (auto simp: keeps_def andthen_def split: prod.split sum.split)

lemma keeps_when [keeps_intros]: "(c \<Longrightarrow> keeps P m) \<Longrightarrow> keeps P (when_op c m)"
  by (simp add: when_op_def keeps_pure)

lemma keeps_each [keeps_intros]: "(\<And>x. x \<in> set xs \<Longrightarrow> keeps P (f x)) \<Longrightarrow> keeps P (each f xs)"
  by (induction xs) (auto intro!: keeps_intros)

lemma keeps_call_out: "(\<And>w out. P w \<Longrightarrow> P (w\<lparr>tw_out := out\<rparr>)) \<Longrightarrow> keeps P (call_out f)"
  by (auto simp: keeps_def call_out_def split: prod.split)

lemma keeps_if [keeps_intros]: "(c \<Longrightarrow> keeps P m) \<Longrightarrow> (\<not> c \<Longrightarrow> keeps P m') \<Longrightarrow> keeps P (if c then m else m')"
  by simp

lemma keeps_option [keeps_intros]: "(x = None \<Longrightarrow> keeps P m) \<Longrightarrow> (\<And>y. x = Some y \<Longrightarrow> keeps P (f y)) \<Longrightarrow> keeps P (case x of None \<Rightarrow> m | Some y \<Rightarrow> f y)"
  by (cases x) simp_all

end
