(* ===== verification/Task_Sched.thy ===== *)
theory Task_Sched
  imports Task_Monad
begin

text \<open>
  The operations of the task scheduler (\<^verbatim>\<open>crates/glass-dev/src/tasks.rs\<close>): creation, the refresh that
  takes in agent events and failures, enforces budgets, verifies, blocks and starts tasks, and the
  commands of a user. Every change is first projected and must leave room in the checkpoint file.
\<close>

definition MAX_PERSISTED_TASK_ERROR_BYTES :: nat where "MAX_PERSISTED_TASK_ERROR_BYTES = 160"
definition MAX_TASK_CHECKPOINT_BYTES :: nat where "MAX_TASK_CHECKPOINT_BYTES = 2 * 1024 * 1024"
definition TASK_CHECKPOINT_MUTATION_RESERVE :: nat where "TASK_CHECKPOINT_MUTATION_RESERVE = 256"

type_synonym replacements = "(task_id, task_snapshot) btree"

section \<open>Room in the checkpoint\<close>

definition checkpoint_records :: "replacements \<Rightarrow> task_table \<Rightarrow> task_record list" where
  "checkpoint_records reps tasks =
     map (\<lambda>(i, r). case bt_get reps i of None \<Rightarrow> r | Some sn \<Rightarrow> set_snapshot sn r) tasks"

definition ensure_checkpoint_size :: "nat \<Rightarrow> (development_error, unit) result" where
  "ensure_checkpoint_size n =
     (if n > MAX_TASK_CHECKPOINT_BYTES then Err (Conflict ''task checkpoint exceeds 2097152 bytes'') else Ok ())"

definition mutation_capacity :: "nat \<Rightarrow> (development_error, unit) result" where
  "mutation_capacity n = ensure_checkpoint_size (nat_saturating_add u64_max n TASK_CHECKPOINT_MUTATION_RESERVE)"

definition replacements_fit :: "'b task_env \<Rightarrow> 'b task_world \<Rightarrow> replacements \<Rightarrow> bool" where
  "replacements_fit en w reps \<longleftrightarrow> is_ok (mutation_capacity (en_size en (checkpoint_records reps (tw_tasks w)) (tw_next_task w)))"

definition ensure_snapshot_checkpoint_fits :: "'b task_env \<Rightarrow> task_id \<Rightarrow> task_snapshot \<Rightarrow> ('b, unit) task_op" where
  "ensure_snapshot_checkpoint_fits en i sn w =
     (mutation_capacity (en_size en (checkpoint_records [(i, sn)] (tw_tasks w)) (tw_next_task w)), w)"

definition ensure_current_checkpoint_fits :: "'b task_env \<Rightarrow> ('b, unit) task_op" where
  "ensure_current_checkpoint_fits en w =
     (mutation_capacity (en_size en (checkpoint_records [] (tw_tasks w)) (tw_next_task w)), w)"

definition maximum_length_agent_id :: string where
  "maximum_length_agent_id = ''agent-'' @ replicate 58 (CHR 0x5C)"

definition ensure_schedule_checkpoint_fits :: "'b task_env \<Rightarrow> task_id \<Rightarrow> task_snapshot \<Rightarrow> ('b, unit) task_op" where
  "ensure_schedule_checkpoint_fits en i queued =
     ensure_snapshot_checkpoint_fits en i
       (queued\<lparr>sn_assigned_agent := Some maximum_length_agent_id, sn_state := Ready,
               sn_attempt := nat_saturating_add u32_max (sn_attempt queued) 1, sn_updated_at_ms := en_now en\<rparr>)"

definition persist_tasks :: "'b task_env \<Rightarrow> ('b, unit) task_op" where
  "persist_tasks en =
     andthen get_world (\<lambda>w.
     andthen (lift_res (ensure_checkpoint_size (en_size en (checkpoint_records [] (tw_tasks w)) (tw_next_task w)))) (\<lambda>_.
     call_out (en_write en (tw_tasks w) (tw_next_task w))))"

section \<open>Making room\<close>

definition effective_evidence :: "replacements \<Rightarrow> task_table \<Rightarrow> task_id \<Rightarrow> task_evidence list" where
  "effective_evidence reps tasks t =
     (case bt_get reps t of
        Some sn \<Rightarrow> sn_evidence sn
      | None \<Rightarrow> (case bt_get tasks t of Some r \<Rightarrow> sn_evidence (tr_snapshot r) | None \<Rightarrow> []))"

text \<open>Evidence is superseded when evidence of its kind is newer, or as new and later in the list.\<close>

definition superseded :: "task_evidence list \<Rightarrow> nat \<Rightarrow> bool" where
  "superseded evs i \<longleftrightarrow>
     list_ex (\<lambda>(j, e). ev_kind e = ev_kind (evs ! i) \<and> (ev_observed_at_ms e, j) > (ev_observed_at_ms (evs ! i), i)) (enumerate 0 evs)"

definition duplicate_candidates :: "replacements \<Rightarrow> task_table \<Rightarrow> (nat \<times> task_id \<times> nat) list" where
  "duplicate_candidates reps tasks =
     concat (map (\<lambda>t. let evs = effective_evidence reps tasks t in
       map (\<lambda>i. (ev_observed_at_ms (evs ! i), t, i)) (filter (superseded evs) [0..<length evs])) (map fst tasks))"

definition oldest_duplicate_evidence :: "replacements \<Rightarrow> task_table \<Rightarrow> (task_id \<times> nat) option" where
  "oldest_duplicate_evidence reps tasks =
     (case duplicate_candidates reps tasks of [] \<Rightarrow> None | cs \<Rightarrow> Some (snd (min_list cs)))"

definition prune_evidence :: "nat \<Rightarrow> task_snapshot \<Rightarrow> task_snapshot" where
  "prune_evidence i sn = sn\<lparr>sn_evidence := remove_nth i (sn_evidence sn), sn_evidence_truncated := True\<rparr>"

definition pruned_replacements :: "replacements \<Rightarrow> task_table \<Rightarrow> task_id \<Rightarrow> nat \<Rightarrow> replacements" where
  "pruned_replacements reps tasks t i =
     (case bt_get reps t of
        Some sn \<Rightarrow> bt_insert t (prune_evidence i sn) reps
      | None \<Rightarrow> (case bt_get tasks t of Some r \<Rightarrow> bt_insert t (prune_evidence i (tr_snapshot r)) reps | None \<Rightarrow> reps))"

definition evidence_total :: "replacements \<Rightarrow> task_table \<Rightarrow> nat" where
  "evidence_total reps tasks = sum_list (map (\<lambda>t. length (effective_evidence reps tasks t)) (map fst tasks))"

lemma oldest_in_candidates:
  assumes "oldest_duplicate_evidence reps tasks = Some (t, i)"
  shows "\<exists>n. (n, t, i) \<in> set (duplicate_candidates reps tasks)"
proof (cases "duplicate_candidates reps tasks")
  case (Cons c cs)
  then have "min_list (duplicate_candidates reps tasks) \<in> set (duplicate_candidates reps tasks)"
    by (metis Min_in List.finite_set list.distinct(1) min_list_Min set_empty)
  moreover have "snd (min_list (duplicate_candidates reps tasks)) = (t, i)"
    using assms Cons by (simp add: oldest_duplicate_evidence_def)
  ultimately show ?thesis by (metis prod.collapse)
qed (use assms in \<open>simp add: oldest_duplicate_evidence_def\<close>)

lemma candidate_facts:
  assumes "(n, t, i) \<in> set (duplicate_candidates reps tasks)"
  shows "t \<in> set (map fst tasks) \<and> i < length (effective_evidence reps tasks t)"
  using assms by (auto simp: duplicate_candidates_def Let_def)

lemma sum_list_less:
  "(\<And>x. x \<in> set xs \<Longrightarrow> f x \<le> (g x :: nat)) \<Longrightarrow> y \<in> set xs \<Longrightarrow> f y < g y \<Longrightarrow> sum_list (map f xs) < sum_list (map g xs)"
proof (induction xs)
  case (Cons x xs)
  have le: "sum_list (map f xs) \<le> sum_list (map g xs)" using Cons.prems(1) by (intro sum_list_mono) auto
  show ?case
  proof (cases "y = x")
    case True
    then show ?thesis using le Cons.prems(3) by simp
  next
    case False
    then have "sum_list (map f xs) < sum_list (map g xs)" using Cons by auto
    then show ?thesis using Cons.prems(1) [of x] by simp
  qed
qed simp

lemma evidence_after_prune:
  assumes "t \<in> set (map fst tasks)"
  shows "effective_evidence (pruned_replacements reps tasks t i) tasks t' =
    (if t' = t then remove_nth i (effective_evidence reps tasks t) else effective_evidence reps tasks t')"
proof -
  obtain r where r: "bt_get tasks t = Some r" using assms by (cases "bt_get tasks t") (auto simp: bt_get_def map_of_eq_None_iff)
  then show ?thesis
    by (cases "bt_get reps t") (auto simp: effective_evidence_def pruned_replacements_def prune_evidence_def)
qed

lemma evidence_total_decreases:
  assumes "oldest_duplicate_evidence reps tasks = Some (t, i)"
  shows "evidence_total (pruned_replacements reps tasks t i) tasks < evidence_total reps tasks"
proof -
  have t: "t \<in> set (map fst tasks)" "i < length (effective_evidence reps tasks t)"
    using oldest_in_candidates [OF assms] candidate_facts by blast+
  let ?f = "\<lambda>u. length (effective_evidence (pruned_replacements reps tasks t i) tasks u)"
  let ?g = "\<lambda>u. length (effective_evidence reps tasks u)"
  have "sum_list (map ?f (map fst tasks)) < sum_list (map ?g (map fst tasks))"
  proof (rule sum_list_less [of _ ?f ?g t])
    show "?f x \<le> ?g x" for x using t(2) by (simp add: evidence_after_prune [OF t(1)] length_remove_nth)
    show "?f t < ?g t" using t(2) by (simp add: evidence_after_prune [OF t(1)] length_remove_nth)
  qed (rule t(1))
  then show ?thesis by (simp only: evidence_total_def)
qed

text \<open>The loop that drops superseded evidence until the checkpoint fits or none is left.\<close>

function prune_loop :: "'b task_env \<Rightarrow> 'b task_world \<Rightarrow> replacements \<Rightarrow> bool \<times> replacements" where
  "prune_loop en w reps =
     (case oldest_duplicate_evidence reps (tw_tasks w) of
        None \<Rightarrow> (False, reps)
      | Some (t, i) \<Rightarrow>
          let reps' = pruned_replacements reps (tw_tasks w) t i in
          if replacements_fit en w reps' then (True, reps') else prune_loop en w reps')"
  by auto
termination
  by (relation "measure (\<lambda>(en, w, reps). evidence_total reps (tw_tasks w))") (auto simp: evidence_total_decreases)

declare prune_loop.simps [simp del]

section \<open>Errors and details\<close>

definition plain_char :: "char \<Rightarrow> bool" where
  "plain_char c \<longleftrightarrow>
     CHR ''0'' \<le> c \<and> c \<le> CHR ''9'' \<or> CHR ''A'' \<le> c \<and> c \<le> CHR ''Z'' \<or> CHR ''a'' \<le> c \<and> c \<le> CHR ''z'' \<or>
     c \<in> set '' .,:;_-''"

text \<open>Strings are UTF-8 bytes: the characters are counted by their first bytes, and every byte that is
  not plain ASCII text stands for a question mark.\<close>

definition first_byte :: "char \<Rightarrow> bool" where
  "first_byte c \<longleftrightarrow> \<not> (128 \<le> (of_char c :: nat) \<and> (of_char c :: nat) < 192)"

definition bounded_task_error :: "string \<Rightarrow> string" where
  "bounded_task_error v =
     (let r = map (\<lambda>c. if plain_char c then c else CHR ''?'') (take (MAX_PERSISTED_TASK_ERROR_BYTES - 3) (filter first_byte v));
          r' = (if length v > length r then r @ ''...'' else r)
      in if r' = [] then ''agent failed'' else r')"

definition scalar_field :: "(json \<Rightarrow> json option) \<Rightarrow> json \<Rightarrow> string \<Rightarrow> (string \<times> json) list" where
  "scalar_field conv payload f = (case Option.bind (json_get f payload) conv of None \<Rightarrow> [] | Some v \<Rightarrow> [(f, v)])"

definition verifier_scalar_fields :: "json \<Rightarrow> (string \<times> json) list" where
  "verifier_scalar_fields payload =
     concat (map (scalar_field (\<lambda>v. map_option (\<lambda>n. JInt (int n)) (as_u64 v)) payload) [''errors'', ''regressions'']) @
     concat (map (scalar_field (\<lambda>v. map_option JBool (as_bool v)) payload) [''hasChanges'', ''clean''])"

definition bounded_event_details :: "'b task_env \<Rightarrow> json \<Rightarrow> json" where
  "bounded_event_details en payload =
     (if en_json_len en payload \<le> 4 * 1024 then payload
      else JObject (verifier_scalar_fields payload @
             [(''truncated'', JBool True), (''originalBytes'', JInt (int (en_json_len en payload)))]))"

definition checkpoint_pressure_details :: "json \<Rightarrow> json" where
  "checkpoint_pressure_details payload =
     JObject (verifier_scalar_fields payload @ [(''truncated'', JBool True), (''checkpointPressure'', JBool True)])"

section \<open>Fitting a snapshot\<close>

definition compress_last :: "task_snapshot \<Rightarrow> task_snapshot" where
  "compress_last sn =
     (if sn_evidence sn = [] then sn
      else sn\<lparr>sn_evidence := butlast (sn_evidence sn) @
                [(last (sn_evidence sn))\<lparr>ev_details := checkpoint_pressure_details (ev_details (last (sn_evidence sn)))\<rparr>],
              sn_evidence_truncated := True\<rparr>)"

text \<open>Without new evidence: shorten the error text, then drop it.\<close>

definition fit_without_evidence ::
    "'b task_env \<Rightarrow> 'b task_world \<Rightarrow> task_id \<Rightarrow> task_snapshot \<Rightarrow> replacements \<Rightarrow> (development_error, replacements) result" where
  "fit_without_evidence en w i sn reps =
     (let exhausted = Err (Conflict ''task checkpoint capacity exhausted during state transition'') in
      case sn_last_error sn of
        None \<Rightarrow> exhausted
      | Some e \<Rightarrow>
          let compact = bounded_task_error e;
              reps1 = bt_insert i (sn\<lparr>sn_last_error := Some compact\<rparr>) reps;
              reps2 = bt_insert i (sn\<lparr>sn_last_error := None\<rparr>) (if compact \<noteq> e then reps1 else reps) in
          if compact \<noteq> e \<and> replacements_fit en w reps1 then Ok reps1
          else if replacements_fit en w reps2 then Ok reps2
          else exhausted)"

text \<open>With new evidence: compress its details, then drop it.\<close>

definition fit_with_evidence ::
    "'b task_env \<Rightarrow> 'b task_world \<Rightarrow> task_id \<Rightarrow> task_snapshot \<Rightarrow> replacements \<Rightarrow> (development_error, replacements) result" where
  "fit_with_evidence en w i sn reps =
     (let sn1 = compress_last sn;
          reps1 = bt_insert i sn1 reps;
          sn2 = sn1\<lparr>sn_evidence := butlast (sn_evidence sn1), sn_evidence_truncated := True\<rparr>;
          reps2 = bt_insert i sn2 reps1 in
      if replacements_fit en w reps1 then Ok reps1
      else if replacements_fit en w reps2 then Ok reps2
      else res_bind (fst (ensure_snapshot_checkpoint_fits en i sn2 w)) (\<lambda>_. Ok reps2))"

definition fit_snapshot_checkpoint ::
    "'b task_env \<Rightarrow> task_id \<Rightarrow> task_snapshot \<Rightarrow> bool \<Rightarrow> 'b task_world \<Rightarrow> (development_error, replacements) result" where
  "fit_snapshot_checkpoint en i sn incoming w =
     (if replacements_fit en w [(i, sn)] then Ok [(i, sn)]
      else case prune_loop en w [(i, sn)] of
        (True, reps) \<Rightarrow> Ok reps
      | (False, reps) \<Rightarrow>
          let sn' = (case bt_get reps i of Some x \<Rightarrow> x | None \<Rightarrow> sn) in
          if incoming then fit_with_evidence en w i sn' reps else fit_without_evidence en w i sn' reps)"

definition apply_replacements :: "replacements \<Rightarrow> ('b, unit) task_op" where
  "apply_replacements reps = each (\<lambda>(i, sn). update_record i (set_snapshot sn)) reps"

text \<open>Project, make room, act on the agent, then apply: the way most state changes go.\<close>

definition commit_snapshot ::
    "'b task_env \<Rightarrow> task_id \<Rightarrow> task_snapshot \<Rightarrow> bool \<Rightarrow> ('b, unit) task_op \<Rightarrow> ('b, unit) task_op" where
  "commit_snapshot en i sn incoming act =
     andthen get_world (\<lambda>w.
     andthen (lift_res (fit_snapshot_checkpoint en i sn incoming w)) (\<lambda>reps.
     andthen act (\<lambda>_. apply_replacements reps)))"

section \<open>What making room changes\<close>

text \<open>A snapshot without its evidence and error text: what is never given up for room.\<close>

definition core :: "task_snapshot \<Rightarrow> task_snapshot" where
  "core sn = sn\<lparr>sn_evidence := [], sn_evidence_truncated := False, sn_last_error := None\<rparr>"

text \<open>
  A snapshot that may replace another: the same but for evidence, which only loses entries or
  details, and an error text that is kept, shortened or dropped.
\<close>

definition less_evidence :: "task_evidence list \<Rightarrow> task_evidence list \<Rightarrow> bool" where
  "less_evidence evs evs' \<longleftrightarrow> length evs \<le> length evs' \<and> (\<forall>e \<in> set evs. \<exists>e' \<in> set evs'. e\<lparr>ev_details := JNull\<rparr> = e'\<lparr>ev_details := JNull\<rparr>)"

definition trimmed :: "task_snapshot \<Rightarrow> task_snapshot \<Rightarrow> bool" where
  "trimmed sn sn' \<longleftrightarrow> core sn = core sn' \<and> less_evidence (sn_evidence sn) (sn_evidence sn') \<and>
     (sn_last_error sn = sn_last_error sn' \<or> sn_last_error sn = None \<or> (\<exists>e. sn_last_error sn = Some (bounded_task_error e)))"

lemma less_evidence_refl: "less_evidence evs evs"
  by (auto simp: less_evidence_def)

lemma less_evidence_trans: "less_evidence a b \<Longrightarrow> less_evidence b c \<Longrightarrow> less_evidence a c"
  unfolding less_evidence_def by (metis order_trans)

lemma less_evidence_sub: "length a \<le> length b \<Longrightarrow> set a \<subseteq> set b \<Longrightarrow> less_evidence a b"
  by (auto simp: less_evidence_def)

lemma trimmed_refl: "trimmed sn sn"
  by (simp add: trimmed_def less_evidence_refl)

lemma trimmed_prune: "trimmed sn sn' \<Longrightarrow> i < length (sn_evidence sn) \<Longrightarrow> trimmed (prune_evidence i sn) sn'"
proof -
  assume t: "trimmed sn sn'" and i: "i < length (sn_evidence sn)"
  have "less_evidence (remove_nth i (sn_evidence sn)) (sn_evidence sn)"
    by (rule less_evidence_sub) (use i in \<open>auto simp: length_remove_nth dest: set_remove_nth_subset [THEN subsetD]\<close>)
  then show ?thesis using t less_evidence_trans by (auto simp: trimmed_def prune_evidence_def core_def)
qed

text \<open>What replacements stand for: the new snapshot of one task and trimmed snapshots of others.\<close>

definition stands_for :: "task_table \<Rightarrow> task_id \<Rightarrow> task_snapshot \<Rightarrow> replacements \<Rightarrow> bool" where
  "stands_for tasks i sn reps \<longleftrightarrow>
     (\<exists>x. bt_get reps i = Some x \<and> trimmed x sn) \<and> bt_wf reps \<and>
     (\<forall>u x. bt_get reps u = Some x \<longrightarrow> u \<noteq> i \<longrightarrow> (\<exists>r. bt_get tasks u = Some r \<and> trimmed x (tr_snapshot r)))"

lemma stands_for_single: "stands_for tasks i sn [(i, sn)]"
  by (auto simp: stands_for_def trimmed_refl bt_get_def bt_wf_def)

lemma stands_for_insert: "stands_for tasks i sn reps \<Longrightarrow> trimmed x sn \<Longrightarrow> stands_for tasks i sn (bt_insert i x reps)"
  by (auto simp: stands_for_def bt_wf_insert)

lemma stands_for_prune:
  assumes "stands_for tasks i sn reps" "oldest_duplicate_evidence reps tasks = Some (t, j)"
  shows "stands_for tasks i sn (pruned_replacements reps tasks t j)"
proof -
  have t: "t \<in> set (map fst tasks)" "j < length (effective_evidence reps tasks t)"
    using oldest_in_candidates [OF assms(2)] candidate_facts by blast+
  obtain r where r: "bt_get tasks t = Some r" using t(1) by (cases "bt_get tasks t") (auto simp: bt_get_def map_of_eq_None_iff)
  show ?thesis
  proof (cases "bt_get reps t")
    case (Some x)
    then have j: "j < length (sn_evidence x)" using t(2) by (simp add: effective_evidence_def)
    have "trimmed (prune_evidence j x) sn" if "t = i"
      using assms(1) Some trimmed_prune [OF _ j] that by (auto simp: stands_for_def)
    moreover have "\<exists>r. bt_get tasks t = Some r \<and> trimmed (prune_evidence j x) (tr_snapshot r)" if "t \<noteq> i"
      using assms(1) Some trimmed_prune [OF _ j] that unfolding stands_for_def by blast
    ultimately show ?thesis
      using assms(1) Some unfolding stands_for_def pruned_replacements_def by (auto simp: bt_wf_insert)
  next
    case None
    then have j: "j < length (sn_evidence (tr_snapshot r))" using t(2) r by (simp add: effective_evidence_def)
    have "t \<noteq> i" using None assms(1) by (auto simp: stands_for_def)
    then show ?thesis
      using assms(1) None r trimmed_prune [OF trimmed_refl j]
      unfolding stands_for_def pruned_replacements_def by (auto simp: bt_wf_insert)
  qed
qed

lemma prune_loop_stands_for:
  "stands_for (tw_tasks w) i sn reps \<Longrightarrow> stands_for (tw_tasks w) i sn (snd (prune_loop en w reps))"
proof (induction en w reps rule: prune_loop.induct)
  case (1 en w reps)
  show ?case
  proof (cases "oldest_duplicate_evidence reps (tw_tasks w)")
    case (Some ti)
    obtain t j where ti: "ti = (t, j)" by fastforce
    have "stands_for (tw_tasks w) i sn (pruned_replacements reps (tw_tasks w) t j)"
      using stands_for_prune [OF 1(2)] Some ti by blast
    then show ?thesis using 1(1) [OF Some ti [symmetric] refl] Some ti by (simp add: prune_loop.simps [of en w reps] Let_def)
  qed (use 1(2) in \<open>simp add: prune_loop.simps [of en w reps]\<close>)
qed

lemma less_evidence_compress:
  "less_evidence (butlast evs @ [(last evs)\<lparr>ev_details := d\<rparr>]) evs" if "evs \<noteq> []"
  using that by (cases evs rule: rev_cases) (auto simp: less_evidence_def)

lemma trimmed_compress: "trimmed x sn \<Longrightarrow> trimmed (compress_last x) sn"
  using less_evidence_compress less_evidence_trans by (fastforce simp: compress_last_def trimmed_def core_def)

lemma trimmed_drop: "trimmed x sn \<Longrightarrow> trimmed (x\<lparr>sn_evidence := butlast (sn_evidence x), sn_evidence_truncated := True\<rparr>) sn"
  using less_evidence_trans [OF less_evidence_sub, of "butlast (sn_evidence x)" "sn_evidence x"]
  by (auto simp: trimmed_def core_def dest: in_set_butlastD)

lemma fit_stands_for:
  assumes "fit_snapshot_checkpoint en i sn incoming w = Ok reps"
  shows "stands_for (tw_tasks w) i sn reps"
proof (cases "replacements_fit en w [(i, sn)]")
  case True
  then have "reps = [(i, sn)]" using assms by (simp add: fit_snapshot_checkpoint_def)
  then show ?thesis by (simp add: stands_for_single)
next
  case False
  obtain b reps1 where l: "prune_loop en w [(i, sn)] = (b, reps1)" by fastforce
  have r1: "stands_for (tw_tasks w) i sn reps1" using prune_loop_stands_for [OF stands_for_single, of w i sn en] l by simp
  then obtain x where x: "bt_get reps1 i = Some x" "trimmed x sn" by (auto simp: stands_for_def)
  show ?thesis
  proof (cases b)
    case True
    then show ?thesis using assms False l r1 by (simp add: fit_snapshot_checkpoint_def)
  next
    case nb: False
    show ?thesis
    proof (cases incoming)
      case True
      let ?x1 = "compress_last x"
      let ?x2 = "?x1\<lparr>sn_evidence := butlast (sn_evidence ?x1), sn_evidence_truncated := True\<rparr>"
      have t: "trimmed ?x1 sn" "trimmed ?x2 sn" using trimmed_compress [OF x(2)] trimmed_drop by blast+
      have "reps = bt_insert i ?x1 reps1 \<or> reps = bt_insert i ?x2 (bt_insert i ?x1 reps1)"
        using assms False l nb x True
        by (auto simp: fit_snapshot_checkpoint_def fit_with_evidence_def Let_def res_bind_Inr_iff split: if_splits)
      then show ?thesis using stands_for_insert [OF r1 t(1)] stands_for_insert [OF _ t(2)] by blast
    next
      case ni: False
      obtain e where e: "sn_last_error x = Some e"
        using assms False l nb x ni by (cases "sn_last_error x") (auto simp: fit_snapshot_checkpoint_def fit_without_evidence_def Let_def)
      let ?x1 = "x\<lparr>sn_last_error := Some (bounded_task_error e)\<rparr>"
      let ?x2 = "x\<lparr>sn_last_error := None\<rparr>"
      have t: "trimmed ?x1 sn" "trimmed ?x2 sn" using x(2) by (auto simp: trimmed_def core_def)
      have "reps = bt_insert i ?x1 reps1 \<or> reps = bt_insert i ?x2 (bt_insert i ?x1 reps1) \<or> reps = bt_insert i ?x2 reps1"
        using assms False l nb x ni e
        by (auto simp: fit_snapshot_checkpoint_def fit_without_evidence_def Let_def split: if_splits)
      then show ?thesis using stands_for_insert [OF r1 t(1)] stands_for_insert [OF r1 t(2)] stands_for_insert [OF _ t(2)] by blast
    qed
  qed
qed

section \<open>What a commit does\<close>

lemma update_record_cases:
  "update_record i f w = (case bt_get (tw_tasks w) i of None \<Rightarrow> (Err (NotFound (''task '' @ i)), w)
     | Some r \<Rightarrow> (Ok (), w\<lparr>tw_tasks := bt_insert i (f r) (tw_tasks w)\<rparr>))"
  by (simp add: update_record_def andthen_def the_record_def bt_adjust_def split: option.split)

text \<open>The table after a commit: the task has the new snapshot, every other one its own, trimmed.\<close>

definition replaced :: "task_id \<Rightarrow> task_snapshot \<Rightarrow> task_table \<Rightarrow> task_table \<Rightarrow> bool" where
  "replaced i sn T T' \<longleftrightarrow>
     (\<forall>u. case bt_get T u of
        None \<Rightarrow> bt_get T' u = None
      | Some r \<Rightarrow> \<exists>x. bt_get T' u = Some (set_snapshot x r) \<and> trimmed x (if u = i then sn else tr_snapshot r))"

lemma replacedD:
  assumes "replaced i sn T T'"
  shows "bt_get T u = None \<Longrightarrow> bt_get T' u = None"
    and "bt_get T u = Some r \<Longrightarrow> \<exists>x. bt_get T' u = Some (set_snapshot x r) \<and> trimmed x (if u = i then sn else tr_snapshot r)"
  using spec [OF assms [unfolded replaced_def], of u] by simp_all

lemma core_eq:
  assumes "core x = core y"
  shows "sn_state x = sn_state y" "sn_assigned_agent x = sn_assigned_agent y" "sn_recovery_pending x = sn_recovery_pending y"
    "sn_dependencies x = sn_dependencies y" "sn_blocked_override x = sn_blocked_override y" "sn_id x = sn_id y"
    "sn_verification x = sn_verification y" "sn_attempt x = sn_attempt y" "sn_retry x = sn_retry y" "sn_budget x = sn_budget y"
    "sn_title x = sn_title y" "sn_goal x = sn_goal y" "sn_prompt x = sn_prompt y" "sn_role x = sn_role y"
    "sn_model x = sn_model y" "sn_thinking x = sn_thinking y" "sn_worktree x = sn_worktree y"
  using assms unfolding core_def by (cases x; cases y; simp)+

lemma apply_replacements_effect:
  assumes "distinct (map fst reps)" "\<And>u x. (u, x) \<in> set reps \<Longrightarrow> bt_get (tw_tasks w) u \<noteq> None"
  shows "\<exists>T'. apply_replacements reps w = (Ok (), w\<lparr>tw_tasks := T'\<rparr>) \<and> (bt_wf (tw_tasks w) \<longrightarrow> bt_wf T') \<and>
    (\<forall>u. bt_get T' u = map_option (\<lambda>r. case bt_get reps u of None \<Rightarrow> r | Some x \<Rightarrow> set_snapshot x r) (bt_get (tw_tasks w) u))"
  using assms
proof (induction reps arbitrary: w)
  case Nil
  have "w = w\<lparr>tw_tasks := tw_tasks w\<rparr>" by simp
  then show ?case
    by (intro exI [of _ "tw_tasks w"]) (simp add: apply_replacements_def ret_def bt_get_def option.map_ident)
next
  case (Cons ux reps)
  obtain u x where ux: "ux = (u, x)" by fastforce
  obtain r where r: "bt_get (tw_tasks w) u = Some r" using Cons.prems(2) [of u x] ux by auto
  let ?T1 = "bt_insert u (set_snapshot x r) (tw_tasks w)"
  let ?w1 = "w\<lparr>tw_tasks := ?T1\<rparr>"
  have d: "distinct (map fst reps)" "u \<notin> fst ` set reps" using Cons.prems(1) ux by auto
  have "bt_get (tw_tasks ?w1) v \<noteq> None" if "(v, y) \<in> set reps" for v y
    using Cons.prems(2) [of v y] that by auto
  then obtain T' where T': "apply_replacements reps ?w1 = (Ok (), ?w1\<lparr>tw_tasks := T'\<rparr>)" "bt_wf ?T1 \<longrightarrow> bt_wf T'"
      "\<forall>v. bt_get T' v = map_option (\<lambda>r. case bt_get reps v of None \<Rightarrow> r | Some y \<Rightarrow> set_snapshot y r) (bt_get ?T1 v)"
    using Cons.IH [OF d(1), of ?w1] by auto
  have none: "bt_get reps u = None" using d(2) by (simp add: bt_get_def map_of_eq_None_iff)
  have step: "apply_replacements (ux # reps) w = (Ok (), w\<lparr>tw_tasks := T'\<rparr>)"
    using T'(1) r ux by (simp add: apply_replacements_def andthen_def update_record_cases)
  have "bt_get T' v = map_option (\<lambda>r. case bt_get (ux # reps) v of None \<Rightarrow> r | Some y \<Rightarrow> set_snapshot y r) (bt_get (tw_tasks w) v)" for v
  proof (cases "v = u")
    case True
    have "bt_get (ux # reps) u = Some x" using ux by (simp add: bt_get_def)
    then show ?thesis using True T'(3) none r by simp
  next
    case False
    then have "bt_get (ux # reps) v = bt_get reps v" using ux by (simp add: bt_get_def)
    then show ?thesis using T'(3) False by simp
  qed
  then show ?case using step T'(2) bt_wf_insert by blast
qed

text \<open>An action on the agents does not touch the table.\<close>

definition outside :: "('b, 'a) task_op \<Rightarrow> bool" where
  "outside m \<longleftrightarrow> (\<forall>w. \<exists>out. snd (m w) = w\<lparr>tw_out := out\<rparr>)"

lemma outside_basic: "outside (ret x)" "outside (call_out f)"
proof -
  show "outside (ret x)" unfolding outside_def
  proof
    fix w
    show "\<exists>out. snd (ret x w) = w\<lparr>tw_out := out\<rparr>" by (rule exI [of _ "tw_out w"]) (simp add: ret_def)
  qed
  show "outside (call_out f)" by (auto simp: outside_def call_out_def split: prod.split)
qed

lemma outside_andthen: "outside m \<Longrightarrow> (\<And>x. outside (f x)) \<Longrightarrow> outside (andthen m f)"
proof -
  assume m: "outside m" and f: "\<And>x. outside (f x)"
  show ?thesis unfolding outside_def
  proof
    fix w
    obtain r w1 where w1: "m w = (r, w1)" by fastforce
    obtain out where out: "w1 = w\<lparr>tw_out := out\<rparr>" using m w1 unfolding outside_def by (metis snd_conv)
    show "\<exists>out. snd (andthen m f w) = w\<lparr>tw_out := out\<rparr>"
    proof (cases r)
      case (Inr x)
      obtain out' where "snd (f x w1) = w1\<lparr>tw_out := out'\<rparr>" using f unfolding outside_def by blast
      then have "snd (andthen m f w) = w\<lparr>tw_out := out'\<rparr>" using w1 Inr out by (simp add: andthen_def)
      then show ?thesis ..
    next
      case (Inl e)
      then have "snd (andthen m f w) = w\<lparr>tw_out := out\<rparr>" using w1 out by (simp add: andthen_def)
      then show ?thesis ..
    qed
  qed
qed

lemma commit_effect:
  assumes "outside act" "bt_get (tw_tasks w) i \<noteq> None" "commit_snapshot en i sn incoming act w = (r, w')"
  shows "tw_next_task w' = tw_next_task w \<and> tw_agent_event_cursor w' = tw_agent_event_cursor w \<and>
    (bt_wf (tw_tasks w) \<longrightarrow> bt_wf (tw_tasks w')) \<and>
    (if is_ok r then replaced i sn (tw_tasks w) (tw_tasks w') else tw_tasks w' = tw_tasks w)"
proof (cases "fit_snapshot_checkpoint en i sn incoming w")
  case (Inl e)
  then show ?thesis using assms(3) by (auto simp: commit_snapshot_def andthen_def get_world_def lift_res_def)
next
  case (Inr reps)
  have sf: "stands_for (tw_tasks w) i sn reps" by (rule fit_stands_for [OF Inr])
  obtain ra wa where a: "act w = (ra, wa)" by fastforce
  obtain out where out: "wa = w\<lparr>tw_out := out\<rparr>" using assms(1) a unfolding outside_def by (metis snd_conv)
  show ?thesis
  proof (cases ra)
    case (Inl e)
    then show ?thesis using assms(3) \<open>fit_snapshot_checkpoint en i sn incoming w = Inr reps\<close> a out
      by (auto simp: commit_snapshot_def andthen_def get_world_def lift_res_def)
  next
    case ok: (Inr u)
    have wf: "bt_wf reps" using sf by (simp add: stands_for_def)
    have ex: "bt_get (tw_tasks wa) v \<noteq> None" if "(v, x) \<in> set reps" for v x
    proof -
      have "bt_get reps v = Some x" using that bt_get_iff_mem [OF wf] by blast
      then show ?thesis using sf assms(2) out unfolding stands_for_def by (cases "v = i") auto
    qed
    obtain T' where T': "apply_replacements reps wa = (Ok (), wa\<lparr>tw_tasks := T'\<rparr>)" "bt_wf (tw_tasks wa) \<longrightarrow> bt_wf T'"
        "\<forall>v. bt_get T' v = map_option (\<lambda>r. case bt_get reps v of None \<Rightarrow> r | Some x \<Rightarrow> set_snapshot x r) (bt_get (tw_tasks wa) v)"
      using apply_replacements_effect [OF bt_wf_distinct [OF wf], of wa] ex by blast
    have w': "r = Ok ()" "w' = wa\<lparr>tw_tasks := T'\<rparr>"
      using assms(3) \<open>fit_snapshot_checkpoint en i sn incoming w = Inr reps\<close> a ok T'(1)
      by (auto simp: commit_snapshot_def andthen_def get_world_def lift_res_def)
    have "replaced i sn (tw_tasks w) T'"
      unfolding replaced_def
    proof
      fix v
      show "case bt_get (tw_tasks w) v of None \<Rightarrow> bt_get T' v = None
          | Some r \<Rightarrow> \<exists>x. bt_get T' v = Some (set_snapshot x r) \<and> trimmed x (if v = i then sn else tr_snapshot r)"
      proof (cases "bt_get (tw_tasks w) v")
        case None
        then show ?thesis using T'(3) out by simp
      next
        case (Some q)
        show ?thesis
        proof (cases "bt_get reps v")
          case None
          then have "v \<noteq> i" using sf by (auto simp: stands_for_def)
          moreover have "set_snapshot (tr_snapshot q) q = q" by (simp add: set_snapshot_def)
          ultimately show ?thesis using T'(3) out Some None trimmed_refl by force
        next
          case x: (Some x)
          have "trimmed x (if v = i then sn else tr_snapshot q)"
          proof (cases "v = i")
            case True
            then show ?thesis using sf x by (auto simp: stands_for_def)
          next
            case False
            then obtain r0 where "bt_get (tw_tasks w) v = Some r0" "trimmed x (tr_snapshot r0)"
              using sf x unfolding stands_for_def by blast
            then show ?thesis using Some False by simp
          qed
          then show ?thesis using T'(3) out Some x by auto
        qed
      qed
    qed
    then show ?thesis using w' T'(2) out by simp
  qed
qed

end
