(* ===== verification/Byte_Text.thy ===== *)
theory Byte_Text
  imports Prelude
begin

text \<open>
  Rust strings as their UTF-8 bytes (a \<open>string\<close> is a list of 8-bit characters), with the functions of
  \<open>str\<close> that the content security policy code calls: ASCII case, prefixes and suffixes, splitting,
  trimming, slicing at a character boundary and reading a 16-bit number. The lemmas relate splitting
  to joining, which the matchers of host names and paths rest on.
\<close>

section \<open>ASCII classes and case\<close>

definition byte :: "char \<Rightarrow> nat" where
  "byte c = of_char c"

definition is_ascii :: "string \<Rightarrow> bool" where
  "is_ascii s = list_all (\<lambda>c. byte c < 128) s"

definition byte_is_digit :: "char \<Rightarrow> bool" where
  "byte_is_digit c \<longleftrightarrow> 48 \<le> byte c \<and> byte c \<le> 57"

definition is_ascii_alphabetic :: "char \<Rightarrow> bool" where
  "is_ascii_alphabetic c \<longleftrightarrow> 65 \<le> byte c \<and> byte c \<le> 90 \<or> 97 \<le> byte c \<and> byte c \<le> 122"

definition is_ascii_alphanumeric :: "char \<Rightarrow> bool" where
  "is_ascii_alphanumeric c \<longleftrightarrow> is_ascii_alphabetic c \<or> byte_is_digit c"

definition lower_byte :: "char \<Rightarrow> char" where
  "lower_byte c = (if 65 \<le> byte c \<and> byte c \<le> 90 then char_of (byte c + 32) else c)"

definition to_ascii_lowercase :: "string \<Rightarrow> string" where
  "to_ascii_lowercase s = map lower_byte s"

definition eq_ignore_ascii_case :: "string \<Rightarrow> string \<Rightarrow> bool" where
  "eq_ignore_ascii_case a b \<longleftrightarrow> to_ascii_lowercase a = to_ascii_lowercase b"

lemma byte_less: "byte c < 256"
  by (simp add: byte_def)

lemma byte_inj: "byte c = byte d \<longleftrightarrow> c = d"
  by (simp add: byte_def)

lemma byte_char_of: "n < 256 \<Longrightarrow> byte (char_of n) = n"
  by (simp add: byte_def)

lemma lower_byte_idem [simp]: "lower_byte (lower_byte c) = lower_byte c"
  by (simp add: lower_byte_def byte_char_of)

lemma to_ascii_lowercase_idem [simp]: "to_ascii_lowercase (to_ascii_lowercase s) = to_ascii_lowercase s"
  by (simp add: to_ascii_lowercase_def)

lemma lowercase_append [simp]:
  "to_ascii_lowercase (a @ b) = to_ascii_lowercase a @ to_ascii_lowercase b"
  by (simp add: to_ascii_lowercase_def)

lemma lowercase_simps [simp]:
  "to_ascii_lowercase [] = []"
  "to_ascii_lowercase (c # s) = lower_byte c # to_ascii_lowercase s"
  by (simp_all add: to_ascii_lowercase_def)

lemma length_lowercase [simp]: "length (to_ascii_lowercase s) = length s"
  by (simp add: to_ascii_lowercase_def)

lemma eq_ignore_refl [simp]: "eq_ignore_ascii_case a a"
  by (simp add: eq_ignore_ascii_case_def)

lemma eq_ignore_sym: "eq_ignore_ascii_case a b \<longleftrightarrow> eq_ignore_ascii_case b a"
  by (auto simp: eq_ignore_ascii_case_def)

lemma eq_ignore_trans:
  "eq_ignore_ascii_case a b \<Longrightarrow> eq_ignore_ascii_case b c \<Longrightarrow> eq_ignore_ascii_case a c"
  by (simp add: eq_ignore_ascii_case_def)

lemma eq_ignore_lower [simp]:
  "eq_ignore_ascii_case (to_ascii_lowercase a) b = eq_ignore_ascii_case a b"
  "eq_ignore_ascii_case a (to_ascii_lowercase b) = eq_ignore_ascii_case a b"
  by (simp_all add: eq_ignore_ascii_case_def)

section \<open>Prefixes and suffixes\<close>

definition starts_with :: "string \<Rightarrow> string \<Rightarrow> bool" where
  "starts_with p s \<longleftrightarrow> take (length p) s = p"

definition ends_with :: "string \<Rightarrow> string \<Rightarrow> bool" where
  "ends_with p s \<longleftrightarrow> starts_with (rev p) (rev s)"

definition strip_prefix :: "string \<Rightarrow> string \<Rightarrow> string option" where
  "strip_prefix p s = (if starts_with p s then Some (drop (length p) s) else None)"

definition strip_suffix :: "string \<Rightarrow> string \<Rightarrow> string option" where
  "strip_suffix p s = (if ends_with p s then Some (take (length s - length p) s) else None)"

text \<open>\<open>str::trim_end_matches\<close> with a character.\<close>

definition trim_end_matches :: "char \<Rightarrow> string \<Rightarrow> string" where
  "trim_end_matches c s = rev (dropWhile (\<lambda>x. x = c) (rev s))"

lemma starts_with_iff: "starts_with p s \<longleftrightarrow> (\<exists>t. s = p @ t)"
  by (auto simp: starts_with_def) (metis append_take_drop_id)

lemma ends_with_iff: "ends_with p s \<longleftrightarrow> (\<exists>t. s = t @ p)"
proof
  assume "ends_with p s"
  then obtain t where "rev s = rev p @ t" by (auto simp: ends_with_def starts_with_iff)
  then have "s = rev t @ p" by (metis rev_append rev_rev_ident)
  then show "\<exists>t. s = t @ p" by blast
next
  assume "\<exists>t. s = t @ p"
  then show "ends_with p s" by (auto simp: ends_with_def starts_with_iff)
qed

lemma strip_prefix_Some_iff: "strip_prefix p s = Some t \<longleftrightarrow> s = p @ t"
  by (auto simp: strip_prefix_def starts_with_iff)

lemma strip_suffix_Some_iff: "strip_suffix p s = Some t \<longleftrightarrow> s = t @ p"
  by (auto simp: strip_suffix_def ends_with_iff)

lemma ends_with_single: "ends_with [c] s \<longleftrightarrow> s \<noteq> [] \<and> last s = c"
  by (auto simp: ends_with_iff) (metis append_butlast_last_id)

section \<open>Splitting\<close>

text \<open>\<open>str::split\<close>: the pieces between the separators, at least one.\<close>

fun split_by :: "(char \<Rightarrow> bool) \<Rightarrow> string \<Rightarrow> string list" where
  "split_by P [] = [[]]"
| "split_by P (x # xs) =
     (if P x then [] # split_by P xs
      else (case split_by P xs of [] \<Rightarrow> [[x]] | p # ps \<Rightarrow> (x # p) # ps))"

definition split_on :: "char \<Rightarrow> string \<Rightarrow> string list" where
  "split_on c s = split_by (\<lambda>x. x = c) s"

definition is_ascii_space :: "char \<Rightarrow> bool" where
  "is_ascii_space c \<longleftrightarrow> byte c \<in> {9, 10, 12, 13, 32}"

definition split_ascii_whitespace :: "string \<Rightarrow> string list" where
  "split_ascii_whitespace s = filter (\<lambda>p. p \<noteq> []) (split_by is_ascii_space s)"

fun split_once :: "char \<Rightarrow> string \<Rightarrow> (string \<times> string) option" where
  "split_once c [] = None"
| "split_once c (x # xs) =
     (if x = c then Some ([], xs) else map_option (\<lambda>(a, b). (x # a, b)) (split_once c xs))"

definition rsplit_once :: "char \<Rightarrow> string \<Rightarrow> (string \<times> string) option" where
  "rsplit_once c s = map_option (\<lambda>(a, b). (rev b, rev a)) (split_once c (rev s))"

fun split_once_str :: "string \<Rightarrow> string \<Rightarrow> (string \<times> string) option" where
  "split_once_str p [] = (if p = [] then Some ([], []) else None)"
| "split_once_str p (x # xs) =
     (if starts_with p (x # xs) then Some ([], drop (length p) (x # xs))
      else map_option (\<lambda>(a, b). (x # a, b)) (split_once_str p xs))"

lemma split_by_nonempty [simp]: "split_by P s \<noteq> []"
  by (cases s) (auto split: list.splits)

lemma split_on_nonempty [simp]: "split_on c s \<noteq> []"
  by (simp add: split_on_def)

lemma split_by_append_sep:
  "P c \<Longrightarrow> split_by P (a @ c # b) = split_by P a @ split_by P b"
  by (induction a) (auto split: list.splits)

lemma split_on_append_sep [simp]: "split_on c (a @ c # b) = split_on c a @ split_on c b"
  by (simp add: split_on_def split_by_append_sep)

lemma split_by_no_sep: "list_all (\<lambda>x. \<not> P x) s \<Longrightarrow> split_by P s = [s]"
  by (induction s) auto

lemma split_on_no_sep: "c \<notin> set s \<Longrightarrow> split_on c s = [s]"
  unfolding split_on_def by (rule split_by_no_sep) (auto simp: list_all_iff)

lemma split_by_pieces: "p \<in> set (split_by P s) \<Longrightarrow> x \<in> set p \<Longrightarrow> \<not> P x \<and> x \<in> set s"
proof (induction s arbitrary: p)
  case (Cons a s)
  obtain q qs where q: "split_by P s = q # qs"
    by (meson neq_Nil_conv split_by_nonempty)
  have IH: "\<not> P x \<and> x \<in> set s" if "x \<in> set q \<or> (\<exists>r \<in> set qs. x \<in> set r)"
    using Cons.IH that q by auto
  show ?case
    using Cons.prems IH q by (cases "P a") auto
qed simp

lemma split_on_pieces: "p \<in> set (split_on c s) \<Longrightarrow> c \<notin> set p \<and> set p \<subseteq> set s"
  using split_by_pieces[of p "\<lambda>x. x = c" s] by (auto simp: split_on_def)

text \<open>Joining the pieces of a split gives the text again, so a split determines its text.\<close>

fun join_with :: "char \<Rightarrow> string list \<Rightarrow> string" where
  "join_with c [] = []"
| "join_with c [p] = p"
| "join_with c (p # ps) = p @ c # join_with c ps"

lemma join_with_Cons: "ps \<noteq> [] \<Longrightarrow> join_with c (p # ps) = p @ c # join_with c ps"
  by (cases ps) auto

lemma join_with_Cons_head: "join_with c ((x # p) # ps) = x # join_with c (p # ps)"
  by (cases ps) auto

lemma join_split [simp]: "join_with c (split_on c s) = s"
proof (induction s)
  case Nil
  then show ?case by (simp add: split_on_def)
next
  case (Cons x s)
  obtain p ps where *: "split_by (\<lambda>x. x = c) s = p # ps"
    by (meson neq_Nil_conv split_by_nonempty)
  then show ?case using Cons by (auto simp: split_on_def join_with_Cons join_with_Cons_head)
qed

lemma split_on_inj: "split_on c s = split_on c t \<longleftrightarrow> s = t"
  by (metis join_split)

lemma join_append:
  "ps \<noteq> [] \<Longrightarrow> qs \<noteq> [] \<Longrightarrow> join_with c (ps @ qs) = join_with c ps @ c # join_with c qs"
proof (induction ps)
  case (Cons p ps)
  then show ?case by (cases "ps = []") (auto simp: join_with_Cons)
qed simp

lemma split_join:
  assumes "ps \<noteq> []" "\<And>p. p \<in> set ps \<Longrightarrow> c \<notin> set p"
  shows "split_on c (join_with c ps) = ps"
  using assms
proof (induction ps)
  case (Cons p ps)
  then show ?case by (cases "ps = []") (auto simp: join_with_Cons split_on_no_sep)
qed simp

text \<open>A text ends with the separator and a given rest exactly when the pieces of the rest end its
  pieces and at least one piece stands before them.\<close>

lemma ends_with_sep_iff:
  "(\<exists>a. s = a @ c # b) \<longleftrightarrow> (\<exists>ps. ps \<noteq> [] \<and> split_on c s = ps @ split_on c b)"
proof
  assume "\<exists>a. s = a @ c # b"
  then obtain a where "s = a @ c # b" by blast
  then have "split_on c s = split_on c a @ split_on c b" by simp
  then show "\<exists>ps. ps \<noteq> [] \<and> split_on c s = ps @ split_on c b" by (metis split_on_nonempty)
next
  assume "\<exists>ps. ps \<noteq> [] \<and> split_on c s = ps @ split_on c b"
  then obtain ps where ps: "ps \<noteq> []" "split_on c s = ps @ split_on c b" by blast
  have "s = join_with c (ps @ split_on c b)" using ps(2) join_split[of c s] by simp
  then have "s = join_with c ps @ c # b" using ps(1) by (simp add: join_append)
  then show "\<exists>a. s = a @ c # b" by blast
qed

lemma split_once_Some_iff: "split_once c s = Some (a, b) \<longleftrightarrow> s = a @ c # b \<and> c \<notin> set a"
proof (induction s arbitrary: a)
  case (Cons x s)
  show ?case
  proof (cases "x = c")
    case True
    then show ?thesis by (cases a) auto
  next
    case False
    show ?thesis using False Cons.IH by (cases a) auto
  qed
qed simp

lemma split_once_None_iff: "split_once c s = None \<longleftrightarrow> c \<notin> set s"
  by (induction s) auto

lemma rsplit_once_Some_iff: "rsplit_once c s = Some (a, b) \<longleftrightarrow> s = a @ c # b \<and> c \<notin> set b"
proof -
  have "rsplit_once c s = Some (a, b) \<longleftrightarrow> split_once c (rev s) = Some (rev b, rev a)"
    by (cases "split_once c (rev s)") (auto simp: rsplit_once_def)
  also have "\<dots> \<longleftrightarrow> s = a @ c # b \<and> c \<notin> set b"
    by (simp add: split_once_Some_iff rev_swap)
  finally show ?thesis .
qed

lemma rsplit_once_None_iff: "rsplit_once c s = None \<longleftrightarrow> c \<notin> set s"
  by (simp add: rsplit_once_def split_once_None_iff)

section \<open>Slices, trimming and numbers\<close>

definition is_continuation :: "char \<Rightarrow> bool" where
  "is_continuation c \<longleftrightarrow> 128 \<le> byte c \<and> byte c < 192"

definition is_char_boundary :: "string \<Rightarrow> nat \<Rightarrow> bool" where
  "is_char_boundary s i \<longleftrightarrow>
     i = 0 \<or> i = length s \<or> i < length s \<and> \<not> is_continuation (s ! i)"

text \<open>\<open>str::get\<close> with an open range.\<close>

definition get_from :: "nat \<Rightarrow> string \<Rightarrow> string option" where
  "get_from i s = (if is_char_boundary s i then Some (drop i s) else None)"

definition get_to :: "nat \<Rightarrow> string \<Rightarrow> string option" where
  "get_to i s = (if is_char_boundary s i then Some (take i s) else None)"

text \<open>\<open>chars().take(n)\<close>, collected.\<close>

fun take_chars :: "nat \<Rightarrow> string \<Rightarrow> string" where
  "take_chars 0 s = []"
| "take_chars (Suc n) [] = []"
| "take_chars (Suc n) (c # s) =
     c # takeWhile is_continuation s @ take_chars n (dropWhile is_continuation s)"

text \<open>The UTF-8 forms of the characters with the property \<open>White_Space\<close>, which \<open>str::trim\<close> removes.\<close>

definition utf8_spaces :: "string list" where
  "utf8_spaces = map (map char_of)
     ([[9], [10], [11], [12], [13], [32], [0xC2, 0x85], [0xC2, 0xA0], [0xE1, 0x9A, 0x80 :: nat],
       [0xE2, 0x80, 0xA8], [0xE2, 0x80, 0xA9], [0xE2, 0x80, 0xAF], [0xE2, 0x81, 0x9F],
       [0xE3, 0x80, 0x80]] @ map (\<lambda>n. [0xE2, 0x80, n]) [0x80 ..< 0x8B])"

function trim_front :: "string list \<Rightarrow> string \<Rightarrow> string" where
  "trim_front ws s =
     (case find (\<lambda>w. w \<noteq> [] \<and> starts_with w s) ws of
        None \<Rightarrow> s
      | Some w \<Rightarrow> trim_front ws (drop (length w) s))"
  by pat_completeness auto
termination
  by (relation "measure (length \<circ> snd)") (auto simp: find_Some_iff starts_with_iff)

declare trim_front.simps [simp del]

definition trim_bytes :: "string \<Rightarrow> string" where
  "trim_bytes s = rev (trim_front (map rev utf8_spaces) (rev (trim_front utf8_spaces s)))"

fun digits_value :: "nat \<Rightarrow> string \<Rightarrow> nat" where
  "digits_value acc [] = acc"
| "digits_value acc (c # s) = digits_value (10 * acc + (byte c - 48)) s"

text \<open>\<open>str::parse::<u16>\<close>: an optional plus sign, at least one digit, at most 65535.\<close>

definition parse_u16 :: "string \<Rightarrow> nat option" where
  "parse_u16 s =
     (let d = (case s of c # r \<Rightarrow> if c = CHR ''+'' then r else s | [] \<Rightarrow> s) in
      if d \<noteq> [] \<and> list_all byte_is_digit d \<and> digits_value 0 d \<le> 65535
      then Some (digits_value 0 d) else None)"

lemma trim_front_length: "length (trim_front ws s) \<le> length s"
proof (induction ws s rule: trim_front.induct)
  case (1 ws s)
  show ?case
  proof (cases "find (\<lambda>w. w \<noteq> [] \<and> starts_with w s) ws")
    case None
    then show ?thesis by (subst trim_front.simps) simp
  next
    case (Some w)
    then show ?thesis using "1.IH"[OF Some] by (subst trim_front.simps) simp
  qed
qed

lemma trim_bytes_length: "length (trim_bytes s) \<le> length s"
  unfolding trim_bytes_def by (metis length_rev order_trans trim_front_length)

lemma take_chars_bound: "length s \<le> n \<Longrightarrow> take_chars n s = s"
proof (induction n s rule: take_chars.induct)
  case (3 n c s)
  then show ?case by (simp add: le_trans[OF length_dropWhile_le])
qed auto

lemma set_trim_front: "set (trim_front ws s) \<subseteq> set s"
proof (induction ws s rule: trim_front.induct)
  case (1 ws s)
  show ?case
  proof (cases "find (\<lambda>w. w \<noteq> [] \<and> starts_with w s) ws")
    case None
    then show ?thesis by (subst trim_front.simps) simp
  next
    case (Some w)
    have "set (trim_front ws (drop (length w) s)) \<subseteq> set (drop (length w) s)" using "1.IH"[OF Some] .
    then show ?thesis using Some set_drop_subset[of "length w" s] by (subst trim_front.simps) auto
  qed
qed

lemma set_trim_bytes: "set (trim_bytes s) \<subseteq> set s"
  unfolding trim_bytes_def
  using set_trim_front[of "map rev utf8_spaces" "rev (trim_front utf8_spaces s)"] set_trim_front[of utf8_spaces s]
  by auto

text \<open>A text whose first and last bytes are visible ASCII is its own trimming.\<close>

definition visible_byte :: "char \<Rightarrow> bool" where
  "visible_byte c \<longleftrightarrow> 32 < byte c \<and> byte c < 128"

lemma space_ends: "list_all (\<lambda>w. w \<noteq> [] \<and> \<not> visible_byte (hd w) \<and> \<not> visible_byte (last w)) utf8_spaces"
  by code_simp

lemma trim_front_stays:
  assumes "list_all (\<lambda>w. w \<noteq> [] \<and> \<not> visible_byte (hd w)) ws" "s = [] \<or> visible_byte (hd s)"
  shows "trim_front ws s = s"
proof -
  have "find (\<lambda>w. w \<noteq> [] \<and> starts_with w s) ws = None"
    using assms by (fastforce simp: find_None_iff list_all_iff starts_with_iff)
  then show ?thesis by (subst trim_front.simps) simp
qed

lemma trim_bytes_visible:
  assumes "s = [] \<or> visible_byte (hd s) \<and> visible_byte (last s)"
  shows "trim_bytes s = s"
proof -
  have "trim_front utf8_spaces s = s"
    using assms space_ends by (intro trim_front_stays) (auto simp: list_all_iff)
  moreover have "trim_front (map rev utf8_spaces) (rev s) = rev s"
    using assms space_ends by (intro trim_front_stays) (auto simp: list_all_iff hd_rev)
  ultimately show ?thesis by (simp add: trim_bytes_def)
qed

end
