(* ===== verification/Task_Ops.thy ===== *)
theory Task_Ops
  imports Task_Sched Byte_Text
begin

text \<open>
  The operations themselves, in the order of the code: creation, refresh with its parts, and the
  commands of a user.
\<close>

section \<open>Checks\<close>

definition validate_texts :: "(string \<times> string) list \<Rightarrow> (development_error, unit) result" where
  "validate_texts ls = fold (\<lambda>(label, v) acc. res_bind acc (\<lambda>_. validate_text label v)) ls (Ok ())"

definition optional_text :: "string \<Rightarrow> string option \<Rightarrow> (string \<times> string) list" where
  "optional_text label v = (case v of None \<Rightarrow> [] | Some x \<Rightarrow> [(label, x)])"

fun check_dependencies :: "task_table \<Rightarrow> task_id list \<Rightarrow> task_id list \<Rightarrow> (development_error, unit) result" where
  "check_dependencies tasks seen [] = Ok ()"
| "check_dependencies tasks seen (d # ds) =
     (if d \<in> set seen then Err (InvalidInput (''duplicate task dependency '' @ d))
      else if \<not> bt_contains tasks d then Err (NotFound (''task dependency '' @ d))
      else check_dependencies tasks (d # seen) ds)"

text \<open>
  A working tree is resolved by the file system and lies under the root of the project, compared
  component by component, or is a repository of its own. Resolved paths are absolute and hold no dots.
\<close>

definition path_components :: "string \<Rightarrow> string list" where
  "path_components p = filter (\<lambda>c. c \<noteq> []) (split_on (CHR ''/'') p)"

definition tree_starts_with :: "string \<Rightarrow> string \<Rightarrow> bool" where
  "tree_starts_with p root \<longleftrightarrow> take (length (path_components root)) (path_components p) = path_components root"

definition validate_worktree :: "'b task_env \<Rightarrow> string \<Rightarrow> (development_error, unit) result" where
  "validate_worktree en d =
     res_bind (en_real_path en d) (\<lambda>p.
     if p = ''/'' \<or> \<not> tree_starts_with p (en_root en) \<and> \<not> en_exists en (p @ ''/.git'')
     then Err (PathOutsideWorkspace p) else Ok ())"

definition validate_spec :: "'b task_env \<Rightarrow> task_table \<Rightarrow> task_spec \<Rightarrow> (development_error, unit) result" where
  "validate_spec en tasks sp =
     res_bind (validate_texts [(''task title'', sp_title sp), (''task goal'', sp_goal sp), (''task prompt'', sp_prompt sp), (''task role'', sp_role sp)]) (\<lambda>_.
     res_bind (validate_texts (optional_text ''task model'' (sp_model sp) @ optional_text ''task thinking'' (sp_thinking sp))) (\<lambda>_.
     if length (sp_dependencies sp) > MAX_DEPENDENCIES then Err (InvalidInput ''task has too many dependencies'')
     else res_bind (check_dependencies tasks [] (sp_dependencies sp)) (\<lambda>_.
     if max_runtime_seconds (sp_budget sp) = 0 \<or> max_events (sp_budget sp) = 0
     then Err (InvalidInput ''task budgets must be positive'')
     else res_bind (validate_verification 0 (sp_verification sp)) (\<lambda>_.
     case sp_worktree sp of None \<Rightarrow> Ok () | Some d \<Rightarrow> validate_worktree en d))))"

section \<open>Starting tasks\<close>

definition task_ready :: "nat \<Rightarrow> task_table \<Rightarrow> task_record \<Rightarrow> bool" where
  "task_ready now tasks r \<longleftrightarrow>
     sn_state (tr_snapshot r) = Queued \<and>
     (case tr_next_retry_at_ms r of None \<Rightarrow> True | Some at \<Rightarrow> at \<le> now) \<and>
     (sn_blocked_override (tr_snapshot r) \<or>
      list_all (\<lambda>d. case bt_get tasks d of None \<Rightarrow> False | Some q \<Rightarrow> sn_state (tr_snapshot q) = Succeeded)
        (sn_dependencies (tr_snapshot r)))"

definition find_architect :: "task_table \<Rightarrow> task_snapshot \<Rightarrow> string option" where
  "find_architect tasks sn =
     (case List.map_filter (\<lambda>d. case bt_get tasks d of
         None \<Rightarrow> None
       | Some q \<Rightarrow> if sn_role (tr_snapshot q) = ''architect'' then sn_assigned_agent (tr_snapshot q) else None) (sn_dependencies sn) of
        [] \<Rightarrow> None | a # _ \<Rightarrow> Some a)"

definition architect_session_file :: "'b task_env \<Rightarrow> task_snapshot \<Rightarrow> ('b, string option) task_op" where
  "architect_session_file en sn w =
     (if sn_role sn \<noteq> ''implementer'' then (Ok None, w)
      else case find_architect (tw_tasks w) sn of
        None \<Rightarrow> (Ok None, w)
      | Some a \<Rightarrow>
          (case call_out (en_agent_snapshots en) w of
             (Inl _, w') \<Rightarrow> (Ok None, w')
           | (Inr ags, w') \<Rightarrow> (Ok (Option.bind (find (\<lambda>g. ag_id g = a) ags) ag_session_file), w')))"

definition agent_spec_for :: "task_id \<Rightarrow> task_snapshot \<Rightarrow> string option \<Rightarrow> agent_spec" where
  "agent_spec_for i sn fork =
     \<lparr>as_role = sn_role sn, as_task = ''task '' @ i @ '': '' @ sn_title sn, as_model = sn_model sn, as_thinking = sn_thinking sn,
      as_worktree = Some (sn_worktree sn), as_fork_from = fork, as_max_runtime_seconds = Some (max_runtime_seconds (sn_budget sn)),
      as_max_events = Some (max_events (sn_budget sn))\<rparr>"

definition started :: "'b task_env \<Rightarrow> string \<Rightarrow> task_snapshot \<Rightarrow> task_snapshot" where
  "started en agent sn =
     sn\<lparr>sn_assigned_agent := Some agent, sn_state := Ready,
        sn_attempt := nat_saturating_add u32_max (sn_attempt sn) 1, sn_updated_at_ms := en_now en\<rparr>"

definition start_task :: "'b task_env \<Rightarrow> task_id \<Rightarrow> ('b, unit) task_op" where
  "start_task en i =
     andthen (the_record i) (\<lambda>r.
     andthen (ensure_snapshot_checkpoint_fits en i (started en maximum_length_agent_id (tr_snapshot r))) (\<lambda>_.
     andthen (architect_session_file en (tr_snapshot r)) (\<lambda>fork.
     andthen (call_out (en_create_agent en (agent_spec_for i (tr_snapshot r) fork))) (\<lambda>agent.
     andthen (update_record i (\<lambda>q. q\<lparr>tr_snapshot := started en agent (tr_snapshot q), tr_next_retry_at_ms := None\<rparr>)) (\<lambda>_.
     persist_tasks en)))))"

definition ready_tasks :: "nat \<Rightarrow> task_table \<Rightarrow> task_id list" where
  "ready_tasks now tasks = map fst (filter (\<lambda>(_, r). task_ready now tasks r) tasks)"

definition schedule_ready :: "'b task_env \<Rightarrow> ('b, unit) task_op" where
  "schedule_ready en = andthen get_world (\<lambda>w. each (start_task en) (ready_tasks (en_now en) (tw_tasks w)))"

section \<open>Refreshing\<close>

definition task_for_agent :: "task_table \<Rightarrow> string \<Rightarrow> task_id option" where
  "task_for_agent tasks agent =
     map_option fst (find (\<lambda>(_, r). \<not> sn_recovery_pending (tr_snapshot r) \<and> sn_assigned_agent (tr_snapshot r) = Some agent) tasks)"

fun json_pointer :: "string list \<Rightarrow> json \<Rightarrow> json option" where
  "json_pointer [] v = Some v"
| "json_pointer (k # ks) v = Option.bind (json_get k v) (json_pointer ks)"

definition or_else :: "'a option \<Rightarrow> 'a option \<Rightarrow> 'a option" where
  "or_else x y = (case x of None \<Rightarrow> y | Some v \<Rightarrow> Some v)"

definition event_tokens :: "json \<Rightarrow> nat" where
  "event_tokens v =
     (let total = Option.bind (or_else (json_pointer [''message'', ''usage'', ''totalTokens''] v) (json_pointer [''usage'', ''totalTokens''] v)) as_u64;
          parts = map_option (\<lambda>usage. fold (\<lambda>n acc. nat_saturating_add u64_max acc n)
                    (List.map_filter (\<lambda>name. Option.bind (json_get name usage) as_u64) [''input'', ''output'', ''cacheRead'', ''cacheWrite'']) 0)
                    (or_else (json_pointer [''message'', ''usage''] v) (json_get ''usage'' v))
      in case or_else total parts of None \<Rightarrow> 0 | Some n \<Rightarrow> n)"

definition running :: "'b task_env \<Rightarrow> task_snapshot \<Rightarrow> task_snapshot" where
  "running en sn =
     sn\<lparr>sn_state := Running, sn_started_at_ms := Some (case sn_started_at_ms sn of None \<Rightarrow> en_now en | Some t \<Rightarrow> t),
        sn_updated_at_ms := en_now en\<rparr>"

definition event_evidence :: "'b task_env \<Rightarrow> agent_event \<Rightarrow> string \<Rightarrow> bool option \<Rightarrow> nat \<Rightarrow> task_evidence" where
  "event_evidence en ev kind passed attempt =
     \<lparr>ev_kind = kind, ev_actor = ae_agent_id ev, ev_source = ''resident-agent-session'', ev_passed = passed,
      ev_observed_at_ms = ae_timestamp_ms ev, ev_attempt = attempt, ev_details = bounded_event_details en (ae_payload ev)\<rparr>"

definition settled :: "'b task_env \<Rightarrow> agent_event \<Rightarrow> task_snapshot \<Rightarrow> task_snapshot" where
  "settled en ev sn =
     push_snapshot_evidence (en_now en) (event_evidence en ev ''agent.settled'' (Some True) (sn_attempt sn))
       (sn\<lparr>sn_state := Verifying, sn_updated_at_ms := en_now en\<rparr>)"

definition observed :: "'b task_env \<Rightarrow> agent_event \<Rightarrow> task_snapshot \<Rightarrow> task_snapshot" where
  "observed en ev sn =
     push_snapshot_evidence (en_now en) (event_evidence en ev (''agent.'' @ ae_kind ev) None (sn_attempt sn))
       (if ae_kind ev = ''message_end''
        then sn\<lparr>sn_observed_tokens := nat_saturating_add u64_max (sn_observed_tokens sn) (event_tokens (ae_payload ev))\<rparr> else sn)"

definition handle_event :: "'b task_env \<Rightarrow> agent_event \<Rightarrow> task_id \<Rightarrow> ('b, unit) task_op" where
  "handle_event en ev t =
     andthen (the_record t) (\<lambda>r.
     let sn = tr_snapshot r in
     if ae_kind ev = ''ready'' \<and> sn_state sn = Ready then
       andthen (ensure_snapshot_checkpoint_fits en t (running en sn)) (\<lambda>_.
       andthen (update_record t (\<lambda>q. q\<lparr>tr_snapshot := running en (tr_snapshot q)\<rparr>)) (\<lambda>_.
       andthen (persist_tasks en) (\<lambda>_.
       call_out (en_prompt_agent en (ae_agent_id ev) (sn_prompt sn)))))
     else if ae_kind ev = ''agent_settled'' \<and> sn_state sn = Running then commit_snapshot en t (settled en ev sn) True (ret ())
     else commit_snapshot en t (observed en ev sn) True (ret ()))"

definition apply_agent_event :: "'b task_env \<Rightarrow> agent_event \<Rightarrow> ('b, unit) task_op" where
  "apply_agent_event en ev =
     andthen get_world (\<lambda>w.
     case task_for_agent (tw_tasks w) (ae_agent_id ev) of
       None \<Rightarrow> persist_tasks en
     | Some t \<Rightarrow> andthen (handle_event en ev t) (\<lambda>_. persist_tasks en))"

definition STOPPED_EARLY :: string where
  "STOPPED_EARLY = ''assigned agent stopped before verification''"

definition agent_failed :: "'b task_env \<Rightarrow> agent_snapshot \<Rightarrow> task_snapshot \<Rightarrow> task_snapshot" where
  "agent_failed en ag sn =
     sn\<lparr>sn_state := Failed,
        sn_last_error := Some (bounded_task_error (case ag_last_error ag of None \<Rightarrow> STOPPED_EARLY | Some e \<Rightarrow> e)),
        sn_completed_at_ms := Some (en_now en), sn_updated_at_ms := en_now en\<rparr>"

definition apply_agent_failure :: "'b task_env \<Rightarrow> agent_snapshot \<Rightarrow> ('b, unit) task_op" where
  "apply_agent_failure en ag =
     andthen get_world (\<lambda>w.
     if ag_status ag \<noteq> AgentFailed \<and> ag_status ag \<noteq> AgentCancelled then ret ()
     else case task_for_agent (tw_tasks w) (ag_id ag) of
       None \<Rightarrow> ret ()
     | Some t \<Rightarrow>
         andthen (the_record t) (\<lambda>r.
         let sn = agent_failed en ag (tr_snapshot r) in
         if task_terminal (sn_state (tr_snapshot r)) then ret ()
         else andthen (lift_res (validate_text ''task error'' (case sn_last_error sn of None \<Rightarrow> [] | Some e \<Rightarrow> e))) (\<lambda>_.
              commit_snapshot en t sn False (ret ()))))"

definition live_status :: "agent_status \<Rightarrow> bool" where
  "live_status st \<longleftrightarrow> st \<notin> {AgentRecoveryPending, AgentUnavailable, AgentCompleted, AgentFailed, AgentCancelled}"

definition cancel_task_agent_if_live :: "'b task_env \<Rightarrow> string \<Rightarrow> ('b, unit) task_op" where
  "cancel_task_agent_if_live en a =
     andthen (call_out (en_agent_snapshots en)) (\<lambda>ags.
     case find (\<lambda>g. ag_id g = a) ags of
       None \<Rightarrow> ret ()
     | Some g \<Rightarrow> if live_status (ag_status g) then call_out (en_cancel_agent en a) else ret ())"

definition cancel_assigned :: "'b task_env \<Rightarrow> string option \<Rightarrow> ('b, unit) task_op" where
  "cancel_assigned en a = (case a of None \<Rightarrow> ret () | Some x \<Rightarrow> cancel_task_agent_if_live en x)"

definition budget_exceeded :: "nat \<Rightarrow> task_snapshot \<Rightarrow> bool" where
  "budget_exceeded now sn \<longleftrightarrow>
     (sn_state sn = Running \<or> sn_state sn = Waiting) \<and>
     ((case sn_started_at_ms sn of None \<Rightarrow> False | Some t \<Rightarrow> now - t > max_runtime_seconds (sn_budget sn) * 1000) \<or>
      (case max_tokens (sn_budget sn) of None \<Rightarrow> False | Some limit \<Rightarrow> sn_observed_tokens sn \<ge> limit))"

definition BUDGET_EXCEEDED :: string where
  "BUDGET_EXCEEDED = ''task runtime or token budget exceeded''"

definition over_budget :: "'b task_env \<Rightarrow> task_snapshot \<Rightarrow> task_snapshot" where
  "over_budget en sn =
     sn\<lparr>sn_state := Failed, sn_last_error := Some BUDGET_EXCEEDED, sn_completed_at_ms := Some (en_now en), sn_updated_at_ms := en_now en\<rparr>"

definition stop_over_budget :: "'b task_env \<Rightarrow> task_id \<Rightarrow> ('b, unit) task_op" where
  "stop_over_budget en t =
     andthen (the_record t) (\<lambda>r.
     commit_snapshot en t (over_budget en (tr_snapshot r)) False (cancel_assigned en (sn_assigned_agent (tr_snapshot r))))"

definition enforce_task_budgets :: "'b task_env \<Rightarrow> ('b, unit) task_op" where
  "enforce_task_budgets en =
     andthen get_world (\<lambda>w.
     each (stop_over_budget en) (map fst (filter (\<lambda>(_, r). budget_exceeded (en_now en) (tr_snapshot r)) (tw_tasks w))))"

definition add_evidence :: "'b task_env \<Rightarrow> task_evidence list \<Rightarrow> task_snapshot \<Rightarrow> task_snapshot" where
  "add_evidence en evs sn = fold (\<lambda>e s. push_snapshot_evidence (en_now en) (e\<lparr>ev_attempt := sn_attempt s\<rparr>) s) evs sn"

definition verified :: "'b task_env \<Rightarrow> task_evidence list \<Rightarrow> task_snapshot \<Rightarrow> task_snapshot" where
  "verified en evs sn =
     (add_evidence en evs sn)\<lparr>sn_state := Succeeded, sn_completed_at_ms := Some (en_now en), sn_updated_at_ms := en_now en, sn_last_error := None\<rparr>"

definition will_retry :: "task_snapshot \<Rightarrow> bool" where
  "will_retry sn \<longleftrightarrow> sn_attempt sn \<le> max_retries (sn_retry sn)"

definition not_verified :: "'b task_env \<Rightarrow> string \<Rightarrow> task_evidence list \<Rightarrow> task_snapshot \<Rightarrow> task_snapshot" where
  "not_verified en error evs sn =
     (let s = (add_evidence en evs sn)\<lparr>sn_assigned_agent := None, sn_last_error := Some (bounded_task_error error), sn_updated_at_ms := en_now en\<rparr> in
      if will_retry sn then s\<lparr>sn_state := Queued\<rparr> else s\<lparr>sn_state := Failed, sn_completed_at_ms := Some (en_now en)\<rparr>)"

definition retry_time :: "'b task_env \<Rightarrow> task_snapshot \<Rightarrow> nat option" where
  "retry_time en sn =
     (if will_retry sn then Some (nat_saturating_add u128_max (en_now en) (backoff_seconds (sn_retry sn) * 1000)) else None)"

fun show_nat :: "nat \<Rightarrow> string" where
  "show_nat n = (if n < 10 then [char_of (48 + n)] else show_nat (n div 10) @ [char_of (48 + n mod 10)])"

declare show_nat.simps [simp del]

definition show_int :: "int \<Rightarrow> string" where
  "show_int i = (if i < 0 then CHR ''-'' # show_nat (nat (- i)) else show_nat (nat i))"

definition command_evidence :: "'b task_env \<Rightarrow> bool \<Rightarrow> (string \<times> json) list \<Rightarrow> task_evidence" where
  "command_evidence en passed details =
     \<lparr>ev_kind = ''command'', ev_actor = ''glass-task-verifier'', ev_source = ''trusted-command'', ev_passed = Some passed,
      ev_observed_at_ms = en_now en, ev_attempt = 0, ev_details = JObject details\<rparr>"

definition verify_command :: "'b task_env \<Rightarrow> string \<Rightarrow> string \<Rightarrow> int \<Rightarrow> nat \<Rightarrow> (development_error, verification_outcome) result" where
  "verify_command en worktree command expected_exit timeout_seconds =
     res_bind (en_run_command en worktree command timeout_seconds) (\<lambda>r. Ok
       (case r of
          TimedOut \<Rightarrow>
            FailedWith ''verification command timed out''
              [command_evidence en False [(''command'', JString command), (''timedOut'', JBool True)]]
        | Exited code \<Rightarrow>
            let actual = (case code of None \<Rightarrow> - 1 | Some c \<Rightarrow> c);
                seen = command_evidence en (actual = expected_exit)
                  [(''command'', JString command), (''expectedExit'', JInt expected_exit), (''actualExit'', JInt actual)] in
            if actual = expected_exit then Passed [seen]
            else FailedWith (''verification command exited '' @ show_int actual @ '', expected '' @ show_int expected_exit) [seen]))"

definition verify_task :: "'b task_env \<Rightarrow> task_id \<Rightarrow> ('b, unit) task_op" where
  "verify_task en t =
     andthen (the_record t) (\<lambda>r.
     let sn = tr_snapshot r in
     andthen (lift_res (verify (verify_command en (sn_worktree sn)) (sn_evidence sn) (sn_verification sn))) (\<lambda>outcome.
     case outcome of
       Passed evs \<Rightarrow>
         andthen (commit_snapshot en t (verified en evs sn) (evs \<noteq> [])
           (case sn_assigned_agent sn of None \<Rightarrow> ret () | Some a \<Rightarrow> call_out (en_complete_agent en a))) (\<lambda>_.
         update_record t (\<lambda>q. q\<lparr>tr_next_retry_at_ms := None\<rparr>))
     | StillWaiting \<Rightarrow> commit_snapshot en t (sn\<lparr>sn_state := Waiting, sn_updated_at_ms := en_now en\<rparr>) False (ret ())
     | FailedWith error evs \<Rightarrow>
         andthen (lift_res (validate_text ''task verification error'' error)) (\<lambda>_.
         andthen (commit_snapshot en t (not_verified en error evs sn) (evs \<noteq> []) (cancel_assigned en (sn_assigned_agent sn))) (\<lambda>_.
         update_record t (\<lambda>q. q\<lparr>tr_next_retry_at_ms := retry_time en sn\<rparr>)))))"

definition verify_pending :: "'b task_env \<Rightarrow> ('b, unit) task_op" where
  "verify_pending en =
     andthen get_world (\<lambda>w.
     each (verify_task en) (map fst (filter (\<lambda>(_, r). sn_state (tr_snapshot r) = Verifying) (tw_tasks w))))"

section \<open>Blocking\<close>

definition state_of :: "task_table \<Rightarrow> task_id \<Rightarrow> task_state option" where
  "state_of tasks t = map_option (\<lambda>r. sn_state (tr_snapshot r)) (bt_get tasks t)"

definition stuck :: "task_table \<Rightarrow> task_id \<Rightarrow> bool" where
  "stuck tasks d \<longleftrightarrow> state_of tasks d \<in> {Some Failed, Some Cancelled, Some Blocked}"

definition must_block :: "task_table \<Rightarrow> task_id \<Rightarrow> bool" where
  "must_block tasks t =
     (case bt_get tasks t of
        None \<Rightarrow> False
      | Some r \<Rightarrow> sn_state (tr_snapshot r) = Queued \<and> \<not> sn_blocked_override (tr_snapshot r) \<and>
                 list_ex (stuck tasks) (sn_dependencies (tr_snapshot r)))"

definition PREREQUISITE_FAILED :: string where
  "PREREQUISITE_FAILED = ''a prerequisite task did not succeed''"

definition blocked :: "'b task_env \<Rightarrow> task_snapshot \<Rightarrow> task_snapshot" where
  "blocked en sn = sn\<lparr>sn_state := Blocked, sn_last_error := Some PREREQUISITE_FAILED, sn_updated_at_ms := en_now en\<rparr>"

definition block_task :: "'b task_env \<Rightarrow> task_id \<Rightarrow> ('b, unit) task_op" where
  "block_task en t = andthen (the_record t) (\<lambda>r. commit_snapshot en t (blocked en (tr_snapshot r)) False (ret ()))"

definition tasks_to_block :: "task_table \<Rightarrow> task_id list" where
  "tasks_to_block tasks = filter (must_block tasks) (map fst tasks)"

definition queued_tasks :: "task_table \<Rightarrow> task_id set" where
  "queued_tasks tasks = {t. state_of tasks t = Some Queued}"

text \<open>Blocking a task leaves the states of the others.\<close>

lemma replaced_state:
  assumes "replaced i sn T T'" "bt_get T i \<noteq> None"
  shows "state_of T' u = (if u = i then Some (sn_state sn) else state_of T u)"
proof (cases "bt_get T u")
  case None
  then show ?thesis using assms replacedD(1) [OF assms(1) None] by (auto simp: state_of_def)
next
  case (Some r)
  obtain x where x: "bt_get T' u = Some (set_snapshot x r)" "trimmed x (if u = i then sn else tr_snapshot r)"
    using replacedD(2) [OF assms(1) Some] by blast
  then have "sn_state x = sn_state (if u = i then sn else tr_snapshot r)" by (intro core_eq(1)) (simp add: trimmed_def)
  then show ?thesis using x(1) Some by (auto simp: state_of_def set_snapshot_def)
qed

lemma state_of_None: "state_of T u = None \<longleftrightarrow> bt_get T u = None"
  by (simp add: state_of_def)

lemma block_task_state:
  assumes "block_task en t w = (r, w')"
  shows "\<forall>u. state_of (tw_tasks w') u = (if is_ok r \<and> u = t then Some Blocked else state_of (tw_tasks w) u)"
proof (cases "bt_get (tw_tasks w) t")
  case None
  then show ?thesis using assms by (auto simp: block_task_def andthen_def the_record_def)
next
  case (Some q)
  have c: "commit_snapshot en t (blocked en (tr_snapshot q)) False (ret ()) w = (r, w')"
    using assms Some by (simp add: block_task_def andthen_def the_record_def)
  have e: "if is_ok r then replaced t (blocked en (tr_snapshot q)) (tw_tasks w) (tw_tasks w') else tw_tasks w' = tw_tasks w"
    using commit_effect [OF outside_basic(1) _ c] Some by simp
  show ?thesis
  proof (cases "is_ok r")
    case True
    then have "replaced t (blocked en (tr_snapshot q)) (tw_tasks w) (tw_tasks w')" using e by simp
    then show ?thesis using replaced_state [of t "blocked en (tr_snapshot q)"] Some True by (simp add: blocked_def)
  next
    case False
    then show ?thesis using e by simp
  qed
qed

lemma block_all_state:
  assumes "each (block_task en) ts w = (Ok (), w')"
  shows "state_of (tw_tasks w') u = (if u \<in> set ts then Some Blocked else state_of (tw_tasks w) u)"
  using assms
proof (induction ts arbitrary: w)
  case (Cons t ts)
  obtain r w1 where b: "block_task en t w = (r, w1)" by fastforce
  then have "r = Ok ()" "each (block_task en) ts w1 = (Ok (), w')" using Cons.prems by (auto simp: andthen_def split: sum.splits)
  then show ?case using Cons.IH [of w1] block_task_state [OF b] by simp
qed (simp add: ret_def)

lemma finite_queued: "finite (queued_tasks T)"
proof (rule finite_subset)
  show "queued_tasks T \<subseteq> set (map fst T)"
  proof
    fix t
    assume "t \<in> queued_tasks T"
    then have "map_of T t \<noteq> None" by (auto simp: queued_tasks_def state_of_def bt_get_def)
    then show "t \<in> set (map fst T)" by (simp add: map_of_eq_None_iff)
  qed
qed simp

lemma tasks_to_block_queued: "t \<in> set (tasks_to_block T) \<Longrightarrow> t \<in> queued_tasks T"
  by (auto simp: tasks_to_block_def must_block_def queued_tasks_def state_of_def split: option.splits)

lemma block_all_decreases:
  assumes "tasks_to_block (tw_tasks w) \<noteq> []" "each (block_task en) (tasks_to_block (tw_tasks w)) w = (Ok (), w')"
  shows "card (queued_tasks (tw_tasks w')) < card (queued_tasks (tw_tasks w))"
proof (rule psubset_card_mono [OF finite_queued])
  obtain t where t: "t \<in> set (tasks_to_block (tw_tasks w))" using assms(1) by (meson list.set_sel(1))
  have "t \<in> queued_tasks (tw_tasks w)" "t \<notin> queued_tasks (tw_tasks w')"
    using tasks_to_block_queued [OF t] block_all_state [OF assms(2), of t] t by (auto simp: queued_tasks_def)
  moreover have "queued_tasks (tw_tasks w') \<subseteq> queued_tasks (tw_tasks w)"
    using block_all_state [OF assms(2)] by (auto simp: queued_tasks_def split: if_splits)
  ultimately show "queued_tasks (tw_tasks w') \<subset> queued_tasks (tw_tasks w)" by blast
qed

text \<open>The loop ends because every round takes at least one task out of the queue.\<close>

function propagate_blocked :: "'b task_env \<Rightarrow> ('b, unit) task_op" where
  "propagate_blocked en w =
     (if tasks_to_block (tw_tasks w) = [] then (Ok (), w)
      else case each (block_task en) (tasks_to_block (tw_tasks w)) w of
        (Inl e, w') \<Rightarrow> (Err e, w')
      | (Inr _, w') \<Rightarrow> propagate_blocked en w')"
  by auto
termination
  by (relation "measure (\<lambda>(en, w). card (queued_tasks (tw_tasks w)))") (auto intro: block_all_decreases [OF _ sym])

declare propagate_blocked.simps [simp del]

end
