(* ===== verification/Task_Commands.thy ===== *)
theory Task_Commands
  imports Task_Ops
begin

text \<open>
  Refresh, creation and the commands of a user (\<^verbatim>\<open>crates/glass-dev/src/tasks.rs\<close>).
\<close>

section \<open>Refresh\<close>

definition take_event :: "'b task_env \<Rightarrow> agent_event \<Rightarrow> ('b, unit) task_op" where
  "take_event en ev =
     andthen (apply_agent_event en ev) (\<lambda>_ w.
       (Ok (), w\<lparr>tw_agent_event_cursor := max (tw_agent_event_cursor w) (ae_sequence ev)\<rparr>))"

definition refresh :: "'b task_env \<Rightarrow> ('b, unit) task_op" where
  "refresh en =
     andthen (call_out (en_refresh_agents en)) (\<lambda>_.
     andthen (call_out (en_agent_snapshots en)) (\<lambda>ags.
     andthen get_world (\<lambda>w.
     andthen (call_out (en_agent_events en (tw_agent_event_cursor w))) (\<lambda>evs.
     andthen (each (take_event en) evs) (\<lambda>_.
     andthen (each (apply_agent_failure en) ags) (\<lambda>_.
     andthen (enforce_task_budgets en) (\<lambda>_.
     andthen (verify_pending en) (\<lambda>_.
     andthen (propagate_blocked en) (\<lambda>_.
     andthen (schedule_ready en) (\<lambda>_.
     persist_tasks en))))))))))"

section \<open>Creation\<close>

definition infer_verification :: "'b task_env \<Rightarrow> string \<Rightarrow> verification_requirement" where
  "infer_verification en worktree =
     (let command =
        (if en_is_file en worktree ''Cargo.lock'' then Some ''cargo test --workspace --all-targets --locked''
         else if en_is_file en worktree ''Cargo.toml'' then Some ''cargo test --workspace --all-targets''
         else if en_is_file en worktree ''package.json'' then Some ''npm test''
         else if en_is_file en worktree ''pyproject.toml'' \<or> en_is_file en worktree ''pytest.ini'' then Some ''python -m pytest''
         else if en_is_file en worktree ''go.mod'' then Some ''go test ./...''
         else None)
      in case command of None \<Rightarrow> GitChange True False | Some c \<Rightarrow> CommandCheck c 0 600)"

definition resolve_spec :: "'b task_env \<Rightarrow> task_spec \<Rightarrow> task_spec" where
  "resolve_spec en sp =
     (if sp_verification sp = Inferred
      then sp\<lparr>sp_verification := infer_verification en (case sp_worktree sp of None \<Rightarrow> en_root en | Some d \<Rightarrow> d)\<rparr> else sp)"

definition pad4 :: "string \<Rightarrow> string" where
  "pad4 s = replicate (4 - length s) (CHR ''0'') @ s"

definition task_name :: "nat \<Rightarrow> task_id" where
  "task_name n = ''task-'' @ pad4 (show_nat n)"

definition new_snapshot :: "'b task_env \<Rightarrow> task_id \<Rightarrow> task_spec \<Rightarrow> task_snapshot" where
  "new_snapshot en i sp =
     \<lparr>sn_id = i, sn_title = sp_title sp, sn_goal = sp_goal sp, sn_prompt = sp_prompt sp, sn_role = sp_role sp,
      sn_dependencies = sp_dependencies sp, sn_assigned_agent = Some maximum_length_agent_id,
      sn_worktree = (case sp_worktree sp of None \<Rightarrow> en_root en | Some d \<Rightarrow> d), sn_model = sp_model sp, sn_thinking = sp_thinking sp,
      sn_budget = sp_budget sp, sn_verification = sp_verification sp, sn_retry = sp_retry sp, sn_state = Ready, sn_attempt = 1,
      sn_observed_tokens = 0, sn_created_at_ms = en_now en, sn_started_at_ms = None, sn_completed_at_ms = None,
      sn_updated_at_ms = en_now en, sn_last_error = None, sn_evidence = [], sn_blocked_override = False,
      sn_recovery_pending = False, sn_evidence_truncated = False\<rparr>"

definition unscheduled :: "task_snapshot \<Rightarrow> task_snapshot" where
  "unscheduled sn = sn\<lparr>sn_assigned_agent := None, sn_state := Queued, sn_attempt := 0\<rparr>"

definition insert_task :: "'b task_env \<Rightarrow> task_id \<Rightarrow> task_snapshot \<Rightarrow> nat \<Rightarrow> ('b, unit) task_op" where
  "insert_task en i sn next w =
     (let w1 = w\<lparr>tw_next_task := next, tw_tasks := bt_insert i \<lparr>tr_snapshot = unscheduled sn, tr_next_retry_at_ms = None\<rparr> (tw_tasks w)\<rparr> in
      case ensure_current_checkpoint_fits en w1 of
        (Inl e, w2) \<Rightarrow> (Err e, w2\<lparr>tw_tasks := bt_remove i (tw_tasks w2), tw_next_task := tw_next_task w2 - 1\<rparr>)
      | (Inr _, w2) \<Rightarrow> (Ok (), w2))"

definition create_checked :: "'b task_env \<Rightarrow> task_spec \<Rightarrow> ('b, task_id) task_op" where
  "create_checked en sp =
     andthen get_world (\<lambda>w.
     andthen (lift_res (validate_spec en (tw_tasks w) sp)) (\<lambda>_.
     if length (tw_tasks w) \<ge> MAX_TASKS then fail (Conflict ''task scheduler reached its 128 task limit'')
     else case nat_checked_add u64_max (tw_next_task w) 1 of
       None \<Rightarrow> fail (Conflict ''task identifier space exhausted'')
     | Some next \<Rightarrow>
         let i = task_name (tw_next_task w); sn = new_snapshot en i sp in
         andthen (lift_res (mutation_capacity
           (en_size en (checkpoint_records [] (tw_tasks w) @ [\<lparr>tr_snapshot = sn, tr_next_retry_at_ms = None\<rparr>]) next))) (\<lambda>_.
         andthen (insert_task en i sn next) (\<lambda>_.
         andthen (schedule_ready en) (\<lambda>_.
         andthen (persist_tasks en) (\<lambda>_. ret i))))))"

definition create :: "'b task_env \<Rightarrow> task_spec \<Rightarrow> ('b, task_id) task_op" where
  "create en sp = andthen (refresh en) (\<lambda>_. create_checked en (resolve_spec en sp))"

section \<open>Commands\<close>

definition submitted :: "'b task_env \<Rightarrow> task_evidence \<Rightarrow> task_snapshot \<Rightarrow> task_snapshot" where
  "submitted en e sn =
     (let s = push_snapshot_evidence (en_now en) e sn in if sn_state s = Waiting then s\<lparr>sn_state := Verifying\<rparr> else s)"

definition submit_evidence ::
    "'b task_env \<Rightarrow> task_id \<Rightarrow> string \<Rightarrow> string \<Rightarrow> string \<Rightarrow> bool \<Rightarrow> json \<Rightarrow> ('b, unit) task_op" where
  "submit_evidence en i kind actor source passed details =
     andthen (the_record i) (\<lambda>r.
     let e = \<lparr>ev_kind = kind, ev_actor = actor, ev_source = source, ev_passed = Some passed, ev_observed_at_ms = en_now en,
              ev_attempt = sn_attempt (tr_snapshot r), ev_details = details\<rparr> in
     andthen (lift_res (validate_texts [(''task evidence kind'', kind), (''task evidence actor'', actor), (''task evidence source'', source)])) (\<lambda>_.
     andthen (ensure_snapshot_checkpoint_fits en i (submitted en e (tr_snapshot r))) (\<lambda>_.
     andthen (update_record i (\<lambda>q. q\<lparr>tr_snapshot := submitted en e (tr_snapshot q)\<rparr>)) (\<lambda>_.
     persist_tasks en))))"

definition paused :: "'b task_env \<Rightarrow> task_snapshot \<Rightarrow> task_snapshot" where
  "paused en sn =
     sn\<lparr>sn_assigned_agent := None, sn_state := Paused, sn_recovery_pending := False, sn_last_error := None, sn_updated_at_ms := en_now en\<rparr>"

definition pause :: "'b task_env \<Rightarrow> task_id \<Rightarrow> ('b, unit) task_op" where
  "pause en i =
     andthen (refresh en) (\<lambda>_.
     andthen (the_record i) (\<lambda>r.
     if task_terminal (sn_state (tr_snapshot r)) then fail (Conflict ''terminal task cannot be paused'')
     else andthen (ensure_snapshot_checkpoint_fits en i (paused en (tr_snapshot r))) (\<lambda>_.
          andthen (cancel_assigned en (sn_assigned_agent (tr_snapshot r))) (\<lambda>_.
          andthen (update_record i (\<lambda>q. q\<lparr>tr_snapshot := paused en (tr_snapshot q)\<rparr>)) (\<lambda>_.
          persist_tasks en)))))"

definition requeued :: "'b task_env \<Rightarrow> task_snapshot \<Rightarrow> task_snapshot" where
  "requeued en sn =
     sn\<lparr>sn_state := Queued, sn_assigned_agent := None, sn_recovery_pending := False, sn_last_error := None, sn_updated_at_ms := en_now en\<rparr>"

text \<open>Put a task back into the queue, with room for its next start, and start what is ready.\<close>

definition requeue :: "'b task_env \<Rightarrow> task_id \<Rightarrow> task_snapshot \<Rightarrow> ('b, unit) task_op \<Rightarrow> (task_record \<Rightarrow> task_record) \<Rightarrow> ('b, unit) task_op" where
  "requeue en i projected act f =
     andthen (ensure_snapshot_checkpoint_fits en i projected) (\<lambda>_.
     andthen (ensure_schedule_checkpoint_fits en i projected) (\<lambda>_.
     andthen act (\<lambda>_.
     andthen (update_record i f) (\<lambda>_.
     andthen (schedule_ready en) (\<lambda>_.
     persist_tasks en)))))"

definition resume :: "'b task_env \<Rightarrow> task_id \<Rightarrow> ('b, unit) task_op" where
  "resume en i =
     andthen (the_record i) (\<lambda>r.
     if sn_state (tr_snapshot r) \<noteq> Paused then fail (Conflict ''task is not paused'')
     else requeue en i (requeued en (tr_snapshot r)) (ret ()) (\<lambda>q. q\<lparr>tr_snapshot := requeued en (tr_snapshot q)\<rparr>))"

definition cancelled :: "'b task_env \<Rightarrow> task_snapshot \<Rightarrow> task_snapshot" where
  "cancelled en sn =
     (if task_terminal (sn_state sn) then sn
      else sn\<lparr>sn_state := Cancelled, sn_recovery_pending := False, sn_completed_at_ms := Some (en_now en), sn_updated_at_ms := en_now en\<rparr>)"

definition cancel :: "'b task_env \<Rightarrow> task_id \<Rightarrow> ('b, unit) task_op" where
  "cancel en i =
     andthen (refresh en) (\<lambda>_.
     andthen (the_record i) (\<lambda>r.
     andthen (ensure_snapshot_checkpoint_fits en i (cancelled en (tr_snapshot r))) (\<lambda>_.
     andthen (cancel_assigned en (sn_assigned_agent (tr_snapshot r))) (\<lambda>_.
     andthen (update_record i (\<lambda>q. q\<lparr>tr_snapshot := cancelled en (tr_snapshot q)\<rparr>)) (\<lambda>_.
     andthen (propagate_blocked en) (\<lambda>_.
     persist_tasks en))))))"

definition retried :: "'b task_env \<Rightarrow> task_snapshot \<Rightarrow> task_snapshot" where
  "retried en sn = (requeued en sn)\<lparr>sn_completed_at_ms := None\<rparr>"

definition retry :: "'b task_env \<Rightarrow> task_id \<Rightarrow> ('b, unit) task_op" where
  "retry en i =
     andthen (the_record i) (\<lambda>r.
     if sn_state (tr_snapshot r) \<noteq> Failed \<and> sn_state (tr_snapshot r) \<noteq> Blocked
     then fail (Conflict ''only failed or blocked tasks can be retried'')
     else requeue en i (retried en (tr_snapshot r)) (ret ())
            (\<lambda>q. q\<lparr>tr_snapshot := retried en (tr_snapshot q), tr_next_retry_at_ms := None\<rparr>))"

definition reassigned :: "'b task_env \<Rightarrow> string \<Rightarrow> string option \<Rightarrow> string option \<Rightarrow> task_snapshot \<Rightarrow> task_snapshot" where
  "reassigned en role model thinking sn = (requeued en sn)\<lparr>sn_role := role, sn_model := model, sn_thinking := thinking\<rparr>"

definition reassign :: "'b task_env \<Rightarrow> task_id \<Rightarrow> string \<Rightarrow> string option \<Rightarrow> string option \<Rightarrow> ('b, unit) task_op" where
  "reassign en i role model thinking =
     andthen (lift_res (validate_texts ((''task role'', role) # optional_text ''task model'' model @ optional_text ''task thinking'' thinking))) (\<lambda>_.
     andthen (the_record i) (\<lambda>r.
     if task_terminal (sn_state (tr_snapshot r)) then fail (Conflict ''terminal task cannot be reassigned'')
     else requeue en i (reassigned en role model thinking (tr_snapshot r)) (cancel_assigned en (sn_assigned_agent (tr_snapshot r)))
            (\<lambda>q. q\<lparr>tr_snapshot := reassigned en role model thinking (tr_snapshot q)\<rparr>)))"

definition overridden :: "'b task_env \<Rightarrow> task_snapshot \<Rightarrow> task_snapshot" where
  "overridden en sn =
     sn\<lparr>sn_blocked_override := True, sn_state := Queued, sn_recovery_pending := False, sn_last_error := None, sn_updated_at_ms := en_now en\<rparr>"

definition override_blocked :: "'b task_env \<Rightarrow> task_id \<Rightarrow> ('b, unit) task_op" where
  "override_blocked en i =
     andthen (the_record i) (\<lambda>r.
     if sn_state (tr_snapshot r) \<noteq> Blocked then fail (Conflict ''task is not blocked'')
     else requeue en i (overridden en (tr_snapshot r)) (ret ()) (\<lambda>q. q\<lparr>tr_snapshot := overridden en (tr_snapshot q)\<rparr>))"

end
