(* ===== verification/Task_Open.thy ===== *)
theory Task_Open
  imports Task_Commands
begin

text \<open>
  Opening a saved task table (\<^verbatim>\<open>crates/glass-dev/src/tasks.rs\<close>): the checks on the decoded
  checkpoint, the checks on every snapshot, and the recovery of the tasks whose agents are gone, with
  a checkpoint that may have to be made smaller to be written.
\<close>

section \<open>Identifiers\<close>

text \<open>Control characters of UTF-8 text: the ASCII ones, and U+0080 to U+009F.\<close>

definition ascii_control :: "char \<Rightarrow> bool" where
  "ascii_control c \<longleftrightarrow> (of_char c :: nat) < 32 \<or> (of_char c :: nat) = 127"

definition latin_control :: "char \<Rightarrow> char \<Rightarrow> bool" where
  "latin_control c d \<longleftrightarrow> (of_char c :: nat) = 194 \<and> 128 \<le> (of_char d :: nat) \<and> (of_char d :: nat) < 160"

fun has_control :: "string \<Rightarrow> bool" where
  "has_control [] \<longleftrightarrow> False"
| "has_control (c # cs) \<longleftrightarrow> ascii_control c \<or> (cs \<noteq> [] \<and> latin_control c (hd cs)) \<or> has_control cs"

definition identifier_ok :: "string \<Rightarrow> string \<Rightarrow> bool" where
  "identifier_ok prefix i \<longleftrightarrow> take (length prefix) i = prefix \<and> length i \<le> 64 \<and> \<not> has_control i"

definition task_id_ok :: "string \<Rightarrow> bool" where
  "task_id_ok i = identifier_ok ''task-'' i"

definition agent_id_ok :: "string \<Rightarrow> bool" where
  "agent_id_ok a = identifier_ok ''agent-'' a"

definition id_digit :: "char \<Rightarrow> bool" where
  "id_digit c \<longleftrightarrow> 48 \<le> (of_char c :: nat) \<and> (of_char c :: nat) < 58"

definition decimal_value :: "string \<Rightarrow> nat" where
  "decimal_value ds = fold (\<lambda>c acc. 10 * acc + (of_char c - 48)) ds 0"

text \<open>\<open>str::parse::<u64>\<close>: an optional plus sign and at least one digit.\<close>

definition parse_id_number :: "string \<Rightarrow> nat option" where
  "parse_id_number s =
     (let ds = (if s \<noteq> [] \<and> hd s = CHR ''+'' then tl s else s) in
      if ds \<noteq> [] \<and> list_all id_digit ds \<and> decimal_value ds \<le> u64_max then Some (decimal_value ds) else None)"

definition number_of_task :: "task_id \<Rightarrow> nat option" where
  "number_of_task i = (if take 5 i = ''task-'' then parse_id_number (drop 5 i) else None)"

section \<open>Checks on snapshots\<close>

definition spec_of :: "task_snapshot \<Rightarrow> task_spec" where
  "spec_of sn =
     \<lparr>sp_title = sn_title sn, sp_goal = sn_goal sn, sp_prompt = sn_prompt sn, sp_role = sn_role sn, sp_dependencies = sn_dependencies sn,
      sp_worktree = Some (sn_worktree sn), sp_model = sn_model sn, sp_thinking = sn_thinking sn, sp_budget = sn_budget sn,
      sp_verification = sn_verification sn, sp_retry = sn_retry sn\<rparr>"

definition active_state :: "task_state \<Rightarrow> bool" where
  "active_state st \<longleftrightarrow> st \<in> {Ready, Running, Waiting, Verifying}"

definition too_long :: "string \<Rightarrow> bool" where
  "too_long v \<longleftrightarrow> length v > MAX_TASK_TEXT_BYTES \<or> CHR 0x00 \<in> set v"

definition reserved_id :: "task_id \<Rightarrow> bool" where
  "reserved_id i \<longleftrightarrow> number_of_task i = Some 0"

definition validate_snapshot :: "'b task_env \<Rightarrow> task_table \<Rightarrow> task_snapshot \<Rightarrow> (development_error, unit) result" where
  "validate_snapshot en tasks sn =
     (if reserved_id (sn_id sn) then Err (InvalidInput ''task checkpoint contains reserved task id'')
      else if sn_id sn \<in> set (sn_dependencies sn) \<or> \<not> distinct (sn_dependencies sn)
      then Err (InvalidInput ''task checkpoint has a duplicate or self dependency'')
      else if sn_recovery_pending sn \<and> (sn_state sn \<noteq> Paused \<or> sn_assigned_agent sn = None)
      then Err (InvalidInput ''task checkpoint has inconsistent recovery state'')
      else if active_state (sn_state sn) \<and> sn_assigned_agent sn = None
      then Err (InvalidInput ''active task checkpoint has no assigned agent'')
      else if (sn_state sn = Queued \<or> sn_state sn = Blocked) \<and> sn_assigned_agent sn \<noteq> None
      then Err (InvalidInput ''unassigned task state has an assigned agent'')
      else if sn_state sn = Paused \<and> \<not> sn_recovery_pending sn \<and> sn_assigned_agent sn \<noteq> None
      then Err (InvalidInput ''manually paused task has an unexpected agent assignment'')
      else if sn_verification sn = Inferred
      then Err (InvalidInput ''task checkpoint contains unresolved inferred verification'')
      else if (case sn_last_error sn of None \<Rightarrow> False | Some v \<Rightarrow> too_long v)
      then Err (InvalidInput ''task checkpoint error text exceeds bounds'')
      else if (case sn_model sn of None \<Rightarrow> False | Some v \<Rightarrow> too_long v)
      then Err (InvalidInput ''task model exceeds task checkpoint bounds'')
      else if (case sn_thinking sn of None \<Rightarrow> False | Some v \<Rightarrow> too_long v)
      then Err (InvalidInput ''task thinking exceeds task checkpoint bounds'')
      else res_bind (validate_texts (concat (map (\<lambda>e.
             [(''task evidence kind'', ev_kind e), (''task evidence actor'', ev_actor e), (''task evidence source'', ev_source e)]) (sn_evidence sn)))) (\<lambda>_.
           validate_spec en tasks (spec_of sn)))"

definition RECOVERY_PENDING :: string where
  "RECOVERY_PENDING = ''recovery pending: prior agent outcome is unknown; inspect before resuming''"

definition recover :: "'b task_env \<Rightarrow> task_snapshot \<Rightarrow> task_snapshot" where
  "recover en sn =
     (if active_state (sn_state sn) \<and> sn_assigned_agent sn \<noteq> None
      then sn\<lparr>sn_state := Paused, sn_recovery_pending := True, sn_last_error := Some RECOVERY_PENDING, sn_updated_at_ms := en_now en\<rparr>
      else sn)"

section \<open>The decoded checkpoint\<close>

record task_checkpoint =
  ck_version :: nat
  ck_root :: string
  ck_next_task :: nat
  ck_tasks :: "task_record list"

definition TASK_CHECKPOINT_VERSION :: nat where "TASK_CHECKPOINT_VERSION = 2"

definition checkpoint_of :: "'b task_env \<Rightarrow> 'b task_world \<Rightarrow> task_checkpoint" where
  "checkpoint_of en w =
     \<lparr>ck_version = TASK_CHECKPOINT_VERSION, ck_root = en_root en, ck_next_task = tw_next_task w,
      ck_tasks = checkpoint_records [] (tw_tasks w)\<rparr>"

text \<open>One saved record: its identifier, texts and bounds, and the largest number seen so far.\<close>

definition load_record :: "task_record \<Rightarrow> task_table \<times> nat \<Rightarrow> (development_error, task_table \<times> nat) result" where
  "load_record r acc =
     (let sn = tr_snapshot r in
      if \<not> task_id_ok (sn_id sn) then Err (InvalidInput ''invalid task id'')
      else res_bind (validate_texts [(''task title'', sn_title sn), (''task goal'', sn_goal sn), (''task prompt'', sn_prompt sn), (''task role'', sn_role sn)]) (\<lambda>_.
      if length (sn_dependencies sn) > MAX_DEPENDENCIES \<or> length (sn_evidence sn) > MAX_TASK_EVIDENCE
      then Err (InvalidInput ''task checkpoint record exceeds supported bounds'')
      else case number_of_task (sn_id sn) of
        None \<Rightarrow> Err (InvalidInput ''invalid task checkpoint id'')
      | Some n \<Rightarrow>
          if bt_contains (fst acc) (sn_id sn) then Err (InvalidInput ''duplicate task id in checkpoint'')
          else Ok (bt_insert (sn_id sn) r (fst acc), max (snd acc) n)))"

definition load_records :: "task_record list \<Rightarrow> (development_error, task_table \<times> nat) result" where
  "load_records rs = fold (\<lambda>r acc. res_bind acc (load_record r)) rs (Ok ([], 0))"

definition check_loaded :: "task_table \<Rightarrow> task_snapshot \<Rightarrow> (development_error, unit) result" where
  "check_loaded tasks sn =
     (if \<not> list_all (bt_contains tasks) (sn_dependencies sn) then Err (InvalidInput ''task checkpoint has a missing dependency'')
      else case sn_assigned_agent sn of
        None \<Rightarrow> Ok ()
      | Some a \<Rightarrow> if agent_id_ok a then Ok () else Err (InvalidInput ''invalid agent id''))"

definition check_all :: "(task_snapshot \<Rightarrow> (development_error, unit) result) \<Rightarrow> task_table \<Rightarrow> (development_error, unit) result" where
  "check_all f tasks = fold (\<lambda>kv acc. res_bind acc (\<lambda>_. f (tr_snapshot (snd kv)))) tasks (Ok ())"

definition load_task_checkpoint :: "string \<Rightarrow> task_checkpoint \<Rightarrow> (development_error, task_table \<times> nat) result" where
  "load_task_checkpoint root ck =
     (if ck_version ck \<noteq> 1 \<and> ck_version ck \<noteq> TASK_CHECKPOINT_VERSION
      then Err (InvalidInput (''unsupported task checkpoint version '' @ show_nat (ck_version ck)))
      else if ck_root ck \<noteq> root then Err (InvalidInput ''task checkpoint belongs to a different project root'')
      else if ck_next_task ck = 0 \<or> length (ck_tasks ck) > MAX_TASKS then Err (InvalidInput ''task checkpoint exceeds supported bounds'')
      else res_bind (load_records (ck_tasks ck)) (\<lambda>(tasks, maximum_id).
      if ck_next_task ck \<le> maximum_id then Err (InvalidInput ''task checkpoint next id is not beyond saved task ids'')
      else res_bind (check_all (check_loaded tasks) tasks) (\<lambda>_. Ok (tasks, ck_next_task ck))))"

section \<open>Recovery\<close>

definition open_tasks :: "'b task_env \<Rightarrow> task_table \<Rightarrow> (development_error, task_table) result" where
  "open_tasks en tasks =
     res_bind (check_all (validate_snapshot en tasks) tasks) (\<lambda>_.
     Ok (bt_map (\<lambda>r. r\<lparr>tr_snapshot := recover en (tr_snapshot r)\<rparr>) tasks))"

text \<open>The writes of the recovered table: as it is, then without the explanations, then with ever less
  evidence, until one fits. Every error but one of size ends it.\<close>

fun contains_text :: "string \<Rightarrow> string \<Rightarrow> bool" where
  "contains_text p [] = (p = [])"
| "contains_text p (c # cs) \<longleftrightarrow> take (length p) (c # cs) = p \<or> contains_text p cs"

fun over_size :: "development_error \<Rightarrow> bool" where
  "over_size (Conflict m) = contains_text ''task checkpoint exceeds'' m"
| "over_size _ = False"

definition try_persist :: "'b task_env \<Rightarrow> ('b, bool) task_op" where
  "try_persist en w =
     (case persist_tasks en w of
        (Inr _, w') \<Rightarrow> (Ok True, w')
      | (Inl e, w') \<Rightarrow> if over_size e then (Ok False, w') else (Err e, w'))"

definition drop_error :: "task_record \<Rightarrow> task_record" where
  "drop_error r = r\<lparr>tr_snapshot := (tr_snapshot r)\<lparr>sn_last_error := None\<rparr>\<rparr>"

definition evidence_sum :: "task_table \<Rightarrow> nat" where
  "evidence_sum tasks = (\<Sum>u \<in> set (map fst tasks). length (effective_evidence [] tasks u))"

definition reclaim_step :: "'b task_env \<Rightarrow> task_id \<Rightarrow> nat \<Rightarrow> ('b, bool) task_op" where
  "reclaim_step en t i =
     andthen (update_record t (\<lambda>r. r\<lparr>tr_snapshot := prune_evidence i (tr_snapshot r)\<rparr>)) (\<lambda>_. try_persist en)"

lemma try_persist_tasks: "tw_tasks (snd (try_persist en w)) = tw_tasks w"
proof -
  have "\<exists>out. snd (persist_tasks en w) = w\<lparr>tw_out := out\<rparr>"
    by (auto simp: persist_tasks_def andthen_def get_world_def lift_res_def call_out_def split: sum.split prod.split intro: exI [of _ "tw_out w"])
  then show ?thesis by (auto simp: try_persist_def split: prod.split sum.split)
qed

lemma reclaim_decreases:
  assumes "oldest_duplicate_evidence [] (tw_tasks w) = Some (t, i)" "reclaim_step en t i w = (Ok b, w')"
  shows "evidence_sum (tw_tasks w') < evidence_sum (tw_tasks w)"
proof -
  let ?T = "tw_tasks w"
  have t: "t \<in> set (map fst ?T)" "i < length (effective_evidence [] ?T t)"
    using oldest_in_candidates [OF assms(1)] candidate_facts by blast+
  obtain r where r: "bt_get ?T t = Some r" using t(1) by (cases "bt_get ?T t") (auto simp: bt_get_def map_of_eq_None_iff)
  let ?T' = "bt_insert t (r\<lparr>tr_snapshot := prune_evidence i (tr_snapshot r)\<rparr>) ?T"
  have T': "tw_tasks w' = ?T'"
    using assms(2) r try_persist_tasks [of en "w\<lparr>tw_tasks := ?T'\<rparr>"] by (simp add: reclaim_step_def andthen_def update_record_cases)
  have k: "set (map fst ?T') = set (map fst ?T)" using fst_set_bt_insert [of t _ ?T] t(1) by auto
  have "(\<Sum>u \<in> set (map fst ?T). length (effective_evidence [] ?T' u)) < (\<Sum>u \<in> set (map fst ?T). length (effective_evidence [] ?T u))"
  proof (rule sum_strict_mono_ex1)
    show "\<forall>u \<in> set (map fst ?T). length (effective_evidence [] ?T' u) \<le> length (effective_evidence [] ?T u)"
      using r t(2) by (auto simp: effective_evidence_def prune_evidence_def length_remove_nth)
    show "\<exists>u \<in> set (map fst ?T). length (effective_evidence [] ?T' u) < length (effective_evidence [] ?T u)"
      using r t by (intro bexI [of _ t]) (auto simp: effective_evidence_def prune_evidence_def length_remove_nth)
  qed simp
  then show ?thesis by (simp only: evidence_sum_def T' k)
qed

function reclaim_evidence :: "'b task_env \<Rightarrow> ('b, unit) task_op" where
  "reclaim_evidence en w =
     (case oldest_duplicate_evidence [] (tw_tasks w) of
        None \<Rightarrow> persist_tasks en w
      | Some (t, i) \<Rightarrow>
          (case reclaim_step en t i w of
             (Inl e, w') \<Rightarrow> (Err e, w')
           | (Inr written, w') \<Rightarrow> if written then (Ok (), w') else reclaim_evidence en w'))"
  by auto
termination
  by (relation "measure (\<lambda>(en, w). evidence_sum (tw_tasks w))") (auto intro: reclaim_decreases [OF _ sym])

declare reclaim_evidence.simps [simp del]

definition persist_recovery_checkpoint :: "'b task_env \<Rightarrow> task_id list \<Rightarrow> ('b, unit) task_op" where
  "persist_recovery_checkpoint en ids =
     andthen (try_persist en) (\<lambda>written.
     if written then ret ()
     else andthen (each (\<lambda>i. update_record i drop_error) ids) (\<lambda>_.
          andthen (try_persist en) (\<lambda>written.
          if written then ret () else reclaim_evidence en)))"

definition recovered_ids :: "task_table \<Rightarrow> task_id list" where
  "recovered_ids tasks =
     map (\<lambda>kv. sn_id (tr_snapshot (snd kv)))
       (filter (\<lambda>kv. active_state (sn_state (tr_snapshot (snd kv))) \<and> sn_assigned_agent (tr_snapshot (snd kv)) \<noteq> None) tasks)"

text \<open>Starting on a decoded checkpoint.\<close>

definition start_scheduler :: "'b task_env \<Rightarrow> task_checkpoint \<Rightarrow> 'b \<Rightarrow> (development_error, 'b task_world) result \<times> 'b" where
  "start_scheduler en ck out =
     (case load_task_checkpoint (en_root en) ck of
        Inl e \<Rightarrow> (Err e, out)
      | Inr (tasks, next) \<Rightarrow>
          (case open_tasks en tasks of
             Inl e \<Rightarrow> (Err e, out)
           | Inr opened \<Rightarrow>
               let w = \<lparr>tw_tasks = opened, tw_next_task = next, tw_agent_event_cursor = 0, tw_out = out\<rparr> in
               if recovered_ids tasks = [] then (Ok w, out)
               else (case persist_recovery_checkpoint en (recovered_ids tasks) w of
                       (Inl e, w') \<Rightarrow> (Err e, tw_out w')
                     | (Inr _, w') \<Rightarrow> (Ok w', tw_out w'))))"

end
