(* ===== verification/Task_Invariant.thy ===== *)
theory Task_Invariant
  imports Task_Open
begin

text \<open>
  Every operation of the task scheduler keeps its table in a state that the checks of the next start
  accept, whatever the agents answer and whichever writes fail.
\<close>

section \<open>Valid snapshots\<close>

definition evidence_ok :: "task_evidence \<Rightarrow> bool" where
  "evidence_ok e \<longleftrightarrow> text_ok MAX_TASK_TEXT_BYTES (ev_kind e) \<and> text_ok MAX_TASK_TEXT_BYTES (ev_actor e) \<and> text_ok MAX_TASK_TEXT_BYTES (ev_source e)"

text \<open>What a task says about its agent: who works on it in which state.\<close>

definition agent_consistent :: "task_snapshot \<Rightarrow> bool" where
  "agent_consistent sn \<longleftrightarrow>
     pred_option agent_id_ok (sn_assigned_agent sn) \<and>
     (sn_recovery_pending sn \<longrightarrow> sn_state sn = Paused \<and> sn_assigned_agent sn \<noteq> None) \<and>
     (active_state (sn_state sn) \<longrightarrow> sn_assigned_agent sn \<noteq> None) \<and>
     (sn_state sn = Queued \<or> sn_state sn = Blocked \<longrightarrow> sn_assigned_agent sn = None) \<and>
     (sn_state sn = Paused \<and> \<not> sn_recovery_pending sn \<longrightarrow> sn_assigned_agent sn = None)"

definition texts_ok :: "task_snapshot \<Rightarrow> bool" where
  "texts_ok sn \<longleftrightarrow>
     list_all (text_ok MAX_TASK_TEXT_BYTES) [sn_title sn, sn_goal sn, sn_prompt sn, sn_role sn] \<and>
     pred_option (text_ok MAX_TASK_TEXT_BYTES) (sn_model sn) \<and> pred_option (text_ok MAX_TASK_TEXT_BYTES) (sn_thinking sn) \<and>
     pred_option (\<lambda>v. \<not> too_long v) (sn_last_error sn)"

definition snapshot_ok :: "task_id set \<Rightarrow> task_id \<Rightarrow> task_snapshot \<Rightarrow> bool" where
  "snapshot_ok D i sn \<longleftrightarrow>
     sn_id sn = i \<and> \<not> reserved_id i \<and> distinct (sn_dependencies sn) \<and> i \<notin> set (sn_dependencies sn) \<and>
     set (sn_dependencies sn) \<subseteq> D \<and> length (sn_dependencies sn) \<le> MAX_DEPENDENCIES \<and>
     agent_consistent sn \<and> sn_verification sn \<noteq> Inferred \<and> validate_verification 0 (sn_verification sn) = Ok () \<and>
     max_runtime_seconds (sn_budget sn) \<noteq> 0 \<and> max_events (sn_budget sn) \<noteq> 0 \<and>
     texts_ok sn \<and> list_all evidence_ok (sn_evidence sn) \<and> length (sn_evidence sn) \<le> MAX_TASK_EVIDENCE"

text \<open>A table whose snapshots all satisfy a predicate.\<close>

definition table_sat :: "task_id set \<Rightarrow> (task_id \<Rightarrow> task_snapshot \<Rightarrow> bool) \<Rightarrow> task_table \<Rightarrow> bool" where
  "table_sat D S T \<longleftrightarrow> bt_wf T \<and> set (map fst T) = D \<and> (\<forall>u r. bt_get T u = Some r \<longrightarrow> S u (tr_snapshot r))"

lemma table_satD: "table_sat D S T \<Longrightarrow> bt_get T u = Some r \<Longrightarrow> S u (tr_snapshot r)"
  by (simp add: table_sat_def)

lemma snapshot_ok_mono: "snapshot_ok D i sn \<Longrightarrow> D \<subseteq> D' \<Longrightarrow> snapshot_ok D' i sn"
  by (auto simp: snapshot_ok_def)

section \<open>Trimming keeps snapshots valid\<close>

lemma evidence_ok_details: "evidence_ok (e\<lparr>ev_details := d\<rparr>) = evidence_ok e"
  by (simp add: evidence_ok_def)

lemma less_evidence_ok: "less_evidence evs evs' \<Longrightarrow> list_all evidence_ok evs' \<Longrightarrow> list_all evidence_ok evs"
  unfolding less_evidence_def list_all_iff by (metis evidence_ok_details)

lemma plain_not_NUL: "plain_char c \<Longrightarrow> c \<noteq> CHR 0x00"
  by (auto simp: plain_char_def)

lemma bounded_error_ok: "\<not> too_long (bounded_task_error v)" "bounded_task_error v \<noteq> []"
proof -
  let ?r = "map (\<lambda>c. if plain_char c then c else CHR ''?'') (take 157 (filter first_byte v))"
  have l: "length ?r \<le> 157" "CHR 0x00 \<notin> set ?r" using plain_not_NUL by auto
  have "bounded_task_error v = ?r \<or> bounded_task_error v = ?r @ ''...'' \<or> bounded_task_error v = ''agent failed''"
    by (simp add: bounded_task_error_def Let_def MAX_PERSISTED_TASK_ERROR_BYTES_def)
  then show "\<not> too_long (bounded_task_error v)" using l by (auto simp: too_long_def MAX_TASK_TEXT_BYTES_def)
  show "bounded_task_error v \<noteq> []" by (simp add: bounded_task_error_def Let_def)
qed

lemma snapshot_ok_trimmed:
  assumes "trimmed x sn" "snapshot_ok D i sn"
  shows "snapshot_ok D i x"
proof -
  have c: "core x = core sn" and e: "less_evidence (sn_evidence x) (sn_evidence sn)" using assms(1) by (simp_all add: trimmed_def)
  have "list_all evidence_ok (sn_evidence x)" "length (sn_evidence x) \<le> MAX_TASK_EVIDENCE"
    using less_evidence_ok [OF e] e assms(2) by (auto simp: snapshot_ok_def less_evidence_def)
  moreover have "pred_option (\<lambda>v. \<not> too_long v) (sn_last_error x)"
    using assms bounded_error_ok(1) by (auto simp: trimmed_def snapshot_ok_def texts_ok_def)
  moreover have "agent_consistent x = agent_consistent sn" by (simp add: agent_consistent_def core_eq [OF c])
  ultimately show ?thesis using assms(2) by (simp add: snapshot_ok_def texts_ok_def core_eq [OF c])
qed

section \<open>Where operations lead\<close>

definition leads :: "('b task_world \<Rightarrow> bool) \<Rightarrow> ('b, 'a) task_op \<Rightarrow> ('b task_world \<Rightarrow> bool) \<Rightarrow> bool" where
  "leads P m Q \<longleftrightarrow> (\<forall>w. P w \<longrightarrow> Q (snd (m w)))"

lemma leadsD: "leads P m Q \<Longrightarrow> P w \<Longrightarrow> Q (snd (m w))"
  by (simp add: leads_def)

lemma leads_andthen:
  fixes m :: "('b, 'a) task_op"
  assumes "leads P m R" "\<And>w. R w \<Longrightarrow> Q w" "\<And>x. leads R (f x) Q"
  shows "leads P (andthen m f) Q"
  unfolding leads_def
proof (intro allI impI)
  fix w :: "'b task_world"
  assume "P w"
  then have R: "R (snd (m w))" using assms(1) by (simp add: leads_def)
  then show "Q (snd (andthen m f w))"
    using assms(2) [OF R] leadsD [OF assms(3) R] by (cases "m w"; cases "fst (m w)") (auto simp: andthen_def)
qed

lemma leads_weaken: "leads P m Q \<Longrightarrow> (\<And>w. P' w \<Longrightarrow> P w) \<Longrightarrow> leads P' m Q"
  by (simp add: leads_def)

text \<open>
  A task under work: the table is valid, and the states of the other tasks are those they had. While
  the record that was read is still in place more is known.
\<close>

definition base :: "task_id set \<Rightarrow> (task_id \<Rightarrow> task_snapshot \<Rightarrow> bool) \<Rightarrow> (task_id \<Rightarrow> task_state option) \<Rightarrow> task_id \<Rightarrow> 'b task_world \<Rightarrow> bool" where
  "base D S \<sigma> x w \<longleftrightarrow> table_sat D S (tw_tasks w) \<and> (\<forall>u. u \<noteq> x \<longrightarrow> state_of (tw_tasks w) u = \<sigma> u)"

definition holding :: "task_id set \<Rightarrow> (task_id \<Rightarrow> task_snapshot \<Rightarrow> bool) \<Rightarrow> (task_id \<Rightarrow> task_state option) \<Rightarrow> task_id \<Rightarrow> task_record \<Rightarrow> 'b task_world \<Rightarrow> bool" where
  "holding D S \<sigma> x r w \<longleftrightarrow> base D S \<sigma> x w \<and> bt_get (tw_tasks w) x = Some r"

lemma holding_base: "holding D S \<sigma> x r w \<Longrightarrow> base D S \<sigma> x w"
  by (simp add: holding_def)

lemma outside_leads:
  assumes "outside m" "\<And>w out. P w \<Longrightarrow> P (w\<lparr>tw_out := out\<rparr>)"
  shows "leads P m P"
  unfolding leads_def using assms by (metis outside_def)

lemma base_out: "base D S \<sigma> x w \<Longrightarrow> base D S \<sigma> x (w\<lparr>tw_out := out\<rparr>)" "holding D S \<sigma> x r w \<Longrightarrow> holding D S \<sigma> x r (w\<lparr>tw_out := out\<rparr>)"
  by (simp_all add: base_def holding_def)

lemma outside_base: "outside m \<Longrightarrow> leads (base D S \<sigma> x) m (base D S \<sigma> x)"
  by (erule outside_leads) (rule base_out)

lemma outside_holding: "outside m \<Longrightarrow> leads (holding D S \<sigma> x r) m (holding D S \<sigma> x r)"
  by (erule outside_leads) (rule base_out)

lemma leads_read:
  fixes f :: "task_record \<Rightarrow> ('b, 'c) task_op"
  assumes "\<And>r. S x (tr_snapshot r) \<Longrightarrow> Z r \<Longrightarrow> leads (holding D S \<sigma> x r) (f r) (base D S \<sigma> x)"
  shows "leads (\<lambda>w. base D S \<sigma> x w \<and> (\<forall>r. bt_get (tw_tasks w) x = Some r \<longrightarrow> Z r)) (andthen (the_record x) f) (base D S \<sigma> x)"
  unfolding leads_def
proof (intro allI impI)
  fix w :: "'b task_world"
  assume w: "base D S \<sigma> x w \<and> (\<forall>r. bt_get (tw_tasks w) x = Some r \<longrightarrow> Z r)"
  show "base D S \<sigma> x (snd (andthen (the_record x) f w))"
  proof (cases "bt_get (tw_tasks w) x")
    case None
    then show ?thesis using w by (simp add: andthen_def the_record_def)
  next
    case (Some r)
    then have "S x (tr_snapshot r)" using w table_satD unfolding base_def by blast
    then have "base D S \<sigma> x (snd (f r w))" using leadsD [OF assms, of r w] w Some by (simp add: holding_def)
    then show ?thesis using Some by (simp add: andthen_def the_record_def)
  qed
qed

lemma table_sat_insert:
  assumes "table_sat D S T" "x \<in> D" "S x (tr_snapshot r)"
  shows "table_sat D S (bt_insert x r T)"
  using assms fst_set_bt_insert [of x r T] by (auto simp: table_sat_def bt_wf_insert)

lemma in_dom_iff: "u \<in> set (map fst T) \<longleftrightarrow> bt_get T u \<noteq> None"
  by (simp add: bt_get_def map_of_eq_None_iff)

lemma get_in_dom: "bt_get T x = Some r \<Longrightarrow> x \<in> set (map fst T)"
  by (simp only: in_dom_iff) simp

lemma update_leads:
  assumes "S x (tr_snapshot (f r))"
  shows "leads (holding D S \<sigma> x r) (update_record x f :: ('b, unit) task_op) (base D S \<sigma> x)"
  unfolding leads_def
proof (intro allI impI)
  fix w :: "'b task_world"
  assume w: "holding D S \<sigma> x r w"
  then have r: "bt_get (tw_tasks w) x = Some r" "table_sat D S (tw_tasks w)" by (simp_all add: holding_def base_def)
  then have "x \<in> D" using get_in_dom by (auto simp: table_sat_def)
  then have "table_sat D S (bt_insert x (f r) (tw_tasks w))" by (rule table_sat_insert [OF r(2) _ assms])
  moreover have "state_of (bt_insert x (f r) (tw_tasks w)) u = state_of (tw_tasks w) u" if "u \<noteq> x" for u
    using that by (simp add: state_of_def)
  ultimately show "base D S \<sigma> x (snd (update_record x f w))"
    using w r(1) by (simp add: update_record_cases base_def holding_def)
qed

lemma update_base:
  assumes "\<And>r. tr_snapshot (f r) = tr_snapshot r"
  shows "leads (base D S \<sigma> x) (update_record x f :: ('b, unit) task_op) (base D S \<sigma> x)"
  unfolding leads_def
proof (intro allI impI)
  fix w :: "'b task_world"
  assume w: "base D S \<sigma> x w"
  show "base D S \<sigma> x (snd (update_record x f w))"
  proof (cases "bt_get (tw_tasks w) x")
    case None
    then show ?thesis using w by (simp add: update_record_cases)
  next
    case (Some r)
    then have "holding D S \<sigma> x r w" "S x (tr_snapshot (f r))"
      using w table_satD assms by (auto simp: holding_def base_def)
    then show ?thesis using leadsD [OF update_leads] by blast
  qed
qed

section \<open>Predicates that survive making room\<close>

text \<open>
  Making room in the checkpoint may trim the snapshot of any task. A predicate that survives this
  survives every commit of a snapshot that satisfies it.
\<close>

locale trimmable =
  fixes S :: "task_id \<Rightarrow> task_snapshot \<Rightarrow> bool"
  assumes trim: "\<And>i x sn. trimmed x sn \<Longrightarrow> S i sn \<Longrightarrow> S i x"
begin

lemma replaced_table_sat:
  assumes "replaced i sn T T'" "table_sat D S T" "S i sn" "bt_wf T'"
  shows "table_sat D S T'"
proof -
  have dom: "set (map fst T') = set (map fst T)"
  proof -
    have "u \<in> set (map fst T') \<longleftrightarrow> u \<in> set (map fst T)" for u
      unfolding in_dom_iff using replacedD [OF assms(1), of u] by (cases "bt_get T u") auto
    then show ?thesis by blast
  qed
  have "S u (tr_snapshot r')" if "bt_get T' u = Some r'" for u r'
  proof (cases "bt_get T u")
    case None
    then show ?thesis using that replacedD(1) [OF assms(1) None] by simp
  next
    case (Some r)
    obtain x where x: "bt_get T' u = Some (set_snapshot x r)" "trimmed x (if u = i then sn else tr_snapshot r)"
      using replacedD(2) [OF assms(1) Some] by blast
    have "S u (if u = i then sn else tr_snapshot r)" using assms(3) table_satD [OF assms(2) Some] by simp
    then show ?thesis using trim [OF x(2)] x(1) that by (simp add: set_snapshot_def)
  qed
  then show ?thesis using assms(2,4) dom by (simp add: table_sat_def)
qed

lemma commit_leads:
  fixes act :: "('b, unit) task_op"
  assumes "S x sn" "outside act"
  shows "leads (holding D S \<sigma> x r) (commit_snapshot en x sn incoming act) (base D S \<sigma> x)"
  unfolding leads_def
proof (intro allI impI)
  fix w :: "'b task_world"
  assume w: "holding D S \<sigma> x r w"
  obtain res w' where c: "commit_snapshot en x sn incoming act w = (res, w')" by fastforce
  have x: "bt_get (tw_tasks w) x \<noteq> None" and t: "table_sat D S (tw_tasks w)" using w by (simp_all add: holding_def base_def)
  note e = commit_effect [OF assms(2) x c]
  show "base D S \<sigma> x (snd (commit_snapshot en x sn incoming act w))"
  proof (cases "is_ok res")
    case True
    then have "replaced x sn (tw_tasks w) (tw_tasks w')" "bt_wf (tw_tasks w')" using e t by (simp_all add: table_sat_def)
    then show ?thesis
      using replaced_table_sat [OF _ t assms(1)] replaced_state [OF _ x] w c by (simp add: base_def holding_def)
  next
    case False
    then show ?thesis using e c w by (simp add: base_def holding_def)
  qed
qed

end

end
