(* ===== verification/Task_Keeps.thy ===== *)
theory Task_Keeps
  imports Task_Invariant
begin

text \<open>Each operation of the scheduler, checked against the invariant of the task table.\<close>

section \<open>Actions outside the table\<close>

lemma self_out: "\<exists>out. w = w\<lparr>tw_out := out\<rparr>"
  by (rule exI [of _ "tw_out w"]) simp

lemma outside_pure: "outside (ret x)" "outside (fail e)" "outside (lift_res r)" "outside get_world" "outside (the_record i)"
    "outside (ensure_snapshot_checkpoint_fits en i sn)" "outside (ensure_schedule_checkpoint_fits en i sn)"
  by (simp_all add: outside_def self_out ret_def fail_def lift_res_def get_world_def the_record_def
      ensure_snapshot_checkpoint_fits_def ensure_schedule_checkpoint_fits_def)

lemma outside_persist: "outside (persist_tasks en)"
  unfolding persist_tasks_def by (intro outside_andthen outside_pure outside_basic)

lemma outside_option: "outside m \<Longrightarrow> (\<And>y. outside (f y)) \<Longrightarrow> outside (case x of None \<Rightarrow> m | Some y \<Rightarrow> f y)"
  by (cases x) auto

lemma outside_if: "outside m \<Longrightarrow> outside m' \<Longrightarrow> outside (if c then m else m')"
  by simp

lemma outside_cancel: "outside (cancel_assigned en a)"
  unfolding cancel_assigned_def cancel_task_agent_if_live_def
  by (intro outside_option outside_andthen outside_pure outside_basic outside_if)

lemma outside_architect: "outside (architect_session_file en sn)"
  by (auto simp: outside_def self_out architect_session_file_def call_out_def split: option.split prod.split sum.split)

lemmas outside_ops = outside_pure outside_basic(2) outside_persist outside_cancel outside_architect

section \<open>Chains of steps\<close>

lemma hold_then: "outside m \<Longrightarrow> (\<And>y. leads (holding D S \<sigma> x r) (f y) (base D S \<sigma> x)) \<Longrightarrow> leads (holding D S \<sigma> x r) (andthen m f) (base D S \<sigma> x)"
  by (rule leads_andthen [OF outside_holding]) (auto intro: holding_base)

lemma hold_last: "outside m \<Longrightarrow> leads (holding D S \<sigma> x r) m (base D S \<sigma> x)"
  by (auto simp: leads_def dest!: leadsD [OF outside_holding] intro: holding_base)

lemma base_then: "leads (base D S \<sigma> x) m (base D S \<sigma> x) \<Longrightarrow> (\<And>y. leads (base D S \<sigma> x) (f y) (base D S \<sigma> x)) \<Longrightarrow> leads (base D S \<sigma> x) (andthen m f) (base D S \<sigma> x)"
  by (rule leads_andthen)

lemma update_then:
  "S x (tr_snapshot (g r)) \<Longrightarrow> (\<And>y. leads (base D S \<sigma> x) (f y) (base D S \<sigma> x)) \<Longrightarrow>
   leads (holding D S \<sigma> x r) (andthen (update_record x g) f) (base D S \<sigma> x)"
  by (rule leads_andthen [OF update_leads])

lemma hold_call:
  assumes "\<And>out y out'. g out = (Ok y, out') \<Longrightarrow> leads (holding D S \<sigma> x r) (f y) (base D S \<sigma> x)"
  shows "leads (holding D S \<sigma> x r) (andthen (call_out g) f :: ('b, 'c) task_op) (base D S \<sigma> x)"
  unfolding leads_def
proof (intro allI impI)
  fix w :: "'b task_world"
  assume w: "holding D S \<sigma> x r w"
  obtain res out where g: "g (tw_out w) = (res, out)" by fastforce
  have w': "holding D S \<sigma> x r (w\<lparr>tw_out := out\<rparr>)" using w by (rule base_out(2))
  show "base D S \<sigma> x (snd (andthen (call_out g) f w))"
  proof (cases res)
    case (Inl e)
    then show ?thesis using g holding_base [OF w'] by (simp add: andthen_def call_out_def)
  next
    case (Inr y)
    then show ?thesis using g leadsD [OF assms w'] by (simp add: andthen_def call_out_def)
  qed
qed

lemma hold_lift:
  assumes "\<And>y. v = Ok y \<Longrightarrow> leads (holding D S \<sigma> x r) (f y) (base D S \<sigma> x)"
  shows "leads (holding D S \<sigma> x r) (andthen (lift_res v) f) (base D S \<sigma> x)"
  using assms by (cases v) (auto simp: leads_def andthen_def lift_res_def intro: holding_base)

lemma read_then:
  assumes "\<And>r. S x (tr_snapshot r) \<Longrightarrow> leads (holding D S \<sigma> x r) (f r) (base D S \<sigma> x)"
  shows "leads (base D S \<sigma> x) (andthen (the_record x) f) (base D S \<sigma> x)"
  using leads_read [of S x "\<lambda>_. True" D \<sigma> f] assms by (simp add: leads_def)

lemma hold_if:
  "(c \<Longrightarrow> leads P m Q) \<Longrightarrow> (\<not> c \<Longrightarrow> leads P m' Q) \<Longrightarrow> leads P (if c then m else m') Q"
  by simp

section \<open>Single tasks\<close>

text \<open>What the agents may answer: identifiers of agents are well formed, and the kinds of their
  events are texts that the checks on evidence accept.\<close>

definition event_ok :: "agent_event \<Rightarrow> bool" where
  "event_ok ev \<longleftrightarrow> agent_id_ok (ae_agent_id ev) \<and> text_ok MAX_TASK_TEXT_BYTES (''agent.'' @ ae_kind ev)"

definition backend_ok :: "'b task_env \<Rightarrow> bool" where
  "backend_ok en \<longleftrightarrow>
     (\<forall>spec out a out'. en_create_agent en spec out = (Ok a, out') \<longrightarrow> agent_id_ok a) \<and>
     (\<forall>n out evs out'. en_agent_events en n out = (Ok evs, out') \<longrightarrow> list_all event_ok evs)"

text \<open>A task whose state is known, in a table that is valid.\<close>

definition at_state :: "(task_state \<Rightarrow> bool) \<Rightarrow> task_id set \<Rightarrow> (task_id \<Rightarrow> task_snapshot \<Rightarrow> bool) \<Rightarrow> (task_id \<Rightarrow> task_state option) \<Rightarrow> task_id \<Rightarrow> 'b task_world \<Rightarrow> bool" where
  "at_state Z D S \<sigma> x w \<longleftrightarrow> base D S \<sigma> x w \<and> (\<forall>r. bt_get (tw_tasks w) x = Some r \<longrightarrow> Z (sn_state (tr_snapshot r)))"

lemma at_state_read:
  assumes "\<And>r. S x (tr_snapshot r) \<Longrightarrow> Z (sn_state (tr_snapshot r)) \<Longrightarrow> leads (holding D S \<sigma> x r) (f r) (base D S \<sigma> x)"
  shows "leads (at_state Z D S \<sigma> x) (andthen (the_record x) f) (base D S \<sigma> x)"
  using leads_read [where Z = "\<lambda>r. Z (sn_state (tr_snapshot r))" and f = f] assms by (simp add: at_state_def [abs_def])

lemma agent_text_ok: "agent_id_ok a \<Longrightarrow> text_ok MAX_TASK_TEXT_BYTES a"
proof -
  assume a: "agent_id_ok a"
  have "\<not> has_control s \<Longrightarrow> CHR 0x00 \<notin> set s" for s
    by (induction s) (auto simp: ascii_control_def)
  then show ?thesis using a by (auto simp: agent_id_ok_def identifier_ok_def text_ok_def MAX_TASK_TEXT_BYTES_def)
qed

lemma event_evidence_ok:
  "event_ok ev \<Longrightarrow> evidence_ok (event_evidence en ev (''agent.'' @ ae_kind ev) p n)"
  "event_ok ev \<Longrightarrow> evidence_ok (event_evidence en ev ''agent.settled'' p n)"
  using agent_text_ok by (auto simp: event_ok_def evidence_ok_def event_evidence_def text_ok_def MAX_TASK_TEXT_BYTES_def)

text \<open>Evidence of a verification is what its commands left.\<close>

fun outcome_evidence :: "verification_outcome \<Rightarrow> task_evidence list" where
  "outcome_evidence (Passed evs) = evs"
| "outcome_evidence StillWaiting = []"
| "outcome_evidence (FailedWith error evs) = evs"

lemma verify_evidence_ok:
  assumes "\<And>c e t o1. run c e t = Ok o1 \<Longrightarrow> list_all evidence_ok (outcome_evidence o1)"
  shows "verify run evs req = Ok o1 \<Longrightarrow> list_all evidence_ok (outcome_evidence o1)"
    and "list_all evidence_ok acc \<Longrightarrow> verify_all run evs rs acc = Ok o1 \<Longrightarrow> list_all evidence_ok (outcome_evidence o1)"
  using assms
proof (induction run evs req and run evs rs acc arbitrary: o1 and o1 rule: verify_verify_all.induct)
  case (7 run evs r rs acc)
  then show ?case by (auto split: sum.splits verification_outcome.splits)
qed (auto split: option.splits if_splits)

lemma command_evidence_ok: "verify_command en d c e t = Ok o1 \<Longrightarrow> list_all evidence_ok (outcome_evidence o1)"
proof -
  have ok: "evidence_ok (command_evidence en p d)" for p d
    by (simp add: command_evidence_def evidence_ok_def text_ok_def MAX_TASK_TEXT_BYTES_def)
  assume "verify_command en d c e t = Ok o1"
  then obtain r where "verify_command en d c e t = Ok o1" "en_run_command en d c t = Ok r"
    by (auto simp: verify_command_def res_bind_Inr_iff)
  then show ?thesis by (cases r) (auto simp: verify_command_def Let_def ok)
qed

section \<open>The whole table\<close>

definition tab :: "task_id set \<Rightarrow> (task_id \<Rightarrow> task_snapshot \<Rightarrow> bool) \<Rightarrow> 'b task_world \<Rightarrow> bool" where
  "tab D S w \<longleftrightarrow> table_sat D S (tw_tasks w)"

lemma tab_base: "tab D S w \<Longrightarrow> base D S (state_of (tw_tasks w)) x w"
  by (simp add: tab_def base_def)

lemma base_tab: "base D S \<sigma> x w \<Longrightarrow> tab D S w"
  by (simp add: tab_def base_def)

lemma tab_outside: "outside m \<Longrightarrow> keeps (tab D S) m"
  unfolding keeps_def using outside_leads [of m "tab D S"] by (auto simp: tab_def leads_def)

lemma tab_get: "(\<And>w. tab D S w \<Longrightarrow> tab D S (snd (f w w))) \<Longrightarrow> keeps (tab D S) (andthen get_world f)"
  by (simp add: keeps_def andthen_def get_world_def)

lemma tab_leads: "(\<And>\<sigma>. leads (base D S \<sigma> x) m (base D S \<sigma> x)) \<Longrightarrow> keeps (tab D S) m"
  by (auto simp: keeps_def leads_def intro: base_tab dest: tab_base [of D S _ x])

text \<open>A pass over tasks that were in the right state when it began: no step disturbs those to come.\<close>

lemma each_tab:
  assumes step: "\<And>x \<sigma>. leads (at_state Z D S \<sigma> x) (f x) (base D S \<sigma> x)"
  shows "distinct xs \<Longrightarrow> tab D S w \<Longrightarrow> (\<And>x s. x \<in> set xs \<Longrightarrow> state_of (tw_tasks w) x = Some s \<Longrightarrow> Z s) \<Longrightarrow> tab D S (snd (each f xs w))"
proof (induction xs arbitrary: w)
  case (Cons x xs)
  obtain res w1 where f: "f x w = (res, w1)" by fastforce
  let ?\<sigma> = "state_of (tw_tasks w)"
  have "at_state Z D S ?\<sigma> x w" using tab_base [OF Cons.prems(2)] Cons.prems(3) [of x] by (auto simp: at_state_def state_of_def)
  from leadsD [OF step this] have b: "base D S ?\<sigma> x w1" by (simp add: f)
  then have "state_of (tw_tasks w1) y = ?\<sigma> y" if "y \<in> set xs" for y using that Cons.prems(1) by (auto simp: base_def)
  then have "tab D S (snd (each f xs w1))"
    using Cons.IH [of w1] Cons.prems(1,3) base_tab [OF b] by fastforce
  then show ?case using f base_tab [OF b] by (cases res) (simp_all add: andthen_def)
qed (simp add: ret_def)

lemma each_filter_tab:
  assumes "\<And>x \<sigma>. leads (at_state Z D S \<sigma> x) (f x) (base D S \<sigma> x)" "tab D S w" "\<And>r. P r \<Longrightarrow> Z (sn_state (tr_snapshot r))"
  shows "tab D S (snd (each f (map fst (filter (\<lambda>(_, r). P r) (tw_tasks w))) w))"
proof (rule each_tab [OF assms(1) _ assms(2)])
  have wf: "bt_wf (tw_tasks w)" using assms(2) by (simp add: tab_def table_sat_def)
  show "distinct (map fst (filter (\<lambda>(_, r). P r) (tw_tasks w)))"
    using bt_wf_distinct [OF bt_wf_filter [OF wf]] .
  fix x s
  assume "x \<in> set (map fst (filter (\<lambda>(_, r). P r) (tw_tasks w)))" "state_of (tw_tasks w) x = Some s"
  then obtain r where "bt_get (tw_tasks w) x = Some r" "P r" "state_of (tw_tasks w) x = Some s"
    using bt_get_iff_mem [OF wf] by fastforce
  then show "Z s" using assms(3) by (auto simp: state_of_def)
qed

text \<open>What every round of blocking keeps, the loop keeps.\<close>

lemma propagate_rounds:
  fixes en :: "'b task_env"
  assumes "\<And>w. P w \<Longrightarrow> P (snd (each (block_task en) (tasks_to_block (tw_tasks w)) w))"
  shows "keeps P (propagate_blocked en)"
proof (rule keepsI)
  fix w :: "'b task_world"
  have "(\<And>w. P w \<Longrightarrow> P (snd (each (block_task en) (tasks_to_block (tw_tasks w)) w))) \<Longrightarrow> P w \<Longrightarrow> P (snd (propagate_blocked en w))"
  proof (induction en w rule: propagate_blocked.induct)
    case (1 en w)
    show ?case
    proof (cases "tasks_to_block (tw_tasks w) = []")
      case False
      obtain res w1 where b: "each (block_task en) (tasks_to_block (tw_tasks w)) w = (res, w1)" by fastforce
      then have w1: "P w1" using 1(2) [OF 1(3)] by simp
      show ?thesis
      proof (cases res)
        case (Inr u)
        then show ?thesis using 1(1) [OF False _ _ 1(2) w1] b False by (simp add: propagate_blocked.simps [of en w])
      qed (use b w1 False in \<open>simp add: propagate_blocked.simps [of en w]\<close>)
    qed (use 1(3) in \<open>simp add: propagate_blocked.simps [of en w]\<close>)
  qed
  then show "P w \<Longrightarrow> P (snd (propagate_blocked en w))" using assms by blast
qed

section \<open>The contract of a refresh\<close>

text \<open>
  A predicate on snapshots that survives making room and every change a refresh makes to a snapshot,
  in the states in which it makes it. The refresh itself then keeps the predicate on all tasks.
\<close>

locale refresh_contract = trimmable S for S :: "task_id \<Rightarrow> task_snapshot \<Rightarrow> bool" +
  fixes en :: "'b task_env"
  assumes started: "\<And>x sn a. S x sn \<Longrightarrow> sn_state sn = Queued \<Longrightarrow> agent_id_ok a \<Longrightarrow> S x (started en a sn)"
    and running: "\<And>x sn. S x sn \<Longrightarrow> sn_state sn = Ready \<Longrightarrow> S x (running en sn)"
    and settled: "\<And>x sn ev. S x sn \<Longrightarrow> sn_state sn = Running \<Longrightarrow> event_ok ev \<Longrightarrow> S x (settled en ev sn)"
    and observed: "\<And>x sn ev. S x sn \<Longrightarrow> event_ok ev \<Longrightarrow> S x (observed en ev sn)"
    and agent_failed: "\<And>x sn ag. S x sn \<Longrightarrow> \<not> sn_recovery_pending sn \<Longrightarrow> \<not> task_terminal (sn_state sn) \<Longrightarrow> S x (agent_failed en ag sn)"
    and over_budget: "\<And>x sn. S x sn \<Longrightarrow> sn_state sn = Running \<or> sn_state sn = Waiting \<Longrightarrow> S x (over_budget en sn)"
    and verified: "\<And>x sn evs. S x sn \<Longrightarrow> sn_state sn = Verifying \<Longrightarrow> list_all evidence_ok evs \<Longrightarrow> S x (verified en evs sn)"
    and not_verified: "\<And>x sn err evs. S x sn \<Longrightarrow> sn_state sn = Verifying \<Longrightarrow> list_all evidence_ok evs \<Longrightarrow> S x (not_verified en err evs sn)"
    and waiting: "\<And>x sn t. S x sn \<Longrightarrow> sn_state sn = Verifying \<Longrightarrow> S x (sn\<lparr>sn_state := Waiting, sn_updated_at_ms := t\<rparr>)"
    and blocked: "\<And>x sn. S x sn \<Longrightarrow> sn_state sn = Queued \<Longrightarrow> S x (blocked en sn)"
begin

lemma commit_then:
  "S x sn \<Longrightarrow> outside act \<Longrightarrow> (\<And>y. leads (base D S \<sigma> x) (f y) (base D S \<sigma> x)) \<Longrightarrow>
   leads (holding D S \<sigma> x r) (andthen (commit_snapshot en x sn b act) f) (base D S \<sigma> x)"
  by (rule leads_andthen [OF commit_leads])

lemma start_task_leads: "backend_ok en \<Longrightarrow> leads (at_state (\<lambda>s. s = Queued) D S \<sigma> x) (start_task en x) (base D S \<sigma> x)"
  unfolding start_task_def backend_ok_def
  by (intro at_state_read hold_then hold_call update_then outside_ops outside_base [OF outside_persist]) (auto intro!: started)

lemma stop_over_budget_leads:
  "leads (at_state (\<lambda>s. s = Running \<or> s = Waiting) D S \<sigma> x) (stop_over_budget en x) (base D S \<sigma> x)"
  unfolding stop_over_budget_def by (intro at_state_read commit_leads over_budget outside_ops)

lemma block_task_leads: "leads (at_state (\<lambda>s. s = Queued) D S \<sigma> x) (block_task en x) (base D S \<sigma> x)"
  unfolding block_task_def by (intro at_state_read commit_leads blocked outside_ops)

lemma handle_event_leads: "event_ok ev \<Longrightarrow> leads (base D S \<sigma> x) (handle_event en ev x) (base D S \<sigma> x)"
  unfolding handle_event_def Let_def
  by (intro read_then hold_if hold_then update_then commit_leads base_then outside_base outside_ops)
    (auto intro!: running settled observed)

lemma verify_task_leads: "leads (at_state (\<lambda>s. s = Verifying) D S \<sigma> x) (verify_task en x) (base D S \<sigma> x)"
  unfolding verify_task_def Let_def
proof (intro at_state_read hold_lift)
  fix r :: task_record and outcome
  let ?sn = "tr_snapshot r"
  assume ok: "S x ?sn" "sn_state ?sn = Verifying"
    and v: "verify (verify_command en (sn_worktree ?sn)) (sn_evidence ?sn) (sn_verification ?sn) = Ok outcome"
  note ev = verify_evidence_ok(1) [OF command_evidence_ok v]
  show "leads (holding D S \<sigma> x r)
    (case outcome of
       Passed evs \<Rightarrow> andthen (commit_snapshot en x (verified en evs ?sn) (evs \<noteq> [])
           (case sn_assigned_agent ?sn of None \<Rightarrow> ret () | Some a \<Rightarrow> call_out (en_complete_agent en a))) (\<lambda>_.
         update_record x (\<lambda>q. q\<lparr>tr_next_retry_at_ms := None\<rparr>))
     | StillWaiting \<Rightarrow> commit_snapshot en x (?sn\<lparr>sn_state := Waiting, sn_updated_at_ms := en_now en\<rparr>) False (ret ())
     | FailedWith error evs \<Rightarrow> andthen (lift_res (validate_text ''task verification error'' error)) (\<lambda>_.
         andthen (commit_snapshot en x (not_verified en error evs ?sn) (evs \<noteq> []) (cancel_assigned en (sn_assigned_agent ?sn))) (\<lambda>_.
         update_record x (\<lambda>q. q\<lparr>tr_next_retry_at_ms := retry_time en ?sn\<rparr>)))) (base D S \<sigma> x)"
  proof (cases outcome)
    case (Passed evs)
    then show ?thesis using ev
      by (simp, intro commit_then verified ok outside_option outside_ops update_base) simp_all
  next
    case StillWaiting
    then show ?thesis by (simp, intro commit_leads waiting ok outside_ops)
  next
    case (FailedWith error evs)
    then show ?thesis using ev
      by (simp, intro hold_lift commit_then not_verified ok outside_ops update_base) simp_all
  qed
qed

lemma schedule_ready_keeps: "backend_ok en \<Longrightarrow> keeps (tab D S) (schedule_ready en)"
  unfolding schedule_ready_def ready_tasks_def
  by (intro tab_get each_filter_tab [where Z = "\<lambda>s. s = Queued"] start_task_leads) (simp_all add: task_ready_def)

lemma enforce_keeps: "keeps (tab D S) (enforce_task_budgets en)"
  unfolding enforce_task_budgets_def
  by (intro tab_get each_filter_tab [where Z = "\<lambda>s. s = Running \<or> s = Waiting"] stop_over_budget_leads) (simp_all add: budget_exceeded_def)

lemma verify_pending_keeps: "keeps (tab D S) (verify_pending en)"
  unfolding verify_pending_def
  by (intro tab_get each_filter_tab [where Z = "\<lambda>s. s = Verifying"] verify_task_leads) simp_all

lemma block_all_tab: "tab D S w \<Longrightarrow> tab D S (snd (each (block_task en) (tasks_to_block (tw_tasks w)) w))"
proof (rule each_tab [OF block_task_leads])
  assume "tab D S w"
  then show "distinct (tasks_to_block (tw_tasks w))" by (simp add: tasks_to_block_def tab_def table_sat_def bt_wf_distinct)
qed (auto dest!: tasks_to_block_queued simp: queued_tasks_def)

lemma propagate_keeps: "keeps (tab D S) (propagate_blocked en)"
  by (rule propagate_rounds) (rule block_all_tab)

end

section \<open>Snapshots stay valid\<close>

lemma push_ok: "snapshot_ok D x sn \<Longrightarrow> evidence_ok e \<Longrightarrow> snapshot_ok D x (push_snapshot_evidence now e sn)"
proof -
  assume sn: "snapshot_ok D x sn" and e: "evidence_ok e"
  let ?evs = "if length (sn_evidence sn) = MAX_TASK_EVIDENCE then tl (sn_evidence sn) else sn_evidence sn"
  have "list_all evidence_ok ?evs" using sn by (auto simp: snapshot_ok_def list_all_iff dest: set_tl_subset [THEN subsetD])
  moreover have "length ?evs < MAX_TASK_EVIDENCE" using sn by (auto simp: snapshot_ok_def MAX_TASK_EVIDENCE_def)
  ultimately show ?thesis
    using sn e by (simp add: push_snapshot_evidence_def snapshot_ok_def agent_consistent_def texts_ok_def Let_def)
qed

lemma push_keeps [simp]:
  "sn_state (push_snapshot_evidence now e sn) = sn_state sn" "sn_attempt (push_snapshot_evidence now e sn) = sn_attempt sn"
  "sn_assigned_agent (push_snapshot_evidence now e sn) = sn_assigned_agent sn"
  "sn_recovery_pending (push_snapshot_evidence now e sn) = sn_recovery_pending sn"
  by (simp_all add: push_snapshot_evidence_def Let_def)

lemma add_evidence_ok:
  "snapshot_ok D x sn \<Longrightarrow> list_all evidence_ok evs \<Longrightarrow>
   snapshot_ok D x (add_evidence en evs sn) \<and> sn_state (add_evidence en evs sn) = sn_state sn \<and>
   sn_assigned_agent (add_evidence en evs sn) = sn_assigned_agent sn \<and> sn_recovery_pending (add_evidence en evs sn) = sn_recovery_pending sn"
proof (induction evs arbitrary: sn)
  case (Cons e evs)
  have "evidence_ok (e\<lparr>ev_attempt := sn_attempt sn\<rparr>)" using Cons.prems(2) by (simp add: evidence_ok_def)
  then show ?case
    using Cons.IH [of "push_snapshot_evidence (en_now en) (e\<lparr>ev_attempt := sn_attempt sn\<rparr>) sn"] Cons.prems push_ok [of D x sn]
    by (simp add: add_evidence_def)
qed (simp add: add_evidence_def)

lemmas ok_defs = snapshot_ok_def agent_consistent_def texts_ok_def active_state_def

lemma started_ok: "snapshot_ok D x sn \<Longrightarrow> sn_state sn = Queued \<Longrightarrow> agent_id_ok a \<Longrightarrow> snapshot_ok D x (started en a sn)"
  by (auto simp: ok_defs started_def)

lemma running_ok: "snapshot_ok D x sn \<Longrightarrow> sn_state sn = Ready \<Longrightarrow> snapshot_ok D x (running en sn)"
  by (auto simp: ok_defs running_def)

lemma short_texts_ok: "\<not> too_long BUDGET_EXCEEDED" "\<not> too_long PREREQUISITE_FAILED" "\<not> too_long RECOVERY_PENDING"
  by (simp_all add: too_long_def BUDGET_EXCEEDED_def PREREQUISITE_FAILED_def RECOVERY_PENDING_def MAX_TASK_TEXT_BYTES_def)

lemma over_budget_ok:
  "snapshot_ok D x sn \<Longrightarrow> sn_state sn = Running \<or> sn_state sn = Waiting \<Longrightarrow> snapshot_ok D x (over_budget en sn)"
  using short_texts_ok by (auto simp: ok_defs over_budget_def)

lemma blocked_ok: "snapshot_ok D x sn \<Longrightarrow> sn_state sn = Queued \<Longrightarrow> snapshot_ok D x (blocked en sn)"
  using short_texts_ok by (auto simp: ok_defs blocked_def)

lemma agent_failed_ok: "snapshot_ok D x sn \<Longrightarrow> \<not> sn_recovery_pending sn \<Longrightarrow> snapshot_ok D x (agent_failed en ag sn)"
  using bounded_error_ok(1) by (auto simp: ok_defs agent_failed_def)

lemma verified_ok: "snapshot_ok D x sn \<Longrightarrow> sn_state sn = Verifying \<Longrightarrow> list_all evidence_ok evs \<Longrightarrow> snapshot_ok D x (verified en evs sn)"
  using add_evidence_ok [of D x sn evs en] by (auto simp: ok_defs verified_def)

lemma not_verified_ok:
  "snapshot_ok D x sn \<Longrightarrow> sn_state sn = Verifying \<Longrightarrow> list_all evidence_ok evs \<Longrightarrow> snapshot_ok D x (not_verified en err evs sn)"
  using add_evidence_ok [of D x sn evs en] bounded_error_ok(1) by (auto simp: ok_defs not_verified_def Let_def)

lemma waiting_ok: "snapshot_ok D x sn \<Longrightarrow> sn_state sn = Verifying \<Longrightarrow> snapshot_ok D x (sn\<lparr>sn_state := Waiting, sn_updated_at_ms := t\<rparr>)"
  by (auto simp: ok_defs)

lemma paused_ok: "snapshot_ok D x sn \<Longrightarrow> snapshot_ok D x (paused en sn)"
  by (auto simp: ok_defs paused_def)

lemma requeued_ok: "snapshot_ok D x sn \<Longrightarrow> snapshot_ok D x (requeued en sn)"
  by (auto simp: ok_defs requeued_def)

lemma retried_ok: "snapshot_ok D x sn \<Longrightarrow> snapshot_ok D x (retried en sn)"
  using requeued_ok [of D x sn en] by (auto simp: ok_defs retried_def)

lemma overridden_ok: "snapshot_ok D x sn \<Longrightarrow> sn_state sn = Blocked \<Longrightarrow> snapshot_ok D x (overridden en sn)"
  by (auto simp: ok_defs overridden_def)

lemma cancelled_ok: "snapshot_ok D x sn \<Longrightarrow> snapshot_ok D x (cancelled en sn)"
  by (auto simp: ok_defs cancelled_def)

lemma reassigned_ok:
  "snapshot_ok D x sn \<Longrightarrow> text_ok MAX_TASK_TEXT_BYTES role \<Longrightarrow> pred_option (text_ok MAX_TASK_TEXT_BYTES) model \<Longrightarrow>
   pred_option (text_ok MAX_TASK_TEXT_BYTES) thinking \<Longrightarrow> snapshot_ok D x (reassigned en role model thinking sn)"
  using requeued_ok [of D x sn en] by (auto simp: ok_defs reassigned_def)

lemma submitted_ok: "snapshot_ok D x sn \<Longrightarrow> evidence_ok e \<Longrightarrow> snapshot_ok D x (submitted en e sn)"
  using push_ok [of D x sn e "en_now en"] by (auto simp: ok_defs submitted_def Let_def)

lemma settled_ok: "snapshot_ok D x sn \<Longrightarrow> sn_state sn = Running \<Longrightarrow> event_ok ev \<Longrightarrow> snapshot_ok D x (settled en ev sn)"
  unfolding settled_def by (intro push_ok event_evidence_ok) (auto simp: ok_defs)

lemma observed_ok: "snapshot_ok D x sn \<Longrightarrow> event_ok ev \<Longrightarrow> snapshot_ok D x (observed en ev sn)"
  unfolding observed_def by (intro push_ok event_evidence_ok) (auto simp: ok_defs)

end
