(* ===== verification/Task_Safety.thy ===== *)
theory Task_Safety
  imports Task_Keeps
begin

text \<open>
  Refresh and the commands keep the task table valid, also when they fail half way; creation adds a
  valid task under a new identifier.
\<close>

section \<open>Events and failures\<close>

lemma task_for_agent_facts:
  assumes "bt_wf T" "task_for_agent T a = Some t"
  shows "\<exists>r. bt_get T t = Some r \<and> \<not> sn_recovery_pending (tr_snapshot r) \<and> sn_assigned_agent (tr_snapshot r) = Some a"
proof -
  obtain r where "find (\<lambda>(_, r). \<not> sn_recovery_pending (tr_snapshot r) \<and> sn_assigned_agent (tr_snapshot r) = Some a) T = Some (t, r)"
    using assms(2) by (auto simp: task_for_agent_def)
  then have "(t, r) \<in> set T" "\<not> sn_recovery_pending (tr_snapshot r) \<and> sn_assigned_agent (tr_snapshot r) = Some a"
    by (auto simp: find_Some_iff in_set_conv_nth)
  then show ?thesis using bt_get_iff_mem [OF assms(1)] by blast
qed

context refresh_contract
begin

lemma handle_event_keeps: "event_ok ev \<Longrightarrow> keeps (tab D S) (handle_event en ev t)"
  by (rule tab_leads) (rule handle_event_leads)

lemma apply_agent_event_keeps: "event_ok ev \<Longrightarrow> keeps (tab D S) (apply_agent_event en ev)"
  unfolding apply_agent_event_def
  by (intro keeps_intros handle_event_keeps tab_outside outside_persist)

lemma take_event_keeps: "event_ok ev \<Longrightarrow> keeps (tab D S) (take_event en ev)"
  unfolding take_event_def by (rule keeps_andthen [OF apply_agent_event_keeps]) (auto simp: keeps_def tab_def)

lemma failure_leads:
  "leads (\<lambda>w. base D S \<sigma> t w \<and> (\<forall>r. bt_get (tw_tasks w) t = Some r \<longrightarrow> \<not> sn_recovery_pending (tr_snapshot r)))
     (andthen (the_record t) (\<lambda>r.
         let sn = agent_failed en ag (tr_snapshot r) in
         if task_terminal (sn_state (tr_snapshot r)) then ret ()
         else andthen (lift_res (validate_text ''task error'' (case sn_last_error sn of None \<Rightarrow> [] | Some e \<Rightarrow> e))) (\<lambda>_.
              commit_snapshot en t sn False (ret ())))) (base D S \<sigma> t)"
  unfolding Let_def
  by (intro leads_read hold_if hold_lift hold_last commit_leads outside_ops agent_failed)

lemma apply_agent_failure_keeps: "keeps (tab D S) (apply_agent_failure en ag)"
  unfolding apply_agent_failure_def
proof (rule tab_get)
  fix w :: "'b task_world"
  assume w: "tab D S w"
  then have wf: "bt_wf (tw_tasks w)" by (simp add: tab_def table_sat_def)
  show "tab D S (snd ((if ag_status ag \<noteq> AgentFailed \<and> ag_status ag \<noteq> AgentCancelled then ret ()
      else case task_for_agent (tw_tasks w) (ag_id ag) of
        None \<Rightarrow> ret ()
      | Some t \<Rightarrow> andthen (the_record t) (\<lambda>r.
          let sn = agent_failed en ag (tr_snapshot r) in
          if task_terminal (sn_state (tr_snapshot r)) then ret ()
          else andthen (lift_res (validate_text ''task error'' (case sn_last_error sn of None \<Rightarrow> [] | Some e \<Rightarrow> e))) (\<lambda>_.
               commit_snapshot en t sn False (ret ())))) w))"
  proof (cases "task_for_agent (tw_tasks w) (ag_id ag)")
    case None
    then show ?thesis using w by (simp add: ret_def)
  next
    case (Some t)
    have "base D S (state_of (tw_tasks w)) t w \<and> (\<forall>r. bt_get (tw_tasks w) t = Some r \<longrightarrow> \<not> sn_recovery_pending (tr_snapshot r))"
      using tab_base [OF w] task_for_agent_facts [OF wf Some] by auto
    from base_tab [OF leadsD [OF failure_leads this]] show ?thesis using Some w by (simp add: ret_def)
  qed
qed

lemma refresh_keeps:
  assumes "backend_ok en"
  shows "keeps (tab D S) (refresh en)"
proof -
  have ev: "keeps (tab D S) (each (take_event en) evs)" if "list_all event_ok evs" for evs
    using that by (intro keeps_each take_event_keeps) (auto simp: list_all_iff)
  have rest: "keeps (tab D S) (andthen (each (apply_agent_failure en) ags) (\<lambda>_. andthen (enforce_task_budgets en) (\<lambda>_.
     andthen (verify_pending en) (\<lambda>_. andthen (propagate_blocked en) (\<lambda>_. andthen (schedule_ready en) (\<lambda>_. persist_tasks en))))))" for ags
    by (intro keeps_andthen keeps_each apply_agent_failure_keeps enforce_keeps verify_pending_keeps propagate_keeps
        schedule_ready_keeps [OF assms] tab_outside outside_persist)
  have events: "keeps (tab D S) (andthen (call_out (en_agent_events en n)) (\<lambda>evs. andthen (each (take_event en) evs) (\<lambda>_.
     andthen (each (apply_agent_failure en) ags) (\<lambda>_. andthen (enforce_task_budgets en) (\<lambda>_.
     andthen (verify_pending en) (\<lambda>_. andthen (propagate_blocked en) (\<lambda>_. andthen (schedule_ready en) (\<lambda>_. persist_tasks en))))))))" for n ags
  proof (rule keeps_andthen_result [OF tab_outside [OF outside_basic(2)]])
    fix w w' evs
    assume w: "tab D S w" and c: "call_out (en_agent_events en n) w = (Ok evs, w')"
    have "\<exists>out'. en_agent_events en n (tw_out w) = (Ok evs, out')" using c by (auto simp: call_out_def split: prod.splits)
    then have e: "list_all event_ok evs" using assms unfolding backend_ok_def by blast
    have w': "tab D S w'" using w c by (auto simp: call_out_def tab_def split: prod.splits)
    show "tab D S (snd (andthen (each (take_event en) evs) (\<lambda>_.
     andthen (each (apply_agent_failure en) ags) (\<lambda>_. andthen (enforce_task_budgets en) (\<lambda>_.
     andthen (verify_pending en) (\<lambda>_. andthen (propagate_blocked en) (\<lambda>_. andthen (schedule_ready en) (\<lambda>_. persist_tasks en)))))) w'))"
      by (rule keepsD [OF keeps_andthen [OF ev [OF e] rest] w'])
  qed
  note out = tab_outside [OF outside_basic(2)]
  show ?thesis unfolding refresh_def
    by (rule keeps_andthen [OF out keeps_andthen [OF out keeps_andthen [OF keeps_pure(4) events]]])
qed

end

section \<open>Commands\<close>

lemma hold_then_tab:
  "outside m \<Longrightarrow> (\<And>y. leads (holding D S \<sigma> x r) (f y) (tab D S)) \<Longrightarrow> leads (holding D S \<sigma> x r) (andthen m f) (tab D S)"
  by (rule leads_andthen [OF outside_holding]) (auto intro: base_tab holding_base)

lemma update_then_tab:
  "S x (tr_snapshot (f r)) \<Longrightarrow> (\<And>y. keeps (tab D S) (g y)) \<Longrightarrow>
   leads (holding D S \<sigma> x r) (andthen (update_record x f) g) (tab D S)"
  by (rule leads_andthen [OF update_leads]) (auto simp: leads_def keeps_def intro: base_tab)

lemma hold_last_tab: "outside m \<Longrightarrow> leads (holding D S \<sigma> x r) m (tab D S)"
  using hold_last [of m D S \<sigma> x r] by (auto simp: leads_def intro: base_tab)

lemma read_tab:
  assumes "\<And>r \<sigma>. S x (tr_snapshot r) \<Longrightarrow> leads (holding D S \<sigma> x r) (f r) (tab D S)"
  shows "keeps (tab D S) (andthen (the_record x) f)"
proof (rule keepsI)
  fix w :: "'a task_world"
  assume w: "tab D S w"
  show "tab D S (snd (andthen (the_record x) f w))"
  proof (cases "bt_get (tw_tasks w) x")
    case None
    then show ?thesis using w by (simp add: andthen_def the_record_def)
  next
    case (Some r)
    then have "holding D S (state_of (tw_tasks w)) x r w" "S x (tr_snapshot r)"
      using tab_base [OF w] table_satD w by (auto simp: holding_def tab_def)
    then have "tab D S (snd (f r w))" using leadsD [OF assms] by blast
    then show ?thesis using Some by (simp add: andthen_def the_record_def)
  qed
qed

lemma validate_texts_Ok: "validate_texts ls = Ok () \<longleftrightarrow> list_all (\<lambda>(l, v). text_ok MAX_TASK_TEXT_BYTES v) ls"
proof -
  have "fold (\<lambda>(label, v) acc. res_bind acc (\<lambda>_. validate_text label v)) ls acc = Ok () \<longleftrightarrow>
    acc = Ok () \<and> list_all (\<lambda>(l, v). text_ok MAX_TASK_TEXT_BYTES v) ls" for acc
  proof (induction ls arbitrary: acc)
    case (Cons lv ls)
    have "res_bind acc (\<lambda>_. validate_text l v) = Ok () \<longleftrightarrow> acc = Ok () \<and> text_ok MAX_TASK_TEXT_BYTES v" for l v
      by (cases acc) (simp_all add: validate_text_def)
    then show ?case using Cons.IH by (cases lv) simp
  qed simp
  then show ?thesis by (simp add: validate_texts_def)
qed

lemma optional_text_ok: "list_all (\<lambda>(l, v). text_ok MAX_TASK_TEXT_BYTES v) (optional_text label v) = pred_option (text_ok MAX_TASK_TEXT_BYTES) v"
  by (cases v) (simp_all add: optional_text_def)

text \<open>What the commands of a user change in a snapshot.\<close>

locale command_contract = refresh_contract +
  assumes paused: "\<And>x sn. S x sn \<Longrightarrow> S x (paused en sn)"
    and requeued: "\<And>x sn. S x sn \<Longrightarrow> S x (requeued en sn)"
    and retried: "\<And>x sn. S x sn \<Longrightarrow> S x (retried en sn)"
    and reassigned: "\<And>x sn role model thinking. S x sn \<Longrightarrow> text_ok MAX_TASK_TEXT_BYTES role \<Longrightarrow>
      pred_option (text_ok MAX_TASK_TEXT_BYTES) model \<Longrightarrow> pred_option (text_ok MAX_TASK_TEXT_BYTES) thinking \<Longrightarrow>
      S x (reassigned en role model thinking sn)"
    and cancelled: "\<And>x sn. S x sn \<Longrightarrow> S x (cancelled en sn)"
    and overridden: "\<And>x sn. S x sn \<Longrightarrow> sn_state sn = Blocked \<Longrightarrow> S x (overridden en sn)"
    and submitted: "\<And>x sn e. S x sn \<Longrightarrow> evidence_ok e \<Longrightarrow> S x (submitted en e sn)"
begin

lemma requeue_leads:
  "S i (tr_snapshot (f r)) \<Longrightarrow> outside act \<Longrightarrow> backend_ok en \<Longrightarrow>
   leads (holding D S \<sigma> i r) (requeue en i p act f) (tab D S)"
  unfolding requeue_def
  by (intro hold_then_tab update_then_tab keeps_andthen schedule_ready_keeps tab_outside outside_ops)

lemmas command_rules =
  keeps_andthen refresh_keeps read_tab hold_if hold_then_tab hold_last_tab update_then_tab requeue_leads propagate_keeps
  tab_outside outside_ops

lemma pause_keeps: "backend_ok en \<Longrightarrow> keeps (tab D S) (pause en i)"
  unfolding pause_def by (intro command_rules) (simp_all add: paused)

lemma resume_keeps: "backend_ok en \<Longrightarrow> keeps (tab D S) (resume en i)"
  unfolding resume_def by (intro command_rules) (simp_all add: requeued)

lemma cancel_keeps: "backend_ok en \<Longrightarrow> keeps (tab D S) (cancel en i)"
  unfolding cancel_def by (intro command_rules) (simp_all add: cancelled)

lemma retry_keeps: "backend_ok en \<Longrightarrow> keeps (tab D S) (retry en i)"
  unfolding retry_def by (intro command_rules) (simp_all add: retried)

lemma override_keeps: "backend_ok en \<Longrightarrow> keeps (tab D S) (override_blocked en i)"
  unfolding override_blocked_def by (intro command_rules) (simp_all add: overridden)

lemma submit_evidence_keeps: "keeps (tab D S) (submit_evidence en i kind actor source passed details)"
  unfolding submit_evidence_def Let_def
proof (intro read_tab)
  fix r :: task_record and \<sigma>
  let ?e = "\<lparr>ev_kind = kind, ev_actor = actor, ev_source = source, ev_passed = Some passed, ev_observed_at_ms = en_now en,
     ev_attempt = sn_attempt (tr_snapshot r), ev_details = details\<rparr>"
  assume sn: "S i (tr_snapshot r)"
  let ?v = "validate_texts [(''task evidence kind'', kind), (''task evidence actor'', actor), (''task evidence source'', source)]"
  show "leads (holding D S \<sigma> i r) (andthen (lift_res ?v) (\<lambda>_.
     andthen (ensure_snapshot_checkpoint_fits en i (submitted en ?e (tr_snapshot r))) (\<lambda>_.
     andthen (update_record i (\<lambda>q. q\<lparr>tr_snapshot := submitted en ?e (tr_snapshot q)\<rparr>)) (\<lambda>_. persist_tasks en)))) (tab D S)"
  proof (cases ?v)
    case (Inl e)
    then show ?thesis by (auto simp: leads_def andthen_def lift_res_def intro: base_tab holding_base)
  next
    case (Inr u)
    then have "evidence_ok ?e" using validate_texts_Ok by (simp add: evidence_ok_def)
    then show ?thesis using sn by (intro command_rules) (simp add: submitted)
  qed
qed

lemma reassign_keeps:
  assumes "backend_ok en"
  shows "keeps (tab D S) (reassign en i role model thinking)"
proof (cases "validate_texts ((''task role'', role) # optional_text ''task model'' model @ optional_text ''task thinking'' thinking)")
  case (Inl e)
  then show ?thesis by (simp add: reassign_def keeps_def andthen_def lift_res_def)
next
  case (Inr u)
  then have ok: "text_ok MAX_TASK_TEXT_BYTES role" "pred_option (text_ok MAX_TASK_TEXT_BYTES) model" "pred_option (text_ok MAX_TASK_TEXT_BYTES) thinking"
    using validate_texts_Ok [of "(''task role'', role) # _"] by (simp_all add: optional_text_ok)
  have "keeps (tab D S) (andthen (the_record i) (\<lambda>r.
     if task_terminal (sn_state (tr_snapshot r)) then fail (Conflict ''terminal task cannot be reassigned'')
     else requeue en i (reassigned en role model thinking (tr_snapshot r)) (cancel_assigned en (sn_assigned_agent (tr_snapshot r)))
            (\<lambda>q. q\<lparr>tr_snapshot := reassigned en role model thinking (tr_snapshot q)\<rparr>)))"
    using assms by (intro command_rules) (simp_all add: reassigned ok)
  then show ?thesis unfolding reassign_def by (rule keeps_andthen [OF keeps_pure(3)])
qed

end

section \<open>The invariant of the table\<close>

text \<open>A valid snapshot stays valid, whatever a refresh or a command does to it.\<close>

interpretation ok: command_contract "snapshot_ok D" en for D :: "task_id set" and en :: "'b task_env"
  by unfold_locales
    (rule snapshot_ok_trimmed started_ok running_ok settled_ok observed_ok agent_failed_ok over_budget_ok verified_ok not_verified_ok
      waiting_ok blocked_ok paused_ok requeued_ok retried_ok reassigned_ok cancelled_ok overridden_ok submitted_ok; assumption)+

end
