(* ===== verification/Task_Reach.thy ===== *)
theory Task_Reach
  imports Task_Safety
begin

text \<open>
  The states a task scheduler reaches, and that each of them can be saved and opened again.
\<close>

section \<open>Identifiers are numbered\<close>

lemma digit_char: "k < 10 \<Longrightarrow> id_digit (char_of (48 + k))" "k < 10 \<Longrightarrow> of_char (char_of (48 + k) :: char) = (48 + k :: nat)"
  by (simp_all add: id_digit_def)

lemma show_nat_digits: "list_all id_digit (show_nat n) \<and> show_nat n \<noteq> []"
proof (induction n rule: show_nat.induct)
  case (1 n)
  show ?case
  proof (cases "n < 10")
    case True
    then show ?thesis by (simp add: show_nat.simps [of n] digit_char)
  next
    case False
    then show ?thesis using 1 digit_char(1) [of "n mod 10"] by (simp add: show_nat.simps [of n])
  qed
qed

lemma decimal_value_snoc: "decimal_value (ds @ [c]) = 10 * decimal_value ds + (of_char c - 48)"
  by (simp add: decimal_value_def)

lemma decimal_value_show: "decimal_value (show_nat n) = n"
proof (induction n rule: show_nat.induct)
  case (1 n)
  show ?case
  proof (cases "n < 10")
    case True
    then show ?thesis using digit_char(2) [of n] by (simp add: show_nat.simps [of n] decimal_value_def)
  next
    case False
    then show ?thesis using 1 digit_char(2) [of "n mod 10"] by (simp add: show_nat.simps [of n] decimal_value_snoc)
  qed
qed

lemma decimal_value_zeros: "decimal_value (replicate k (CHR ''0'') @ ds) = decimal_value ds"
  by (induction k) (simp_all add: decimal_value_def)

lemma length_show_nat: "n < 10 ^ Suc k \<Longrightarrow> length (show_nat n) \<le> Suc k"
proof (induction k arbitrary: n)
  case 0
  then show ?case by (simp add: show_nat.simps [of n])
next
  case (Suc k)
  have "n div 10 < 10 ^ Suc k" using Suc.prems by (simp add: less_mult_imp_div_less mult.commute)
  then show ?case using Suc.IH [of "n div 10"] by (simp add: show_nat.simps [of n])
qed

lemma digit_not_control: "id_digit c \<Longrightarrow> \<not> ascii_control c \<and> \<not> latin_control c d \<and> c \<noteq> CHR ''+''"
  by (auto simp: id_digit_def ascii_control_def latin_control_def)

lemma digits_no_control: "list_all id_digit ds \<Longrightarrow> \<not> has_control ds"
  by (induction ds) (auto simp: digit_not_control)

lemma pad4_digits: "list_all id_digit (pad4 (show_nat n)) \<and> pad4 (show_nat n) \<noteq> []"
  using show_nat_digits [of n] by (auto simp: pad4_def list_all_iff id_digit_def)

lemma number_of_task_name: "n \<le> u64_max \<Longrightarrow> number_of_task (task_name n) = Some n"
proof -
  assume n: "n \<le> u64_max"
  let ?ds = "pad4 (show_nat n)"
  have d: "list_all id_digit ?ds" "?ds \<noteq> []" using pad4_digits by auto
  then have "hd ?ds \<noteq> CHR ''+''" using digit_not_control by (cases ?ds) auto
  moreover have "decimal_value ?ds = n" by (simp add: pad4_def decimal_value_zeros decimal_value_show)
  ultimately show ?thesis using n d by (simp add: number_of_task_def task_name_def parse_id_number_def)
qed

lemma task_id_name: "n \<le> u64_max \<Longrightarrow> task_id_ok (task_name n)"
proof -
  assume n: "n \<le> u64_max"
  then have "n < 10 ^ Suc 19" by (simp add: u64_max_def)
  then have "length (show_nat n) \<le> 20" using length_show_nat by fastforce
  moreover have "\<not> has_control (pad4 (show_nat n))" using digits_no_control pad4_digits by blast
  ultimately show ?thesis
    by (simp add: task_id_ok_def identifier_ok_def task_name_def pad4_def ascii_control_def latin_control_def)
qed

section \<open>The next number\<close>

text \<open>No operation but creation changes the next number.\<close>

definition next_is :: "nat \<Rightarrow> 'b task_world \<Rightarrow> bool" where
  "next_is n w \<longleftrightarrow> tw_next_task w = n"

lemma next_outside: "outside m \<Longrightarrow> keeps (next_is n) m"
  unfolding keeps_def outside_def next_is_def by (metis task_world.select_convs(2) task_world.surjective task_world.update_convs(4))

lemma next_update: "keeps (next_is n) (update_record i f)"
  by (auto simp: keeps_def next_is_def update_record_cases split: option.split)

lemma next_apply: "keeps (next_is n) (apply_replacements reps)"
  unfolding apply_replacements_def by (rule keeps_each) (auto split: prod.split intro: next_update)

lemma next_commit: "outside act \<Longrightarrow> keeps (next_is n) (commit_snapshot en i sn b act)"
  unfolding commit_snapshot_def by (intro keeps_andthen next_apply next_outside outside_ops)

lemmas next_rules = keeps_andthen keeps_each keeps_if keeps_option next_commit next_update
lemmas next_out = next_outside outside_ops outside_option

lemma next_start: "keeps (next_is n) (schedule_ready en)"
  unfolding schedule_ready_def start_task_def by (intro next_rules next_out)

lemma next_event: "keeps (next_is n) (take_event en ev)"
proof -
  have "keeps (next_is n) (apply_agent_event en ev)"
    unfolding apply_agent_event_def handle_event_def Let_def by (intro next_rules next_out)
  then show ?thesis unfolding take_event_def by (rule keeps_andthen) (simp add: keeps_def next_is_def)
qed

lemma next_failure: "keeps (next_is n) (apply_agent_failure en ag)"
  unfolding apply_agent_failure_def Let_def by (intro next_rules next_out)

lemma next_budget: "keeps (next_is n) (enforce_task_budgets en)"
  unfolding enforce_task_budgets_def stop_over_budget_def by (intro next_rules next_out)

lemma next_outcome: "(\<And>evs. keeps P (f evs)) \<Longrightarrow> keeps P m \<Longrightarrow> (\<And>e evs. keeps P (g e evs)) \<Longrightarrow>
   keeps P (case x of Passed evs \<Rightarrow> f evs | StillWaiting \<Rightarrow> m | FailedWith e evs \<Rightarrow> g e evs)"
  by (cases x) auto

lemma next_verify: "keeps (next_is n) (verify_pending en)"
  unfolding verify_pending_def verify_task_def Let_def by (intro next_rules next_outcome next_out)

lemma next_propagate: "keeps (next_is n) (propagate_blocked en)"
proof (rule propagate_rounds)
  have "keeps (next_is n) (each (block_task en) ts)" for ts unfolding block_task_def by (intro next_rules next_out)
  then show "next_is n w \<Longrightarrow> next_is n (snd (each (block_task en) (tasks_to_block (tw_tasks w)) w))" for w by (rule keepsD)
qed

lemmas next_parts = next_start next_event next_failure next_budget next_verify next_propagate

lemma next_refresh: "keeps (next_is n) (refresh en)"
  unfolding refresh_def by (intro keeps_andthen keeps_each next_parts next_outside outside_ops)

lemma next_requeue: "outside act \<Longrightarrow> keeps (next_is n) (requeue en i p act f)"
  unfolding requeue_def by (intro keeps_andthen next_update next_start next_outside outside_ops)

lemma next_commands:
  "keeps (next_is n) (pause en i)" "keeps (next_is n) (resume en i)" "keeps (next_is n) (cancel en i)" "keeps (next_is n) (retry en i)"
  "keeps (next_is n) (reassign en i role model thinking)" "keeps (next_is n) (override_blocked en i)"
  "keeps (next_is n) (submit_evidence en i kind actor source passed details)"
  unfolding pause_def resume_def cancel_def retry_def reassign_def override_blocked_def submit_evidence_def Let_def
  by (intro keeps_andthen keeps_if next_refresh next_requeue next_propagate next_update next_outside outside_ops)+

section \<open>Creation\<close>

text \<open>The state of a scheduler: a valid table of at most 128 tasks with numbers below the next one.\<close>

definition task_ids :: "task_table \<Rightarrow> task_id set" where
  "task_ids T = set (map fst T)"

abbreviation table_ok :: "task_id set \<Rightarrow> task_table \<Rightarrow> bool" where
  "table_ok D \<equiv> table_sat D (snapshot_ok D)"

abbreviation ok_tab :: "task_id set \<Rightarrow> 'b task_world \<Rightarrow> bool" where
  "ok_tab D \<equiv> tab D (snapshot_ok D)"

definition scheduler_ok :: "'b task_world \<Rightarrow> bool" where
  "scheduler_ok w \<longleftrightarrow>
     table_ok (task_ids (tw_tasks w)) (tw_tasks w) \<and> card (task_ids (tw_tasks w)) \<le> MAX_TASKS \<and>
     0 < tw_next_task w \<and> tw_next_task w \<le> u64_max \<and>
     (\<forall>i \<in> task_ids (tw_tasks w). task_id_ok i \<and> (\<exists>n. number_of_task i = Some n \<and> n < tw_next_task w))"

lemma tab_ids: "ok_tab D w \<Longrightarrow> task_ids (tw_tasks w) = D"
  by (simp add: tab_def table_sat_def task_ids_def)

text \<open>What keeps the table and the next number keeps the state.\<close>

lemma scheduler_ok_kept:
  fixes m :: "('b, 'a) task_op"
  assumes "\<And>D. keeps (ok_tab D) m" "\<And>n. keeps (next_is n) m"
  shows "keeps scheduler_ok m"
proof (rule keepsI)
  fix w :: "'b task_world"
  assume w: "scheduler_ok w"
  then have "ok_tab (task_ids (tw_tasks w)) w" by (simp add: scheduler_ok_def tab_def)
  then have t: "ok_tab (task_ids (tw_tasks w)) (snd (m w))" by (rule keepsD [OF assms(1)])
  have "next_is (tw_next_task w) (snd (m w))" by (rule keepsD [OF assms(2)]) (simp add: next_is_def)
  then show "scheduler_ok (snd (m w))" using w t tab_ids [OF t] by (simp add: scheduler_ok_def tab_def next_is_def)
qed

lemma check_dependencies_Ok:
  "check_dependencies tasks seen ds = Ok () \<longleftrightarrow> distinct ds \<and> set ds \<inter> set seen = {} \<and> set ds \<subseteq> task_ids tasks"
proof (induction ds arbitrary: seen)
  case (Cons d ds)
  have "bt_contains tasks d \<longleftrightarrow> d \<in> task_ids tasks" by (simp only: bt_contains_def task_ids_def in_dom_iff)
  then show ?case using Cons.IH by auto
qed simp

lemma validate_spec_Ok:
  assumes "validate_spec en T sp = Ok ()"
  shows "list_all (text_ok MAX_TASK_TEXT_BYTES) [sp_title sp, sp_goal sp, sp_prompt sp, sp_role sp]"
    "pred_option (text_ok MAX_TASK_TEXT_BYTES) (sp_model sp)" "pred_option (text_ok MAX_TASK_TEXT_BYTES) (sp_thinking sp)"
    "length (sp_dependencies sp) \<le> MAX_DEPENDENCIES" "distinct (sp_dependencies sp)" "set (sp_dependencies sp) \<subseteq> task_ids T"
    "max_runtime_seconds (sp_budget sp) \<noteq> 0" "max_events (sp_budget sp) \<noteq> 0" "validate_verification 0 (sp_verification sp) = Ok ()"
  using assms unfolding validate_spec_def
  by (auto simp: res_bind_Inr_iff validate_texts_Ok optional_text_ok check_dependencies_Ok not_less split: if_splits)

lemma inferred_resolved: "sp_verification (resolve_spec en sp) \<noteq> Inferred"
  by (simp add: resolve_spec_def infer_verification_def Let_def split: option.split)

lemma new_snapshot_ok:
  assumes "validate_spec en T sp = Ok ()" "sp_verification sp \<noteq> Inferred" "i \<notin> task_ids T" "\<not> reserved_id i"
  shows "snapshot_ok (insert i (task_ids T)) i (unscheduled (new_snapshot en i sp))"
  using validate_spec_Ok [OF assms(1)] assms(2-)
  by (auto simp: snapshot_ok_def agent_consistent_def texts_ok_def active_state_def unscheduled_def new_snapshot_def)

lemma fresh_name:
  assumes "scheduler_ok w"
  shows "task_name (tw_next_task w) \<notin> task_ids (tw_tasks w)" "\<not> reserved_id (task_name (tw_next_task w))"
  using assms number_of_task_name [of "tw_next_task w"] by (auto simp: scheduler_ok_def reserved_id_def)

lemma inserted_ok:
  assumes w: "scheduler_ok w" and v: "validate_spec en (tw_tasks w) sp = Ok ()" "sp_verification sp \<noteq> Inferred"
    and room: "length (tw_tasks w) < MAX_TASKS" "tw_next_task w < u64_max"
  shows "scheduler_ok (w\<lparr>tw_next_task := tw_next_task w + 1,
    tw_tasks := bt_insert (task_name (tw_next_task w))
      \<lparr>tr_snapshot = unscheduled (new_snapshot en (task_name (tw_next_task w)) sp), tr_next_retry_at_ms = None\<rparr> (tw_tasks w)\<rparr>)"
proof -
  let ?n = "tw_next_task w" and ?T = "tw_tasks w"
  let ?i = "task_name ?n"
  let ?r = "\<lparr>tr_snapshot = unscheduled (new_snapshot en ?i sp), tr_next_retry_at_ms = None\<rparr>"
  let ?T' = "bt_insert ?i ?r ?T"
  have ids: "task_ids ?T' = insert ?i (task_ids ?T)" using fst_set_bt_insert [of ?i ?r ?T] by (simp add: task_ids_def)
  have wf: "bt_wf ?T" "table_ok (task_ids ?T) ?T" using w by (simp_all add: scheduler_ok_def table_sat_def)
  have "snapshot_ok (task_ids ?T') u (tr_snapshot r)" if "bt_get ?T' u = Some r" for u r
  proof (cases "u = ?i")
    case True
    then have "r = ?r" using that by simp
    then show ?thesis using new_snapshot_ok [OF v fresh_name [OF w]] by (simp only: True ids task_record.select_convs)
  next
    case False
    then have "snapshot_ok (task_ids ?T) u (tr_snapshot r)" using that table_satD [OF wf(2)] by simp
    then show ?thesis using snapshot_ok_mono ids by blast
  qed
  then have "table_ok (task_ids ?T') ?T'" using wf(1) by (simp add: table_sat_def bt_wf_insert task_ids_def)
  moreover have "card (task_ids ?T') \<le> MAX_TASKS"
  proof -
    have "card (task_ids ?T) \<le> length ?T" unfolding task_ids_def using card_length [of "map fst ?T"] by simp
    then have "card (insert ?i (task_ids ?T)) \<le> Suc (length ?T)" using card_insert_le_m1 [of "Suc (length ?T)"] by (simp add: card_insert_if)
    then show ?thesis using room(1) ids by simp
  qed
  moreover have "task_id_ok ?i" "number_of_task ?i = Some ?n" using room(2) task_id_name number_of_task_name by simp_all
  ultimately show ?thesis using w room(2) ids unfolding scheduler_ok_def by (auto intro: less_SucI)
qed

lemma scheduler_ok_refresh: "backend_ok en \<Longrightarrow> keeps scheduler_ok (refresh en)"
  by (rule scheduler_ok_kept [OF ok.refresh_keeps next_refresh])

lemma scheduler_ok_same:
  "tw_tasks w' = tw_tasks w \<Longrightarrow> tw_next_task w' = tw_next_task w \<Longrightarrow> scheduler_ok w' = scheduler_ok w"
  by (simp add: scheduler_ok_def)

text \<open>Taking a new entry out again gives the old table.\<close>

lemma remove_insert_fresh: "bt_get m k = None \<Longrightarrow> bt_remove k (bt_insert k v m) = m"
proof (induction m)
  case (Cons kv m)
  then have "fst kv \<noteq> k" "bt_get m k = None" "bt_remove k m = m \<Longrightarrow> bt_remove k (kv # m) = kv # m"
    by (auto simp: bt_get_def bt_remove_def split: if_splits)
  moreover have "bt_remove k m = m"
    using \<open>bt_get m k = None\<close> by (auto simp: bt_get_def bt_remove_def map_of_eq_None_iff intro!: filter_True)
  ultimately show ?case using Cons.IH by (cases kv) (auto simp: bt_remove_def)
qed (simp add: bt_remove_def)

lemma insert_task_ok:
  assumes w: "scheduler_ok w" and v: "validate_spec en (tw_tasks w) sp = Ok ()" "sp_verification sp \<noteq> Inferred"
    and room: "length (tw_tasks w) < MAX_TASKS" "tw_next_task w < u64_max"
  shows "scheduler_ok (snd (insert_task en (task_name (tw_next_task w)) (new_snapshot en (task_name (tw_next_task w)) sp) (tw_next_task w + 1) w))"
proof -
  let ?i = "task_name (tw_next_task w)"
  let ?r = "\<lparr>tr_snapshot = unscheduled (new_snapshot en ?i sp), tr_next_retry_at_ms = None\<rparr>"
  let ?w1 = "w\<lparr>tw_next_task := tw_next_task w + 1, tw_tasks := bt_insert ?i ?r (tw_tasks w)\<rparr>"
  have none: "bt_get (tw_tasks w) ?i = None" using fresh_name(1) [OF w] unfolding task_ids_def in_dom_iff by simp
  have "scheduler_ok (?w1\<lparr>tw_tasks := bt_remove ?i (tw_tasks ?w1), tw_next_task := tw_next_task ?w1 - 1\<rparr>)"
    using w remove_insert_fresh [OF none, of ?r] by (simp add: scheduler_ok_def)
  then show ?thesis using inserted_ok [OF assms]
    by (auto simp: insert_task_def Let_def ensure_current_checkpoint_fits_def split: sum.split)
qed

lemma create_checked_keeps:
  assumes "backend_ok en" "sp_verification sp \<noteq> Inferred"
  shows "keeps scheduler_ok (create_checked en sp)"
proof (rule keepsI)
  fix w :: "'a task_world"
  assume w: "scheduler_ok w"
  let ?n = "tw_next_task w"
  let ?i = "task_name ?n"
  let ?cap = "mutation_capacity (en_size en (checkpoint_records [] (tw_tasks w) @ [\<lparr>tr_snapshot = new_snapshot en ?i sp, tr_next_retry_at_ms = None\<rparr>]) (?n + 1))"
  have rest: "keeps scheduler_ok (andthen (schedule_ready en) (\<lambda>_. andthen (persist_tasks en) (\<lambda>_. ret ?i)))"
    by (intro keeps_andthen keeps_pure scheduler_ok_kept ok.schedule_ready_keeps next_start assms tab_outside next_outside outside_persist)
  show "scheduler_ok (snd (create_checked en sp w))"
  proof (cases "validate_spec en (tw_tasks w) sp = Ok () \<and> length (tw_tasks w) < MAX_TASKS \<and> ?n < u64_max \<and> ?cap = Ok ()")
    case True
    then have v: "validate_spec en (tw_tasks w) sp = Ok ()" "length (tw_tasks w) < MAX_TASKS" "?n < u64_max" "?cap = Ok ()" by simp_all
    obtain res w1 where ins: "insert_task en ?i (new_snapshot en ?i sp) (?n + 1) w = (res, w1)" by fastforce
    then have w1: "scheduler_ok w1" using insert_task_ok [OF w v(1) assms(2) v(2,3)] by simp
    have "create_checked en sp w = andthen (insert_task en ?i (new_snapshot en ?i sp) (?n + 1)) (\<lambda>_.
        andthen (schedule_ready en) (\<lambda>_. andthen (persist_tasks en) (\<lambda>_. ret ?i))) w"
      using v by (simp add: create_checked_def andthen_def get_world_def lift_res_def nat_checked_add_def Let_def)
    then show ?thesis using ins w1 keepsD [OF rest w1] by (cases res) (simp_all add: andthen_def)
  next
    case False
    then have "snd (create_checked en sp w) = w"
      by (auto simp: create_checked_def andthen_def get_world_def lift_res_def fail_def nat_checked_add_def Let_def split: sum.split)
    then show ?thesis using w by simp
  qed
qed

lemma create_keeps: "backend_ok en \<Longrightarrow> keeps scheduler_ok (create en sp)"
  unfolding create_def by (intro keeps_andthen scheduler_ok_refresh create_checked_keeps inferred_resolved)

end
