(* ===== verification/Task_Reload.thy ===== *)
theory Task_Reload
  imports Task_Reach
begin

text \<open>
  The states a task scheduler reaches by its commands and by restarts. Whatever is reached can be
  saved and opened again.
\<close>

section \<open>Loading what was saved\<close>

lemma check_all_Ok: "check_all f T = Ok () \<longleftrightarrow> (\<forall>kv \<in> set T. f (tr_snapshot (snd kv)) = Ok ())"
proof -
  have "fold (\<lambda>kv acc. res_bind acc (\<lambda>_. f (tr_snapshot (snd kv)))) T acc = Ok () \<longleftrightarrow> acc = Ok () \<and> (\<forall>kv \<in> set T. f (tr_snapshot (snd kv)) = Ok ())" for acc
  proof (induction T arbitrary: acc)
    case (Cons kv T)
    have "res_bind acc (\<lambda>_. f (tr_snapshot (snd kv))) = Ok () \<longleftrightarrow> acc = Ok () \<and> f (tr_snapshot (snd kv)) = Ok ()"
      by (cases acc) simp_all
    then show ?case using Cons.IH by simp
  qed simp
  then show ?thesis by (simp add: check_all_def)
qed

lemma insert_at_end: "(\<And>j. j \<in> set (map fst m) \<Longrightarrow> j < k) \<Longrightarrow> bt_insert k v m = m @ [(k, v)]"
proof (induction m)
  case (Cons kv m)
  have lt: "fst kv < k" using Cons.prems [of "fst kv"] by simp
  have "bt_insert k v m = m @ [(k, v)]" using Cons by simp
  moreover have "\<not> k < fst kv" "k \<noteq> fst kv" using lt by auto
  ultimately show ?case by (cases kv) simp
qed simp

text \<open>What a saved record needs to be loaded.\<close>

definition loadable :: "nat \<Rightarrow> task_id \<times> task_record \<Rightarrow> bool" where
  "loadable next ir \<longleftrightarrow>
     (let i = fst ir; sn = tr_snapshot (snd ir) in
      sn_id sn = i \<and> task_id_ok i \<and> (\<exists>n. number_of_task i = Some n \<and> n < next) \<and>
      list_all (text_ok MAX_TASK_TEXT_BYTES) [sn_title sn, sn_goal sn, sn_prompt sn, sn_role sn] \<and>
      length (sn_dependencies sn) \<le> MAX_DEPENDENCIES \<and> length (sn_evidence sn) \<le> MAX_TASK_EVIDENCE)"

lemma load_record_ok:
  assumes "loadable next (i, r)" "\<And>j. j \<in> set (map fst A) \<Longrightarrow> j < i" "m < next"
  shows "\<exists>m'. load_record r (A, m) = Ok (A @ [(i, r)], m') \<and> m' < next"
proof -
  let ?sn = "tr_snapshot r"
  have l: "sn_id ?sn = i" "task_id_ok i" "length (sn_dependencies ?sn) \<le> MAX_DEPENDENCIES" "length (sn_evidence ?sn) \<le> MAX_TASK_EVIDENCE"
      "validate_texts [(''task title'', sn_title ?sn), (''task goal'', sn_goal ?sn), (''task prompt'', sn_prompt ?sn), (''task role'', sn_role ?sn)] = Ok ()"
    using assms(1) by (simp_all add: loadable_def Let_def validate_texts_Ok)
  obtain n where n: "number_of_task i = Some n" "n < next" using assms(1) by (auto simp: loadable_def Let_def)
  have "i \<notin> set (map fst A)" using assms(2) by fastforce
  then have "\<not> bt_contains A i" by (simp only: bt_contains_def in_dom_iff) simp
  moreover have "bt_insert i r A = A @ [(i, r)]" by (rule insert_at_end) (rule assms(2))
  ultimately have "load_record r (A, m) = Ok (A @ [(i, r)], max m n)"
    using l n(1) by (simp add: load_record_def Let_def)
  then show ?thesis using n(2) assms(3) by auto
qed

lemma load_records_from:
  assumes "bt_wf (A @ xs)" "list_all (loadable next) xs" "m < next"
  shows "\<exists>m'. fold (\<lambda>r acc. res_bind acc (load_record r)) (map snd xs) (Ok (A, m)) = Ok (A @ xs, m') \<and> m' < next"
  using assms
proof (induction xs arbitrary: A m)
  case (Cons ir xs)
  obtain i r where ir: "ir = (i, r)" by fastforce
  have "j < i" if "j \<in> set (map fst A)" for j using that Cons.prems(1) ir by (auto simp: bt_wf_def sorted_wrt_append)
  then obtain m1 where "load_record r (A, m) = Ok (A @ [(i, r)], m1)" "m1 < next"
    using load_record_ok [of "next" i r A m] Cons.prems(2,3) ir by auto
  then show ?case using Cons.IH [of "A @ [(i, r)]" m1] Cons.prems(1,2) ir by simp
qed simp

lemma checkpoint_records_nil: "checkpoint_records [] T = map snd T"
  by (simp add: checkpoint_records_def case_prod_beta)

lemma scheduler_ok_member:
  assumes "scheduler_ok w" "ir \<in> set (tw_tasks w)"
  shows "snapshot_ok (task_ids (tw_tasks w)) (fst ir) (tr_snapshot (snd ir))" "fst ir \<in> task_ids (tw_tasks w)"
proof -
  have t: "table_ok (task_ids (tw_tasks w)) (tw_tasks w)" using assms(1) by (simp add: scheduler_ok_def)
  then have "bt_get (tw_tasks w) (fst ir) = Some (snd ir)"
    using assms(2) bt_get_iff_mem [of "tw_tasks w" "fst ir" "snd ir"] by (simp add: table_sat_def)
  then show "snapshot_ok (task_ids (tw_tasks w)) (fst ir) (tr_snapshot (snd ir))" by (rule table_satD [OF t])
  show "fst ir \<in> task_ids (tw_tasks w)" using assms(2) by (simp add: task_ids_def)
qed

lemma scheduler_ok_loadable: "scheduler_ok w \<Longrightarrow> list_all (loadable (tw_next_task w)) (tw_tasks w)"
  unfolding list_all_iff
proof
  fix ir
  assume w: "scheduler_ok w" and m: "ir \<in> set (tw_tasks w)"
  note k = scheduler_ok_member [OF w m]
  then have "task_id_ok (fst ir) \<and> (\<exists>n. number_of_task (fst ir) = Some n \<and> n < tw_next_task w)" using w by (simp add: scheduler_ok_def)
  then show "loadable (tw_next_task w) ir" using k by (simp add: loadable_def snapshot_ok_def texts_ok_def Let_def)
qed

lemma loaded_checks:
  assumes "scheduler_ok w"
  shows "check_all (check_loaded (tw_tasks w)) (tw_tasks w) = Ok ()"
  unfolding check_all_Ok
proof
  fix kv
  assume m: "kv \<in> set (tw_tasks w)"
  let ?T = "tw_tasks w" and ?sn = "tr_snapshot (snd kv)"
  note sn = scheduler_ok_member(1) [OF assms m]
  have "bt_contains ?T d \<longleftrightarrow> d \<in> task_ids ?T" for d by (simp only: bt_contains_def task_ids_def in_dom_iff)
  then have "list_all (bt_contains ?T) (sn_dependencies ?sn)" using sn by (auto simp: snapshot_ok_def list_all_iff)
  then show "check_loaded ?T ?sn = Ok ()" using sn
    by (cases "sn_assigned_agent ?sn") (simp_all add: check_loaded_def snapshot_ok_def agent_consistent_def)
qed

lemma load_saved:
  assumes "scheduler_ok w"
  shows "load_task_checkpoint (en_root en) (checkpoint_of en w) = Ok (tw_tasks w, tw_next_task w)"
proof -
  have wf: "bt_wf (tw_tasks w)" and n: "0 < tw_next_task w" and c: "card (task_ids (tw_tasks w)) \<le> MAX_TASKS"
    using assms by (simp_all add: scheduler_ok_def table_sat_def)
  have len: "length (tw_tasks w) \<le> MAX_TASKS" using c distinct_card [OF bt_wf_distinct [OF wf]] by (simp add: task_ids_def)
  obtain m where "load_records (map snd (tw_tasks w)) = Ok (tw_tasks w, m)" "m < tw_next_task w"
    using load_records_from [of "[]" "tw_tasks w" "tw_next_task w" 0] wf n scheduler_ok_loadable [OF assms] by (auto simp: load_records_def)
  then show ?thesis using n len loaded_checks [OF assms]
    by (simp add: load_task_checkpoint_def checkpoint_of_def checkpoint_records_nil TASK_CHECKPOINT_VERSION_def)
qed

section \<open>Checks and recovery\<close>

lemma validate_snapshot_ok:
  assumes "snapshot_ok (task_ids T) i sn" "validate_worktree en (sn_worktree sn) = Ok ()"
  shows "validate_snapshot en T sn = Ok ()"
proof -
  have ev: "validate_texts (concat (map (\<lambda>e. [(''task evidence kind'', ev_kind e), (''task evidence actor'', ev_actor e),
      (''task evidence source'', ev_source e)]) (sn_evidence sn))) = Ok ()"
    using assms(1) by (auto simp: validate_texts_Ok list_all_iff snapshot_ok_def evidence_ok_def)
  have spec: "validate_spec en T (spec_of sn) = Ok ()"
    using assms by (simp add: validate_spec_def spec_of_def snapshot_ok_def texts_ok_def res_bind_Inr_iff validate_texts_Ok optional_text_ok check_dependencies_Ok)
  have short: "text_ok MAX_TASK_TEXT_BYTES v \<Longrightarrow> \<not> too_long v" for v by (simp add: text_ok_def too_long_def)
  have "\<not> (case sn_last_error sn of None \<Rightarrow> False | Some v \<Rightarrow> too_long v)" "\<not> (case sn_model sn of None \<Rightarrow> False | Some v \<Rightarrow> too_long v)"
      "\<not> (case sn_thinking sn of None \<Rightarrow> False | Some v \<Rightarrow> too_long v)"
    using assms(1) short by (auto simp: snapshot_ok_def texts_ok_def split: option.split)
  moreover have "\<not> reserved_id (sn_id sn)" "sn_id sn \<notin> set (sn_dependencies sn)" "distinct (sn_dependencies sn)" "sn_verification sn \<noteq> Inferred"
      "\<not> (sn_recovery_pending sn \<and> (sn_state sn \<noteq> Paused \<or> sn_assigned_agent sn = None))"
      "\<not> (active_state (sn_state sn) \<and> sn_assigned_agent sn = None)"
      "\<not> ((sn_state sn = Queued \<or> sn_state sn = Blocked) \<and> sn_assigned_agent sn \<noteq> None)"
      "\<not> (sn_state sn = Paused \<and> \<not> sn_recovery_pending sn \<and> sn_assigned_agent sn \<noteq> None)"
    using assms(1) unfolding snapshot_ok_def agent_consistent_def by (blast | auto)+
  ultimately show ?thesis using ev spec by (simp only: validate_snapshot_def if_False res_bind.simps simp_thms)
qed

lemma recover_ok: "snapshot_ok D i sn \<Longrightarrow> snapshot_ok D i (recover en sn)"
  using short_texts_ok by (auto simp: recover_def ok_defs)

lemma open_saved:
  assumes "scheduler_ok w" "\<And>i r. bt_get (tw_tasks w) i = Some r \<Longrightarrow> validate_worktree en (sn_worktree (tr_snapshot r)) = Ok ()"
  shows "open_tasks en (tw_tasks w) = Ok (bt_map (\<lambda>r. r\<lparr>tr_snapshot := recover en (tr_snapshot r)\<rparr>) (tw_tasks w))"
proof -
  have wf: "bt_wf (tw_tasks w)" using assms(1) by (simp add: scheduler_ok_def table_sat_def)
  have "validate_snapshot en (tw_tasks w) (tr_snapshot (snd kv)) = Ok ()" if "kv \<in> set (tw_tasks w)" for kv
    using that assms(2) [of "fst kv" "snd kv"] bt_get_iff_mem [OF wf] scheduler_ok_member(1) [OF assms(1) that]
    by (intro validate_snapshot_ok) simp_all
  then have "check_all (validate_snapshot en (tw_tasks w)) (tw_tasks w) = Ok ()" unfolding check_all_Ok by blast
  then show ?thesis by (simp add: open_tasks_def)
qed

lemma try_persist_keeps: "keeps (tab D S) (try_persist en)" "keeps (next_is n) (try_persist en)"
  using keepsD [OF tab_outside [OF outside_persist [of en]], of D S] keepsD [OF next_outside [OF outside_persist [of en]], of n]
  by (auto simp: keeps_def try_persist_def split: prod.split sum.split) (metis snd_conv)+

lemma update_tab:
  assumes "\<And>r. S i (tr_snapshot r) \<Longrightarrow> S i (tr_snapshot (f r))"
  shows "keeps (tab D S) (update_record i f)"
proof (rule keepsI)
  fix w :: "'a task_world"
  assume w: "tab D S w"
  show "tab D S (snd (update_record i f w))"
  proof (cases "bt_get (tw_tasks w) i")
    case (Some r)
    then have "holding D S (state_of (tw_tasks w)) i r w" "S i (tr_snapshot (f r))"
      using tab_base [OF w] table_satD [OF w [unfolded tab_def] Some] assms by (simp_all add: holding_def)
    then show ?thesis using leadsD [OF update_leads] base_tab by blast
  qed (use w in \<open>simp add: update_record_cases\<close>)
qed

lemma drop_error_ok: "snapshot_ok D i (tr_snapshot r) \<Longrightarrow> snapshot_ok D i (tr_snapshot (drop_error r))"
  by (auto simp: drop_error_def ok_defs)

lemma prune_ok: "snapshot_ok D i sn \<Longrightarrow> snapshot_ok D i (prune_evidence j sn)"
proof (cases "j < length (sn_evidence sn)")
  case True
  then show "snapshot_ok D i sn \<Longrightarrow> ?thesis" by (rule snapshot_ok_trimmed [OF trimmed_prune [OF trimmed_refl]])
next
  case False
  then have "remove_nth j (sn_evidence sn) = sn_evidence sn" by (simp add: remove_nth_def)
  then show "snapshot_ok D i sn \<Longrightarrow> ?thesis" by (auto simp: prune_evidence_def ok_defs)
qed

lemma reclaim_step_keeps: "keeps (ok_tab D) (reclaim_step en t i)" "keeps (next_is n) (reclaim_step en t i)"
  unfolding reclaim_step_def by (intro keeps_andthen update_tab next_update try_persist_keeps; simp add: prune_ok)+

text \<open>What every round keeps, the loop keeps.\<close>

lemma reclaim_keeps:
  fixes en :: "'b task_env"
  assumes "\<And>t i. keeps P (reclaim_step en t i)" "keeps P (persist_tasks en)"
  shows "keeps P (reclaim_evidence en)"
proof (rule keepsI)
  fix w :: "'b task_world"
  have "(\<And>t i. keeps P (reclaim_step en t i)) \<Longrightarrow> keeps P (persist_tasks en) \<Longrightarrow> P w \<Longrightarrow> P (snd (reclaim_evidence en w))"
  proof (induction en w rule: reclaim_evidence.induct)
    case (1 en w)
    show ?case
    proof (cases "oldest_duplicate_evidence [] (tw_tasks w)")
      case None
      then show ?thesis using keepsD [OF 1(3,4)] by (simp add: reclaim_evidence.simps [of en w])
    next
      case (Some ti)
      obtain t i where ti: "ti = (t, i)" by fastforce
      obtain res w1 where b: "reclaim_step en t i w = (res, w1)" by fastforce
      have w1: "P w1" using keepsD [OF 1(2) 1(4), of t i] b by simp
      show ?thesis
      proof (cases res)
        case (Inr written)
        then have "\<not> written \<Longrightarrow> P (snd (reclaim_evidence en w1))" using 1(1) [OF Some ti [symmetric] b [symmetric]] 1(2,3) w1 by simp
        then show ?thesis using Some ti b w1 Inr by (simp add: reclaim_evidence.simps [of en w])
      qed (use Some ti b w1 in \<open>simp add: reclaim_evidence.simps [of en w]\<close>)
    qed
  qed
  then show "P w \<Longrightarrow> P (snd (reclaim_evidence en w))" using assms by blast
qed

lemma recovery_keeps: "keeps scheduler_ok (persist_recovery_checkpoint en ids)"
  unfolding persist_recovery_checkpoint_def
  by (rule scheduler_ok_kept; intro keeps_andthen keeps_if keeps_each keeps_pure try_persist_keeps reclaim_keeps reclaim_step_keeps
      update_tab drop_error_ok next_update tab_outside next_outside outside_persist)

lemma task_ids_map: "task_ids (bt_map f T) = task_ids T"
  by (simp add: task_ids_def bt_map_def comp_def)

lemma recovered_ok:
  assumes "scheduler_ok w"
  shows "scheduler_ok \<lparr>tw_tasks = bt_map (\<lambda>r. r\<lparr>tr_snapshot := recover en (tr_snapshot r)\<rparr>) (tw_tasks w), tw_next_task = tw_next_task w,
    tw_agent_event_cursor = 0, tw_out = out\<rparr>"
proof -
  let ?T = "tw_tasks w" and ?f = "\<lambda>r. r\<lparr>tr_snapshot := recover en (tr_snapshot r)\<rparr>"
  have "table_ok (task_ids ?T) (bt_map ?f ?T)"
    using assms table_satD [of "task_ids ?T" _ ?T] task_ids_map [of ?f ?T] by (auto simp: scheduler_ok_def table_sat_def recover_ok task_ids_def)
  then show ?thesis using assms by (simp add: scheduler_ok_def task_ids_map)
qed

section \<open>Reached states\<close>

datatype task_command =
    DoRefresh
  | DoCreate task_spec
  | DoSubmit task_id string string string bool json
  | DoPause task_id
  | DoResume task_id
  | DoCancel task_id
  | DoRetry task_id
  | DoReassign task_id string "string option" "string option"
  | DoOverride task_id

fun perform :: "'b task_env \<Rightarrow> task_command \<Rightarrow> ('b, unit) task_op" where
  "perform en DoRefresh = refresh en"
| "perform en (DoCreate sp) = andthen (create en sp) (\<lambda>_. ret ())"
| "perform en (DoSubmit i kind actor source passed details) = submit_evidence en i kind actor source passed details"
| "perform en (DoPause i) = pause en i"
| "perform en (DoResume i) = resume en i"
| "perform en (DoCancel i) = cancel en i"
| "perform en (DoRetry i) = retry en i"
| "perform en (DoReassign i role model thinking) = reassign en i role model thinking"
| "perform en (DoOverride i) = override_blocked en i"

definition no_tasks :: "'b \<Rightarrow> 'b task_world" where
  "no_tasks out = \<lparr>tw_tasks = [], tw_next_task = 1, tw_agent_event_cursor = 0, tw_out = out\<rparr>"

text \<open>
  Any command at any time, whether it succeeds or fails, with any clock, files and answers of the
  agents, and restarts from the file. Beside the state in memory stands the state the file holds, if there is one. A
  command whose writes all fail leaves the file as it was. A write in the middle of a command saves what the same command
  leaves in memory when that write is the first to fail, since every operation stops there: the
  file then holds the state of another run of the command, in another environment.
\<close>

inductive life :: "'b task_world \<Rightarrow> 'b task_world option \<Rightarrow> bool" where
  fresh: "life (no_tasks out) None"
| unsaved: "life w f \<Longrightarrow> backend_ok en \<Longrightarrow> life (snd (perform en c w)) f"
| saved: "life w f \<Longrightarrow> backend_ok en \<Longrightarrow> backend_ok en' \<Longrightarrow> life (snd (perform en c w)) (Some (snd (perform en' c w)))"
| no_file: "life w None \<Longrightarrow> life (no_tasks out) None"
| restart: "life w (Some v) \<Longrightarrow> start_scheduler en (checkpoint_of en v) out = (Ok w', out') \<Longrightarrow> f = Some v \<or> f = Some w' \<Longrightarrow> life w' f"

definition reached :: "'b task_world \<Rightarrow> bool" where
  "reached w \<longleftrightarrow> (\<exists>f. life w f)"

lemma reachedI: "reached (no_tasks out)" "reached w \<Longrightarrow> backend_ok en \<Longrightarrow> reached (snd (perform en c w))"
  by (auto simp: reached_def intro: life.intros)

lemma perform_keeps: "backend_ok en \<Longrightarrow> keeps scheduler_ok (perform en c)"
proof (cases c)
  case (DoCreate sp)
  then show "backend_ok en \<Longrightarrow> ?thesis" by (simp add: keeps_andthen create_keeps keeps_pure)
qed (auto intro!: scheduler_ok_kept ok.refresh_keeps ok.pause_keeps ok.resume_keeps ok.cancel_keeps ok.retry_keeps ok.reassign_keeps ok.override_keeps
    ok.submit_evidence_keeps next_refresh next_commands)

lemma start_ok:
  assumes "scheduler_ok w" "start_scheduler en (checkpoint_of en w) out = (Ok w', out')"
  shows "scheduler_ok w'"
proof -
  let ?T = "bt_map (\<lambda>r. r\<lparr>tr_snapshot := recover en (tr_snapshot r)\<rparr>) (tw_tasks w)"
  let ?w = "\<lparr>tw_tasks = ?T, tw_next_task = tw_next_task w, tw_agent_event_cursor = 0, tw_out = out\<rparr>"
  have "open_tasks en (tw_tasks w) = Ok ?T"
    using assms(2) load_saved [OF assms(1), of en]
    by (cases "check_all (validate_snapshot en (tw_tasks w)) (tw_tasks w)") (simp_all add: start_scheduler_def open_tasks_def)
  then have s: "(if recovered_ids (tw_tasks w) = [] then (Ok ?w, out)
      else case persist_recovery_checkpoint en (recovered_ids (tw_tasks w)) ?w of
        (Inl e, w') \<Rightarrow> (Err e, tw_out w') | (Inr _, w') \<Rightarrow> (Ok w', tw_out w')) = (Ok w', out')"
    using assms(2) load_saved [OF assms(1), of en] by (simp add: start_scheduler_def Let_def)
  have ok: "scheduler_ok ?w" by (rule recovered_ok [OF assms(1)])
  have saved: "scheduler_ok (snd (persist_recovery_checkpoint en (recovered_ids (tw_tasks w)) ?w))"
    by (rule keepsD [OF recovery_keeps ok])
  show ?thesis
    using s ok saved by (cases "persist_recovery_checkpoint en (recovered_ids (tw_tasks w)) ?w") (auto split: if_splits sum.splits)
qed

lemma no_tasks_ok: "scheduler_ok (no_tasks out)"
  by (simp add: no_tasks_def scheduler_ok_def task_ids_def table_sat_def u64_max_def)

lemma life_ok: "life w f \<Longrightarrow> scheduler_ok w \<and> pred_option scheduler_ok f"
proof (induction rule: life.induct)
  case (restart w v en out w' out' f)
  then show ?case using start_ok [of v en out w' out'] by auto
qed (auto simp: no_tasks_ok intro: keepsD [OF perform_keeps])

lemma reached_ok: "reached w \<Longrightarrow> scheduler_ok w"
  using life_ok by (auto simp: reached_def)

end
