(* ===== verification/Task_Blocking.thy ===== *)
theory Task_Blocking
  imports Task_Keeps
begin

text \<open>
  The loop that blocks the tasks behind a failed one reaches exactly the tasks that can no longer
  run, whatever the order of the table and however long the chains of dependencies.
\<close>

section \<open>What a round changes\<close>

text \<open>The dependencies of a task and whether its blocking was overridden.\<close>

definition links :: "task_table \<Rightarrow> task_id \<Rightarrow> (task_id list \<times> bool) option" where
  "links T u = map_option (\<lambda>r. (sn_dependencies (tr_snapshot r), sn_blocked_override (tr_snapshot r))) (bt_get T u)"

lemma must_block_iff:
  "must_block T u \<longleftrightarrow> state_of T u = Some Queued \<and> (\<exists>ds. links T u = Some (ds, False) \<and> (\<exists>d \<in> set ds. stuck T d))"
  by (auto simp: must_block_def state_of_def links_def list_ex_iff split: option.split)

lemma replaced_links:
  assumes "replaced i sn T T'" "bt_get T i = Some r" "sn_dependencies sn = sn_dependencies (tr_snapshot r)"
    "sn_blocked_override sn = sn_blocked_override (tr_snapshot r)"
  shows "links T' u = links T u"
proof (cases "bt_get T u")
  case None
  then show ?thesis using replacedD(1) [OF assms(1) None] by (simp add: links_def)
next
  case (Some q)
  obtain x where x: "bt_get T' u = Some (set_snapshot x q)" "trimmed x (if u = i then sn else tr_snapshot q)"
    using replacedD(2) [OF assms(1) Some] by blast
  then have c: "core x = core (if u = i then sn else tr_snapshot q)" by (simp add: trimmed_def)
  have "sn_dependencies x = sn_dependencies (tr_snapshot q)" "sn_blocked_override x = sn_blocked_override (tr_snapshot q)"
    using core_eq(4,5) [OF c] assms(2-4) Some by (auto split: if_splits)
  then show ?thesis using x(1) Some by (simp add: links_def set_snapshot_def)
qed

lemma block_task_links:
  assumes "block_task en t w = (res, w')"
  shows "links (tw_tasks w') u = links (tw_tasks w) u"
proof (cases "bt_get (tw_tasks w) t")
  case None
  then show ?thesis using assms by (auto simp: block_task_def andthen_def the_record_def)
next
  case (Some q)
  have c: "commit_snapshot en t (blocked en (tr_snapshot q)) False (ret ()) w = (res, w')"
    using assms Some by (simp add: block_task_def andthen_def the_record_def)
  show ?thesis
  proof (cases "is_ok res")
    case True
    then have "replaced t (blocked en (tr_snapshot q)) (tw_tasks w) (tw_tasks w')"
      using commit_effect [OF outside_basic(1) _ c] Some by simp
    then show ?thesis using Some by (rule replaced_links) (simp_all add: blocked_def)
  next
    case False
    then show ?thesis using commit_effect [OF outside_basic(1) _ c] Some by simp
  qed
qed

lemma block_all_links:
  "each (block_task en) ts w = (res, w') \<Longrightarrow> links (tw_tasks w') u = links (tw_tasks w) u"
proof (induction ts arbitrary: w)
  case (Cons t ts)
  obtain res1 w1 where b: "block_task en t w = (res1, w1)" by fastforce
  show ?case using Cons.IH [of w1] Cons.prems block_task_links [OF b] b by (cases res1) (simp_all add: andthen_def)
qed (simp add: ret_def)

section \<open>Tasks that can no longer run\<close>

inductive doomed :: "task_table \<Rightarrow> task_id \<Rightarrow> bool" for T where
  direct: "state_of T u = Some Queued \<Longrightarrow> links T u = Some (ds, False) \<Longrightarrow> d \<in> set ds \<Longrightarrow> stuck T d \<Longrightarrow> doomed T u"
| behind: "state_of T u = Some Queued \<Longrightarrow> links T u = Some (ds, False) \<Longrightarrow> d \<in> set ds \<Longrightarrow> doomed T d \<Longrightarrow> doomed T u"

lemma none_doomed: "(\<And>u. \<not> must_block T u) \<Longrightarrow> \<not> doomed T u"
proof
  assume none: "\<And>u. \<not> must_block T u" and "doomed T u"
  from this(2) show False
  proof (induction rule: doomed.induct)
    case (direct u ds d)
    then show ?case using none [of u] by (auto simp: must_block_iff)
  qed
qed

text \<open>One round blocks a layer of the tasks that can no longer run and leaves the rest doomed.\<close>

lemma doomed_round:
  assumes st: "\<And>u. state_of T1 u = (if must_block T u then Some Blocked else state_of T u)" and ln: "\<And>u. links T1 u = links T u"
  shows "doomed T u \<longleftrightarrow> must_block T u \<or> doomed T1 u"
proof
  assume "doomed T u"
  then show "must_block T u \<or> doomed T1 u"
  proof (induction rule: doomed.induct)
    case (direct u ds d)
    then show ?case by (auto simp: must_block_iff)
  next
    case (behind u ds d)
    show ?case
    proof (cases "must_block T u")
      case False
      then have q: "state_of T1 u = Some Queued" "links T1 u = Some (ds, False)" using behind.hyps(1,2) st ln by simp_all
      from behind.IH show ?thesis
      proof
        assume "must_block T d"
        then have "stuck T1 d" using st by (simp add: stuck_def)
        then show ?thesis using doomed.direct [OF q behind.hyps(3)] by blast
      next
        assume "doomed T1 d"
        then show ?thesis using doomed.behind [OF q behind.hyps(3)] by blast
      qed
    qed blast
  qed
next
  have b: "doomed T v" if "must_block T v" for v using that by (auto simp: must_block_iff intro: doomed.direct)
  have "doomed T u" if "doomed T1 u"
    using that
  proof (induction rule: doomed.induct)
    case (direct u ds d)
    have q: "state_of T u = Some Queued" "links T u = Some (ds, False)" using direct(1,2) st ln by (auto split: if_splits)
    show ?case
    proof (cases "must_block T d")
      case True
      then show ?thesis using doomed.behind [OF q direct(3) b] by blast
    next
      case False
      then have "stuck T d" using direct(4) st by (simp add: stuck_def)
      then show ?thesis by (rule doomed.direct [OF q direct(3)])
    qed
  next
    case (behind u ds d)
    have q: "state_of T u = Some Queued" "links T u = Some (ds, False)" using behind(1,2) st ln by (auto split: if_splits)
    show ?case by (rule doomed.behind [OF q behind(3) behind.IH])
  qed
  then show "must_block T u \<or> doomed T1 u \<Longrightarrow> doomed T u" using b by blast
qed

lemma in_tasks_to_block: "u \<in> set (tasks_to_block T) \<longleftrightarrow> must_block T u"
proof -
  have "must_block T u \<Longrightarrow> u \<in> set (map fst T)"
    by (simp only: in_dom_iff) (simp add: must_block_def split: option.splits)
  then show ?thesis by (auto simp: tasks_to_block_def)
qed

lemma propagate_exact:
  "propagate_blocked en w = (Ok (), w') \<Longrightarrow>
   (\<forall>u. state_of (tw_tasks w') u = (if doomed (tw_tasks w) u then Some Blocked else state_of (tw_tasks w) u)) \<and>
   (\<forall>u. \<not> must_block (tw_tasks w') u)"
proof (induction en w rule: propagate_blocked.induct)
  case (1 en w)
  let ?T = "tw_tasks w"
  show ?case
  proof (cases "tasks_to_block ?T = []")
    case True
    then have n: "\<not> must_block ?T u" for u using in_tasks_to_block [of u ?T] by simp
    have "w' = w" using 1(2) True by (simp add: propagate_blocked.simps [of en w])
    then show ?thesis using n none_doomed [OF n] by simp
  next
    case False
    obtain res w1 where b: "each (block_task en) (tasks_to_block ?T) w = (res, w1)" by fastforce
    have res: "res = Ok ()" and rec: "propagate_blocked en w1 = (Ok (), w')"
      using 1(2) False b by (auto simp: propagate_blocked.simps [of en w] split: sum.splits)
    have st: "state_of (tw_tasks w1) u = (if must_block ?T u then Some Blocked else state_of ?T u)" for u
      using block_all_state [of en "tasks_to_block ?T" w w1 u] b res by (simp add: in_tasks_to_block)
    have ln: "links (tw_tasks w1) u = links ?T u" for u by (rule block_all_links [OF b])
    have "(\<forall>u. state_of (tw_tasks w') u = (if doomed (tw_tasks w1) u then Some Blocked else state_of (tw_tasks w1) u)) \<and>
        (\<forall>u. \<not> must_block (tw_tasks w') u)"
      using 1(1) [OF False b [symmetric]] res rec by simp
    then show ?thesis using doomed_round [OF st ln] st by auto
  qed
qed

section \<open>A round that is cut short\<close>

text \<open>Whether or not the rounds succeed, they only turn doomed tasks into blocked ones.\<close>

lemma block_all_partial:
  "each (block_task en) ts w = (res, w') \<Longrightarrow>
   state_of (tw_tasks w') u = state_of (tw_tasks w) u \<or> u \<in> set ts \<and> state_of (tw_tasks w') u = Some Blocked"
proof (induction ts arbitrary: w)
  case (Cons t ts)
  obtain res1 w1 where b: "block_task en t w = (res1, w1)" by fastforce
  note st = block_task_state [OF b, rule_format, of u]
  show ?case
  proof (cases res1)
    case (Inl e)
    then show ?thesis using Cons.prems b st by (simp add: andthen_def)
  next
    case (Inr x)
    then have "each (block_task en) ts w1 = (res, w')" using Cons.prems b by (simp add: andthen_def)
    from Cons.IH [OF this] show ?thesis using st by (auto split: if_splits)
  qed
qed (simp add: ret_def)

lemma must_block_doomed: "must_block T u \<Longrightarrow> doomed T u"
  by (auto simp: must_block_iff intro: doomed.direct)

lemma propagate_partial:
  "propagate_blocked en w = (res, w') \<Longrightarrow>
   state_of (tw_tasks w') u = state_of (tw_tasks w) u \<or> doomed (tw_tasks w) u \<and> state_of (tw_tasks w') u = Some Blocked"
proof (induction en w rule: propagate_blocked.induct)
  case (1 en w)
  let ?T = "tw_tasks w"
  show ?case
  proof (cases "tasks_to_block ?T = []")
    case True
    then show ?thesis using 1(2) by (simp add: propagate_blocked.simps [of en w])
  next
    case False
    obtain res1 w1 where b: "each (block_task en) (tasks_to_block ?T) w = (res1, w1)" by fastforce
    show ?thesis
    proof (cases res1)
      case (Inl e)
      then have "w' = w1" using 1(2) False b by (simp add: propagate_blocked.simps [of en w])
      then show ?thesis using block_all_partial [OF b, of u] must_block_doomed by (auto simp: in_tasks_to_block)
    next
      case (Inr x)
      then have rec: "propagate_blocked en w1 = (res, w')" using 1(2) False b by (simp add: propagate_blocked.simps [of en w])
      have st: "state_of (tw_tasks w1) v = (if must_block ?T v then Some Blocked else state_of ?T v)" for v
        using block_all_state [of en "tasks_to_block ?T" w w1 v] b Inr by (simp add: in_tasks_to_block)
      have ln: "links (tw_tasks w1) v = links ?T v" for v by (rule block_all_links [OF b])
      from 1(1) [OF False b [symmetric] Inr rec] show ?thesis
        using doomed_round [of "tw_tasks w1" ?T u, OF st ln] st [of u] must_block_doomed [of ?T u] by auto
    qed
  qed
qed

section \<open>Room for the change\<close>

text \<open>The table in which some tasks were blocked and nothing else changed.\<close>

definition with_blocked :: "'b task_env \<Rightarrow> task_id set \<Rightarrow> task_table \<Rightarrow> task_table" where
  "with_blocked en D T = map (\<lambda>(i, r). (i, if i \<in> D then set_snapshot (blocked en (tr_snapshot r)) r else r)) T"

text \<open>Room for the tables the loop passes through: those in which some of the doomed tasks are blocked.\<close>

definition room_to_block :: "'b task_env \<Rightarrow> 'b task_world \<Rightarrow> bool" where
  "room_to_block en w \<longleftrightarrow>
     (\<forall>D. (\<forall>u \<in> D. doomed (tw_tasks w) u) \<longrightarrow>
        en_size en (map snd (with_blocked en D (tw_tasks w))) (tw_next_task w) + TASK_CHECKPOINT_MUTATION_RESERVE \<le> MAX_TASK_CHECKPOINT_BYTES)"

lemma with_blocked_facts:
  "with_blocked en {} T = T" "map fst (with_blocked en D T) = map fst T" "bt_wf (with_blocked en D T) = bt_wf T"
  by (auto simp: with_blocked_def bt_wf_def comp_def case_prod_beta intro: map_idI)

lemma get_with_blocked:
  "bt_get (with_blocked en D T) t = map_option (\<lambda>r. if t \<in> D then set_snapshot (blocked en (tr_snapshot r)) r else r) (bt_get T t)"
  by (induction T) (auto simp: with_blocked_def bt_get_def)

lemma blocked_again: "set_snapshot (blocked en (blocked en sn)) (set_snapshot x r) = set_snapshot (blocked en sn) r"
  by (simp add: set_snapshot_def blocked_def)

text \<open>Blocking one more task, in the table and in the checkpoint that is tried before.\<close>

lemma block_one_more:
  assumes "bt_wf T" "bt_get (with_blocked en D T) t = Some q"
  shows "checkpoint_records [(t, blocked en (tr_snapshot q))] (with_blocked en D T) = map snd (with_blocked en (insert t D) T)"
    "bt_adjust t (set_snapshot (blocked en (tr_snapshot q))) (with_blocked en D T) = with_blocked en (insert t D) T"
proof -
  obtain r where r: "bt_get T t = Some r" "q = (if t \<in> D then set_snapshot (blocked en (tr_snapshot r)) r else r)"
    using assms(2) by (auto simp: get_with_blocked)
  have same: "x = r" if "(t, x) \<in> set T" for x using that r(1) bt_get_iff_mem [OF assms(1), of t x] by simp
  have q: "set_snapshot (blocked en (tr_snapshot q)) q = set_snapshot (blocked en (tr_snapshot r)) r"
    using r(2) blocked_again by (simp add: set_snapshot_def blocked_def)
  show "checkpoint_records [(t, blocked en (tr_snapshot q))] (with_blocked en D T) = map snd (with_blocked en (insert t D) T)"
    using same q r(2) by (auto simp: checkpoint_records_def with_blocked_def bt_get_def)
  show "bt_adjust t (set_snapshot (blocked en (tr_snapshot q))) (with_blocked en D T) = with_blocked en (insert t D) T"
    using same q r(2) assms(1) by (subst adjust_as_map) (auto simp: with_blocked_facts, auto simp: with_blocked_def)
qed

lemma fits_within:
  assumes "en_size en (checkpoint_records reps (tw_tasks w)) (tw_next_task w) + TASK_CHECKPOINT_MUTATION_RESERVE \<le> MAX_TASK_CHECKPOINT_BYTES"
  shows "replacements_fit en w reps"
  using assms by (simp add: replacements_fit_def mutation_capacity_def ensure_checkpoint_size_def nat_saturating_add_def not_less min.coboundedI2)

lemma block_with_room:
  assumes "bt_wf T" "tw_tasks w = with_blocked en D T" "bt_get (tw_tasks w) t \<noteq> None"
    "en_size en (map snd (with_blocked en (insert t D) T)) (tw_next_task w) + TASK_CHECKPOINT_MUTATION_RESERVE \<le> MAX_TASK_CHECKPOINT_BYTES"
  shows "block_task en t w = (Ok (), w\<lparr>tw_tasks := with_blocked en (insert t D) T\<rparr>)"
proof -
  obtain q where q: "bt_get (tw_tasks w) t = Some q" using assms(3) by auto
  then have q': "bt_get (with_blocked en D T) t = Some q" using assms(2) by simp
  note one = block_one_more [OF assms(1) q']
  have "replacements_fit en w [(t, blocked en (tr_snapshot q))]" using assms(2,4) one(1) by (intro fits_within) simp
  then show ?thesis using q assms(2) one(2)
    by (simp add: block_task_def commit_snapshot_def andthen_def the_record_def get_world_def lift_res_def ret_def
        apply_replacements_def update_record_def fit_snapshot_checkpoint_def)
qed

lemma block_all_with_room:
  assumes "bt_wf T" "tw_tasks w = with_blocked en D T" "tw_next_task w = n" "\<And>t. t \<in> set ts \<Longrightarrow> bt_get T t \<noteq> None"
    and "\<And>E. E \<subseteq> D \<union> set ts \<Longrightarrow> en_size en (map snd (with_blocked en E T)) n + TASK_CHECKPOINT_MUTATION_RESERVE \<le> MAX_TASK_CHECKPOINT_BYTES"
  shows "each (block_task en) ts w = (Ok (), w\<lparr>tw_tasks := with_blocked en (D \<union> set ts) T\<rparr>)"
  using assms(2-)
proof (induction ts arbitrary: w D)
  case Nil
  then have "w\<lparr>tw_tasks := with_blocked en D T\<rparr> = w" by simp
  then show ?case by (simp add: ret_def)
next
  case (Cons t ts)
  let ?w = "w\<lparr>tw_tasks := with_blocked en (insert t D) T\<rparr>"
  have b: "block_task en t w = (Ok (), ?w)"
    using Cons.prems(4) [of "insert t D"] Cons.prems(1-3)
    by (intro block_with_room [OF assms(1)]) (auto simp: get_with_blocked)
  have "each (block_task en) ts ?w = (Ok (), ?w\<lparr>tw_tasks := with_blocked en (insert t D \<union> set ts) T\<rparr>)"
    by (rule Cons.IH) (use Cons.prems in \<open>auto simp: insert_commute\<close>)
  then show ?case using b by (simp add: andthen_def)
qed

text \<open>Doomed in a table in which some doomed tasks were blocked is doomed before.\<close>

lemma with_blocked_views:
  assumes "\<forall>u \<in> D. doomed T u"
  shows "state_of (with_blocked en D T) u = (if u \<in> D then Some Blocked else state_of T u)"
    and "links (with_blocked en D T) u = links T u"
proof -
  have "state_of T u \<noteq> None" if "u \<in> D" using assms that by (auto elim: doomed.cases)
  then show "state_of (with_blocked en D T) u = (if u \<in> D then Some Blocked else state_of T u)"
    by (cases "bt_get T u") (auto simp: state_of_def get_with_blocked set_snapshot_def blocked_def)
  show "links (with_blocked en D T) u = links T u"
    by (cases "bt_get T u") (simp_all add: links_def get_with_blocked set_snapshot_def blocked_def)
qed

lemma doomed_with_blocked:
  assumes "\<forall>u \<in> D. doomed T u" "doomed (with_blocked en D T) u"
  shows "doomed T u"
  using assms(2)
proof (induction rule: doomed.induct)
  case (direct u ds d)
  have q: "state_of T u = Some Queued" "links T u = Some (ds, False)"
    using direct(1,2) with_blocked_views [OF assms(1), of en u] by (auto split: if_splits)
  show ?case
  proof (cases "d \<in> D")
    case True
    then show ?thesis using doomed.behind [OF q direct(3)] assms(1) by blast
  next
    case False
    then show ?thesis using doomed.direct [OF q direct(3)] direct(4) with_blocked_views(1) [OF assms(1), of en d] by (simp add: stuck_def)
  qed
next
  case (behind u ds d)
  have "state_of T u = Some Queued" "links T u = Some (ds, False)"
    using behind(1,2) with_blocked_views [OF assms(1), of en u] by (auto split: if_splits)
  then show ?case using doomed.behind behind(3,5) by blast
qed

lemma propagate_with_room:
  "bt_wf T \<Longrightarrow> room_to_block en (w0\<lparr>tw_tasks := T\<rparr>) \<Longrightarrow> tw_tasks w = with_blocked en D T \<Longrightarrow> tw_next_task w = tw_next_task w0 \<Longrightarrow>
   \<forall>u \<in> D. doomed T u \<Longrightarrow> fst (propagate_blocked en w) = Ok ()"
proof (induction en w arbitrary: D rule: propagate_blocked.induct)
  case (1 en w)
  let ?ts = "tasks_to_block (tw_tasks w)"
  show ?case
  proof (cases "?ts = []")
    case False
    have ts: "doomed T t" if "t \<in> set ?ts" for t
      using that in_tasks_to_block must_block_doomed doomed_with_blocked [OF 1(6)] 1(4) by metis
    have "each (block_task en) ?ts w = (Ok (), w\<lparr>tw_tasks := with_blocked en (D \<union> set ?ts) T\<rparr>)"
    proof (rule block_all_with_room [OF 1(2,4)])
      show "tw_next_task w = tw_next_task w0" by (rule 1(5))
      show "bt_get T t \<noteq> None" if "t \<in> set ?ts" for t using ts [OF that] state_of_None [of T t] by (auto elim: doomed.cases)
      show "en_size en (map snd (with_blocked en E T)) (tw_next_task w0) + TASK_CHECKPOINT_MUTATION_RESERVE \<le> MAX_TASK_CHECKPOINT_BYTES"
        if "E \<subseteq> D \<union> set ?ts" for E
      proof -
        have "\<forall>u \<in> E. doomed T u" using that ts 1(6) by blast
        then show ?thesis using 1(3) by (simp add: room_to_block_def)
      qed
    qed
    note b = this
    have "fst (propagate_blocked en (w\<lparr>tw_tasks := with_blocked en (D \<union> set ?ts) T\<rparr>)) = Ok ()"
      by (rule 1(1) [OF False b [symmetric] refl 1(2,3), of "D \<union> set ?ts"]) (use 1(5,6) ts in auto)
    then show ?thesis using False b by (simp add: propagate_blocked.simps [of en w])
  qed (simp add: propagate_blocked.simps [of en w])
qed

text \<open>
  Claim C7. The blocking loop always ends. Call a queued task doomed when it is not overridden and waits
  for a task that failed, was cancelled or was blocked, directly or through other doomed tasks. Even when
  the loop fails for want of room, it has only turned doomed tasks into blocked ones; and when the
  checkpoint has room for every table in which some of the doomed tasks are blocked, it succeeds and has
  blocked exactly the doomed tasks.
\<close>

theorem propagate_blocks_the_doomed:
  assumes "propagate_blocked en w = (res, w')" "bt_wf (tw_tasks w)"
  shows "(state_of (tw_tasks w') u = state_of (tw_tasks w) u \<or> doomed (tw_tasks w) u \<and> state_of (tw_tasks w') u = Some Blocked) \<and>
    (room_to_block en w \<longrightarrow>
       res = Ok () \<and> state_of (tw_tasks w') u = (if doomed (tw_tasks w) u then Some Blocked else state_of (tw_tasks w) u))"
proof (intro conjI impI)
  show "state_of (tw_tasks w') u = state_of (tw_tasks w) u \<or> doomed (tw_tasks w) u \<and> state_of (tw_tasks w') u = Some Blocked"
    by (rule propagate_partial [OF assms(1)])
  assume room: "room_to_block en w"
  show res: "res = Ok ()"
    using propagate_with_room [OF assms(2), of en w w "{}"] room assms(1) by (simp add: with_blocked_facts)
  show "state_of (tw_tasks w') u = (if doomed (tw_tasks w) u then Some Blocked else state_of (tw_tasks w) u)"
    using propagate_exact assms(1) res by blast
qed

end
