(* ===== verification/Task_Promises.thy ===== *)
theory Task_Promises
  imports Task_Reload Task_Blocking
begin

text \<open>
  What the task scheduler promises: well-formed tasks in every state it reaches, a checkpoint that can
  always be opened again, blocking of exactly the tasks that cannot run, a bound on automatic
  attempts, and finished tasks that stay finished.
\<close>

section \<open>Attempts\<close>

definition within_retries :: "task_id \<Rightarrow> task_snapshot \<Rightarrow> bool" where
  "within_retries x sn \<longleftrightarrow> sn_attempt sn \<le> max_retries (sn_retry sn) + (if sn_state sn = Queued then 0 else 1)"

lemma add_evidence_retries [simp]:
  "sn_attempt (add_evidence en evs sn) = sn_attempt sn" "sn_retry (add_evidence en evs sn) = sn_retry sn"
  "sn_state (add_evidence en evs sn) = sn_state sn"
proof -
  have "sn_attempt (add_evidence en evs sn) = sn_attempt sn \<and> sn_retry (add_evidence en evs sn) = sn_retry sn \<and>
      sn_state (add_evidence en evs sn) = sn_state sn"
    by (induction evs arbitrary: sn) (simp_all add: add_evidence_def push_snapshot_evidence_def Let_def)
  then show "sn_attempt (add_evidence en evs sn) = sn_attempt sn" "sn_retry (add_evidence en evs sn) = sn_retry sn"
    "sn_state (add_evidence en evs sn) = sn_state sn" by simp_all
qed

lemma push_retry [simp]: "sn_retry (push_snapshot_evidence now e sn) = sn_retry sn"
  by (simp add: push_snapshot_evidence_def Let_def)

lemma trimmed_core: "trimmed x sn \<Longrightarrow> core x = core sn"
  by (simp add: trimmed_def)

lemmas snapshot_changes =
  started_def running_def settled_def observed_def agent_failed_def over_budget_def verified_def not_verified_def blocked_def Let_def

interpretation attempts: refresh_contract within_retries en for en :: "'b task_env"
proof unfold_locales
  show "within_retries i x" if "trimmed x sn" "within_retries i sn" for i x sn
    using that core_eq(1,8,9) [OF trimmed_core [OF that(1)]] by (simp add: within_retries_def)
  show "within_retries x (agent_failed en ag sn)" if "within_retries x sn" for x sn and en :: "'b task_env" and ag
    using that by (simp add: within_retries_def agent_failed_def split: if_splits)
qed (auto simp: within_retries_def snapshot_changes nat_saturating_add_def will_retry_def)

section \<open>Finished tasks\<close>

definition stays_finished :: "task_id \<Rightarrow> task_state \<Rightarrow> task_id \<Rightarrow> task_snapshot \<Rightarrow> bool" where
  "stays_finished i s x sn \<longleftrightarrow> (x = i \<and> task_terminal s \<longrightarrow> sn_state sn = s)"

interpretation finished: refresh_contract "stays_finished i s" en for i s and en :: "'b task_env"
proof unfold_locales
  show "stays_finished i s x y" if "trimmed y sn" "stays_finished i s x sn" for x y sn
    using that core_eq(1) [OF trimmed_core [OF that(1)]] by (simp add: stays_finished_def)
qed (auto simp: stays_finished_def snapshot_changes)

section \<open>Claims\<close>

text \<open>
  Claim C8. In every state a scheduler reaches, by any commands, failures and restarts: each task is filed
  under its own identifier, has an agent exactly as its state requires, depends on other tasks of the
  table and on none twice, and holds at most 128 items of evidence; there are at most 128 tasks.
\<close>

theorem reached_tasks_well_formed:
  assumes "reached w" "bt_get (tw_tasks w) i = Some r" "sn = tr_snapshot r"
  shows "sn_id sn = i \<and>
    (sn_state sn \<in> {Ready, Running, Waiting, Verifying} \<longrightarrow> sn_assigned_agent sn \<noteq> None) \<and>
    (sn_state sn \<in> {Queued, Blocked} \<longrightarrow> sn_assigned_agent sn = None) \<and>
    (sn_state sn = Paused \<longrightarrow> (sn_assigned_agent sn \<noteq> None \<longleftrightarrow> sn_recovery_pending sn)) \<and>
    distinct (sn_dependencies sn) \<and> (\<forall>d \<in> set (sn_dependencies sn). d \<noteq> i \<and> bt_get (tw_tasks w) d \<noteq> None) \<and>
    length (sn_evidence sn) \<le> 128 \<and> length (tw_tasks w) \<le> 128"
proof -
  have w: "scheduler_ok w" by (rule reached_ok [OF assms(1)])
  then have t: "table_ok (task_ids (tw_tasks w)) (tw_tasks w)" and c: "card (task_ids (tw_tasks w)) \<le> MAX_TASKS" by (simp_all add: scheduler_ok_def)
  have ok: "snapshot_ok (task_ids (tw_tasks w)) i sn" using table_satD [OF t assms(2)] assms(3) by simp
  have "bt_get (tw_tasks w) d \<noteq> None" if "d \<in> set (sn_dependencies sn)" for d
    using ok that in_dom_iff [of d "tw_tasks w"] by (auto simp: snapshot_ok_def task_ids_def)
  moreover have "length (tw_tasks w) \<le> 128"
    using c distinct_card [OF bt_wf_distinct, of "tw_tasks w"] t by (simp add: table_sat_def task_ids_def MAX_TASKS_def)
  moreover have "agent_consistent sn" "length (sn_evidence sn) \<le> 128" "distinct (sn_dependencies sn)" "i \<notin> set (sn_dependencies sn)" "sn_id sn = i"
    using ok by (simp_all add: snapshot_ok_def MAX_TASK_EVIDENCE_def)
  ultimately show ?thesis by (auto simp: agent_consistent_def active_state_def)
qed

text \<open>
  Claim C6. What the file of a scheduler holds can be opened again, whatever commands, failing
  writes and restarts led to it, as long as the agents gave well-formed identifiers and event kinds:
  it loads as the saved tasks with the saved next number, and when the working trees of these tasks pass
  their check at the next start the tasks open unchanged, but for those with a live agent, which are
  paused for recovery. Both conditions are needed: an event kind with a zero byte and a working tree that
  is gone are the two ways in which a saved table is refused (\<open>event_kind_spoils_checkpoint\<close>,
  \<open>missing_worktree_refuses_table\<close>).
\<close>

theorem saved_tasks_open_again:
  assumes "life w (Some v)" "\<forall>i r. bt_get (tw_tasks v) i = Some r \<longrightarrow> validate_worktree en (sn_worktree (tr_snapshot r)) = Ok ()"
  shows "load_task_checkpoint (en_root en) (checkpoint_of en v) = Ok (tw_tasks v, tw_next_task v) \<and>
    open_tasks en (tw_tasks v) = Ok (bt_map (\<lambda>r. r\<lparr>tr_snapshot := recover en (tr_snapshot r)\<rparr>) (tw_tasks v))"
proof -
  have "scheduler_ok v" using life_ok [OF assms(1)] by simp
  then show ?thesis using load_saved open_saved assms(2) by blast
qed

definition run_refreshes :: "'b task_env list \<Rightarrow> 'b task_world \<Rightarrow> 'b task_world" where
  "run_refreshes ens w = fold (\<lambda>en w. snd (refresh en w)) ens w"

lemma run_refreshes_keeps:
  "(\<And>en. en \<in> set ens \<Longrightarrow> keeps P (refresh en)) \<Longrightarrow> P w \<Longrightarrow> P (run_refreshes ens w)"
  unfolding run_refreshes_def by (induction ens arbitrary: w) (auto dest: keepsD)

text \<open>
  Claim C11. Refreshes alone start a task at most once more than it has retries: however often and with
  whatever answers of agents and commands they run, a task that began within its retries never exceeds
  them by more than the first attempt.
\<close>

theorem automatic_attempts_bounded:
  assumes "bt_wf (tw_tasks w)" "\<forall>en \<in> set ens. backend_ok en"
    "\<forall>i r. bt_get (tw_tasks w) i = Some r \<longrightarrow>
       sn_attempt (tr_snapshot r) \<le> max_retries (sn_retry (tr_snapshot r)) + (if sn_state (tr_snapshot r) = Queued then 0 else 1)"
    "bt_get (tw_tasks (run_refreshes ens w)) i = Some r"
  shows "sn_attempt (tr_snapshot r) \<le> max_retries (sn_retry (tr_snapshot r)) + 1"
proof -
  let ?D = "set (map fst (tw_tasks w))"
  have "tab ?D within_retries w" using assms(1,3) by (simp add: tab_def table_sat_def within_retries_def)
  then have "tab ?D within_retries (run_refreshes ens w)"
    by (rule run_refreshes_keeps [rotated]) (use assms(2) in \<open>auto intro: attempts.refresh_keeps\<close>)
  then show ?thesis using table_satD [OF _ assms(4)] by (fastforce simp: tab_def within_retries_def split: if_splits)
qed

text \<open>
  Claim C12. A task that succeeded, failed or was cancelled keeps that state through every refresh,
  whatever late events and failures its agent reports and whether or not the refresh succeeds.
\<close>

theorem finished_tasks_stay_finished:
  assumes "bt_wf (tw_tasks w)" "\<forall>en \<in> set ens. backend_ok en" "state_of (tw_tasks w) i = Some s" "task_terminal s"
  shows "state_of (tw_tasks (run_refreshes ens w)) i = Some s"
proof -
  let ?D = "set (map fst (tw_tasks w))"
  have "tab ?D (stays_finished i s) w" using assms(1,3) by (auto simp: tab_def table_sat_def stays_finished_def state_of_def)
  then have t: "tab ?D (stays_finished i s) (run_refreshes ens w)"
    by (rule run_refreshes_keeps [rotated]) (use assms(2) in \<open>auto intro: finished.refresh_keeps\<close>)
  have "i \<in> ?D" using assms(3) in_dom_iff [of i "tw_tasks w"] by (auto simp: state_of_def)
  then obtain r where r: "bt_get (tw_tasks (run_refreshes ens w)) i = Some r"
    using t in_dom_iff [of i "tw_tasks (run_refreshes ens w)"] by (auto simp: tab_def table_sat_def)
  have "stays_finished i s i (tr_snapshot r)" using table_satD [OF _ r] t by (simp add: tab_def)
  then show ?thesis using r assms(4) by (simp add: state_of_def stays_finished_def)
qed

end
