(* ===== verification/Task_Progress.thy ===== *)
theory Task_Progress
  imports Task_Promises
begin

text \<open>
  What a refresh gets done: every verifying task is judged, every task that cannot run is blocked and
  every task that is ready is started.
\<close>

section \<open>Starting\<close>

lemma outside_tasks: "outside m \<Longrightarrow> m w = (res, w') \<Longrightarrow> tw_tasks w' = tw_tasks w"
  unfolding outside_def by (metis snd_conv task_world.select_convs(1) task_world.surjective task_world.update_convs(4))

lemma andthen_Ok: "andthen m f w = (Ok y, w') \<longleftrightarrow> (\<exists>x w1. m w = (Ok x, w1) \<and> f x w1 = (Ok y, w'))"
  by (cases "m w"; cases "fst (m w)") (auto simp: andthen_def)

text \<open>Only the started task changes, and it has an agent.\<close>

definition started_record :: "'b task_env \<Rightarrow> task_record \<Rightarrow> task_record \<Rightarrow> bool" where
  "started_record en r r' \<longleftrightarrow> (\<exists>a. r' = r\<lparr>tr_snapshot := started en a (tr_snapshot r), tr_next_retry_at_ms := None\<rparr>)"

lemma start_task_effect:
  assumes "start_task en i w = (Ok (), w')"
  shows "\<exists>r r'. bt_get (tw_tasks w) i = Some r \<and> started_record en r r' \<and> tw_tasks w' = bt_insert i r' (tw_tasks w)"
proof -
  obtain r where r: "bt_get (tw_tasks w) i = Some r"
    using assms by (cases "bt_get (tw_tasks w) i") (simp_all add: start_task_def andthen_def the_record_def)
  let ?sn = "tr_snapshot r"
  obtain fork a w1 w2 w3 w4 where s:
      "ensure_snapshot_checkpoint_fits en i (started en maximum_length_agent_id ?sn) w = (Ok (), w1)"
      "architect_session_file en ?sn w1 = (Ok fork, w2)" "call_out (en_create_agent en (agent_spec_for i ?sn fork)) w2 = (Ok a, w3)"
      "update_record i (\<lambda>q. q\<lparr>tr_snapshot := started en a (tr_snapshot q), tr_next_retry_at_ms := None\<rparr>) w3 = (Ok (), w4)"
      "persist_tasks en w4 = (Ok (), w')"
    using assms r by (auto simp: start_task_def andthen_Ok the_record_def)
  have t: "tw_tasks w3 = tw_tasks w" using outside_tasks [OF outside_ops(6) s(1)] outside_tasks [OF outside_architect s(2)]
      outside_tasks [OF outside_basic(2) s(3)] by simp
  let ?r = "r\<lparr>tr_snapshot := started en a ?sn, tr_next_retry_at_ms := None\<rparr>"
  have "tw_tasks w4 = bt_insert i ?r (tw_tasks w)" using s(4) t r by (auto simp: update_record_cases)
  then have "tw_tasks w' = bt_insert i ?r (tw_tasks w)" using outside_tasks [OF outside_persist s(5)] by simp
  then show ?thesis using r started_record_def by blast
qed

lemma start_all_effect:
  assumes "each (start_task en) xs w = (Ok (), w')" "distinct xs"
  shows "if u \<in> set xs then \<exists>r r'. bt_get (tw_tasks w) u = Some r \<and> bt_get (tw_tasks w') u = Some r' \<and> started_record en r r'
    else bt_get (tw_tasks w') u = bt_get (tw_tasks w) u"
  using assms
proof (induction xs arbitrary: w)
  case (Cons i xs)
  obtain w1 where s: "start_task en i w = (Ok (), w1)" "each (start_task en) xs w1 = (Ok (), w')"
    using Cons.prems(1) by (auto simp: andthen_Ok)
  obtain r r' where e: "bt_get (tw_tasks w) i = Some r" "started_record en r r'" "tw_tasks w1 = bt_insert i r' (tw_tasks w)"
    using start_task_effect [OF s(1)] by blast
  note IH = Cons.IH [OF s(2)]
  show ?case
  proof (cases "u = i")
    case True
    then show ?thesis using IH Cons.prems(2) e by auto
  next
    case False
    then show ?thesis using IH Cons.prems(2) e(3) by auto
  qed
qed (simp add: ret_def)

lemma started_state: "started_record en r r' \<Longrightarrow> sn_state (tr_snapshot r') = Ready"
  by (auto simp: started_record_def started_def)

lemma schedule_effect:
  assumes "schedule_ready en w = (Ok (), w')" "bt_wf (tw_tasks w)"
  shows "if u \<in> set (ready_tasks (en_now en) (tw_tasks w))
    then \<exists>r r'. bt_get (tw_tasks w) u = Some r \<and> bt_get (tw_tasks w') u = Some r' \<and> started_record en r r'
    else bt_get (tw_tasks w') u = bt_get (tw_tasks w) u"
proof (rule start_all_effect)
  show "each (start_task en) (ready_tasks (en_now en) (tw_tasks w)) w = (Ok (), w')"
    using assms(1) by (simp add: schedule_ready_def andthen_def get_world_def)
  show "distinct (ready_tasks (en_now en) (tw_tasks w))"
    using bt_wf_distinct [OF bt_wf_filter [OF assms(2)]] by (simp add: ready_tasks_def)
qed

lemma in_ready_tasks:
  "bt_wf T \<Longrightarrow> u \<in> set (ready_tasks now T) \<longleftrightarrow> (\<exists>r. bt_get T u = Some r \<and> task_ready now T r)"
  by (auto simp: ready_tasks_def bt_get_iff_mem image_iff)

text \<open>Starting the ready tasks leaves no task ready.\<close>

lemma schedule_none_ready:
  assumes s: "schedule_ready en w = (Ok (), w')" and wf: "bt_wf (tw_tasks w)"
    and r: "bt_get (tw_tasks w') u = Some r"
  shows "\<not> task_ready (en_now en) (tw_tasks w') r"
proof
  let ?T = "tw_tasks w" and ?T' = "tw_tasks w'" and ?xs = "ready_tasks (en_now en) (tw_tasks w)"
  assume ready: "task_ready (en_now en) ?T' r"
  note e = schedule_effect [OF s wf]
  have u: "u \<notin> set ?xs" using e [of u] r ready started_state by (fastforce simp: task_ready_def)
  then have r0: "bt_get ?T u = Some r" using e [of u] r by simp
  have succ: "sn_state (tr_snapshot q) = Succeeded \<Longrightarrow> bt_get ?T d = Some q" if "bt_get ?T' d = Some q" for d q
    using e [of d] that by (cases "d \<in> set ?xs") (auto dest!: started_state)
  have "task_ready (en_now en) ?T r"
    using ready succ unfolding task_ready_def list_all_iff by (fastforce split: option.splits)
  then show False using u r0 in_ready_tasks [OF wf] by blast
qed

section \<open>Verification\<close>

lemma commit_state:
  assumes "commit_snapshot en t sn b act w = (Ok (), w')" "outside act" "bt_get (tw_tasks w) t \<noteq> None"
  shows "state_of (tw_tasks w') u = (if u = t then Some (sn_state sn) else state_of (tw_tasks w) u)"
  using commit_effect [OF assms(2,3,1)] replaced_state [OF _ assms(3)] by simp

lemma update_keeps_state:
  "update_record t f w = (Ok (), w') \<Longrightarrow> (\<And>r. tr_snapshot (f r) = tr_snapshot r) \<Longrightarrow> state_of (tw_tasks w') u = state_of (tw_tasks w) u"
  by (auto simp: update_record_cases state_of_def split: option.splits)

lemma verify_task_state:
  assumes "verify_task en t w = (Ok (), w')"
  shows "if u = t then state_of (tw_tasks w') u \<in> Some ` {Succeeded, Waiting, Queued, Failed} else state_of (tw_tasks w') u = state_of (tw_tasks w) u"
proof -
  obtain r where r: "bt_get (tw_tasks w) t = Some r"
    using assms by (cases "bt_get (tw_tasks w) t") (simp_all add: verify_task_def andthen_def the_record_def)
  let ?sn = "tr_snapshot r"
  have t: "bt_get (tw_tasks w) t \<noteq> None" using r by simp
  obtain outcome where v: "verify (verify_command en (sn_worktree ?sn)) (sn_evidence ?sn) (sn_verification ?sn) = Ok outcome"
    using assms r by (auto simp: verify_task_def andthen_Ok the_record_def lift_res_def Let_def)
  show ?thesis
  proof (cases outcome)
    case (Passed evs)
    let ?act = "case sn_assigned_agent ?sn of None \<Rightarrow> ret () | Some a \<Rightarrow> call_out (en_complete_agent en a)"
    obtain w1 where c: "commit_snapshot en t (verified en evs ?sn) (evs \<noteq> []) ?act w = (Ok (), w1)"
        "update_record t (\<lambda>q. q\<lparr>tr_next_retry_at_ms := None\<rparr>) w1 = (Ok (), w')"
      using assms r v Passed by (auto simp: verify_task_def andthen_Ok the_record_def lift_res_def Let_def)
    have "outside ?act" by (intro outside_option outside_ops)
    from commit_state [OF c(1) this t] update_keeps_state [OF c(2)] show ?thesis by (simp add: verified_def)
  next
    case StillWaiting
    then have "commit_snapshot en t (?sn\<lparr>sn_state := Waiting, sn_updated_at_ms := en_now en\<rparr>) False (ret ()) w = (Ok (), w')"
      using assms r v by (auto simp: verify_task_def andthen_Ok the_record_def lift_res_def Let_def)
    from commit_state [OF this outside_basic(1) t] show ?thesis by simp
  next
    case (FailedWith err evs)
    obtain w1 where c: "commit_snapshot en t (not_verified en err evs ?sn) (evs \<noteq> []) (cancel_assigned en (sn_assigned_agent ?sn)) w = (Ok (), w1)"
        "update_record t (\<lambda>q. q\<lparr>tr_next_retry_at_ms := retry_time en ?sn\<rparr>) w1 = (Ok (), w')"
      using assms r v FailedWith by (auto simp: verify_task_def andthen_Ok the_record_def lift_res_def Let_def)
    from commit_state [OF c(1) outside_cancel t] update_keeps_state [OF c(2)] show ?thesis by (simp add: not_verified_def Let_def)
  qed
qed

lemma verify_all_state:
  "each (verify_task en) xs w = (Ok (), w') \<Longrightarrow> state_of (tw_tasks w') u = Some Verifying \<Longrightarrow> u \<notin> set xs \<and> state_of (tw_tasks w) u = Some Verifying"
proof (induction xs arbitrary: w)
  case (Cons t xs)
  obtain w1 where s: "verify_task en t w = (Ok (), w1)" "each (verify_task en) xs w1 = (Ok (), w')"
    using Cons.prems(1) by (auto simp: andthen_Ok)
  have "u \<notin> set xs \<and> state_of (tw_tasks w1) u = Some Verifying" by (rule Cons.IH [OF s(2) Cons.prems(2)])
  then show ?case using verify_task_state [OF s(1), of u] by (auto split: if_splits)
qed (simp add: ret_def)

lemma verify_pending_done:
  assumes "verify_pending en w = (Ok (), w')"
  shows "state_of (tw_tasks w') u \<noteq> Some Verifying"
proof
  let ?xs = "map fst (filter (\<lambda>(_, r). sn_state (tr_snapshot r) = Verifying) (tw_tasks w))"
  assume v: "state_of (tw_tasks w') u = Some Verifying"
  have "each (verify_task en) ?xs w = (Ok (), w')" using assms by (simp add: verify_pending_def andthen_def get_world_def)
  from verify_all_state [OF this v] have u: "u \<notin> set ?xs" "state_of (tw_tasks w) u = Some Verifying" by simp_all
  then obtain r where "(u, r) \<in> set (tw_tasks w)" "sn_state (tr_snapshot r) = Verifying"
    by (auto simp: state_of_def dest: bt_get_mem)
  then show False using u(1) by force
qed

section \<open>The whole refresh\<close>

lemma keepsE: "keeps P m \<Longrightarrow> m w = (res, w') \<Longrightarrow> P w \<Longrightarrow> P w'"
  using keepsD by fastforce

text \<open>The last steps of a refresh begin with a valid table.\<close>

lemma refresh_split:
  assumes "ok_tab D w" "backend_ok en" "refresh en w = (Ok (), w')"
  shows "\<exists>w1 w2 w3 w4. verify_pending en w1 = (Ok (), w2) \<and> propagate_blocked en w2 = (Ok (), w3) \<and> ok_tab D w3 \<and>
    schedule_ready en w3 = (Ok (), w4) \<and> tw_tasks w' = tw_tasks w4"
proof -
  obtain wa ags wb evs wc wd we w1 w2 w3 w4 where s: "call_out (en_refresh_agents en) w = (Ok (), wa)"
      "call_out (en_agent_snapshots en) wa = (Ok ags, wb)" "call_out (en_agent_events en (tw_agent_event_cursor wb)) wb = (Ok evs, wc)"
      "each (take_event en) evs wc = (Ok (), wd)" "each (apply_agent_failure en) ags wd = (Ok (), we)" "enforce_task_budgets en we = (Ok (), w1)"
      "verify_pending en w1 = (Ok (), w2)" "propagate_blocked en w2 = (Ok (), w3)" "schedule_ready en w3 = (Ok (), w4)" "persist_tasks en w4 = (Ok (), w')"
    using assms(3) by (auto simp: refresh_def andthen_Ok get_world_def)
  note out = tab_outside [OF outside_basic(2)]
  have "\<exists>out'. en_agent_events en (tw_agent_event_cursor wb) (tw_out wb) = (Ok evs, out')"
    using s(3) by (auto simp: call_out_def split: prod.splits)
  then have "\<forall>ev \<in> set evs. event_ok ev" using assms(2) unfolding backend_ok_def list_all_iff by blast
  then have ev: "keeps (ok_tab D) (each (take_event en) evs)" by (intro keeps_each ok.take_event_keeps) simp
  have f: "keeps (ok_tab D) (each (apply_agent_failure en) ags)" by (intro keeps_each ok.apply_agent_failure_keeps)
  have "ok_tab D wc" using keepsE [OF out s(3)] keepsE [OF out s(2)] keepsE [OF out s(1)] assms(1) by blast
  then have "ok_tab D w1" using keepsE [OF ok.enforce_keeps s(6)] keepsE [OF f s(5)] keepsE [OF ev s(4)] by blast
  then have "ok_tab D w3" using keepsE [OF ok.propagate_keeps s(8)] keepsE [OF ok.verify_pending_keeps s(7)] by blast
  then show ?thesis using s(7-9) outside_tasks [OF outside_persist s(10)] by blast
qed

lemma schedule_no_block:
  assumes s: "schedule_ready en w = (Ok (), w')" and wf: "bt_wf (tw_tasks w)" and none: "\<And>u. \<not> must_block (tw_tasks w) u"
  shows "\<not> must_block (tw_tasks w') i"
proof
  let ?xs = "ready_tasks (en_now en) (tw_tasks w)"
  note e = schedule_effect [OF s wf]
  have started: "state_of (tw_tasks w') u = Some Ready" if "u \<in> set ?xs" for u
    using e [of u] that by (auto simp: state_of_def dest: started_state)
  have same: "state_of (tw_tasks w') u = state_of (tw_tasks w) u" "links (tw_tasks w') u = links (tw_tasks w) u" if "u \<notin> set ?xs" for u
    using e [of u] that by (simp_all add: state_of_def links_def)
  assume "must_block (tw_tasks w') i"
  then obtain ds d where m: "state_of (tw_tasks w') i = Some Queued" "links (tw_tasks w') i = Some (ds, False)" "d \<in> set ds" "stuck (tw_tasks w') d"
    unfolding must_block_iff by blast
  have i: "i \<notin> set ?xs" and d: "d \<notin> set ?xs" using m(1,4) started by (auto simp: stuck_def)
  have "must_block (tw_tasks w) i" unfolding must_block_iff using m same [OF i] same [OF d] by (auto simp: stuck_def)
  then show False using none by blast
qed

text \<open>
  Claim C10. A successful refresh leaves nothing undone: no task is still to be verified, no queued task
  waits without an override for one that cannot succeed, and no task that is ready to start is left
  queued.
\<close>

theorem refresh_leaves_no_work:
  assumes "reached w" "backend_ok en" "refresh en w = (Ok (), w')" "bt_get (tw_tasks w') i = Some r"
  shows "sn_state (tr_snapshot r) \<noteq> Verifying \<and> \<not> must_block (tw_tasks w') i \<and> \<not> task_ready (en_now en) (tw_tasks w') r"
proof -
  have "ok_tab (task_ids (tw_tasks w)) w" using reached_ok [OF assms(1)] by (simp add: scheduler_ok_def tab_def)
  from refresh_split [OF this assms(2,3)] obtain w1 w2 w3 w4 where s: "verify_pending en w1 = (Ok (), w2)" "propagate_blocked en w2 = (Ok (), w3)"
      "bt_wf (tw_tasks w3)" "schedule_ready en w3 = (Ok (), w4)" "tw_tasks w' = tw_tasks w4"
    by (auto simp: tab_def table_sat_def)
  have r: "bt_get (tw_tasks w4) i = Some r" using assms(4) s(5) by simp
  have "state_of (tw_tasks w3) i \<noteq> Some Verifying" using verify_pending_done [OF s(1)] propagate_exact [OF s(2)] by auto
  then have "sn_state (tr_snapshot r) \<noteq> Verifying"
    using schedule_effect [OF s(4,3), of i] r by (auto simp: state_of_def split: if_splits dest: started_state)
  moreover have "\<not> must_block (tw_tasks w4) i" using schedule_no_block [OF s(4,3)] propagate_exact [OF s(2)] by blast
  ultimately show ?thesis using schedule_none_ready [OF s(4,3) r] s(5) by simp
qed

section \<open>Cooperation\<close>

text \<open>The identifiers the backend may give to a new agent.\<close>

definition agents_given :: "'b task_env \<Rightarrow> string set" where
  "agents_given en = {a. \<exists>spec out out'. en_create_agent en spec out = (Ok a, out')}"

text \<open>The table in which some tasks were started, each with its agent, and nothing else changed.\<close>

definition start_record :: "'b task_env \<Rightarrow> string \<Rightarrow> task_record \<Rightarrow> task_record" where
  "start_record en a r = r\<lparr>tr_snapshot := started en a (tr_snapshot r), tr_next_retry_at_ms := None\<rparr>"

definition with_started :: "'b task_env \<Rightarrow> (task_id \<rightharpoonup> string) \<Rightarrow> task_table \<Rightarrow> task_table" where
  "with_started en f T = map (\<lambda>(i, r). (i, case f i of None \<Rightarrow> r | Some a \<Rightarrow> start_record en a r)) T"

text \<open>
  One start can be paid for: after the tasks in \<open>f\<close> were started, the checkpoint with the next task
  started under an identifier of the greatest length leaves the reserve, and with the agent that is
  given it is small enough and can be written.
\<close>

definition start_fits :: "'b task_env \<Rightarrow> 'b task_world \<Rightarrow> (task_id \<rightharpoonup> string) \<Rightarrow> task_id \<Rightarrow> task_record \<Rightarrow> bool" where
  "start_fits en w f i r \<longleftrightarrow>
     en_size en (checkpoint_records [(i, started en maximum_length_agent_id (tr_snapshot r))] (with_started en f (tw_tasks w))) (tw_next_task w) +
       TASK_CHECKPOINT_MUTATION_RESERVE \<le> MAX_TASK_CHECKPOINT_BYTES \<and>
     (\<forall>a \<in> agents_given en. let T = with_started en (f(i \<mapsto> a)) (tw_tasks w) in
        en_size en (map snd T) (tw_next_task w) \<le> MAX_TASK_CHECKPOINT_BYTES \<and>
        (\<forall>out. is_ok (fst (en_write en T (tw_next_task w) out))))"

text \<open>
  An agent can be created for every ready task, and the starts that scheduling makes, one after the
  other in the order of the table, can be paid for.
\<close>

definition cooperative :: "'b task_env \<Rightarrow> 'b task_world \<Rightarrow> bool" where
  "cooperative en w \<longleftrightarrow>
     (\<forall>ys i zs r. ready_tasks (en_now en) (tw_tasks w) = ys @ i # zs \<longrightarrow> bt_get (tw_tasks w) i = Some r \<longrightarrow>
        (\<forall>fork out. is_ok (fst (en_create_agent en (agent_spec_for i (tr_snapshot r) fork) out))) \<and>
        (\<forall>f. dom f = set ys \<longrightarrow> ran f \<subseteq> agents_given en \<longrightarrow> start_fits en w f i r))"

lemma is_ok_pair: "is_ok (fst p) \<longleftrightarrow> (\<exists>y w. p = (Ok y, w))"
  by (cases p) (auto simp: is_ok_iff)

lemma get_with_started:
  "bt_get (with_started en f T) i = map_option (\<lambda>r. case f i of None \<Rightarrow> r | Some a \<Rightarrow> start_record en a r) (bt_get T i)"
  by (induction T) (auto simp: with_started_def bt_get_def split: option.split)

lemma with_started_facts: "with_started en Map.empty T = T" "bt_wf (with_started en f T) = bt_wf T"
  by (simp_all add: with_started_def bt_wf_def comp_def case_prod_beta)

lemma start_one_more:
  assumes "bt_wf T" "i \<notin> dom f"
  shows "bt_adjust i (start_record en a) (with_started en f T) = with_started en (f(i \<mapsto> a)) T"
  using assms by (subst adjust_as_map) (auto simp: with_started_facts, auto simp: with_started_def domIff split: option.split)

lemma start_with_room:
  assumes "bt_wf T" "tw_tasks w = with_started en f T" "i \<notin> dom f" "bt_get T i = Some r" "start_fits en (w\<lparr>tw_tasks := T\<rparr>) f i r"
    and create: "\<And>fork out. is_ok (fst (en_create_agent en (agent_spec_for i (tr_snapshot r) fork) out))"
  shows "\<exists>w' a. start_task en i w = (Ok (), w') \<and> a \<in> agents_given en \<and> tw_tasks w' = with_started en (f(i \<mapsto> a)) T \<and>
    tw_next_task w' = tw_next_task w"
proof -
  let ?sn = "tr_snapshot r"
  have r: "bt_get (tw_tasks w) i = Some r" using assms(2-4) by (simp add: get_with_started domIff)
  have fits: "ensure_snapshot_checkpoint_fits en i (started en maximum_length_agent_id ?sn) w = (Ok (), w)"
    using assms(2,5) by (simp add: start_fits_def ensure_snapshot_checkpoint_fits_def mutation_capacity_def ensure_checkpoint_size_def
        nat_saturating_add_def not_less min.coboundedI2)
  have "is_ok (fst (architect_session_file en ?sn w))"
    by (simp add: architect_session_file_def split: option.split prod.split sum.split)
  then obtain fork w2 where f: "architect_session_file en ?sn w = (Ok fork, w2)" by (auto simp: is_ok_pair)
  obtain a out where a: "en_create_agent en (agent_spec_for i ?sn fork) (tw_out w2) = (Ok a, out)"
    using create [of fork "tw_out w2"] by (auto simp: is_ok_pair)
  then have given: "a \<in> agents_given en" by (auto simp: agents_given_def)
  obtain out2 where w2: "w2 = w\<lparr>tw_out := out2\<rparr>" using outside_architect [of en ?sn] f unfolding outside_def by (metis snd_conv)
  let ?T = "with_started en (f(i \<mapsto> a)) T"
  let ?w4 = "w\<lparr>tw_out := out, tw_tasks := ?T\<rparr>"
  have u: "update_record i (\<lambda>q. q\<lparr>tr_snapshot := started en a (tr_snapshot q), tr_next_retry_at_ms := None\<rparr>) (w2\<lparr>tw_out := out\<rparr>) = (Ok (), ?w4)"
    using r w2 start_one_more [OF assms(1,3), of en a] assms(2)
    by (simp add: update_record_def andthen_def the_record_def start_record_def [abs_def])
  have room: "en_size en (map snd ?T) (tw_next_task w) \<le> MAX_TASK_CHECKPOINT_BYTES" "is_ok (fst (en_write en ?T (tw_next_task w) out))"
    using assms(5) given by (simp_all add: start_fits_def Let_def)
  obtain out5 where "persist_tasks en ?w4 = (Ok (), ?w4\<lparr>tw_out := out5\<rparr>)"
    using room by (auto simp: is_ok_pair persist_tasks_def andthen_def get_world_def lift_res_def checkpoint_records_nil ensure_checkpoint_size_def call_out_def)
  then have "start_task en i w = (Ok (), ?w4\<lparr>tw_out := out5\<rparr>)"
    using fits f a u r w2 by (simp add: start_task_def andthen_def the_record_def call_out_def)
  then show ?thesis using given by auto
qed

lemma start_all_with_room:
  assumes wf: "bt_wf (tw_tasks w0)" and co: "cooperative en w0" and xs: "ready_tasks (en_now en) (tw_tasks w0) = ys @ xs"
    and "tw_tasks w = with_started en f (tw_tasks w0)" "tw_next_task w = tw_next_task w0" "dom f = set ys" "ran f \<subseteq> agents_given en"
  shows "\<exists>w'. each (start_task en) xs w = (Ok (), w')"
  using assms(3-)
proof (induction xs arbitrary: ys w f)
  case (Cons i xs)
  let ?T = "tw_tasks w0"
  obtain r where r: "bt_get ?T i = Some r" using in_ready_tasks [OF wf, of i "en_now en"] Cons.prems(1) by auto
  have "distinct (ys @ i # xs)" using bt_wf_distinct [OF bt_wf_filter [OF wf]] Cons.prems(1) by (metis ready_tasks_def)
  then have i: "i \<notin> dom f" using Cons.prems(4) by auto
  have c: "start_fits en w0 f i r" "is_ok (fst (en_create_agent en (agent_spec_for i (tr_snapshot r) fork) out))" for fork out
    using co Cons.prems(1,4,5) r unfolding cooperative_def by blast+
  then have "start_fits en (w\<lparr>tw_tasks := ?T\<rparr>) f i r" using Cons.prems(3) by (simp add: start_fits_def)
  then obtain w1 a where s: "start_task en i w = (Ok (), w1)" "a \<in> agents_given en" "tw_tasks w1 = with_started en (f(i \<mapsto> a)) ?T"
      "tw_next_task w1 = tw_next_task w"
    using start_with_room [OF wf Cons.prems(2) i r _ c(2)] by blast
  have "f i = None" using i by (simp add: domIff)
  then have f: "dom (f(i \<mapsto> a)) = set (ys @ [i])" "ran (f(i \<mapsto> a)) \<subseteq> agents_given en" using Cons.prems(4,5) s(2) by simp_all
  have "\<exists>w'. each (start_task en) xs w1 = (Ok (), w')"
    using Cons.IH [of "ys @ [i]" w1 "f(i \<mapsto> a)", OF _ s(3) _ f] Cons.prems(1,3) s(4) by simp
  then show ?case using s(1) by (auto simp: andthen_Ok)
qed (simp add: ret_def)

text \<open>
  Claim C9. When an agent can be created for every ready task and, start by start, the checkpoint has
  room for the task started next and can be written, scheduling succeeds and starts every task that
  is ready, with its next attempt, and touches no other task.
\<close>

theorem ready_tasks_are_started:
  assumes "bt_wf (tw_tasks w)" "cooperative en w"
  shows "\<exists>w'. schedule_ready en w = (Ok (), w') \<and>
    (\<forall>i r. bt_get (tw_tasks w) i = Some r \<longrightarrow>
       (if task_ready (en_now en) (tw_tasks w) r
        then \<exists>a. bt_get (tw_tasks w') i = Some (r\<lparr>tr_snapshot := started en a (tr_snapshot r), tr_next_retry_at_ms := None\<rparr>)
        else bt_get (tw_tasks w') i = Some r))"
proof -
  let ?xs = "ready_tasks (en_now en) (tw_tasks w)"
  have "\<exists>w'. each (start_task en) ?xs w = (Ok (), w')"
    by (rule start_all_with_room [OF assms, of "[]" _ w Map.empty]) (simp_all add: with_started_facts)
  then obtain w' where s: "schedule_ready en w = (Ok (), w')" by (auto simp: schedule_ready_def andthen_def get_world_def)
  show ?thesis
  proof (intro exI conjI allI impI)
    fix i r
    assume r: "bt_get (tw_tasks w) i = Some r"
    show "if task_ready (en_now en) (tw_tasks w) r
        then \<exists>a. bt_get (tw_tasks w') i = Some (r\<lparr>tr_snapshot := started en a (tr_snapshot r), tr_next_retry_at_ms := None\<rparr>)
        else bt_get (tw_tasks w') i = Some r"
      using schedule_effect [OF s assms(1), of i] in_ready_tasks [OF assms(1), of i] r by (auto simp: started_record_def)
  qed (rule s)
qed

end
