(* ===== verification/Task_Crew.thy ===== *)
theory Task_Crew
  imports Task_Progress
begin

text \<open>
  The overnight crew (\<open>TaskScheduler::create_crew\<close> in \<^verbatim>\<open>crates/glass-dev/src/tasks.rs\<close>): an architect, an
  implementer and a tester per working tree, a reviewer and a browser operator, wired by their
  dependencies.
\<close>

section \<open>Specs and prompts\<close>

definition default_role :: string where "default_role = ''developer''"

definition default_budget :: task_budget where
  "default_budget = \<lparr>max_runtime_seconds = 3600, max_events = 10000, max_tokens = None\<rparr>"

definition default_retry :: retry_policy where
  "default_retry = \<lparr>max_retries = 0, backoff_seconds = 1\<rparr>"

definition new_spec :: "string \<Rightarrow> string \<Rightarrow> task_spec" where
  "new_spec title prompt =
     \<lparr>sp_title = title, sp_goal = title, sp_prompt = prompt, sp_role = default_role, sp_dependencies = [], sp_worktree = None,
      sp_model = None, sp_thinking = None, sp_budget = default_budget, sp_verification = Inferred, sp_retry = default_retry\<rparr>"

definition crew_spec :: "string \<Rightarrow> string \<Rightarrow> string \<Rightarrow> string \<Rightarrow> task_spec" where
  "crew_spec role title goal prompt = (new_spec title prompt)\<lparr>sp_role := role, sp_goal := goal\<rparr>"

definition newline :: string where "newline = [CHR 0x0A]"

definition crew_prompt :: "string \<Rightarrow> string \<Rightarrow> string" where
  "crew_prompt role goal =
     (if role = ''architect'' then
        ''You are the architect for: '' @ goal @ newline @ ''Write a bounded plan, file-level proposals, and UI verify predicates. Do not implement production code.''
      else if role = ''implementer'' then
        ''You are the implementer for: '' @ goal @ newline @ ''Follow the architect plan and implement the approved work in your isolated worktree. Keep the change minimal.''
      else if role = ''tester'' then
        ''You are the tester for: '' @ goal @ newline @ ''Run the detected project suite. Do not edit production code. Record failing tests as evidence.''
      else if role = ''reviewer'' then
        ''You are the reviewer for: '' @ goal @ newline @ ''You cannot write, patch, or save files. Inspect each implementer'' @ [CHR 0x27] @ ''s proposals in their isolated worktrees and return accept or reject with file-level reasons.''
      else if role = ''browser'' then
        ''You are the browser operator for: '' @ goal @ newline @ ''Drive the running app. Do not touch src/. Prove the UI with causal verify predicates and attach evidence.''
      else ''You are '' @ role @ '' for: '' @ goal)"

definition implementer_prompt :: "string \<Rightarrow> nat \<Rightarrow> nat \<Rightarrow> string \<Rightarrow> string" where
  "implementer_prompt goal index crew_size worktree =
     ''You are implementer '' @ show_nat index @ '' of '' @ show_nat crew_size @ '' for: '' @ goal @ newline @
     ''You work only in this isolated worktree: '' @ worktree @ newline @
     ''You continue from a forked resident-agent session of the architect when one exists. Do not edit other implementers'' @ [CHR 0x27] @ '' trees. Own '' @
     (if index = 1 then ''production source from the architect plan'' else ''tests, types, and remaining files from the architect plan'') @
     ''. Follow the architect plan and implement the approved work. Keep the change minimal.''"

definition tester_prompt :: "string \<Rightarrow> string \<Rightarrow> string" where
  "tester_prompt goal worktree =
     ''You are the tester for: '' @ goal @ newline @ ''Run the detected project suite in this isolated worktree: '' @ worktree @ newline @
     ''Do not edit production code. Record failing tests as evidence.''"

text \<open>The letter of a member is one byte turned into a character. The limit of 128 tasks ends the
  creation long before the addition could overflow.\<close>

definition byte_char :: "nat \<Rightarrow> string" where
  "byte_char b = (if b < 128 then [char_of b] else [char_of (192 + b div 64), char_of (128 + b mod 64)])"

definition member_label :: "string \<Rightarrow> nat \<Rightarrow> nat \<Rightarrow> string" where
  "member_label name index crew_size = (if crew_size = 1 then name else name @ ''-'' @ byte_char ((97 + index mod 256) mod 256))"

section \<open>Queueing a crew\<close>

definition architect_spec :: "string \<Rightarrow> string option \<Rightarrow> task_spec" where
  "architect_spec goal shared =
     (crew_spec ''architect'' (''architect: '' @ goal) goal (crew_prompt ''architect'' goal))\<lparr>sp_worktree := shared, sp_verification := Settled\<rparr>"

definition implementer_spec :: "string \<Rightarrow> task_id \<Rightarrow> nat \<Rightarrow> nat \<Rightarrow> string \<Rightarrow> task_spec" where
  "implementer_spec goal architect index crew_size tree =
     (crew_spec ''implementer'' (member_label ''implementer'' index crew_size @ '': '' @ goal) goal (implementer_prompt goal (index + 1) crew_size tree))
       \<lparr>sp_worktree := Some tree, sp_verification := Inferred, sp_dependencies := [architect]\<rparr>"

definition tester_spec :: "string \<Rightarrow> task_id \<Rightarrow> nat \<Rightarrow> nat \<Rightarrow> string \<Rightarrow> task_spec" where
  "tester_spec goal implementer index crew_size tree =
     (crew_spec ''tester'' (member_label ''tester'' index crew_size @ '': '' @ goal) goal (tester_prompt goal tree))
       \<lparr>sp_worktree := Some tree, sp_verification := Inferred, sp_dependencies := [implementer]\<rparr>"

definition reviewer_spec :: "string \<Rightarrow> string option \<Rightarrow> task_id list \<Rightarrow> task_spec" where
  "reviewer_spec goal shared implementers =
     (crew_spec ''reviewer'' (''reviewer: '' @ goal) goal (crew_prompt ''reviewer'' goal))
       \<lparr>sp_worktree := shared, sp_verification := Settled, sp_dependencies := implementers\<rparr>"

definition browser_spec :: "string \<Rightarrow> task_id list \<Rightarrow> task_spec" where
  "browser_spec goal testers =
     (crew_spec ''browser'' (''browser: '' @ goal) goal (crew_prompt ''browser'' goal))
       \<lparr>sp_verification := BrowserWorkflow goal, sp_dependencies := testers\<rparr>"

fun create_pairs :: "'b task_env \<Rightarrow> string \<Rightarrow> task_id \<Rightarrow> nat \<Rightarrow> nat \<Rightarrow> string list \<Rightarrow> ('b, (task_id \<times> task_id) list) task_op" where
  "create_pairs en goal architect crew_size index [] = ret []"
| "create_pairs en goal architect crew_size index (tree # trees) =
     andthen (create en (implementer_spec goal architect index crew_size tree)) (\<lambda>implementer.
     andthen (create en (tester_spec goal implementer index crew_size tree)) (\<lambda>tester.
     andthen (create_pairs en goal architect crew_size (Suc index) trees) (\<lambda>rest.
     ret ((implementer, tester) # rest))))"

definition create_crew :: "'b task_env \<Rightarrow> string \<Rightarrow> string option \<Rightarrow> string list \<Rightarrow> ('b, task_id list) task_op" where
  "create_crew en goal shared implementer_trees =
     andthen (lift_res (validate_text ''crew goal'' goal)) (\<lambda>_.
     let trees = (if implementer_trees = [] then [case shared of None \<Rightarrow> en_root en | Some d \<Rightarrow> d] else implementer_trees) in
     andthen (create en (architect_spec goal shared)) (\<lambda>architect.
     andthen (create_pairs en goal architect (length trees) 0 trees) (\<lambda>pairs.
     andthen (create en (reviewer_spec goal shared (map fst pairs))) (\<lambda>reviewer.
     andthen (create en (browser_spec goal (map snd pairs))) (\<lambda>browser.
     ret (architect # map fst pairs @ map snd pairs @ [reviewer, browser]))))))"

section \<open>Members keep their place\<close>

definition in_place :: "task_id \<Rightarrow> string \<Rightarrow> task_id list \<Rightarrow> task_id \<Rightarrow> task_snapshot \<Rightarrow> bool" where
  "in_place i role ds x sn \<longleftrightarrow> (x = i \<longrightarrow> sn_role sn = role \<and> sn_dependencies sn = ds)"

lemma add_evidence_place [simp]:
  "sn_role (add_evidence en evs sn) = sn_role sn" "sn_dependencies (add_evidence en evs sn) = sn_dependencies sn"
  by (induction evs arbitrary: sn) (simp_all add: add_evidence_def push_snapshot_evidence_def Let_def)

lemma push_place [simp]:
  "sn_role (push_snapshot_evidence now e sn) = sn_role sn" "sn_dependencies (push_snapshot_evidence now e sn) = sn_dependencies sn"
  by (simp_all add: push_snapshot_evidence_def Let_def)

interpretation place: refresh_contract "in_place i role ds" en for i role ds and en :: "'b task_env"
proof unfold_locales
  show "in_place i role ds x y" if "trimmed y sn" "in_place i role ds x sn" for x y sn
    using that core_eq(4,14) [OF trimmed_core [OF that(1)]] by (simp add: in_place_def)
qed (auto simp: in_place_def snapshot_changes)

text \<open>A task of the table with its role and dependencies.\<close>

definition member :: "task_id \<Rightarrow> string \<Rightarrow> task_id list \<Rightarrow> 'b task_world \<Rightarrow> bool" where
  "member i role ds w \<longleftrightarrow> (\<exists>r. bt_get (tw_tasks w) i = Some r \<and> sn_role (tr_snapshot r) = role \<and> sn_dependencies (tr_snapshot r) = ds)"

lemma member_tab: "tab D (in_place i role ds) w \<Longrightarrow> i \<in> D \<Longrightarrow> member i role ds w"
proof -
  assume t: "tab D (in_place i role ds) w" and i: "i \<in> D"
  then obtain r where "bt_get (tw_tasks w) i = Some r" using in_dom_iff [of i "tw_tasks w"] by (auto simp: tab_def table_sat_def)
  then show ?thesis using table_satD [OF t [unfolded tab_def]] by (auto simp: member_def in_place_def)
qed

lemma tab_member: "bt_wf (tw_tasks w) \<Longrightarrow> member i role ds w \<Longrightarrow> tab (task_ids (tw_tasks w)) (in_place i role ds) w"
  by (auto simp: tab_def table_sat_def task_ids_def member_def in_place_def)

lemma member_in: "member i role ds w \<Longrightarrow> i \<in> task_ids (tw_tasks w)"
  unfolding task_ids_def member_def in_dom_iff by auto

lemma member_kept:
  fixes m :: "('b, 'a) task_op"
  assumes "\<And>D. keeps (tab D (in_place i role ds)) m" "m w = (res, w')" "scheduler_ok w" "member i role ds w"
  shows "member i role ds w'"
proof (rule member_tab)
  have "bt_wf (tw_tasks w)" using assms(3) by (simp add: scheduler_ok_def table_sat_def)
  then have "tab (task_ids (tw_tasks w)) (in_place i role ds) w" using assms(4) by (rule tab_member)
  then show "tab (task_ids (tw_tasks w)) (in_place i role ds) w'" using keepsD [OF assms(1)] assms(2) by fastforce
qed (rule member_in [OF assms(4)])

section \<open>Creation adds a member\<close>

lemma schedule_persist_place:
  "backend_ok en \<Longrightarrow> keeps (tab D (in_place i role ds)) (andthen (schedule_ready en) (\<lambda>_. andthen (persist_tasks en) (\<lambda>_. ret x)))"
  by (intro keeps_andthen place.schedule_ready_keeps tab_outside outside_ops)

text \<open>A creation that succeeds inserts the new task, then schedules.\<close>

lemma create_checked_steps:
  assumes "create_checked en sp w = (Ok i, w')"
  shows "\<exists>w1. i = task_name (tw_next_task w) \<and> validate_spec en (tw_tasks w) sp = Ok () \<and> length (tw_tasks w) < MAX_TASKS \<and>
    tw_next_task w < u64_max \<and> insert_task en i (new_snapshot en i sp) (tw_next_task w + 1) w = (Ok (), w1) \<and>
    andthen (schedule_ready en) (\<lambda>_. andthen (persist_tasks en) (\<lambda>_. ret i)) w1 = (Ok i, w')"
proof -
  have v: "validate_spec en (tw_tasks w) sp = Ok ()" "length (tw_tasks w) < MAX_TASKS" "tw_next_task w < u64_max"
    using assms by (auto simp: create_checked_def andthen_Ok get_world_def lift_res_def fail_def nat_checked_add_def split: if_splits option.splits)
  then show ?thesis
    using assms by (auto simp: create_checked_def andthen_Ok get_world_def lift_res_def nat_checked_add_def Let_def ret_def)
qed

lemma insert_task_effect:
  assumes "insert_task en i sn n w = (Ok (), w1)"
  shows "tw_tasks w1 = bt_insert i \<lparr>tr_snapshot = unscheduled sn, tr_next_retry_at_ms = None\<rparr> (tw_tasks w)"
  using assms by (auto simp: insert_task_def Let_def ensure_current_checkpoint_fits_def split: sum.splits)

lemma create_checked_member:
  assumes "create_checked en sp w = (Ok i, w')" "scheduler_ok w" "backend_ok en" "sp_verification sp \<noteq> Inferred"
  shows "member i (sp_role sp) (sp_dependencies sp) w' \<and> i \<notin> task_ids (tw_tasks w) \<and>
    (\<forall>j role ds. member j role ds w \<longrightarrow> member j role ds w')"
proof -
  obtain w1 where s: "i = task_name (tw_next_task w)" "validate_spec en (tw_tasks w) sp = Ok ()" "length (tw_tasks w) < MAX_TASKS"
      "tw_next_task w < u64_max" "insert_task en i (new_snapshot en i sp) (tw_next_task w + 1) w = (Ok (), w1)"
      "andthen (schedule_ready en) (\<lambda>_. andthen (persist_tasks en) (\<lambda>_. ret i)) w1 = (Ok i, w')"
    using create_checked_steps [OF assms(1)] by blast
  have w1: "scheduler_ok w1" using insert_task_ok [OF assms(2) s(2) assms(4) s(3,4)] s(1,5) by simp
  have fresh: "i \<notin> task_ids (tw_tasks w)" using fresh_name(1) [OF assms(2)] s(1) by simp
  note t = insert_task_effect [OF s(5)]
  have kept: "member j role ds w'" if "member j role ds w1" for j role ds
    by (rule member_kept [OF schedule_persist_place [OF assms(3)] s(6) w1 that])
  have "member i (sp_role sp) (sp_dependencies sp) w1"
    using t by (simp add: member_def unscheduled_def new_snapshot_def)
  moreover have "member j role ds w1" if "member j role ds w" for j role ds
    using that t member_in [OF that] fresh by (auto simp: member_def)
  ultimately show ?thesis using kept fresh by blast
qed

lemma create_member:
  assumes "create en sp w = (Ok i, w')" "scheduler_ok w" "backend_ok en"
  shows "scheduler_ok w'" "member i (sp_role sp) (sp_dependencies sp) w'" "i \<notin> task_ids (tw_tasks w)"
    "member j role ds w \<Longrightarrow> member j role ds w'"
proof -
  obtain w1 where s: "refresh en w = (Ok (), w1)" "create_checked en (resolve_spec en sp) w1 = (Ok i, w')"
    using assms(1) by (auto simp: create_def andthen_Ok)
  have w1: "scheduler_ok w1" using keepsD [OF scheduler_ok_refresh [OF assms(3)] assms(2)] s(1) by simp
  have "ok_tab (task_ids (tw_tasks w)) w" using assms(2) by (simp add: scheduler_ok_def tab_def)
  then have "ok_tab (task_ids (tw_tasks w)) w1" using keepsD [OF ok.refresh_keeps [OF assms(3)]] s(1) by fastforce
  then have ids: "task_ids (tw_tasks w1) = task_ids (tw_tasks w)" by (rule tab_ids)
  note c = create_checked_member [OF s(2) w1 assms(3) inferred_resolved]
  show "scheduler_ok w'" using keepsD [OF create_keeps [OF assms(3)] assms(2), of sp] assms(1) by simp
  show "member i (sp_role sp) (sp_dependencies sp) w'" using c by (simp add: resolve_spec_def split: if_splits)
  show "i \<notin> task_ids (tw_tasks w)" using c ids by simp
  show "member j role ds w'" if "member j role ds w"
    using c member_kept [OF place.refresh_keeps [OF assms(3)] s(1) assms(2) that] by blast
qed

text \<open>What a creation, or several, leave of the tasks that were there.\<close>

definition crew_grows :: "'b task_world \<Rightarrow> 'b task_world \<Rightarrow> bool" where
  "crew_grows w w' \<longleftrightarrow> scheduler_ok w' \<and> (\<forall>j role ds. member j role ds w \<longrightarrow> member j role ds w')"

lemma crew_grows_ids: "crew_grows w w' \<Longrightarrow> task_ids (tw_tasks w) \<subseteq> task_ids (tw_tasks w')"
proof
  fix u
  assume g: "crew_grows w w'" and u: "u \<in> task_ids (tw_tasks w)"
  then obtain r where "bt_get (tw_tasks w) u = Some r" unfolding task_ids_def in_dom_iff by blast
  then have "member u (sn_role (tr_snapshot r)) (sn_dependencies (tr_snapshot r)) w" by (simp add: member_def)
  then show "u \<in> task_ids (tw_tasks w')" using g member_in unfolding crew_grows_def by blast
qed

lemma crew_grows_trans: "crew_grows w w1 \<Longrightarrow> crew_grows w1 w' \<Longrightarrow> crew_grows w w'"
  by (auto simp: crew_grows_def)

lemma create_grows:
  assumes "create en sp w = (Ok i, w')" "scheduler_ok w" "backend_ok en"
  shows "crew_grows w w'" "member i (sp_role sp) (sp_dependencies sp) w'" "i \<notin> task_ids (tw_tasks w)" "i \<in> task_ids (tw_tasks w')"
  using create_member [OF assms] member_in by (auto simp: crew_grows_def)

definition crew_pair :: "task_id \<Rightarrow> 'b task_world \<Rightarrow> task_id \<times> task_id \<Rightarrow> bool" where
  "crew_pair a w p \<longleftrightarrow> member (fst p) ''implementer'' [a] w \<and> member (snd p) ''tester'' [fst p] w"

lemma crew_pair_grows: "crew_grows w w' \<Longrightarrow> crew_pair a w p \<Longrightarrow> crew_pair a w' p"
  by (simp add: crew_grows_def crew_pair_def)

lemma spec_places:
  "sp_role (implementer_spec goal a k n tree) = ''implementer''" "sp_dependencies (implementer_spec goal a k n tree) = [a]"
  "sp_role (tester_spec goal i k n tree) = ''tester''" "sp_dependencies (tester_spec goal i k n tree) = [i]"
  "sp_role (architect_spec goal d) = ''architect''" "sp_dependencies (architect_spec goal d) = []"
  "sp_role (reviewer_spec goal d is) = ''reviewer''" "sp_dependencies (reviewer_spec goal d is) = is"
  "sp_role (browser_spec goal ts) = ''browser''" "sp_dependencies (browser_spec goal ts) = ts"
  by (simp_all add: implementer_spec_def tester_spec_def architect_spec_def reviewer_spec_def browser_spec_def crew_spec_def new_spec_def)

lemma create_pairs_members:
  "create_pairs en goal a n k trees w = (Ok pairs, w') \<Longrightarrow> scheduler_ok w \<Longrightarrow> backend_ok en \<Longrightarrow>
   crew_grows w w' \<and> length pairs = length trees \<and> list_all (crew_pair a w') pairs \<and> distinct (map fst pairs @ map snd pairs) \<and>
   set (map fst pairs @ map snd pairs) \<inter> task_ids (tw_tasks w) = {} \<and> set (map fst pairs @ map snd pairs) \<subseteq> task_ids (tw_tasks w')"
proof (induction trees arbitrary: k w pairs)
  case Nil
  then show ?case by (simp add: ret_def crew_grows_def)
next
  case (Cons tree trees)
  obtain i w1 t w2 rest where s: "create en (implementer_spec goal a k n tree) w = (Ok i, w1)" "create en (tester_spec goal i k n tree) w1 = (Ok t, w2)"
      "create_pairs en goal a n (Suc k) trees w2 = (Ok rest, w')" "pairs = (i, t) # rest"
    using Cons.prems(1) by (auto simp: andthen_Ok ret_def)
  note c1 = create_grows [OF s(1) Cons.prems(2,3)]
  note c2 = create_grows [OF s(2) _ Cons.prems(3)]
  have w1: "scheduler_ok w1" using c1(1) by (simp add: crew_grows_def)
  have w2: "scheduler_ok w2" using c2(1) [OF w1] by (simp add: crew_grows_def)
  note IH = Cons.IH [OF s(3) w2 Cons.prems(3)]
  have g: "crew_grows w w2" "crew_grows w2 w'" "crew_grows w1 w'" using c1(1) c2(1) [OF w1] IH crew_grows_trans by blast+
  have it: "i \<in> task_ids (tw_tasks w2)" "t \<in> task_ids (tw_tasks w2)" "i \<noteq> t" "i \<notin> task_ids (tw_tasks w)" "t \<notin> task_ids (tw_tasks w)"
    using c1(3,4) c2(3,4) [OF w1] crew_grows_ids [OF c2(1) [OF w1]] crew_grows_ids [OF c1(1)] by auto
  have "crew_pair a w2 (i, t)" using c1(2) c2(1,2) [OF w1] by (simp add: crew_pair_def spec_places crew_grows_def)
  then have "crew_pair a w' (i, t)" using crew_pair_grows [OF g(2)] by blast
  then show ?case using s(4) IH it crew_grows_trans [OF g(1,2)] crew_grows_ids [OF g(1)] crew_grows_ids [OF g(2)] by auto
qed

text \<open>
  A crew that was queued is wired as planned: new tasks only, an implementer and a tester for every
  working tree, each implementer behind the architect, each tester behind its implementer, the reviewer
  behind all implementers and the browser operator behind all testers.
\<close>

theorem crew_is_wired:
  assumes "create_crew en goal shared trees w = (Ok ids, w')" "reached w" "backend_ok en"
  shows "\<exists>a pairs r b. ids = a # map fst pairs @ map snd pairs @ [r, b] \<and> length pairs = max 1 (length trees) \<and> distinct ids \<and>
    set ids \<inter> task_ids (tw_tasks w) = {} \<and> member a ''architect'' [] w' \<and>
    list_all (\<lambda>p. member (fst p) ''implementer'' [a] w' \<and> member (snd p) ''tester'' [fst p] w') pairs \<and>
    member r ''reviewer'' (map fst pairs) w' \<and> member b ''browser'' (map snd pairs) w'"
proof -
  have w: "scheduler_ok w" by (rule reached_ok [OF assms(2)])
  let ?trees = "if trees = [] then [case shared of None \<Rightarrow> en_root en | Some d \<Rightarrow> d] else trees"
  obtain a w1 pairs w2 r w3 b where s: "create en (architect_spec goal shared) w = (Ok a, w1)"
      "create_pairs en goal a (length ?trees) 0 ?trees w1 = (Ok pairs, w2)" "create en (reviewer_spec goal shared (map fst pairs)) w2 = (Ok r, w3)"
      "create en (browser_spec goal (map snd pairs)) w3 = (Ok b, w')" "ids = a # map fst pairs @ map snd pairs @ [r, b]"
    using assms(1) by (auto simp: create_crew_def Let_def andthen_Ok lift_res_def ret_def)
  note ca = create_grows [OF s(1) w assms(3)]
  have w1: "scheduler_ok w1" using ca(1) by (simp add: crew_grows_def)
  note cp = create_pairs_members [OF s(2) w1 assms(3)]
  have w2: "scheduler_ok w2" using cp by (simp add: crew_grows_def)
  note cr = create_grows [OF s(3) w2 assms(3)]
  have w3: "scheduler_ok w3" using cr(1) by (simp add: crew_grows_def)
  note cb = create_grows [OF s(4) w3 assms(3)]
  have g: "crew_grows w1 w2" "crew_grows w2 w'" "crew_grows w1 w'" using cp cr(1) cb(1) crew_grows_trans by blast+
  have sub: "task_ids (tw_tasks w) \<subseteq> task_ids (tw_tasks w1)" "task_ids (tw_tasks w1) \<subseteq> task_ids (tw_tasks w2)"
      "task_ids (tw_tasks w2) \<subseteq> task_ids (tw_tasks w3)"
    using crew_grows_ids ca(1) g(1) cr(1) by blast+
  let ?ps = "map fst pairs @ map snd pairs"
  have "distinct ids"
    unfolding s(5) using cp ca(4) cr(3,4) cb(3) sub by auto
  moreover have "set ids \<inter> task_ids (tw_tasks w) = {}" unfolding s(5) using cp ca(3) cr(3) cb(3) sub by auto
  moreover have "member a ''architect'' [] w'" using ca(2) g(3) by (simp add: crew_grows_def spec_places)
  moreover have "list_all (crew_pair a w') pairs" using cp crew_pair_grows [OF g(2)] by (auto simp: list_all_iff)
  moreover have "member r ''reviewer'' (map fst pairs) w'" using cr(2) cb(1) by (simp add: crew_grows_def spec_places)
  moreover have "member b ''browser'' (map snd pairs) w'" using cb(2) by (simp add: spec_places)
  moreover have "length pairs = max 1 (length trees)" using cp by (cases trees) auto
  ultimately show ?thesis using s(5) unfolding crew_pair_def by blast
qed

end
