(* ===== verification/Task_Stall.thy ===== *)
theory Task_Stall
  imports Task_Progress
begin

text \<open>
  A requirement that was left to be inferred inside a group cannot be verified: the refresh that meets it
  fails, and with it every command that refreshes first.
\<close>

section \<open>Requirements that cannot be verified\<close>

text \<open>A requirement whose first part, inside any groups, was left to be inferred.\<close>

fun inferred_first :: "verification_requirement \<Rightarrow> bool" where
  "inferred_first Inferred \<longleftrightarrow> True"
| "inferred_first (AllOf (r # rs)) \<longleftrightarrow> inferred_first r"
| "inferred_first _ \<longleftrightarrow> False"

lemma inferred_first_fails: "inferred_first v \<Longrightarrow> \<exists>e. verify run evs v = Err e"
proof (induction v rule: inferred_first.induct)
  case (2 r rs)
  then obtain e where "verify run evs r = Err e" by auto
  then show ?case by simp
qed auto

section \<open>What the verification of other tasks leaves\<close>

text \<open>A task that waits for the verification of such a requirement.\<close>

definition unjudgeable :: "task_id \<Rightarrow> 'b task_world \<Rightarrow> bool" where
  "unjudgeable i w \<longleftrightarrow>
     (\<exists>r. bt_get (tw_tasks w) i = Some r \<and> sn_state (tr_snapshot r) = Verifying \<and> inferred_first (sn_verification (tr_snapshot r)))"

lemma unjudgeable_replaced:
  assumes "replaced t sn (tw_tasks w) (tw_tasks w')" "t \<noteq> i" "unjudgeable i w"
  shows "unjudgeable i w'"
proof -
  obtain r where r: "bt_get (tw_tasks w) i = Some r" "sn_state (tr_snapshot r) = Verifying" "inferred_first (sn_verification (tr_snapshot r))"
    using assms(3) by (auto simp: unjudgeable_def)
  obtain x where x: "bt_get (tw_tasks w') i = Some (set_snapshot x r)" "trimmed x (tr_snapshot r)"
    using replacedD(2) [OF assms(1) r(1)] assms(2) by auto
  then show ?thesis using r core_eq(1,7) [of x "tr_snapshot r"] by (simp add: unjudgeable_def set_snapshot_def trimmed_def)
qed

lemma unjudgeable_commit: "outside act \<Longrightarrow> bt_get (tw_tasks w) t \<noteq> None \<Longrightarrow> t \<noteq> i \<Longrightarrow> unjudgeable i w \<Longrightarrow>
   unjudgeable i (snd (commit_snapshot en t sn b act w))"
proof -
  assume a: "outside act" "bt_get (tw_tasks w) t \<noteq> None" "t \<noteq> i" "unjudgeable i w"
  obtain res w' where c: "commit_snapshot en t sn b act w = (res, w')" by fastforce
  show ?thesis
    using commit_effect [OF a(1,2) c] unjudgeable_replaced [OF _ a(3,4)] a(4) c by (auto simp: unjudgeable_def split: if_splits)
qed

lemma unjudgeable_update: "t \<noteq> i \<Longrightarrow> unjudgeable i w \<Longrightarrow> unjudgeable i (snd (update_record t f w))"
  by (auto simp: unjudgeable_def update_record_cases split: option.split)

lemma unjudgeable_then:
  "unjudgeable i (snd (m w)) \<Longrightarrow> (\<And>x w'. unjudgeable i w' \<Longrightarrow> unjudgeable i (snd (f x w'))) \<Longrightarrow> unjudgeable i (snd (andthen m f w))"
  by (auto simp: andthen_def split: prod.split sum.split)

lemma unjudgeable_other:
  assumes "t \<noteq> i" "unjudgeable i w"
  shows "unjudgeable i (snd (verify_task en t w))"
proof (cases "bt_get (tw_tasks w) t")
  case None
  then show ?thesis using assms(2) by (simp add: verify_task_def andthen_def the_record_def)
next
  case (Some r)
  let ?sn = "tr_snapshot r"
  have complete: "outside (case sn_assigned_agent ?sn of None \<Rightarrow> ret () | Some a \<Rightarrow> call_out (en_complete_agent en a))"
    by (intro outside_option outside_ops)
  have c: "unjudgeable i (snd (commit_snapshot en t sn b act w))" if "outside act" for sn b act
    by (rule unjudgeable_commit [OF that _ assms]) (simp add: Some)
  have steps: "unjudgeable i (snd (andthen (commit_snapshot en t sn b act) (\<lambda>_. update_record t f) w))" if "outside act" for sn b act f
    by (rule unjudgeable_then) (auto intro: c that unjudgeable_update [OF assms(1)])
  show ?thesis
  proof (cases "verify (verify_command en (sn_worktree ?sn)) (sn_evidence ?sn) (sn_verification ?sn)")
    case (Inl e)
    then show ?thesis using Some assms(2) by (simp add: verify_task_def andthen_def the_record_def lift_res_def Let_def)
  next
    case (Inr outcome)
    then have v: "verify_task en t w = (case outcome of
        Passed evs \<Rightarrow>
          andthen (commit_snapshot en t (verified en evs ?sn) (evs \<noteq> [])
            (case sn_assigned_agent ?sn of None \<Rightarrow> ret () | Some a \<Rightarrow> call_out (en_complete_agent en a))) (\<lambda>_.
          update_record t (\<lambda>q. q\<lparr>tr_next_retry_at_ms := None\<rparr>))
      | StillWaiting \<Rightarrow> commit_snapshot en t (?sn\<lparr>sn_state := Waiting, sn_updated_at_ms := en_now en\<rparr>) False (ret ())
      | FailedWith error evs \<Rightarrow>
          andthen (lift_res (validate_text ''task verification error'' error)) (\<lambda>_.
          andthen (commit_snapshot en t (not_verified en error evs ?sn) (evs \<noteq> []) (cancel_assigned en (sn_assigned_agent ?sn))) (\<lambda>_.
          update_record t (\<lambda>q. q\<lparr>tr_next_retry_at_ms := retry_time en ?sn\<rparr>)))) w"
      using Some by (simp add: verify_task_def andthen_def [of "the_record t"] andthen_def [of "lift_res (Inr outcome)"] the_record_def lift_res_def Let_def)
    show ?thesis
    proof (cases outcome)
      case (Passed evs)
      then show ?thesis unfolding v using steps [OF complete] by simp
    next
      case StillWaiting
      then show ?thesis unfolding v using c [OF outside_basic(1)] by simp
    next
      case (FailedWith error evs)
      then show ?thesis unfolding v using steps [OF outside_cancel] assms(2)
        by (cases "validate_text ''task verification error'' error") (simp_all add: andthen_def [of "lift_res _"] lift_res_def)
    qed
  qed
qed

lemma unjudgeable_stops:
  "i \<in> set xs \<Longrightarrow> unjudgeable i w \<Longrightarrow> \<exists>e w'. each (verify_task en) xs w = (Err e, w') \<and> unjudgeable i w'"
proof (induction xs arbitrary: w)
  case (Cons t xs)
  obtain res w1 where v: "verify_task en t w = (res, w1)" by fastforce
  show ?case
  proof (cases "t = i")
    case True
    obtain r where r: "bt_get (tw_tasks w) i = Some r" "inferred_first (sn_verification (tr_snapshot r))"
      using Cons.prems(2) by (auto simp: unjudgeable_def)
    obtain e where "verify (verify_command en (sn_worktree (tr_snapshot r))) (sn_evidence (tr_snapshot r)) (sn_verification (tr_snapshot r)) = Err e"
      using inferred_first_fails [OF r(2)] by blast
    then have "verify_task en t w = (Err e, w)" using r(1) True by (simp add: verify_task_def andthen_def the_record_def lift_res_def Let_def)
    then show ?thesis using Cons.prems(2) by (simp add: andthen_def)
  next
    case False
    have w1: "unjudgeable i w1" using unjudgeable_other [OF False Cons.prems(2), of en] v by simp
    then show ?thesis using Cons.IH [of w1] Cons.prems(1) False v by (cases res) (auto simp: andthen_def)
  qed
qed simp

section \<open>The stall\<close>

text \<open>The steps of a refresh before verification: the news of the agents and the budgets.\<close>

definition refresh_news :: "'b task_env \<Rightarrow> ('b, unit) task_op" where
  "refresh_news en =
     andthen (call_out (en_refresh_agents en)) (\<lambda>_.
     andthen (call_out (en_agent_snapshots en)) (\<lambda>ags.
     andthen get_world (\<lambda>w.
     andthen (call_out (en_agent_events en (tw_agent_event_cursor w))) (\<lambda>evs.
     andthen (each (take_event en) evs) (\<lambda>_.
     andthen (each (apply_agent_failure en) ags) (\<lambda>_.
     enforce_task_budgets en))))))"

lemma andthen_assoc: "andthen (andthen m f) g = andthen m (\<lambda>x. andthen (f x) g)"
  by (rule ext) (simp add: andthen_def split: prod.split sum.split)

lemma refresh_after_news:
  "refresh en = andthen (refresh_news en) (\<lambda>_. andthen (verify_pending en) (\<lambda>_. andthen (propagate_blocked en) (\<lambda>_.
     andthen (schedule_ready en) (\<lambda>_. persist_tasks en))))"
  unfolding refresh_def refresh_news_def andthen_assoc ..

text \<open>
  Claim C26. A group of requirements may begin with one that was to be inferred: only the outermost
  requirement is resolved at creation, and the checks accept the group. Once such a task is to be verified, every refresh that
  takes in the news of the agents and leaves the task in that state fails and leaves it there, whatever other tasks
  the table holds; and with the refresh fail the commands that refresh first: no task can be cancelled, paused or created.
\<close>

theorem nested_inferred_stalls_scheduler:
  assumes "refresh_news en w = (Ok (), w1)" "unjudgeable i w1"
  shows "validate_verification 0 (AllOf [Inferred]) = Ok () \<and> sp_verification (resolve_spec en (sp\<lparr>sp_verification := AllOf rs\<rparr>)) = AllOf rs \<and>
    (\<exists>e w'. refresh en w = (Err e, w') \<and> unjudgeable i w' \<and> (\<forall>j. cancel en j w = (Err e, w') \<and> pause en j w = (Err e, w')) \<and>
       (\<forall>sp. create en sp w = (Err e, w')))"
proof -
  let ?xs = "map fst (filter (\<lambda>(_, r). sn_state (tr_snapshot r) = Verifying) (tw_tasks w1))"
  have "i \<in> set ?xs" using assms(2) by (force simp: unjudgeable_def dest: bt_get_mem)
  then obtain e w' where v: "each (verify_task en) ?xs w1 = (Err e, w')" "unjudgeable i w'" using unjudgeable_stops assms(2) by blast
  then have "verify_pending en w1 = (Err e, w')" by (simp add: verify_pending_def andthen_def get_world_def)
  then have r: "refresh en w = (Err e, w')" using assms(1) by (simp add: refresh_after_news andthen_def)
  then have "cancel en j w = (Err e, w')" "pause en j w = (Err e, w')" "create en s w = (Err e, w')" for j s
    by (simp_all add: cancel_def pause_def create_def andthen_def)
  then show ?thesis using r v(2) by (auto simp: resolve_spec_def)
qed

end
