(* ===== verification/Task_Demo.thy ===== *)
theory Task_Demo
  imports Task_Crew Task_Stall "HOL-Library.Code_Target_Nat"
begin

text \<open>
  A small environment in which the scheduler of tasks runs, the promises applied to it, and runs that
  show where the scheduler does not do what it is meant to do.
\<close>

section \<open>An environment\<close>

text \<open>An encoding that grows with the records: fixed text around the fields and around each item of evidence.\<close>

definition record_size :: "task_record \<Rightarrow> nat" where
  "record_size r =
     (let sn = tr_snapshot r; optional = (\<lambda>v. case v of None \<Rightarrow> 4 | Some x \<Rightarrow> 2 + length x) in
      512 + length (sn_title sn) + length (sn_goal sn) + length (sn_prompt sn) + length (sn_role sn) + length (sn_worktree sn) +
      optional (sn_assigned_agent sn) + optional (sn_last_error sn) + 256 * length (sn_evidence sn))"

definition demo_size :: "task_record list \<Rightarrow> nat \<Rightarrow> nat" where
  "demo_size rs n = 64 + sum_list (map record_size rs)"

definition demo_env :: "unit task_env" where
  "demo_env =
     \<lparr>en_root = ''/project'', en_now = 5000, en_size = demo_size, en_write = (\<lambda>_ _ out. (Ok (), out)),
      en_refresh_agents = (\<lambda>out. (Ok (), out)), en_create_agent = (\<lambda>_ out. (Ok ''agent-0001'', out)),
      en_agent_snapshots = (\<lambda>out. (Ok [], out)), en_agent_events = (\<lambda>_ out. (Ok [], out)),
      en_prompt_agent = (\<lambda>_ _ out. (Ok (), out)), en_cancel_agent = (\<lambda>_ out. (Ok (), out)),
      en_complete_agent = (\<lambda>_ out. (Ok (), out)), en_run_command = (\<lambda>_ _ _. Ok (Exited (Some 1))),
      en_is_file = (\<lambda>_ _. False), en_real_path = Ok, en_exists = (\<lambda>_. False), en_json_len = (\<lambda>_. 0)\<rparr>"

text \<open>The same with one event of the agent waiting.\<close>

definition says :: "string \<Rightarrow> unit task_env" where
  "says kind =
     demo_env\<lparr>en_agent_events := (\<lambda>_ out. (Ok [\<lparr>ae_sequence = 1, ae_agent_id = ''agent-0001'', ae_timestamp_ms = 5000,
       ae_kind = kind, ae_payload = JNull\<rparr>], out))\<rparr>"

definition demo_spec :: "verification_requirement \<Rightarrow> task_spec" where
  "demo_spec v =
     \<lparr>sp_title = ''fix'', sp_goal = ''fix it'', sp_prompt = ''please fix'', sp_role = ''implementer'', sp_dependencies = [],
      sp_worktree = None, sp_model = None, sp_thinking = None,
      sp_budget = \<lparr>max_runtime_seconds = 60, max_events = 100, max_tokens = None\<rparr>, sp_verification = v,
      sp_retry = \<lparr>max_retries = 2, backoff_seconds = 0\<rparr>\<rparr>"

lemma demo_agents_ok: "agent_id_ok ''agent-0001''"
  by code_simp

lemma demo_backend_ok: "backend_ok demo_env" "backend_ok (says ''ready'')" "backend_ok (says ''agent_settled'')"
  using demo_agents_ok by (auto simp: backend_ok_def demo_env_def says_def event_ok_def text_ok_def MAX_TASK_TEXT_BYTES_def)

text \<open>A task that was created, became ready and settled, whose command then failed: it waits for its retry.\<close>

definition demo_world :: "unit task_world" where
  "demo_world =
     snd (perform (says ''agent_settled'') DoRefresh (snd (perform (says ''ready'') DoRefresh
       (snd (perform demo_env (DoCreate (demo_spec (CommandCheck ''make test'' 0 60))) (no_tasks ()))))))"

lemma demo_reached: "reached demo_world"
  unfolding demo_world_def by (intro reachedI demo_backend_ok)

text \<open>The last write saved the table of the first refresh; that of the second failed.\<close>

definition demo_file :: "unit task_world" where
  "demo_file = snd (perform (says ''ready'') DoRefresh (snd (perform demo_env (DoCreate (demo_spec (CommandCheck ''make test'' 0 60))) (no_tasks ()))))"

lemma demo_life: "life demo_world (Some demo_file)"
  unfolding demo_world_def demo_file_def
  by (rule life.unsaved [OF life.saved [OF life.unsaved [OF life.fresh demo_backend_ok(1)] demo_backend_ok(2,2)] demo_backend_ok(3)])

lemma demo_table: "map (\<lambda>(i, r). (i, sn_state (tr_snapshot r), sn_attempt (tr_snapshot r))) (tw_tasks demo_world) = [(''task-0001'', Ready, 2)]"
  by code_simp

section \<open>The promises applied\<close>

theorem reached_tasks_well_formed_witness:
  "\<exists>r. bt_get (tw_tasks demo_world) ''task-0001'' = Some r \<and> sn_state (tr_snapshot r) = Ready \<and>
     sn_assigned_agent (tr_snapshot r) \<noteq> None \<and> length (sn_evidence (tr_snapshot r)) \<le> 128"
proof -
  have "\<exists>r. bt_get (tw_tasks demo_world) ''task-0001'' = Some r \<and> sn_state (tr_snapshot r) = Ready"
    using demo_table by (auto simp: bt_get_def map_eq_Cons_conv)
  then obtain r where r: "bt_get (tw_tasks demo_world) ''task-0001'' = Some r" "sn_state (tr_snapshot r) = Ready" by blast
  show ?thesis using reached_tasks_well_formed [OF demo_reached r(1) refl] r by blast
qed

theorem saved_tasks_open_again_witness:
  "load_task_checkpoint ''/project'' (checkpoint_of demo_env demo_file) = Ok (tw_tasks demo_file, 2) \<and>
   is_ok (open_tasks demo_env (tw_tasks demo_file)) \<and> map fst (tw_tasks demo_file) = [''task-0001'']"
proof -
  have tab: "map fst (tw_tasks demo_file) = [''task-0001'']" by code_simp
  have "list_all (\<lambda>kv. validate_worktree demo_env (sn_worktree (tr_snapshot (snd kv))) = Ok ()) (tw_tasks demo_file)" by code_simp
  then have "\<forall>i r. bt_get (tw_tasks demo_file) i = Some r \<longrightarrow> validate_worktree demo_env (sn_worktree (tr_snapshot r)) = Ok ()"
    by (force simp: list_all_iff dest: bt_get_mem)
  note saved_tasks_open_again [OF demo_life this]
  moreover have "en_root demo_env = ''/project''" "tw_next_task demo_file = 2" by code_simp+
  ultimately show ?thesis using tab by simp
qed

theorem automatic_attempts_bounded_witness:
  "\<exists>r. bt_get (tw_tasks (run_refreshes [says ''ready'', says ''agent_settled'', says ''ready'', says ''agent_settled''] demo_world)) ''task-0001'' = Some r \<and>
     sn_attempt (tr_snapshot r) \<le> max_retries (sn_retry (tr_snapshot r)) + 1"
proof -
  let ?ens = "[says ''ready'', says ''agent_settled'', says ''ready'', says ''agent_settled'']"
  have "map fst (tw_tasks (run_refreshes ?ens demo_world)) = [''task-0001'']" by code_simp
  then obtain r where r: "bt_get (tw_tasks (run_refreshes ?ens demo_world)) ''task-0001'' = Some r"
    by (auto simp: bt_get_def map_eq_Cons_conv)
  have wf: "bt_wf (tw_tasks demo_world)" using demo_table by (auto simp: bt_wf_def map_eq_Cons_conv)
  have "list_all (\<lambda>kv. sn_attempt (tr_snapshot (snd kv)) \<le> max_retries (sn_retry (tr_snapshot (snd kv))) +
      (if sn_state (tr_snapshot (snd kv)) = Queued then 0 else 1)) (tw_tasks demo_world)" by code_simp
  then have w: "\<forall>i r. bt_get (tw_tasks demo_world) i = Some r \<longrightarrow>
      sn_attempt (tr_snapshot r) \<le> max_retries (sn_retry (tr_snapshot r)) + (if sn_state (tr_snapshot r) = Queued then 0 else 1)"
    by (force simp: list_all_iff dest: bt_get_mem)
  have "\<forall>en \<in> set ?ens. backend_ok en" using demo_backend_ok by simp
  from automatic_attempts_bounded [OF wf this w r] r show ?thesis by blast
qed

text \<open>A chain: the second task waits for the first, which failed, and the third for the second.\<close>

definition demo_snapshot :: "task_id \<Rightarrow> task_id list \<Rightarrow> task_state \<Rightarrow> task_snapshot" where
  "demo_snapshot i ds st = (new_snapshot demo_env i (demo_spec Settled))\<lparr>sn_dependencies := ds, sn_state := st, sn_assigned_agent := None\<rparr>"

definition chain_world :: "unit task_world" where
  "chain_world =
     (no_tasks ())\<lparr>tw_tasks := map (\<lambda>(i, ds, st). (i, \<lparr>tr_snapshot = demo_snapshot i ds st, tr_next_retry_at_ms = None\<rparr>))
       [(''task-0001'', [], Failed), (''task-0002'', [''task-0001''], Queued), (''task-0003'', [''task-0002''], Queued)]\<rparr>"

lemma demo_size_le: "list_all (\<lambda>r. record_size r \<le> 1000) rs \<Longrightarrow> demo_size rs n \<le> 64 + 1000 * length rs"
  by (induction rs) (simp_all add: demo_size_def)

lemma demo_record_small:
  "sn_title sn = ''fix'' \<Longrightarrow> sn_goal sn = ''fix it'' \<Longrightarrow> sn_prompt sn = ''please fix'' \<Longrightarrow> sn_role sn = ''implementer'' \<Longrightarrow>
   sn_worktree sn = ''/project'' \<Longrightarrow> sn_evidence sn = [] \<Longrightarrow> pred_option (\<lambda>a. length a \<le> 64) (sn_assigned_agent sn) \<Longrightarrow>
   pred_option (\<lambda>e. length e \<le> 64) (sn_last_error sn) \<Longrightarrow> record_size (r\<lparr>tr_snapshot := sn\<rparr>) \<le> 1000"
  by (cases "sn_assigned_agent sn"; cases "sn_last_error sn") (simp_all add: record_size_def)

lemma demo_snapshot_fields [simp]:
  "sn_title (demo_snapshot i ds st) = ''fix''" "sn_goal (demo_snapshot i ds st) = ''fix it''" "sn_prompt (demo_snapshot i ds st) = ''please fix''"
  "sn_role (demo_snapshot i ds st) = ''implementer''" "sn_worktree (demo_snapshot i ds st) = ''/project''" "sn_evidence (demo_snapshot i ds st) = []"
  "sn_assigned_agent (demo_snapshot i ds st) = None" "sn_last_error (demo_snapshot i ds st) = None"
  by (simp_all add: demo_snapshot_def new_snapshot_def demo_spec_def demo_env_def)

definition plain_record :: "task_id \<Rightarrow> task_id list \<Rightarrow> task_state \<Rightarrow> task_record" where
  "plain_record i ds st = \<lparr>tr_snapshot = demo_snapshot i ds st, tr_next_retry_at_ms = None\<rparr>"

lemma plain_record_small:
  "record_size (plain_record i ds st) \<le> 1000" "record_size (set_snapshot (blocked demo_env (tr_snapshot (plain_record i ds st))) (plain_record i ds st)) \<le> 1000"
  "length a \<le> 64 \<Longrightarrow> record_size (start_record demo_env a (plain_record i ds st)) \<le> 1000"
  "length a \<le> 64 \<Longrightarrow> record_size (set_snapshot (started demo_env a (tr_snapshot (plain_record i ds st))) q) \<le> 1000"
  by (simp_all add: plain_record_def record_size_def set_snapshot_def blocked_def started_def start_record_def PREREQUISITE_FAILED_def)

lemma chain_room: "room_to_block demo_env chain_world"
  unfolding room_to_block_def
proof (intro allI impI)
  fix D
  let ?rs = "map snd (with_blocked demo_env D (tw_tasks chain_world))"
  have "list_all (\<lambda>r. record_size r \<le> 1000) ?rs" "length ?rs = 3"
    using plain_record_small(1,2) by (simp_all add: chain_world_def with_blocked_def plain_record_def [symmetric])
  then have small: "demo_size ?rs (tw_next_task chain_world) \<le> 3064" using demo_size_le [of ?rs] by fastforce
  have size: "en_size demo_env = demo_size" by (simp add: demo_env_def)
  then show "en_size demo_env ?rs (tw_next_task chain_world) + TASK_CHECKPOINT_MUTATION_RESERVE \<le> MAX_TASK_CHECKPOINT_BYTES"
    unfolding size TASK_CHECKPOINT_MUTATION_RESERVE_def MAX_TASK_CHECKPOINT_BYTES_def using small by linarith
qed

theorem propagate_blocks_the_doomed_witness:
  "\<exists>w'. propagate_blocked demo_env chain_world = (Ok (), w') \<and> state_of (tw_tasks w') ''task-0003'' = Some Blocked \<and>
     state_of (tw_tasks w') ''task-0001'' = Some Failed"
proof -
  let ?T = "tw_tasks chain_world"
  have st: "state_of ?T ''task-0001'' = Some Failed" "state_of ?T ''task-0002'' = Some Queued" "state_of ?T ''task-0003'' = Some Queued"
      "links ?T ''task-0002'' = Some ([''task-0001''], False)" "links ?T ''task-0003'' = Some ([''task-0002''], False)"
    by code_simp+
  have "doomed ?T ''task-0002''" by (rule doomed.direct [OF st(2,4), of "''task-0001''"]) (simp_all add: stuck_def st)
  then have "doomed ?T ''task-0003''" using doomed.behind [OF st(3,5)] by simp
  moreover have "\<not> doomed ?T ''task-0001''" using st(1) by (auto elim: doomed.cases)
  moreover obtain res w' where p: "propagate_blocked demo_env chain_world = (res, w')" by fastforce
  have wf: "bt_wf ?T" by code_simp
  ultimately show ?thesis
    using propagate_blocks_the_doomed [OF p wf, of "''task-0003''"] propagate_blocks_the_doomed [OF p wf, of "''task-0001''"] chain_room p st(1) by auto
qed

theorem finished_tasks_stay_finished_witness:
  "state_of (tw_tasks (run_refreshes [says ''ready'', says ''agent_settled''] chain_world)) ''task-0001'' = Some Failed"
proof (rule finished_tasks_stay_finished)
  show "bt_wf (tw_tasks chain_world)" by code_simp
  show "\<forall>en \<in> set [says ''ready'', says ''agent_settled'']. backend_ok en" using demo_backend_ok by simp
  show "state_of (tw_tasks chain_world) ''task-0001'' = Some Failed" by code_simp
qed simp

text \<open>Two tasks that are ready.\<close>

definition ready_world :: "unit task_world" where
  "ready_world = (no_tasks ())\<lparr>tw_tasks := map (\<lambda>i. (i, plain_record i [] Queued)) [''task-0001'', ''task-0002'']\<rparr>"

lemma ready_fits: "ran f \<subseteq> agents_given demo_env \<Longrightarrow> i \<in> {''task-0001'', ''task-0002''} \<Longrightarrow> start_fits demo_env ready_world f i (plain_record i [] Queued)"
proof -
  assume f: "ran f \<subseteq> agents_given demo_env" and i: "i \<in> {''task-0001'', ''task-0002''}"
  have given: "agents_given demo_env = {''agent-0001''}" by (auto simp: agents_given_def demo_env_def)
  have agent: "length a \<le> 64" if "f x = Some a \<or> a \<in> agents_given demo_env" for x a
  proof -
    have "a \<in> agents_given demo_env" using that f by (meson ranI subsetD)
    then show ?thesis by (simp add: given)
  qed
  have bound: "demo_size rs n + TASK_CHECKPOINT_MUTATION_RESERVE \<le> MAX_TASK_CHECKPOINT_BYTES"
    if "list_all (\<lambda>r. record_size r \<le> 1000) rs" "length rs = 2" for rs n
    using demo_size_le [OF that(1), of n] that(2) by (simp add: TASK_CHECKPOINT_MUTATION_RESERVE_def MAX_TASK_CHECKPOINT_BYTES_def)
  have small: "list_all (\<lambda>r. record_size r \<le> 1000) (map snd (with_started demo_env g (tw_tasks ready_world)))"
    if "\<And>x a. g x = Some a \<Longrightarrow> length a \<le> 64" for g
    using plain_record_small(1,3) that by (auto simp: ready_world_def with_started_def split: option.split)
  have long: "length maximum_length_agent_id \<le> 64" by (simp add: maximum_length_agent_id_def)
  have "list_all (\<lambda>r. record_size r \<le> 1000)
      (checkpoint_records [(i, started demo_env maximum_length_agent_id (tr_snapshot (plain_record i [] Queued)))] (with_started demo_env f (tw_tasks ready_world)))"
    using small [of f, OF agent [OF disjI1]] plain_record_small(4) [OF long]
    by (force simp: checkpoint_records_def list_all_iff bt_get_def split: option.split)
  moreover have "list_all (\<lambda>r. record_size r \<le> 1000) (map snd (with_started demo_env (f(i \<mapsto> a)) (tw_tasks ready_world)))" if "a \<in> agents_given demo_env" for a
    by (rule small) (use agent that in \<open>auto split: if_splits\<close>)
  ultimately show ?thesis
    using bound add_leD1 [OF bound] by (auto simp: start_fits_def demo_env_def ready_world_def with_started_def checkpoint_records_def Let_def)
qed

lemma demo_cooperative: "cooperative demo_env ready_world"
proof -
  have xs: "ready_tasks (en_now demo_env) (tw_tasks ready_world) = [''task-0001'', ''task-0002'']" by code_simp
  have r: "r = plain_record i [] Queued \<and> i \<in> {''task-0001'', ''task-0002''}" if "bt_get (tw_tasks ready_world) i = Some r" for i r
    using that by (auto simp: ready_world_def bt_get_def split: if_splits)
  have "is_ok (fst (en_create_agent demo_env spec out))" for spec out by (simp add: demo_env_def)
  then show ?thesis unfolding cooperative_def using r ready_fits by blast
qed

theorem ready_tasks_are_started_witness:
  "\<exists>w'. schedule_ready demo_env ready_world = (Ok (), w') \<and> state_of (tw_tasks w') ''task-0001'' = Some Ready \<and> state_of (tw_tasks w') ''task-0002'' = Some Ready"
proof -
  have ready: "task_ready (en_now demo_env) (tw_tasks ready_world) (plain_record ''task-0001'' [] Queued)"
      "task_ready (en_now demo_env) (tw_tasks ready_world) (plain_record ''task-0002'' [] Queued)" by code_simp+
  have got: "bt_get (tw_tasks ready_world) ''task-0001'' = Some (plain_record ''task-0001'' [] Queued)"
      "bt_get (tw_tasks ready_world) ''task-0002'' = Some (plain_record ''task-0002'' [] Queued)"
    by (simp_all add: ready_world_def bt_get_def)
  have wf: "bt_wf (tw_tasks ready_world)" by code_simp
  from ready_tasks_are_started [OF wf demo_cooperative] ready got show ?thesis by (fastforce simp: state_of_def started_def)
qed

theorem refresh_leaves_no_work_witness:
  "\<exists>w' r. refresh (says ''ready'') demo_world = (Ok (), w') \<and> bt_get (tw_tasks w') ''task-0001'' = Some r \<and>
     \<not> task_ready 5000 (tw_tasks w') r"
proof -
  have "is_ok (fst (refresh (says ''ready'') demo_world))" "map fst (tw_tasks (snd (refresh (says ''ready'') demo_world))) = [''task-0001'']"
    by code_simp+
  then obtain w' r where r: "refresh (says ''ready'') demo_world = (Ok (), w')" "bt_get (tw_tasks w') ''task-0001'' = Some r"
    by (cases "refresh (says ''ready'') demo_world") (auto simp: is_ok_iff bt_get_def map_eq_Cons_conv)
  have "en_now (says ''ready'') = 5000" by code_simp
  with refresh_leaves_no_work [OF demo_reached demo_backend_ok(2) r] r show ?thesis by auto
qed

theorem crew_is_wired_witness:
  "\<exists>ids w'. create_crew demo_env ''ship'' None [''/project/a'', ''/project/b''] (no_tasks ()) = (Ok ids, w') \<and> length ids = 7 \<and> distinct ids"
proof -
  have "is_ok (fst (create_crew demo_env ''ship'' None [''/project/a'', ''/project/b''] (no_tasks ())))" by code_simp
  then obtain ids w' where c: "create_crew demo_env ''ship'' None [''/project/a'', ''/project/b''] (no_tasks ()) = (Ok ids, w')"
    by (cases "create_crew demo_env ''ship'' None [''/project/a'', ''/project/b''] (no_tasks ())") (auto simp: is_ok_iff)
  obtain a pairs r b where "ids = a # map fst pairs @ map snd pairs @ [r, b]" "length pairs = max 1 (length [''/project/a'', ''/project/b''])" "distinct ids"
    using crew_is_wired [OF c reachedI(1) demo_backend_ok(1)] by blast
  then show ?thesis using c by simp
qed

section \<open>Where the scheduler falls short\<close>

text \<open>A stalled table: the requirement is reached through two groups, and a finished task stands beside it.\<close>

definition stalled_world :: "unit task_world" where
  "stalled_world =
     (no_tasks ())\<lparr>tw_tasks := [(''task-0001'', plain_record ''task-0001'' [] Succeeded),
       (''task-0002'', \<lparr>tr_snapshot = (new_snapshot demo_env ''task-0002'' (demo_spec (AllOf [AllOf [Inferred], Settled])))\<lparr>sn_state := Verifying\<rparr>,
       tr_next_retry_at_ms = None\<rparr>)]\<rparr>"

theorem nested_inferred_stalls_scheduler_witness:
  "\<exists>e w'. cancel demo_env ''task-0002'' stalled_world = (Err e, w') \<and> create demo_env (demo_spec Settled) stalled_world = (Err e, w') \<and> unjudgeable ''task-0002'' w'"
proof -
  have "refresh_news demo_env stalled_world = (Ok (), stalled_world)"
    by (simp add: refresh_news_def demo_env_def call_out_def andthen_def get_world_def ret_def enforce_task_budgets_def stalled_world_def
        budget_exceeded_def new_snapshot_def plain_record_def demo_snapshot_def)
  moreover have "unjudgeable ''task-0002'' stalled_world"
    by (simp add: unjudgeable_def stalled_world_def bt_get_def new_snapshot_def demo_spec_def)
  ultimately show ?thesis using nested_inferred_stalls_scheduler [of demo_env stalled_world stalled_world "''task-0002''"] by blast
qed

text \<open>
  One working tree that is gone, be it of a task that finished long ago, is enough for the
  next start to refuse the whole table.
\<close>

theorem missing_worktree_refuses_table:
  assumes "bt_get tasks i = Some r" "validate_worktree en (sn_worktree (tr_snapshot r)) = Err e"
  shows "\<exists>e'. open_tasks en tasks = Err e'"
proof (cases "open_tasks en tasks")
  case (Inr opened)
  then have "check_all (validate_snapshot en tasks) tasks = Ok ()"
    by (cases "check_all (validate_snapshot en tasks) tasks") (simp_all add: open_tasks_def)
  then have "validate_snapshot en tasks (tr_snapshot r) = Ok ()" using bt_get_mem [OF assms(1)] unfolding check_all_Ok by fastforce
  then have "validate_spec en tasks (spec_of (tr_snapshot r)) = Ok ()"
    by (simp add: validate_snapshot_def res_bind_Inr_iff split: if_splits)
  then have "validate_worktree en (sn_worktree (tr_snapshot r)) = Ok ()"
    by (auto simp: validate_spec_def spec_of_def res_bind_Inr_iff split: if_splits)
  then show ?thesis using assms(2) by simp
qed blast

definition cleaned_env :: "unit task_env" where
  "cleaned_env = demo_env\<lparr>en_real_path := (\<lambda>d. Err (Io d))\<rparr>"

theorem missing_worktree_refuses_table_witness:
  "(\<exists>opened. open_tasks demo_env (tw_tasks chain_world) = Ok opened) \<and> (\<exists>e. open_tasks cleaned_env (tw_tasks chain_world) = Err e)"
proof -
  have "is_ok (open_tasks demo_env (tw_tasks chain_world))" by code_simp
  moreover have "\<exists>e. open_tasks cleaned_env (tw_tasks chain_world) = Err e"
    by (rule missing_worktree_refuses_table [of _ "''task-0001''" "\<lparr>tr_snapshot = demo_snapshot ''task-0001'' [] Failed, tr_next_retry_at_ms = None\<rparr>"])
      (simp_all add: chain_world_def bt_get_def cleaned_env_def validate_worktree_def)
  ultimately show ?thesis by (simp add: is_ok_iff)
qed

text \<open>
  Evidence is not told apart by its attempt when a task is verified: the failed evidence of the first
  attempt fails the second one at once, where an attempt without evidence waits for it.
\<close>

definition second_attempt :: "task_evidence list \<Rightarrow> unit task_world" where
  "second_attempt evs =
     (no_tasks ())\<lparr>tw_tasks := [(''task-0001'', \<lparr>tr_snapshot = (new_snapshot demo_env ''task-0001'' (demo_spec (BrowserWorkflow ''shows'')))\<lparr>
       sn_state := Running, sn_attempt := 2, sn_assigned_agent := Some ''agent-0001'', sn_evidence := evs\<rparr>, tr_next_retry_at_ms = None\<rparr>)]\<rparr>"

definition first_failure :: task_evidence where
  "first_failure = \<lparr>ev_kind = ''browserWorkflow'', ev_actor = ''browser'', ev_source = ''glass'', ev_passed = Some False,
     ev_observed_at_ms = 1, ev_attempt = 1, ev_details = JNull\<rparr>"

lemma retry_judged_by_old_evidence:
  "map (\<lambda>kv. (sn_state (tr_snapshot (snd kv)), sn_attempt (tr_snapshot (snd kv))))
     (tw_tasks (snd (refresh (says ''agent_settled'') (second_attempt [first_failure])))) = [(Ready, 3)]"
  "map (\<lambda>kv. (sn_state (tr_snapshot (snd kv)), sn_attempt (tr_snapshot (snd kv))))
     (tw_tasks (snd (refresh (says ''agent_settled'') (second_attempt [])))) = [(Waiting, 2)]"
  by code_simp+

text \<open>
  The kind of an event comes from the agent as it is. One with a zero byte is stored as evidence and
  saved without complaint, and the next start refuses the checkpoint.
\<close>

lemma event_kind_spoils_checkpoint:
  "is_ok (fst (refresh (says [CHR 0x00]) (second_attempt [])))"
  "\<not> is_ok (open_tasks demo_env (tw_tasks (snd (refresh (says [CHR 0x00]) (second_attempt [])))))"
  "is_ok (open_tasks demo_env (tw_tasks (second_attempt [])))"
  by code_simp+

end
