(* ===== verification/Loop_Detect.thy ===== *)
theory Loop_Detect
  imports Prelude
begin

text \<open>
  Detection of repeated tool calls (\<^verbatim>\<open>crates/glass-core/src/loop_detect.rs\<close>): a ring of the hashes
  of the last calls and a flag that keeps the reminder to one per turn. The digest of the \<open>ring\<close>
  crate is a parameter.
\<close>

definition WINDOW :: nat where "WINDOW = 10"
definition TRIGGER :: nat where "TRIGGER = 5"

type_synonym bytes = "8 word list"

record 'h loop_window =
  lw_hashes :: "'h list"
  lw_fired :: bool

definition loop_new :: "'h loop_window" where
  "loop_new = \<lparr>lw_hashes = [], lw_fired = False\<rparr>"

definition call_hash :: "(bytes \<Rightarrow> 'h) \<Rightarrow> bytes \<Rightarrow> bytes \<Rightarrow> 'h" where
  "call_hash digest name arguments = digest (name @ [0] @ arguments)"

definition loop_record :: "(bytes \<Rightarrow> 'h) \<Rightarrow> bytes \<Rightarrow> bytes \<Rightarrow> 'h loop_window \<Rightarrow> bool \<times> 'h loop_window" where
  "loop_record digest name arguments w =
     (let h = call_hash digest name arguments;
          hashes = ring_push WINDOW h (lw_hashes w);
          repeats = length (filter (\<lambda>x. x = h) hashes)
      in if repeats \<ge> TRIGGER \<and> \<not> lw_fired w
         then (True, \<lparr>lw_hashes = hashes, lw_fired = True\<rparr>)
         else (False, w\<lparr>lw_hashes := hashes\<rparr>))"

definition loop_clear :: "'h loop_window \<Rightarrow> 'h loop_window" where
  "loop_clear w = w\<lparr>lw_hashes := [], lw_fired := False\<rparr>"

section \<open>A turn of calls\<close>

type_synonym call = "bytes \<times> bytes"

fun loop_turn :: "(bytes \<Rightarrow> 'h) \<Rightarrow> call list \<Rightarrow> 'h loop_window \<Rightarrow> bool list \<times> 'h loop_window" where
  "loop_turn digest [] w = ([], w)"
| "loop_turn digest (c # cs) w =
     (let (r, w1) = loop_record digest (fst c) (snd c) w; (rs, w2) = loop_turn digest cs w1 in (r # rs, w2))"

text \<open>The specification: the last calls that fit in the window, and whether the newest is among them often enough.\<close>

definition recent :: "'a list \<Rightarrow> 'a list" where
  "recent cs = drop (length cs - WINDOW) cs"

definition too_many :: "call list \<Rightarrow> bool" where
  "too_many cs \<longleftrightarrow> cs \<noteq> [] \<and> TRIGGER \<le> count_list (recent cs) (last cs)"

lemma ring_push_recent: "ring_push WINDOW x (recent xs) = recent (xs @ [x])"
proof (cases "length xs < WINDOW")
  case True
  then show ?thesis by (simp add: ring_push_def recent_def pop_front_while_longer_eq WINDOW_def)
next
  case False
  then have "Suc (length xs) - 10 = Suc (length xs - 10)" by (simp add: WINDOW_def)
  with False show ?thesis by (simp add: ring_push_def recent_def pop_front_while_longer_eq WINDOW_def)
qed

definition ever_too_many :: "call list \<Rightarrow> bool" where
  "ever_too_many cs \<longleftrightarrow> (\<exists>j < length cs. too_many (take (Suc j) cs))"

lemma ever_snoc: "ever_too_many (cs @ [c]) \<longleftrightarrow> ever_too_many cs \<or> too_many (cs @ [c])"
  by (auto simp: ever_too_many_def less_Suc_eq)

definition window_of :: "(bytes \<Rightarrow> 'h) \<Rightarrow> call list \<Rightarrow> 'h loop_window" where
  "window_of digest cs =
     \<lparr>lw_hashes = map (\<lambda>c. call_hash digest (fst c) (snd c)) (recent cs), lw_fired = ever_too_many cs\<rparr>"

text \<open>
  What the detector relies on: the digest tells the calls of the turn apart, and no tool name holds
  the byte zero that separates it from the arguments.
\<close>

definition distinguishes :: "(bytes \<Rightarrow> 'h) \<Rightarrow> call list \<Rightarrow> bool" where
  "distinguishes digest cs \<longleftrightarrow>
     inj_on digest ((\<lambda>c. fst c @ [0] @ snd c) ` set cs) \<and> (\<forall>c \<in> set cs. 0 \<notin> set (fst c))"

lemma append_sep_inj: "0 \<notin> set a \<Longrightarrow> 0 \<notin> set b \<Longrightarrow> a @ [0] @ x = b @ [0] @ y \<Longrightarrow> a = b \<and> x = y"
  for a b x y :: bytes
proof (induction a arbitrary: b)
  case Nil
  then show ?case by (cases b) auto
next
  case (Cons w a)
  then show ?case by (cases b) auto
qed

lemma call_hash_eq:
  assumes "distinguishes digest cs" "c \<in> set cs" "d \<in> set cs"
  shows "call_hash digest (fst c) (snd c) = call_hash digest (fst d) (snd d) \<longleftrightarrow> c = d"
proof
  assume "call_hash digest (fst c) (snd c) = call_hash digest (fst d) (snd d)"
  then have "fst c @ [0] @ snd c = fst d @ [0] @ snd d"
    using assms by (auto simp: call_hash_def distinguishes_def dest: inj_onD)
  with assms append_sep_inj [of "fst c" "fst d"] show "c = d" by (auto simp: distinguishes_def prod_eq_iff)
qed simp

lemma set_recent: "set (recent cs) \<subseteq> set cs"
  by (auto simp: recent_def dest: in_set_dropD)

lemma recent_map: "recent (map f xs) = map f (recent xs)"
  by (simp add: recent_def drop_map)

lemma count_list_filter: "count_list xs c = length (filter (\<lambda>x. x = c) xs)"
  by (induction xs) auto

lemma record_window:
  assumes d: "distinguishes digest (cs @ [c])"
  shows "loop_record digest (fst c) (snd c) (window_of digest cs) =
    (too_many (cs @ [c]) \<and> \<not> ever_too_many cs, window_of digest (cs @ [c]))"
proof -
  let ?h = "\<lambda>c. call_hash digest (fst c) (snd c)"
  have ring: "ring_push WINDOW (?h c) (map ?h (recent cs)) = map ?h (recent (cs @ [c]))"
    using ring_push_recent [of "?h c" "map ?h cs"] by (simp add: recent_map [symmetric])
  have "filter (\<lambda>x. x = ?h c) (map ?h xs) = map ?h (filter (\<lambda>x. x = c) xs)" if "set xs \<subseteq> set (cs @ [c])" for xs
    using that call_hash_eq [OF d] by (induction xs) auto
  from arg_cong [OF this [OF set_recent], of length]
  have "length (filter (\<lambda>x. x = ?h c) (map ?h (recent (cs @ [c])))) = length (filter (\<lambda>x. x = c) (recent (cs @ [c])))"
    by (simp del: filter_map length_filter_map)
  then have "length (filter (\<lambda>x. x = ?h c) (map ?h (recent (cs @ [c])))) = count_list (recent (cs @ [c])) c"
    by (simp add: count_list_filter del: filter_map length_filter_map)
  then show ?thesis
    by (auto simp: loop_record_def Let_def window_of_def ring too_many_def ever_snoc)
qed

lemma turn_window:
  assumes "distinguishes digest (ps @ cs)"
  shows "fst (loop_turn digest cs (window_of digest ps)) =
    map (\<lambda>i. too_many (ps @ take (Suc i) cs) \<and> \<not> ever_too_many (ps @ take i cs)) [0..<length cs]"
  using assms
proof (induction cs arbitrary: ps)
  case (Cons c cs)
  have d: "distinguishes digest (ps @ [c])"
    using Cons.prems by (auto simp: distinguishes_def intro: inj_on_subset)
  have "fst (loop_turn digest (c # cs) (window_of digest ps)) =
      (too_many (ps @ [c]) \<and> \<not> ever_too_many ps) # fst (loop_turn digest cs (window_of digest (ps @ [c])))"
    by (simp add: record_window [OF d] split: prod.split)
  also have "fst (loop_turn digest cs (window_of digest (ps @ [c]))) =
      map (\<lambda>i. too_many (ps @ [c] @ take (Suc i) cs) \<and> \<not> ever_too_many (ps @ [c] @ take i cs)) [0..<length cs]"
    using Cons.IH [of "ps @ [c]"] Cons.prems by simp
  finally show ?case
    unfolding list.size(4) add_Suc_right add_0_right upt_conv_Cons [OF zero_less_Suc] map_Suc_upt [symmetric]
    by simp
qed simp

text \<open>
  In a turn the reminder is raised at the first call that is repeated often enough within
  the window of recent calls, and at no later one.
\<close>

theorem reminder_at_first_repeat:
  assumes "distinguishes digest cs" "i < length cs"
  shows "fst (loop_turn digest cs loop_new) ! i \<longleftrightarrow>
    too_many (take (Suc i) cs) \<and> (\<forall>j < i. \<not> too_many (take (Suc j) cs))"
proof -
  have new: "loop_new = window_of digest []"
    by (simp add: loop_new_def window_of_def recent_def ever_too_many_def)
  have "ever_too_many (take i cs) \<longleftrightarrow> (\<exists>j < i. too_many (take (Suc j) cs))"
    using assms(2) by (auto simp: ever_too_many_def min_absorb1 Suc_le_eq)
  then show ?thesis
    using turn_window [of digest "[]" cs] assms by (simp add: new)
qed

theorem reminder_at_first_repeat_witness:
  "fst (loop_turn id (replicate 7 ([1], [2])) (loop_new :: bytes loop_window)) ! 4"
proof -
  have "distinguishes id (replicate 7 ([1], [2]))" by (simp add: distinguishes_def)
  moreover have "too_many (take (Suc 4) (replicate 7 ([1], [2])))"
    by (simp add: too_many_def recent_def WINDOW_def TRIGGER_def numeral_eq_Suc)
  moreover have "\<not> too_many (take (Suc j) (replicate 7 ([1], [2])))" if "j < 4" for j
    using that by (auto simp: too_many_def recent_def WINDOW_def TRIGGER_def numeral_eq_Suc less_Suc_eq)
  ultimately show ?thesis
    using reminder_at_first_repeat [of id "replicate 7 ([1], [2])" 4] by simp
qed

text \<open>
  Once the reminder was raised it stays silent for the rest of the turn, also for a
  different call that is then repeated.
\<close>

theorem second_loop_is_silent:
  assumes "lw_fired w"
  shows "fst (loop_turn digest cs w) = replicate (length cs) False"
proof -
  have "\<not> fst (loop_record digest n a w) \<and> lw_fired (snd (loop_record digest n a w))" if "lw_fired w" for n a and w :: "'a loop_window"
    using that by (simp add: loop_record_def Let_def)
  note silent = this
  show ?thesis
    using assms
  proof (induction cs arbitrary: w)
    case (Cons c cs)
    let ?r = "loop_record digest (fst c) (snd c) w"
    have "fst (loop_turn digest (c # cs) w) = fst ?r # fst (loop_turn digest cs (snd ?r))"
      by (simp split: prod.split)
    then show ?case using silent [OF Cons.prems] Cons.IH by simp
  qed simp
qed

theorem second_loop_is_silent_witness:
  "fst (loop_turn id (replicate 6 ([3], [4])) \<lparr>lw_hashes = [] :: bytes list, lw_fired = True\<rparr>) = replicate 6 False"
  using second_loop_is_silent [of "\<lparr>lw_hashes = [] :: bytes list, lw_fired = True\<rparr>" id "replicate 6 ([3], [4])"] by simp

end
