(* ===== verification/Tool_Waves.thy ===== *)
theory Tool_Waves
  imports Prelude
begin

text \<open>
  The planning of tool calls into waves (\<^verbatim>\<open>crates/glass-core/src/concurrency.rs\<close>). A wave is a set of
  calls that run at the same time; within a wave results may finish in any order, and the batch is
  put back into call order at the end. How a shell command is classified is not part of the model.
\<close>

datatype tool_class = Parallel | Keyed string | Serial

definition MAX_PARALLEL :: nat where
  "MAX_PARALLEL = 8"

record tool_call =
  tc_index :: nat
  tc_class :: tool_class

type_synonym plan = "tool_call list"

section \<open>Waves\<close>

record wave_state =
  ws_waves :: "nat list list"
  ws_cur :: "nat list"
  ws_claimed :: "string list"

definition flush_wave :: "wave_state \<Rightarrow> wave_state" where
  "flush_wave s = \<lparr>ws_waves = ws_waves s @ [ws_cur s], ws_cur = [], ws_claimed = []\<rparr>"

definition flush_if :: "bool \<Rightarrow> wave_state \<Rightarrow> wave_state" where
  "flush_if b s = (if b then flush_wave s else s)"

definition wave_step :: "nat \<Rightarrow> tool_call \<Rightarrow> wave_state \<Rightarrow> wave_state" where
  "wave_step cap c s =
     (case tc_class c of
        Serial \<Rightarrow>
          let s1 = flush_if (ws_cur s \<noteq> []) s in s1\<lparr>ws_waves := ws_waves s1 @ [[tc_index c]]\<rparr>
      | Keyed key \<Rightarrow>
          let s1 = flush_if (key \<in> set (ws_claimed s)) s; s2 = flush_if (length (ws_cur s1) \<ge> cap) s1
          in s2\<lparr>ws_claimed := key # ws_claimed s2, ws_cur := ws_cur s2 @ [tc_index c]\<rparr>
      | Parallel \<Rightarrow>
          let s1 = flush_if (length (ws_cur s) \<ge> cap) s in s1\<lparr>ws_cur := ws_cur s1 @ [tc_index c]\<rparr>)"

definition waves :: "plan \<Rightarrow> nat \<Rightarrow> nat list list" where
  "waves calls max_parallel =
     (let s = fold (wave_step (max max_parallel 1)) calls \<lparr>ws_waves = [], ws_cur = [], ws_claimed = []\<rparr>
      in if ws_cur s \<noteq> [] then ws_waves s @ [ws_cur s] else ws_waves s)"

definition needs_parallelism :: "plan \<Rightarrow> bool" where
  "needs_parallelism calls \<longleftrightarrow> length calls \<ge> 2 \<and> list_ex (\<lambda>c. tc_class c = Parallel) calls"

definition with_serial :: "nat option \<Rightarrow> plan \<Rightarrow> plan" where
  "with_serial index calls =
     (case index of
        None \<Rightarrow> calls
      | Some i \<Rightarrow> map (\<lambda>c. if tc_index c = i then c\<lparr>tc_class := Serial\<rparr> else c) calls)"

section \<open>Execution\<close>

datatype 'a tool_result = ToolOk 'a | ToolPanicked

text \<open>
  A tool either returns or panics; the threads of a wave are joined in the order they were started,
  so a wave yields its results in the order of the wave. Results are kept by call index, a later
  result of the same index replacing an earlier one.
\<close>

definition run_wave :: "(nat \<Rightarrow> 'a tool_result) \<Rightarrow> nat list \<Rightarrow> (nat \<times> 'a tool_result) list" where
  "run_wave f wave = map (\<lambda>i. (i, f i)) wave"

definition reorder :: "(nat \<rightharpoonup> 'a) \<Rightarrow> (nat \<times> 'a) list" where
  "reorder finished = map (\<lambda>i. (i, the (finished i))) (sorted_list_of_set (dom finished))"

definition wave_done :: "(nat \<Rightarrow> 'a tool_result) \<Rightarrow> nat list \<Rightarrow> (nat \<rightharpoonup> 'a tool_result)" where
  "wave_done f wave =
     (if length wave = 1 then [hd wave \<mapsto> f (hd wave)] else map_of (rev (run_wave f wave)))"

definition execute :: "(nat \<Rightarrow> 'a tool_result) \<Rightarrow> plan \<Rightarrow> nat \<Rightarrow> (nat \<times> 'a tool_result) list" where
  "execute f calls max_parallel =
     reorder (fold (\<lambda>wave done. done ++ wave_done f wave) (waves calls max_parallel) Map.empty)"

section \<open>What a plan guarantees\<close>

fun call_key :: "tool_call \<Rightarrow> string option" where
  "call_key c = (case tc_class c of Keyed k \<Rightarrow> Some k | _ \<Rightarrow> None)"

definition call_keys :: "tool_call list \<Rightarrow> string list" where
  "call_keys = List.map_filter call_key"

text \<open>A sound wave: within the cap, no path twice, and a serial call alone.\<close>

definition wave_sound :: "nat \<Rightarrow> tool_call list \<Rightarrow> bool" where
  "wave_sound cap w \<longleftrightarrow>
     w \<noteq> [] \<and> length w \<le> cap \<and> distinct (call_keys w) \<and> (list_ex (\<lambda>c. tc_class c = Serial) w \<longrightarrow> length w = 1)"

text \<open>While a wave is being filled: the waves done are sound, and the current one is sound but may be empty.\<close>

definition filling :: "nat \<Rightarrow> tool_call list \<Rightarrow> wave_state \<Rightarrow> bool" where
  "filling cap calls s \<longleftrightarrow>
     (\<exists>ws cur. concat ws @ cur = calls \<and> ws_waves s = map (map tc_index) ws \<and> ws_cur s = map tc_index cur \<and>
        set (ws_claimed s) = set (call_keys cur) \<and> list_all (wave_sound cap) ws \<and> length cur \<le> cap \<and>
        distinct (call_keys cur) \<and> \<not> list_ex (\<lambda>c. tc_class c = Serial) cur)"

lemma call_keys_simps [simp]:
  "call_keys [] = []" "call_keys (xs @ ys) = call_keys xs @ call_keys ys"
  "call_keys (c # xs) = (case tc_class c of Keyed k \<Rightarrow> k # call_keys xs | _ \<Rightarrow> call_keys xs)"
  by (simp_all add: call_keys_def List.map_filter_def split: tool_class.split)

lemma filling_start: "filling cap [] \<lparr>ws_waves = [], ws_cur = [], ws_claimed = []\<rparr>"
  by (auto simp: filling_def)

lemma filling_flush:
  assumes "filling cap calls s" "b \<Longrightarrow> ws_cur s \<noteq> []"
  shows "filling cap calls (flush_if b s)"
proof (cases b)
  case True
  obtain ws cur where "concat ws @ cur = calls" "ws_waves s = map (map tc_index) ws" "ws_cur s = map tc_index cur"
      "list_all (wave_sound cap) ws" "length cur \<le> cap" "distinct (call_keys cur)" "\<not> list_ex (\<lambda>c. tc_class c = Serial) cur"
    using assms(1) by (auto simp: filling_def)
  with True assms(2) show ?thesis
    by (auto simp: filling_def flush_if_def flush_wave_def wave_sound_def intro!: exI [of _ "ws @ [cur]"])
qed (use assms in \<open>simp add: flush_if_def\<close>)

lemma filling_add:
  assumes "filling cap calls s" "length (ws_cur s) < cap" "tc_class c \<noteq> Serial"
    "\<And>k. tc_class c = Keyed k \<Longrightarrow> k \<notin> set (ws_claimed s)"
    "s' = s\<lparr>ws_claimed := (case tc_class c of Keyed k \<Rightarrow> k # ws_claimed s | _ \<Rightarrow> ws_claimed s),
            ws_cur := ws_cur s @ [tc_index c]\<rparr>"
  shows "filling cap (calls @ [c]) s'"
proof -
  obtain ws cur where "concat ws @ cur = calls" "ws_waves s = map (map tc_index) ws" "ws_cur s = map tc_index cur"
      "set (ws_claimed s) = set (call_keys cur)" "list_all (wave_sound cap) ws" "length cur \<le> cap"
      "distinct (call_keys cur)" "\<not> list_ex (\<lambda>c. tc_class c = Serial) cur"
    using assms(1) by (auto simp: filling_def)
  with assms(2-5) show ?thesis
    by (auto simp: filling_def split: tool_class.split intro!: exI [of _ ws] exI [of _ "cur @ [c]"])
qed

lemma flush_if_cur: "ws_cur (flush_if b s) = (if b then [] else ws_cur s)"
  "ws_claimed (flush_if b s) = (if b then [] else ws_claimed s)"
  by (simp_all add: flush_if_def flush_wave_def)

lemma filling_claimed: "filling cap calls s \<Longrightarrow> ws_claimed s \<noteq> [] \<Longrightarrow> ws_cur s \<noteq> []"
  by (auto simp: filling_def)

lemma filling_step:
  assumes f: "filling cap calls s" and cap: "0 < cap"
  shows "filling cap (calls @ [c]) (wave_step cap c s)"
proof (cases "tc_class c")
  case Serial
  let ?s = "flush_if (ws_cur s \<noteq> []) s"
  have "filling cap calls ?s" using filling_flush [OF f] by blast
  then obtain ws cur where ws: "concat ws @ cur = calls" "ws_waves ?s = map (map tc_index) ws" "ws_cur ?s = map tc_index cur"
      "set (ws_claimed ?s) = set (call_keys cur)" "list_all (wave_sound cap) ws"
    by (auto simp: filling_def)
  have "ws_cur ?s = []" by (simp add: flush_if_cur)
  with ws Serial cap show ?thesis
    by (auto simp: wave_step_def Let_def filling_def wave_sound_def intro!: exI [of _ "ws @ [[c]]"])
next
  case (Keyed key)
  let ?s1 = "flush_if (key \<in> set (ws_claimed s)) s"
  let ?s2 = "flush_if (length (ws_cur ?s1) \<ge> cap) ?s1"
  have f1: "filling cap calls ?s1"
    by (rule filling_flush [OF f]) (use filling_claimed [OF f] in \<open>cases "ws_claimed s"; simp\<close>)
  have f2: "filling cap calls ?s2" by (rule filling_flush [OF f1]) (use cap in auto)
  have "length (ws_cur ?s2) < cap" "key \<notin> set (ws_claimed ?s2)" using cap by (auto simp: flush_if_cur)
  then show ?thesis using filling_add [OF f2, of c] Keyed by (simp add: wave_step_def Let_def)
next
  case Parallel
  let ?s1 = "flush_if (length (ws_cur s) \<ge> cap) s"
  have f1: "filling cap calls ?s1" by (rule filling_flush [OF f]) (use cap in auto)
  have "length (ws_cur ?s1) < cap" using cap by (auto simp: flush_if_cur)
  then show ?thesis using filling_add [OF f1, of c] Parallel by (simp add: wave_step_def Let_def)
qed

lemma filling_fold: "filling cap done s \<Longrightarrow> 0 < cap \<Longrightarrow> filling cap (done @ calls) (fold (wave_step cap) calls s)"
proof (induction calls arbitrary: "done" s)
  case (Cons c calls)
  then show ?case using filling_step [of cap "done" s c] by fastforce
qed simp

lemma waves_split:
  "\<exists>ws. waves calls n = map (map tc_index) ws \<and> concat ws = calls \<and> list_all (wave_sound (max n 1)) ws"
proof -
  let ?s = "fold (wave_step (max n 1)) calls \<lparr>ws_waves = [], ws_cur = [], ws_claimed = []\<rparr>"
  have "filling (max n 1) calls ?s" using filling_fold [OF filling_start, of "max n 1" calls] by simp
  then obtain ws cur where f: "concat ws @ cur = calls" "ws_waves ?s = map (map tc_index) ws"
      "ws_cur ?s = map tc_index cur" "list_all (wave_sound (max n 1)) ws" "length cur \<le> max n 1"
      "distinct (call_keys cur)" "\<not> list_ex (\<lambda>c. tc_class c = Serial) cur"
    unfolding filling_def by blast
  show ?thesis
  proof (cases "cur = []")
    case True
    with f have "waves calls n = map (map tc_index) ws" "concat ws = calls" by (simp_all add: waves_def Let_def)
    with f(4) show ?thesis by blast
  next
    case False
    with f have "waves calls n = map (map tc_index) (ws @ [cur])" "concat (ws @ [cur]) = calls"
      by (simp_all add: waves_def Let_def)
    moreover have "list_all (wave_sound (max n 1)) (ws @ [cur])" using f False by (simp add: wave_sound_def)
    ultimately show ?thesis by blast
  qed
qed

lemma concat_waves: "concat (waves calls n) = map tc_index calls"
proof -
  obtain ws where "waves calls n = map (map tc_index) ws" "concat ws = calls"
    using waves_split [of calls n] by blast
  then show ?thesis by (metis map_concat)
qed

text \<open>
  The waves of a plan hold its calls once each and in call order; no wave exceeds the cap
  (at least one), two calls that write the same path are never in one wave, and a serial call is
  alone in its wave.
\<close>

theorem waves_sound:
  "\<exists>ws. waves calls n = map (map tc_index) ws \<and> concat ws = calls \<and>
     (\<forall>w. w \<in> set ws \<longrightarrow> wave_sound (max n 1) w)"
  using waves_split [of calls n] by (metis list_all_iff)

theorem waves_sound_witness:
  "\<exists>ws. waves [\<lparr>tc_index = 0, tc_class = Keyed ''a''\<rparr>, \<lparr>tc_index = 1, tc_class = Keyed ''a''\<rparr>] 4 = map (map tc_index) ws \<and>
     (\<exists>w. w \<in> set ws \<and> wave_sound 4 w)"
proof -
  let ?calls = "[\<lparr>tc_index = 0, tc_class = Keyed ''a''\<rparr>, \<lparr>tc_index = 1, tc_class = Keyed ''a''\<rparr>]"
  obtain ws where ws: "waves ?calls 4 = map (map tc_index) ws" "concat ws = ?calls"
      "\<forall>w. w \<in> set ws \<longrightarrow> wave_sound (max 4 1) w"
    using waves_sound [of ?calls 4] by blast
  moreover from ws(2) obtain w where "w \<in> set ws" by (cases ws) auto
  ultimately show ?thesis by auto
qed

section \<open>What a batch returns\<close>

lemma run_wave_map_of: "map_of (rev (run_wave f w)) i = (if i \<in> set w then Some (f i) else None)"
proof -
  have "map_of (rev (run_wave f w)) = map_of (map (\<lambda>i. (i, f i)) (rev w))" by (simp add: run_wave_def rev_map)
  then show ?thesis by (simp add: map_of_map_restrict restrict_map_def)
qed

lemma wave_results: "done ++ wave_done f w = (\<lambda>i. if i \<in> set w then Some (f i) else done i)"
proof
  fix i
  have "wave_done f w i = (if i \<in> set w then Some (f i) else None)"
    by (cases "length w = 1") (auto simp: wave_done_def run_wave_map_of length_Suc_conv)
  then show "(done ++ wave_done f w) i = (if i \<in> set w then Some (f i) else done i)" by (simp add: map_add_def)
qed

lemma done_results:
  "fold (\<lambda>wave done. done ++ wave_done f wave) ws m =
   (\<lambda>i. if i \<in> set (concat ws) then Some (f i) else m i)"
  by (induction ws arbitrary: m) (auto simp: wave_results)

text \<open>
  A batch returns one result for every call index that was planned, whichever way the
  calls were grouped and whatever the cap: the result of running that call, a panic included, and
  the results are in increasing order of call index.
\<close>

theorem execute_reports_in_call_order:
  "execute f calls n = map (\<lambda>i. (i, f i)) (sorted_list_of_set (tc_index ` set calls))"
proof -
  have d: "fold (\<lambda>wave done. done ++ wave_done f wave) (waves calls n) Map.empty =
      (\<lambda>i. if i \<in> tc_index ` set calls then Some (f i) else None)"
    unfolding done_results concat_waves by simp
  then have "dom (fold (\<lambda>wave done. done ++ wave_done f wave) (waves calls n) Map.empty) = tc_index ` set calls"
    by (auto simp: dom_def)
  with d show ?thesis by (simp add: execute_def reorder_def)
qed

text \<open>
  Forcing a call to be serial keeps the calls and their order, and every wave of the new
  plan that holds that call holds nothing else.
\<close>

theorem forced_serial_runs_alone:
  assumes "w \<in> set (waves (with_serial (Some i) calls) n)" "i \<in> set w"
  shows "w = [i] \<and> concat (waves (with_serial (Some i) calls) n) = map tc_index calls"
proof -
  let ?p = "with_serial (Some i) calls"
  obtain ws where ws: "waves ?p n = map (map tc_index) ws" "concat ws = ?p" "list_all (wave_sound (max n 1)) ws"
    using waves_split [of ?p n] by blast
  then obtain v where v: "v \<in> set ws" "w = map tc_index v" using assms(1) by auto
  then obtain c where c: "c \<in> set v" "tc_index c = i" using assms(2) by auto
  have "c \<in> set ?p" using v c ws(2) by (metis UN_I set_concat)
  then have "c \<in> (\<lambda>d. if tc_index d = i then d\<lparr>tc_class := Serial\<rparr> else d) ` set calls"
    unfolding with_serial_def by simp
  then obtain d where d: "c = (if tc_index d = i then d\<lparr>tc_class := Serial\<rparr> else d)" by (rule imageE)
  have "tc_class c = Serial"
  proof (cases "tc_index d = i")
    case False
    with c(2) d show ?thesis by simp
  qed (simp add: d)
  moreover have "wave_sound (max n 1) v" using ws(3) v(1) by (simp add: list_all_iff)
  ultimately have "length v = 1" using c(1) by (auto simp: wave_sound_def list_ex_iff)
  then obtain x where "v = [x]" by (metis One_nat_def length_0_conv length_Suc_conv)
  then have "w = [i]" using c v by simp
  moreover have "map tc_index ?p = map tc_index calls" by (simp add: with_serial_def)
  ultimately show ?thesis by (simp add: concat_waves)
qed

theorem forced_serial_runs_alone_witness:
  "[1] \<in> set (waves (with_serial (Some 1) [\<lparr>tc_index = 0, tc_class = Parallel\<rparr>, \<lparr>tc_index = 1, tc_class = Parallel\<rparr>]) 8) \<and>
   concat (waves (with_serial (Some 1) [\<lparr>tc_index = 0, tc_class = Parallel\<rparr>, \<lparr>tc_index = 1, tc_class = Parallel\<rparr>]) 8) = [0, 1]"
proof -
  let ?p = "[\<lparr>tc_index = 0, tc_class = Parallel\<rparr>, \<lparr>tc_index = 1, tc_class = Parallel\<rparr>]"
  have w: "[1] \<in> set (waves (with_serial (Some 1) ?p) 8)"
    by (simp add: with_serial_def waves_def wave_step_def flush_if_def flush_wave_def)
  show ?thesis using w forced_serial_runs_alone [OF w] by simp
qed

end
