(* ===== verification/Unicode_Text.thy ===== *)
theory Unicode_Text
  imports Prelude
begin

text \<open>
  Rust strings as lists of Unicode scalar values, with the whitespace functions of \<open>str\<close> and the
  decimal numbers that \<open>to_string\<close> prints and \<open>parse\<close> reads.
\<close>

type_synonym utext = "nat list"

section \<open>White space\<close>

text \<open>\<open>char::is_whitespace\<close>, the code points with the Unicode property \<open>White_Space\<close>.\<close>

definition is_whitespace :: "nat \<Rightarrow> bool" where
  "is_whitespace c \<longleftrightarrow>
     9 \<le> c \<and> c \<le> 13 \<or> c = 32 \<or> c = 0x85 \<or> c = 0xA0 \<or> c = 0x1680 \<or> 0x2000 \<le> c \<and> c \<le> 0x200A \<or>
     c = 0x2028 \<or> c = 0x2029 \<or> c = 0x202F \<or> c = 0x205F \<or> c = 0x3000"

definition trim_start :: "utext \<Rightarrow> utext" where
  "trim_start = dropWhile is_whitespace"

definition trim_end :: "utext \<Rightarrow> utext" where
  "trim_end s = rev (dropWhile is_whitespace (rev s))"

definition trim :: "utext \<Rightarrow> utext" where
  "trim s = trim_end (trim_start s)"

lemma dropWhile_idem: "dropWhile P (dropWhile P xs) = dropWhile P xs"
  by (induction xs) auto

lemma trim_end_Nil_iff: "trim_end s = [] \<longleftrightarrow> (\<forall>c \<in> set s. is_whitespace c)"
  by (simp add: trim_end_def dropWhile_eq_Nil_conv)

lemma trim_end_Cons: "\<not> is_whitespace c \<Longrightarrow> \<exists>t. trim_end (c # s) = c # t"
proof (cases "\<exists>x \<in> set s. \<not> is_whitespace x")
  case True
  have "trim_end (c # s) = c # rev (dropWhile is_whitespace (rev s))"
    using True by (simp add: trim_end_def dropWhile_append)
  then show ?thesis by blast
qed (auto simp: trim_end_def dropWhile_append)

lemma trim_idem [simp]: "trim (trim s) = trim s"
proof (cases "trim_start s")
  case Nil
  then have e: "trim s = []" by (simp add: trim_def trim_end_def)
  show ?thesis unfolding e by (simp add: trim_def trim_end_def trim_start_def)
next
  case (Cons c t)
  then have c: "\<not> is_whitespace c" by (simp add: trim_start_def dropWhile_eq_Cons_conv)
  obtain u where u: "trim_end (trim_start s) = c # u" using trim_end_Cons [OF c, of t] Cons by auto
  have "trim_start (c # u) = c # u" using c by (simp add: trim_start_def)
  moreover have "trim_end (trim_end (trim_start s)) = trim_end (trim_start s)"
    by (simp add: trim_end_def dropWhile_idem)
  ultimately show ?thesis by (simp add: trim_def u)
qed

section \<open>Decimal numbers\<close>

fun decimal :: "nat \<Rightarrow> utext" where
  "decimal n = (if n < 10 then [48 + n] else decimal (n div 10) @ [48 + n mod 10])"

declare decimal.simps [simp del]

definition is_digit :: "nat \<Rightarrow> bool" where
  "is_digit c \<longleftrightarrow> 48 \<le> c \<and> c \<le> 57"

text \<open>
  \<open>str::parse::<u64>\<close>: an optional plus sign, then at least one digit, and no overflow on the way.
\<close>

fun parse_digits :: "nat \<Rightarrow> utext \<Rightarrow> nat option" where
  "parse_digits acc [] = Some acc"
| "parse_digits acc (c # cs) =
     (if is_digit c \<and> acc * 10 + (c - 48) \<le> u64_max then parse_digits (acc * 10 + (c - 48)) cs else None)"

definition parse_u64 :: "utext \<Rightarrow> nat option" where
  "parse_u64 s =
     (case s of
        [] \<Rightarrow> None
      | c # cs \<Rightarrow> if c = 43 then (if cs = [] then None else parse_digits 0 cs) else parse_digits 0 s)"

lemma parse_digits_append:
  "parse_digits acc (xs @ ys) = Option.bind (parse_digits acc xs) (\<lambda>a. parse_digits a ys)"
  by (induction xs arbitrary: acc) auto

lemma decimal_digits: "c \<in> set (decimal n) \<Longrightarrow> is_digit c"
  by (induction n rule: decimal.induct) (subst (asm) (2) decimal.simps, auto simp: is_digit_def split: if_splits)

lemma decimal_nonempty: "decimal n \<noteq> []"
  by (subst decimal.simps) auto

lemma parse_digits_decimal: "n \<le> u64_max \<Longrightarrow> parse_digits 0 (decimal n) = Some n"
proof (induction n rule: decimal.induct)
  case (1 n)
  show ?case
  proof (cases "n < 10")
    case True
    then show ?thesis using 1(2) by (simp add: decimal.simps [of n] is_digit_def)
  next
    case False
    have "n div 10 * 10 + n mod 10 = n" by simp
    moreover have "n div 10 \<le> u64_max" using 1(2) by simp
    ultimately show ?thesis
      using False 1 by (simp add: decimal.simps [of n] parse_digits_append is_digit_def del: div_mult_mod_eq)
  qed
qed

lemma parse_u64_decimal: "n \<le> u64_max \<Longrightarrow> parse_u64 (decimal n) = Some n"
proof -
  assume n: "n \<le> u64_max"
  obtain c cs where c: "decimal n = c # cs" using decimal_nonempty [of n] by (cases "decimal n") auto
  have "is_digit c" using decimal_digits [of c n] c by simp
  with c parse_digits_decimal [OF n] show ?thesis by (simp add: parse_u64_def is_digit_def)
qed

end
