(* ===== verification/Session_Log.thy ===== *)
theory Session_Log
  imports Unicode_Text
begin

text \<open>
  The session log (\<^verbatim>\<open>crates/glass-core/src/session.rs\<close>) as far as the follow-up queue and the checklist
  rely on it: its records, the checked append of a group of records and the copy a branch makes. Of
  the records only prompts and custom entries are told apart.
\<close>

section \<open>Records\<close>

datatype session_record = Custom string "utext option" | User utext | OtherRecord

fun is_user :: "session_record \<Rightarrow> bool" where
  "is_user (User _) = True"
| "is_user _ = False"

section \<open>Appending\<close>

text \<open>
  The log as the next opening reads it, and the error that stops every further append. An append
  of several records is one write; when it fails it is cut off again, unless that fails as well.
\<close>

record session_log =
  sl_records :: "session_record list"
  sl_write_error :: bool

datatype append_fate = Appended | RolledBack | LeftBehind nat

definition append_checked :: "append_fate \<Rightarrow> session_record list \<Rightarrow> session_log \<Rightarrow> bool \<times> session_log" where
  "append_checked fate rs s =
     (if sl_write_error s then (False, s)
      else case fate of
        Appended \<Rightarrow> (True, s\<lparr>sl_records := sl_records s @ rs\<rparr>)
      | RolledBack \<Rightarrow> (False, s\<lparr>sl_write_error := True\<rparr>)
      | LeftBehind k \<Rightarrow> (False, s\<lparr>sl_records := sl_records s @ take k rs, sl_write_error := True\<rparr>))"

section \<open>Branching the session\<close>

text \<open>
  A branch copies the records up to and with a turn into a new log; the queue file is not copied.
  The marks it adds at the end are neither receipts nor prompts.
\<close>

fun branch_copy :: "nat \<Rightarrow> nat \<Rightarrow> session_record list \<Rightarrow> nat \<times> session_record list" where
  "branch_copy through turn [] = (turn, [])"
| "branch_copy through turn (r # rs) =
     (let turn' = (if is_user r then Suc turn else turn) in
      if turn' > through then (turn', [])
      else let (t, out) = branch_copy through turn' rs in (t, r # out))"

definition branch :: "utext \<Rightarrow> nat \<Rightarrow> session_record list \<Rightarrow> session_record list option" where
  "branch mark through records =
     (if through = 0 then None
      else let (turn, out) = branch_copy through 0 records in
        if turn < through then None
        else Some (out @ [Custom ''session/branch'' (Some mark), OtherRecord]))"

end
