(* ===== verification/Follow_Up_Queue.thy ===== *)
theory Follow_Up_Queue
  imports Session_Log
begin

text \<open>
  The saved queue of messages typed while a turn runs (\<^verbatim>\<open>crates/glass-core/src/queue.rs\<close>): one correction
  slot and a first-in-first-out list of follow-ups, kept in a file beside the session log. A delivery
  first commits a numbered receipt and the prompt to the log and then rewrites the file; opening the
  queue replays the receipts the file has not seen. The file is written by rename, so a failed write
  leaves the old one; the size of its JSON text is a parameter, as is the fate of every write.
\<close>

section \<open>Data\<close>

datatype intent = Steer utext | FollowUp utext

record queue =
  q_pending :: "utext list"
  q_path :: bool
  q_delivered :: nat
  q_steer :: "utext option"

definition MAX_SAVED_QUEUE_BYTES :: nat where
  "MAX_SAVED_QUEUE_BYTES = 1024 * 1024"

definition default_queue :: queue where
  "default_queue = \<lparr>q_pending = [], q_path = False, q_delivered = 0, q_steer = None\<rparr>"

datatype queue_error =
    InvalidQueue | SavedQueueTooLarge | WriteFailed | QueueSequenceExhausted | SessionAppendFailed
  | SessionLogUnreadable | ChooseSavedIndex | ActionNotAvailable

section \<open>The queue in memory\<close>

definition queue_push :: "intent \<Rightarrow> queue \<Rightarrow> queue" where
  "queue_push i q =
     (case i of
        Steer s \<Rightarrow> if trim s \<noteq> [] then q\<lparr>q_steer := Some (trim s)\<rparr> else q
      | FollowUp s \<Rightarrow> if trim s \<noteq> [] then q\<lparr>q_pending := q_pending q @ [trim s]\<rparr> else q)"

definition take_follow_up :: "queue \<Rightarrow> utext option \<times> queue" where
  "take_follow_up q = (case q_pending q of [] \<Rightarrow> (None, q) | m # ms \<Rightarrow> (Some m, q\<lparr>q_pending := ms\<rparr>))"

definition take_next :: "queue \<Rightarrow> utext option \<times> queue" where
  "take_next q = (case q_steer q of Some s \<Rightarrow> (Some s, q\<lparr>q_steer := None\<rparr>) | None \<Rightarrow> take_follow_up q)"

definition queue_is_empty :: "queue \<Rightarrow> bool" where
  "queue_is_empty q \<longleftrightarrow> q_pending q = [] \<and> q_steer q = None"

definition steer_prefix :: utext where
  "steer_prefix = [115, 116, 101, 101, 114, 58, 32]"

definition queued_prefix :: utext where
  "queued_prefix = [113, 117, 101, 117, 101, 100, 58, 32]"

definition describe :: "queue \<Rightarrow> utext list" where
  "describe q =
     (case q_steer q of None \<Rightarrow> [] | Some s \<Rightarrow> [steer_prefix @ s]) @ map (\<lambda>s. queued_prefix @ s) (q_pending q)"

definition correction :: "queue \<Rightarrow> utext option" where
  "correction q = q_steer q"

definition next_prompt :: "queue \<Rightarrow> utext option" where
  "next_prompt q =
     (case q_steer q of Some s \<Rightarrow> Some s | None \<Rightarrow> (case q_pending q of [] \<Rightarrow> None | m # _ \<Rightarrow> Some m))"

definition classify :: "utext \<Rightarrow> bool \<Rightarrow> bool \<Rightarrow> intent option" where
  "classify s alt turn_running =
     (if trim s = [] then None
      else if alt then Some (FollowUp (trim s))
      else if turn_running then Some (Steer (trim s))
      else Some (FollowUp (trim s)))"

section \<open>The file beside the log\<close>

text \<open>What the next opening finds: the saved queue, without its path.\<close>

type_synonym queue_file = "queue option"

definition saved_form :: "queue \<Rightarrow> queue" where
  "saved_form q = q\<lparr>q_path := False\<rparr>"

definition queue_save :: "(queue \<Rightarrow> nat) \<Rightarrow> bool \<Rightarrow> queue \<Rightarrow> queue_file \<Rightarrow> (queue_error, unit) result \<times> queue_file" where
  "queue_save bytes w q f =
     (if \<not> q_path q then (Ok (), f)
      else if bytes q > MAX_SAVED_QUEUE_BYTES then (Err SavedQueueTooLarge, f)
      else if w then (Ok (), Some (saved_form q))
      else (Err WriteFailed, f))"

definition push_checked ::
    "(queue \<Rightarrow> nat) \<Rightarrow> bool \<Rightarrow> intent \<Rightarrow> queue \<Rightarrow> queue_file \<Rightarrow> (queue_error, unit) result \<times> queue \<times> queue_file" where
  "push_checked bytes w i q f =
     (case queue_save bytes w (queue_push i q) f of
        (Inl e, f') \<Rightarrow> (Err e, q, f')
      | (Inr _, f') \<Rightarrow> (Ok (), queue_push i q, f'))"

section \<open>Delivery\<close>

definition receipt :: "nat \<Rightarrow> session_record" where
  "receipt n = Custom ''queue/delivery'' (Some (decimal n))"

definition deliver ::
    "(queue \<Rightarrow> nat) \<Rightarrow> bool \<Rightarrow> append_fate \<Rightarrow> queue \<Rightarrow> queue_file \<Rightarrow> session_log
     \<Rightarrow> (queue_error, utext option) result \<times> queue \<times> queue_file \<times> session_log" where
  "deliver bytes w fate q f s =
     (case take_next q of
        (None, _) \<Rightarrow> (Ok None, q, f, s)
      | (Some m, q1) \<Rightarrow>
          (case nat_checked_add u64_max (q_delivered q1) 1 of
             None \<Rightarrow> (Err QueueSequenceExhausted, q, f, s)
           | Some n \<Rightarrow>
               let q2 = q1\<lparr>q_delivered := n\<rparr> in
               (case append_checked fate [receipt n, User m] s of
                  (False, s') \<Rightarrow> (Err SessionAppendFailed, q, f, s')
                | (True, s') \<Rightarrow> (Ok (Some m), q2, snd (queue_save bytes w q2 f), s'))))"

section \<open>Opening\<close>

definition receipt_number :: "session_record \<Rightarrow> nat option" where
  "receipt_number r =
     (case r of Custom kind (Some data) \<Rightarrow> if kind = ''queue/delivery'' then parse_u64 data else None | _ \<Rightarrow> None)"

definition replay_pair :: "session_record \<Rightarrow> session_record \<Rightarrow> queue \<Rightarrow> queue" where
  "replay_pair r0 r1 q =
     (if \<not> is_user r1 then q
      else case receipt_number r0 of
        None \<Rightarrow> q
      | Some n \<Rightarrow> if n > q_delivered q then (snd (take_next q))\<lparr>q_delivered := n\<rparr> else q)"

fun replay :: "session_record list \<Rightarrow> queue \<Rightarrow> queue" where
  "replay (r0 # r1 # rs) q = replay (r1 # rs) (replay_pair r0 r1 q)"
| "replay _ q = q"

text \<open>The file may be unreadable or invalid, and the log unreadable.\<close>

definition queue_open ::
    "(queue \<Rightarrow> nat) \<Rightarrow> bool \<Rightarrow> bool \<Rightarrow> bool \<Rightarrow> queue_file \<Rightarrow> session_record list \<Rightarrow> (queue_error, queue) result \<times> queue_file" where
  "queue_open bytes readable logged w f log =
     (if \<not> readable then (Err InvalidQueue, f)
      else case f of
        None \<Rightarrow> (Ok (default_queue\<lparr>q_path := True\<rparr>), f)
      | Some q0 \<Rightarrow>
          let q = q0\<lparr>q_path := True\<rparr> in
          if queue_is_empty q then (Ok q, f)
          else if \<not> logged then (Err SessionLogUnreadable, f)
          else
            let q' = replay log q in
            (case queue_save bytes w q' f of (Inl e, f') \<Rightarrow> (Err e, f') | (Inr _, f') \<Rightarrow> (Ok q', f')))"

section \<open>Editing\<close>

datatype queue_action = Clear | Edit | Earlier | Later | Promote | Remove | UnknownAction

definition swap :: "nat \<Rightarrow> nat \<Rightarrow> 'a list \<Rightarrow> 'a list" where
  "swap i j xs = xs[i := xs ! j, j := xs ! i]"

definition steer_selected :: "queue \<Rightarrow> nat \<Rightarrow> bool" where
  "steer_selected q index \<longleftrightarrow> q_steer q \<noteq> None \<and> index = 0"

definition item_of :: "queue \<Rightarrow> nat \<Rightarrow> nat" where
  "item_of q index = index - (if q_steer q \<noteq> None then 1 else 0)"

definition set_text :: "queue \<Rightarrow> nat \<Rightarrow> utext \<Rightarrow> queue" where
  "set_text q index s =
     (if steer_selected q index then q\<lparr>q_steer := Some s\<rparr>
      else q\<lparr>q_pending := (q_pending q)[item_of q index := s]\<rparr>)"

definition promote :: "queue \<Rightarrow> nat \<Rightarrow> queue" where
  "promote q item =
     (let rest = remove_nth item (q_pending q); value = q_pending q ! item in
      q\<lparr>q_steer := Some value, q_pending := (case q_steer q of None \<Rightarrow> rest | Some old \<Rightarrow> old # rest)\<rparr>)"

definition remove_entry :: "queue \<Rightarrow> nat \<Rightarrow> queue" where
  "remove_entry q index =
     (if steer_selected q index then q\<lparr>q_steer := None\<rparr>
      else q\<lparr>q_pending := remove_nth (item_of q index) (q_pending q)\<rparr>)"

definition edited :: "queue \<Rightarrow> queue_action \<Rightarrow> nat \<Rightarrow> utext \<Rightarrow> (queue_error, queue) result" where
  "edited q action index s =
     (if action = Clear then Ok (q\<lparr>q_pending := [], q_steer := None\<rparr>)
      else if index \<ge> length (describe q) then Err ChooseSavedIndex
      else
        let steer = steer_selected q index; item = item_of q index in
        case action of
          Edit \<Rightarrow> if trim s \<noteq> [] then Ok (set_text q index s) else Err ActionNotAvailable
        | Earlier \<Rightarrow>
            if \<not> steer \<and> item > 0 then Ok (q\<lparr>q_pending := swap item (item - 1) (q_pending q)\<rparr>)
            else Err ActionNotAvailable
        | Later \<Rightarrow>
            if \<not> steer \<and> item + 1 < length (q_pending q)
            then Ok (q\<lparr>q_pending := swap item (item + 1) (q_pending q)\<rparr>) else Err ActionNotAvailable
        | Promote \<Rightarrow> if \<not> steer then Ok (promote q item) else Err ActionNotAvailable
        | Remove \<Rightarrow> Ok (remove_entry q index)
        | _ \<Rightarrow> Err ActionNotAvailable)"

definition edit_saved ::
    "(queue \<Rightarrow> nat) \<Rightarrow> bool \<Rightarrow> queue_action \<Rightarrow> nat \<Rightarrow> utext \<Rightarrow> queue \<Rightarrow> queue_file
     \<Rightarrow> (queue_error, unit) result \<times> queue \<times> queue_file" where
  "edit_saved bytes w action index s q f =
     (case edited q action index s of
        Inl e \<Rightarrow> (Err e, q, f)
      | Inr next \<Rightarrow>
          (case queue_save bytes w next f of (Inl e, f') \<Rightarrow> (Err e, q, f') | (Inr _, f') \<Rightarrow> (Ok (), next, f')))"

text \<open>
  One round of the dialogue: the entry chosen, the action chosen (none goes back to the list) and
  the text of the edit field (none when it was left).
\<close>

definition manage_change :: "queue \<Rightarrow> nat \<Rightarrow> nat \<Rightarrow> utext option \<Rightarrow> queue" where
  "manage_change q index action field =
     (let steer = steer_selected q index; item = item_of q index in
      if action = 0 then (case field of Some s \<Rightarrow> if trim s \<noteq> [] then set_text q index s else q | None \<Rightarrow> q)
      else if action = 1 \<and> \<not> steer \<and> item > 0 then q\<lparr>q_pending := swap item (item - 1) (q_pending q)\<rparr>
      else if action = 2 \<and> \<not> steer \<and> item + 1 < length (q_pending q)
        then q\<lparr>q_pending := swap item (item + 1) (q_pending q)\<rparr>
      else if action = 3 \<and> \<not> steer then promote q item
      else if action = 4 then remove_entry q index
      else q)"

type_synonym manage_input = "nat option \<times> nat option \<times> utext option"

fun manage :: "(queue \<Rightarrow> nat) \<Rightarrow> (bool \<times> manage_input) list \<Rightarrow> queue \<Rightarrow> queue_file \<Rightarrow> queue \<times> queue_file" where
  "manage bytes [] q f = (q, f)"
| "manage bytes ((w, entry, action, field) # inputs) q f =
     (if describe q = [] then (q, f)
      else case entry of
        None \<Rightarrow> (q, f)
      | Some index \<Rightarrow>
          (case action of
             None \<Rightarrow> manage bytes inputs q f
           | Some a \<Rightarrow>
               (case queue_save bytes w (manage_change q index a field) f of
                  (Inl _, f') \<Rightarrow> manage bytes inputs q f'
                | (Inr _, f') \<Rightarrow> manage bytes inputs (manage_change q index a field) f')))"

end
