(* ===== verification/Queue_Recovery.thy ===== *)
theory Queue_Recovery
  imports Follow_Up_Queue
begin

text \<open>
  What the saved queue promises. The queue a start would find is a function of the file and the log;
  every operation keeps it in step with the queue in memory, whatever happens to its writes, and
  numbers the deliveries in the log without gap or repetition.
\<close>

section \<open>Replaying receipts\<close>

definition recovered :: "queue_file \<Rightarrow> session_record list \<Rightarrow> queue" where
  "recovered f log =
     (case f of
        None \<Rightarrow> default_queue\<lparr>q_path := True\<rparr>
      | Some q0 \<Rightarrow> if queue_is_empty q0 then q0\<lparr>q_path := True\<rparr> else replay log (q0\<lparr>q_path := True\<rparr>))"

definition pair_numbers :: "session_record \<Rightarrow> session_record \<Rightarrow> nat list" where
  "pair_numbers r0 r1 = (if is_user r1 then (case receipt_number r0 of None \<Rightarrow> [] | Some n \<Rightarrow> [n]) else [])"

fun delivered_numbers :: "session_record list \<Rightarrow> nat list" where
  "delivered_numbers (r0 # r1 # rs) = pair_numbers r0 r1 @ delivered_numbers (r1 # rs)"
| "delivered_numbers _ = []"

lemma delivered_numbers_snoc:
  "delivered_numbers (rs @ [a]) = delivered_numbers rs @ (if rs = [] then [] else pair_numbers (last rs) a)"
  by (induction rs rule: delivered_numbers.induct) auto

lemma replay_snoc: "replay (rs @ [a]) q = (if rs = [] then q else replay_pair (last rs) a (replay rs q))"
proof (induction rs arbitrary: q)
  case (Cons r rs)
  then show ?case by (cases rs) simp_all
qed simp

lemma replay_pair_quiet: "(\<And>n. n \<in> set (pair_numbers a b) \<Longrightarrow> n \<le> q_delivered q) \<Longrightarrow> replay_pair a b q = q"
  by (cases "is_user b"; cases "receipt_number a") (simp_all add: replay_pair_def pair_numbers_def)

lemma replay_quiet: "(\<And>n. n \<in> set (delivered_numbers rs) \<Longrightarrow> n \<le> q_delivered q) \<Longrightarrow> replay rs q = q"
  by (induction rs q rule: replay.induct) (auto simp: replay_pair_quiet)

lemma receipt_number_receipt [simp]: "n \<le> u64_max \<Longrightarrow> receipt_number (receipt n) = Some n"
  by (simp add: receipt_number_def receipt_def parse_u64_decimal)

lemma not_user_receipt [simp]: "\<not> is_user (receipt n)"
  by (simp add: receipt_def)

lemma pair_numbers_not_user [simp]: "\<not> is_user b \<Longrightarrow> pair_numbers a b = []"
  by (simp add: pair_numbers_def)

lemma replay_pair_not_user [simp]: "\<not> is_user b \<Longrightarrow> replay_pair a b q = q"
  by (simp add: replay_pair_def)

lemma replay_pair_receipt:
  "n \<le> u64_max \<Longrightarrow> q_delivered q < n \<Longrightarrow> replay_pair (receipt n) (User m) q = (snd (take_next q))\<lparr>q_delivered := n\<rparr>"
  by (simp add: replay_pair_def)

lemma take_next_keeps [simp]:
  "q_delivered (snd (take_next q)) = q_delivered q" "q_path (snd (take_next q)) = q_path q"
  by (simp_all add: take_next_def take_follow_up_def split: option.split list.split)

lemma take_next_None_iff: "fst (take_next q) = None \<longleftrightarrow> queue_is_empty q"
  by (auto simp: take_next_def take_follow_up_def queue_is_empty_def split: option.split list.split)

lemma replay_pair_path [simp]: "q_path (replay_pair a b q) = q_path q"
  by (simp add: replay_pair_def split: option.split)

lemma replay_path [simp]: "q_path (replay rs q) = q_path q"
  by (induction rs q rule: replay.induct) simp_all

lemma recovered_path [simp]: "q_path (recovered f log)"
  by (simp add: recovered_def split: option.split)

text \<open>A write either fails and changes nothing or makes the queue the one that is found again.\<close>

lemma recovered_saved:
  assumes "q_path q" "\<And>n. n \<in> set (delivered_numbers log) \<Longrightarrow> n \<le> q_delivered q"
  shows "recovered (Some (saved_form q)) log = q"
proof -
  have "q\<lparr>q_path := True\<rparr> = q" using assms(1) by simp
  then show ?thesis using replay_quiet [OF assms(2)] by (simp add: recovered_def saved_form_def)
qed

lemma queue_save_cases:
  assumes "queue_save bytes w q f = (r, f')" "q_path q" "\<And>n. n \<in> set (delivered_numbers log) \<Longrightarrow> n \<le> q_delivered q"
  shows "(\<exists>e. r = Err e) \<and> f' = f \<or> r = Ok () \<and> recovered f' log = q"
  using assms(1,2) recovered_saved [OF assms(2,3)] by (auto simp: queue_save_def split: if_splits)

section \<open>Runs\<close>

record queue_world =
  w_queue :: "queue option"
  w_file :: queue_file
  w_log :: session_log

abbreviation w_records :: "queue_world \<Rightarrow> session_record list" where
  "w_records s \<equiv> sl_records (w_log s)"

datatype queue_op =
    PushOp bool intent
  | DeliverOp bool append_fate
  | EditOp bool queue_action nat utext
  | ManageOp "(bool \<times> manage_input) list"
  | NoteOp session_record
  | RestartOp bool bool bool

text \<open>
  The owner of the queue pushes, delivers and edits; other parts of the agent append to the log; a
  restart opens the log and the queue again and may fail, which leaves no queue until the next one.
\<close>

definition queue_step :: "(queue \<Rightarrow> nat) \<Rightarrow> queue_op \<Rightarrow> queue_world \<Rightarrow> queue_world" where
  "queue_step bytes op s =
     (case op of
        RestartOp readable logged w \<Rightarrow>
          let log = (w_log s)\<lparr>sl_write_error := False\<rparr> in
          (case queue_open bytes readable logged w (w_file s) (sl_records log) of
             (Inl _, f') \<Rightarrow> \<lparr>w_queue = None, w_file = f', w_log = log\<rparr>
           | (Inr q, f') \<Rightarrow> \<lparr>w_queue = Some q, w_file = f', w_log = log\<rparr>)
      | NoteOp r \<Rightarrow> s\<lparr>w_log := snd (append_checked Appended [r] (w_log s))\<rparr>
      | _ \<Rightarrow>
        (case w_queue s of
           None \<Rightarrow> s
         | Some q \<Rightarrow>
             (case op of
                PushOp w i \<Rightarrow> (case push_checked bytes w i q (w_file s) of (_, q', f') \<Rightarrow> s\<lparr>w_queue := Some q', w_file := f'\<rparr>)
              | DeliverOp w fate \<Rightarrow>
                  (case deliver bytes w fate q (w_file s) (w_log s) of
                     (_, q', f', l') \<Rightarrow> \<lparr>w_queue = Some q', w_file = f', w_log = l'\<rparr>)
              | EditOp w a i t \<Rightarrow>
                  (case edit_saved bytes w a i t q (w_file s) of (_, q', f') \<Rightarrow> s\<lparr>w_queue := Some q', w_file := f'\<rparr>)
              | ManageOp inputs \<Rightarrow>
                  (case manage bytes inputs q (w_file s) of (q', f') \<Rightarrow> s\<lparr>w_queue := Some q', w_file := f'\<rparr>)
              | _ \<Rightarrow> s)))"

text \<open>
  What the runs assume: a failed append that could not be cut off again leaves at most the receipt,
  nobody else writes receipts, and no other prompt is the first record after a receipt left behind.
\<close>

definition ends_in_receipt :: "session_record list \<Rightarrow> bool" where
  "ends_in_receipt rs \<longleftrightarrow> rs \<noteq> [] \<and> receipt_number (last rs) \<noteq> None"

definition op_allowed :: "queue_world \<Rightarrow> queue_op \<Rightarrow> bool" where
  "op_allowed s op \<longleftrightarrow>
     (case op of
        DeliverOp _ (LeftBehind k) \<Rightarrow> k \<le> 1
      | NoteOp r \<Rightarrow> receipt_number r = None \<and> (is_user r \<longrightarrow> \<not> ends_in_receipt (w_records s))
      | _ \<Rightarrow> True)"

fun queue_run :: "(queue \<Rightarrow> nat) \<Rightarrow> queue_op list \<Rightarrow> queue_world \<Rightarrow> queue_world option" where
  "queue_run bytes [] s = Some s"
| "queue_run bytes (op # ops) s = (if op_allowed s op then queue_run bytes ops (queue_step bytes op s) else None)"

text \<open>The start: a new session, with no queue file and no receipts in its log.\<close>

definition new_session :: queue_world where
  "new_session = \<lparr>w_queue = Some (default_queue\<lparr>q_path := True\<rparr>), w_file = None,
                  w_log = \<lparr>sl_records = [], sl_write_error = False\<rparr>\<rparr>"

definition in_step :: "queue_world \<Rightarrow> bool" where
  "in_step s \<longleftrightarrow>
     delivered_numbers (w_records s) = [1..<Suc (q_delivered (recovered (w_file s) (w_records s)))] \<and>
     (case w_queue s of None \<Rightarrow> True | Some q \<Rightarrow> q = recovered (w_file s) (w_records s))"

lemma in_step_new: "in_step new_session"
  by (simp add: in_step_def new_session_def recovered_def default_queue_def)

lemma in_step_running:
  assumes "in_step s" "w_queue s = Some q"
  shows "recovered (w_file s) (w_records s) = q" "q_path q"
    "delivered_numbers (w_records s) = [1..<Suc (q_delivered q)]"
  using assms recovered_path [of "w_file s" "w_records s"] by (auto simp: in_step_def)

lemma in_step_saved:
  assumes "in_step s" "w_queue s = Some q" "queue_save bytes w q' (w_file s) = (r, f')" "q_path q'" "q_delivered q' = q_delivered q"
  shows "in_step (s\<lparr>w_queue := Some (if is_ok r then q' else q), w_file := f'\<rparr>)"
proof -
  note r = in_step_running [OF assms(1,2)]
  have "(\<exists>e. r = Err e) \<and> f' = w_file s \<or> r = Ok () \<and> recovered f' (w_records s) = q'"
    by (rule queue_save_cases [OF assms(3,4)]) (auto simp: r assms(5))
  then show ?thesis using r assms(5) by (auto simp: in_step_def)
qed

section \<open>Every operation keeps step\<close>

lemma queue_push_keeps [simp]: "q_path (queue_push i q) = q_path q" "q_delivered (queue_push i q) = q_delivered q"
  by (simp_all add: queue_push_def split: intent.split)

lemma push_in_step:
  assumes "in_step s" "w_queue s = Some q" "push_checked bytes w i q (w_file s) = (r, q', f')"
  shows "in_step (s\<lparr>w_queue := Some q', w_file := f'\<rparr>)"
proof -
  obtain r1 f1 where sv: "queue_save bytes w (queue_push i q) (w_file s) = (r1, f1)" by (cases "queue_save bytes w (queue_push i q) (w_file s)")
  have "in_step (s\<lparr>w_queue := Some (if is_ok r1 then queue_push i q else q), w_file := f1\<rparr>)"
    by (rule in_step_saved [OF assms(1,2) sv]) (simp_all add: in_step_running(2) [OF assms(1,2)])
  then show ?thesis using assms(3) sv by (auto simp: push_checked_def split: sum.splits)
qed

lemma edits_keep:
  "q_path (set_text q n t) = q_path q" "q_delivered (set_text q n t) = q_delivered q"
  "q_path (promote q n) = q_path q" "q_delivered (promote q n) = q_delivered q"
  "q_path (remove_entry q n) = q_path q" "q_delivered (remove_entry q n) = q_delivered q"
  by (simp_all add: set_text_def promote_def remove_entry_def Let_def)

lemma edited_keeps:
  assumes "edited q a n t = Ok q'"
  shows "q_path q' = q_path q \<and> q_delivered q' = q_delivered q"
  using assms by (cases a) (auto simp: edited_def Let_def edits_keep split: if_splits)

lemma manage_change_keeps [simp]:
  "q_path (manage_change q n a field) = q_path q" "q_delivered (manage_change q n a field) = q_delivered q"
  by (simp_all add: manage_change_def Let_def edits_keep split: option.split)

lemma edit_in_step:
  assumes "in_step s" "w_queue s = Some q" "edit_saved bytes w a n t q (w_file s) = (r, q', f')"
  shows "in_step (s\<lparr>w_queue := Some q', w_file := f'\<rparr>)"
proof (cases "edited q a n t")
  case (Inl e)
  then have "q' = q" "f' = w_file s" using assms(3) by (simp_all add: edit_saved_def)
  moreover have "s\<lparr>w_queue := Some q, w_file := w_file s\<rparr> = s" using assms(2) by simp
  ultimately show ?thesis using assms(1) by simp
next
  case (Inr q1)
  obtain r1 f1 where sv: "queue_save bytes w q1 (w_file s) = (r1, f1)" by (cases "queue_save bytes w q1 (w_file s)")
  have "in_step (s\<lparr>w_queue := Some (if is_ok r1 then q1 else q), w_file := f1\<rparr>)"
    by (rule in_step_saved [OF assms(1,2) sv]) (use edited_keeps [OF Inr] in_step_running(2) [OF assms(1,2)] in auto)
  then show ?thesis using assms(3) sv Inr by (auto simp: edit_saved_def split: sum.splits)
qed

lemma manage_in_step:
  assumes "in_step s" "w_queue s = Some q" "manage bytes inputs q (w_file s) = (q', f')"
  shows "in_step (s\<lparr>w_queue := Some q', w_file := f'\<rparr>)"
  using assms
proof (induction inputs arbitrary: s q)
  case Nil
  then have "s\<lparr>w_queue := Some q', w_file := f'\<rparr> = s" by auto
  then show ?case using Nil.prems(1) by simp
next
  case (Cons i inputs)
  obtain w entry action field where i: "i = (w, entry, action, field)" by (cases i)
  have same: "s\<lparr>w_queue := Some q, w_file := w_file s\<rparr> = s" using Cons.prems(2) by simp
  show ?case
  proof (cases "describe q = [] \<or> entry = None")
    case True
    then have "manage bytes (i # inputs) q (w_file s) = (q, w_file s)" using i by auto
    then have "q' = q" "f' = w_file s" using Cons.prems(3) by simp_all
    then show ?thesis using Cons.prems(1) same by metis
  next
    case False
    then obtain n where n: "entry = Some n" by auto
    show ?thesis
    proof (cases action)
      case None
      then show ?thesis using Cons False n i by simp
    next
      case (Some a)
      let ?q = "manage_change q n a field"
      obtain r1 f1 where sv: "queue_save bytes w ?q (w_file s) = (r1, f1)" by (cases "queue_save bytes w ?q (w_file s)")
      let ?s = "s\<lparr>w_queue := Some (if is_ok r1 then ?q else q), w_file := f1\<rparr>"
      have st: "in_step ?s"
        by (rule in_step_saved [OF Cons.prems(1,2) sv]) (simp_all add: in_step_running(2) [OF Cons.prems(1,2)])
      have "manage bytes inputs (if is_ok r1 then ?q else q) f1 = (q', f')"
        using Cons.prems(3) i n Some False sv by (auto split: sum.splits)
      then show ?thesis using Cons.IH [OF st] by simp
    qed
  qed
qed

lemma deliver_in_step:
  assumes "in_step s" "w_queue s = Some q" "op_allowed s (DeliverOp w fate)"
    "deliver bytes w fate q (w_file s) (w_log s) = (r, q', f', l')"
  shows "in_step \<lparr>w_queue = Some q', w_file = f', w_log = l'\<rparr>"
proof (cases "queue_is_empty q \<or> u64_max < q_delivered q + 1")
  case True
  have "q' = q \<and> f' = w_file s \<and> l' = w_log s"
  proof (cases "fst (take_next q)")
    case None
    then show ?thesis using assms(4) by (cases "take_next q") (simp add: deliver_def)
  next
    case (Some m)
    then have "u64_max < q_delivered (snd (take_next q)) + 1" using True take_next_None_iff [of q] by simp
    then show ?thesis using assms(4) Some by (cases "take_next q") (simp add: deliver_def nat_checked_add_def)
  qed
  then show ?thesis using assms(1,2) by (simp add: in_step_def)
next
  case False
  note run = in_step_running [OF assms(1,2)]
  let ?n = "q_delivered q + 1"
  let ?q2 = "(snd (take_next q))\<lparr>q_delivered := ?n\<rparr>"
  let ?rs = "w_records s"
  from False obtain m where m: "fst (take_next q) = Some m" using take_next_None_iff [of q] by (cases "fst (take_next q)") auto
  have n: "?n \<le> u64_max" using False by simp
  have d: "deliver bytes w fate q (w_file s) (w_log s) =
      (case append_checked fate [receipt ?n, User m] (w_log s) of
         (False, s') \<Rightarrow> (Err SessionAppendFailed, q, w_file s, s')
       | (True, s') \<Rightarrow> (Ok (Some m), ?q2, snd (queue_save bytes w ?q2 (w_file s)), s'))"
    using m n take_next_keeps [of q] 
    by (cases "take_next q") (simp add: deliver_def nat_checked_add_def Let_def split: prod.split bool.split)
  show ?thesis
  proof (cases "fst (append_checked fate [receipt ?n, User m] (w_log s))")
    case ok: True
    then have l: "sl_records (snd (append_checked fate [receipt ?n, User m] (w_log s))) = (?rs @ [receipt ?n]) @ [User m]"
      by (auto simp: append_checked_def split: append_fate.splits if_splits)
    let ?log = "(?rs @ [receipt ?n]) @ [User m]"
    have nums: "delivered_numbers ?log = [1..<Suc ?n]"
      using n run(3) unfolding delivered_numbers_snoc by (simp add: pair_numbers_def)
    obtain q0 where q0: "w_file s = Some q0" "\<not> queue_is_empty q0" "replay ?rs (q0\<lparr>q_path := True\<rparr>) = q"
      using run(1) False by (cases "w_file s") (auto simp: recovered_def default_queue_def queue_is_empty_def split: if_splits)
    have "replay (?rs @ [receipt ?n]) (q0\<lparr>q_path := True\<rparr>) = q" using q0(3) by (cases "?rs = []") (simp_all add: replay_snoc)
    then have kept: "recovered (w_file s) ?log = ?q2"
      using q0(1,2) n unfolding recovered_def
      by (subst replay_snoc [of "?rs @ [receipt ?n]"]) (simp add: replay_pair_receipt del: append_assoc)
    obtain r1 f1 where sv: "queue_save bytes w ?q2 (w_file s) = (r1, f1)" by (cases "queue_save bytes w ?q2 (w_file s)")
    have "(\<exists>e. r1 = Err e) \<and> f1 = w_file s \<or> r1 = Ok () \<and> recovered f1 ?log = ?q2"
      by (rule queue_save_cases [OF sv]) (use run(2) nums in auto)
    then have "recovered f1 ?log = ?q2" using kept by auto
    moreover have "q' = ?q2" "f' = f1" "sl_records l' = ?log"
      using assms(4) ok l sv unfolding d by (auto split: prod.splits bool.splits)
    ultimately show ?thesis using nums by (simp add: in_step_def)
  next
    case False
    then have l: "q' = q" "f' = w_file s" "l' = snd (append_checked fate [receipt ?n, User m] (w_log s))"
      using assms(4) unfolding d by (auto split: prod.splits bool.splits)
    have "sl_records l' = ?rs \<or> sl_records l' = ?rs @ [receipt ?n]"
    proof (cases fate)
      case (LeftBehind k)
      then have "k = 0 \<or> k = 1" using assms(3) by (auto simp: op_allowed_def)
      then show ?thesis using l(3) LeftBehind by (auto simp: append_checked_def)
    qed (use l(3) False in \<open>auto simp: append_checked_def split: if_splits\<close>)
    moreover have "recovered (w_file s) (?rs @ [receipt ?n]) = recovered (w_file s) ?rs"
      by (simp add: recovered_def replay_snoc split: option.split)
    moreover have "delivered_numbers (?rs @ [receipt ?n]) = delivered_numbers ?rs" by (simp add: delivered_numbers_snoc)
    ultimately show ?thesis using assms(1,2) l(1,2) run(1) by (auto simp: in_step_def)
  qed
qed

lemma note_in_step:
  assumes "in_step s" "op_allowed s (NoteOp r)"
  shows "in_step (s\<lparr>w_log := snd (append_checked Appended [r] (w_log s))\<rparr>)"
proof -
  let ?rs = "w_records s"
  have a: "receipt_number r = None" "is_user r \<Longrightarrow> ?rs = [] \<or> receipt_number (last ?rs) = None"
    using assms(2) by (auto simp: op_allowed_def ends_in_receipt_def)
  have "replay_pair (last ?rs) r q = q \<and> pair_numbers (last ?rs) r = []" if "?rs \<noteq> []" for q
    using a(2) that by (cases "is_user r") (auto simp: replay_pair_def pair_numbers_def)
  then have "recovered (w_file s) (?rs @ [r]) = recovered (w_file s) ?rs" "delivered_numbers (?rs @ [r]) = delivered_numbers ?rs"
    by (auto simp: recovered_def replay_snoc delivered_numbers_snoc split: option.split)
  then show ?thesis using assms(1) by (auto simp: in_step_def append_checked_def split: option.splits)
qed

lemma open_cases:
  assumes "queue_open bytes readable logged w f log = (r, f')" "\<And>n. n \<in> set (delivered_numbers log) \<Longrightarrow> n \<le> q_delivered (recovered f log)"
  shows "recovered f' log = recovered f log \<and> (case r of Inl _ \<Rightarrow> True | Inr q \<Rightarrow> q = recovered f log)"
proof (cases "readable \<and> logged \<and> (\<exists>q0. f = Some q0 \<and> \<not> queue_is_empty q0)")
  case True
  then obtain q0 where q0: "f = Some q0" "\<not> queue_is_empty q0" by auto
  then have q: "recovered f log = replay log (q0\<lparr>q_path := True\<rparr>)" "\<not> queue_is_empty (q0\<lparr>q_path := True\<rparr>)"
    by (simp add: recovered_def, simp add: queue_is_empty_def)
  obtain r1 f1 where sv: "queue_save bytes w (recovered f log) f = (r1, f1)" by (cases "queue_save bytes w (recovered f log) f")
  have "(\<exists>e. r1 = Err e) \<and> f1 = f \<or> r1 = Ok () \<and> recovered f1 log = recovered f log"
    by (rule queue_save_cases [OF sv _ assms(2)]) simp_all
  moreover have "(r, f') = (case (r1, f1) of (Inl e, f') \<Rightarrow> (Err e, f') | (Inr _, f') \<Rightarrow> (Ok (recovered f log), f'))"
    using assms(1) True q(2) sv unfolding q(1) by (simp add: queue_open_def Let_def q0(1))
  ultimately show ?thesis by auto
next
  case False
  then show ?thesis
    using assms(1) by (auto simp: queue_open_def recovered_def Let_def queue_is_empty_def split: option.splits if_splits)
qed

lemma restart_in_step:
  assumes "in_step s"
  shows "in_step (queue_step bytes (RestartOp readable logged w) s)"
proof -
  obtain r f' where o: "queue_open bytes readable logged w (w_file s) (w_records s) = (r, f')"
    by (cases "queue_open bytes readable logged w (w_file s) (w_records s)")
  have "recovered f' (w_records s) = recovered (w_file s) (w_records s) \<and>
      (case r of Inl _ \<Rightarrow> True | Inr q \<Rightarrow> q = recovered (w_file s) (w_records s))"
    by (rule open_cases [OF o]) (use assms in \<open>auto simp: in_step_def\<close>)
  then show ?thesis using assms o by (auto simp: queue_step_def in_step_def split: sum.splits)
qed

lemma step_in_step:
  assumes "in_step s" "op_allowed s op"
  shows "in_step (queue_step bytes op s)"
proof (cases "w_queue s")
  case None
  then show ?thesis
    using assms restart_in_step note_in_step by (cases op) (simp_all add: queue_step_def)
next
  case (Some q)
  show ?thesis
  proof (cases op)
    case (PushOp w i)
    obtain r q' f' where "push_checked bytes w i q (w_file s) = (r, q', f')" by (cases "push_checked bytes w i q (w_file s)")
    with push_in_step [OF assms(1) Some this] Some PushOp show ?thesis by (simp add: queue_step_def)
  next
    case (DeliverOp w fate)
    obtain r q' f' l' where "deliver bytes w fate q (w_file s) (w_log s) = (r, q', f', l')"
      by (cases "deliver bytes w fate q (w_file s) (w_log s)")
    with deliver_in_step [OF assms(1) Some _ this] assms(2) Some DeliverOp show ?thesis by (simp add: queue_step_def)
  next
    case (EditOp w a n t)
    obtain r q' f' where "edit_saved bytes w a n t q (w_file s) = (r, q', f')" by (cases "edit_saved bytes w a n t q (w_file s)")
    with edit_in_step [OF assms(1) Some this] Some EditOp show ?thesis by (simp add: queue_step_def)
  next
    case (ManageOp inputs)
    obtain q' f' where "manage bytes inputs q (w_file s) = (q', f')" by (cases "manage bytes inputs q (w_file s)")
    with manage_in_step [OF assms(1) Some this] Some ManageOp show ?thesis by (simp add: queue_step_def)
  next
    case (NoteOp r)
    then show ?thesis using note_in_step assms Some by (simp add: queue_step_def)
  next
    case (RestartOp readable logged w)
    then show ?thesis using restart_in_step [OF assms(1)] by simp
  qed
qed

lemma run_in_step:
  assumes "in_step s" "queue_run bytes ops s = Some s'"
  shows "in_step s'"
  using assms
proof (induction ops arbitrary: s)
  case (Cons op ops)
  then have "op_allowed s op" "queue_run bytes ops (queue_step bytes op s) = Some s'" by (auto split: if_splits)
  then show ?case using Cons step_in_step by blast
qed simp

section \<open>The promises\<close>

text \<open>
  Claim C36. In every allowed run of pushes, deliveries, edits, failing writes, torn appends and restarts
  of a new session, opening the queue again gives back exactly the queue in memory, as long as its file
  fits its bound: no message is lost and none that was delivered comes back. Allowed are the runs in which
  an append that fails and cannot be cut off again leaves at most the receipt, and no other prompt is the
  first record after a receipt left behind; outside them a message is lost
  (\<open>torn_receipt_drops_message\<close>), as it is in a session branched from another
  (\<open>branch_drops_saved_follow_up\<close>).
\<close>

theorem restart_recovers_queue:
  assumes "queue_run bytes ops new_session = Some s" "w_queue s = Some q" "bytes q \<le> MAX_SAVED_QUEUE_BYTES"
  shows "fst (queue_open bytes True True True (w_file s) (w_records s)) = Ok q"
proof -
  have i: "in_step s" by (rule run_in_step [OF in_step_new assms(1)])
  note r = in_step_running [OF i assms(2)]
  obtain res f' where o: "queue_open bytes True True True (w_file s) (w_records s) = (res, f')"
    by (cases "queue_open bytes True True True (w_file s) (w_records s)")
  have "case res of Inl _ \<Rightarrow> True | Inr q' \<Rightarrow> q' = q"
    unfolding r(1) [symmetric] by (rule conjunct2 [OF open_cases [OF o]]) (auto simp: r)
  moreover have "\<exists>q'. res = Inr q'"
  proof (cases "w_file s")
    case (Some q0)
    then show ?thesis
    proof (cases "queue_is_empty (q0\<lparr>q_path := True\<rparr>)")
      case False
      then have "replay (w_records s) (q0\<lparr>q_path := True\<rparr>) = q"
        using r(1) Some by (simp add: recovered_def queue_is_empty_def split: if_splits)
      then show ?thesis
        using o Some False r(2) assms(3) by (auto simp: queue_open_def Let_def queue_save_def)
    qed (use o Some in \<open>auto simp: queue_open_def Let_def\<close>)
  qed (use o in \<open>auto simp: queue_open_def\<close>)
  ultimately show ?thesis using o by auto
qed

text \<open>
  Claim C37. In the allowed runs of a new session, the deliveries its log records, each a receipt followed
  by its prompt, are numbered from one upwards without gap or repetition, up to the number the queue in
  memory holds.
\<close>

theorem deliveries_numbered_once:
  assumes "queue_run bytes ops new_session = Some s" "w_queue s = Some q"
  shows "delivered_numbers (w_records s) = [1..<Suc (q_delivered q)]"
  by (rule in_step_running(3) [OF run_in_step [OF in_step_new assms(1)] assms(2)])

section \<open>Editing\<close>

definition messages :: "queue \<Rightarrow> utext list" where
  "messages q = (case q_steer q of None \<Rightarrow> [] | Some s \<Rightarrow> [s]) @ q_pending q"

lemma mset_swap: "i < length xs \<Longrightarrow> j < length xs \<Longrightarrow> mset (swap i j xs) = mset xs"
  by (simp add: swap_def mset_swap)

lemma length_describe: "length (describe q) = length (messages q)"
  by (simp add: describe_def messages_def split: option.split)

lemma item_bound:
  assumes "index < length (describe q)" "\<not> steer_selected q index"
  shows "item_of q index < length (q_pending q)"
  using assms by (auto simp: length_describe messages_def item_of_def steer_selected_def split: option.splits)

lemma mset_promote:
  assumes "item < length (q_pending q)"
  shows "mset (messages (promote q item)) = mset (messages q)"
  using mset_remove_nth [OF assms] by (auto simp: promote_def messages_def Let_def split: option.split)

text \<open>
  Moving an entry earlier or later and promoting it to the correction only reorder the saved
  messages: none is lost or duplicated, the correction that a promotion displaces included.
\<close>

theorem reordering_keeps_messages:
  assumes "edited q action index t = Ok q'" "action = Earlier \<or> action = Later \<or> action = Promote"
  shows "mset (messages q') = mset (messages q)"
proof -
  have i: "index < length (describe q)" and st: "\<not> steer_selected q index"
    using assms by (auto simp: edited_def Let_def split: if_splits)
  note b = item_bound [OF i st]
  let ?i = "item_of q index"
  consider (earlier) "action = Earlier" "0 < ?i" "q' = q\<lparr>q_pending := swap ?i (?i - 1) (q_pending q)\<rparr>"
    | (later) "action = Later" "?i + 1 < length (q_pending q)" "q' = q\<lparr>q_pending := swap ?i (?i + 1) (q_pending q)\<rparr>"
    | (promote) "action = Promote" "q' = promote q ?i"
    using assms i st by (auto simp: edited_def Let_def split: if_splits)
  then show ?thesis
  proof cases
    case promote
    then show ?thesis using mset_promote [OF b] by simp
  qed (use b in \<open>simp_all add: messages_def mset_swap\<close>)
qed

theorem reordering_keeps_messages_witness:
  "\<exists>q'. edited \<lparr>q_pending = [[97], [98]], q_path = True, q_delivered = 0, q_steer = Some [99]\<rparr> Promote 2 [] = Ok q' \<and>
     q_pending q' = [[99], [97]] \<and> mset (messages q') = {#[97], [98], [99]#}"
proof -
  let ?q = "\<lparr>q_pending = [[97], [98]], q_path = True, q_delivered = 0, q_steer = Some [99]\<rparr>"
  let ?q' = "\<lparr>q_pending = [[99], [97]], q_path = True, q_delivered = 0, q_steer = Some [98]\<rparr>"
  have e: "edited ?q Promote 2 [] = Ok ?q'"
    by (simp add: edited_def describe_def steer_selected_def item_of_def promote_def remove_nth_def)
  have "mset (messages ?q') = mset (messages ?q)" by (rule reordering_keeps_messages [OF e]) simp
  with e show ?thesis by (auto simp: messages_def)
qed

definition dialogue_action :: "nat \<Rightarrow> queue_action" where
  "dialogue_action a = (if a = 0 then Edit else if a = 1 then Earlier else if a = 2 then Later else if a = 3 then Promote
     else if a = 4 then Remove else UnknownAction)"

text \<open>
  The queue dialogue and the saved-queue command make the same change: an entry and one of
  the five actions give the command's result, and where the command reports an error the dialogue
  leaves the queue as it was.
\<close>

theorem dialogue_agrees_with_command:
  assumes "index < length (describe q)"
  shows "manage_change q index a (Some t) =
    (case edited q (dialogue_action a) index t of Inl _ \<Rightarrow> q | Inr q' \<Rightarrow> q')"
proof -
  consider "a = 0" | "a = 1" | "a = 2" | "a = 3" | "a = 4" | "4 < a" by linarith
  then show ?thesis using assms by cases (simp_all add: manage_change_def edited_def dialogue_action_def Let_def)
qed

theorem dialogue_agrees_with_command_witness:
  "manage_change \<lparr>q_pending = [[97], [98]], q_path = True, q_delivered = 0, q_steer = None\<rparr> 1 1 (Some []) =
   \<lparr>q_pending = [[98], [97]], q_path = True, q_delivered = 0, q_steer = None\<rparr>"
  using dialogue_agrees_with_command [of 1 "\<lparr>q_pending = [[97], [98]], q_path = True, q_delivered = 0, q_steer = None\<rparr>" 1 "[]"]
  by (simp add: describe_def edited_def dialogue_action_def steer_selected_def item_of_def swap_def)

section \<open>Branches\<close>

lemma empty_stays_empty: "queue_is_empty q \<Longrightarrow> queue_is_empty (replay rs q)"
proof (induction rs q rule: replay.induct)
  case (1 r0 r1 rs q)
  then have "queue_is_empty (replay_pair r0 r1 q)"
    by (auto simp: replay_pair_def queue_is_empty_def take_next_def take_follow_up_def split: option.split)
  with 1(1) show ?case by simp
qed simp_all

lemma single_is_taken:
  "length (messages q) \<le> 1 \<Longrightarrow> n \<in> set (delivered_numbers rs) \<Longrightarrow> q_delivered q < n \<Longrightarrow> queue_is_empty (replay rs q)"
proof (induction rs q rule: replay.induct)
  case (1 r0 r1 rs q)
  show ?case
  proof (cases "replay_pair r0 r1 q = q")
    case True
    have "n \<notin> set (pair_numbers r0 r1)"
    proof
      assume n: "n \<in> set (pair_numbers r0 r1)"
      then have "is_user r1" "receipt_number r0 = Some n"
        by (cases "is_user r1"; cases "receipt_number r0"; simp add: pair_numbers_def)+
      then have "replay_pair r0 r1 q = (snd (take_next q))\<lparr>q_delivered := n\<rparr>" using 1(4) by (simp add: replay_pair_def)
      then have "q_delivered q = n" using True by (metis queue.select_convs(3) queue.surjective queue.update_convs(3))
      with 1(4) show False by simp
    qed
    then show ?thesis using 1 True by simp
  next
    case False
    then obtain k where k: "replay_pair r0 r1 q = (snd (take_next q))\<lparr>q_delivered := k\<rparr>"
      by (cases "is_user r1"; cases "receipt_number r0") (auto simp: replay_pair_def split: if_splits)
    have "queue_is_empty (snd (take_next q))"
      using 1(2) by (cases "q_steer q"; cases "q_pending q")
        (auto simp: messages_def queue_is_empty_def take_next_def take_follow_up_def)
    then have "queue_is_empty (replay_pair r0 r1 q)" by (simp add: k queue_is_empty_def)
    then show ?thesis by (simp add: empty_stays_empty)
  qed
qed simp_all

text \<open>
  A branch copies the receipts of the deliveries before it but starts with a queue that has
  seen none: a follow-up saved in the branch and not yet delivered is dropped by the next start, with
  no record of its text in the branch.
\<close>

theorem branch_drops_saved_follow_up:
  assumes "branch mark through records = Some log" "n \<in> set (delivered_numbers log)" "0 < n"
    "trim m \<noteq> []" "\<forall>q. bytes q \<le> MAX_SAVED_QUEUE_BYTES"
    "queue_open bytes True True True None log = (Ok q0, f0)" "push_checked bytes True (FollowUp m) q0 f0 = (Ok (), q1, f1)"
  shows "messages q1 = [trim m] \<and> (\<exists>q2. fst (queue_open bytes True True True f1 log) = Ok q2 \<and> messages q2 = [])"
proof -
  have q0: "q0 = \<lparr>q_pending = [], q_path = True, q_delivered = 0, q_steer = None\<rparr>" "f0 = None"
    using assms(6) by (auto simp: queue_open_def default_queue_def)
  have fits: "\<not> MAX_SAVED_QUEUE_BYTES < bytes q" for q using assms(5) by (simp add: not_less)
  have q1: "q1 = \<lparr>q_pending = [trim m], q_path = True, q_delivered = 0, q_steer = None\<rparr>" "f1 = Some (saved_form q1)"
    using assms(4,7) by (auto simp: push_checked_def queue_push_def queue_save_def q0 fits)
  have "queue_is_empty (replay log q1)"
    by (rule single_is_taken [OF _ assms(2)]) (use assms(3) in \<open>simp_all add: q1(1) messages_def\<close>)
  then show ?thesis using q1
    by (auto simp: queue_open_def saved_form_def queue_is_empty_def queue_save_def messages_def Let_def fits)
qed

theorem branch_drops_saved_follow_up_witness:
  "\<exists>log q1 f1 q2. branch [] 1 [receipt 1, User [97]] = Some log \<and>
     push_checked (\<lambda>_. 0) True (FollowUp [98]) (default_queue\<lparr>q_path := True\<rparr>) None = (Ok (), q1, f1) \<and>
     messages q1 = [[98]] \<and> fst (queue_open (\<lambda>_. 0) True True True f1 log) = Ok q2 \<and> messages q2 = []"
proof -
  let ?log = "[receipt 1, User [97], Custom ''session/branch'' (Some []), OtherRecord]"
  have b: "branch [] 1 [receipt 1, User [97]] = Some ?log" by (simp add: branch_def receipt_def)
  have n: "1 \<in> set (delivered_numbers ?log)" by (simp add: pair_numbers_def u64_max_def)
  have t: "trim [98] = [98]" by (simp add: trim_def trim_start_def trim_end_def is_whitespace_def)
  obtain q1 f1 where p: "push_checked (\<lambda>_. 0) True (FollowUp [98]) (default_queue\<lparr>q_path := True\<rparr>) None = (Ok (), q1, f1)"
    by (simp add: push_checked_def queue_save_def default_queue_def queue_push_def t split: sum.split)
  have o: "queue_open (\<lambda>_. 0) True True True None ?log = (Ok (default_queue\<lparr>q_path := True\<rparr>), None)" by (simp add: queue_open_def)
  have "messages q1 = [trim [98]] \<and> (\<exists>q2. fst (queue_open (\<lambda>_. 0) True True True f1 ?log) = Ok q2 \<and> messages q2 = [])"
    by (rule branch_drops_saved_follow_up [OF b n _ _ _ o p]) (simp_all add: t)
  with b p t show ?thesis by auto
qed

text \<open>
  A delivery whose append failed and could not be cut off leaves its receipt; after a restart another
  prompt that follows the receipt is taken for the delivered one, and the next restart drops the message
  that is still in the queue.
\<close>

definition torn_ops :: "utext \<Rightarrow> utext \<Rightarrow> queue_op list" where
  "torn_ops m x = [PushOp True (FollowUp m), DeliverOp True (LeftBehind 1), RestartOp True True True, NoteOp (User x), RestartOp True True True]"

theorem torn_receipt_drops_message:
  assumes "trim m \<noteq> []" "\<forall>q. bytes q \<le> MAX_SAVED_QUEUE_BYTES"
  shows "map_option messages (w_queue (fold (queue_step bytes) (take 4 (torn_ops m x)) new_session)) = Some [trim m] \<and>
    map_option messages (w_queue (fold (queue_step bytes) (torn_ops m x) new_session)) = Some []"
proof -
  have fits: "\<not> MAX_SAVED_QUEUE_BYTES < bytes q" for q using assms(2) by (simp add: not_less)
  let ?q = "\<lparr>q_pending = [trim m], q_path = True, q_delivered = 0, q_steer = None\<rparr>"
  let ?w = "\<lambda>log err. \<lparr>w_queue = Some ?q, w_file = Some (saved_form ?q), w_log = \<lparr>sl_records = log, sl_write_error = err\<rparr>\<rparr>"
  have push: "queue_step bytes (PushOp True (FollowUp m)) new_session = ?w [] False"
    using assms(1) fits by (simp add: queue_step_def new_session_def push_checked_def queue_push_def queue_save_def default_queue_def)
  have torn: "queue_step bytes (DeliverOp True (LeftBehind 1)) (?w [] False) = ?w [receipt 1] True"
    by (simp add: queue_step_def deliver_def take_next_def take_follow_up_def append_checked_def nat_checked_add_def u64_max_def)
  have open1: "queue_step bytes (RestartOp True True True) (?w [receipt 1] True) = ?w [receipt 1] False"
    using fits by (simp add: queue_step_def queue_open_def saved_form_def queue_is_empty_def queue_save_def Let_def)
  have other: "queue_step bytes (NoteOp (User x)) (?w [receipt 1] False) = ?w [receipt 1, User x] False"
    by (simp add: queue_step_def append_checked_def)
  have "replay [receipt 1, User x] ?q = \<lparr>q_pending = [], q_path = True, q_delivered = 1, q_steer = None\<rparr>"
    by (simp add: replay_pair_receipt u64_max_def take_next_def take_follow_up_def)
  then have "map_option messages (w_queue (queue_step bytes (RestartOp True True True) (?w [receipt 1, User x] False))) = Some []"
    using fits by (simp add: queue_step_def queue_open_def saved_form_def queue_is_empty_def queue_save_def messages_def Let_def)
  then show ?thesis using push torn open1 other by (simp add: torn_ops_def messages_def)
qed

theorem torn_receipt_drops_message_witness:
  "map_option messages (w_queue (fold (queue_step (\<lambda>_. 0)) (torn_ops [97] [98]) new_session)) = Some []"
proof -
  have "trim [97] \<noteq> []" by (simp add: trim_def trim_start_def trim_end_def is_whitespace_def)
  then show ?thesis using torn_receipt_drops_message [of "[97]" "\<lambda>_. 0" "[98]"] by simp
qed

section \<open>A run\<close>

text \<open>
  Two follow-ups, a delivery whose file update fails, a torn append, an edit and a failed restart.
\<close>

definition queue_demo_ops :: "queue_op list" where
  "queue_demo_ops = [PushOp True (FollowUp [97]), PushOp True (FollowUp [98]), DeliverOp False Appended,
     DeliverOp True (LeftBehind 1), RestartOp True True False, RestartOp True True True, PushOp True (Steer [99])]"

definition queue_demo_world :: queue_world where
  "queue_demo_world = \<lparr>w_queue = Some \<lparr>q_pending = [[98]], q_path = True, q_delivered = 1, q_steer = Some [99]\<rparr>,
     w_file = Some \<lparr>q_pending = [[98]], q_path = False, q_delivered = 1, q_steer = Some [99]\<rparr>,
     w_log = \<lparr>sl_records = [receipt 1, User [97], receipt 2], sl_write_error = False\<rparr>\<rparr>"

lemma queue_demo_run: "queue_run (\<lambda>_. 0) queue_demo_ops new_session = Some queue_demo_world"
proof -
  have t: "trim [c] = [c]" if "c \<in> {97, 98, 99}" for c
    using that by (auto simp: trim_def trim_start_def trim_end_def is_whitespace_def)
  have u: "nat_checked_add u64_max 0 1 = Some 1" "nat_checked_add u64_max 1 1 = Some 2"
    by (simp_all add: nat_checked_add_def u64_max_def)
  have k: "take 1 [x, y] = [x]" for x y :: session_record by simp
  have r: "receipt_number (receipt 1) = Some 1" "receipt_number (receipt 2) = Some 2"
    by (simp_all add: u64_max_def)
  show ?thesis
    by (simp add: queue_demo_ops_def new_session_def queue_step_def op_allowed_def push_checked_def queue_push_def t u r k
      queue_save_def saved_form_def default_queue_def deliver_def take_next_def take_follow_up_def append_checked_def
      queue_open_def queue_is_empty_def replay_pair_def Let_def queue_demo_world_def One_nat_def [symmetric] del: One_nat_def)
qed

theorem restart_recovers_queue_witness:
  "fst (queue_open (\<lambda>_. 0) True True True (w_file queue_demo_world) (w_records queue_demo_world)) =
     Ok \<lparr>q_pending = [[98]], q_path = True, q_delivered = 1, q_steer = Some [99]\<rparr>"
  using restart_recovers_queue [OF queue_demo_run, of "\<lparr>q_pending = [[98]], q_path = True, q_delivered = 1, q_steer = Some [99]\<rparr>"]
  by (simp add: queue_demo_world_def)

theorem deliveries_numbered_once_witness: "delivered_numbers (w_records queue_demo_world) = [1..<2]"
  using deliveries_numbered_once [OF queue_demo_run, of "\<lparr>q_pending = [[98]], q_path = True, q_delivered = 1, q_steer = Some [99]\<rparr>"]
  by (simp add: queue_demo_world_def numeral_2_eq_2)

end
