(* ===== verification/Sse.thy ===== *)
theory Sse
  imports Unicode_Text
begin

text \<open>
  Decoding of server-sent events (\<^verbatim>\<open>crates/glass-core/src/sse.rs\<close>): bytes are cut into text at UTF-8
  boundaries, text into records at blank lines, and records into events. The theory holds the
  decoder; \<open>Sse_Chunks\<close> shows that its result does not depend on how the bytes were cut.
\<close>

abbreviation (input) CR :: nat where "CR \<equiv> 13"
abbreviation (input) LF :: nat where "LF \<equiv> 10"
abbreviation (input) SPACE :: nat where "SPACE \<equiv> 32"
abbreviation (input) COLON :: nat where "COLON \<equiv> 58"

record sse_event =
  se_event :: "utext option"
  se_data :: utext

record sse_decoder =
  sd_buf :: utext
  sd_bytes :: "nat list"

definition sse_new :: sse_decoder where
  "sse_new = \<lparr>sd_buf = [], sd_bytes = []\<rparr>"

section \<open>Records\<close>

definition strip_cr :: "utext \<Rightarrow> utext" where
  "strip_cr l = (if l \<noteq> [] \<and> last l = CR then butlast l else l)"

text \<open>\<open>str::lines\<close>: a terminated line loses its line feed and one carriage return before it.\<close>

function lines :: "utext \<Rightarrow> utext list" where
  "lines s =
     (if s = [] then []
      else case dropWhile (\<lambda>c. c \<noteq> LF) s of
        [] \<Rightarrow> [s]
      | _ # rest \<Rightarrow> strip_cr (takeWhile (\<lambda>c. c \<noteq> LF) s) # lines rest)"
  by auto
termination
proof (relation "measure length")
  fix s :: utext and x xs
  assume "dropWhile (\<lambda>c. c \<noteq> LF) s = x # xs"
  then have "length (x # xs) \<le> length s" by (metis length_dropWhile_le)
  then show "(xs, s) \<in> measure length" by simp
qed simp

declare lines.simps [simp del]

definition trim_end_cr :: "utext \<Rightarrow> utext" where
  "trim_end_cr l = rev (dropWhile (\<lambda>c. c = CR) (rev l))"

definition split_once_colon :: "utext \<Rightarrow> (utext \<times> utext) option" where
  "split_once_colon l =
     (case dropWhile (\<lambda>c. c \<noteq> COLON) l of [] \<Rightarrow> None | _ # v \<Rightarrow> Some (takeWhile (\<lambda>c. c \<noteq> COLON) l, v))"

definition strip_space :: "utext \<Rightarrow> utext" where
  "strip_space v = (case v of c # cs \<Rightarrow> if c = SPACE then cs else v | [] \<Rightarrow> v)"

definition EVENT :: utext where "EVENT = [101, 118, 101, 110, 116]"
definition DATA :: utext where "DATA = [100, 97, 116, 97]"

definition record_line :: "utext \<Rightarrow> utext option \<times> utext list \<Rightarrow> utext option \<times> utext list" where
  "record_line raw st =
     (let l = trim_end_cr raw in
      if l = [] \<or> hd l = COLON then st
      else case split_once_colon l of
        None \<Rightarrow> st
      | Some (field, v) \<Rightarrow>
          let value = strip_space v in
          if field = EVENT then (Some value, snd st)
          else if field = DATA then (fst st, snd st @ [value])
          else st)"

fun join_lines :: "utext list \<Rightarrow> utext" where
  "join_lines [] = []"
| "join_lines [l] = l"
| "join_lines (l # ls) = l @ LF # join_lines ls"

definition parse_record :: "utext \<Rightarrow> sse_event option" where
  "parse_record raw =
     (case fold record_line (lines raw) (None, []) of
        (event, data) \<Rightarrow> if data = [] then None else Some \<lparr>se_event = event, se_data = join_lines data\<rparr>)"

section \<open>Text\<close>

fun replace_crlf :: "utext \<Rightarrow> utext" where
  "replace_crlf (a # b # s) = (if a = CR \<and> b = LF then LF # replace_crlf s else a # replace_crlf (b # s))"
| "replace_crlf s = s"

fun find_blank :: "utext \<Rightarrow> nat option" where
  "find_blank (a # b # s) = (if a = LF \<and> b = LF then Some 0 else map_option Suc (find_blank (b # s)))"
| "find_blank _ = None"

lemma find_blank_bound: "find_blank s = Some i \<Longrightarrow> i + 2 \<le> length s"
  by (induction s arbitrary: i rule: find_blank.induct) (auto split: if_splits)

function drain :: "utext \<Rightarrow> sse_event list \<times> utext" where
  "drain buf =
     (case find_blank buf of
        None \<Rightarrow> ([], buf)
      | Some i \<Rightarrow>
          (case drain (drop (i + 2) buf) of
             (events, rest) \<Rightarrow>
               ((case parse_record (take (i + 2) buf) of None \<Rightarrow> [] | Some ev \<Rightarrow> [ev]) @ events, rest)))"
  by auto
termination
  by (relation "measure length") (auto dest: find_blank_bound)

declare drain.simps [simp del]

definition push_text :: "utext \<Rightarrow> utext \<Rightarrow> sse_event list \<times> utext" where
  "push_text buf chunk =
     (let t = buf @ chunk; held = (t \<noteq> [] \<and> last t = CR); body = (if held then butlast t else t) in
      case drain (replace_crlf body) of (events, rest) \<Rightarrow> (events, if held then rest @ [CR] else rest))"

definition sse_push :: "utext \<Rightarrow> sse_decoder \<Rightarrow> sse_event list \<times> sse_decoder" where
  "sse_push chunk d = (case push_text (sd_buf d) chunk of (events, buf) \<Rightarrow> (events, d\<lparr>sd_buf := buf\<rparr>))"

definition sse_finish :: "sse_decoder \<Rightarrow> sse_event option \<times> sse_decoder" where
  "sse_finish d = (if trim (sd_buf d) = [] then (None, d) else (parse_record (sd_buf d), d\<lparr>sd_buf := []\<rparr>))"

section \<open>Bytes\<close>

text \<open>
  One step of \<open>str::from_utf8\<close>: a character, an invalid sequence with its length, or the beginning
  of a sequence that is not complete yet.
\<close>

datatype utf8_result = Utf8Char nat nat | Utf8Invalid nat | Utf8Incomplete

definition cont :: "nat \<Rightarrow> bool" where
  "cont b \<longleftrightarrow> 0x80 \<le> b \<and> b \<le> 0xBF"

definition second_ok :: "nat \<Rightarrow> nat \<Rightarrow> bool" where
  "second_ok a b \<longleftrightarrow>
     (if a = 0xE0 then 0xA0 \<le> b \<and> b \<le> 0xBF
      else if a = 0xED then 0x80 \<le> b \<and> b \<le> 0x9F
      else if a = 0xF0 then 0x90 \<le> b \<and> b \<le> 0xBF
      else if a = 0xF4 then 0x80 \<le> b \<and> b \<le> 0x8F
      else cont b)"

fun utf8_step :: "nat list \<Rightarrow> utf8_result" where
  "utf8_step [] = Utf8Incomplete"
| "utf8_step (a # bs) =
     (if a < 0x80 then Utf8Char a 1
      else if 0xC2 \<le> a \<and> a \<le> 0xDF then
        (case bs of
           [] \<Rightarrow> Utf8Incomplete
         | b # _ \<Rightarrow> if cont b then Utf8Char ((a - 0xC0) * 64 + (b - 0x80)) 2 else Utf8Invalid 1)
      else if 0xE0 \<le> a \<and> a \<le> 0xEF then
        (case bs of
           [] \<Rightarrow> Utf8Incomplete
         | b # cs \<Rightarrow>
             if \<not> second_ok a b then Utf8Invalid 1
             else (case cs of
               [] \<Rightarrow> Utf8Incomplete
             | c # _ \<Rightarrow>
                 if cont c then Utf8Char ((a - 0xE0) * 4096 + (b - 0x80) * 64 + (c - 0x80)) 3 else Utf8Invalid 2))
      else if 0xF0 \<le> a \<and> a \<le> 0xF4 then
        (case bs of
           [] \<Rightarrow> Utf8Incomplete
         | b # cs \<Rightarrow>
             if \<not> second_ok a b then Utf8Invalid 1
             else (case cs of
               [] \<Rightarrow> Utf8Incomplete
             | c # ds \<Rightarrow>
                 if \<not> cont c then Utf8Invalid 2
                 else (case ds of
                   [] \<Rightarrow> Utf8Incomplete
                 | d # _ \<Rightarrow>
                     if cont d
                     then Utf8Char ((a - 0xF0) * 262144 + (b - 0x80) * 4096 + (c - 0x80) * 64 + (d - 0x80)) 4
                     else Utf8Invalid 3)))
      else Utf8Invalid 1)"

lemma utf8_step_bounds:
  "utf8_step bs = Utf8Char c n \<Longrightarrow> 0 < n \<and> n \<le> length bs"
  "utf8_step bs = Utf8Invalid n \<Longrightarrow> 0 < n \<and> n \<le> length bs"
  by (cases bs; auto split: if_splits list.splits)+

text \<open>
  The longest text that can be taken off the bytes: the valid characters and, when an invalid
  sequence follows, that sequence as a replacement character.
\<close>

function take_text :: "nat list \<Rightarrow> utext \<times> nat list" where
  "take_text bs =
     (case utf8_step bs of
        Utf8Char c n \<Rightarrow> (case take_text (drop n bs) of (s, rest) \<Rightarrow> (c # s, rest))
      | Utf8Invalid n \<Rightarrow> ([0xFFFD], drop n bs)
      | Utf8Incomplete \<Rightarrow> ([], bs))"
  by auto
termination
  by (relation "measure length") (auto dest: utf8_step_bounds)

declare take_text.simps [simp del]

lemma take_text_shorter: "take_text bs = (s, rest) \<Longrightarrow> length rest \<le> length bs \<and> (s \<noteq> [] \<longrightarrow> length rest < length bs)"
proof (induction bs arbitrary: s rest rule: take_text.induct)
  case (1 bs)
  show ?case
  proof (cases "utf8_step bs")
    case (Utf8Char c n)
    obtain s1 r1 where t: "take_text (drop n bs) = (s1, r1)" by fastforce
    then have "length r1 \<le> length (drop n bs)" using 1(1) [OF Utf8Char t] by blast
    then show ?thesis using 1(2) Utf8Char t utf8_step_bounds(1) [OF Utf8Char] by (auto simp: take_text.simps [of bs])
  next
    case (Utf8Invalid n)
    then show ?thesis using 1(2) utf8_step_bounds(2) [OF Utf8Invalid] by (auto simp: take_text.simps [of bs])
  next
    case Utf8Incomplete
    then show ?thesis using 1(2) by (auto simp: take_text.simps [of bs])
  qed
qed

function push_loop :: "sse_decoder \<Rightarrow> sse_event list \<times> sse_decoder" where
  "push_loop d =
     (case take_text (sd_bytes d) of
        (s, rest) \<Rightarrow>
          if s = [] then ([], d)
          else (case sse_push s (d\<lparr>sd_bytes := rest\<rparr>) of
            (events, d1) \<Rightarrow>
              if sd_bytes d1 = [] then (events, d1)
              else (case push_loop d1 of (events', d2) \<Rightarrow> (events @ events', d2))))"
  by auto
termination
  by (relation "measure (\<lambda>d. length (sd_bytes d))") (auto simp: sse_push_def dest: take_text_shorter [OF sym] split: prod.splits)

declare push_loop.simps [simp del]

definition push_bytes :: "nat list \<Rightarrow> sse_decoder \<Rightarrow> sse_event list \<times> sse_decoder" where
  "push_bytes chunk d = push_loop (d\<lparr>sd_bytes := sd_bytes d @ chunk\<rparr>)"

end
