(* ===== verification/Sse_Chunks.thy ===== *)
theory Sse_Chunks
  imports Sse
begin

text \<open>
  The events do not depend on how a stream was cut into reads, neither at the level of text nor at the
  level of bytes, as long as no carriage return follows another; and what a provider prints is what
  the decoder returns.
\<close>

section \<open>Line ends\<close>

fun adjacent :: "nat \<Rightarrow> nat \<Rightarrow> utext \<Rightarrow> bool" where
  "adjacent x y (a # b # s) \<longleftrightarrow> a = x \<and> b = y \<or> adjacent x y (b # s)"
| "adjacent x y _ \<longleftrightarrow> False"

lemma adjacent_Cons: "adjacent x y (a # s) \<longleftrightarrow> s \<noteq> [] \<and> a = x \<and> hd s = y \<or> adjacent x y s"
  by (cases s) auto

lemma adjacent_append:
  "adjacent x y (s @ t) \<longleftrightarrow> adjacent x y s \<or> adjacent x y t \<or> s \<noteq> [] \<and> t \<noteq> [] \<and> last s = x \<and> hd t = y"
  by (induction s) (auto simp: adjacent_Cons)

lemma replace_crlf_Nil_iff [simp]: "replace_crlf s = [] \<longleftrightarrow> s = []"
  by (cases s rule: replace_crlf.cases) auto

lemma hd_replace_crlf: "s \<noteq> [] \<Longrightarrow> hd (replace_crlf s) = hd s \<or> hd (replace_crlf s) = LF"
  by (cases s rule: replace_crlf.cases) auto

lemma last_replace_crlf: "s \<noteq> [] \<Longrightarrow> last (replace_crlf s) = last s"
  by (induction s rule: replace_crlf.induct) auto

lemma replace_crlf_same: "\<not> adjacent CR LF s \<Longrightarrow> replace_crlf s = s"
  by (induction s rule: replace_crlf.induct) auto

lemma replace_crlf_keeps: "\<not> adjacent CR CR s \<Longrightarrow> \<not> adjacent CR CR (replace_crlf s)"
proof (induction s rule: replace_crlf.induct)
  case (1 a b s)
  show ?case
  proof (cases "a = CR \<and> b = LF")
    case True
    then have "\<not> adjacent CR CR (replace_crlf s)" using 1 by (auto simp: adjacent_Cons)
    with True show ?thesis by (simp add: adjacent_Cons)
  next
    case False
    then have "\<not> adjacent CR CR (replace_crlf (b # s))" "\<not> (a = CR \<and> b = CR)" using 1 by auto
    moreover have "hd (replace_crlf (b # s)) = b \<or> hd (replace_crlf (b # s)) = LF" using hd_replace_crlf [of "b # s"] by simp
    ultimately show ?thesis using False by (auto simp: adjacent_Cons)
  qed
qed auto

lemma replace_crlf_clean: "\<not> adjacent CR CR s \<Longrightarrow> \<not> adjacent CR LF (replace_crlf s)"
proof (induction s rule: replace_crlf.induct)
  case (1 a b s)
  show ?case
  proof (cases "a = CR \<and> b = LF")
    case True
    then have "\<not> adjacent CR LF (replace_crlf s)" using 1 by (auto simp: adjacent_Cons)
    with True show ?thesis by (simp add: adjacent_Cons)
  next
    case False
    then have i: "\<not> adjacent CR LF (replace_crlf (b # s))" using 1 by auto
    have "hd (replace_crlf (b # s)) \<noteq> LF" if "a = CR"
    proof -
      have "b \<noteq> CR" "b \<noteq> LF" using that False 1(3) by auto
      then show ?thesis by (cases s) auto
    qed
    with i False show ?thesis by (auto simp: adjacent_Cons)
  qed
qed auto

lemma replace_crlf_Cons: "a \<noteq> CR \<Longrightarrow> replace_crlf (a # t) = a # replace_crlf t"
  by (cases t) auto

lemma replace_crlf_append: "s = [] \<or> last s \<noteq> CR \<Longrightarrow> replace_crlf (s @ t) = replace_crlf s @ replace_crlf t"
  by (induction s rule: replace_crlf.induct) (auto simp: replace_crlf_Cons split: if_splits)

section \<open>Draining\<close>

lemma find_blank_append: "find_blank s = Some i \<Longrightarrow> find_blank (s @ t) = Some i"
  by (induction s arbitrary: i rule: find_blank.induct) (auto split: if_splits)

lemma drain_None: "find_blank s = None \<Longrightarrow> drain s = ([], s)"
  by (simp add: drain.simps [of s])

lemma drain_Some:
  "find_blank s = Some i \<Longrightarrow> drain s =
     ((case parse_record (take (i + 2) s) of None \<Rightarrow> [] | Some ev \<Rightarrow> [ev]) @ fst (drain (drop (i + 2) s)), snd (drain (drop (i + 2) s)))"
  by (simp add: drain.simps [of s] split: prod.split)

lemma drain_append:
  "drain (s @ t) = (fst (drain s) @ fst (drain (snd (drain s) @ t)), snd (drain (snd (drain s) @ t)))"
proof (induction s rule: drain.induct)
  case (1 s)
  show ?case
  proof (cases "find_blank s")
    case None
    then show ?thesis by (simp add: drain_None)
  next
    case (Some i)
    have "take (i + 2) (s @ t) = take (i + 2) s" "drop (i + 2) (s @ t) = drop (i + 2) s @ t"
      using find_blank_bound [OF Some] by simp_all
    then show ?thesis
      unfolding drain_Some [OF Some] drain_Some [OF find_blank_append [OF Some]] by (simp only: 1 [OF Some]) simp
  qed
qed

lemma drain_suffix: "\<exists>p. s = p @ snd (drain s)"
proof (induction s rule: drain.induct)
  case (1 s)
  show ?case
  proof (cases "find_blank s")
    case None
    then show ?thesis by (simp add: drain_None)
  next
    case (Some i)
    obtain p where "drop (i + 2) s = p @ snd (drain (drop (i + 2) s))" using 1 [OF Some] by blast
    then have "s = (take (i + 2) s @ p) @ snd (drain s)"
      by (metis append.assoc append_take_drop_id drain_Some [OF Some] snd_conv)
    then show ?thesis by blast
  qed
qed

section \<open>Text in pieces\<close>

text \<open>What a carriage return held back looks like: the text before it and the rest of the text.\<close>

definition held_part :: "utext \<Rightarrow> utext" where
  "held_part t = (if t \<noteq> [] \<and> last t = CR then [CR] else [])"

definition body_part :: "utext \<Rightarrow> utext" where
  "body_part t = (if t \<noteq> [] \<and> last t = CR then butlast t else t)"

lemma parts: "body_part t @ held_part t = t"
  by (cases t rule: rev_cases) (auto simp: body_part_def held_part_def)

lemma push_text_parts:
  "push_text buf c = (fst (drain (replace_crlf (body_part (buf @ c)))),
     snd (drain (replace_crlf (body_part (buf @ c)))) @ held_part (buf @ c))"
  by (auto simp: push_text_def body_part_def held_part_def Let_def split: prod.split)

lemma body_last:
  assumes "\<not> adjacent CR CR t" "body_part t \<noteq> []"
  shows "last (body_part t) \<noteq> CR"
proof (cases "t \<noteq> [] \<and> last t = CR")
  case True
  then have t: "t = butlast t @ [CR]" "body_part t = butlast t" using append_butlast_last_id [of t] by (auto simp: body_part_def)
  then have "\<not> adjacent CR CR (butlast t @ [CR])" using assms(1) by metis
  then show ?thesis using assms(2) t(2) by (simp add: adjacent_append)
qed (use assms(2) in \<open>auto simp: body_part_def\<close>)

text \<open>The buffer between two reads holds normalised text, and a carriage return only at its end.\<close>

lemma rest_facts:
  assumes "\<not> adjacent CR CR t"
  defines "r \<equiv> snd (drain (replace_crlf (body_part t)))"
  shows "\<not> adjacent CR CR r" "\<not> adjacent CR LF r" "r = [] \<or> last r \<noteq> CR"
proof -
  obtain p where p: "replace_crlf (body_part t) = p @ r" unfolding r_def using drain_suffix by blast
  have b: "\<not> adjacent CR CR (body_part t)" using assms(1) parts [of t] by (metis adjacent_append)
  show "\<not> adjacent CR CR r" using replace_crlf_keeps [OF b] p by (simp add: adjacent_append)
  show "\<not> adjacent CR LF r" using replace_crlf_clean [OF b] p by (simp add: adjacent_append)
  show "r = [] \<or> last r \<noteq> CR"
  proof (cases "r = []")
    case False
    then have "body_part t \<noteq> []" using p by auto
    then have "last (p @ r) \<noteq> CR" using last_replace_crlf [of "body_part t"] body_last [OF assms(1)] p by simp
    with False show ?thesis by simp
  qed simp
qed

lemma parts_append:
  assumes "s = [] \<or> last s \<noteq> CR"
  shows "body_part (s @ u) = s @ body_part u" "held_part (s @ u) = held_part u"
  using assms by (cases u rule: rev_cases; auto simp: body_part_def held_part_def butlast_append)+

lemma push_text_append:
  assumes "\<not> adjacent CR CR (buf @ c1 @ c2)" "push_text buf c1 = (e1, b1)"
  shows "push_text buf (c1 @ c2) = (e1 @ fst (push_text b1 c2), snd (push_text b1 c2))"
    and "\<not> adjacent CR CR (b1 @ c2)"
proof -
  let ?t = "buf @ c1"
  let ?u = "held_part ?t @ c2"
  let ?n = "replace_crlf (body_part ?t)"
  let ?r = "snd (drain ?n)"
  have t: "\<not> adjacent CR CR ?t" using assms(1) by (metis append.assoc adjacent_append)
  note r = rest_facts [OF t]
  have e1: "e1 = fst (drain ?n)" and b1: "b1 @ c2 = ?r @ ?u" using assms(2) by (auto simp: push_text_parts)
  have tu: "buf @ c1 @ c2 = body_part ?t @ ?u" using parts [of ?t] by (metis append.assoc)
  have bl: "body_part ?t = [] \<or> last (body_part ?t) \<noteq> CR" using body_last [OF t] by blast
  have rr: "replace_crlf (?r @ body_part ?u) = ?r @ replace_crlf (body_part ?u)"
    using replace_crlf_append [OF r(3)] replace_crlf_same [OF r(2)] by simp
  have "push_text b1 c2 = (fst (drain (?r @ replace_crlf (body_part ?u))), snd (drain (?r @ replace_crlf (body_part ?u))) @ held_part ?u)"
    unfolding push_text_parts b1 parts_append [OF r(3)] rr ..
  moreover have "push_text buf (c1 @ c2) =
      (fst (drain (?n @ replace_crlf (body_part ?u))), snd (drain (?n @ replace_crlf (body_part ?u))) @ held_part ?u)"
    unfolding push_text_parts tu parts_append [OF bl] replace_crlf_append [OF bl] ..
  ultimately show "push_text buf (c1 @ c2) = (e1 @ fst (push_text b1 c2), snd (push_text b1 c2))"
    unfolding e1 by (simp add: drain_append [of ?n])
  have "\<not> adjacent CR CR ?u" using assms(1) unfolding tu by (simp add: adjacent_append)
  then show "\<not> adjacent CR CR (b1 @ c2)" unfolding b1 using r(1,3) by (auto simp: adjacent_append)
qed

section \<open>Bytes in pieces\<close>

text \<open>The text a byte sequence stands for, and the beginning of a character left at its end.\<close>

function decode :: "nat list \<Rightarrow> utext \<times> nat list" where
  "decode bs =
     (case utf8_step bs of
        Utf8Char c n \<Rightarrow> (case decode (drop n bs) of (s, rest) \<Rightarrow> (c # s, rest))
      | Utf8Invalid n \<Rightarrow> (case decode (drop n bs) of (s, rest) \<Rightarrow> (0xFFFD # s, rest))
      | Utf8Incomplete \<Rightarrow> ([], bs))"
  by auto
termination
  by (relation "measure length") (auto dest: utf8_step_bounds)

declare decode.simps [simp del]

lemma utf8_step_append:
  "utf8_step bs = Utf8Char c n \<Longrightarrow> utf8_step (bs @ ys) = Utf8Char c n"
  "utf8_step bs = Utf8Invalid n \<Longrightarrow> utf8_step (bs @ ys) = Utf8Invalid n"
  by (cases bs; auto split: if_splits list.splits)+

lemma decode_cases:
  "utf8_step bs = Utf8Incomplete \<Longrightarrow> decode bs = ([], bs)"
  "utf8_step bs = Utf8Char c n \<Longrightarrow> decode bs = (c # fst (decode (drop n bs)), snd (decode (drop n bs)))"
  "utf8_step bs = Utf8Invalid n \<Longrightarrow> decode bs = (0xFFFD # fst (decode (drop n bs)), snd (decode (drop n bs)))"
  by (simp_all add: decode.simps [of bs] split: prod.split)

lemma take_text_cases:
  "utf8_step bs = Utf8Incomplete \<Longrightarrow> take_text bs = ([], bs)"
  "utf8_step bs = Utf8Char c n \<Longrightarrow> take_text bs = (c # fst (take_text (drop n bs)), snd (take_text (drop n bs)))"
  "utf8_step bs = Utf8Invalid n \<Longrightarrow> take_text bs = ([0xFFFD], drop n bs)"
  by (simp_all add: take_text.simps [of bs] split: prod.split)

lemma decode_append:
  "decode (bs @ ys) = (fst (decode bs) @ fst (decode (snd (decode bs) @ ys)), snd (decode (snd (decode bs) @ ys)))"
proof (induction bs rule: decode.induct)
  case (1 bs)
  show ?case
  proof (cases "utf8_step bs")
    case (Utf8Char c n)
    have "drop n (bs @ ys) = drop n bs @ ys" using utf8_step_bounds(1) [OF Utf8Char] by simp
    then show ?thesis using 1(1) [OF Utf8Char] decode_cases(2) [OF Utf8Char] decode_cases(2) [OF utf8_step_append(1) [OF Utf8Char]] by simp
  next
    case (Utf8Invalid n)
    have "drop n (bs @ ys) = drop n bs @ ys" using utf8_step_bounds(2) [OF Utf8Invalid] by simp
    then show ?thesis using 1(2) [OF Utf8Invalid] decode_cases(3) [OF Utf8Invalid] decode_cases(3) [OF utf8_step_append(2) [OF Utf8Invalid]] by simp
  qed (simp add: decode_cases(1))
qed

lemma decode_take_text:
  "decode bs = (fst (take_text bs) @ fst (decode (snd (take_text bs))), snd (decode (snd (take_text bs))))"
proof (induction bs rule: take_text.induct)
  case (1 bs)
  show ?case
  proof (cases "utf8_step bs")
    case (Utf8Char c n)
    then show ?thesis using 1 [OF Utf8Char] by (simp add: decode_cases(2) take_text_cases(2))
  next
    case (Utf8Invalid n)
    then show ?thesis by (simp add: decode_cases(3) take_text_cases(3))
  qed (simp add: take_text_cases(1) decode_cases(1))
qed

lemma take_text_Nil: "fst (take_text bs) = [] \<Longrightarrow> decode bs = ([], bs)"
  by (cases "utf8_step bs") (auto simp: decode_cases take_text_cases)

lemma decode_Nil [simp]: "decode [] = ([], [])"
  by (simp add: decode_cases(1))

lemma push_loop_decodes:
  assumes "\<not> adjacent CR CR (sd_buf d @ fst (decode (sd_bytes d)))"
  shows "push_loop d =
    (if fst (decode (sd_bytes d)) = [] then ([], d)
     else (fst (push_text (sd_buf d) (fst (decode (sd_bytes d)))),
           \<lparr>sd_buf = snd (push_text (sd_buf d) (fst (decode (sd_bytes d)))), sd_bytes = snd (decode (sd_bytes d))\<rparr>))"
  using assms
proof (induction d rule: push_loop.induct)
  case (1 d)
  obtain s rest where t: "take_text (sd_bytes d) = (s, rest)" by fastforce
  have dec: "decode (sd_bytes d) = (s @ fst (decode rest), snd (decode rest))" using decode_take_text [of "sd_bytes d"] t by simp
  show ?case
  proof (cases "s = []")
    case True
    then show ?thesis using t take_text_Nil [of "sd_bytes d"] by (simp add: push_loop.simps [of d])
  next
    case False
    obtain e1 b1 where p: "push_text (sd_buf d) s = (e1, b1)" by fastforce
    let ?d1 = "\<lparr>sd_buf = b1, sd_bytes = rest\<rparr>"
    have push: "sse_push s (d\<lparr>sd_bytes := rest\<rparr>) = (e1, ?d1)" using p by (simp add: sse_push_def)
    have no: "\<not> adjacent CR CR (sd_buf d @ s @ fst (decode rest))" using 1(2) dec by simp
    note app = push_text_append [OF no p]
    show ?thesis
    proof (cases "rest = []")
      case True
      then show ?thesis using False t push p dec by (simp add: push_loop.simps [of d])
    next
      case rest: False
      have ih: "push_loop ?d1 =
          (if fst (decode rest) = [] then ([], ?d1)
           else (fst (push_text b1 (fst (decode rest))),
                 \<lparr>sd_buf = snd (push_text b1 (fst (decode rest))), sd_bytes = snd (decode rest)\<rparr>))"
        using 1(1) [OF t [symmetric] False push [symmetric]] rest app(2) by simp
      have l: "push_loop d = (e1 @ fst (push_loop ?d1), snd (push_loop ?d1))"
        using t False push rest by (simp add: push_loop.simps [of d] split: prod.split)
      show ?thesis
      proof (cases "fst (decode rest) = []")
        case True
        then have "decode rest = ([], rest)" using take_text_Nil [of rest] decode_take_text [of rest] by (metis append_is_Nil_conv fst_conv)
        with l ih True False dec p show ?thesis by simp
      next
        case more: False
        then show ?thesis using l ih False dec app(1) by simp
      qed
    qed
  qed
qed

section \<open>A stream of reads\<close>

fun feed :: "nat list list \<Rightarrow> sse_decoder \<Rightarrow> sse_event list \<times> sse_decoder" where
  "feed [] d = ([], d)"
| "feed (c # cs) d = (case push_bytes c d of (e, d1) \<Rightarrow> case feed cs d1 of (es, d2) \<Rightarrow> (e @ es, d2))"

lemma feed_snoc: "feed (cs @ [c]) d = (fst (feed cs d) @ fst (push_bytes c (snd (feed cs d))), snd (push_bytes c (snd (feed cs d))))"
  by (induction cs arbitrary: d) (simp_all split: prod.split)

lemma push_text_nothing: "push_text [] [] = ([], [])"
  by (simp add: push_text_def drain_None)

text \<open>After any reads the decoder stands where one read of the whole stream would put it.\<close>

lemma feed_eq:
  assumes "\<not> adjacent CR CR (fst (decode (concat cs)))"
  shows "feed cs sse_new =
    (fst (push_text [] (fst (decode (concat cs)))),
     \<lparr>sd_buf = snd (push_text [] (fst (decode (concat cs)))), sd_bytes = snd (decode (concat cs))\<rparr>)"
  using assms
proof (induction cs rule: rev_induct)
  case Nil
  then show ?case by (simp add: push_text_nothing sse_new_def)
next
  case (snoc c cs)
  let ?T = "fst (decode (concat cs))" and ?R = "snd (decode (concat cs))"
  let ?s = "fst (decode (?R @ c))"
  obtain e1 b1 where p: "push_text [] ?T = (e1, b1)" by fastforce
  have dec: "decode (concat (cs @ [c])) = (?T @ ?s, snd (decode (?R @ c)))" using decode_append [of "concat cs" c] by simp
  then have no: "\<not> adjacent CR CR ([] @ ?T @ ?s)" using snoc.prems by simp
  then have "\<not> adjacent CR CR ?T" by (simp add: adjacent_append)
  then have ih: "feed cs sse_new = (e1, \<lparr>sd_buf = b1, sd_bytes = ?R\<rparr>)" using snoc.IH p by simp
  note app = push_text_append [OF no p]
  have "push_bytes c \<lparr>sd_buf = b1, sd_bytes = ?R\<rparr> =
      (if ?s = [] then ([], \<lparr>sd_buf = b1, sd_bytes = ?R @ c\<rparr>)
       else (fst (push_text b1 ?s), \<lparr>sd_buf = snd (push_text b1 ?s), sd_bytes = snd (decode (?R @ c))\<rparr>))"
    using push_loop_decodes [of "\<lparr>sd_buf = b1, sd_bytes = ?R @ c\<rparr>"] app(2) by (simp add: push_bytes_def)
  moreover have "snd (decode (?R @ c)) = ?R @ c" if "?s = []"
    using that take_text_Nil [of "?R @ c"] decode_take_text [of "?R @ c"] by (metis append_is_Nil_conv fst_conv snd_conv)
  ultimately show ?case using dec app(1) p ih by (auto simp: feed_snoc)
qed

text \<open>
  Claim C38. Two ways of cutting one byte stream into reads give the same events in the same order and
  leave the decoder in the same state, wherever the cuts fall, inside a character, a line end or a
  record, provided that no carriage return directly follows another.
\<close>

theorem reads_do_not_matter:
  assumes "concat cs = concat cs'" "\<not> adjacent CR CR (fst (decode (concat cs)))"
  shows "feed cs sse_new = feed cs' sse_new"
  using feed_eq [of cs] feed_eq [of cs'] assms by simp

theorem reads_do_not_matter_witness:
  "feed [DATA @ [58, 0xC3], [0xA9, 13], [10, 10]] sse_new = feed [DATA @ [58, 0xC3, 0xA9, 13, 10, 10]] sse_new"
proof (rule reads_do_not_matter)
  have "decode (DATA @ [58, 0xC3, 0xA9, 13, 10, 10]) = (DATA @ [58, 0xE9, 13, 10, 10], [])"
    by (simp add: DATA_def decode.simps cont_def)
  then show "\<not> adjacent CR CR (fst (decode (concat [DATA @ [58, 0xC3], [0xA9, 13], [10, 10]])))"
    by (simp add: DATA_def)
qed simp

section \<open>Printing and decoding\<close>

definition data_line :: "utext \<Rightarrow> utext" where
  "data_line l = DATA @ [COLON, SPACE] @ l"

fun data_lines :: "utext \<Rightarrow> utext list" where
  "data_lines [] = [[]]"
| "data_lines (c # s) = (if c = LF then [] # data_lines s else (c # hd (data_lines s)) # tl (data_lines s))"

definition event_lines :: "sse_event \<Rightarrow> utext list" where
  "event_lines ev =
     (case se_event ev of None \<Rightarrow> [] | Some n \<Rightarrow> [EVENT @ [COLON, SPACE] @ n]) @ map data_line (data_lines (se_data ev))"

definition print_event :: "sse_event \<Rightarrow> utext" where
  "print_event ev = concat (map (\<lambda>l. l @ [LF]) (event_lines ev)) @ [LF]"

text \<open>An event that can be printed: no line end in its name and no carriage return in its data.\<close>

definition printable :: "sse_event \<Rightarrow> bool" where
  "printable ev \<longleftrightarrow>
     (case se_event ev of None \<Rightarrow> True | Some n \<Rightarrow> CR \<notin> set n \<and> LF \<notin> set n) \<and> CR \<notin> set (se_data ev)"

lemma data_lines_nonempty [simp]: "data_lines s \<noteq> []"
  by (cases s) auto

lemma join_data_lines: "join_lines (data_lines s) = s"
proof (induction s)
  case (Cons c s)
  then show ?case by (cases "data_lines s"; cases "tl (data_lines s)") auto
qed simp

lemma data_lines_chars: "l \<in> set (data_lines s) \<Longrightarrow> LF \<notin> set l \<and> set l \<subseteq> set s"
proof (induction s arbitrary: l)
  case (Cons c s)
  show ?case
  proof (cases "c = LF")
    case True
    then show ?thesis using Cons by auto
  next
    case False
    have "hd (data_lines s) \<in> set (data_lines s)" "set (tl (data_lines s)) \<subseteq> set (data_lines s)"
      by (simp_all add: set_tl_subset)
    with False Cons show ?thesis by fastforce
  qed
qed auto

lemma event_line_facts:
  assumes "printable ev" "l \<in> set (event_lines ev)"
  shows "l \<noteq> []" "LF \<notin> set l" "CR \<notin> set l"
  using assms
  by (auto simp: event_lines_def printable_def data_line_def EVENT_def DATA_def split: option.splits
      dest: data_lines_chars [THEN conjunct1] data_lines_chars [THEN conjunct2, THEN subsetD])

lemma lines_Cons:
  assumes "LF \<notin> set l" "CR \<notin> set l"
  shows "lines (l @ LF # rest) = l # lines rest"
proof -
  have "takeWhile (\<lambda>c. c \<noteq> LF) (l @ LF # rest) = l" "dropWhile (\<lambda>c. c \<noteq> LF) (l @ LF # rest) = LF # rest"
    using assms(1) by (auto simp: takeWhile_append takeWhile_eq_all_conv dropWhile_append dropWhile_eq_Nil_conv intro: ccontr)
  moreover have "strip_cr l = l" using assms(2) by (auto simp: strip_cr_def dest: last_in_set)
  ultimately show ?thesis by (simp add: lines.simps [of "l @ LF # rest"])
qed

lemma lines_concat:
  "(\<And>l. l \<in> set ls \<Longrightarrow> LF \<notin> set l \<and> CR \<notin> set l) \<Longrightarrow> lines (concat (map (\<lambda>l. l @ [LF]) ls) @ rest) = ls @ lines rest"
  by (induction ls) (simp_all add: lines_Cons)

lemma trim_end_cr_same: "CR \<notin> set l \<Longrightarrow> trim_end_cr l = l"
  by (cases l rule: rev_cases) (auto simp: trim_end_cr_def)

lemma record_data_line: "CR \<notin> set l \<Longrightarrow> record_line (data_line l) (e, ds) = (e, ds @ [l])"
proof -
  assume "CR \<notin> set l"
  then have "trim_end_cr (data_line l) = data_line l" by (intro trim_end_cr_same) (auto simp: data_line_def DATA_def)
  then show ?thesis
    by (simp add: record_line_def data_line_def DATA_def EVENT_def split_once_colon_def strip_space_def)
qed

lemma record_event_line: "CR \<notin> set n \<Longrightarrow> record_line (EVENT @ [COLON, SPACE] @ n) (e, ds) = (Some n, ds)"
proof -
  assume "CR \<notin> set n"
  then have "trim_end_cr (EVENT @ [COLON, SPACE] @ n) = EVENT @ [COLON, SPACE] @ n" by (intro trim_end_cr_same) (auto simp: EVENT_def)
  then show ?thesis by (simp add: record_line_def EVENT_def split_once_colon_def strip_space_def)
qed

lemma fold_data_lines:
  "(\<And>l. l \<in> set ls \<Longrightarrow> CR \<notin> set l) \<Longrightarrow> fold record_line (map data_line ls) (e, ds) = (e, ds @ ls)"
  by (induction ls arbitrary: ds) (simp_all add: record_data_line)

lemma parse_print: "printable ev \<Longrightarrow> parse_record (print_event ev) = Some ev"
proof -
  assume p: "printable ev"
  have l: "lines (print_event ev) = event_lines ev @ [[]]"
    unfolding print_event_def using event_line_facts [OF p] by (subst lines_concat) (auto simp: lines.simps strip_cr_def)
  have d: "CR \<notin> set l" if "l \<in> set (data_lines (se_data ev))" for l
    using p data_lines_chars [OF that] by (auto simp: printable_def)
  have "fold record_line (event_lines ev) (None, []) = (se_event ev, data_lines (se_data ev))"
  proof (cases "se_event ev")
    case None
    then show ?thesis by (simp add: event_lines_def fold_data_lines d)
  next
    case (Some n)
    then have "CR \<notin> set n" using p by (simp add: printable_def)
    then show ?thesis using record_event_line [of n None "[]"] Some by (simp add: event_lines_def fold_data_lines d)
  qed
  moreover have "record_line [] st = st" for st by (simp add: record_line_def trim_end_cr_def)
  ultimately show ?thesis by (simp add: parse_record_def l join_data_lines)
qed

lemma find_blank_line:
  assumes "l \<noteq> []" "LF \<notin> set l" "rest \<noteq> []"
  shows "find_blank (l @ LF # rest) = (if hd rest = LF then Some (length l) else map_option (\<lambda>i. i + length l + 1) (find_blank rest))"
  using assms
proof (induction l)
  case (Cons a l)
  show ?case
  proof (cases "l = []")
    case True
    then show ?thesis using Cons by (cases rest) (auto simp: option.map_comp comp_def)
  next
    case False
    then obtain b bs where "l = b # bs" by (cases l) auto
    with Cons show ?thesis by (auto simp: option.map_comp comp_def)
  qed
qed simp

lemma find_blank_print:
  assumes "ls \<noteq> []" "\<And>l. l \<in> set ls \<Longrightarrow> l \<noteq> [] \<and> LF \<notin> set l"
  shows "find_blank (concat (map (\<lambda>l. l @ [LF]) ls) @ LF # rest) = Some (length (concat (map (\<lambda>l. l @ [LF]) ls)) - 1)"
  using assms
proof (induction ls)
  case (Cons l ls)
  show ?case
  proof (cases "ls = []")
    case True
    then show ?thesis using Cons.prems find_blank_line [of l "LF # rest"] by simp
  next
    case False
    let ?r = "concat (map (\<lambda>l. l @ [LF]) ls) @ LF # rest"
    obtain m ms where ls: "ls = m # ms" using False by (cases ls) auto
    then obtain c cs where m: "m = c # cs" using Cons.prems(2) by (cases m) auto
    have "LF \<notin> set m" using Cons.prems(2) ls by simp
    then have "hd ?r \<noteq> LF" using ls m by simp
    moreover have "find_blank ?r = Some (length (concat (map (\<lambda>l. l @ [LF]) ls)) - 1)" using Cons False by simp
    moreover have "0 < length (concat (map (\<lambda>l. l @ [LF]) ls))" using ls by simp
    ultimately show ?thesis using Cons.prems find_blank_line [of l ?r] by auto
  qed
qed simp

lemma event_lines_nonempty [simp]: "event_lines ev \<noteq> []"
  by (simp add: event_lines_def)

lemma drain_print:
  assumes "printable ev"
  shows "drain (print_event ev @ rest) = (ev # fst (drain rest), snd (drain rest))"
proof -
  let ?c = "concat (map (\<lambda>l. l @ [LF]) (event_lines ev))"
  have f: "find_blank (print_event ev @ rest) = Some (length ?c - 1)"
    using find_blank_print [of "event_lines ev" rest] event_line_facts [OF assms] by (simp add: print_event_def)
  have "0 < length ?c" by (cases "event_lines ev") auto
  then have n: "length ?c - 1 + 2 = length (print_event ev)" by (simp add: print_event_def)
  show ?thesis using drain_Some [OF f] parse_print [OF assms] unfolding n by simp
qed

lemma drain_prints:
  "list_all printable evs \<Longrightarrow> drain (concat (map print_event evs)) = (evs, [])"
  by (induction evs) (simp_all add: drain_print drain_None)

lemma no_cr_print: "printable ev \<Longrightarrow> CR \<notin> set (print_event ev)"
  using event_line_facts(3) [of ev] by (auto simp: print_event_def)

lemma no_cr_adjacent: "CR \<notin> set s \<Longrightarrow> \<not> adjacent CR y s"
  by (induction s) (auto simp: adjacent_Cons)

text \<open>
  Claim C39. What a provider prints is what the decoder returns: when the bytes of the reads stand for
  the printed form of a list of events, the decoder returns exactly these events, in order, with their
  names and with data of several lines put together again, and keeps nothing back.
\<close>

theorem printed_events_are_decoded:
  assumes "list_all printable evs" "decode (concat cs) = (concat (map print_event evs), [])"
  shows "feed cs sse_new = (evs, sse_new)"
proof -
  let ?t = "concat (map print_event evs)"
  have c: "CR \<notin> set ?t" using assms(1) no_cr_print by (auto simp: list_all_iff)
  then have "?t = [] \<or> last ?t \<noteq> CR" by (metis last_in_set)
  then have "body_part ?t = ?t" "held_part ?t = []" unfolding body_part_def held_part_def by argo+
  then have "push_text [] ?t = (evs, [])"
    using drain_prints [OF assms(1)] replace_crlf_same [OF no_cr_adjacent [OF c]] by (simp add: push_text_parts)
  then show ?thesis using feed_eq [of cs] no_cr_adjacent [OF c] assms(2) by (simp add: sse_new_def)
qed

theorem printed_events_are_decoded_witness:
  "feed [DATA @ [58], [32, 0xC3], [0xA9, 10], [10]] sse_new = ([\<lparr>se_event = None, se_data = [0xE9]\<rparr>], sse_new)"
proof (rule printed_events_are_decoded)
  show "list_all printable [\<lparr>se_event = None, se_data = [0xE9]\<rparr>]" by (simp add: printable_def)
  show "decode (concat [DATA @ [58], [32, 0xC3], [0xA9, 10], [10]]) = (concat (map print_event [\<lparr>se_event = None, se_data = [0xE9]\<rparr>]), [])"
    by (simp add: DATA_def decode.simps cont_def print_event_def event_lines_def data_line_def)
qed

text \<open>
  Two carriage returns before a line feed: the first pass leaves a carriage return and a line feed,
  which the next read turns into a blank line that one read of the same bytes does not have.
\<close>

lemma double_cr_splits_record:
  "fst (feed [DATA @ [58, 97, 10, 13, 13, 10], [120]] sse_new) = [\<lparr>se_event = None, se_data = [97]\<rparr>] \<and>
   fst (feed [DATA @ [58, 97, 10, 13, 13, 10, 120]] sse_new) = []"
  by (simp add: push_bytes_def sse_new_def DATA_def EVENT_def push_loop.simps take_text.simps sse_push_def push_text_def drain.simps
    parse_record_def lines.simps record_line_def trim_end_cr_def split_once_colon_def strip_space_def strip_cr_def)

end
