(* ===== verification/Todo_Board.thy ===== *)
theory Todo_Board
  imports Session_Log
begin

text \<open>
  The session checklist (\<^verbatim>\<open>crates/glass-core/src/todo.rs\<close>): tasks with identifiers that are handed out
  once, batches of operations that are applied as a whole or not at all, and receipts that make a
  repeated request harmless. The digests of the board and of a request, the size of the tasks' JSON
  text and the JSON reader and writer are parameters.
\<close>

section \<open>Data\<close>

datatype todo_status = Pending | InProgress | Completed | Blocked | Abandoned

definition actionable :: "todo_status \<Rightarrow> bool" where
  "actionable s \<longleftrightarrow> s = Pending \<or> s = InProgress"

record todo_task =
  td_id :: utext
  td_title :: utext
  td_phase :: utext
  td_status :: todo_status
  td_blocker :: "utext option"
  td_owner :: "utext option"
  td_workspace_task :: "nat option"

record todo_receipt =
  rc_id :: utext
  rc_intent :: utext
  rc_revision :: utext

record board =
  bd_version :: nat
  bd_next_id :: nat
  bd_tasks :: "todo_task list"
  bd_auto_continue :: bool
  bd_hidden :: bool
  bd_receipts :: "todo_receipt list"

definition default_board :: board where
  "default_board = \<lparr>bd_version = 1, bd_next_id = 1, bd_tasks = [], bd_auto_continue = False, bd_hidden = False, bd_receipts = []\<rparr>"

definition RECEIPTS :: nat where
  "RECEIPTS = 256"

record new_task =
  nt_title :: utext
  nt_phase :: utext
  nt_owner :: "utext option"
  nt_workspace_task :: "nat option"

record task_update =
  up_id :: utext
  up_title :: "utext option"
  up_phase :: "utext option"
  up_status :: "todo_status option"
  up_blocker :: "utext option"
  up_owner :: "utext option"
  up_workspace_task :: "nat option"

datatype todo_op =
    OpInit "new_task list"
  | OpAdd "new_task list"
  | OpUpdate task_update
  | OpRemove utext
  | OpClear
  | OpConfigure "bool option" "bool option"

datatype todo_error =
    ChecklistText nat | UnsupportedVersion | ExceedsBounds | InvalidTaskId | DuplicateOrInvalidId
  | WorkspaceIdZero | BlockedNeedsReason | TooManyOperations | RequestReused | StaleRevision
  | UnknownTask utext | NothingToAdd | TaskIdExhausted | NoSnapshotData | InvalidSnapshot

text \<open>What is computed outside: the digest of the visible board, that of a request and a size.\<close>

record todo_env =
  te_revision :: "nat \<times> todo_task list \<times> bool \<times> bool \<Rightarrow> utext"
  te_intent :: "todo_op list \<Rightarrow> utext"
  te_size :: "todo_task list \<Rightarrow> nat"

section \<open>Text\<close>

fun utf8_width :: "nat \<Rightarrow> nat" where
  "utf8_width c = (if c < 0x80 then 1 else if c < 0x800 then 2 else if c < 0x10000 then 3 else 4)"

definition byte_len :: "utext \<Rightarrow> nat" where
  "byte_len s = sum_list (map utf8_width s)"

text \<open>\<open>split_whitespace\<close>: the maximal runs without white space.\<close>

function split_whitespace :: "utext \<Rightarrow> utext list" where
  "split_whitespace s =
     (case dropWhile is_whitespace s of
        [] \<Rightarrow> []
      | c # cs \<Rightarrow>
          (c # takeWhile (\<lambda>x. \<not> is_whitespace x) cs) # split_whitespace (dropWhile (\<lambda>x. \<not> is_whitespace x) cs))"
  by auto
termination
proof (relation "measure length")
  fix s :: utext and c cs
  assume "dropWhile is_whitespace s = c # cs"
  then have "length (c # cs) \<le> length s" by (metis length_dropWhile_le)
  moreover have "length (dropWhile (\<lambda>x. \<not> is_whitespace x) cs) \<le> length cs" by (rule length_dropWhile_le)
  ultimately show "(dropWhile (\<lambda>x. \<not> is_whitespace x) cs, s) \<in> measure length" by simp
qed simp

declare split_whitespace.simps [simp del]

fun join_space :: "utext list \<Rightarrow> utext" where
  "join_space [] = []"
| "join_space [w] = w"
| "join_space (w # ws) = w @ 32 # join_space ws"

definition short :: "utext \<Rightarrow> nat \<Rightarrow> (todo_error, utext) result" where
  "short s limit =
     (let t = join_space (split_whitespace s) in
      if t = [] \<or> byte_len t > limit then Err (ChecklistText limit) else Ok t)"

section \<open>Validation\<close>

definition revision :: "todo_env \<Rightarrow> board \<Rightarrow> utext" where
  "revision env b = te_revision env (bd_next_id b, bd_tasks b, bd_auto_continue b, bd_hidden b)"

definition task_number :: "utext \<Rightarrow> nat option" where
  "task_number i = (case i of c # cs \<Rightarrow> if c = 84 then parse_u64 cs else None | [] \<Rightarrow> None)"

definition task_fields_ok :: "todo_task \<Rightarrow> (todo_error, unit) result" where
  "task_fields_ok t =
     res_bind (short (td_title t) 512) (\<lambda>_.
     res_bind (short (td_phase t) 128) (\<lambda>_.
     res_bind (case td_owner t of None \<Rightarrow> Ok [] | Some s \<Rightarrow> short s 128) (\<lambda>_.
     if td_workspace_task t = Some 0 then Err WorkspaceIdZero
     else if td_status t = Blocked \<and> (case td_blocker t of None \<Rightarrow> True | Some s \<Rightarrow> trim s = []) then Err BlockedNeedsReason
     else res_bind (case td_blocker t of None \<Rightarrow> Ok [] | Some s \<Rightarrow> short s 1024) (\<lambda>_. Ok ()))))"

fun validate_tasks :: "nat \<Rightarrow> nat list \<Rightarrow> todo_task list \<Rightarrow> (todo_error, unit) result" where
  "validate_tasks next seen [] = Ok ()"
| "validate_tasks next seen (t # ts) =
     (case task_number (td_id t) of
        None \<Rightarrow> Err InvalidTaskId
      | Some n \<Rightarrow>
          if n = 0 \<or> n \<ge> next \<or> n \<in> set seen then Err DuplicateOrInvalidId
          else res_bind (task_fields_ok t) (\<lambda>_. validate_tasks next (n # seen) ts))"

definition validate_board :: "todo_env \<Rightarrow> board \<Rightarrow> (todo_error, unit) result" where
  "validate_board env b =
     (if bd_version b \<noteq> 1 \<or> bd_next_id b = 0 then Err UnsupportedVersion
      else if length (bd_tasks b) > 256 \<or> te_size env (bd_tasks b) > 131072 \<or> length (bd_receipts b) > RECEIPTS
      then Err ExceedsBounds
      else validate_tasks (bd_next_id b) [] (bd_tasks b))"

section \<open>Operations\<close>

definition default_phase :: utext where
  "default_phase = [84, 97, 115, 107, 115]"

definition add_one :: "new_task \<Rightarrow> board \<Rightarrow> (todo_error, board) result" where
  "add_one item b =
     (case nat_checked_add u64_max (bd_next_id b) 1 of
        None \<Rightarrow> Err TaskIdExhausted
      | Some next \<Rightarrow>
          res_bind (short (nt_title item) 512) (\<lambda>title.
          res_bind (short (nt_phase item) 128) (\<lambda>phase.
          res_bind (case nt_owner item of None \<Rightarrow> Ok None | Some s \<Rightarrow> res_bind (short s 128) (\<lambda>x. Ok (Some x))) (\<lambda>owner.
          Ok (b\<lparr>bd_next_id := next,
                bd_tasks := bd_tasks b @
                  [\<lparr>td_id = 84 # decimal (bd_next_id b), td_title = title, td_phase = phase, td_status = Pending,
                    td_blocker = None, td_owner = owner, td_workspace_task = nt_workspace_task item\<rparr>]\<rparr>)))))"

fun add_all :: "new_task list \<Rightarrow> board \<Rightarrow> (todo_error, board) result" where
  "add_all [] b = Ok b"
| "add_all (item # items) b = res_bind (add_one item b) (add_all items)"

definition board_add :: "new_task list \<Rightarrow> board \<Rightarrow> (todo_error, board) result" where
  "board_add items b = (if items = [] then Err NothingToAdd else add_all items b)"

definition update_status :: "todo_status option \<Rightarrow> todo_task \<Rightarrow> todo_task" where
  "update_status status t =
     (case status of
        None \<Rightarrow> t
      | Some s \<Rightarrow> if s \<noteq> Blocked then t\<lparr>td_status := s, td_blocker := None\<rparr> else t\<lparr>td_status := s\<rparr>)"

definition update_task :: "task_update \<Rightarrow> todo_task \<Rightarrow> (todo_error, todo_task) result" where
  "update_task u t =
     res_bind (case up_title u of None \<Rightarrow> Ok t | Some s \<Rightarrow> res_bind (short s 512) (\<lambda>x. Ok (t\<lparr>td_title := x\<rparr>))) (\<lambda>t1.
     res_bind (case up_phase u of None \<Rightarrow> Ok t1 | Some s \<Rightarrow> res_bind (short s 128) (\<lambda>x. Ok (t1\<lparr>td_phase := x\<rparr>))) (\<lambda>t2.
     let t3 = update_status (up_status u) t2 in
     res_bind (case up_blocker u of None \<Rightarrow> Ok t3 | Some s \<Rightarrow> res_bind (short s 1024) (\<lambda>x. Ok (t3\<lparr>td_blocker := Some x\<rparr>))) (\<lambda>t4.
     res_bind (case up_owner u of None \<Rightarrow> Ok t4
               | Some s \<Rightarrow> if trim s = [] then Ok (t4\<lparr>td_owner := None\<rparr>)
                          else res_bind (short s 128) (\<lambda>x. Ok (t4\<lparr>td_owner := Some x\<rparr>))) (\<lambda>t5.
     Ok (case up_workspace_task u of None \<Rightarrow> t5
         | Some l \<Rightarrow> t5\<lparr>td_workspace_task := (if l = 0 then None else Some l)\<rparr>)))))"

text \<open>The position of the first task with an identifier, as \<open>position\<close> and \<open>find\<close> see it.\<close>

fun task_position :: "utext \<Rightarrow> todo_task list \<Rightarrow> nat option" where
  "task_position i [] = None"
| "task_position i (t # ts) = (if td_id t = i then Some 0 else map_option Suc (task_position i ts))"

definition board_op :: "todo_op \<Rightarrow> board \<Rightarrow> (todo_error, board) result" where
  "board_op op b =
     (case op of
        OpInit items \<Rightarrow> res_bind (board_add items (b\<lparr>bd_tasks := []\<rparr>)) (\<lambda>b'. Ok (b'\<lparr>bd_hidden := False\<rparr>))
      | OpAdd items \<Rightarrow> res_bind (board_add items b) (\<lambda>b'. Ok (b'\<lparr>bd_hidden := False\<rparr>))
      | OpUpdate u \<Rightarrow>
          (case task_position (up_id u) (bd_tasks b) of
             None \<Rightarrow> Err (UnknownTask (up_id u))
           | Some i \<Rightarrow> res_bind (update_task u (bd_tasks b ! i)) (\<lambda>t. Ok (b\<lparr>bd_tasks := (bd_tasks b)[i := t]\<rparr>)))
      | OpRemove i \<Rightarrow>
          (case task_position i (bd_tasks b) of
             None \<Rightarrow> Err (UnknownTask i)
           | Some n \<Rightarrow> Ok (b\<lparr>bd_tasks := remove_nth n (bd_tasks b)\<rparr>))
      | OpClear \<Rightarrow> Ok (b\<lparr>bd_tasks := []\<rparr>)
      | OpConfigure auto hidden \<Rightarrow>
          Ok (b\<lparr>bd_auto_continue := (case auto of None \<Rightarrow> bd_auto_continue b | Some v \<Rightarrow> v),
                bd_hidden := (case hidden of None \<Rightarrow> bd_hidden b | Some v \<Rightarrow> v)\<rparr>))"

fun board_ops :: "todo_op list \<Rightarrow> board \<Rightarrow> (todo_error, board) result" where
  "board_ops [] b = Ok b"
| "board_ops (op # ops) b = res_bind (board_op op b) (board_ops ops)"

section \<open>A request\<close>

record todo_request =
  rq_ops :: "todo_op list"
  rq_id :: "utext option"
  rq_expected :: "utext option"

datatype todo_reply =
    ReadReply utext "todo_task list" bool bool
  | AlreadyApplied utext utext
  | Applied "todo_task list" "utext list" utext nat

definition changed_tasks :: "board \<Rightarrow> board \<Rightarrow> todo_task list" where
  "changed_tasks old new = filter (\<lambda>t. find (\<lambda>old_t. td_id old_t = td_id t) (bd_tasks old) \<noteq> Some t) (bd_tasks new)"

definition removed_ids :: "board \<Rightarrow> board \<Rightarrow> utext list" where
  "removed_ids old new = map td_id (filter (\<lambda>old_t. \<not> list_ex (\<lambda>t. td_id t = td_id old_t) (bd_tasks new)) (bd_tasks old))"

definition add_receipt :: "todo_env \<Rightarrow> todo_op list \<Rightarrow> utext option \<Rightarrow> board \<Rightarrow> board" where
  "add_receipt env ops i b =
     (case i of
        None \<Rightarrow> b
      | Some r \<Rightarrow>
          b\<lparr>bd_receipts := ring_push RECEIPTS \<lparr>rc_id = r, rc_intent = te_intent env ops, rc_revision = revision env b\<rparr> (bd_receipts b)\<rparr>)"

definition commit_ops :: "todo_env \<Rightarrow> todo_op list \<Rightarrow> utext option \<Rightarrow> board \<Rightarrow> (todo_error, todo_reply) result \<times> board" where
  "commit_ops env ops i b =
     (case res_bind (board_ops ops b) (\<lambda>next. res_bind (validate_board env next) (\<lambda>_. Ok next)) of
        Inl e \<Rightarrow> (Err e, b)
      | Inr next \<Rightarrow>
          let next' = add_receipt env ops i next in
          (Ok (Applied (changed_tasks b next) (removed_ids b next) (revision env next') (length (bd_receipts next'))), next'))"

definition request_id :: "todo_request \<Rightarrow> (todo_error, utext option) result" where
  "request_id r = (case rq_id r of None \<Rightarrow> Ok None | Some i \<Rightarrow> res_bind (short i 128) (\<lambda>s. Ok (Some s)))"

definition find_receipt :: "utext option \<Rightarrow> board \<Rightarrow> todo_receipt option" where
  "find_receipt i b = (case i of None \<Rightarrow> None | Some r \<Rightarrow> find (\<lambda>x. rc_id x = r) (bd_receipts b))"

definition apply_checked :: "todo_env \<Rightarrow> todo_request \<Rightarrow> board \<Rightarrow> (todo_error, todo_reply) result \<times> board" where
  "apply_checked env r b =
     (if length (rq_ops r) > 256 then (Err TooManyOperations, b)
      else if rq_ops r = [] then (Ok (ReadReply (revision env b) (bd_tasks b) (bd_auto_continue b) (bd_hidden b)), b)
      else case request_id r of
        Inl e \<Rightarrow> (Err e, b)
      | Inr i \<Rightarrow>
          (case find_receipt i b of
             Some receipt \<Rightarrow>
               if rc_intent receipt \<noteq> te_intent env (rq_ops r) then (Err RequestReused, b)
               else (Ok (AlreadyApplied (rc_revision receipt) (revision env b)), b)
           | None \<Rightarrow>
               (case rq_expected r of
                  None \<Rightarrow> commit_ops env (rq_ops r) i b
                | Some e \<Rightarrow> if e \<noteq> revision env b then (Err StaleRevision, b) else commit_ops env (rq_ops r) i b)))"

section \<open>Storage\<close>

definition KIND :: string where
  "KIND = ''state/todo''"

definition board_record :: "(board \<Rightarrow> utext) \<Rightarrow> board \<Rightarrow> session_record" where
  "board_record to_json b = Custom KIND (Some (to_json b))"

fun restore_rev :: "todo_env \<Rightarrow> (utext \<Rightarrow> board option) \<Rightarrow> session_record list \<Rightarrow> (todo_error, board) result" where
  "restore_rev env from_json [] = Ok default_board"
| "restore_rev env from_json (r # rs) =
     (case r of
        Custom kind data \<Rightarrow>
          if kind = KIND
          then (case data of
                  None \<Rightarrow> Err NoSnapshotData
                | Some s \<Rightarrow>
                    (case from_json s of
                       None \<Rightarrow> Err InvalidSnapshot
                     | Some b \<Rightarrow> res_bind (validate_board env b) (\<lambda>_. Ok b)))
          else restore_rev env from_json rs
      | _ \<Rightarrow> restore_rev env from_json rs)"

definition restore :: "todo_env \<Rightarrow> (utext \<Rightarrow> board option) \<Rightarrow> session_record list \<Rightarrow> (todo_error, board) result" where
  "restore env from_json records = restore_rev env from_json (rev records)"

end
