(* ===== verification/Todo_Promises.thy ===== *)
theory Todo_Promises
  imports Todo_Board
begin

text \<open>
  What the checklist promises: every board it reaches passes the checks of the next start, an
  identifier is never given to a second task, and a repeated request is answered from its receipt.
\<close>

section \<open>Runs of requests\<close>

fun todo_run :: "todo_env \<Rightarrow> todo_request list \<Rightarrow> board \<Rightarrow> board" where
  "todo_run env [] b = b"
| "todo_run env (r # rs) b = todo_run env rs (snd (apply_checked env r b))"

text \<open>A request leaves the board alone or replaces it by a valid one with one receipt more.\<close>

inductive todo_change :: "todo_env \<Rightarrow> board \<Rightarrow> board \<Rightarrow> bool" for env :: todo_env and b :: board where
  unchanged: "todo_change env b b"
| committed: "board_ops ops b = Ok next \<Longrightarrow> validate_board env next = Ok () \<Longrightarrow> find_receipt i b = None
    \<Longrightarrow> todo_change env b (add_receipt env ops i next)"

lemma commit_change: "find_receipt i b = None \<Longrightarrow> todo_change env b (snd (commit_ops env ops i b))"
  by (auto simp: commit_ops_def Let_def res_bind_Inr_iff intro: todo_change.intros split: sum.splits)

lemma apply_change: "todo_change env b (snd (apply_checked env r b))"
  by (auto simp: apply_checked_def intro: todo_change.unchanged commit_change split: sum.split option.split)

lemma todo_run_induct [consumes 1, case_names step]:
  assumes "P b" "\<And>b b'. P b \<Longrightarrow> todo_change env b b' \<Longrightarrow> P b'"
  shows "P (todo_run env rs b)"
  using assms(1) by (induction rs arbitrary: b) (auto intro: assms(2) apply_change)

section \<open>Stored boards load again\<close>

lemma add_receipt_keeps [simp]:
  "bd_version (add_receipt env ops i b) = bd_version b" "bd_next_id (add_receipt env ops i b) = bd_next_id b"
  "bd_tasks (add_receipt env ops i b) = bd_tasks b"
  by (simp_all add: add_receipt_def split: option.split)

lemma validate_add_receipt: "validate_board env b = Ok () \<Longrightarrow> validate_board env (add_receipt env ops i b) = Ok ()"
  by (cases i) (auto simp: validate_board_def add_receipt_def length_ring_push split: if_splits)

lemma run_valid: "validate_board env b = Ok () \<Longrightarrow> validate_board env (todo_run env rs b) = Ok ()"
  by (induction rule: todo_run_induct) (auto elim!: todo_change.cases simp: validate_add_receipt)

definition is_board_record :: "session_record \<Rightarrow> bool" where
  "is_board_record r \<longleftrightarrow> (case r of Custom kind _ \<Rightarrow> kind = KIND | _ \<Rightarrow> False)"

lemma restore_rev_skip: "\<not> is_board_record r \<Longrightarrow> restore_rev env from_json (r # rs) = restore_rev env from_json rs"
  by (cases r) (auto simp: is_board_record_def)

lemma restore_skip: "\<forall>r \<in> set later. \<not> is_board_record r \<Longrightarrow> restore_rev env from_json (rev later @ rs) = restore_rev env from_json rs"
proof (induction later arbitrary: rs)
  case (Cons r later)
  then show ?case using restore_rev_skip [of r] by simp
qed simp

lemma default_valid: "te_size env [] \<le> 131072 \<Longrightarrow> validate_board env default_board = Ok ()"
  by (simp add: validate_board_def default_board_def)

text \<open>
  Claim C40. Whatever requests a new checklist has seen, accepted and refused, the snapshot written for
  it is accepted by the next start and gives the same board back, so a stored checklist always obeys
  its bounds: at most 256 tasks and receipts, distinct identifiers below the counter, and text within
  its limits. The reader is assumed to read back what the writer wrote.
\<close>

theorem stored_checklist_restores:
  assumes "from_json (to_json (todo_run env rs default_board)) = Some (todo_run env rs default_board)" "te_size env [] \<le> 131072" "\<forall>r \<in> set later. \<not> is_board_record r"
  shows "restore env from_json (earlier @ [board_record to_json (todo_run env rs default_board)] @ later) =
    Ok (todo_run env rs default_board)"
proof -
  have "restore env from_json (earlier @ [board_record to_json (todo_run env rs default_board)] @ later) =
      restore_rev env from_json (board_record to_json (todo_run env rs default_board) # rev earlier)"
    using restore_skip [OF assms(3)] by (simp add: restore_def)
  then show ?thesis using run_valid [OF default_valid [OF assms(2)]] assms(1) by (simp add: board_record_def)
qed

section \<open>Identifiers\<close>

definition task_id :: "nat \<Rightarrow> utext" where
  "task_id n = 84 # decimal n"

lemma decimal_value: "foldl (\<lambda>a c. a * 10 + (c - 48)) 0 (decimal n) = n"
proof (induction n rule: decimal.induct)
  case (1 n)
  then show ?case by (cases "n < 10") (simp_all add: decimal.simps [of n])
qed

lemma task_id_inject [simp]: "task_id m = task_id n \<longleftrightarrow> m = n"
  using decimal_value by (metis list.inject task_id_def)

definition ids :: "board \<Rightarrow> utext set" where
  "ids b = td_id ` set (bd_tasks b)"

text \<open>Every operation keeps identifiers or takes them from between the counter before and after.\<close>

definition grows :: "board \<Rightarrow> board \<Rightarrow> bool" where
  "grows b b' \<longleftrightarrow> bd_next_id b \<le> bd_next_id b' \<and> ids b' \<subseteq> ids b \<union> task_id ` {bd_next_id b..<bd_next_id b'}"

lemma grows_refl: "grows b b"
  by (simp add: grows_def)

lemma grows_trans:
  assumes "grows a b" "grows b c"
  shows "grows a c"
proof -
  have "task_id ` {bd_next_id a..<bd_next_id b} \<union> task_id ` {bd_next_id b..<bd_next_id c} \<subseteq> task_id ` {bd_next_id a..<bd_next_id c}"
    using assms by (auto simp: grows_def)
  moreover have "ids c \<subseteq> ids a \<union> (task_id ` {bd_next_id a..<bd_next_id b} \<union> task_id ` {bd_next_id b..<bd_next_id c})"
    using assms unfolding grows_def by blast
  ultimately have "ids c \<subseteq> ids a \<union> task_id ` {bd_next_id a..<bd_next_id c}" by (meson Un_mono order_refl order_trans)
  then show ?thesis using assms by (simp add: grows_def)
qed

lemma grows_mono: "bd_next_id b' = bd_next_id b \<Longrightarrow> ids b' \<subseteq> ids b \<Longrightarrow> grows b b'"
  by (auto simp: grows_def)

lemma add_one_grows: "add_one item b = Ok b' \<Longrightarrow> grows b b'"
  by (auto simp: add_one_def grows_def ids_def task_id_def res_bind_Inr_iff split: option.splits)

lemma add_all_grows: "add_all items b = Ok b' \<Longrightarrow> grows b b'"
proof (induction items arbitrary: b)
  case (Cons item items)
  then obtain b1 where "add_one item b = Ok b1" "add_all items b1 = Ok b'" by (auto simp: res_bind_Inr_iff)
  then show ?case using Cons.IH add_one_grows grows_trans by blast
qed (simp add: grows_refl)

lemma board_add_grows: "board_add items b = Ok b' \<Longrightarrow> grows b b'"
  by (auto simp: board_add_def add_all_grows split: if_splits)

lemma update_task_id:
  assumes "update_task u t = Ok t'"
  shows "td_id t' = td_id t"
proof -
  obtain t1 t2 t4 t5 where s:
    "(case up_title u of None \<Rightarrow> Ok t | Some s \<Rightarrow> res_bind (short s 512) (\<lambda>x. Ok (t\<lparr>td_title := x\<rparr>))) = Ok t1"
    "(case up_phase u of None \<Rightarrow> Ok t1 | Some s \<Rightarrow> res_bind (short s 128) (\<lambda>x. Ok (t1\<lparr>td_phase := x\<rparr>))) = Ok t2"
    "(case up_blocker u of None \<Rightarrow> Ok (update_status (up_status u) t2)
      | Some s \<Rightarrow> res_bind (short s 1024) (\<lambda>x. Ok ((update_status (up_status u) t2)\<lparr>td_blocker := Some x\<rparr>))) = Ok t4"
    "(case up_owner u of None \<Rightarrow> Ok t4
      | Some s \<Rightarrow> if trim s = [] then Ok (t4\<lparr>td_owner := None\<rparr>)
                 else res_bind (short s 128) (\<lambda>x. Ok (t4\<lparr>td_owner := Some x\<rparr>))) = Ok t5"
    "t' = (case up_workspace_task u of None \<Rightarrow> t5 | Some l \<Rightarrow> t5\<lparr>td_workspace_task := (if l = 0 then None else Some l)\<rparr>)"
    using assms unfolding update_task_def Let_def res_bind_Inr_iff by blast
  have "td_id t1 = td_id t" using s(1) by (cases "up_title u") (auto simp: res_bind_Inr_iff)
  moreover have "td_id t2 = td_id t1" using s(2) by (cases "up_phase u") (auto simp: res_bind_Inr_iff)
  moreover have "td_id (update_status (up_status u) t2) = td_id t2" by (simp add: update_status_def split: option.split)
  then have "td_id t4 = td_id t2" using s(3) by (cases "up_blocker u") (auto simp: res_bind_Inr_iff)
  moreover have "td_id t5 = td_id t4" using s(4) by (cases "up_owner u") (auto simp: res_bind_Inr_iff split: if_splits)
  moreover have "td_id t' = td_id t5" using s(5) by (cases "up_workspace_task u") simp_all
  ultimately show ?thesis by simp
qed

lemma task_position_Some: "task_position i ts = Some n \<Longrightarrow> n < length ts \<and> td_id (ts ! n) = i"
  by (induction ts arbitrary: n) (auto split: if_splits)

lemma set_remove_nth: "set (remove_nth n xs) \<subseteq> set xs"
  by (auto simp: remove_nth_def dest: in_set_takeD in_set_dropD)

lemma board_op_grows:
  assumes "board_op op b = Ok b'"
  shows "grows b b'"
proof (cases op)
  case (OpInit items)
  then obtain b1 where b1: "board_add items (b\<lparr>bd_tasks := []\<rparr>) = Ok b1" "b' = b1\<lparr>bd_hidden := False\<rparr>"
    using assms by (auto simp: board_op_def res_bind_Inr_iff)
  have "grows b (b\<lparr>bd_tasks := []\<rparr>)" "grows b1 b'" by (simp_all add: grows_mono ids_def b1(2))
  then show ?thesis using board_add_grows [OF b1(1)] grows_trans by blast
next
  case (OpAdd items)
  then obtain b1 where b1: "board_add items b = Ok b1" "b' = b1\<lparr>bd_hidden := False\<rparr>"
    using assms by (auto simp: board_op_def res_bind_Inr_iff)
  have "grows b1 b'" by (simp add: grows_mono ids_def b1(2))
  then show ?thesis using board_add_grows [OF b1(1)] grows_trans by blast
next
  case (OpUpdate u)
  then obtain i t where i: "task_position (up_id u) (bd_tasks b) = Some i" "update_task u (bd_tasks b ! i) = Ok t"
      "b' = b\<lparr>bd_tasks := (bd_tasks b)[i := t]\<rparr>"
    using assms by (auto simp: board_op_def res_bind_Inr_iff split: option.splits)
  then have "td_id t = td_id (bd_tasks b ! i)" "bd_tasks b ! i \<in> set (bd_tasks b)"
    using update_task_id task_position_Some [OF i(1)] by auto
  then have "ids b' \<subseteq> ids b" using set_update_subset_insert [of "bd_tasks b" i t] by (auto simp: ids_def i(3))
  then show ?thesis by (simp add: grows_mono i(3))
next
  case (OpRemove i)
  then obtain n where "b' = b\<lparr>bd_tasks := remove_nth n (bd_tasks b)\<rparr>"
    using assms by (auto simp: board_op_def split: option.splits)
  then show ?thesis using set_remove_nth [of n "bd_tasks b"] by (simp add: ids_def grows_mono image_mono)
qed (use assms in \<open>auto simp: board_op_def ids_def intro!: grows_mono\<close>)

lemma board_ops_grows: "board_ops ops b = Ok b' \<Longrightarrow> grows b b'"
proof (induction ops arbitrary: b)
  case (Cons op ops)
  then obtain b1 where "board_op op b = Ok b1" "board_ops ops b1 = Ok b'" by (auto simp: res_bind_Inr_iff)
  then show ?case using Cons.IH board_op_grows grows_trans by blast
qed (simp add: grows_refl)

lemma change_grows: "todo_change env b b' \<Longrightarrow> grows b b'"
proof (induction rule: todo_change.induct)
  case (committed ops next' i)
  have "grows next' (add_receipt env ops i next')" by (simp add: grows_mono ids_def)
  then show ?case using board_ops_grows [OF committed(1)] grows_trans by blast
qed (simp add: grows_refl)

text \<open>
  An identifier is never given to a second task: once the counter has passed a number whose
  task is no longer on the board, no later request brings a task with that identifier, also not after
  the whole list was cleared or replaced.
\<close>

theorem identifiers_never_reused:
  assumes "n < bd_next_id b" "task_id n \<notin> ids b"
  shows "task_id n \<notin> ids (todo_run env rs b)"
proof -
  have "grows b (todo_run env rs b)"
  proof (rule todo_run_induct [where P = "grows b"])
    show "grows b b" by (rule grows_refl)
    show "grows b b2" if "grows b b1" "todo_change env b1 b2" for b1 b2
      using that change_grows grows_trans by blast
  qed
  then show ?thesis using assms by (auto simp: grows_def)
qed

section \<open>Repeated requests\<close>

lemma add_all_receipts: "add_all items b = Ok b' \<Longrightarrow> bd_receipts b' = bd_receipts b"
  by (induction items arbitrary: b) (auto simp: add_one_def res_bind_Inr_iff split: option.splits)

lemma board_op_receipts: "board_op op b = Ok b' \<Longrightarrow> bd_receipts b' = bd_receipts b"
  by (cases op) (auto simp: board_op_def board_add_def res_bind_Inr_iff dest: add_all_receipts split: option.splits if_splits)

lemma board_ops_receipts: "board_ops ops b = Ok b' \<Longrightarrow> bd_receipts b' = bd_receipts b"
  by (induction ops arbitrary: b) (auto simp: res_bind_Inr_iff dest: board_op_receipts)

text \<open>The receipts of a change: as before, or one more with an identifier that was not there.\<close>

lemma change_receipts:
  assumes "todo_change env b b'"
  shows "bd_receipts b' = bd_receipts b \<or>
    (\<exists>x. bd_receipts b' = ring_push RECEIPTS x (bd_receipts b) \<and> rc_id x \<notin> rc_id ` set (bd_receipts b))"
  using assms
proof cases
  case (committed ops next' i)
  have r: "bd_receipts next' = bd_receipts b" by (rule board_ops_receipts [OF committed(2)])
  show ?thesis
  proof (cases i)
    case None
    then show ?thesis using committed(1) r by (simp add: add_receipt_def)
  next
    case (Some s)
    have "s \<notin> rc_id ` set (bd_receipts b)" using committed(4) Some by (auto simp: find_receipt_def find_None_iff)
    then show ?thesis using committed(1) Some r by (fastforce simp: add_receipt_def)
  qed
qed simp

text \<open>The receipt is held with at most so many newer ones, and no other receipt has its identifier.\<close>

definition holds_receipt :: "todo_receipt \<Rightarrow> nat \<Rightarrow> board \<Rightarrow> bool" where
  "holds_receipt x k b \<longleftrightarrow>
     (\<exists>older newer. bd_receipts b = older @ x # newer \<and> length newer \<le> k \<and> rc_id x \<notin> rc_id ` set (older @ newer))"

lemma holds_receipt_change:
  assumes "holds_receipt x k b" "todo_change env b b'" "Suc k < RECEIPTS"
  shows "holds_receipt x (Suc k) b'"
proof -
  obtain older newer where h: "bd_receipts b = older @ x # newer" "length newer \<le> k" "rc_id x \<notin> rc_id ` set (older @ newer)"
    using assms(1) by (auto simp: holds_receipt_def)
  from change_receipts [OF assms(2)] show ?thesis
  proof
    assume "bd_receipts b' = bd_receipts b"
    then show ?thesis using h le_SucI unfolding holds_receipt_def by metis
  next
    assume "\<exists>y. bd_receipts b' = ring_push RECEIPTS y (bd_receipts b) \<and> rc_id y \<notin> rc_id ` set (bd_receipts b)"
    then obtain y where y: "bd_receipts b' = ring_push RECEIPTS y (bd_receipts b)" "rc_id y \<notin> rc_id ` set (bd_receipts b)" by blast
    let ?n = "length (older @ x # newer @ [y]) - RECEIPTS"
    have "?n \<le> length older" using h(2) assms(3) by simp
    then have "bd_receipts b' = drop ?n older @ x # (newer @ [y])"
      using y(1) h(1) by (simp add: ring_push_def pop_front_while_longer_eq)
    moreover have "rc_id x \<notin> rc_id ` set (drop ?n older @ (newer @ [y]))"
      using h(1,3) y(2) by (auto dest: in_set_dropD)
    ultimately show ?thesis using h(2) unfolding holds_receipt_def by (metis Suc_le_mono length_append_singleton)
  qed
qed

lemma holds_receipt_run:
  "holds_receipt x k b \<Longrightarrow> k + length rs < RECEIPTS \<Longrightarrow> holds_receipt x (k + length rs) (todo_run env rs b)"
proof (induction rs arbitrary: k b)
  case (Cons r rs)
  then have "holds_receipt x (Suc k) (snd (apply_checked env r b))"
    using holds_receipt_change [OF _ apply_change, of x k b env r] by simp
  then show ?case using Cons.IH [of "Suc k" "snd (apply_checked env r b)"] Cons.prems(2) by simp
qed simp

lemma holds_receipt_find: "holds_receipt x k b \<Longrightarrow> find_receipt (Some (rc_id x)) b = Some x"
proof -
  assume "holds_receipt x k b"
  then obtain older newer where h: "bd_receipts b = older @ x # newer" "rc_id x \<notin> rc_id ` set (older @ newer)"
    by (auto simp: holds_receipt_def)
  have "find (\<lambda>y. rc_id y = rc_id x) (older @ x # newer) = Some x"
    using h(2) by (induction older) auto
  then show ?thesis by (simp add: find_receipt_def h(1))
qed

lemma applied_holds_receipt:
  assumes "apply_checked env r b = (Ok (Applied ch rm v n), b')" "request_id r = Ok (Some i)"
  shows "holds_receipt \<lparr>rc_id = i, rc_intent = te_intent env (rq_ops r), rc_revision = v\<rparr> 0 b'"
proof -
  have f: "find_receipt (Some i) b = None" and c: "commit_ops env (rq_ops r) (Some i) b = (Ok (Applied ch rm v n), b')"
    using assms by (auto simp: apply_checked_def split: if_splits option.splits)
  obtain next' where n: "board_ops (rq_ops r) b = Ok next'" "b' = add_receipt env (rq_ops r) (Some i) next'" "v = revision env b'"
    using c by (auto simp: commit_ops_def Let_def res_bind_Inr_iff split: sum.splits)
  have rcpt: "bd_receipts next' = bd_receipts b" by (rule board_ops_receipts [OF n(1)])
  have "revision env b' = revision env next'" by (simp add: n(2) revision_def add_receipt_def)
  moreover have "i \<notin> rc_id ` set (bd_receipts b)" using f by (auto simp: find_receipt_def find_None_iff)
  ultimately show ?thesis
    using n(2,3) rcpt
    by (auto simp: holds_receipt_def add_receipt_def ring_push_def pop_front_while_longer_eq RECEIPTS_def dest: in_set_dropD
        intro!: exI [of _ "drop (Suc (length (bd_receipts b)) - 256) (bd_receipts b)"] exI [of _ "[]"])
qed

text \<open>
  A request with an identifier is applied at most once: as long as fewer than 256 requests
  followed it, sending it again changes nothing and is answered with the revision it had produced.
\<close>

theorem repeated_request_changes_nothing:
  assumes "apply_checked env r b = (Ok (Applied ch rm v n), b')" "request_id r = Ok (Some i)" "length rs < 256"
  shows "apply_checked env r (todo_run env rs b') =
    (Ok (AlreadyApplied v (revision env (todo_run env rs b'))), todo_run env rs b')"
proof -
  have "length (rq_ops r) \<le> 256" "rq_ops r \<noteq> []" using assms(1) by (auto simp: apply_checked_def split: if_splits)
  moreover have "find_receipt (Some i) (todo_run env rs b') = Some \<lparr>rc_id = i, rc_intent = te_intent env (rq_ops r), rc_revision = v\<rparr>"
    using holds_receipt_find [OF holds_receipt_run [OF applied_holds_receipt [OF assms(1,2)]]] assms(3) by (simp add: RECEIPTS_def)
  ultimately show ?thesis using assms(2) by (simp add: apply_checked_def)
qed

section \<open>A small session\<close>

definition demo_env :: todo_env where
  "demo_env = \<lparr>te_revision = (\<lambda>(n, _). decimal n), te_intent = (\<lambda>_. []), te_size = (\<lambda>ts. 100 * length ts)\<rparr>"

definition demo_add :: todo_request where
  "demo_add = \<lparr>rq_ops = [OpAdd [\<lparr>nt_title = [97], nt_phase = default_phase, nt_owner = None, nt_workspace_task = None\<rparr>]],
               rq_id = Some [114], rq_expected = None\<rparr>"

definition demo_clear :: todo_request where
  "demo_clear = \<lparr>rq_ops = [OpClear], rq_id = None, rq_expected = None\<rparr>"

definition demo_task :: todo_task where
  "demo_task = \<lparr>td_id = task_id 1, td_title = [97], td_phase = default_phase, td_status = Pending, td_blocker = None,
                td_owner = None, td_workspace_task = None\<rparr>"

definition demo_board :: board where
  "demo_board = \<lparr>bd_version = 1, bd_next_id = 2, bd_tasks = [demo_task], bd_auto_continue = False, bd_hidden = False,
     bd_receipts = [\<lparr>rc_id = [114], rc_intent = [], rc_revision = [50]\<rparr>]\<rparr>"

lemma demo_short: "short [97] n = (if n = 0 then Err (ChecklistText 0) else Ok [97])" "short [114] 128 = Ok [114]"
    "short default_phase 128 = Ok default_phase"
  by (simp_all add: short_def split_whitespace.simps is_whitespace_def byte_len_def default_phase_def)

lemma demo_applied: "apply_checked demo_env demo_add default_board = (Ok (Applied [demo_task] [] [50] 1), demo_board)"
proof -
  have d: "decimal 1 = [49]" "decimal 2 = [50]" by (simp_all add: decimal.simps)
  have p: "parse_u64 [49] = Some 1" by (simp add: parse_u64_def is_digit_def u64_max_def)
  have n: "nat_checked_add u64_max 1 1 = Some 2" by (simp add: nat_checked_add_def u64_max_def)
  show ?thesis
    by (simp add: d p n apply_checked_def demo_add_def request_id_def demo_short find_receipt_def default_board_def commit_ops_def
        board_op_def board_add_def add_one_def demo_env_def validate_board_def RECEIPTS_def task_number_def task_fields_ok_def
        add_receipt_def ring_push_def revision_def changed_tasks_def removed_ids_def demo_board_def demo_task_def task_id_def
        Let_def One_nat_def [symmetric] del: One_nat_def)
qed

theorem repeated_request_changes_nothing_witness:
  "apply_checked demo_env demo_add (todo_run demo_env [demo_clear] demo_board) =
    (Ok (AlreadyApplied [50] [50]), todo_run demo_env [demo_clear] demo_board)"
proof -
  have "request_id demo_add = Ok (Some [114])" by (simp add: demo_add_def request_id_def demo_short)
  then have "apply_checked demo_env demo_add (todo_run demo_env [demo_clear] demo_board) =
      (Ok (AlreadyApplied [50] (revision demo_env (todo_run demo_env [demo_clear] demo_board))), todo_run demo_env [demo_clear] demo_board)"
    by (rule repeated_request_changes_nothing [OF demo_applied]) simp
  moreover have "revision demo_env (todo_run demo_env [demo_clear] demo_board) = [50]"
    by (simp add: apply_checked_def demo_clear_def request_id_def find_receipt_def commit_ops_def board_op_def validate_board_def
        demo_env_def demo_board_def add_receipt_def revision_def RECEIPTS_def Let_def decimal.simps)
  ultimately show ?thesis by simp
qed

theorem identifiers_never_reused_witness:
  "task_id 1 \<notin> ids (todo_run demo_env [demo_add, demo_add] (demo_board\<lparr>bd_tasks := []\<rparr>))"
  by (rule identifiers_never_reused) (simp_all add: demo_board_def ids_def)

theorem stored_checklist_restores_witness:
  "\<exists>to_json from_json. restore demo_env from_json
     ([User []] @ [board_record to_json (todo_run demo_env [demo_add] default_board)] @ [OtherRecord]) =
     Ok (todo_run demo_env [demo_add] default_board)"
proof -
  let ?b = "todo_run demo_env [demo_add] default_board"
  show ?thesis
    using stored_checklist_restores [of "\<lambda>_. Some ?b" "\<lambda>_. []" demo_env "[demo_add]" "[OtherRecord]" "[User []]"]
    by (auto simp: is_board_record_def demo_env_def intro!: exI [of _ "\<lambda>_. []"] exI [of _ "\<lambda>_. Some ?b"])
qed

end
