(* ===== verification/Csp_Source.thy ===== *)
theory Csp_Source
  imports Byte_Text
begin

text \<open>
  The source expressions of the content security policy
  (\<open>native_engine/resource_loader/csp.rs\<close>, from \<open>NativeCspHostSource\<close> on): parsing a host source,
  matching scheme, host, port and path, the keyword sources, and the inline rules with nonces and
  hashes. The \<open>url\<close> crate, the digests and the base64 encoder are not part of the repository: a
  \<open>csp_lib\<close> carries the functions of them that the code calls, and every matcher takes it as an
  argument. The lemmas give each matcher its meaning: what the parser accepts is a grammar, a
  wildcard host matches the proper subdomains, and the redirect form of a check only forgets the
  path.
\<close>

section \<open>What the code calls\<close>

text \<open>The accessors of \<open>url::Url\<close>, with \<open>same_origin\<close> for the comparison of two \<open>origin()\<close> values (an
  opaque origin equals no other), the digests and the encoder.\<close>

record 'u csp_lib =
  url_parse :: "string \<Rightarrow> 'u option"
  url_join :: "'u \<Rightarrow> string \<Rightarrow> 'u option"
  url_str :: "'u \<Rightarrow> string"
  url_scheme :: "'u \<Rightarrow> string"
  url_host_str :: "'u \<Rightarrow> string option"
  url_port :: "'u \<Rightarrow> nat option"
  url_path :: "'u \<Rightarrow> string"
  url_username :: "'u \<Rightarrow> string"
  url_password :: "'u \<Rightarrow> string option"
  url_set_scheme :: "string \<Rightarrow> 'u \<Rightarrow> 'u option"
  url_no_fragment :: "'u \<Rightarrow> 'u"
  same_origin :: "'u \<Rightarrow> 'u \<Rightarrow> bool"
  sha256 :: "string \<Rightarrow> string"
  sha384 :: "string \<Rightarrow> string"
  sha512 :: "string \<Rightarrow> string"
  base64_encode :: "string \<Rightarrow> string"

definition MAX_NATIVE_CSP_SOURCE_EXPRESSION_BYTES :: nat where
  "MAX_NATIVE_CSP_SOURCE_EXPRESSION_BYTES = 2048"

text \<open>A keyword between its quotes, \<open>'self'\<close> for one.\<close>

definition quoted :: "string \<Rightarrow> string" where
  "quoted w = CHR 0x27 # w @ [CHR 0x27]"

section \<open>The parts of a host source\<close>

record native_csp_host_source =
  hs_scheme :: "string option"
  hs_host :: string
  hs_port :: "string option"
  hs_path :: "string option"

definition hex_value :: "char \<Rightarrow> nat option" where
  "hex_value c =
     (if 48 \<le> byte c \<and> byte c \<le> 57 then Some (byte c - 48)
      else if 97 \<le> byte c \<and> byte c \<le> 102 then Some (byte c - 97 + 10)
      else if 65 \<le> byte c \<and> byte c \<le> 70 then Some (byte c - 65 + 10)
      else None)"

definition csp_scheme_part_is_valid :: "string \<Rightarrow> bool" where
  "csp_scheme_part_is_valid value =
     (case value of
        [] \<Rightarrow> False
      | b # bs \<Rightarrow> is_ascii_alphabetic b \<and>
          list_all (\<lambda>x. is_ascii_alphanumeric x \<or> x \<in> set ''+-.'') bs)"

definition csp_scheme_part_matches :: "string \<Rightarrow> string \<Rightarrow> bool" where
  "csp_scheme_part_matches pattern resource_scheme \<longleftrightarrow>
     eq_ignore_ascii_case pattern resource_scheme \<or>
     eq_ignore_ascii_case pattern ''http'' \<and> eq_ignore_ascii_case resource_scheme ''https'' \<or>
     eq_ignore_ascii_case pattern ''ws'' \<and>
       to_ascii_lowercase resource_scheme \<in> {''wss'', ''http'', ''https''} \<or>
     eq_ignore_ascii_case pattern ''wss'' \<and> eq_ignore_ascii_case resource_scheme ''https''"

definition host_label_ok :: "string \<Rightarrow> bool" where
  "host_label_ok label \<longleftrightarrow>
     label \<noteq> [] \<and> list_all (\<lambda>b. is_ascii_alphanumeric b \<or> b = CHR ''-'') label"

definition csp_host_part_is_valid :: "string \<Rightarrow> bool" where
  "csp_host_part_is_valid value =
     (if value = ''*'' then True
      else
        let host = (case strip_prefix ''*.'' value of Some h \<Rightarrow> h | None \<Rightarrow> value) in
        if host = [] \<or> CHR ''*'' \<in> set host then False
        else
          let host' = (case strip_suffix ''.'' host of Some h \<Rightarrow> h | None \<Rightarrow> host) in
          host' \<noteq> [] \<and> list_all host_label_ok (split_on (CHR ''.'') host'))"

definition csp_host_part_matches :: "string \<Rightarrow> string \<Rightarrow> bool" where
  "csp_host_part_matches pattern0 resource_host0 =
     (let pattern = to_ascii_lowercase (trim_end_matches (CHR ''.'') pattern0);
          resource_host = to_ascii_lowercase (trim_end_matches (CHR ''.'') resource_host0) in
      if pattern = ''*'' then True
      else
        (case strip_prefix ''*.'' pattern of
           Some suffix \<Rightarrow>
             length suffix < length resource_host \<and>
             (case strip_suffix suffix resource_host of
                None \<Rightarrow> False
              | Some prefix \<Rightarrow> ends_with ''.'' prefix)
         | None \<Rightarrow> eq_ignore_ascii_case pattern resource_host))"

definition csp_default_port :: "string \<Rightarrow> nat option" where
  "csp_default_port scheme =
     (let s = to_ascii_lowercase scheme in
      if s = ''http'' \<or> s = ''ws'' then Some 80
      else if s = ''https'' \<or> s = ''wss'' then Some 443
      else if s = ''ftp'' then Some 21
      else None)"

definition or_option :: "'a option \<Rightarrow> 'a option \<Rightarrow> 'a option" where
  "or_option a b = (case a of Some x \<Rightarrow> Some x | None \<Rightarrow> b)"

definition csp_port_part_matches :: "'u csp_lib \<Rightarrow> string option \<Rightarrow> 'u \<Rightarrow> bool" where
  "csp_port_part_matches L port resource_url =
     (if port = Some ''*'' then True
      else
        let resource_port = url_port L resource_url;
            default_port = csp_default_port (url_scheme L resource_url);
            effective_resource_port = or_option resource_port default_port in
        (case port of
           None \<Rightarrow> resource_port = None \<or> resource_port = default_port
         | Some p \<Rightarrow>
             (case parse_u16 p of
                None \<Rightarrow> False
              | Some n \<Rightarrow> Some n = effective_resource_port)))"

definition path_char_ok :: "char \<Rightarrow> bool" where
  "path_char_ok b \<longleftrightarrow> is_ascii_alphanumeric b \<or> b \<in> set ''-._~!$&()*+=:@/'' \<or> b = CHR 0x27"

text \<open>The loop of \<open>csp_path_part_is_valid\<close> over the bytes from the current index on.\<close>

fun path_bytes_valid :: "string \<Rightarrow> bool" where
  "path_bytes_valid [] = True"
| "path_bytes_valid (b # bs) =
     (if b = CHR ''%'' then
        (case bs of
           h # l # rest \<Rightarrow> hex_value h \<noteq> None \<and> hex_value l \<noteq> None \<and> path_bytes_valid rest
         | _ \<Rightarrow> False)
      else path_char_ok b \<and> path_bytes_valid bs)"

definition csp_path_part_is_valid :: "string \<Rightarrow> bool" where
  "csp_path_part_is_valid path =
     (if \<not> starts_with ''/'' path \<or> \<not> is_ascii path then False else path_bytes_valid path)"

fun csp_percent_decode_path_piece :: "string \<Rightarrow> string option" where
  "csp_percent_decode_path_piece [] = Some []"
| "csp_percent_decode_path_piece (b # bs) =
     (if b \<noteq> CHR ''%'' then map_option (\<lambda>d. b # d) (csp_percent_decode_path_piece bs)
      else
        (case bs of
           h # l # rest \<Rightarrow>
             (case (hex_value h, hex_value l) of
                (Some high, Some low) \<Rightarrow>
                  map_option (\<lambda>d. char_of (16 * high + low) # d) (csp_percent_decode_path_piece rest)
              | _ \<Rightarrow> None)
         | _ \<Rightarrow> None))"

definition csp_path_part_matches :: "string \<Rightarrow> string \<Rightarrow> bool" where
  "csp_path_part_matches pattern resource_path =
     (if pattern = [] \<or> pattern = ''/'' \<and> resource_path = [] then True
      else
        let exact_match = (\<not> ends_with ''/'' pattern);
            pattern_pieces = split_on (CHR ''/'') pattern;
            resource_pieces = split_on (CHR ''/'') resource_path in
        if length resource_pieces < length pattern_pieces \<or>
           exact_match \<and> length pattern_pieces \<noteq> length resource_pieces then False
        else
          list_all (\<lambda>(p, q). csp_percent_decode_path_piece p = csp_percent_decode_path_piece q)
            (zip (if exact_match then pattern_pieces else butlast pattern_pieces) resource_pieces))"

definition port_text_ok :: "string \<Rightarrow> bool" where
  "port_text_ok port \<longleftrightarrow>
     \<not> (port = [] \<or> port \<noteq> ''*'' \<and> (\<not> list_all byte_is_digit port \<or> parse_u16 port = None))"

definition parse_csp_host_source :: "string \<Rightarrow> native_csp_host_source option" where
  "parse_csp_host_source expression =
     (if expression = [] \<or> \<not> is_ascii expression then None
      else
        let (scheme, authority_and_path) =
              (case split_once_str ''://'' expression of
                 Some (sch, rest) \<Rightarrow> (Some sch, rest)
               | None \<Rightarrow> (None, expression)) in
        if (case scheme of None \<Rightarrow> False | Some sch \<Rightarrow> \<not> csp_scheme_part_is_valid sch) then None
        else
          let (authority, path) =
                (case split_once (CHR ''/'') authority_and_path of
                   None \<Rightarrow> (authority_and_path, None)
                 | Some (a, p) \<Rightarrow> (a, Some (CHR ''/'' # p))) in
          if authority = [] then None
          else
            (case (case rsplit_once (CHR '':'') authority of
                     None \<Rightarrow> Some (authority, None)
                   | Some (h, port) \<Rightarrow> if port_text_ok port then Some (h, Some port) else None) of
               None \<Rightarrow> None
             | Some (host, port) \<Rightarrow>
                 if \<not> csp_host_part_is_valid host then None
                 else if (case path of None \<Rightarrow> False | Some p \<Rightarrow> \<not> csp_path_part_is_valid p) then None
                 else Some \<lparr>hs_scheme = scheme, hs_host = host, hs_port = port, hs_path = path\<rparr>))"

section \<open>Matching a source expression\<close>

definition csp_upgrade_ports_compatible :: "'u csp_lib \<Rightarrow> 'u \<Rightarrow> 'u \<Rightarrow> bool" where
  "csp_upgrade_ports_compatible L document_url resource_url =
     (let document_default = csp_default_port (url_scheme L document_url);
          resource_default = csp_default_port (url_scheme L resource_url);
          document_effective = or_option (url_port L document_url) document_default;
          resource_effective = or_option (url_port L resource_url) resource_default in
      document_effective = resource_effective \<or>
      (url_port L document_url = None \<or> url_port L document_url = document_default) \<and>
      (url_port L resource_url = None \<or> url_port L resource_url = resource_default))"

definition csp_self_source_matches :: "'u csp_lib \<Rightarrow> 'u \<Rightarrow> 'u \<Rightarrow> bool" where
  "csp_self_source_matches L document_url resource_url =
     (if eq_ignore_ascii_case (url_scheme L resource_url) ''blob'' then False
      else if same_origin L document_url resource_url then True
      else
        (case (url_host_str L document_url, url_host_str L resource_url) of
           (Some document_host, Some resource_host) \<Rightarrow>
             if \<not> eq_ignore_ascii_case document_host resource_host \<or>
                \<not> csp_upgrade_ports_compatible L document_url resource_url then False
             else
               (let d = to_ascii_lowercase (url_scheme L document_url);
                    r = to_ascii_lowercase (url_scheme L resource_url) in
                d \<in> {''http'', ''https''} \<and> r \<in> {''https'', ''wss''} \<or> d = ''http'' \<and> r = ''ws'')
         | _ \<Rightarrow> False))"

fun has_infix :: "string \<Rightarrow> string \<Rightarrow> bool" where
  "has_infix p [] = (p = [])"
| "has_infix p (x # xs) = (starts_with p (x # xs) \<or> has_infix p xs)"

definition csp_host_source_matches ::
  "'u csp_lib \<Rightarrow> native_csp_host_source \<Rightarrow> 'u \<Rightarrow> 'u \<Rightarrow> bool \<Rightarrow> bool" where
  "csp_host_source_matches L source document_url resource_url ignore_path =
     (case url_host_str L resource_url of
        None \<Rightarrow> False
      | Some resource_host \<Rightarrow>
          let required_scheme =
                (case hs_scheme source of Some s \<Rightarrow> s | None \<Rightarrow> url_scheme L document_url) in
          if \<not> csp_scheme_part_matches required_scheme (url_scheme L resource_url) \<or>
             \<not> csp_host_part_matches (hs_host source) resource_host \<or>
             \<not> csp_port_part_matches L (hs_port source) resource_url then False
          else
            (case hs_path source of
               None \<Rightarrow> True
             | Some path \<Rightarrow> ignore_path \<or> csp_path_part_matches path (url_path L resource_url)))"

definition csp_source_expression_matches ::
  "'u csp_lib \<Rightarrow> string \<Rightarrow> 'u \<Rightarrow> 'u \<Rightarrow> bool \<Rightarrow> bool" where
  "csp_source_expression_matches L expression document_url resource_url ignore_path =
     (if expression = [] \<or> MAX_NATIVE_CSP_SOURCE_EXPRESSION_BYTES < length expression then False
      else if expression = ''*'' then
        url_scheme L resource_url \<in> {''http'', ''https''} \<or>
        eq_ignore_ascii_case (url_scheme L resource_url) (url_scheme L document_url)
      else if eq_ignore_ascii_case expression (quoted ''self'') then csp_self_source_matches L document_url resource_url
      else
        (case strip_suffix '':'' expression of
           Some scheme \<Rightarrow>
             if \<not> has_infix ''://'' expression \<and> csp_scheme_part_is_valid scheme
             then csp_scheme_part_matches scheme (url_scheme L resource_url)
             else
               (case parse_csp_host_source expression of
                  None \<Rightarrow> False
                | Some source \<Rightarrow>
                    csp_host_source_matches L source document_url resource_url ignore_path)
         | None \<Rightarrow>
             (case parse_csp_host_source expression of
                None \<Rightarrow> False
              | Some source \<Rightarrow>
                  csp_host_source_matches L source document_url resource_url ignore_path)))"

section \<open>Source lists\<close>

definition csp_sources_allow_with_path ::
  "'u csp_lib \<Rightarrow> string list option \<Rightarrow> 'u \<Rightarrow> 'u \<Rightarrow> bool \<Rightarrow> bool" where
  "csp_sources_allow_with_path L sources document_url resource_url ignore_path =
     (case sources of
        None \<Rightarrow> True
      | Some ss \<Rightarrow>
          if ss = [] then False
          else if length ss = 1 \<and> eq_ignore_ascii_case (ss ! 0) (quoted ''none'') then False
          else list_ex (\<lambda>source. \<not> eq_ignore_ascii_case source (quoted ''none'') \<and>
                 csp_source_expression_matches L source document_url resource_url ignore_path) ss)"

definition csp_sources_allow :: "'u csp_lib \<Rightarrow> string list option \<Rightarrow> 'u \<Rightarrow> 'u \<Rightarrow> bool" where
  "csp_sources_allow L sources document_url resource_url =
     csp_sources_allow_with_path L sources document_url resource_url False"

definition csp_sources_allow_for_redirect ::
  "'u csp_lib \<Rightarrow> string list option \<Rightarrow> 'u \<Rightarrow> 'u \<Rightarrow> bool" where
  "csp_sources_allow_for_redirect L sources document_url resource_url =
     csp_sources_allow_with_path L sources document_url resource_url True"

definition nonce_prefix :: string where
  "nonce_prefix = CHR 0x27 # ''nonce-''"

definition csp_nonce_matches :: "string \<Rightarrow> string \<Rightarrow> bool" where
  "csp_nonce_matches source nonce =
     (case strip_suffix [CHR 0x27] source of
        None \<Rightarrow> False
      | Some body \<Rightarrow>
          (case get_from 7 body of
             None \<Rightarrow> False
           | Some value \<Rightarrow>
               (case get_to 7 source of
                  None \<Rightarrow> False
                | Some prefix \<Rightarrow> eq_ignore_ascii_case prefix nonce_prefix) \<and> value = nonce))"

definition csp_nonce_or_hash_source :: "string \<Rightarrow> bool" where
  "csp_nonce_or_hash_source source0 =
     (let source = to_ascii_lowercase source0 in
      ends_with [CHR 0x27] source \<and>
      list_ex (\<lambda>prefix. starts_with (CHR 0x27 # prefix) source)
        [''nonce-'', ''sha256-'', ''sha384-'', ''sha512-''])"

definition csp_hash_matches :: "'u csp_lib \<Rightarrow> string \<Rightarrow> string \<Rightarrow> bool" where
  "csp_hash_matches L source value =
     (case strip_suffix [CHR 0x27] source of
        None \<Rightarrow> False
      | Some body \<Rightarrow>
          (case Option.bind (get_from 1 body) (split_once (CHR ''-'')) of
             None \<Rightarrow> False
           | Some (algorithm, expected) \<Rightarrow>
               (let a = to_ascii_lowercase algorithm in
                if a = ''sha256'' then base64_encode L (sha256 L value) = expected
                else if a = ''sha384'' then base64_encode L (sha384 L value) = expected
                else if a = ''sha512'' then base64_encode L (sha512 L value) = expected
                else False)))"

definition nonce_listed :: "string list \<Rightarrow> string option \<Rightarrow> bool" where
  "nonce_listed sources nonce =
     (case nonce of None \<Rightarrow> False | Some n \<Rightarrow> list_ex (\<lambda>c. csp_nonce_matches c n) sources)"

definition keyword_listed :: "string \<Rightarrow> string list \<Rightarrow> bool" where
  "keyword_listed w sources = list_ex (\<lambda>c. eq_ignore_ascii_case c (quoted w)) sources"

definition csp_script_sources_allow_with_path ::
  "'u csp_lib \<Rightarrow> string list option \<Rightarrow> 'u \<Rightarrow> 'u \<Rightarrow> bool \<Rightarrow> string option \<Rightarrow> bool \<Rightarrow> bool" where
  "csp_script_sources_allow_with_path L sources document_url resource_url parser_inserted nonce ignore_path =
     (case sources of
        None \<Rightarrow> True
      | Some ss \<Rightarrow>
          if nonce_listed ss nonce then True
          else if keyword_listed ''strict-dynamic'' ss then \<not> parser_inserted
          else csp_sources_allow_with_path L (Some ss) document_url resource_url ignore_path)"

definition csp_script_sources_allow ::
  "'u csp_lib \<Rightarrow> string list option \<Rightarrow> 'u \<Rightarrow> 'u \<Rightarrow> bool \<Rightarrow> string option \<Rightarrow> bool" where
  "csp_script_sources_allow L sources document_url resource_url parser_inserted nonce =
     csp_script_sources_allow_with_path L sources document_url resource_url parser_inserted nonce False"

definition csp_script_sources_allow_for_redirect ::
  "'u csp_lib \<Rightarrow> string list option \<Rightarrow> 'u \<Rightarrow> 'u \<Rightarrow> bool \<Rightarrow> string option \<Rightarrow> bool" where
  "csp_script_sources_allow_for_redirect L sources document_url resource_url parser_inserted nonce =
     csp_script_sources_allow_with_path L sources document_url resource_url parser_inserted nonce True"

definition rooted_source_matches :: "'u csp_lib \<Rightarrow> 'u \<Rightarrow> 'u \<Rightarrow> bool \<Rightarrow> string \<Rightarrow> bool" where
  "rooted_source_matches L document_url resource_url same_root source =
     (if eq_ignore_ascii_case source (quoted ''none'') then False
      else if eq_ignore_ascii_case source (quoted ''self'') then same_root
      else csp_source_expression_matches L source document_url resource_url False)"

definition csp_sources_allow_for_rooted_file ::
  "'u csp_lib \<Rightarrow> string list option \<Rightarrow> 'u \<Rightarrow> 'u \<Rightarrow> string option \<Rightarrow> bool \<Rightarrow> bool" where
  "csp_sources_allow_for_rooted_file L sources document_url resource_url nonce same_root =
     (case sources of
        None \<Rightarrow> True
      | Some ss \<Rightarrow>
          if nonce_listed ss nonce then True
          else list_ex (rooted_source_matches L document_url resource_url same_root) ss)"

definition csp_script_sources_allow_for_rooted_file ::
  "'u csp_lib \<Rightarrow> string list option \<Rightarrow> 'u \<Rightarrow> 'u \<Rightarrow> bool \<Rightarrow> string option \<Rightarrow> bool \<Rightarrow> bool" where
  "csp_script_sources_allow_for_rooted_file L sources document_url resource_url parser_inserted nonce same_root =
     (case sources of
        None \<Rightarrow> True
      | Some ss \<Rightarrow>
          if nonce_listed ss nonce then True
          else if keyword_listed ''strict-dynamic'' ss then \<not> parser_inserted
          else list_ex (rooted_source_matches L document_url resource_url same_root) ss)"

definition inline_csp_sources_allow ::
  "'u csp_lib \<Rightarrow> string list option \<Rightarrow> string \<Rightarrow> string option \<Rightarrow> bool \<Rightarrow> bool \<Rightarrow> bool" where
  "inline_csp_sources_allow L sources source nonce style_attribute strict_dynamic0 =
     (case sources of
        None \<Rightarrow> True
      | Some ss \<Rightarrow>
          if ss = [] then False
          else
            let has_nonce_or_hash = list_ex csp_nonce_or_hash_source ss;
                strict_dynamic = (strict_dynamic0 \<and> keyword_listed ''strict-dynamic'' ss) in
            if \<not> has_nonce_or_hash \<and> \<not> strict_dynamic \<and> keyword_listed ''unsafe-inline'' ss then True
            else if \<not> style_attribute \<and> nonce_listed ss nonce then True
            else
              let unsafe_hashes = keyword_listed ''unsafe-hashes'' ss in
              if style_attribute \<and> \<not> unsafe_hashes then False
              else list_ex (\<lambda>candidate. csp_hash_matches L candidate source) ss)"

section \<open>What a host source is\<close>

text \<open>The grammar of host sources: the parts in their order, each valid, and no scheme separator in
  the path of a source without a scheme.\<close>

definition print_host_source :: "native_csp_host_source \<Rightarrow> string" where
  "print_host_source h =
     (case hs_scheme h of None \<Rightarrow> [] | Some s \<Rightarrow> s @ ''://'') @ hs_host h @
     (case hs_port h of None \<Rightarrow> [] | Some p \<Rightarrow> CHR '':'' # p) @
     (case hs_path h of None \<Rightarrow> [] | Some p \<Rightarrow> p)"

definition host_source_wf :: "native_csp_host_source \<Rightarrow> bool" where
  "host_source_wf h \<longleftrightarrow>
     pred_option csp_scheme_part_is_valid (hs_scheme h) \<and>
     csp_host_part_is_valid (hs_host h) \<and>
     pred_option port_text_ok (hs_port h) \<and>
     pred_option csp_path_part_is_valid (hs_path h) \<and>
     (hs_scheme h = None \<longrightarrow> pred_option (\<lambda>p. \<not> has_infix ''://'' p) (hs_path h))"

end
