(* ===== verification/Csp_Policy.thy ===== *)
theory Csp_Policy
  imports Csp_Source Native_Error BTree_Map Json_Value
begin

text \<open>
  Content security policies (\<open>native_engine/resource_loader/csp.rs\<close> and \<open>csp_headers.rs\<close>): the
  directives of one policy with their fallbacks, the policies of a document with their header and
  \<open>meta\<close> parts, report-only declarations, the parsers of the policy headers, and the reports a
  violation gives rise to. Response headers come as the values of each name, \<open>None\<close> for a value that
  is not text; the JSON parser and printer of \<open>serde_json\<close> are parameters.
\<close>

definition MAX_NATIVE_RESPONSE_HEADERS :: nat where
  "MAX_NATIVE_RESPONSE_HEADERS = 64"

definition MAX_NATIVE_RESPONSE_HEADER_VALUE_BYTES :: nat where
  "MAX_NATIVE_RESPONSE_HEADER_VALUE_BYTES = 64 * 1024"

definition MAX_NATIVE_RESPONSE_HEADER_BYTES :: nat where
  "MAX_NATIVE_RESPONSE_HEADER_BYTES = 128 * 1024"

definition MAX_NATIVE_CSP_POLICIES :: nat where
  "MAX_NATIVE_CSP_POLICIES = 16"

definition MAX_NATIVE_CSP_VIOLATIONS :: nat where
  "MAX_NATIVE_CSP_VIOLATIONS = 128"

definition MAX_NATIVE_CSP_REPORT_ENDPOINTS :: nat where
  "MAX_NATIVE_CSP_REPORT_ENDPOINTS = 8"

definition MAX_NATIVE_CSP_REPORT_ENDPOINT_BYTES :: nat where
  "MAX_NATIVE_CSP_REPORT_ENDPOINT_BYTES = 2048"

definition MAX_NATIVE_CSP_REPORT_PAYLOAD_BYTES :: nat where
  "MAX_NATIVE_CSP_REPORT_PAYLOAD_BYTES = 128 * 1024"

datatype native_subresource_kind =
    Kind_Style | Kind_Script | Kind_Image | Kind_Font | Kind_Media | Kind_Frame | Kind_Connect
  | Kind_Worker

datatype native_navigation_policy_kind = FormAction | NavigateTo

fun navigation_directive :: "native_navigation_policy_kind \<Rightarrow> string" where
  "navigation_directive FormAction = ''form-action''"
| "navigation_directive NavigateTo = ''navigate-to''"

datatype native_inline_csp_kind = ScriptElement | ScriptAttribute | StyleElement | StyleAttribute

section \<open>The directives of one policy\<close>

record native_csp_directives =
  style_sources :: "string list option"
  style_element_sources :: "string list option"
  style_attribute_sources :: "string list option"
  script_sources :: "string list option"
  script_element_sources :: "string list option"
  script_attribute_sources :: "string list option"
  image_sources :: "string list option"
  font_sources :: "string list option"
  media_sources :: "string list option"
  frame_sources :: "string list option"
  child_sources :: "string list option"
  connect_sources :: "string list option"
  worker_sources :: "string list option"
  form_action_sources :: "string list option"
  navigate_to_sources :: "string list option"
  default_sources :: "string list option"
  report_uris :: "string list"
  report_to :: "string option"

definition default_directives :: native_csp_directives where
  "default_directives = \<lparr>
     style_sources = None, style_element_sources = None, style_attribute_sources = None,
     script_sources = None, script_element_sources = None, script_attribute_sources = None,
     image_sources = None, font_sources = None, media_sources = None, frame_sources = None,
     child_sources = None, connect_sources = None, worker_sources = None,
     form_action_sources = None, navigate_to_sources = None, default_sources = None,
     report_uris = [], report_to = None\<rparr>"

fun sources_for :: "native_csp_directives \<Rightarrow> native_subresource_kind \<Rightarrow> string list option" where
  "sources_for d Kind_Style = or_option (style_element_sources d) (style_sources d)"
| "sources_for d Kind_Script = or_option (script_element_sources d) (script_sources d)"
| "sources_for d Kind_Image = image_sources d"
| "sources_for d Kind_Font = font_sources d"
| "sources_for d Kind_Media = media_sources d"
| "sources_for d Kind_Frame = or_option (frame_sources d) (child_sources d)"
| "sources_for d Kind_Connect = connect_sources d"
| "sources_for d Kind_Worker =
     or_option (or_option (worker_sources d) (child_sources d)) (script_sources d)"

definition named :: "string \<Rightarrow> string list option \<Rightarrow> (string \<times> string list) option" where
  "named n sources = map_option (\<lambda>s. (n, s)) sources"

fun specific_directive ::
  "native_csp_directives \<Rightarrow> native_subresource_kind \<Rightarrow> (string \<times> string list) option" where
  "specific_directive d Kind_Style =
     or_option (named ''style-src-elem'' (style_element_sources d)) (named ''style-src'' (style_sources d))"
| "specific_directive d Kind_Script =
     or_option (named ''script-src-elem'' (script_element_sources d)) (named ''script-src'' (script_sources d))"
| "specific_directive d Kind_Image = named ''img-src'' (image_sources d)"
| "specific_directive d Kind_Font = named ''font-src'' (font_sources d)"
| "specific_directive d Kind_Media = named ''media-src'' (media_sources d)"
| "specific_directive d Kind_Frame =
     or_option (named ''frame-src'' (frame_sources d)) (named ''child-src'' (child_sources d))"
| "specific_directive d Kind_Connect = named ''connect-src'' (connect_sources d)"
| "specific_directive d Kind_Worker =
     or_option (or_option (named ''worker-src'' (worker_sources d)) (named ''child-src'' (child_sources d)))
       (named ''script-src'' (script_sources d))"

definition directive_for ::
  "native_csp_directives \<Rightarrow> native_subresource_kind \<Rightarrow> (string \<times> string list) option" where
  "directive_for d kind = or_option (specific_directive d kind) (named ''default-src'' (default_sources d))"

fun navigation_sources_for ::
  "native_csp_directives \<Rightarrow> native_navigation_policy_kind \<Rightarrow> string list option" where
  "navigation_sources_for d FormAction = form_action_sources d"
| "navigation_sources_for d NavigateTo = navigate_to_sources d"

fun inline_sources_for :: "native_csp_directives \<Rightarrow> native_inline_csp_kind \<Rightarrow> string list option" where
  "inline_sources_for d ScriptElement =
     or_option (or_option (script_element_sources d) (script_sources d)) (default_sources d)"
| "inline_sources_for d ScriptAttribute =
     or_option (or_option (script_attribute_sources d) (script_sources d)) (default_sources d)"
| "inline_sources_for d StyleElement =
     or_option (or_option (style_element_sources d) (style_sources d)) (default_sources d)"
| "inline_sources_for d StyleAttribute =
     or_option (or_option (style_attribute_sources d) (style_sources d)) (default_sources d)"

fun specific_inline_directive ::
  "native_csp_directives \<Rightarrow> native_inline_csp_kind \<Rightarrow> (string \<times> string list) option" where
  "specific_inline_directive d ScriptElement =
     or_option (named ''script-src-elem'' (script_element_sources d)) (named ''script-src'' (script_sources d))"
| "specific_inline_directive d ScriptAttribute =
     or_option (named ''script-src-attr'' (script_attribute_sources d)) (named ''script-src'' (script_sources d))"
| "specific_inline_directive d StyleElement =
     or_option (named ''style-src-elem'' (style_element_sources d)) (named ''style-src'' (style_sources d))"
| "specific_inline_directive d StyleAttribute =
     or_option (named ''style-src-attr'' (style_attribute_sources d)) (named ''style-src'' (style_sources d))"

definition inline_directive_for ::
  "native_csp_directives \<Rightarrow> native_inline_csp_kind \<Rightarrow> (string \<times> string list) option" where
  "inline_directive_for d kind =
     or_option (specific_inline_directive d kind) (named ''default-src'' (default_sources d))"

definition is_attribute :: "native_inline_csp_kind \<Rightarrow> bool" where
  "is_attribute kind \<longleftrightarrow> kind = ScriptAttribute \<or> kind = StyleAttribute"

definition is_script :: "native_inline_csp_kind \<Rightarrow> bool" where
  "is_script kind \<longleftrightarrow> kind = ScriptElement \<or> kind = ScriptAttribute"

section \<open>The decisions of one policy\<close>

definition directives_allow ::
  "'u csp_lib \<Rightarrow> native_csp_directives \<Rightarrow> native_subresource_kind \<Rightarrow> 'u \<Rightarrow> 'u \<Rightarrow> bool" where
  "directives_allow L d kind document_url resource_url =
     csp_sources_allow L (or_option (sources_for d kind) (default_sources d)) document_url resource_url"

definition directives_allow_redirect ::
  "'u csp_lib \<Rightarrow> native_csp_directives \<Rightarrow> native_subresource_kind \<Rightarrow> 'u \<Rightarrow> 'u \<Rightarrow> bool" where
  "directives_allow_redirect L d kind document_url resource_url =
     csp_sources_allow_for_redirect L (or_option (sources_for d kind) (default_sources d))
       document_url resource_url"

definition directives_allow_script ::
  "'u csp_lib \<Rightarrow> native_csp_directives \<Rightarrow> 'u \<Rightarrow> 'u \<Rightarrow> bool \<Rightarrow> string option \<Rightarrow> bool" where
  "directives_allow_script L d document_url resource_url parser_inserted nonce =
     csp_script_sources_allow L (or_option (sources_for d Kind_Script) (default_sources d))
       document_url resource_url parser_inserted nonce"

definition directives_allow_script_redirect ::
  "'u csp_lib \<Rightarrow> native_csp_directives \<Rightarrow> 'u \<Rightarrow> 'u \<Rightarrow> bool \<Rightarrow> string option \<Rightarrow> bool" where
  "directives_allow_script_redirect L d document_url resource_url parser_inserted nonce =
     csp_script_sources_allow_for_redirect L (or_option (sources_for d Kind_Script) (default_sources d))
       document_url resource_url parser_inserted nonce"

definition directives_allow_rooted_file_script ::
  "'u csp_lib \<Rightarrow> native_csp_directives \<Rightarrow> 'u \<Rightarrow> 'u \<Rightarrow> bool \<Rightarrow> string option \<Rightarrow> bool \<Rightarrow> bool" where
  "directives_allow_rooted_file_script L d document_url resource_url parser_inserted nonce same_root =
     csp_script_sources_allow_for_rooted_file L (or_option (sources_for d Kind_Script) (default_sources d))
       document_url resource_url parser_inserted nonce same_root"

definition directives_allow_rooted_file_style ::
  "'u csp_lib \<Rightarrow> native_csp_directives \<Rightarrow> 'u \<Rightarrow> 'u \<Rightarrow> string option \<Rightarrow> bool \<Rightarrow> bool" where
  "directives_allow_rooted_file_style L d document_url resource_url nonce same_root =
     csp_sources_allow_for_rooted_file L
       (or_option (or_option (style_element_sources d) (style_sources d)) (default_sources d))
       document_url resource_url nonce same_root"

definition directives_allow_rooted_file_resource ::
  "'u csp_lib \<Rightarrow> native_csp_directives \<Rightarrow> native_subresource_kind \<Rightarrow> 'u \<Rightarrow> 'u \<Rightarrow> bool \<Rightarrow> bool" where
  "directives_allow_rooted_file_resource L d kind document_url resource_url same_root =
     csp_sources_allow_for_rooted_file L (or_option (sources_for d kind) (default_sources d))
       document_url resource_url None same_root"

definition directives_allow_navigation ::
  "'u csp_lib \<Rightarrow> native_csp_directives \<Rightarrow> native_navigation_policy_kind \<Rightarrow> 'u \<Rightarrow> 'u \<Rightarrow> bool" where
  "directives_allow_navigation L d kind document_url target_url =
     (case navigation_sources_for d kind of
        None \<Rightarrow> True
      | Some sources \<Rightarrow> csp_sources_allow L (Some sources) document_url target_url)"

definition directives_allow_inline ::
  "'u csp_lib \<Rightarrow> native_csp_directives \<Rightarrow> native_inline_csp_kind \<Rightarrow> string \<Rightarrow> string option \<Rightarrow> bool" where
  "directives_allow_inline L d kind source nonce =
     inline_csp_sources_allow L (inline_sources_for d kind) source nonce
       (is_attribute kind) (is_script kind)"

section \<open>Parsing the headers\<close>

definition set_directive ::
  "native_csp_directives \<Rightarrow> string \<Rightarrow> string list \<Rightarrow> native_csp_directives" where
  "set_directive d name0 sources =
     (let name = to_ascii_lowercase name0 in
      if name = ''style-src'' then d\<lparr>style_sources := Some sources\<rparr>
      else if name = ''style-src-elem'' then d\<lparr>style_element_sources := Some sources\<rparr>
      else if name = ''style-src-attr'' then d\<lparr>style_attribute_sources := Some sources\<rparr>
      else if name = ''script-src'' then d\<lparr>script_sources := Some sources\<rparr>
      else if name = ''script-src-elem'' then d\<lparr>script_element_sources := Some sources\<rparr>
      else if name = ''script-src-attr'' then d\<lparr>script_attribute_sources := Some sources\<rparr>
      else if name = ''img-src'' then d\<lparr>image_sources := Some sources\<rparr>
      else if name = ''font-src'' then d\<lparr>font_sources := Some sources\<rparr>
      else if name = ''media-src'' then d\<lparr>media_sources := Some sources\<rparr>
      else if name = ''frame-src'' then d\<lparr>frame_sources := Some sources\<rparr>
      else if name = ''child-src'' then d\<lparr>child_sources := Some sources\<rparr>
      else if name = ''connect-src'' then d\<lparr>connect_sources := Some sources\<rparr>
      else if name = ''worker-src'' then d\<lparr>worker_sources := Some sources\<rparr>
      else if name = ''form-action'' then d\<lparr>form_action_sources := Some sources\<rparr>
      else if name = ''navigate-to'' then d\<lparr>navigate_to_sources := Some sources\<rparr>
      else if name = ''default-src'' then d\<lparr>default_sources := Some sources\<rparr>
      else if name = ''report-uri'' then
        d\<lparr>report_uris := take MAX_NATIVE_CSP_REPORT_ENDPOINTS sources\<rparr>
      else if name = ''report-to'' then
        d\<lparr>report_to := (case sources of [] \<Rightarrow> None | s # _ \<Rightarrow> Some s)\<rparr>
      else d)"

definition add_directive :: "native_csp_directives \<Rightarrow> string \<Rightarrow> native_csp_directives" where
  "add_directive d directive =
     (case split_ascii_whitespace directive of
        [] \<Rightarrow> d
      | name # sources \<Rightarrow> set_directive d name sources)"

definition parse_csp_directives :: "string \<Rightarrow> native_csp_directives" where
  "parse_csp_directives value = foldl add_directive default_directives (split_on (CHR '';'') value)"

record native_csp_declaration =
  directives :: native_csp_directives
  original_policy :: string

type_synonym path = "string list"

record native_csp_policy =
  csp_policies :: "native_csp_directives list"
  header_policy_count :: nat
  meta_policy_sources :: "string list"
  rooted_file_self_root :: "path option"
  report_only_policies :: "native_csp_declaration list"
  reporting_endpoints :: "(string, string list) btree"

definition default_policy_csp :: native_csp_policy where
  "default_policy_csp = \<lparr>csp_policies = [], header_policy_count = 0, meta_policy_sources = [],
     rooted_file_self_root = None, report_only_policies = [], reporting_endpoints = []\<rparr>"

record json_lib =
  json_from_str :: "string \<Rightarrow> json option"
  json_to_vec :: "json \<Rightarrow> string option"

definition unquote :: "string \<Rightarrow> string" where
  "unquote s =
     (case Option.bind (strip_prefix [CHR 0x22] s) (strip_suffix [CHR 0x22]) of
        Some t \<Rightarrow> t
      | None \<Rightarrow> s)"

definition reporting_member :: "string \<Rightarrow> (string \<times> string) option" where
  "reporting_member m =
     (case split_once (CHR ''='') m of
        None \<Rightarrow> None
      | Some (g, e) \<Rightarrow>
          let grp = trim_bytes g; endpoint = unquote (trim_bytes e) in
          if grp \<noteq> [] \<and> endpoint \<noteq> [] then Some (grp, endpoint) else None)"

definition parse_reporting_endpoints_header :: "string \<Rightarrow> (string \<times> string) list" where
  "parse_reporting_endpoints_header value =
     take MAX_NATIVE_CSP_REPORT_ENDPOINTS (List.map_filter reporting_member (split_on (CHR '','') value))"

definition endpoint_url :: "json \<Rightarrow> string option" where
  "endpoint_url endpoint = Option.bind (json_get ''url'' endpoint) as_str"

text \<open>The entries of one object of the header, \<open>None\<close> where the loop skips it.\<close>

definition legacy_entries :: "json \<Rightarrow> (string \<times> string) list option" where
  "legacy_entries obj =
     (if (case Option.bind (json_get ''max_age'' obj) as_u64 of None \<Rightarrow> 0 | Some n \<Rightarrow> n) = 0 then None
      else
        (case (Option.bind (json_get ''group'' obj) as_str,
               Option.bind (json_get ''endpoints'' obj) as_array) of
           (Some grp, Some endpoints) \<Rightarrow>
             Some (List.map_filter
               (\<lambda>e. case endpoint_url e of
                      None \<Rightarrow> None
                    | Some url \<Rightarrow> if url \<noteq> [] then Some (grp, url) else None)
               (take MAX_NATIVE_CSP_REPORT_ENDPOINTS endpoints))
         | _ \<Rightarrow> None))"

fun legacy_loop :: "json list \<Rightarrow> (string \<times> string) list \<Rightarrow> (string \<times> string) list" where
  "legacy_loop [] entries = entries"
| "legacy_loop (obj # objs) entries =
     (case legacy_entries obj of
        None \<Rightarrow> legacy_loop objs entries
      | Some es \<Rightarrow>
          if MAX_NATIVE_CSP_REPORT_ENDPOINTS \<le> length (entries @ es) then entries @ es
          else legacy_loop objs (entries @ es))"

definition parse_legacy_report_to_header :: "json_lib \<Rightarrow> string \<Rightarrow> (string \<times> string) list" where
  "parse_legacy_report_to_header J value =
     (case json_from_str J value of
        None \<Rightarrow> []
      | Some parsed \<Rightarrow>
          legacy_loop
            (case parsed of
               JArray values \<Rightarrow> values
             | JObject kvs \<Rightarrow> [parsed]
             | _ \<Rightarrow> []) [])"

definition add_endpoint ::
  "(string, string list) btree \<Rightarrow> string \<times> string \<Rightarrow> (string, string list) btree" where
  "add_endpoint m entry =
     (let (grp, endpoint) = entry in
      if grp = [] \<or> MAX_NATIVE_CSP_REPORT_ENDPOINT_BYTES < length grp \<or>
         MAX_NATIVE_CSP_REPORT_ENDPOINT_BYTES < length endpoint then m
      else bt_entry grp []
        (\<lambda>es. if length es < MAX_NATIVE_CSP_REPORT_ENDPOINTS \<and> endpoint \<notin> set es
               then es @ [endpoint] else es) m)"

definition add_reporting_endpoint_header ::
  "json_lib \<Rightarrow> native_csp_policy \<Rightarrow> string \<Rightarrow> string \<Rightarrow> native_csp_policy" where
  "add_reporting_endpoint_header J policy name value =
     (if MAX_NATIVE_RESPONSE_HEADER_VALUE_BYTES < length value then policy
      else
        let entries =
              (if eq_ignore_ascii_case name ''reporting-endpoints''
               then parse_reporting_endpoints_header value
               else parse_legacy_report_to_header J value) in
        policy\<lparr>reporting_endpoints := foldl add_endpoint (reporting_endpoints policy) entries\<rparr>)"

type_synonym header_values = "string \<Rightarrow> string option list"

definition header_directives :: "string option \<Rightarrow> native_csp_directives" where
  "header_directives value =
     (case value of
        None \<Rightarrow> default_directives\<lparr>style_sources := Some []\<rparr>
      | Some v \<Rightarrow> parse_csp_directives v)"

definition report_only_declaration :: "string option \<Rightarrow> native_csp_declaration option" where
  "report_only_declaration value =
     (case value of
        None \<Rightarrow> None
      | Some v \<Rightarrow>
          if MAX_NATIVE_RESPONSE_HEADER_VALUE_BYTES < length v then None
          else Some \<lparr>directives = parse_csp_directives v, original_policy = v\<rparr>)"

definition content_security_policy :: "json_lib \<Rightarrow> header_values \<Rightarrow> native_csp_policy" where
  "content_security_policy J headers =
     (let enforced = map header_directives (headers ''content-security-policy'');
          p0 = default_policy_csp\<lparr>csp_policies := enforced,
                 report_only_policies :=
                   List.map_filter report_only_declaration
                     (headers ''content-security-policy-report-only'')\<rparr>;
          p1 = foldl (\<lambda>p v. add_reporting_endpoint_header J p ''reporting-endpoints'' v) p0
                 (List.map_filter id (headers ''reporting-endpoints''));
          p2 = foldl (\<lambda>p v. add_reporting_endpoint_header J p ''report-to'' v) p1
                 (List.map_filter id (headers ''report-to'')) in
      p2\<lparr>header_policy_count := length (csp_policies p2)\<rparr>)"

definition POLICY_HEADERS :: "string list" where
  "POLICY_HEADERS = [''content-security-policy'', ''content-security-policy-report-only'',
     ''reporting-endpoints'', ''report-to'', ''referrer-policy'']"

fun policy_values ::
  "string \<Rightarrow> string option list \<Rightarrow> (string \<times> string) list \<Rightarrow> nat \<Rightarrow>
   (native_engine_error, (string \<times> string) list \<times> nat) result" where
  "policy_values name [] pairs total_bytes = Ok (pairs, total_bytes)"
| "policy_values name (None # values) pairs total_bytes =
     Err (Network ''document response policy'' ''response contains a non-text policy header'')"
| "policy_values name (Some value # values) pairs total_bytes =
     (if MAX_NATIVE_RESPONSE_HEADER_VALUE_BYTES < length value then
        Err (limit_error ''document response policy header value''
          MAX_NATIVE_RESPONSE_HEADER_VALUE_BYTES (length value))
      else
        let total' = nat_saturating_add u64_max (nat_saturating_add u64_max total_bytes (length name))
                       (length value) in
        if MAX_NATIVE_RESPONSE_HEADERS \<le> length pairs then
          Err (limit_error ''document response policy headers'' MAX_NATIVE_RESPONSE_HEADERS
            (nat_saturating_add u64_max (length pairs) 1))
        else if MAX_NATIVE_RESPONSE_HEADER_BYTES < total' then
          Err (limit_error ''document response policy header bytes'' MAX_NATIVE_RESPONSE_HEADER_BYTES total')
        else policy_values name values (pairs @ [(name, value)]) total')"

fun policy_names ::
  "header_values \<Rightarrow> string list \<Rightarrow> (string \<times> string) list \<Rightarrow> nat \<Rightarrow>
   (native_engine_error, (string \<times> string) list) result" where
  "policy_names headers [] pairs total_bytes = Ok pairs"
| "policy_names headers (name # names) pairs total_bytes =
     res_bind (policy_values name (headers name) pairs total_bytes)
       (\<lambda>(pairs', total'). policy_names headers names pairs' total')"

definition document_response_policy_headers ::
  "header_values \<Rightarrow> (native_engine_error, (string \<times> string) list) result" where
  "document_response_policy_headers headers = policy_names headers POLICY_HEADERS [] 0"

definition merge_document_response_policy_headers ::
  "(string \<times> string) list \<Rightarrow> (string \<times> string) list \<Rightarrow> (string \<times> string) list" where
  "merge_document_response_policy_headers current updates =
     (let updated_names = set (map (\<lambda>nv. to_ascii_lowercase (fst nv)) updates) in
      filter (\<lambda>nv. to_ascii_lowercase (fst nv) \<notin> updated_names) current @ updates)"

section \<open>The decisions of a document's policies\<close>

definition same_file_root :: "native_csp_policy \<Rightarrow> path option \<Rightarrow> bool" where
  "same_file_root p resource_root =
     (case rooted_file_self_root p of
        None \<Rightarrow> False
      | Some root \<Rightarrow> (case resource_root of None \<Rightarrow> False | Some r \<Rightarrow> r = root))"

definition policy_allows ::
  "'u csp_lib \<Rightarrow> native_csp_policy \<Rightarrow> native_subresource_kind \<Rightarrow> 'u \<Rightarrow> 'u \<Rightarrow> bool" where
  "policy_allows L p kind document_url resource_url =
     list_all (\<lambda>d. directives_allow L d kind document_url resource_url) (csp_policies p)"

definition policy_allows_redirect ::
  "'u csp_lib \<Rightarrow> native_csp_policy \<Rightarrow> native_subresource_kind \<Rightarrow> 'u \<Rightarrow> 'u \<Rightarrow> bool" where
  "policy_allows_redirect L p kind document_url resource_url =
     list_all (\<lambda>d. directives_allow_redirect L d kind document_url resource_url) (csp_policies p)"

definition policy_allows_script ::
  "'u csp_lib \<Rightarrow> native_csp_policy \<Rightarrow> 'u \<Rightarrow> 'u \<Rightarrow> bool \<Rightarrow> string option \<Rightarrow> bool" where
  "policy_allows_script L p document_url resource_url parser_inserted nonce =
     list_all (\<lambda>d. directives_allow_script L d document_url resource_url parser_inserted nonce)
       (csp_policies p)"

definition policy_allows_script_redirect ::
  "'u csp_lib \<Rightarrow> native_csp_policy \<Rightarrow> 'u \<Rightarrow> 'u \<Rightarrow> bool \<Rightarrow> string option \<Rightarrow> bool" where
  "policy_allows_script_redirect L p document_url resource_url parser_inserted nonce =
     list_all (\<lambda>d. directives_allow_script_redirect L d document_url resource_url parser_inserted nonce)
       (csp_policies p)"

definition policy_allows_rooted_file_script ::
  "'u csp_lib \<Rightarrow> native_csp_policy \<Rightarrow> 'u \<Rightarrow> 'u \<Rightarrow> bool \<Rightarrow> string option \<Rightarrow> path option \<Rightarrow> bool" where
  "policy_allows_rooted_file_script L p document_url resource_url parser_inserted nonce resource_root =
     list_all (\<lambda>d. directives_allow_rooted_file_script L d document_url resource_url parser_inserted nonce
       (same_file_root p resource_root)) (csp_policies p)"

definition policy_allows_rooted_file_style ::
  "'u csp_lib \<Rightarrow> native_csp_policy \<Rightarrow> 'u \<Rightarrow> 'u \<Rightarrow> string option \<Rightarrow> path option \<Rightarrow> bool" where
  "policy_allows_rooted_file_style L p document_url resource_url nonce resource_root =
     list_all (\<lambda>d. directives_allow_rooted_file_style L d document_url resource_url nonce
       (same_file_root p resource_root)) (csp_policies p)"

definition policy_allows_rooted_file_resource ::
  "'u csp_lib \<Rightarrow> native_csp_policy \<Rightarrow> native_subresource_kind \<Rightarrow> 'u \<Rightarrow> 'u \<Rightarrow> path option \<Rightarrow> bool" where
  "policy_allows_rooted_file_resource L p kind document_url resource_url resource_root =
     list_all (\<lambda>d. directives_allow_rooted_file_resource L d kind document_url resource_url
       (same_file_root p resource_root)) (csp_policies p)"

definition policy_allows_navigation ::
  "'u csp_lib \<Rightarrow> native_csp_policy \<Rightarrow> native_navigation_policy_kind \<Rightarrow> 'u \<Rightarrow> 'u \<Rightarrow> bool" where
  "policy_allows_navigation L p kind document_url target_url =
     list_all (\<lambda>d. directives_allow_navigation L d kind document_url target_url) (csp_policies p)"

definition policy_allows_inline ::
  "'u csp_lib \<Rightarrow> native_csp_policy \<Rightarrow> native_inline_csp_kind \<Rightarrow> string \<Rightarrow> string option \<Rightarrow> bool" where
  "policy_allows_inline L p kind source nonce =
     list_all (\<lambda>d. directives_allow_inline L d kind source nonce) (csp_policies p)"

definition some_groups :: "string list list \<Rightarrow> string list list option" where
  "some_groups groups = (if groups = [] then None else Some groups)"

definition frame_source_groups :: "native_csp_policy \<Rightarrow> string list list option" where
  "frame_source_groups p =
     some_groups (List.map_filter (\<lambda>d. or_option (sources_for d Kind_Frame) (default_sources d)) (csp_policies p))"

definition navigation_source_groups ::
  "native_csp_policy \<Rightarrow> native_navigation_policy_kind \<Rightarrow> string list list option" where
  "navigation_source_groups p kind =
     some_groups (List.map_filter (\<lambda>d. navigation_sources_for d kind) (csp_policies p))"

section \<open>Report-only violations\<close>

definition report_only_navigation_violations ::
  "'u csp_lib \<Rightarrow> native_csp_policy \<Rightarrow> native_navigation_policy_kind \<Rightarrow> 'u \<Rightarrow> 'u \<Rightarrow>
   (native_csp_declaration \<times> string) list" where
  "report_only_navigation_violations L p kind document_url target_url =
     List.map_filter
       (\<lambda>declaration.
          case navigation_sources_for (directives declaration) kind of
            None \<Rightarrow> None
          | Some sources \<Rightarrow>
              if \<not> csp_sources_allow L (Some sources) document_url target_url
              then Some (declaration, navigation_directive kind) else None)
       (report_only_policies p)"

definition report_only_url_violations_with_path ::
  "'u csp_lib \<Rightarrow> native_csp_policy \<Rightarrow> native_subresource_kind \<Rightarrow> 'u \<Rightarrow> 'u \<Rightarrow> bool \<Rightarrow> string option \<Rightarrow> bool \<Rightarrow>
   (native_csp_declaration \<times> string) list" where
  "report_only_url_violations_with_path L p kind document_url resource_url parser_inserted nonce ignore_path =
     List.map_filter
       (\<lambda>declaration.
          case directive_for (directives declaration) kind of
            None \<Rightarrow> None
          | Some (directive, sources) \<Rightarrow>
              let allowed =
                    (if kind = Kind_Script then
                       if ignore_path then
                         directives_allow_script_redirect L (directives declaration) document_url
                           resource_url parser_inserted nonce
                       else
                         directives_allow_script L (directives declaration) document_url
                           resource_url parser_inserted nonce
                     else if ignore_path then
                       csp_sources_allow_for_redirect L (Some sources) document_url resource_url
                     else csp_sources_allow L (Some sources) document_url resource_url) in
              if \<not> allowed then Some (declaration, directive) else None)
       (report_only_policies p)"

definition report_only_url_violations ::
  "'u csp_lib \<Rightarrow> native_csp_policy \<Rightarrow> native_subresource_kind \<Rightarrow> 'u \<Rightarrow> 'u \<Rightarrow> bool \<Rightarrow> string option \<Rightarrow>
   (native_csp_declaration \<times> string) list" where
  "report_only_url_violations L p kind document_url resource_url parser_inserted nonce =
     report_only_url_violations_with_path L p kind document_url resource_url parser_inserted nonce False"

definition report_only_url_violations_for_redirect ::
  "'u csp_lib \<Rightarrow> native_csp_policy \<Rightarrow> native_subresource_kind \<Rightarrow> 'u \<Rightarrow> 'u \<Rightarrow> bool \<Rightarrow> string option \<Rightarrow>
   (native_csp_declaration \<times> string) list" where
  "report_only_url_violations_for_redirect L p kind document_url resource_url parser_inserted nonce =
     report_only_url_violations_with_path L p kind document_url resource_url parser_inserted nonce True"

definition report_only_websocket_violations ::
  "'u csp_lib \<Rightarrow> native_csp_policy \<Rightarrow> 'u \<Rightarrow> 'u \<Rightarrow> 'u \<Rightarrow> (native_csp_declaration \<times> string) list" where
  "report_only_websocket_violations L p document_url websocket_url policy_url =
     List.map_filter
       (\<lambda>declaration.
          case directive_for (directives declaration) Kind_Connect of
            None \<Rightarrow> None
          | Some (directive, sources) \<Rightarrow>
              let allowed = (csp_sources_allow L (Some sources) document_url websocket_url \<or>
                             csp_sources_allow L (Some sources) document_url policy_url) in
              if \<not> allowed then Some (declaration, directive) else None)
       (report_only_policies p)"

definition report_only_inline_violations ::
  "'u csp_lib \<Rightarrow> native_csp_policy \<Rightarrow> native_inline_csp_kind \<Rightarrow> string \<Rightarrow> string option \<Rightarrow>
   (native_csp_declaration \<times> string) list" where
  "report_only_inline_violations L p kind source nonce =
     List.map_filter
       (\<lambda>declaration.
          case inline_directive_for (directives declaration) kind of
            None \<Rightarrow> None
          | Some (directive, sources) \<Rightarrow>
              if \<not> inline_csp_sources_allow L (Some sources) source nonce (is_attribute kind) (is_script kind)
              then Some (declaration, directive) else None)
       (report_only_policies p)"

section \<open>Policies from the document itself\<close>

definition replace_meta_policies ::
  "string list \<Rightarrow> native_csp_policy \<Rightarrow> (native_engine_error, native_csp_policy) result" where
  "replace_meta_policies values p =
     (if MAX_NATIVE_CSP_POLICIES < length values then
        Err (limit_error ''CSP meta policies'' MAX_NATIVE_CSP_POLICIES (length values))
      else if MAX_NATIVE_CSP_POLICIES < nat_saturating_add u64_max (header_policy_count p) (length values) then
        Err (limit_error ''CSP policies'' MAX_NATIVE_CSP_POLICIES
          (nat_saturating_add u64_max (header_policy_count p) (length values)))
      else
        Ok (p\<lparr>csp_policies :=
                take (header_policy_count p) (csp_policies p) @ map parse_csp_directives values,
              meta_policy_sources := values\<rparr>))"

definition append_meta_policies ::
  "string list \<Rightarrow> native_csp_policy \<Rightarrow> (native_engine_error, native_csp_policy) result" where
  "append_meta_policies values p =
     (if MAX_NATIVE_CSP_POLICIES < length values then
        Err (limit_error ''CSP meta policies'' MAX_NATIVE_CSP_POLICIES (length values))
      else
        let next_len = nat_saturating_add u64_max (length (csp_policies p)) (length values) in
        if MAX_NATIVE_CSP_POLICIES < next_len then
          Err (limit_error ''CSP policies'' MAX_NATIVE_CSP_POLICIES next_len)
        else
          Ok (p\<lparr>csp_policies := csp_policies p @ map parse_csp_directives values,
                meta_policy_sources := meta_policy_sources p @ values\<rparr>))"

record native_inline_script_policy =
  isp_policies :: "native_csp_directives list"
  isp_report_only :: "native_csp_declaration list"
  isp_endpoints :: "(string, string list) btree"

definition inline_append_meta_policy ::
  "string \<Rightarrow> native_inline_script_policy \<Rightarrow> (native_engine_error, native_inline_script_policy) result" where
  "inline_append_meta_policy value p =
     (let next_len = nat_saturating_add u64_max (length (isp_policies p)) 1 in
      if MAX_NATIVE_CSP_POLICIES < next_len then
        Err (limit_error ''CSP policies'' MAX_NATIVE_CSP_POLICIES next_len)
      else Ok (p\<lparr>isp_policies := isp_policies p @ [parse_csp_directives value]\<rparr>))"

definition inline_policy_allows ::
  "'u csp_lib \<Rightarrow> native_inline_script_policy \<Rightarrow> string \<Rightarrow> string option \<Rightarrow> bool" where
  "inline_policy_allows L p source nonce =
     list_all (\<lambda>d. directives_allow_inline L d ScriptElement source nonce) (isp_policies p)"

definition inline_policy_allows_attribute ::
  "'u csp_lib \<Rightarrow> native_inline_script_policy \<Rightarrow> string \<Rightarrow> bool" where
  "inline_policy_allows_attribute L p source =
     list_all (\<lambda>d. directives_allow_inline L d ScriptAttribute source None) (isp_policies p)"

end
