(* ===== verification/Csp_Reports.thy ===== *)
theory Csp_Reports
  imports Csp_Policy
begin

text \<open>
  Addresses and violation reports of the resource loader (\<open>native_engine/config.rs\<close>,
  \<open>native_engine/resource_loader.rs\<close>): the checks of an address text, the record of a violation, the
  endpoints it is reported to and the reports themselves. Printing a report as JSON is the \<open>json_lib\<close>'s.
\<close>

definition MAX_TEXT_BYTES :: nat where
  "MAX_TEXT_BYTES = 16 * 1024"

section \<open>Addresses\<close>

definition without_fragment :: "string \<Rightarrow> string" where
  "without_fragment value = (case split_once (CHR ''#'') value of None \<Rightarrow> value | Some (r, _) \<Rightarrow> r)"

definition is_network_url :: "'u csp_lib \<Rightarrow> string \<Rightarrow> bool" where
  "is_network_url L value =
     (case url_parse L (without_fragment value) of
        None \<Rightarrow> False
      | Some u \<Rightarrow> url_scheme L u \<in> {''http'', ''https''})"

definition is_file_url :: "'u csp_lib \<Rightarrow> string \<Rightarrow> bool" where
  "is_file_url L value =
     (case url_parse L (without_fragment value) of
        None \<Rightarrow> False
      | Some u \<Rightarrow> eq_ignore_ascii_case (url_scheme L u) ''file'')"

definition validate_url_text :: "string \<Rightarrow> string \<Rightarrow> (native_engine_error, unit) result" where
  "validate_url_text field value =
     (if value = [] then Err (invalid field ''must not be empty'')
      else if MAX_TEXT_BYTES < length value then
        Err (limit_error (field @ '' bytes'') MAX_TEXT_BYTES (length value))
      else if \<not> is_char_boundary value (length value) then Err (invalid field ''must be valid UTF-8'')
      else Ok ())"

definition reject_credentials :: "'u csp_lib \<Rightarrow> 'u \<Rightarrow> (native_engine_error, unit) result" where
  "reject_credentials L url =
     (if url_username L url \<noteq> [] \<or> url_password L url \<noteq> None then
        Err (UnsupportedUrl ''HTTP(S) navigation URLs must not contain userinfo credentials'')
      else Ok ())"

definition cache_key :: "'u csp_lib \<Rightarrow> 'u \<Rightarrow> string" where
  "cache_key L url = url_str L (url_no_fragment L url)"

definition mixed_content_allowed :: "'u csp_lib \<Rightarrow> 'u \<Rightarrow> 'u \<Rightarrow> bool" where
  "mixed_content_allowed L document_url resource_url \<longleftrightarrow>
     \<not> (eq_ignore_ascii_case (url_scheme L document_url) ''https'' \<and>
        eq_ignore_ascii_case (url_scheme L resource_url) ''http'')"

definition parse_owner :: "'u csp_lib \<Rightarrow> string \<Rightarrow> string \<Rightarrow> (native_engine_error, 'u) result" where
  "parse_owner L value reason = ok_or (UnsupportedUrl reason) (url_parse L (without_fragment value))"

section \<open>Reports\<close>

record native_csp_violation =
  document_uri :: string
  referrer :: string
  blocked_uri :: string
  effective_directive :: string
  violated_directive :: string
  violated_policy :: string
  source_file :: string
  sample :: string
  disposition :: string
  status_code :: nat
  line_number :: nat
  column_number :: nat

record native_csp_report_delivery =
  endpoint :: string
  content_type :: string
  body :: string

datatype native_csp_report_format = Legacy | ReportingApi

definition csp_violation_json :: "native_csp_violation \<Rightarrow> json" where
  "csp_violation_json v = JObject
     [(''document-uri'', JString (document_uri v)),
      (''referrer'', JString (referrer v)),
      (''blocked-uri'', JString (blocked_uri v)),
      (''effective-directive'', JString (effective_directive v)),
      (''violated-directive'', JString (violated_directive v)),
      (''original-policy'', JString (violated_policy v)),
      (''source-file'', JString (source_file v)),
      (''script-sample'', JString (sample v)),
      (''disposition'', JString (disposition v)),
      (''status-code'', JInt (int (status_code v))),
      (''line-number'', JInt (int (line_number v))),
      (''column-number'', JInt (int (column_number v)))]"

fun report_content_type :: "native_csp_report_format \<Rightarrow> string" where
  "report_content_type Legacy = ''application/csp-report''"
| "report_content_type ReportingApi = ''application/reports+json''"

fun report_payload :: "native_csp_report_format \<Rightarrow> native_csp_violation \<Rightarrow> json" where
  "report_payload Legacy v = JObject [(''csp-report'', csp_violation_json v)]"
| "report_payload ReportingApi v =
     JArray [JObject [(''age'', JInt 0), (''type'', JString ''csp-violation''),
       (''url'', JString (document_uri v)), (''user_agent'', JString ''''),
       (''body'', csp_violation_json v)]]"

definition csp_report_delivery ::
  "json_lib \<Rightarrow> string \<Rightarrow> native_csp_violation \<Rightarrow> native_csp_report_format \<Rightarrow>
   native_csp_report_delivery option" where
  "csp_report_delivery J target violation format =
     (case json_to_vec J (report_payload format violation) of
        None \<Rightarrow> None
      | Some b \<Rightarrow>
          if length b \<le> MAX_NATIVE_CSP_REPORT_PAYLOAD_BYTES
          then Some \<lparr>endpoint = target, content_type = report_content_type format, body = b\<rparr>
          else None)"

definition resolve_csp_report_endpoint :: "'u csp_lib \<Rightarrow> 'u \<Rightarrow> string \<Rightarrow> string option" where
  "resolve_csp_report_endpoint L document_url reference0 =
     (let reference = trim_bytes reference0 in
      if reference = [] \<or> MAX_NATIVE_CSP_REPORT_ENDPOINT_BYTES < length reference then None
      else
        (case url_join L document_url reference of
           None \<Rightarrow> None
         | Some joined \<Rightarrow>
             let target = url_no_fragment L joined in
             if \<not> is_network_url L (url_str L target) \<or> url_username L target \<noteq> [] \<or>
                url_password L target \<noteq> None \<or> \<not> mixed_content_allowed L document_url target
             then None
             else if length (url_str L target) \<le> MAX_NATIVE_CSP_REPORT_ENDPOINT_BYTES
             then Some (url_str L target) else None))"

definition add_delivery ::
  "'u csp_lib \<Rightarrow> json_lib \<Rightarrow> 'u \<Rightarrow> native_csp_violation \<Rightarrow> native_csp_report_format \<Rightarrow>
   native_csp_report_delivery list \<Rightarrow> string \<Rightarrow> native_csp_report_delivery list" where
  "add_delivery L J document_url violation format deliveries reference =
     (case resolve_csp_report_endpoint L document_url reference of
        None \<Rightarrow> deliveries
      | Some target \<Rightarrow>
          if list_ex (\<lambda>d. endpoint d = target \<and> content_type d = report_content_type format) deliveries
          then deliveries
          else
            (case csp_report_delivery J target violation format of
               None \<Rightarrow> deliveries
             | Some delivery \<Rightarrow> deliveries @ [delivery]))"

definition csp_report_deliveries_for_declaration ::
  "'u csp_lib \<Rightarrow> json_lib \<Rightarrow> (string, string list) btree \<Rightarrow> native_csp_declaration \<Rightarrow> 'u \<Rightarrow>
   native_csp_violation \<Rightarrow> native_csp_report_delivery list" where
  "csp_report_deliveries_for_declaration L J endpoints declaration document_url violation =
     (let (references, format) =
            (case report_to (directives declaration) of
               Some grp \<Rightarrow> (bt_get_or [] endpoints grp, ReportingApi)
             | None \<Rightarrow> (report_uris (directives declaration), Legacy)) in
      foldl (add_delivery L J document_url violation format) []
        (take MAX_NATIVE_CSP_REPORT_ENDPOINTS references))"

definition csp_violation_record ::
  "'u csp_lib \<Rightarrow> 'u \<Rightarrow> string \<Rightarrow> string \<Rightarrow> string \<Rightarrow> string \<Rightarrow> native_csp_violation" where
  "csp_violation_record L document_url blocked directive policy_text smp = \<lparr>
     document_uri = without_fragment (url_str L document_url), referrer = '''',
     blocked_uri = blocked, effective_directive = directive, violated_directive = directive,
     violated_policy = policy_text, source_file = '''', sample = smp, disposition = ''report'',
     status_code = 0, line_number = 0, column_number = 0\<rparr>"

text \<open>\<open>NativeInlineScriptPolicy::report_only_inline_script_violations\<close>: the violations it returns and
  the deliveries it schedules.\<close>

fun inline_script_loop ::
  "'u csp_lib \<Rightarrow> json_lib \<Rightarrow> (string, string list) btree \<Rightarrow> 'u \<Rightarrow> string \<Rightarrow> string option \<Rightarrow>
   native_csp_declaration list \<Rightarrow> native_csp_violation list \<Rightarrow> native_csp_report_delivery list \<Rightarrow>
   native_csp_violation list \<times> native_csp_report_delivery list" where
  "inline_script_loop L J endpoints url source nonce [] violations deliveries = (violations, deliveries)"
| "inline_script_loop L J endpoints url source nonce (decl # decls) violations deliveries =
     (case inline_directive_for (directives decl) ScriptElement of
        None \<Rightarrow> inline_script_loop L J endpoints url source nonce decls violations deliveries
      | Some (directive, sources) \<Rightarrow>
          if inline_csp_sources_allow L (Some sources) source nonce False True
          then inline_script_loop L J endpoints url source nonce decls violations deliveries
          else if MAX_NATIVE_CSP_VIOLATIONS \<le> length violations then (violations, deliveries)
          else
            let violation = csp_violation_record L url ''inline'' directive (original_policy decl)
                  (take_chars 40 source) in
            inline_script_loop L J endpoints url source nonce decls (violations @ [violation])
              (deliveries @ csp_report_deliveries_for_declaration L J endpoints decl url violation))"

definition report_only_inline_script_violations ::
  "'u csp_lib \<Rightarrow> json_lib \<Rightarrow> native_inline_script_policy \<Rightarrow> string \<Rightarrow> string \<Rightarrow> string option \<Rightarrow>
   native_csp_violation list \<times> native_csp_report_delivery list" where
  "report_only_inline_script_violations L J p document_url source nonce =
     (case url_parse L (without_fragment document_url) of
        None \<Rightarrow> ([], [])
      | Some url \<Rightarrow>
          if \<not> is_network_url L (url_str L url) then ([], [])
          else inline_script_loop L J (isp_endpoints p) url source nonce (isp_report_only p) [] [])"

end
