(* ===== verification/Cookie_Policy.thy ===== *)
theory Cookie_Policy
  imports Csp_Reports "HOL-Library.List_Lexorder" "HOL-Library.Char_ord"
begin

text \<open>
  The data and the decisions of the cookie jar: the cookie and its stored form, the change record,
  the two clocks, the checks of names, values and domains, the matching of hosts and paths, the
  \<open>SameSite\<close> rule with its schemeful site (\<open>native_engine/resource_loader/cookie_policy.rs\<close>), and the
  conversions between a cookie and its stored form (\<open>native_engine/resource_loader.rs\<close>). The \<open>url\<close>
  crate is the \<open>csp_lib\<close> of the policy theories.
\<close>

section \<open>Data\<close>

definition MAX_NATIVE_COOKIE_BYTES :: nat where
  "MAX_NATIVE_COOKIE_BYTES = 4096"

definition MAX_NATIVE_COOKIE_PROFILE_ENTRIES :: nat where
  "MAX_NATIVE_COOKIE_PROFILE_ENTRIES = 128"

definition MAX_NATIVE_COOKIE_PROFILE_BYTES :: nat where
  "MAX_NATIVE_COOKIE_PROFILE_BYTES = 4096"

text \<open>\<open>content_process.rs\<close> has a constant of the same name and value.\<close>

definition MAX_NATIVE_COOKIE_CHANGE_BATCH :: nat where
  "MAX_NATIVE_COOKIE_CHANGE_BATCH = MAX_NATIVE_COOKIE_PROFILE_ENTRIES * 2"

text \<open>A point of the monotonic clock: seconds and nanoseconds, in lexicographic order. Adding whole
  seconds overflows the signed 64-bit seconds with a panic.\<close>

type_synonym instant = "nat \<times> nat"

definition i64_max :: nat where
  "i64_max = 9223372036854775807"

definition instant_add_secs :: "instant \<Rightarrow> nat \<Rightarrow> instant option" where
  "instant_add_secs t d = (if fst t + d \<le> i64_max then Some (fst t + d, snd t) else None)"

text \<open>The clocks as one operation reads them.\<close>

record cookie_clock =
  now_instant :: instant
  now_unix :: nat

text \<open>What a fallible operation ends with: an error of the engine, or a panic.\<close>

datatype fault = Engine native_engine_error | Panic

record native_cookie_profile_entry =
  ck_name :: string
  ck_value :: string
  ck_domain :: string
  ck_path :: string
  ck_host_only :: bool
  ck_secure :: bool
  ck_http_only :: bool
  ck_same_site :: "string option"
  ck_priority :: "string option"
  ck_expires_unix :: "nat option"

text \<open>\<open>NativeCookie\<close> has the fields of its stored form and the instant at which it expires.\<close>

record native_cookie = native_cookie_profile_entry +
  ck_expires_at :: "instant option"

type_synonym cookie_key = "string \<times> string \<times> string"

definition key_of :: "'a native_cookie_profile_entry_scheme \<Rightarrow> cookie_key" where
  "key_of c = (ck_name c, ck_domain c, ck_path c)"

record native_cookie_change =
  cc_name :: string
  cc_domain :: string
  cc_path :: string
  cc_cookie :: "native_cookie_profile_entry option"

definition change_key :: "native_cookie_change \<Rightarrow> cookie_key" where
  "change_key ch = (cc_name ch, cc_domain ch, cc_path ch)"

datatype native_cookie_same_site = SameSite_Strict | SameSite_Lax | SameSite_None

datatype native_navigation_method =
  Nav_Get | Nav_Head | Nav_Post | Nav_Put | Nav_Patch | Nav_Delete | Nav_Options

text \<open>The two instances of the trait \<open>NativeCookieMethod\<close>: a navigation's method and the upper-case
  token of a fetch.\<close>

datatype cookie_method = Navigation native_navigation_method | Fetch string

definition is_safe_cookie_navigation :: "native_navigation_method \<Rightarrow> bool" where
  "is_safe_cookie_navigation m \<longleftrightarrow> m \<in> {Nav_Get, Nav_Head}"

fun is_safe_cookie_method :: "cookie_method \<Rightarrow> bool" where
  "is_safe_cookie_method (Navigation m) = is_safe_cookie_navigation m"
| "is_safe_cookie_method (Fetch m) \<longleftrightarrow> m \<in> {''GET'', ''HEAD''}"

section \<open>Normal forms of the attributes\<close>

definition normalize_cookie_same_site ::
  "string option \<Rightarrow> (native_engine_error, string option) result" where
  "normalize_cookie_same_site value =
     (case map_option trim_bytes value of
        None \<Rightarrow> Ok None
      | Some v \<Rightarrow>
          if eq_ignore_ascii_case v ''strict'' then Ok (Some ''Strict'')
          else if eq_ignore_ascii_case v ''lax'' then Ok (Some ''Lax'')
          else if eq_ignore_ascii_case v ''none'' then Ok (Some ''None'')
          else Err (invalid ''native cookie SameSite'' ''must be Strict, Lax, or None''))"

definition normalize_cookie_priority ::
  "string option \<Rightarrow> (native_engine_error, string option) result" where
  "normalize_cookie_priority value =
     (case map_option trim_bytes value of
        None \<Rightarrow> Ok None
      | Some v \<Rightarrow>
          if eq_ignore_ascii_case v ''low'' then Ok (Some ''Low'')
          else if eq_ignore_ascii_case v ''medium'' then Ok (Some ''Medium'')
          else if eq_ignore_ascii_case v ''high'' then Ok (Some ''High'')
          else Err (invalid ''native cookie priority'' ''must be Low, Medium, or High''))"

definition cookie_same_site :: "string option \<Rightarrow> native_cookie_same_site" where
  "cookie_same_site value =
     (case value of
        Some v \<Rightarrow>
          if eq_ignore_ascii_case v ''strict'' then SameSite_Strict
          else if eq_ignore_ascii_case v ''none'' then SameSite_None
          else SameSite_Lax
      | None \<Rightarrow> SameSite_Lax)"

text \<open>The guard \<open>same_site.is_some_and(|value| value.eq_ignore_ascii_case("none")) && !secure\<close>.\<close>

definition none_but_insecure :: "string option \<Rightarrow> bool \<Rightarrow> bool" where
  "none_but_insecure same_site secure \<longleftrightarrow>
     (case same_site of Some v \<Rightarrow> eq_ignore_ascii_case v ''none'' | None \<Rightarrow> False) \<and> \<not> secure"

section \<open>Texts, hosts and paths\<close>

definition is_ascii_control :: "char \<Rightarrow> bool" where
  "is_ascii_control c \<longleftrightarrow> byte c < 32 \<or> byte c = 127"

definition cookie_name_separators :: "char list" where
  "cookie_name_separators = ''()<>@,;:'' @ [CHR 0x5C, CHR 0x22] @ ''/[]?={} '' @ [CHR 0x09]"

definition valid_cookie_text :: "string \<Rightarrow> bool \<Rightarrow> bool" where
  "valid_cookie_text value name \<longleftrightarrow>
     \<not> list_ex (\<lambda>b. is_ascii_control b \<or> name \<and> b \<in> set cookie_name_separators) value"

definition valid_cookie_domain :: "string \<Rightarrow> bool" where
  "valid_cookie_domain domain =
     list_all (\<lambda>b. is_ascii_alphanumeric b \<or> b \<in> {CHR ''.'', CHR ''-'', CHR '':''}) domain"

definition host_matches_domain :: "string \<Rightarrow> string \<Rightarrow> bool" where
  "host_matches_domain host domain \<longleftrightarrow>
     host = domain \<or>
     (case strip_suffix domain host of Some prefix \<Rightarrow> ends_with ''.'' prefix | None \<Rightarrow> False)"

definition domain_matches :: "'a native_cookie_profile_entry_scheme \<Rightarrow> string \<Rightarrow> bool" where
  "domain_matches cookie host \<longleftrightarrow>
     host_matches_domain host (ck_domain cookie) \<and>
     (\<not> ck_host_only cookie \<or> host = ck_domain cookie)"

text \<open>\<open>as_bytes().get(i) == Some(b)\<close>.\<close>

definition byte_at :: "nat \<Rightarrow> string \<Rightarrow> char \<Rightarrow> bool" where
  "byte_at i s b \<longleftrightarrow> i < length s \<and> s ! i = b"

definition path_matches :: "string \<Rightarrow> string \<Rightarrow> bool" where
  "path_matches request_path cookie_path \<longleftrightarrow>
     request_path = cookie_path \<or>
     starts_with cookie_path request_path \<and>
     (ends_with ''/'' cookie_path \<or> byte_at (length cookie_path) request_path (CHR ''/''))"

definition default_cookie_path :: "'u csp_lib \<Rightarrow> 'u \<Rightarrow> string" where
  "default_cookie_path L url =
     (let path = url_path L url in
      if path = [] \<or> path = ''/'' \<or> \<not> starts_with ''/'' path then ''/''
      else
        (case rsplit_once (CHR ''/'') path of
           None \<Rightarrow> ''/''
         | Some (before, _) \<Rightarrow> if before = [] then ''/'' else before))"

section \<open>Sites\<close>

text \<open>\<open>IpAddr\<close>'s reading of a text without colons: four decimal numbers of at most three digits and at
  most 255, none with a leading zero.\<close>

definition ipv4_octet :: "string \<Rightarrow> bool" where
  "ipv4_octet p \<longleftrightarrow>
     p \<noteq> [] \<and> length p \<le> 3 \<and> list_all byte_is_digit p \<and> digits_value 0 p \<le> 255 \<and>
     (hd p = CHR ''0'' \<longrightarrow> length p = 1)"

definition ipv4_text :: "string \<Rightarrow> bool" where
  "ipv4_text s \<longleftrightarrow> length (split_on (CHR ''.'') s) = 4 \<and> list_all ipv4_octet (split_on (CHR ''.'') s)"

text \<open>\<open>host.parse::<IpAddr>().is_ok() || host.contains(':')\<close>: an IPv6 text has a colon.\<close>

definition site_host :: "string \<Rightarrow> string" where
  "site_host host =
     (if host = ''localhost'' \<or> ipv4_text host \<or> CHR '':'' \<in> set host then host
      else
        (let labels = split_on (CHR ''.'') host in
         if 2 \<le> length labels
         then labels ! (length labels - 2) @ ''.'' @ labels ! (length labels - 1)
         else host))"

definition schemeful_site :: "'u csp_lib \<Rightarrow> 'u \<Rightarrow> string option" where
  "schemeful_site L url =
     (case url_host_str L url of
        None \<Rightarrow> None
      | Some h \<Rightarrow>
          (let host = to_ascii_lowercase (trim_end_matches (CHR ''.'') h) in
           if host = [] then None
           else Some (to_ascii_lowercase (url_scheme L url) @ ''://'' @ site_host host)))"

definition same_site_request :: "'u csp_lib \<Rightarrow> 'u \<Rightarrow> 'u option \<Rightarrow> bool" where
  "same_site_request L request_url initiator_url \<longleftrightarrow>
     (case initiator_url of
        None \<Rightarrow> True
      | Some initiator \<Rightarrow>
          schemeful_site L initiator \<noteq> None \<and>
          schemeful_site L initiator = schemeful_site L request_url)"

definition cookie_same_site_allows ::
  "'u csp_lib \<Rightarrow> 'a native_cookie_profile_entry_scheme \<Rightarrow> 'u \<Rightarrow> 'u option \<Rightarrow> bool \<Rightarrow>
   cookie_method \<Rightarrow> bool" where
  "cookie_same_site_allows L cookie request_url initiator_url top_level_navigation meth =
     (let same_site = same_site_request L request_url initiator_url in
      case cookie_same_site (ck_same_site cookie) of
        SameSite_None \<Rightarrow> True
      | SameSite_Strict \<Rightarrow> same_site
      | SameSite_Lax \<Rightarrow> same_site \<or> (top_level_navigation \<and> is_safe_cookie_method meth))"

section \<open>A cookie and its stored form\<close>

definition expired_unix :: "nat option \<Rightarrow> cookie_clock \<Rightarrow> bool" where
  "expired_unix e t = (case e of None \<Rightarrow> False | Some x \<Rightarrow> x \<le> now_unix t)"

text \<open>\<open>Instant::now() + Duration::from_secs(expires_at.saturating_sub(unix_time_seconds()))\<close>, under
  \<open>Option::map\<close>; the outer \<open>None\<close> is the panic of the addition.\<close>

definition expiry_instant :: "cookie_clock \<Rightarrow> nat option \<Rightarrow> instant option option" where
  "expiry_instant t e =
     (case e of
        None \<Rightarrow> Some None
      | Some x \<Rightarrow> map_option Some (instant_add_secs (now_instant t) (x - now_unix t)))"

definition as_cookie ::
  "native_cookie_profile_entry \<Rightarrow> string option \<Rightarrow> string option \<Rightarrow> instant option \<Rightarrow> native_cookie" where
  "as_cookie p same_site priority expires_at = \<lparr>
     ck_name = ck_name p, ck_value = ck_value p, ck_domain = ck_domain p, ck_path = ck_path p,
     ck_host_only = ck_host_only p, ck_secure = ck_secure p, ck_http_only = ck_http_only p,
     ck_same_site = same_site, ck_priority = priority, ck_expires_unix = ck_expires_unix p,
     ck_expires_at = expires_at\<rparr>"

definition entry_of :: "native_cookie \<Rightarrow> native_cookie_profile_entry" where
  "entry_of c = \<lparr>
     ck_name = ck_name c, ck_value = ck_value c, ck_domain = ck_domain c, ck_path = ck_path c,
     ck_host_only = ck_host_only c, ck_secure = ck_secure c, ck_http_only = ck_http_only c,
     ck_same_site = ck_same_site c, ck_priority = ck_priority c, ck_expires_unix = ck_expires_unix c\<rparr>"

text \<open>The condition under which \<open>NativeCookie::from_profile\<close> refuses the texts of an entry.\<close>

definition profile_text_invalid :: "native_cookie_profile_entry \<Rightarrow> bool" where
  "profile_text_invalid p \<longleftrightarrow>
     ck_name p = [] \<or> \<not> valid_cookie_text (ck_name p) True \<or>
     \<not> valid_cookie_text (ck_value p) False \<or> CHR '';'' \<in> set (ck_value p) \<or>
     MAX_NATIVE_COOKIE_BYTES < length (ck_name p) + length (ck_value p) \<or>
     ck_domain p = [] \<or> \<not> valid_cookie_domain (ck_domain p) \<or>
     ck_path p = [] \<or> \<not> starts_with ''/'' (ck_path p)"

definition cookie_from_profile ::
  "cookie_clock \<Rightarrow> native_cookie_profile_entry \<Rightarrow> (fault, native_cookie option) result" where
  "cookie_from_profile t p =
     (if profile_text_invalid p
      then Err (Engine (invalid ''native cookie profile'' ''contains an invalid cookie entry''))
      else
        (case normalize_cookie_same_site (ck_same_site p) of
           Inl e \<Rightarrow> Err (Engine e)
         | Inr same_site \<Rightarrow>
             if none_but_insecure same_site (ck_secure p)
             then Err (Engine (invalid ''native cookie SameSite'' ''SameSite=None cookies must be Secure''))
             else
               (case normalize_cookie_priority (ck_priority p) of
                  Inl e \<Rightarrow> Err (Engine e)
                | Inr priority \<Rightarrow>
                    (case expiry_instant t (ck_expires_unix p) of
                       None \<Rightarrow> Err Panic
                     | Some expires_at \<Rightarrow>
                         if expired_unix (ck_expires_unix p) t then Ok None
                         else Ok (Some (as_cookie p same_site priority expires_at))))))"

definition to_profile :: "cookie_clock \<Rightarrow> native_cookie \<Rightarrow> native_cookie_profile_entry option" where
  "to_profile t c = (if expired_unix (ck_expires_unix c) t then None else Some (entry_of c))"

end
