(* ===== verification/Cookie_Jar.thy ===== *)
theory Cookie_Jar
  imports Cookie_Policy
begin

text \<open>
  The cookie jar of the native browser: the cookie functions of \<open>NativeNetworkState\<close> and
  \<open>NativeCookieJar\<close> (\<open>native_engine/resource_loader.rs\<close>) and the operations of the resource loader
  over them (\<open>resource_loader/cookie_methods.rs\<close>, the WebSocket response cookies of
  \<open>resource_loader/policies.rs\<close>). The state is the loader's authority flag, the contents of its jar
  and its log of changes. An operation that can fail returns its outcome with the state it leaves,
  because the code changes the jar before it meets a bad entry.
\<close>

record cookie_network =
  cookie_authority_enabled :: bool
  cookies :: "native_cookie list"

record cookie_loader = cookie_network +
  cookie_changes :: "native_cookie_change list"

type_synonym 'a net_op = "cookie_network \<Rightarrow> (fault, 'a) result \<times> cookie_network"
type_synonym 'a loader_op = "cookie_loader \<Rightarrow> (fault, 'a) result \<times> cookie_loader"

text \<open>A \<open>for\<close> loop whose body may return early with \<open>?\<close>: the state is the one the body left.\<close>

fun try_each ::
  "('x \<Rightarrow> 's \<Rightarrow> ('e, unit) result \<times> 's) \<Rightarrow> 'x list \<Rightarrow> 's \<Rightarrow> ('e, unit) result \<times> 's" where
  "try_each f [] s = (Ok (), s)"
| "try_each f (x # xs) s =
     (case f x s of
        (Inl e, s') \<Rightarrow> (Err e, s')
      | (Inr _, s') \<Rightarrow> try_each f xs s')"

lemma try_each_keeps:
  "(\<And>x s. P s \<Longrightarrow> P (snd (f x s))) \<Longrightarrow> P s \<Longrightarrow> P (snd (try_each f xs s))"
  by (induction xs arbitrary: s) (auto split: prod.splits sum.splits, (metis snd_conv)+)

lemma try_each_append:
  "try_each f (xs @ ys) s =
     (case try_each f xs s of (Inl e, s') \<Rightarrow> (Err e, s') | (Inr _, s') \<Rightarrow> try_each f ys s')"
  by (induction xs arbitrary: s) (auto split: prod.splits sum.splits)

section \<open>Which cookies a request carries\<close>

definition cookie_eligible ::
  "cookie_clock \<Rightarrow> string \<Rightarrow> string \<Rightarrow> bool \<Rightarrow> bool \<Rightarrow> native_cookie \<Rightarrow> bool" where
  "cookie_eligible t host request_path secure_request include_http_only c \<longleftrightarrow>
     domain_matches c host \<and> path_matches request_path (ck_path c) \<and>
     (\<not> ck_secure c \<or> secure_request) \<and> (include_http_only \<or> \<not> ck_http_only c) \<and>
     (case ck_expires_at c of None \<Rightarrow> True | Some e \<Rightarrow> now_instant t < e)"

text \<open>The order of \<open>sort_by\<close>: longer paths first, then the bytes of the name, then of the domain.\<close>

definition cookie_rank :: "native_cookie \<Rightarrow> int \<times> string \<times> string" where
  "cookie_rank c = (- int (length (ck_path c)), ck_name c, ck_domain c)"

definition request_path_of :: "'u csp_lib \<Rightarrow> 'u \<Rightarrow> string" where
  "request_path_of L url = (if url_path L url = [] then ''/'' else url_path L url)"

definition matching_cookies ::
  "'u csp_lib \<Rightarrow> cookie_clock \<Rightarrow> 'a cookie_network_scheme \<Rightarrow> 'u \<Rightarrow> bool \<Rightarrow> native_cookie list" where
  "matching_cookies L t s url include_http_only =
     (if \<not> cookie_authority_enabled s then []
      else
        (case url_host_str L url of
           None \<Rightarrow> []
         | Some h \<Rightarrow>
             sort_key cookie_rank
               (filter
                  (cookie_eligible t (to_ascii_lowercase h) (request_path_of L url)
                     (eq_ignore_ascii_case (url_scheme L url) ''https'') include_http_only)
                  (cookies s))))"

definition cookie_pair :: "native_cookie \<Rightarrow> string" where
  "cookie_pair c = ck_name c @ ''='' @ ck_value c"

fun header_loop :: "string \<Rightarrow> native_cookie list \<Rightarrow> string" where
  "header_loop header [] = header"
| "header_loop header (c # cs) =
     (let pair = cookie_pair c; separator = (if header \<noteq> [] then 2 else 0) in
      if MAX_NATIVE_COOKIE_BYTES < length header + separator + length pair then header
      else header_loop ((if header \<noteq> [] then header @ ''; '' else header) @ pair) cs)"

definition cookie_header_with_visibility ::
  "'u csp_lib \<Rightarrow> cookie_clock \<Rightarrow> 'a cookie_network_scheme \<Rightarrow> 'u \<Rightarrow> bool \<Rightarrow> 'u option \<Rightarrow> bool \<Rightarrow>
   cookie_method \<Rightarrow> string option" where
  "cookie_header_with_visibility L t s url include_http_only initiator_url top_level_navigation meth =
     (let matching =
            filter (\<lambda>c. cookie_same_site_allows L c url initiator_url top_level_navigation meth)
              (matching_cookies L t s url include_http_only);
          header = header_loop [] matching in
      if header \<noteq> [] then Some header else None)"

definition document_cookie_header ::
  "'u csp_lib \<Rightarrow> cookie_clock \<Rightarrow> 'a cookie_network_scheme \<Rightarrow> 'u \<Rightarrow> string option" where
  "document_cookie_header L t s url =
     cookie_header_with_visibility L t s url False (Some url) False (Navigation Nav_Get)"

definition cookie_header_for_request ::
  "'u csp_lib \<Rightarrow> cookie_clock \<Rightarrow> 'a cookie_network_scheme \<Rightarrow> 'u \<Rightarrow> 'u option \<Rightarrow> bool \<Rightarrow>
   cookie_method \<Rightarrow> string option" where
  "cookie_header_for_request L t s url initiator_url top_level_navigation meth =
     cookie_header_with_visibility L t s url True initiator_url top_level_navigation meth"

definition cookie_profile ::
  "cookie_clock \<Rightarrow> 'a cookie_network_scheme \<Rightarrow> native_cookie_profile_entry list" where
  "cookie_profile t s =
     (if \<not> cookie_authority_enabled s then [] else List.map_filter (to_profile t) (cookies s))"

section \<open>Changing the jar\<close>

fun push_profile :: "cookie_clock \<Rightarrow> native_cookie_profile_entry list \<Rightarrow> native_cookie list \<Rightarrow>
  (fault, native_cookie list) result" where
  "push_profile t [] jar = Ok jar"
| "push_profile t (p # ps) jar =
     (case cookie_from_profile t p of
        Inl e \<Rightarrow> Err e
      | Inr None \<Rightarrow> push_profile t ps jar
      | Inr (Some c) \<Rightarrow> push_profile t ps (jar @ [c]))"

definition network_from_profile ::
  "cookie_clock \<Rightarrow> native_cookie_profile_entry list \<Rightarrow> (fault, cookie_network) result" where
  "network_from_profile t ps =
     (case push_profile t ps [] of
        Inl e \<Rightarrow> Err e
      | Inr jar \<Rightarrow> Ok \<lparr>cookie_authority_enabled = True, cookies = jar\<rparr>)"

text \<open>\<open>retain\<close> with the key left out.\<close>

definition without_key :: "cookie_key \<Rightarrow> 'a native_cookie_profile_entry_scheme list \<Rightarrow>
  'a native_cookie_profile_entry_scheme list" where
  "without_key k cs = filter (\<lambda>c. key_of c \<noteq> k) cs"

definition not_owned :: "string \<Rightarrow> string \<Rightarrow> fault" where
  "not_owned operation reason = Engine (Worker operation reason)"

definition set_cookie_profile ::
  "cookie_clock \<Rightarrow> native_cookie \<Rightarrow> 'a cookie_network_scheme \<Rightarrow>
   (fault, native_cookie_profile_entry option) result \<times> 'a cookie_network_scheme" where
  "set_cookie_profile t cookie s =
     (if \<not> cookie_authority_enabled s then
        (Err (not_owned ''install content-process cookies''
                ''cookie profiles are owned by the browser process''), s)
      else
        (let had_existing = list_ex (\<lambda>c. key_of c = key_of cookie) (cookies s);
             kept = without_key (key_of cookie) (cookies s);
             full = \<not> had_existing \<and> MAX_NATIVE_COOKIE_PROFILE_ENTRIES \<le> length kept;
             evicted = (if full then to_profile t (hd kept) else None);
             jar = (if full then tl kept else kept) @ [cookie] in
         if MAX_NATIVE_COOKIE_PROFILE_ENTRIES < length jar then
           (Err (Engine (limit_error ''native cookie profile entries''
                    MAX_NATIVE_COOKIE_PROFILE_ENTRIES (length jar))), s\<lparr>cookies := jar\<rparr>)
         else (Ok evicted, s\<lparr>cookies := jar\<rparr>)))"

definition remove_cookie ::
  "cookie_key \<Rightarrow> 'a cookie_network_scheme \<Rightarrow> bool \<times> 'a cookie_network_scheme" where
  "remove_cookie k s =
     (if \<not> cookie_authority_enabled s then (False, s)
      else
        (let jar = without_key k (cookies s) in
         (length jar \<noteq> length (cookies s), s\<lparr>cookies := jar\<rparr>)))"

definition removal :: "cookie_key \<Rightarrow> native_cookie_change" where
  "removal k = (case k of (n, d, p) \<Rightarrow> \<lparr>cc_name = n, cc_domain = d, cc_path = p, cc_cookie = None\<rparr>)"

definition arrival :: "native_cookie_profile_entry \<Rightarrow> native_cookie_change" where
  "arrival p = \<lparr>cc_name = ck_name p, cc_domain = ck_domain p, cc_path = ck_path p, cc_cookie = Some p\<rparr>"

text \<open>\<open>clear_cookies\<close> empties the jar into the log of changes.\<close>

definition clear_cookies :: "cookie_loader \<Rightarrow> cookie_loader" where
  "clear_cookies l =
     (if \<not> cookie_authority_enabled l then l
      else l\<lparr>cookies := [],
             cookie_changes := cookie_changes l @ map (\<lambda>c. removal (key_of c)) (cookies l)\<rparr>)"

section \<open>Reading a Set-Cookie line\<close>

text \<open>\<open>str::parse::<i64>\<close>: an optional sign, at least one digit, within the range of the type.\<close>

definition parse_i64 :: "string \<Rightarrow> int option" where
  "parse_i64 s =
     (let (neg, d) = (case s of
            c # r \<Rightarrow> if c = CHR ''-'' then (True, r) else if c = CHR ''+'' then (False, r) else (False, s)
          | [] \<Rightarrow> (False, s));
          v = (if neg then - int (digits_value 0 d) else int (digits_value 0 d)) in
      if d \<noteq> [] \<and> list_all byte_is_digit d \<and> - int i64_max - 1 \<le> v \<and> v \<le> int i64_max
      then Some v else None)"

text \<open>The local variables of \<open>store_cookie\<close> that the attributes set.\<close>

record cookie_attributes =
  at_domain :: string
  at_host_only :: bool
  at_path :: string
  at_secure :: bool
  at_http_only :: bool
  at_same_site :: "string option"
  at_priority :: "string option"
  at_max_age :: "int option"

text \<open>One turn of the attribute loop; \<open>None\<close> is the early return that stores nothing.\<close>

definition store_attribute ::
  "string \<Rightarrow> string \<Rightarrow> cookie_attributes \<Rightarrow> cookie_attributes option" where
  "store_attribute host attribute a =
     (if eq_ignore_ascii_case attribute ''secure'' then Some (a\<lparr>at_secure := True\<rparr>)
      else if eq_ignore_ascii_case attribute ''httponly'' then Some (a\<lparr>at_http_only := True\<rparr>)
      else
        (case split_once (CHR ''='') attribute of
           None \<Rightarrow> Some a
         | Some (key, v) \<Rightarrow>
             (let k = to_ascii_lowercase (trim_bytes key); attribute_value = trim_bytes v in
              if k = ''domain'' then
                (let candidate = to_ascii_lowercase (dropWhile (\<lambda>c. c = CHR ''.'') attribute_value) in
                 if candidate = [] \<or> \<not> valid_cookie_domain candidate \<or>
                    \<not> host_matches_domain host candidate then None
                 else Some (a\<lparr>at_domain := candidate, at_host_only := False\<rparr>))
              else if k = ''path'' then
                Some (if starts_with ''/'' attribute_value then a\<lparr>at_path := attribute_value\<rparr> else a)
              else if k = ''max-age'' then Some (a\<lparr>at_max_age := parse_i64 attribute_value\<rparr>)
              else if k = ''samesite'' then Some (a\<lparr>at_same_site := Some attribute_value\<rparr>)
              else if k = ''priority'' then Some (a\<lparr>at_priority := Some attribute_value\<rparr>)
              else Some a)))"

fun store_attributes ::
  "string \<Rightarrow> string list \<Rightarrow> cookie_attributes \<Rightarrow> cookie_attributes option" where
  "store_attributes host [] a = Some a"
| "store_attributes host (x # xs) a =
     (case store_attribute host (trim_bytes x) a of
        None \<Rightarrow> None
      | Some a' \<Rightarrow> store_attributes host xs a')"

text \<open>The first half of \<open>store_cookie\<close>, up to the checked attributes: the name, the value and the
  attributes with \<open>SameSite\<close> and priority in their normal form, or nothing to store.\<close>

definition initial_attributes :: "'u csp_lib \<Rightarrow> 'u \<Rightarrow> string \<Rightarrow> cookie_attributes" where
  "initial_attributes L url host = \<lparr>at_domain = host, at_host_only = True, at_path = default_cookie_path L url,
     at_secure = False, at_http_only = False, at_same_site = None, at_priority = None, at_max_age = None\<rparr>"

definition checked_attributes :: "'u csp_lib \<Rightarrow> 'u \<Rightarrow> cookie_attributes \<Rightarrow> cookie_attributes option" where
  "checked_attributes L url a =
     (if at_secure a \<and> \<not> eq_ignore_ascii_case (url_scheme L url) ''https'' then None
      else
        (case normalize_cookie_same_site (at_same_site a) of
           Inl _ \<Rightarrow> None
         | Inr same_site \<Rightarrow>
             if none_but_insecure same_site (at_secure a) then None
             else
               (case normalize_cookie_priority (at_priority a) of
                  Inl _ \<Rightarrow> None
                | Inr priority \<Rightarrow> Some (a\<lparr>at_same_site := same_site, at_priority := priority\<rparr>))))"

definition read_set_cookie ::
  "'u csp_lib \<Rightarrow> 'u \<Rightarrow> string \<Rightarrow> (string \<times> string \<times> cookie_attributes) option" where
  "read_set_cookie L url line =
     (case url_host_str L url of
        None \<Rightarrow> None
      | Some h \<Rightarrow>
          (let host = to_ascii_lowercase h;
               (pair, attributes) = (case split_once (CHR '';'') line of None \<Rightarrow> (line, []) | Some x \<Rightarrow> x) in
           case split_once (CHR ''='') (trim_bytes pair) of
             None \<Rightarrow> None
           | Some (n, v) \<Rightarrow>
               (let name = trim_bytes n; value = trim_bytes v in
                if name = [] \<or> \<not> valid_cookie_text name True \<or> \<not> valid_cookie_text value False \<or>
                   MAX_NATIVE_COOKIE_BYTES < length name + length value then None
                else
                  (case store_attributes host (split_on (CHR '';'') attributes)
                          (initial_attributes L url host) of
                     None \<Rightarrow> None
                   | Some a \<Rightarrow>
                       (case checked_attributes L url a of
                          None \<Rightarrow> None
                        | Some b \<Rightarrow> Some (name, value, b))))))"

section \<open>Storing a cookie\<close>

definition MAX_COOKIE_AGE_SECONDS :: nat where
  "MAX_COOKIE_AGE_SECONDS = 60 * 60 * 24 * 365 * 10"

definition attribute_expiry :: "cookie_clock \<Rightarrow> cookie_attributes \<Rightarrow> nat option" where
  "attribute_expiry t a =
     map_option (\<lambda>age. nat_saturating_add u64_max (now_unix t) (min (nat age) MAX_COOKIE_AGE_SECONDS))
       (at_max_age a)"

definition attribute_entry ::
  "cookie_clock \<Rightarrow> string \<Rightarrow> string \<Rightarrow> cookie_attributes \<Rightarrow> native_cookie_profile_entry" where
  "attribute_entry t name value a = \<lparr>
     ck_name = name, ck_value = value, ck_domain = at_domain a, ck_path = at_path a,
     ck_host_only = at_host_only a, ck_secure = at_secure a, ck_http_only = at_http_only a,
     ck_same_site = at_same_site a, ck_priority = at_priority a,
     ck_expires_unix = attribute_expiry t a\<rparr>"

text \<open>The second half: an age of zero or less removes the cookie, otherwise it replaces the one with its
  key or is added, the oldest leaving when the jar is full. The panic of the expiry's addition comes
  before the jar changes.\<close>

definition store_read_cookie ::
  "cookie_clock \<Rightarrow> string \<Rightarrow> string \<Rightarrow> cookie_attributes \<Rightarrow> 'a cookie_network_scheme \<Rightarrow>
   (fault, native_cookie_change list) result \<times> 'a cookie_network_scheme" where
  "store_read_cookie t name value a s =
     (let k = (name, at_domain a, at_path a);
          had_existing = list_ex (\<lambda>c. key_of c = k) (cookies s);
          kept = without_key k (cookies s) in
      if (case at_max_age a of Some age \<Rightarrow> age \<le> 0 | None \<Rightarrow> False) then
        (Ok (if had_existing then [removal k] else []), s\<lparr>cookies := kept\<rparr>)
      else
        (let profile = attribute_entry t name value a in
         case expiry_instant t (ck_expires_unix profile) of
           None \<Rightarrow> (Err Panic, s)
         | Some expires_at \<Rightarrow>
             (let full = \<not> had_existing \<and> MAX_NATIVE_COOKIE_PROFILE_ENTRIES \<le> length kept;
                  cookie = as_cookie profile (at_same_site a) (at_priority a) expires_at in
              (Ok ((if full then [removal (key_of (hd kept))] else []) @ [arrival profile]),
               s\<lparr>cookies := (if full then tl kept else kept) @ [cookie]\<rparr>))))"

definition store_cookie ::
  "'u csp_lib \<Rightarrow> cookie_clock \<Rightarrow> 'u \<Rightarrow> string \<Rightarrow> 'a cookie_network_scheme \<Rightarrow>
   (fault, native_cookie_change list) result \<times> 'a cookie_network_scheme" where
  "store_cookie L t url line s =
     (if \<not> cookie_authority_enabled s \<or> MAX_NATIVE_COOKIE_BYTES < length line then (Ok [], s)
      else
        (case read_set_cookie L url line of
           None \<Rightarrow> (Ok [], s)
         | Some (name, value, a) \<Rightarrow> store_read_cookie t name value a s))"

section \<open>The jar shared between loaders\<close>

text \<open>\<open>NativeCookieJar::apply_changes\<close>: it works through a network state of its own over the shared jar,
  whose authority is enabled, and stops at the first change it cannot take.\<close>

definition apply_change :: "cookie_clock \<Rightarrow> native_cookie_change \<Rightarrow> unit net_op" where
  "apply_change t ch s =
     (case cc_cookie ch of
        None \<Rightarrow> (Ok (), snd (remove_cookie (change_key ch) s))
      | Some p \<Rightarrow>
          (case cookie_from_profile t p of
             Inl e \<Rightarrow> (Err e, s)
           | Inr None \<Rightarrow> (Ok (), snd (remove_cookie (change_key ch) s))
           | Inr (Some c) \<Rightarrow>
               (case set_cookie_profile t c s of
                  (Inl e, s') \<Rightarrow> (Err e, s')
                | (Inr _, s') \<Rightarrow> (Ok (), s'))))"

definition jar_apply_changes ::
  "cookie_clock \<Rightarrow> native_cookie_change list \<Rightarrow> native_cookie list \<Rightarrow>
   (fault, unit) result \<times> native_cookie list" where
  "jar_apply_changes t changes jar =
     (let (r, s) = try_each (apply_change t) changes \<lparr>cookie_authority_enabled = True, cookies = jar\<rparr> in
      (r, cookies s))"

section \<open>The operations of the loader\<close>

definition log_changes :: "native_cookie_change list \<Rightarrow> cookie_loader \<Rightarrow> cookie_loader" where
  "log_changes chs l = l\<lparr>cookie_changes := cookie_changes l @ chs\<rparr>"

definition use_shared_cookie_jar :: "native_cookie list \<Rightarrow> cookie_loader \<Rightarrow> cookie_loader" where
  "use_shared_cookie_jar jar l = l\<lparr>cookies := jar\<rparr>"

definition cookie_change_checkpoint :: "cookie_loader \<Rightarrow> nat" where
  "cookie_change_checkpoint l = length (cookie_changes l)"

text \<open>\<open>get(checkpoint..).unwrap_or_default()\<close>.\<close>

definition cookie_changes_since :: "cookie_loader \<Rightarrow> nat \<Rightarrow> native_cookie_change list" where
  "cookie_changes_since l checkpoint =
     (if checkpoint \<le> length (cookie_changes l) then drop checkpoint (cookie_changes l) else [])"

text \<open>\<open>commit_staged_cookie_state\<close>: the jar is this loader's, with the changes applied; the rest of the
  state is the staged loader's. When a change is refused the jar keeps those before it.\<close>

definition commit_staged_cookie_state ::
  "cookie_clock \<Rightarrow> cookie_loader \<Rightarrow> native_cookie_change list \<Rightarrow> unit loader_op" where
  "commit_staged_cookie_state t staged changes l =
     (case jar_apply_changes t changes (cookies l) of
        (Inl e, jar) \<Rightarrow> (Err e, l\<lparr>cookies := jar\<rparr>)
      | (Inr _, jar) \<Rightarrow> (Ok (), staged\<lparr>cookies := jar\<rparr>))"

definition take_cookie_changes :: "cookie_loader \<Rightarrow> native_cookie_change list \<times> cookie_loader" where
  "take_cookie_changes l = (cookie_changes l, l\<lparr>cookie_changes := []\<rparr>)"

definition restore_cookie_changes :: "native_cookie_change list \<Rightarrow> cookie_loader \<Rightarrow> cookie_loader" where
  "restore_cookie_changes chs l = log_changes chs l"

definition install_profile :: "cookie_clock \<Rightarrow> native_cookie_profile_entry \<Rightarrow> unit loader_op" where
  "install_profile t p l =
     (case cookie_from_profile t p of
        Inl e \<Rightarrow> (Err e, l)
      | Inr None \<Rightarrow>
          (case remove_cookie (key_of p) l of
             (removed, l') \<Rightarrow> (Ok (), if removed then log_changes [removal (key_of p)] l' else l'))
      | Inr (Some c) \<Rightarrow>
          (case set_cookie_profile t c l of
             (Inl e, l') \<Rightarrow> (Err e, l')
           | (Inr evicted, l') \<Rightarrow>
               (Ok (), log_changes
                  ((case evicted of None \<Rightarrow> [] | Some x \<Rightarrow> [removal (key_of x)]) @ [arrival p]) l')))"

definition set_cookie_profiles ::
  "cookie_clock \<Rightarrow> native_cookie_profile_entry list \<Rightarrow> unit loader_op" where
  "set_cookie_profiles t profiles l =
     (if \<not> cookie_authority_enabled l then
        (Err (not_owned ''install content-process cookies''
                ''cookie profiles are owned by the browser process''), l)
      else if MAX_NATIVE_COOKIE_PROFILE_ENTRIES < length profiles then
        (Err (Engine (limit_error ''native cookie profile entries''
                MAX_NATIVE_COOKIE_PROFILE_ENTRIES (length profiles))), l)
      else try_each (install_profile t) profiles l)"

definition take_change :: "cookie_clock \<Rightarrow> native_cookie_change \<Rightarrow> unit loader_op" where
  "take_change t ch l =
     (case cc_cookie ch of
        None \<Rightarrow> (Ok (), log_changes [ch] (snd (remove_cookie (change_key ch) l)))
      | Some p \<Rightarrow>
          (case cookie_from_profile t p of
             Inl e \<Rightarrow> (Err e, l)
           | Inr None \<Rightarrow> (Ok (), log_changes [ch] (snd (remove_cookie (change_key ch) l)))
           | Inr (Some c) \<Rightarrow>
               (case set_cookie_profile t c l of
                  (Inl e, l') \<Rightarrow> (Err e, l')
                | (Inr _, l') \<Rightarrow> (Ok (), log_changes [ch] l'))))"

definition apply_cookie_changes :: "cookie_clock \<Rightarrow> native_cookie_change list \<Rightarrow> unit loader_op" where
  "apply_cookie_changes t changes l =
     (if \<not> cookie_authority_enabled l then
        (Err (not_owned ''apply content-process cookie changes''
                ''cookie changes must be applied by the browser process''), l)
      else try_each (take_change t) changes l)"

text \<open>\<open>self.cookie_changes.extend(self.network.store_cookie(url, line))\<close>, as every response of a page,
  image, font, script, fetch or event stream does for each of its \<open>Set-Cookie\<close> headers.\<close>

definition receive_set_cookie ::
  "'u csp_lib \<Rightarrow> cookie_clock \<Rightarrow> 'u \<Rightarrow> string \<Rightarrow> unit loader_op" where
  "receive_set_cookie L t url line l =
     (case store_cookie L t url line l of
        (Inl e, l') \<Rightarrow> (Err e, l')
      | (Inr chs, l') \<Rightarrow> (Ok (), log_changes chs l'))"

definition cookies_for_document ::
  "'u csp_lib \<Rightarrow> cookie_clock \<Rightarrow> cookie_loader \<Rightarrow> string \<Rightarrow>
   (native_engine_error, native_cookie_profile_entry list) result" where
  "cookies_for_document L t l document_url0 =
     res_bind (validate_url_text ''cookie owner URL'' document_url0) (\<lambda>_.
     res_bind (parse_owner L document_url0 ''cookie owner URL is not valid URL syntax'') (\<lambda>document_url.
       if \<not> is_network_url L (url_str L document_url) then Ok []
       else res_bind (reject_credentials L document_url) (\<lambda>_.
         Ok (List.map_filter (to_profile t) (matching_cookies L t l document_url True)))))"

definition document_cookie ::
  "'u csp_lib \<Rightarrow> cookie_clock \<Rightarrow> cookie_loader \<Rightarrow> string \<Rightarrow> (native_engine_error, string) result" where
  "document_cookie L t l document_url0 =
     res_bind (validate_url_text ''document URL'' document_url0) (\<lambda>_.
     res_bind (parse_owner L document_url0 ''document.cookie owner URL is not valid URL syntax'')
       (\<lambda>document_url.
       if \<not> is_network_url L (url_str L document_url) then Ok []
       else res_bind (reject_credentials L document_url) (\<lambda>_.
         Ok (case document_cookie_header L t l document_url of None \<Rightarrow> [] | Some h \<Rightarrow> h))))"

text \<open>\<open>value.split(';').skip(1).any(|attribute| attribute.trim().eq_ignore_ascii_case(flag))\<close>.\<close>

definition names_attribute :: "string \<Rightarrow> string \<Rightarrow> bool" where
  "names_attribute flag value =
     list_ex (\<lambda>x. eq_ignore_ascii_case (trim_bytes x) flag) (drop 1 (split_on (CHR '';'') value))"

definition document_cookie_owner ::
  "'u csp_lib \<Rightarrow> string \<Rightarrow> string \<Rightarrow> (native_engine_error, 'u option) result" where
  "document_cookie_owner L document_url0 value =
     res_bind (validate_url_text ''document URL'' document_url0) (\<lambda>_.
     res_bind (validate_url_text ''document.cookie value'' value) (\<lambda>_.
     res_bind (parse_owner L document_url0 ''document.cookie owner URL is not valid URL syntax'')
       (\<lambda>document_url.
       if \<not> is_network_url L (url_str L document_url) then Ok None
       else res_bind (reject_credentials L document_url) (\<lambda>_. Ok (Some document_url)))))"

definition set_document_cookie ::
  "'u csp_lib \<Rightarrow> cookie_clock \<Rightarrow> string \<Rightarrow> string \<Rightarrow> unit loader_op" where
  "set_document_cookie L t document_url0 value l =
     (case document_cookie_owner L document_url0 value of
        Inl e \<Rightarrow> (Err (Engine e), l)
      | Inr None \<Rightarrow> (Ok (), l)
      | Inr (Some document_url) \<Rightarrow>
          if names_attribute ''httponly'' value then (Ok (), l)
          else receive_set_cookie L t document_url value l)"

section \<open>WebSocket responses\<close>

definition websocket_header ::
  "'u csp_lib \<Rightarrow> cookie_clock \<Rightarrow> 'u \<Rightarrow> string \<Rightarrow> unit loader_op" where
  "websocket_header L t cookie_url h l =
     (if MAX_NATIVE_RESPONSE_HEADER_VALUE_BYTES < length h then
        (Err (Engine (limit_error ''WebSocket Set-Cookie response header bytes''
                MAX_NATIVE_RESPONSE_HEADER_VALUE_BYTES (length h))), l)
      else if url_scheme L cookie_url = ''http'' \<and> names_attribute ''secure'' h then (Ok (), l)
      else receive_set_cookie L t cookie_url h l)"

definition websocket_cookie_url ::
  "'u csp_lib \<Rightarrow> 'u \<Rightarrow> (native_engine_error, 'u) result" where
  "websocket_cookie_url L url =
     (if url_scheme L url \<notin> {''wss'', ''ws''} then
        Err (UnsupportedUrl ''WebSocket cookie response URL must use ws or wss'')
      else
        ok_or (UnsupportedUrl ''WebSocket cookie response URL could not be normalized'')
          (url_set_scheme L (if url_scheme L url = ''wss'' then ''https'' else ''http'') url))"

definition apply_websocket_response_cookies ::
  "'u csp_lib \<Rightarrow> cookie_clock \<Rightarrow> 'u \<Rightarrow> string list \<Rightarrow> unit loader_op" where
  "apply_websocket_response_cookies L t websocket_url set_cookie_headers l =
     (if MAX_NATIVE_RESPONSE_HEADERS < length set_cookie_headers then
        (Err (Engine (limit_error ''WebSocket Set-Cookie response headers''
                MAX_NATIVE_RESPONSE_HEADERS (length set_cookie_headers))), l)
      else
        (case websocket_cookie_url L websocket_url of
           Inl e \<Rightarrow> (Err (Engine e), l)
         | Inr cookie_url \<Rightarrow> try_each (websocket_header L t cookie_url) set_cookie_headers l))"

end
