(* ===== verification/Cookie_Profile.thy ===== *)
theory Cookie_Profile
  imports Cookie_Jar
begin

text \<open>
  The stored cookie profile and the batches of changes between processes: validation of an entry, of
  a profile and of a journal record's changes, merging changes into a profile, dropping what has
  expired when a profile is read (\<open>native_engine/javascript/profile_storage.rs\<close>), the difference of
  two profiles and the two batches that keep one change per cookie
  (\<open>native_engine/engine/storage.rs\<close>, \<open>native_engine/content_process/profile_state.rs\<close>).
\<close>

section \<open>Validation\<close>

definition value_in :: "string list \<Rightarrow> string option \<Rightarrow> bool" where
  "value_in allowed value =
     (case value of None \<Rightarrow> True | Some v \<Rightarrow> to_ascii_lowercase (trim_bytes v) \<in> set allowed)"

definition validate_cookie_profile_entry ::
  "native_cookie_profile_entry \<Rightarrow> (native_engine_error, unit) result" where
  "validate_cookie_profile_entry c =
     (if ck_name c = [] then Err (invalid ''native cookie profile name'' ''must not be empty'')
      else if MAX_NATIVE_COOKIE_PROFILE_BYTES < length (ck_name c) then
        Err (limit_error ''native cookie profile name'' MAX_NATIVE_COOKIE_PROFILE_BYTES (length (ck_name c)))
      else if MAX_NATIVE_COOKIE_PROFILE_BYTES < length (ck_value c) then
        Err (limit_error ''native cookie profile value'' MAX_NATIVE_COOKIE_PROFILE_BYTES (length (ck_value c)))
      else if list_ex (\<lambda>b. is_ascii_control b \<or> b \<in> set cookie_name_separators) (ck_name c) \<or>
              list_ex (\<lambda>b. is_ascii_control b \<or> b = CHR '';'') (ck_value c) then
        Err (invalid ''native cookie profile'' ''name and value contain unsupported cookie bytes'')
      else if ck_domain c = [] \<or> MAX_NATIVE_COOKIE_PROFILE_BYTES < length (ck_domain c) then
        Err (invalid ''native cookie profile domain'' ''must be a non-empty bounded value'')
      else if ck_path c = [] \<or> MAX_NATIVE_COOKIE_PROFILE_BYTES < length (ck_path c) \<or>
              \<not> starts_with ''/'' (ck_path c) then
        Err (invalid ''native cookie profile path'' ''must be a bounded absolute path'')
      else if \<not> value_in [''strict'', ''lax'', ''none''] (ck_same_site c) then
        Err (invalid ''native cookie SameSite'' ''must be Strict, Lax, or None'')
      else if (case ck_same_site c of
                 None \<Rightarrow> False | Some v \<Rightarrow> eq_ignore_ascii_case (trim_bytes v) ''none'') \<and>
              \<not> ck_secure c then
        Err (invalid ''native cookie SameSite'' ''SameSite=None cookies must be Secure'')
      else if \<not> value_in [''low'', ''medium'', ''high''] (ck_priority c) then
        Err (invalid ''native cookie priority'' ''must be Low, Medium, or High'')
      else Ok ())"

fun validate_entries :: "native_cookie_profile_entry list \<Rightarrow> (native_engine_error, unit) result" where
  "validate_entries [] = Ok ()"
| "validate_entries (c # cs) = res_bind (validate_cookie_profile_entry c) (\<lambda>_. validate_entries cs)"

definition validate_cookie_profile ::
  "native_cookie_profile_entry list \<Rightarrow> (native_engine_error, unit) result" where
  "validate_cookie_profile cs =
     (if MAX_NATIVE_COOKIE_PROFILE_ENTRIES < length cs then
        Err (limit_error ''native cookie profile entries'' MAX_NATIVE_COOKIE_PROFILE_ENTRIES (length cs))
      else res_bind (validate_entries cs) (\<lambda>_.
        if list_ex (\<lambda>i. list_ex (\<lambda>previous. key_of previous = key_of (cs ! i)) (take i cs))
             [0 ..< length cs] then
          Err (invalid ''native cookie profile'' ''must not contain duplicate cookie keys'')
        else Ok ()))"

text \<open>The check that a change's cookie has the change's key.\<close>

definition change_key_matches :: "native_cookie_change \<Rightarrow> native_cookie_profile_entry \<Rightarrow> bool" where
  "change_key_matches ch c \<longleftrightarrow> key_of c = change_key ch"

definition key_entry :: "native_cookie_change \<Rightarrow> native_cookie_profile_entry" where
  "key_entry ch = \<lparr>ck_name = cc_name ch, ck_value = [], ck_domain = cc_domain ch, ck_path = cc_path ch,
     ck_host_only = True, ck_secure = False, ck_http_only = False, ck_same_site = None,
     ck_priority = None, ck_expires_unix = None\<rparr>"

fun validate_journal_changes :: "native_cookie_change list \<Rightarrow> (native_engine_error, unit) result" where
  "validate_journal_changes [] = Ok ()"
| "validate_journal_changes (ch # chs) =
     res_bind (validate_cookie_profile_entry (key_entry ch)) (\<lambda>_.
       case cc_cookie ch of
         None \<Rightarrow> validate_journal_changes chs
       | Some c \<Rightarrow>
           if \<not> change_key_matches ch c then
             Err (invalid ''native cookie journal change'' ''cookie key does not match its change key'')
           else res_bind (validate_cookie_profile_entry c) (\<lambda>_. validate_journal_changes chs))"

definition validate_storage_journal_cookie_changes ::
  "native_cookie_change list \<Rightarrow> (native_engine_error, unit) result" where
  "validate_storage_journal_cookie_changes chs =
     (if MAX_NATIVE_COOKIE_CHANGE_BATCH < length chs then
        Err (limit_error ''native cookie journal changes'' MAX_NATIVE_COOKIE_CHANGE_BATCH (length chs))
      else validate_journal_changes chs)"

section \<open>Merging changes into a profile\<close>

text \<open>One turn of the loop of \<open>merge_cookie_changes\<close> after its checks.\<close>

definition merge_change ::
  "native_cookie_change \<Rightarrow> native_cookie_profile_entry list \<Rightarrow> native_cookie_profile_entry list" where
  "merge_change ch cs =
     (let kept = without_key (change_key ch) cs in
      case cc_cookie ch of
        None \<Rightarrow> kept
      | Some c \<Rightarrow> (if MAX_NATIVE_COOKIE_PROFILE_ENTRIES \<le> length kept then tl kept else kept) @ [c])"

fun merge_changes :: "native_cookie_change list \<Rightarrow> native_cookie_profile_entry list \<Rightarrow>
  (native_engine_error, native_cookie_profile_entry list) result" where
  "merge_changes [] cs = Ok cs"
| "merge_changes (ch # chs) cs =
     (case cc_cookie ch of
        None \<Rightarrow> merge_changes chs (merge_change ch cs)
      | Some c \<Rightarrow>
          if \<not> change_key_matches ch c then
            Err (invalid ''native cookie change'' ''cookie key does not match its change key'')
          else res_bind (validate_cookie_profile_entry c) (\<lambda>_. merge_changes chs (merge_change ch cs)))"

definition merge_cookie_changes ::
  "native_cookie_profile_entry list \<Rightarrow> native_cookie_change list \<Rightarrow>
   (native_engine_error, native_cookie_profile_entry list) result" where
  "merge_cookie_changes cs chs =
     res_bind (merge_changes chs cs) (\<lambda>cs'. res_bind (validate_cookie_profile cs') (\<lambda>_. Ok cs'))"

text \<open>The last lines of \<open>read_cookie_profile_file\<close>: a decoded profile is validated and the expired
  entries are left out.\<close>

definition open_cookie_profile ::
  "cookie_clock \<Rightarrow> native_cookie_profile_entry list \<Rightarrow>
   (native_engine_error, native_cookie_profile_entry list) result" where
  "open_cookie_profile t cs =
     res_bind (validate_cookie_profile cs) (\<lambda>_.
       Ok (filter (\<lambda>c. \<not> expired_unix (ck_expires_unix c) t) cs))"

section \<open>The difference of two profiles\<close>

definition find_key ::
  "cookie_key \<Rightarrow> 'a native_cookie_profile_entry_scheme list \<Rightarrow> 'a native_cookie_profile_entry_scheme option" where
  "find_key k cs = find (\<lambda>c. key_of c = k) cs"

definition change_at :: "cookie_key \<Rightarrow> native_cookie_profile_entry option \<Rightarrow> native_cookie_change" where
  "change_at k c =
     (case k of (n, d, p) \<Rightarrow> \<lparr>cc_name = n, cc_domain = d, cc_path = p, cc_cookie = c\<rparr>)"

definition diff_cookie_profiles ::
  "native_cookie_profile_entry list \<Rightarrow> native_cookie_profile_entry list \<Rightarrow> native_cookie_change list" where
  "diff_cookie_profiles before after =
     map (\<lambda>c. change_at (key_of c) (find_key (key_of c) after))
       (filter (\<lambda>c. find_key (key_of c) after \<noteq> Some c) before) @
     map (\<lambda>c. change_at (key_of c) (Some c))
       (filter (\<lambda>c. \<not> list_ex (\<lambda>b. key_of b = key_of c) before) after)"

section \<open>Batches with one change per cookie\<close>

text \<open>\<open>*existing = change\<close> at the first change with its key, or a push while there is room.\<close>

fun replace_change ::
  "native_cookie_change \<Rightarrow> native_cookie_change list \<Rightarrow> native_cookie_change list option" where
  "replace_change ch [] = None"
| "replace_change ch (x # xs) =
     (if change_key x = change_key ch then Some (ch # xs)
      else map_option ((#) x) (replace_change ch xs))"

fun batch_changes ::
  "string \<Rightarrow> native_cookie_change list \<Rightarrow> native_cookie_change list \<Rightarrow>
   (native_engine_error, unit) result \<times> native_cookie_change list" where
  "batch_changes resource [] batch = (Ok (), batch)"
| "batch_changes resource (ch # chs) batch =
     (case replace_change ch batch of
        Some batch' \<Rightarrow> batch_changes resource chs batch'
      | None \<Rightarrow>
          if MAX_NATIVE_COOKIE_CHANGE_BATCH \<le> length batch then
            (Err (limit_error resource MAX_NATIVE_COOKIE_CHANGE_BATCH (length batch + 1)), batch)
          else batch_changes resource chs (batch @ [ch]))"

text \<open>The engine's batch is changed in place, so a refused change leaves those before it.\<close>

definition merge_external_cookie_changes ::
  "native_cookie_change list \<Rightarrow> native_cookie_change list \<Rightarrow>
   (native_engine_error, unit) result \<times> native_cookie_change list" where
  "merge_external_cookie_changes target changes =
     batch_changes ''native pending external cookie changes'' changes target"

text \<open>The content process works on a copy and keeps its batch when a change is refused.\<close>

definition merge_cookie_change_batch ::
  "string \<Rightarrow> native_cookie_change list \<Rightarrow> native_cookie_change list \<Rightarrow>
   (native_engine_error, unit) result \<times> native_cookie_change list" where
  "merge_cookie_change_batch operation target changes =
     (case batch_changes operation changes target of
        (Inl e, _) \<Rightarrow> (Err e, target)
      | (Inr _, merged) \<Rightarrow> (Ok (), merged))"

definition coalesce_cookie_changes ::
  "string \<Rightarrow> native_cookie_change list \<Rightarrow> (native_engine_error, native_cookie_change list) result" where
  "coalesce_cookie_changes operation changes =
     (case merge_cookie_change_batch operation [] changes of
        (Inl e, _) \<Rightarrow> Err e
      | (Inr _, coalesced) \<Rightarrow> Ok coalesced)"

section \<open>The engine's queue of changes\<close>

text \<open>\<open>reconcile_pending_content_cookie_changes\<close> after the writes of the content process were taken: its
  pending changes are applied and logged behind the loader's own, and its script writes are stored.
  When a change is refused the pending batch stays, and the loader's own changes are put back behind
  the log of those already applied.\<close>

definition reconcile_pending_content_cookie_changes ::
  "'u csp_lib \<Rightarrow> cookie_clock \<Rightarrow> (string \<times> string) list \<Rightarrow>
   native_cookie_change list \<times> cookie_loader \<Rightarrow>
   (fault, unit) result \<times> native_cookie_change list \<times> cookie_loader" where
  "reconcile_pending_content_cookie_changes L t cookie_writes st =
     (let (pending, l) = st;
          (existing, l1) = take_cookie_changes l in
      case apply_cookie_changes t pending l1 of
        (Inl Panic, l2) \<Rightarrow> (Err Panic, pending, l2)
      | (Inl (Engine e), l2) \<Rightarrow> (Err (Engine e), pending, restore_cookie_changes existing l2)
      | (Inr _, l2) \<Rightarrow>
          (let (reconciled, l3) = take_cookie_changes l2;
               l4 = restore_cookie_changes reconciled (restore_cookie_changes existing l3);
               (r, l5) = try_each (\<lambda>(document_url, value). set_document_cookie L t document_url value) cookie_writes l4 in
           (r, [], l5)))"

end
