(* ===== verification/Cookie_Rules.thy ===== *)
theory Cookie_Rules
  imports Cookie_Profile
begin

text \<open>
  The laws of the cookie stores. A locale states what the jar and the stored profile share: a bounded
  list with one value per key, replaced by key, the oldest leaving when a new key meets a full store.
  Its lemmas give a run of edits its meaning as a run on finite maps, exactly while the intended map
  fits the bound, and at most that otherwise. Both stores are interpretations of it.
\<close>

section \<open>Edits of a finite map\<close>

type_synonym ('k, 'v) edit = "'k \<times> 'v option"

definition edit_map :: "('k, 'v) edit \<Rightarrow> ('k \<rightharpoonup> 'v) \<Rightarrow> ('k \<rightharpoonup> 'v)" where
  "edit_map e m = m(fst e := snd e)"

definition override :: "('k, 'v) edit list \<Rightarrow> ('k \<rightharpoonup> 'v) \<Rightarrow> ('k \<rightharpoonup> 'v)" where
  "override es m = fold edit_map es m"

text \<open>The intended map never has more than the given number of entries along the way.\<close>

fun fits :: "nat \<Rightarrow> ('k, 'v) edit list \<Rightarrow> ('k \<rightharpoonup> 'v) \<Rightarrow> bool" where
  "fits n [] m = True"
| "fits n (e # es) m \<longleftrightarrow> card (dom (edit_map e m)) \<le> n \<and> fits n es (edit_map e m)"

lemma override_simps [simp]:
  "override [] m = m"
  "override (e # es) m = override es (edit_map e m)"
  by (simp_all add: override_def)

lemma override_append: "override (es @ fs) m = override fs (override es m)"
  by (simp add: override_def)

lemma fits_append: "fits n (es @ fs) m \<longleftrightarrow> fits n es m \<and> fits n fs (override es m)"
  by (induction es arbitrary: m) auto

lemma override_untouched: "k \<notin> fst ` set es \<Longrightarrow> override es m k = m k"
  by (induction es arbitrary: m) (auto simp: edit_map_def)

lemma override_cong: "m k = m' k \<Longrightarrow> override es m k = override es m' k"
proof (induction es arbitrary: m m')
  case (Cons e es)
  have "edit_map e m k = edit_map e m' k" using Cons.prems by (simp add: edit_map_def)
  then have "override es (edit_map e m) k = override es (edit_map e m') k" by (rule Cons.IH)
  then show ?case by simp
qed simp

lemma override_member:
  "distinct (map fst es) \<Longrightarrow> (k, c) \<in> set es \<Longrightarrow> override es m k = c"
proof (induction es arbitrary: m)
  case (Cons e es)
  show ?case
  proof (cases "e = (k, c)")
    case True
    then show ?thesis using Cons.prems by (auto simp: override_untouched edit_map_def)
  next
    case False
    then show ?thesis using Cons by auto
  qed
qed simp

lemma fits_bounded_keys:
  assumes "finite (dom m)" "card (dom m \<union> fst ` set es) \<le> n"
  shows "fits n es m"
  using assms
proof (induction es arbitrary: m)
  case (Cons e es)
  let ?m = "edit_map e m"
  have sub: "dom ?m \<subseteq> insert (fst e) (dom m)" by (auto simp: edit_map_def split: if_splits)
  have fin: "finite (dom ?m)" using sub Cons.prems(1) by (meson finite_insert finite_subset)
  have "dom ?m \<union> fst ` set es \<subseteq> dom m \<union> fst ` set (e # es)" using sub by auto
  then have c: "card (dom ?m \<union> fst ` set es) \<le> n"
    using Cons.prems by (meson List.finite_set card_mono finite_UnI finite_imageI le_trans)
  moreover have "card (dom ?m) \<le> card (dom ?m \<union> fst ` set es)"
    using fin by (intro card_mono) auto
  ultimately show ?case using Cons.IH[OF fin c] by simp
qed simp

section \<open>Bounded stores with one value per key\<close>

locale keyed_store =
  fixes key :: "'v \<Rightarrow> 'k"
    and inv :: "'s \<Rightarrow> bool"
    and items :: "'s \<Rightarrow> 'v list"
    and put :: "'v \<Rightarrow> 's \<Rightarrow> 's"
    and del :: "'k \<Rightarrow> 's \<Rightarrow> 's"
    and cap :: nat
  assumes cap_pos: "0 < cap"
    and inv_distinct: "inv s \<Longrightarrow> distinct (map key (items s))"
    and inv_bounded: "inv s \<Longrightarrow> length (items s) \<le> cap"
    and inv_put: "inv s \<Longrightarrow> inv (put v s)"
    and inv_del: "inv s \<Longrightarrow> inv (del k s)"
    and items_put: "inv s \<Longrightarrow> items (put v s) =
          (let kept = filter (\<lambda>x. key x \<noteq> key v) (items s) in
           (if cap \<le> length kept then tl kept else kept) @ [v])"
    and items_del: "inv s \<Longrightarrow> items (del k s) = filter (\<lambda>x. key x \<noteq> k) (items s)"
begin

abbreviation get :: "'s \<Rightarrow> 'k \<rightharpoonup> 'v" where
  "get s k \<equiv> find (\<lambda>x. key x = k) (items s)"

abbreviation edit :: "('k, 'v) edit \<Rightarrow> 's \<Rightarrow> 's" where
  "edit e s \<equiv> (case snd e of None \<Rightarrow> del (fst e) s | Some v \<Rightarrow> put v s)"

abbreviation keyed :: "('k, 'v) edit \<Rightarrow> bool" where
  "keyed e \<equiv> (case snd e of None \<Rightarrow> True | Some v \<Rightarrow> key v = fst e)"

abbreviation run :: "('k, 'v) edit list \<Rightarrow> 's \<Rightarrow> 's" where
  "run es s \<equiv> fold edit es s"

lemma inv_edit: "inv s \<Longrightarrow> inv (edit e s)"
  by (simp add: inv_put inv_del split: option.split)

lemma inv_run: "inv s \<Longrightarrow> inv (run es s)"
  by (induction es arbitrary: s) (auto intro: inv_edit)

lemma find_key_iff:
  "distinct (map key xs) \<Longrightarrow> find (\<lambda>x. key x = k) xs = Some v \<longleftrightarrow> v \<in> set xs \<and> key v = k"
proof (induction xs)
  case (Cons x xs)
  then show ?case by (auto simp: image_iff)
qed simp

lemma get_iff: "inv s \<Longrightarrow> get s k = Some v \<longleftrightarrow> v \<in> set (items s) \<and> key v = k"
  by (simp add: find_key_iff inv_distinct)

lemma dom_get: "dom (get s) = key ` set (items s)"
  by (force simp: dom_def find_None_iff)

lemma card_dom_get: "inv s \<Longrightarrow> card (dom (get s)) = length (items s)"
  unfolding dom_get by (metis distinct_card inv_distinct length_map set_map)

lemma finite_dom_get: "finite (dom (get s))"
  by (simp add: dom_get)

lemma get_del: "inv s \<Longrightarrow> get (del k s) = edit_map (k, None) (get s)"
proof
  fix j assume s: "inv s"
  have d: "find (\<lambda>x. key x = j) (filter (\<lambda>x. key x \<noteq> k) xs) =
      (if j = k then None else find (\<lambda>x. key x = j) xs)" for xs
    by (induction xs) auto
  show "get (del k s) j = edit_map (k, None) (get s) j"
    using s by (simp add: items_del d edit_map_def)
qed

lemma put_members: "inv s \<Longrightarrow> x \<in> set (items (put v s)) \<Longrightarrow> x = v \<or> x \<in> set (items s) \<and> key x \<noteq> key v"
  using set_tl_subset[of "filter (\<lambda>x. key x \<noteq> key v) (items s)"]
  by (auto simp: items_put Let_def split: if_splits)

lemma get_put_same: "inv s \<Longrightarrow> get (put v s) (key v) = Some v"
  using get_iff[OF inv_put[of s v]] by (simp add: items_put Let_def)

lemma get_put_fits:
  assumes s: "inv s" and c: "card (dom (edit_map (key v, Some v) (get s))) \<le> cap"
  shows "get (put v s) = edit_map (key v, Some v) (get s)"
proof -
  let ?kept = "filter (\<lambda>x. key x \<noteq> key v) (items s)"
  have "dom (edit_map (key v, Some v) (get s)) = insert (key v) (key ` set ?kept)"
    by (auto simp: edit_map_def dom_get)
  moreover have "distinct (map key ?kept)" using inv_distinct[OF s] by (rule distinct_map_filter)
  then have "card (key ` set ?kept) = length ?kept" by (metis distinct_card length_map set_map)
  moreover have "key v \<notin> key ` set ?kept" by auto
  ultimately have "length ?kept < cap" using c by simp
  then have p: "items (put v s) = ?kept @ [v]" using s by (simp add: items_put)
  have "find (\<lambda>x. key x = j) (filter (\<lambda>x. key x \<noteq> key v) xs @ [v]) =
      (if j = key v then Some v else find (\<lambda>x. key x = j) xs)" for j xs
    by (induction xs) auto
  then show ?thesis using p by (auto simp: edit_map_def)
qed

lemma get_put_within:
  assumes s: "inv s"
  shows "get (put v s) \<subseteq>\<^sub>m edit_map (key v, Some v) (get s)"
  unfolding map_le_def
proof (clarify, rename_tac j x)
  fix j x assume j: "get (put v s) j = Some x"
  then have x: "x \<in> set (items (put v s))" "key x = j" using s by (simp_all add: get_iff inv_put)
  have "get s (key x) = Some x" if "x \<in> set (items s)" using that s by (simp add: get_iff)
  then show "get (put v s) j = edit_map (key v, Some v) (get s) j"
    using put_members[OF s x(1)] x(2) j by (auto simp: edit_map_def)
qed

text \<open>While the intended map fits, a run of edits has exactly its meaning.\<close>

lemma run_fits:
  "inv s \<Longrightarrow> list_all keyed es \<Longrightarrow> fits cap es (get s) \<Longrightarrow> get (run es s) = override es (get s)"
proof (induction es arbitrary: s)
  case (Cons e es)
  have g: "get (edit e s) = edit_map e (get s)"
  proof (cases "snd e")
    case None
    then show ?thesis using Cons.prems(1) by (cases e) (simp add: get_del)
  next
    case (Some v)
    then have e: "e = (key v, Some v)" using Cons.prems(2) by (cases e) simp
    show ?thesis using Cons.prems(1,3) by (simp add: e get_put_fits)
  qed
  have "get (run es (edit e s)) = override es (get (edit e s))"
    using Cons.prems by (intro Cons.IH) (auto simp: inv_edit g)
  then show ?case by (simp only: fold_simps override_simps g)
qed simp

text \<open>Whatever the bound evicts, a run never holds anything but what its edits mean.\<close>

lemma map_le_edit: "m \<subseteq>\<^sub>m m' \<Longrightarrow> edit_map e m \<subseteq>\<^sub>m edit_map e m'"
  by (auto simp: edit_map_def map_le_def dom_def)

lemma map_le_override: "m \<subseteq>\<^sub>m m' \<Longrightarrow> override es m \<subseteq>\<^sub>m override es m'"
  by (induction es arbitrary: m m') (auto intro: map_le_edit)

lemma run_within:
  "inv s \<Longrightarrow> list_all keyed es \<Longrightarrow> get (run es s) \<subseteq>\<^sub>m override es (get s)"
proof (induction es arbitrary: s)
  case (Cons e es)
  have g: "get (edit e s) \<subseteq>\<^sub>m edit_map e (get s)"
  proof (cases "snd e")
    case None
    then show ?thesis using Cons.prems(1) by (cases e) (simp add: get_del)
  next
    case (Some v)
    then have e: "e = (key v, Some v)" using Cons.prems(2) by (cases e) simp
    show ?thesis using get_put_within[OF Cons.prems(1)] by (simp add: e)
  qed
  have "get (run es (edit e s)) \<subseteq>\<^sub>m override es (get (edit e s))"
    using Cons.prems by (intro Cons.IH) (auto simp: inv_edit)
  also have "\<dots> \<subseteq>\<^sub>m override es (edit_map e (get s))" using g by (rule map_le_override)
  finally show ?case by simp
qed simp

end

section \<open>The jar and the profile are such stores\<close>

text \<open>The shape of the jar: one cookie per key, at most the bound.\<close>

definition jar_shape :: "'a native_cookie_profile_entry_scheme list \<Rightarrow> bool" where
  "jar_shape cs \<longleftrightarrow>
     distinct (map key_of cs) \<and> length cs \<le> MAX_NATIVE_COOKIE_PROFILE_ENTRIES"

text \<open>Replacing by key, with the oldest leaving a full store.\<close>

definition jar_put :: "'a native_cookie_profile_entry_scheme \<Rightarrow>
  'a native_cookie_profile_entry_scheme list \<Rightarrow> 'a native_cookie_profile_entry_scheme list" where
  "jar_put v cs =
     (let kept = without_key (key_of v) cs in
      (if MAX_NATIVE_COOKIE_PROFILE_ENTRIES \<le> length kept then tl kept else kept) @ [v])"

lemma entries_pos: "0 < MAX_NATIVE_COOKIE_PROFILE_ENTRIES"
  by (simp add: MAX_NATIVE_COOKIE_PROFILE_ENTRIES_def)

lemma shape_facts:
  "jar_shape cs \<Longrightarrow> distinct (map key_of cs)"
  "jar_shape cs \<Longrightarrow> length cs \<le> MAX_NATIVE_COOKIE_PROFILE_ENTRIES"
  by (simp_all add: jar_shape_def)

lemma shape_filter: "jar_shape cs \<Longrightarrow> jar_shape (filter P cs)"
  unfolding jar_shape_def by (meson distinct_map_filter le_trans length_filter_le)

lemma shape_without: "jar_shape cs \<Longrightarrow> jar_shape (without_key k cs)"
  unfolding without_key_def by (rule shape_filter)

lemma without_absent: "\<not> list_ex (\<lambda>c. key_of c = k) cs \<Longrightarrow> without_key k cs = cs"
  by (auto simp: without_key_def list_ex_iff filter_id_conv)

lemma without_present:
  "jar_shape cs \<Longrightarrow> list_ex (\<lambda>c. key_of c = k) cs \<Longrightarrow>
   length (without_key k cs) < MAX_NATIVE_COOKIE_PROFILE_ENTRIES"
  unfolding jar_shape_def without_key_def list_ex_iff
  by (metis (mono_tags, lifting) length_filter_less less_le_trans)

lemma without_key_iff: "c \<in> set (without_key k cs) \<longleftrightarrow> c \<in> set cs \<and> key_of c \<noteq> k"
  by (auto simp: without_key_def)

lemma set_jar_put: "set (jar_put v cs) \<subseteq> insert v (set cs)"
  using set_tl_subset[of "without_key (key_of v) cs"]
  by (auto simp: jar_put_def Let_def without_key_iff split: if_splits)

lemma shape_put: assumes "jar_shape cs" shows "jar_shape (jar_put v cs)"
proof -
  let ?kept = "without_key (key_of v) cs"
  have k: "jar_shape ?kept" using assms by (rule shape_without)
  have no: "key_of v \<notin> key_of ` set ?kept" by (auto simp: without_key_iff)
  have "distinct (map key_of (tl ?kept))" using k by (simp add: jar_shape_def map_tl distinct_tl)
  moreover have "key_of v \<notin> key_of ` set (tl ?kept)" using no set_tl_subset[of ?kept] by auto
  ultimately show ?thesis using k no entries_pos by (auto simp: jar_put_def Let_def jar_shape_def)
qed

text \<open>The eviction test of the code, which also asks that the key was absent, agrees.\<close>

lemma full_iff:
  "jar_shape cs \<Longrightarrow>
   (\<not> list_ex (\<lambda>c. key_of c = k) cs \<and> MAX_NATIVE_COOKIE_PROFILE_ENTRIES \<le> length (without_key k cs)) =
   (MAX_NATIVE_COOKIE_PROFILE_ENTRIES \<le> length (without_key k cs))"
  using without_present[of cs k] by auto

lemma set_cookie_profile_eq:
  "cookie_authority_enabled s \<Longrightarrow> jar_shape (cookies s) \<Longrightarrow>
   set_cookie_profile t c s =
     (Ok (if MAX_NATIVE_COOKIE_PROFILE_ENTRIES \<le> length (without_key (key_of c) (cookies s))
          then to_profile t (hd (without_key (key_of c) (cookies s))) else None),
      s\<lparr>cookies := jar_put c (cookies s)\<rparr>)"
  using shape_put[of "cookies s" c]
  by (auto simp: set_cookie_profile_def full_iff jar_put_def Let_def jar_shape_def[of "_ @ [c]"] split: if_splits)

interpretation jar: keyed_store key_of "\<lambda>s. cookie_authority_enabled s \<and> jar_shape (cookies s)" cookies
  "\<lambda>c s. snd (set_cookie_profile t c s)" "\<lambda>k s. snd (remove_cookie k s)"
  MAX_NATIVE_COOKIE_PROFILE_ENTRIES
proof unfold_locales
  fix s :: "'a cookie_network_scheme" and v
  assume s: "cookie_authority_enabled s \<and> jar_shape (cookies s)"
  then show "cookies (snd (set_cookie_profile t v s)) =
    (let kept = filter (\<lambda>x. key_of x \<noteq> key_of v) (cookies s)
     in (if MAX_NATIVE_COOKIE_PROFILE_ENTRIES \<le> length kept then tl kept else kept) @ [v])"
    by (simp add: set_cookie_profile_eq jar_put_def without_key_def)
qed (auto simp: entries_pos shape_facts set_cookie_profile_eq shape_put remove_cookie_def Let_def
    shape_without without_key_def[symmetric])

text \<open>The profile takes a change as an edit.\<close>

lemma change_key_removal [simp]: "change_key (removal k) = k" "cc_cookie (removal k) = None"
  by (cases k; simp add: removal_def change_key_def)+

lemma change_key_arrival [simp]: "change_key (arrival c) = key_of c" "cc_cookie (arrival c) = Some c"
  by (simp_all add: arrival_def change_key_def key_of_def)

lemma merge_arrival: "merge_change (arrival c) cs = jar_put c cs"
  by (simp add: merge_change_def jar_put_def)

lemma merge_removal: "merge_change (removal k) cs = without_key k cs"
  by (simp add: merge_change_def)

interpretation profile: keyed_store key_of jar_shape "\<lambda>cs. cs"
  "\<lambda>c. merge_change (arrival c)" "\<lambda>k. merge_change (removal k)" MAX_NATIVE_COOKIE_PROFILE_ENTRIES
proof unfold_locales
  fix s :: "native_cookie_profile_entry list" and v
  assume "jar_shape s"
  show "merge_change (arrival v) s =
    (let kept = filter (\<lambda>x. key_of x \<noteq> key_of v) s
     in (if MAX_NATIVE_COOKIE_PROFILE_ENTRIES \<le> length kept then tl kept else kept) @ [v])"
    by (simp add: merge_change_def without_key_def)
qed (auto simp: entries_pos shape_facts shape_put merge_arrival merge_removal shape_without
    without_key_def[symmetric])

end
