(* ===== verification/Cookie_Invariant.thy ===== *)
theory Cookie_Invariant
  imports Cookie_Rules
begin

text \<open>
  The cookie jar stays sound: whatever sequence of responses, script writes, installed profiles,
  applied, committed and reconciled changes a loader takes, its jar has at most 128 cookies, one per
  name, domain and path, and every cookie has checked texts, an absolute path and attributes in their
  normal form.
\<close>

section \<open>A sound cookie\<close>

definition cookie_sound :: "native_cookie \<Rightarrow> bool" where
  "cookie_sound c \<longleftrightarrow>
     ck_name c \<noteq> [] \<and> valid_cookie_text (ck_name c) True \<and> valid_cookie_text (ck_value c) False \<and>
     CHR '';'' \<notin> set (ck_value c) \<and>
     length (ck_name c) + length (ck_value c) \<le> MAX_NATIVE_COOKIE_BYTES \<and>
     starts_with ''/'' (ck_path c) \<and>
     ck_same_site c \<in> {None, Some ''Strict'', Some ''Lax'', Some ''None''} \<and>
     (ck_same_site c = Some ''None'' \<longrightarrow> ck_secure c) \<and>
     ck_priority c \<in> {None, Some ''Low'', Some ''Medium'', Some ''High''} \<and>
     (ck_expires_at c = None \<longleftrightarrow> ck_expires_unix c = None)"

definition jar_sound :: "native_cookie list \<Rightarrow> bool" where
  "jar_sound jar \<longleftrightarrow> jar_shape jar \<and> list_all cookie_sound jar"

lemma normalize_same_site_form:
  "normalize_cookie_same_site v = Ok r \<Longrightarrow> r \<in> {None, Some ''Strict'', Some ''Lax'', Some ''None''}"
  by (auto simp: normalize_cookie_same_site_def split: option.splits if_splits)

lemma normalize_priority_form:
  "normalize_cookie_priority v = Ok r \<Longrightarrow> r \<in> {None, Some ''Low'', Some ''Medium'', Some ''High''}"
  by (auto simp: normalize_cookie_priority_def split: option.splits if_splits)

lemma none_spelling: "eq_ignore_ascii_case ''None'' ''none''"
  by code_simp

lemma none_but_insecure_None [simp]: "none_but_insecure (Some ''None'') secure \<longleftrightarrow> \<not> secure"
  by (simp add: none_but_insecure_def none_spelling)

lemma expiry_instant_None:
  "expiry_instant t e = Some x \<Longrightarrow> x = None \<longleftrightarrow> e = None"
  by (auto simp: expiry_instant_def split: option.splits)

lemma from_profile_Some:
  assumes "cookie_from_profile t p = Ok (Some c)"
  shows "\<exists>same_site priority expires_at. \<not> profile_text_invalid p \<and>
    normalize_cookie_same_site (ck_same_site p) = Ok same_site \<and>
    \<not> none_but_insecure same_site (ck_secure p) \<and>
    normalize_cookie_priority (ck_priority p) = Ok priority \<and>
    expiry_instant t (ck_expires_unix p) = Some expires_at \<and>
    \<not> expired_unix (ck_expires_unix p) t \<and> c = as_cookie p same_site priority expires_at"
  using assms by (auto simp: cookie_from_profile_def split: if_splits sum.splits option.splits)

lemma from_profile_sound: "cookie_from_profile t p = Ok (Some c) \<Longrightarrow> cookie_sound c"
proof -
  assume "cookie_from_profile t p = Ok (Some c)"
  then obtain ss pr ex where "\<not> profile_text_invalid p"
    "normalize_cookie_same_site (ck_same_site p) = Ok ss" "\<not> none_but_insecure ss (ck_secure p)"
    "normalize_cookie_priority (ck_priority p) = Ok pr"
    "expiry_instant t (ck_expires_unix p) = Some ex" "c = as_cookie p ss pr ex"
    using from_profile_Some by blast
  then show ?thesis
    using normalize_same_site_form[of "ck_same_site p" ss] normalize_priority_form[of "ck_priority p" pr]
      expiry_instant_None[of t "ck_expires_unix p" ex]
    by (auto simp: cookie_sound_def as_cookie_def profile_text_invalid_def)
qed

lemma from_profile_key: "cookie_from_profile t p = Ok (Some c) \<Longrightarrow> key_of c = key_of p"
  by (drule from_profile_Some) (auto simp: as_cookie_def key_of_def)

section \<open>Reading a line gives sound parts\<close>

lemma default_path_absolute: "starts_with ''/'' (default_cookie_path L url)"
proof (cases "url_path L url = [] \<or> url_path L url = ''/'' \<or> \<not> starts_with ''/'' (url_path L url)")
  case False
  have "starts_with ''/'' b" if "url_path L url = b @ CHR ''/'' # a" "b \<noteq> []" for a b
    using False that by (cases b) (auto simp: starts_with_iff)
  then show ?thesis
    using False by (auto simp: default_cookie_path_def rsplit_once_Some_iff starts_with_iff Let_def
        split: option.split)
qed (auto simp: default_cookie_path_def starts_with_iff)

lemma store_attribute_path:
  "store_attribute host x a = Some b \<Longrightarrow> starts_with ''/'' (at_path a) \<Longrightarrow> starts_with ''/'' (at_path b)"
  by (auto simp: store_attribute_def Let_def split: if_splits option.splits prod.splits)

lemma store_attributes_path:
  "store_attributes host xs a = Some b \<Longrightarrow> starts_with ''/'' (at_path a) \<Longrightarrow> starts_with ''/'' (at_path b)"
  by (induction xs arbitrary: a) (auto split: option.splits dest: store_attribute_path)

definition attributes_sound :: "cookie_attributes \<Rightarrow> bool" where
  "attributes_sound a \<longleftrightarrow> starts_with ''/'' (at_path a) \<and>
     at_same_site a \<in> {None, Some ''Strict'', Some ''Lax'', Some ''None''} \<and>
     (at_same_site a = Some ''None'' \<longrightarrow> at_secure a) \<and>
     at_priority a \<in> {None, Some ''Low'', Some ''Medium'', Some ''High''}"

lemma checked_attributes_sound:
  "checked_attributes L url a = Some b \<Longrightarrow> starts_with ''/'' (at_path a) \<Longrightarrow>
   attributes_sound b \<and> (at_secure b \<longrightarrow> eq_ignore_ascii_case (url_scheme L url) ''https'')"
  using normalize_same_site_form[of "at_same_site a"] normalize_priority_form[of "at_priority a"]
  by (fastforce simp: checked_attributes_def attributes_sound_def split: if_splits sum.splits)

lemma read_set_cookie_facts:
  assumes "read_set_cookie L url line = Some (name, value, b)"
  shows "name \<noteq> [] \<and> valid_cookie_text name True \<and> valid_cookie_text value False \<and>
    CHR '';'' \<notin> set value \<and> length name + length value \<le> MAX_NATIVE_COOKIE_BYTES \<and>
    attributes_sound b \<and> (at_secure b \<longrightarrow> eq_ignore_ascii_case (url_scheme L url) ''https'')"
proof -
  obtain h where h: "url_host_str L url = Some h"
    using assms by (cases "url_host_str L url") (auto simp: read_set_cookie_def)
  define host where "host = to_ascii_lowercase h"
  obtain pair attrs where pa: "(case split_once (CHR '';'') line of None \<Rightarrow> (line, []) | Some x \<Rightarrow> x) = (pair, attrs)"
    by (cases "case split_once (CHR '';'') line of None \<Rightarrow> (line, []) | Some x \<Rightarrow> x") auto
  have semi: "CHR '';'' \<notin> set pair"
    using pa by (auto simp: split_once_None_iff split_once_Some_iff split: option.splits)
  obtain n v where nv: "split_once (CHR ''='') (trim_bytes pair) = Some (n, v)"
    using assms h pa by (cases "split_once (CHR ''='') (trim_bytes pair)") (auto simp: read_set_cookie_def Let_def)
  have pv: "set v \<subseteq> set pair"
    using nv set_trim_bytes[of pair] by (auto simp: split_once_Some_iff)
  define init where "init = initial_attributes L url host"
  obtain a where a: "store_attributes host (split_on (CHR '';'') attrs) init = Some a"
      and b: "checked_attributes L url a = Some b" and eqs: "name = trim_bytes n" "value = trim_bytes v"
      and ok: "name \<noteq> []" "valid_cookie_text name True" "valid_cookie_text value False"
        "length name + length value \<le> MAX_NATIVE_COOKIE_BYTES"
    using assms h pa nv
    by (auto simp: read_set_cookie_def Let_def host_def init_def split: if_splits option.splits)
  have "starts_with ''/'' (at_path init)" by (simp add: init_def initial_attributes_def default_path_absolute)
  then have "starts_with ''/'' (at_path a)" using store_attributes_path[OF a] by blast
  then have "attributes_sound b \<and> (at_secure b \<longrightarrow> eq_ignore_ascii_case (url_scheme L url) ''https'')"
    by (rule checked_attributes_sound[OF b])
  moreover have "CHR '';'' \<notin> set value" using semi pv set_trim_bytes[of v] eqs by auto
  ultimately show ?thesis using ok by blast
qed

section \<open>Every operation keeps the jar sound\<close>

lemma sound_put [wf_intros]: "jar_sound jar \<Longrightarrow> cookie_sound c \<Longrightarrow> jar_sound (jar_put c jar)"
  using set_jar_put[of c jar] by (auto simp: jar_sound_def shape_put list_all_iff)

lemma sound_without [wf_intros]: "jar_sound jar \<Longrightarrow> jar_sound (without_key k jar)"
  by (auto simp: jar_sound_def shape_without list_all_iff without_key_iff)

lemma sound_set_cookie_profile [wf_intros]:
  "jar_sound (cookies s) \<Longrightarrow> cookie_sound c \<Longrightarrow> jar_sound (cookies (snd (set_cookie_profile t c s)))"
  by (cases "cookie_authority_enabled s")
    (auto simp: set_cookie_profile_eq jar_sound_def[of "cookies s"] sound_put[unfolded jar_sound_def[of "cookies s"]],
      simp add: set_cookie_profile_def jar_sound_def)

lemma sound_remove_cookie [wf_intros]:
  "jar_sound (cookies s) \<Longrightarrow> jar_sound (cookies (snd (remove_cookie k s)))"
  by (simp add: remove_cookie_def Let_def sound_without)

lemma cookies_log [simp]: "cookies (log_changes chs l) = cookies l"
  "cookie_authority_enabled (log_changes chs l) = cookie_authority_enabled l"
  by (simp_all add: log_changes_def)

lemma read_cookie_sound:
  assumes "read_set_cookie L url line = Some (name, value, a)"
    "expiry_instant t (ck_expires_unix (attribute_entry t name value a)) = Some e"
  shows "cookie_sound (as_cookie (attribute_entry t name value a) (at_same_site a) (at_priority a) e)"
  using read_set_cookie_facts[OF assms(1)] expiry_instant_None[OF assms(2)]
  by (simp add: cookie_sound_def as_cookie_def attribute_entry_def attributes_sound_def)

text \<open>The shape of a store: the jar with the cookie put into it, the change log that says so.\<close>

lemma store_read_cookie_eq:
  assumes s: "jar_shape (cookies s)"
  shows "store_read_cookie t name value a s =
    (let k = (name, at_domain a, at_path a); p = attribute_entry t name value a in
     if (case at_max_age a of Some age \<Rightarrow> age \<le> 0 | None \<Rightarrow> False) then
       (Ok (if list_ex (\<lambda>c. key_of c = k) (cookies s) then [removal k] else []),
        s\<lparr>cookies := without_key k (cookies s)\<rparr>)
     else
       (case expiry_instant t (ck_expires_unix p) of
          None \<Rightarrow> (Err Panic, s)
        | Some e \<Rightarrow>
            (Ok ((if MAX_NATIVE_COOKIE_PROFILE_ENTRIES \<le> length (without_key k (cookies s))
                  then [removal (key_of (hd (without_key k (cookies s))))] else []) @ [arrival p]),
             s\<lparr>cookies := jar_put (as_cookie p (at_same_site a) (at_priority a) e) (cookies s)\<rparr>)))"
proof -
  have k: "key_of (as_cookie (attribute_entry t name value a) ss pr e) = (name, at_domain a, at_path a)"
    for ss pr e by (simp add: as_cookie_def attribute_entry_def key_of_def)
  show ?thesis
    by (simp add: store_read_cookie_def Let_def jar_put_def k full_iff[OF s] cong: option.case_cong if_cong)
qed

lemma sound_store_cookie [wf_intros]:
  assumes "jar_sound (cookies s)"
  shows "jar_sound (cookies (snd (store_cookie L t url line s)))"
proof (cases "\<not> cookie_authority_enabled s \<or> MAX_NATIVE_COOKIE_BYTES < length line \<or>
    read_set_cookie L url line = None")
  case True
  then show ?thesis using assms by (auto simp: store_cookie_def)
next
  case False
  then obtain n v a where r: "read_set_cookie L url line = Some (n, v, a)" by auto
  then have "store_cookie L t url line s = store_read_cookie t n v a s"
    using False by (simp add: store_cookie_def)
  moreover have "jar_shape (cookies s)" using assms by (simp add: jar_sound_def)
  ultimately show ?thesis
    using assms by (auto simp: store_read_cookie_eq Let_def intro!: sound_put sound_without
        read_cookie_sound[OF r] split: option.splits)
qed

lemma sound_receive [wf_intros]:
  "jar_sound (cookies l) \<Longrightarrow> jar_sound (cookies (snd (receive_set_cookie L t url line l)))"
  using sound_store_cookie[of l L t url line]
  by (auto simp: receive_set_cookie_def split: prod.splits sum.splits)

lemma sound_script [wf_intros]:
  "jar_sound (cookies l) \<Longrightarrow> jar_sound (cookies (snd (set_document_cookie L t doc value l)))"
  by (auto simp: set_document_cookie_def intro: sound_receive split: sum.splits option.splits)

lemma sound_websocket_header:
  "jar_sound (cookies l) \<Longrightarrow> jar_sound (cookies (snd (websocket_header L t url h l)))"
  by (simp add: websocket_header_def sound_receive)

lemma sound_websocket [wf_intros]:
  "jar_sound (cookies l) \<Longrightarrow> jar_sound (cookies (snd (apply_websocket_response_cookies L t url hs l)))"
  by (auto simp: apply_websocket_response_cookies_def split: sum.splits
      intro: try_each_keeps[where P = "\<lambda>l. jar_sound (cookies l)"] sound_websocket_header)

lemma sound_install_profile:
  "jar_sound (cookies l) \<Longrightarrow> jar_sound (cookies (snd (install_profile t p l)))"
proof -
  assume l: "jar_sound (cookies l)"
  have "jar_sound (cookies (snd (set_cookie_profile t c l)))" if "cookie_from_profile t p = Ok (Some c)" for c
    using l that by (intro sound_set_cookie_profile from_profile_sound)
  moreover have "jar_sound (cookies (snd (remove_cookie (key_of p) l)))" using l by (rule sound_remove_cookie)
  ultimately show ?thesis using l
    by (fastforce simp: install_profile_def split: sum.splits option.splits prod.splits)
qed

lemma sound_set_profiles [wf_intros]:
  "jar_sound (cookies l) \<Longrightarrow> jar_sound (cookies (snd (set_cookie_profiles t ps l)))"
  by (auto simp: set_cookie_profiles_def
      intro: try_each_keeps[where P = "\<lambda>l. jar_sound (cookies l)"] sound_install_profile)

lemma sound_take_change:
  assumes l: "jar_sound (cookies l)"
  shows "jar_sound (cookies (snd (take_change t ch l)))"
proof -
  have "jar_sound (cookies (snd (set_cookie_profile t c l)))" if "cookie_from_profile t p = Ok (Some c)" for c p
    using l that by (intro sound_set_cookie_profile from_profile_sound)
  then show ?thesis using l
    by (fastforce simp: take_change_def sound_remove_cookie split: sum.splits option.splits prod.splits)
qed

lemma sound_apply_changes [wf_intros]:
  "jar_sound (cookies l) \<Longrightarrow> jar_sound (cookies (snd (apply_cookie_changes t chs l)))"
  by (auto simp: apply_cookie_changes_def
      intro: try_each_keeps[where P = "\<lambda>l. jar_sound (cookies l)"] sound_take_change)

lemma sound_apply_change:
  assumes s: "jar_sound (cookies s)"
  shows "jar_sound (cookies (snd (apply_change t ch s)))"
proof -
  have "jar_sound (cookies (snd (set_cookie_profile t c s)))" if "cookie_from_profile t p = Ok (Some c)" for c p
    using s that by (intro sound_set_cookie_profile from_profile_sound)
  then show ?thesis using s
    by (fastforce simp: apply_change_def sound_remove_cookie split: sum.splits option.splits prod.splits)
qed

lemma sound_jar_apply [wf_intros]:
  "jar_sound jar \<Longrightarrow> jar_sound (snd (jar_apply_changes t chs jar))"
  using try_each_keeps[where P = "\<lambda>s. jar_sound (cookies s)" and f = "apply_change t" and xs = chs
      and s = "\<lparr>cookie_authority_enabled = True, cookies = jar\<rparr>", OF sound_apply_change]
  by (auto simp: jar_apply_changes_def split: prod.splits)

lemma sound_commit [wf_intros]:
  "jar_sound (cookies l) \<Longrightarrow> jar_sound (cookies (snd (commit_staged_cookie_state t staged chs l)))"
  using sound_jar_apply[of "cookies l" t chs]
  by (auto simp: commit_staged_cookie_state_def split: prod.splits sum.splits)

lemma sound_reconcile [wf_intros]:
  assumes "jar_sound (cookies l)"
  shows "jar_sound (cookies (snd (snd (reconcile_pending_content_cookie_changes L t ws (pending, l)))))"
proof -
  let ?l = "l\<lparr>cookie_changes := []\<rparr>"
  have a: "jar_sound (cookies (snd (apply_cookie_changes t pending ?l)))"
    using assms by (intro sound_apply_changes) simp
  have "jar_sound (cookies (snd (try_each (\<lambda>(doc, v). set_document_cookie L t doc v) ws l')))"
    if "jar_sound (cookies l')" for l'
    using that by (intro try_each_keeps[where P = "\<lambda>l. jar_sound (cookies l)"])
      (auto intro: sound_script)
  then have w: "jar_sound (cookies l'')"
    if "jar_sound (cookies l')" "try_each (\<lambda>(doc, v). set_document_cookie L t doc v) ws l' = (r, l'')"
    for l' l'' r using that by (metis snd_conv)
  show ?thesis
    using a by (auto simp: reconcile_pending_content_cookie_changes_def take_cookie_changes_def
        restore_cookie_changes_def split: prod.splits sum.splits fault.splits elim!: w[rotated])
qed

section \<open>Any sequence of operations\<close>

datatype 'u cookie_event =
    Set_Cookie_Header cookie_clock 'u string
  | Script_Cookie cookie_clock string string
  | Websocket_Cookies cookie_clock 'u "string list"
  | Install_Profiles cookie_clock "native_cookie_profile_entry list"
  | Apply_Changes cookie_clock "native_cookie_change list"
  | Clear_Cookies
  | Take_Changes
  | Restore_Changes "native_cookie_change list"
  | Commit_Staged cookie_clock cookie_loader "native_cookie_change list"
  | Reconcile cookie_clock "(string \<times> string) list" "native_cookie_change list"

fun cookie_step :: "'u csp_lib \<Rightarrow> cookie_loader \<Rightarrow> 'u cookie_event \<Rightarrow> cookie_loader" where
  "cookie_step L l (Set_Cookie_Header t url line) = snd (receive_set_cookie L t url line l)"
| "cookie_step L l (Script_Cookie t doc v) = snd (set_document_cookie L t doc v l)"
| "cookie_step L l (Websocket_Cookies t url hs) = snd (apply_websocket_response_cookies L t url hs l)"
| "cookie_step L l (Install_Profiles t ps) = snd (set_cookie_profiles t ps l)"
| "cookie_step L l (Apply_Changes t chs) = snd (apply_cookie_changes t chs l)"
| "cookie_step L l Clear_Cookies = clear_cookies l"
| "cookie_step L l Take_Changes = snd (take_cookie_changes l)"
| "cookie_step L l (Restore_Changes chs) = restore_cookie_changes chs l"
| "cookie_step L l (Commit_Staged t staged chs) = snd (commit_staged_cookie_state t staged chs l)"
| "cookie_step L l (Reconcile t ws pending) =
     snd (snd (reconcile_pending_content_cookie_changes L t ws (pending, l)))"

lemma sound_clear [wf_intros]: "jar_sound (cookies l) \<Longrightarrow> jar_sound (cookies (clear_cookies l))"
  by (simp add: clear_cookies_def jar_sound_def jar_shape_def)

lemma cookie_step_sound: "jar_sound (cookies l) \<Longrightarrow> jar_sound (cookies (cookie_step L l e))"
  by (cases e) (auto intro: wf_intros simp: take_cookie_changes_def restore_cookie_changes_def)

interpretation browser: machine "cookie_step L" "\<lambda>l. jar_sound (cookies l)"
  by unfold_locales (rule cookie_step_sound)

section \<open>The jar a profile opens with\<close>

lemma push_profile_form:
  "push_profile t ps jar = Ok jar' \<Longrightarrow>
   \<exists>cs. jar' = jar @ cs \<and> list_all cookie_sound cs \<and>
     map key_of cs = map key_of (filter (\<lambda>p. \<not> expired_unix (ck_expires_unix p) t) ps)"
proof (induction ps arbitrary: jar)
  case (Cons p ps)
  show ?case
  proof (cases "cookie_from_profile t p")
    case (Inl e)
    then show ?thesis using Cons.prems by simp
  next
    case (Inr r)
    show ?thesis
    proof (cases r)
      case None
      then have "expired_unix (ck_expires_unix p) t"
        using Inr by (auto simp: cookie_from_profile_def split: if_splits sum.splits option.splits)
      then show ?thesis using Cons Inr None by simp
    next
      case (Some c)
      then have c: "cookie_sound c" "key_of c = key_of p" "\<not> expired_unix (ck_expires_unix p) t"
        using Inr from_profile_sound from_profile_key from_profile_Some by blast+
      obtain cs where "jar' = (jar @ [c]) @ cs" "list_all cookie_sound cs"
        "map key_of cs = map key_of (filter (\<lambda>p. \<not> expired_unix (ck_expires_unix p) t) ps)"
        using Cons.IH[of "jar @ [c]"] Cons.prems Inr Some by auto
      then show ?thesis using c by (intro exI[of _ "c # cs"]) simp
    qed
  qed
qed simp

lemma network_from_profile_sound:
  assumes "jar_shape ps" "network_from_profile t ps = Ok s"
  shows "jar_sound (cookies s) \<and> cookie_authority_enabled s"
proof -
  obtain jar where jar: "push_profile t ps [] = Ok jar" "s = \<lparr>cookie_authority_enabled = True, cookies = jar\<rparr>"
    using assms(2) by (auto simp: network_from_profile_def split: sum.splits)
  have "list_all cookie_sound jar"
    and k: "map key_of jar = map key_of (filter (\<lambda>p. \<not> expired_unix (ck_expires_unix p) t) ps)"
    using push_profile_form[OF jar(1)] by auto
  moreover have "jar_shape jar"
    using shape_filter[OF assms(1), of "\<lambda>p. \<not> expired_unix (ck_expires_unix p) t"] k
    by (simp add: jar_shape_def) (metis length_map)
  ultimately show ?thesis by (simp add: jar_sound_def jar(2))
qed

definition loader_of :: "cookie_network \<Rightarrow> cookie_loader" where
  "loader_of s = \<lparr>cookie_authority_enabled = cookie_authority_enabled s, cookies = cookies s,
     cookie_changes = []\<rparr>"

end
