(* ===== verification/Cookie_Sync.thy ===== *)
theory Cookie_Sync
  imports Cookie_Rules
begin

text \<open>
  Keeping copies of the cookies in step: what the validation of a profile means, that the difference
  of two profiles merged into the first gives the second, that keeping one change per cookie changes
  nothing, and that the changes an operation logs give the same jar when they are applied to another
  copy.
\<close>

section \<open>What the validation means\<close>

definition entry_ok :: "native_cookie_profile_entry \<Rightarrow> bool" where
  "entry_ok c \<longleftrightarrow> validate_cookie_profile_entry c = Ok ()"

definition change_ok :: "native_cookie_change \<Rightarrow> bool" where
  "change_ok ch \<longleftrightarrow>
     (case cc_cookie ch of None \<Rightarrow> True | Some c \<Rightarrow> key_of c = change_key ch \<and> entry_ok c)"

lemma validate_entries_iff: "validate_entries cs = Ok () \<longleftrightarrow> list_all entry_ok cs"
  by (induction cs) (auto simp: res_bind_Inr_iff entry_ok_def)

lemma duplicate_iff:
  "(\<exists>i < length cs. \<exists>p \<in> set (take i cs). f p = f (cs ! i)) \<longleftrightarrow> \<not> distinct (map f cs)"
proof
  assume "\<exists>i < length cs. \<exists>p \<in> set (take i cs). f p = f (cs ! i)"
  then obtain i j where "i < length cs" "j < i" "f (cs ! j) = f (cs ! i)"
    by (auto simp: in_set_conv_nth)
  then have "map f cs ! j = map f cs ! i" "i < length (map f cs)" "j < length (map f cs)" "i \<noteq> j"
    by simp_all
  then show "\<not> distinct (map f cs)" using nth_eq_iff_index_eq by metis
next
  assume "\<not> distinct (map f cs)"
  then obtain i j where ij: "i < length cs" "j < length cs" "i \<noteq> j" "f (cs ! i) = f (cs ! j)"
    by (auto simp: distinct_conv_nth)
  have "\<exists>p \<in> set (take b cs). f p = f (cs ! b)"
    if "a < b" "b < length cs" "f (cs ! a) = f (cs ! b)" for a b
    using that by (intro bexI[of _ "cs ! a"]) (auto simp: in_set_conv_nth)
  then show "\<exists>i < length cs. \<exists>p \<in> set (take i cs). f p = f (cs ! i)"
    using ij by (metis linorder_neqE_nat)
qed

lemma validate_profile_iff:
  "validate_cookie_profile cs = Ok () \<longleftrightarrow> jar_shape cs \<and> list_all entry_ok cs"
proof -
  have "list_ex (\<lambda>i. list_ex (\<lambda>p. key_of p = key_of (cs ! i)) (take i cs)) [0 ..< length cs]
      \<longleftrightarrow> \<not> distinct (map key_of cs)"
    using duplicate_iff[of cs key_of] by (auto simp: list_ex_iff)
  then show ?thesis
    by (auto simp: validate_cookie_profile_def jar_shape_def res_bind_Inr_iff validate_entries_iff)
qed

section \<open>Merging is a run of edits\<close>

definition edit_of :: "native_cookie_change \<Rightarrow> (cookie_key, native_cookie_profile_entry) edit" where
  "edit_of ch = (change_key ch, cc_cookie ch)"

lemma edit_of_simps [simp]: "fst (edit_of ch) = change_key ch" "snd (edit_of ch) = cc_cookie ch"
  by (simp_all add: edit_of_def)

lemma ok_keyed: "change_ok ch \<Longrightarrow> profile.keyed (edit_of ch)"
  by (auto simp: change_ok_def split: option.splits)

lemma merge_change_edit: "change_ok ch \<Longrightarrow> merge_change ch cs = profile.edit (edit_of ch) cs"
  by (auto simp: change_ok_def merge_change_def split: option.splits)

lemma merge_changes_run:
  "list_all change_ok chs \<Longrightarrow> merge_changes chs cs = Ok (profile.run (map edit_of chs) cs)"
proof (induction chs arbitrary: cs)
  case (Cons ch chs)
  then have "merge_changes (ch # chs) cs = merge_changes chs (merge_change ch cs)"
    by (auto simp: change_ok_def change_key_matches_def entry_ok_def split: option.splits)
  then show ?case using Cons by (simp add: merge_change_edit)
qed simp

lemma run_keeps_entries:
  "list_all change_ok chs \<Longrightarrow> list_all entry_ok cs \<Longrightarrow>
   list_all entry_ok (profile.run (map edit_of chs) cs)"
proof (induction chs arbitrary: cs)
  case (Cons ch chs)
  have "list_all entry_ok (merge_change ch cs)"
    using Cons.prems set_tl_subset[of "without_key (change_key ch) cs"]
    by (auto simp: list_all_iff change_ok_def merge_change_def without_key_iff Let_def
        split: option.splits if_splits)
  moreover have "merge_change ch cs = profile.edit (edit_of ch) cs"
    using Cons.prems(1) by (simp add: merge_change_edit)
  ultimately show ?case using Cons by simp
qed simp

lemma merge_cookie_changes_run:
  assumes "jar_shape cs" "list_all entry_ok cs" "list_all change_ok chs"
  shows "merge_cookie_changes cs chs = Ok (profile.run (map edit_of chs) cs)"
  using assms profile.inv_run[of cs "map edit_of chs"] run_keeps_entries[of chs cs]
    validate_profile_iff[of "profile.run (map edit_of chs) cs"]
  by (simp add: merge_cookie_changes_def merge_changes_run)

text \<open>Two profiles with one entry per key that answer every lookup alike are permutations.\<close>

lemma same_lookups_perm:
  assumes "jar_shape cs" "jar_shape ds" "profile.get cs = profile.get ds"
  shows "mset cs = mset ds"
proof -
  have "x \<in> set cs \<longleftrightarrow> x \<in> set ds" for x
    using profile.get_iff[OF assms(1), of "key_of x" x] profile.get_iff[OF assms(2), of "key_of x" x]
      fun_cong[OF assms(3), of "key_of x"] by auto
  then have "set cs = set ds" by blast
  moreover have "distinct cs" "distinct ds"
    using assms(1,2) by (auto dest: shape_facts(1) simp: distinct_map)
  ultimately show ?thesis by (simp add: set_eq_iff_mset_eq_distinct)
qed

section \<open>The difference of two profiles\<close>

lemma change_at_simps [simp]: "change_key (change_at k c) = k" "cc_cookie (change_at k c) = c"
  by (cases k; simp add: change_at_def change_key_def)+

lemma edit_of_change_at [simp]: "edit_of (change_at k c) = (k, c)"
  by (simp add: edit_of_def)

definition leaving_edits ::
  "native_cookie_profile_entry list \<Rightarrow> native_cookie_profile_entry list \<Rightarrow>
   (cookie_key, native_cookie_profile_entry) edit list" where
  "leaving_edits before after =
     map (\<lambda>c. (key_of c, find_key (key_of c) after))
       (filter (\<lambda>c. find_key (key_of c) after \<noteq> Some c) before)"

definition arriving_edits ::
  "native_cookie_profile_entry list \<Rightarrow> native_cookie_profile_entry list \<Rightarrow>
   (cookie_key, native_cookie_profile_entry) edit list" where
  "arriving_edits before after =
     map (\<lambda>c. (key_of c, Some c)) (filter (\<lambda>c. \<not> list_ex (\<lambda>b. key_of b = key_of c) before) after)"

lemma diff_edits:
  "map edit_of (diff_cookie_profiles before after) = leaving_edits before after @ arriving_edits before after"
  by (simp add: diff_cookie_profiles_def leaving_edits_def arriving_edits_def o_def)

lemma get_find_key: "profile.get cs k = find_key k cs"
  by (simp add: find_key_def)

lemma find_key_Some: "find_key k cs = Some c \<Longrightarrow> c \<in> set cs \<and> key_of c = k"
  by (auto simp: find_key_def find_Some_iff)

lemma find_key_mem:
  fixes cs :: "native_cookie_profile_entry list"
  shows "jar_shape cs \<Longrightarrow> c \<in> set cs \<Longrightarrow> find_key (key_of c) cs = Some c"
  using profile.get_iff[of cs "key_of c" c] by (simp add: find_key_def)

lemma find_key_None: "find_key k cs = None \<longleftrightarrow> k \<notin> key_of ` set cs"
  by (auto simp: find_key_def find_None_iff)

lemma diff_change_ok:
  "list_all entry_ok after \<Longrightarrow> list_all change_ok (diff_cookie_profiles before after)"
  by (auto simp: diff_cookie_profiles_def list_all_iff change_ok_def split: option.split dest!: find_key_Some)

lemma leaving_keys: "fst ` set (leaving_edits before after) \<subseteq> key_of ` set before"
  by (auto simp: leaving_edits_def)

lemma arriving_keys:
  "fst ` set (arriving_edits before after) = key_of ` set after - key_of ` set before"
  by (auto simp: arriving_edits_def list_ex_iff image_iff) metis

lemma distinct_leaving: "jar_shape before \<Longrightarrow> distinct (map fst (leaving_edits before after))"
  by (auto simp: leaving_edits_def o_def intro: distinct_map_filter dest: shape_facts)

lemma distinct_arriving: "jar_shape after \<Longrightarrow> distinct (map fst (arriving_edits before after))"
  by (auto simp: arriving_edits_def o_def intro: distinct_map_filter dest: shape_facts)

lemma override_leaving:
  assumes b: "jar_shape before"
  shows "override (leaving_edits before after) (profile.get before) k =
    (if k \<in> key_of ` set before then find_key k after else None)"
proof (cases "k \<in> key_of ` set before")
  case True
  then obtain c where c: "c \<in> set before" "key_of c = k" by auto
  show ?thesis
  proof (cases "find_key k after = Some c")
    case True
    have "k \<notin> fst ` set (leaving_edits before after)"
    proof
      assume "k \<in> fst ` set (leaving_edits before after)"
      then obtain d where d: "d \<in> set before" "key_of d = k" "find_key k after \<noteq> Some d"
        by (auto simp: leaving_edits_def)
      then have "d = c" using find_key_mem[OF b d(1)] find_key_mem[OF b c(1)] c(2) by simp
      then show False using d True by simp
    qed
    then show ?thesis
      using c True find_key_mem[OF b c(1)] by (auto simp: override_untouched get_find_key)
  next
    case False
    then have "(k, find_key k after) \<in> set (leaving_edits before after)"
      using c by (auto simp: leaving_edits_def image_iff)
    then have "override (leaving_edits before after) (profile.get before) k = find_key k after"
      by (rule override_member[OF distinct_leaving[OF b]])
    then show ?thesis using \<open>k \<in> key_of ` set before\<close> by simp
  qed
next
  case False
  then have "k \<notin> fst ` set (leaving_edits before after)" using leaving_keys[of before after] by blast
  then show ?thesis using False by (simp add: override_untouched find_key_None flip: find_key_def)
qed

lemma override_diff:
  assumes b: "jar_shape before" and a: "jar_shape after"
  shows "override (map edit_of (diff_cookie_profiles before after)) (profile.get before) = profile.get after"
proof
  fix k
  let ?m = "override (leaving_edits before after) (profile.get before)"
  show "override (map edit_of (diff_cookie_profiles before after)) (profile.get before) k = profile.get after k"
  proof (cases "k \<in> key_of ` set after - key_of ` set before")
    case True
    then obtain c where c: "c \<in> set after" "key_of c = k" "k \<notin> key_of ` set before" by blast
    then have "(k, Some c) \<in> set (arriving_edits before after)"
      by (auto simp: arriving_edits_def list_ex_iff image_iff)
    then show ?thesis
      using override_member[OF distinct_arriving[OF a]] find_key_mem[OF a c(1)] c(2)
      by (simp add: diff_edits override_append get_find_key)
  next
    case False
    then have "k \<notin> fst ` set (arriving_edits before after)" by (simp add: arriving_keys)
    then have "override (map edit_of (diff_cookie_profiles before after)) (profile.get before) k = ?m k"
      by (simp add: diff_edits override_append override_untouched)
    also have "\<dots> = find_key k after"
      using False find_key_None[of k after] by (auto simp: override_leaving[OF b])
    finally show ?thesis by (simp add: get_find_key)
  qed
qed

lemma fits_diff:
  assumes b: "jar_shape before" and a: "jar_shape after"
  shows "fits MAX_NATIVE_COOKIE_PROFILE_ENTRIES (map edit_of (diff_cookie_profiles before after))
    (profile.get before)"
proof -
  let ?m = "override (leaving_edits before after) (profile.get before)"
  have dom: "dom (profile.get cs) = key_of ` set cs" for cs
    using profile.dom_get[of cs] by simp
  have card: "card (key_of ` set cs) \<le> MAX_NATIVE_COOKIE_PROFILE_ENTRIES"
    if "jar_shape cs" for cs :: "native_cookie_profile_entry list"
    by (metis card_length le_trans length_map set_map shape_facts(2) that)
  have "fits MAX_NATIVE_COOKIE_PROFILE_ENTRIES (leaving_edits before after) (profile.get before)"
    using leaving_keys[of before after] card[OF b]
    by (intro fits_bounded_keys profile.finite_dom_get) (simp only: dom Un_absorb2)
  moreover have m: "dom ?m \<subseteq> key_of ` set after"
  proof
    fix k assume "k \<in> dom ?m"
    then obtain c where "find_key k after = Some c" by (auto simp: override_leaving[OF b] split: if_splits)
    then show "k \<in> key_of ` set after" by (auto dest!: find_key_Some)
  qed
  have "dom ?m \<union> fst ` set (arriving_edits before after) \<subseteq> key_of ` set after"
    using m by (auto simp: arriving_keys)
  then have "card (dom ?m \<union> fst ` set (arriving_edits before after)) \<le> MAX_NATIVE_COOKIE_PROFILE_ENTRIES"
    using card[OF a] by (meson List.finite_set card_mono finite_imageI le_trans)
  then have "fits MAX_NATIVE_COOKIE_PROFILE_ENTRIES (arriving_edits before after) ?m"
    using finite_subset[OF m] by (intro fits_bounded_keys) simp_all
  ultimately show ?thesis by (simp add: diff_edits fits_append)
qed

text \<open>Claim C19. The changes that lead from one stored cookie profile to another do: for two valid
  profiles, merging the difference into the first succeeds without evicting anything and gives the
  entries of the second, each once.\<close>

theorem diff_then_merge:
  assumes "validate_cookie_profile before = Ok ()" and "validate_cookie_profile after = Ok ()"
  shows "\<exists>cs. merge_cookie_changes before (diff_cookie_profiles before after) = Ok cs \<and> mset cs = mset after"
proof -
  let ?chs = "diff_cookie_profiles before after"
  have b: "jar_shape before" "list_all entry_ok before" and a: "jar_shape after" "list_all entry_ok after"
    using assms by (simp_all add: validate_profile_iff)
  have ok: "list_all change_ok ?chs" using a(2) by (rule diff_change_ok)
  then have keyed: "list_all profile.keyed (map edit_of ?chs)"
    by (auto simp: list_all_iff change_ok_def split: option.splits)
  let ?cs = "profile.run (map edit_of ?chs) before"
  have "profile.get ?cs = profile.get after"
    using profile.run_fits[OF b(1) keyed fits_diff[OF b(1) a(1)]] override_diff[OF b(1) a(1)] by simp
  then have "mset ?cs = mset after"
    using profile.inv_run[OF b(1)] a(1) by (intro same_lookups_perm)
  then show ?thesis using merge_cookie_changes_run[OF b ok] by blast
qed

section \<open>One change per cookie\<close>

lemma replace_change_None: "replace_change ch batch = None \<longleftrightarrow> change_key ch \<notin> change_key ` set batch"
  by (induction batch) auto

lemma replace_change_keys:
  "replace_change ch batch = Some batch' \<Longrightarrow> map change_key batch' = map change_key batch"
  by (induction batch arbitrary: batch') (auto split: if_splits)

lemma replace_change_set:
  "replace_change ch batch = Some batch' \<Longrightarrow> set batch' \<subseteq> insert ch (set batch)"
  by (induction batch arbitrary: batch') (auto split: if_splits)

lemma replace_change_override:
  "replace_change ch batch = Some batch' \<Longrightarrow> distinct (map change_key batch) \<Longrightarrow>
   override (map edit_of batch') m k = override (map edit_of (batch @ [ch])) m k"
proof (induction batch arbitrary: batch' m)
  case (Cons x xs)
  show ?case
  proof (cases "change_key x = change_key ch")
    case True
    then have b: "batch' = ch # xs" using Cons.prems(1) by simp
    have no: "change_key ch \<notin> fst ` set (map edit_of xs)" using Cons.prems(2) True by auto
    show ?thesis
    proof (cases "k = change_key ch")
      case True
      then show ?thesis using no by (simp add: b override_append override_untouched edit_map_def)
    next
      case False
      then have "override (map edit_of xs) (edit_map (edit_of ch) m) k =
          override (map edit_of xs) (edit_map (edit_of x) m) k"
        using True by (intro override_cong) (simp add: edit_map_def)
      then show ?thesis using False by (simp add: b override_append edit_map_def)
    qed
  next
    case False
    then show ?thesis using Cons by (auto split: if_splits)
  qed
qed simp

text \<open>A batch holds one change per key and means what all the changes in turn mean.\<close>

lemma batch_changes_meaning:
  assumes "batch_changes r chs batch = (Ok (), merged)" "distinct (map change_key batch)"
    "length batch \<le> MAX_NATIVE_COOKIE_CHANGE_BATCH"
  shows "distinct (map change_key merged) \<and> length merged \<le> MAX_NATIVE_COOKIE_CHANGE_BATCH \<and>
    set merged \<subseteq> set batch \<union> set chs \<and>
    override (map edit_of merged) m = override (map edit_of (batch @ chs)) m"
  using assms
proof (induction chs arbitrary: batch)
  case (Cons ch chs)
  show ?case
  proof (cases "replace_change ch batch")
    case None
    then have room: "length batch < MAX_NATIVE_COOKIE_CHANGE_BATCH"
      using Cons.prems(1) by (auto split: if_splits)
    have "distinct (map change_key (batch @ [ch]))"
      using None Cons.prems(2) by (auto simp: replace_change_None)
    then show ?thesis using Cons.IH[of "batch @ [ch]"] Cons.prems(1) None room by auto
  next
    case (Some b)
    have k: "map change_key b = map change_key batch" using Some by (rule replace_change_keys)
    then have "length b = length batch" by (metis length_map)
    then have IH: "distinct (map change_key merged) \<and> length merged \<le> MAX_NATIVE_COOKIE_CHANGE_BATCH \<and>
        set merged \<subseteq> set b \<union> set chs \<and> override (map edit_of merged) m = override (map edit_of (b @ chs)) m"
      using Cons.IH[of b] Cons.prems Some k by simp
    have "override (map edit_of b) m = override (map edit_of (batch @ [ch])) m"
      using replace_change_override[OF Some Cons.prems(2)] by blast
    then have "override (map edit_of (b @ chs)) m = override (map edit_of (batch @ ch # chs)) m"
      by (simp add: override_append)
    then show ?thesis using IH replace_change_set[OF Some] by auto
  qed
qed auto

text \<open>A batch that starts with room for every key is never refused.\<close>

lemma batch_changes_accepts:
  assumes "distinct (map change_key batch)"
    "card (change_key ` (set batch \<union> set chs)) \<le> MAX_NATIVE_COOKIE_CHANGE_BATCH"
  shows "\<exists>merged. batch_changes r chs batch = (Ok (), merged)"
  using assms
proof (induction chs arbitrary: batch)
  case (Cons ch chs)
  show ?case
  proof (cases "replace_change ch batch")
    case None
    then have new: "change_key ch \<notin> change_key ` set batch" by (simp add: replace_change_None)
    have "length batch = card (change_key ` set batch)"
      using Cons.prems(1) by (metis distinct_card length_map set_map)
    moreover have "card (insert (change_key ch) (change_key ` set batch)) \<le>
        card (change_key ` (set batch \<union> set (ch # chs)))"
      by (intro card_mono) auto
    ultimately have room: "length batch < MAX_NATIVE_COOKIE_CHANGE_BATCH"
      using new Cons.prems(2) by simp
    show ?thesis using Cons.IH[of "batch @ [ch]"] Cons.prems None room new by simp
  next
    case (Some b)
    have k: "map change_key b = map change_key batch" using Some by (rule replace_change_keys)
    then have "change_key ` set b = change_key ` set batch" by (metis set_map)
    then have "change_key ` (set b \<union> set chs) \<subseteq> change_key ` (set batch \<union> set (ch # chs))" by auto
    then have "card (change_key ` (set b \<union> set chs)) \<le> MAX_NATIVE_COOKIE_CHANGE_BATCH"
      using Cons.prems(2) by (meson List.finite_set card_mono finite_UnI finite_imageI le_trans)
    then show ?thesis using Cons.IH[of b] Cons.prems(1) Some k by simp
  qed
qed simp

lemma merge_changes_ok: "merge_changes chs cs = Ok p \<Longrightarrow> list_all change_ok chs"
proof (induction chs arbitrary: cs)
  case (Cons ch chs)
  show ?case
  proof (cases "cc_cookie ch")
    case None
    then show ?thesis using Cons by (auto simp: change_ok_def)
  next
    case (Some c)
    then show ?thesis
      using Cons by (auto simp: change_ok_def change_key_matches_def entry_ok_def res_bind_Inr_iff split: if_splits)
  qed
qed simp

lemma merge_lookups:
  assumes "jar_shape cs" "list_all entry_ok cs" "list_all change_ok chs"
    "card (key_of ` set cs \<union> change_key ` set chs) \<le> MAX_NATIVE_COOKIE_PROFILE_ENTRIES"
  shows "\<exists>p. merge_cookie_changes cs chs = Ok p \<and> jar_shape p \<and>
    profile.get p = override (map edit_of chs) (profile.get cs)"
proof -
  have "list_all profile.keyed (map edit_of chs)"
    using assms(3) by (auto simp: list_all_iff change_ok_def split: option.splits)
  moreover have "fst ` set (map edit_of chs) = change_key ` set chs" by force
  then have "fits MAX_NATIVE_COOKIE_PROFILE_ENTRIES (map edit_of chs) (profile.get cs)"
    using assms(4) by (intro fits_bounded_keys profile.finite_dom_get) (simp add: profile.dom_get)
  ultimately show ?thesis
    using merge_cookie_changes_run[OF assms(1-3)] profile.inv_run[OF assms(1)] profile.run_fits[OF assms(1)]
    by blast
qed

text \<open>Claim C20. Keeping only the last change of each cookie is safe: whenever a list of changes merges
  into a valid profile and all the keys together fit the bound, the coalesced batch is accepted, has
  one change per cookie and merges into the same entries.\<close>

theorem coalescing_loses_nothing:
  assumes "validate_cookie_profile before = Ok ()" and "merge_cookie_changes before chs = Ok p"
    and "card (key_of ` set before \<union> change_key ` set chs) \<le> MAX_NATIVE_COOKIE_PROFILE_ENTRIES"
  shows "\<exists>cs q. coalesce_cookie_changes operation chs = Ok cs \<and> distinct (map change_key cs) \<and>
    merge_cookie_changes before cs = Ok q \<and> mset q = mset p"
proof -
  have b: "jar_shape before" "list_all entry_ok before" using assms(1) by (simp_all add: validate_profile_iff)
  have ok: "list_all change_ok chs"
    using assms(2) by (auto simp: merge_cookie_changes_def res_bind_Inr_iff intro: merge_changes_ok)
  have "card (change_key ` set chs) \<le> card (key_of ` set before \<union> change_key ` set chs)"
    by (intro card_mono) auto
  then have "card (change_key ` (set [] \<union> set chs)) \<le> MAX_NATIVE_COOKIE_CHANGE_BATCH"
    using assms(3) by (simp add: MAX_NATIVE_COOKIE_CHANGE_BATCH_def)
  then obtain cs where cs: "batch_changes operation chs [] = (Ok (), cs)"
    using batch_changes_accepts[of "[]" chs operation] by auto
  have m: "distinct (map change_key cs)" "set cs \<subseteq> set chs"
    "override (map edit_of cs) m = override (map edit_of chs) m" for m
    using batch_changes_meaning[OF cs] by auto
  have cs_ok: "list_all change_ok cs" using ok m(2) by (auto simp: list_all_iff)
  have "key_of ` set before \<union> change_key ` set cs \<subseteq> key_of ` set before \<union> change_key ` set chs"
    using m(2) by auto
  then have "card (key_of ` set before \<union> change_key ` set cs) \<le> MAX_NATIVE_COOKIE_PROFILE_ENTRIES"
    using assms(3) by (meson List.finite_set card_mono finite_UnI finite_imageI le_trans)
  then obtain q where q: "merge_cookie_changes before cs = Ok q" "jar_shape q"
    "profile.get q = override (map edit_of cs) (profile.get before)"
    using merge_lookups[OF b cs_ok] by blast
  have p: "jar_shape p" "profile.get p = override (map edit_of chs) (profile.get before)"
    using merge_lookups[OF b ok assms(3)] assms(2) by auto
  have "mset q = mset p" using q p m(3) by (intro same_lookups_perm) auto
  then show ?thesis
    using cs q(1) m(1) by (auto simp: coalesce_cookie_changes_def merge_cookie_change_batch_def)
qed

end
