(* ===== verification/Cookie_Sending.thy ===== *)
theory Cookie_Sending
  imports Cookie_Jar
begin

text \<open>
  What a request carries and what a script reads. A cookie may travel under conditions stated without
  the code's string functions; the header is the longest prefix that fits of those cookies in their
  order; and a cookie that may not travel has no influence on it.
\<close>

section \<open>The conditions\<close>

text \<open>A host is within a domain when it is the domain or one of its subdomains.\<close>

definition host_within :: "string \<Rightarrow> string \<Rightarrow> bool" where
  "host_within host domain \<longleftrightarrow> host = domain \<or> (\<exists>sub. host = sub @ ''.'' @ domain)"

text \<open>A path is within another when it continues it at a slash.\<close>

definition path_within :: "string \<Rightarrow> string \<Rightarrow> bool" where
  "path_within path root \<longleftrightarrow>
     path = root \<or> (\<exists>rest. path = root @ rest \<and>
       (root \<noteq> [] \<and> last root = CHR ''/'' \<or> rest \<noteq> [] \<and> hd rest = CHR ''/''))"

definition may_travel ::
  "'u csp_lib \<Rightarrow> cookie_clock \<Rightarrow> 'u \<Rightarrow> bool \<Rightarrow> 'u option \<Rightarrow> bool \<Rightarrow> cookie_method \<Rightarrow> native_cookie \<Rightarrow> bool" where
  "may_travel L t url include_http_only initiator_url top_level_navigation meth c \<longleftrightarrow>
     (\<exists>h. url_host_str L url = Some h \<and>
        (if ck_host_only c then to_ascii_lowercase h = ck_domain c
         else host_within (to_ascii_lowercase h) (ck_domain c))) \<and>
     path_within (request_path_of L url) (ck_path c) \<and>
     (ck_secure c \<longrightarrow> eq_ignore_ascii_case (url_scheme L url) ''https'') \<and>
     (ck_http_only c \<longrightarrow> include_http_only) \<and>
     (\<forall>e. ck_expires_at c = Some e \<longrightarrow> now_instant t < e) \<and>
     (case cookie_same_site (ck_same_site c) of
        SameSite_None \<Rightarrow> True
      | SameSite_Strict \<Rightarrow> same_site_request L url initiator_url
      | SameSite_Lax \<Rightarrow> same_site_request L url initiator_url \<or>
                          top_level_navigation \<and> is_safe_cookie_method meth)"

lemma host_matches_domain_iff: "host_matches_domain host domain \<longleftrightarrow> host_within host domain"
proof -
  have "(case strip_suffix domain host of Some p \<Rightarrow> ends_with ''.'' p | None \<Rightarrow> False) \<longleftrightarrow>
      (\<exists>p. host = p @ domain \<and> ends_with ''.'' p)"
    by (auto simp: strip_suffix_def ends_with_iff[of domain])
  also have "\<dots> \<longleftrightarrow> (\<exists>sub. host = sub @ ''.'' @ domain)"
    by (auto simp: ends_with_iff)
  finally show ?thesis by (simp add: host_matches_domain_def host_within_def)
qed

lemma domain_matches_iff:
  "domain_matches c host \<longleftrightarrow> (if ck_host_only c then host = ck_domain c else host_within host (ck_domain c))"
  by (auto simp: domain_matches_def host_matches_domain_iff host_within_def)

lemma path_matches_iff: "path_matches path root \<longleftrightarrow> path_within path root"
proof -
  have "byte_at (length root) (root @ rest) b \<longleftrightarrow> rest \<noteq> [] \<and> hd rest = b" for rest b
    by (cases rest) (auto simp: byte_at_def nth_append)
  then show ?thesis
    by (auto simp: path_matches_def path_within_def starts_with_iff ends_with_single)
qed

lemma eligible_iff:
  "(\<exists>h. url_host_str L url = Some h \<and>
      cookie_eligible t (to_ascii_lowercase h) (request_path_of L url)
        (eq_ignore_ascii_case (url_scheme L url) ''https'') include_http_only c) \<and>
   cookie_same_site_allows L c url initiator_url top_level_navigation meth \<longleftrightarrow>
   may_travel L t url include_http_only initiator_url top_level_navigation meth c"
  by (auto simp: may_travel_def cookie_eligible_def domain_matches_iff path_matches_iff
      cookie_same_site_allows_def Let_def split: option.splits native_cookie_same_site.splits if_splits)

section \<open>The header\<close>

fun cookie_text :: "native_cookie list \<Rightarrow> string" where
  "cookie_text [] = []"
| "cookie_text [c] = cookie_pair c"
| "cookie_text (c # cs) = cookie_pair c @ ''; '' @ cookie_text cs"

lemma cookie_pair_nonempty [simp]: "cookie_pair c \<noteq> []"
  by (simp add: cookie_pair_def)

lemma cookie_text_Cons: "cs \<noteq> [] \<Longrightarrow> cookie_text (c # cs) = cookie_pair c @ ''; '' @ cookie_text cs"
  by (cases cs) auto

lemma cookie_text_Nil [simp]: "cookie_text cs = [] \<longleftrightarrow> cs = []"
  by (induction cs rule: cookie_text.induct) auto

lemma cookie_text_snoc:
  "cookie_text (cs @ [c]) = (if cs = [] then [] else cookie_text cs @ ''; '') @ cookie_pair c"
proof (induction cs)
  case (Cons d cs)
  then show ?case by (cases "cs = []") (simp_all add: cookie_text_Cons)
qed simp

lemma header_loop_prefix:
  "\<exists>n \<le> length cs. header_loop (cookie_text d) cs = cookie_text (d @ take n cs) \<and>
     (length (cookie_text d) \<le> MAX_NATIVE_COOKIE_BYTES \<longrightarrow>
      length (cookie_text (d @ take n cs)) \<le> MAX_NATIVE_COOKIE_BYTES) \<and>
     (n = length cs \<or> MAX_NATIVE_COOKIE_BYTES < length (cookie_text (d @ take (Suc n) cs)))"
proof (induction cs arbitrary: d)
  case (Cons c cs)
  show ?case
  proof (cases "MAX_NATIVE_COOKIE_BYTES < length (cookie_text (d @ [c]))")
    case True
    then have "header_loop (cookie_text d) (c # cs) = cookie_text d"
      by (auto simp: cookie_text_snoc Let_def split: if_splits)
    then show ?thesis using True by (intro exI[of _ 0]) simp
  next
    case False
    then have step: "header_loop (cookie_text d) (c # cs) = header_loop (cookie_text (d @ [c])) cs"
      by (auto simp: cookie_text_snoc Let_def split: if_splits)
    obtain n where n: "n \<le> length cs"
      "header_loop (cookie_text (d @ [c])) cs = cookie_text ((d @ [c]) @ take n cs)"
      "length (cookie_text (d @ [c])) \<le> MAX_NATIVE_COOKIE_BYTES \<longrightarrow>
       length (cookie_text ((d @ [c]) @ take n cs)) \<le> MAX_NATIVE_COOKIE_BYTES"
      "n = length cs \<or> MAX_NATIVE_COOKIE_BYTES < length (cookie_text ((d @ [c]) @ take (Suc n) cs))"
      using Cons.IH by blast
    show ?thesis using n False step by (intro exI[of _ "Suc n"]) auto
  qed
qed simp

text \<open>The cookies a request's loop works through, in their order.\<close>

definition travellers ::
  "'u csp_lib \<Rightarrow> cookie_clock \<Rightarrow> 'a cookie_network_scheme \<Rightarrow> 'u \<Rightarrow> bool \<Rightarrow> 'u option \<Rightarrow> bool \<Rightarrow>
   cookie_method \<Rightarrow> native_cookie list" where
  "travellers L t s url include_http_only initiator_url top_level_navigation meth =
     (if cookie_authority_enabled s
      then sort_key cookie_rank
             (filter (may_travel L t url include_http_only initiator_url top_level_navigation meth) (cookies s))
      else [])"

lemma header_travellers:
  "cookie_header_with_visibility L t s url hid ini nav m =
     (let header = header_loop [] (travellers L t s url hid ini nav m) in
      if header \<noteq> [] then Some header else None)"
proof -
  have none: "may_travel L t url hid ini nav m = (\<lambda>_. False)" if "url_host_str L url = None"
    using that by (auto simp: may_travel_def)
  have "filter (\<lambda>c. cookie_same_site_allows L c url ini nav m)
      (filter (cookie_eligible t (to_ascii_lowercase h) (request_path_of L url)
        (eq_ignore_ascii_case (url_scheme L url) ''https'') hid) cs) =
      filter (may_travel L t url hid ini nav m) cs" if "url_host_str L url = Some h" for h cs
    using that by (auto simp: filter_filter eligible_iff[symmetric] intro!: filter_cong)
  then have "filter (\<lambda>c. cookie_same_site_allows L c url ini nav m) (matching_cookies L t s url hid) =
      travellers L t s url hid ini nav m"
    using none by (simp add: matching_cookies_def travellers_def filter_sort split: option.split)
  then show ?thesis by (simp add: cookie_header_with_visibility_def)
qed

text \<open>Claim C17. A request's cookie header is exactly what the rules allow: of the cookies in the jar that
  may travel with it (host, path, scheme, visibility, expiry and \<open>SameSite\<close>), ordered by longer path,
  name and domain, it is the printed form of the longest prefix that fits 4096 bytes, and there is no
  header when that is empty or the loader has no authority over cookies.\<close>

theorem header_is_longest_fitting_prefix:
  "\<exists>cs n. mset cs =
      (if cookie_authority_enabled s
       then filter_mset (may_travel L t url True initiator nav meth) (mset (cookies s)) else {#}) \<and>
    sorted (map cookie_rank cs) \<and>
    cookie_header_for_request L t s url initiator nav meth =
      (if take n cs = [] then None else Some (cookie_text (take n cs))) \<and>
    length (cookie_text (take n cs)) \<le> MAX_NATIVE_COOKIE_BYTES \<and>
    (n = length cs \<or> MAX_NATIVE_COOKIE_BYTES < length (cookie_text (take (Suc n) cs)))"
proof -
  let ?cs = "travellers L t s url True initiator nav meth"
  obtain n where n: "header_loop [] ?cs = cookie_text (take n ?cs)"
    "length (cookie_text (take n ?cs)) \<le> MAX_NATIVE_COOKIE_BYTES"
    "n = length ?cs \<or> MAX_NATIVE_COOKIE_BYTES < length (cookie_text (take (Suc n) ?cs))"
    using header_loop_prefix[of ?cs "[]"] by auto
  show ?thesis
    using n by (intro exI[of _ ?cs] exI[of _ n])
      (auto simp: travellers_def cookie_header_for_request_def header_travellers Let_def mset_filter)
qed

section \<open>What cannot be seen has no influence\<close>

lemma header_ignores:
  assumes "\<And>c. may_travel L t url hid ini nav m c \<Longrightarrow> P c"
  shows "cookie_header_with_visibility L t (s\<lparr>cookies := filter P (cookies s)\<rparr>) url hid ini nav m =
    cookie_header_with_visibility L t s url hid ini nav m"
proof -
  have "filter (may_travel L t url hid ini nav m) (filter P (cookies s)) =
      filter (may_travel L t url hid ini nav m) (cookies s)"
    using assms by (auto simp: filter_filter intro!: filter_cong)
  then show ?thesis by (simp add: header_travellers travellers_def)
qed

text \<open>Claim C14. Cookies that must stay hidden do not influence what is shown: \<open>document.cookie\<close> is the
  same with every \<open>HttpOnly\<close> cookie taken out of the jar, a request that is not HTTPS carries the
  same header with every \<open>Secure\<close> cookie taken out, and one from another site that is no safe
  nav-level navigation carries the same header with all but the \<open>SameSite=None\<close> cookies taken out.\<close>

theorem hidden_cookies_do_not_matter:
  "document_cookie L t (l\<lparr>cookies := filter (\<lambda>c. \<not> ck_http_only c) (cookies l)\<rparr>) document_url =
     document_cookie L t l document_url \<and>
   (\<not> eq_ignore_ascii_case (url_scheme L url) ''https'' \<longrightarrow>
     cookie_header_for_request L t (l\<lparr>cookies := filter (\<lambda>c. \<not> ck_secure c) (cookies l)\<rparr>) url initiator nav meth =
     cookie_header_for_request L t l url initiator nav meth) \<and>
   (\<not> same_site_request L url initiator \<and> \<not> (nav \<and> is_safe_cookie_method meth) \<longrightarrow>
     cookie_header_for_request L t
       (l\<lparr>cookies := filter (\<lambda>c. cookie_same_site (ck_same_site c) = SameSite_None) (cookies l)\<rparr>)
       url initiator nav meth =
     cookie_header_for_request L t l url initiator nav meth)"
proof (intro conjI impI)
  have "document_cookie_header L t (l\<lparr>cookies := filter (\<lambda>c. \<not> ck_http_only c) (cookies l)\<rparr>) u =
      document_cookie_header L t l u" for u
    unfolding document_cookie_header_def by (rule header_ignores) (simp add: may_travel_def)
  then show "document_cookie L t (l\<lparr>cookies := filter (\<lambda>c. \<not> ck_http_only c) (cookies l)\<rparr>) document_url =
      document_cookie L t l document_url"
    by (simp add: document_cookie_def cong: if_cong)
next
  assume "\<not> eq_ignore_ascii_case (url_scheme L url) ''https''"
  then show "cookie_header_for_request L t (l\<lparr>cookies := filter (\<lambda>c. \<not> ck_secure c) (cookies l)\<rparr>)
      url initiator nav meth = cookie_header_for_request L t l url initiator nav meth"
    unfolding cookie_header_for_request_def by (intro header_ignores) (auto simp: may_travel_def)
next
  assume "\<not> same_site_request L url initiator \<and> \<not> (nav \<and> is_safe_cookie_method meth)"
  then show "cookie_header_for_request L t
      (l\<lparr>cookies := filter (\<lambda>c. cookie_same_site (ck_same_site c) = SameSite_None) (cookies l)\<rparr>)
      url initiator nav meth = cookie_header_for_request L t l url initiator nav meth"
    unfolding cookie_header_for_request_def
    by (intro header_ignores) (auto simp: may_travel_def split: native_cookie_same_site.splits)
qed

end
