(* ===== verification/Cookie_Promises.thy ===== *)
theory Cookie_Promises
  imports Cookie_Invariant Cookie_Sync Cookie_Sending
begin

text \<open>
  What the cookie jar promises as a whole: it stays sound under any use, a saved profile opens again
  with the same cookies when their hosts are in the accepted alphabet and does not when one is not,
  and the changes a staged transaction logs rebuild its jar in the loader it is committed to.
\<close>

text \<open>Claim C16. From any valid stored profile that opens, whatever sequence of response headers, script
  writes, WebSocket responses, installed profiles, applied, restored, committed or reconciled changes
  and clearings the loader takes, failed ones included, its jar holds at most 128 cookies, one for each
  name, domain and path, each with checked texts of at most 4096 bytes, an absolute path, normalised
  attributes and \<open>SameSite=None\<close> only when \<open>Secure\<close>.\<close>

theorem cookie_jar_stays_sound:
  assumes "validate_cookie_profile ps = Ok ()" and "network_from_profile t ps = Ok s"
  shows "jar_sound (cookies (fold (\<lambda>e l. cookie_step L l e) es (loader_of s)))"
proof (rule browser.run_inv)
  show "jar_sound (cookies (loader_of s))"
    using network_from_profile_sound[of ps t s] assms by (simp add: validate_profile_iff loader_of_def)
qed

section \<open>Opening a saved profile\<close>

lemma canonical_trim:
  "v \<in> {''Strict'', ''Lax'', ''None'', ''Low'', ''Medium'', ''High''} \<Longrightarrow> trim_bytes v = v"
  by (rule trim_bytes_visible) (auto simp: visible_byte_def byte_def)

lemma canonical_lowercase:
  "to_ascii_lowercase ''Strict'' = ''strict''" "to_ascii_lowercase ''Lax'' = ''lax''"
  "to_ascii_lowercase ''None'' = ''none''" "to_ascii_lowercase ''Low'' = ''low''"
  "to_ascii_lowercase ''Medium'' = ''medium''" "to_ascii_lowercase ''High'' = ''high''"
  "to_ascii_lowercase ''strict'' = ''strict''" "to_ascii_lowercase ''lax'' = ''lax''"
  "to_ascii_lowercase ''none'' = ''none''" "to_ascii_lowercase ''low'' = ''low''"
  "to_ascii_lowercase ''medium'' = ''medium''" "to_ascii_lowercase ''high'' = ''high''"
  by code_simp+

lemmas canonical_simps = canonical_trim eq_ignore_ascii_case_def canonical_lowercase

lemma canonical_same_site:
  "v \<in> {None, Some ''Strict'', Some ''Lax'', Some ''None''} \<Longrightarrow>
   normalize_cookie_same_site v = Ok v \<and> value_in [''strict'', ''lax'', ''none''] v"
  by (auto simp: normalize_cookie_same_site_def value_in_def canonical_simps simp del: lowercase_simps)

lemma canonical_priority:
  "v \<in> {None, Some ''Low'', Some ''Medium'', Some ''High''} \<Longrightarrow>
   normalize_cookie_priority v = Ok v \<and> value_in [''low'', ''medium'', ''high''] v"
  by (auto simp: normalize_cookie_priority_def value_in_def canonical_simps simp del: lowercase_simps)

lemma none_needs_secure:
  "v \<in> {None, Some ''Strict'', Some ''Lax'', Some ''None''} \<Longrightarrow> (v = Some ''None'' \<Longrightarrow> secure) \<Longrightarrow>
   \<not> none_but_insecure v secure \<and>
   \<not> ((case v of None \<Rightarrow> False | Some x \<Rightarrow> eq_ignore_ascii_case (trim_bytes x) ''none'') \<and> \<not> secure)"
  by (auto simp: none_but_insecure_def canonical_simps simp del: lowercase_simps)

text \<open>What the stored form bounds and the jar does not.\<close>

definition storable :: "native_cookie \<Rightarrow> bool" where
  "storable c \<longleftrightarrow> ck_domain c \<noteq> [] \<and> length (ck_domain c) \<le> MAX_NATIVE_COOKIE_PROFILE_BYTES \<and>
     length (ck_path c) \<le> MAX_NATIVE_COOKIE_PROFILE_BYTES"

lemma entry_of_simps [simp]:
  "ck_name (entry_of c) = ck_name c" "ck_value (entry_of c) = ck_value c"
  "ck_domain (entry_of c) = ck_domain c" "ck_path (entry_of c) = ck_path c"
  "ck_host_only (entry_of c) = ck_host_only c" "ck_secure (entry_of c) = ck_secure c"
  "ck_http_only (entry_of c) = ck_http_only c" "ck_same_site (entry_of c) = ck_same_site c"
  "ck_priority (entry_of c) = ck_priority c" "ck_expires_unix (entry_of c) = ck_expires_unix c"
  "key_of (entry_of c) = key_of c"
  by (simp_all add: entry_of_def key_of_def)

lemma sound_entry_ok:
  assumes "cookie_sound c" "storable c"
  shows "entry_ok (entry_of c)"
proof -
  have "\<not> list_ex (\<lambda>b. is_ascii_control b \<or> b = CHR '';'') (ck_value c)"
    using assms(1) by (auto simp: cookie_sound_def valid_cookie_text_def list_ex_iff)
  moreover have "ck_path c \<noteq> []" using assms(1) by (auto simp: cookie_sound_def starts_with_def)
  ultimately show ?thesis
    using assms canonical_same_site[of "ck_same_site c"] canonical_priority[of "ck_priority c"]
      none_needs_secure[of "ck_same_site c" "ck_secure c"]
    by (auto simp: entry_ok_def validate_cookie_profile_entry_def cookie_sound_def storable_def
        valid_cookie_text_def MAX_NATIVE_COOKIE_PROFILE_BYTES_def MAX_NATIVE_COOKIE_BYTES_def)
qed

lemma reload_entry:
  assumes "cookie_sound c" "ck_domain c \<noteq> []" "valid_cookie_domain (ck_domain c)"
    "expiry_instant t (ck_expires_unix c) = Some e" "\<not> expired_unix (ck_expires_unix c) t"
  shows "\<exists>c'. cookie_from_profile t (entry_of c) = Ok (Some c') \<and> entry_of c' = entry_of c"
proof -
  have "\<not> profile_text_invalid (entry_of c)"
    using assms(1-3) by (auto simp: profile_text_invalid_def cookie_sound_def starts_with_def)
  moreover have "normalize_cookie_same_site (ck_same_site c) = Ok (ck_same_site c)"
    "normalize_cookie_priority (ck_priority c) = Ok (ck_priority c)"
    "\<not> none_but_insecure (ck_same_site c) (ck_secure c)"
    using assms(1) canonical_same_site[of "ck_same_site c"] canonical_priority[of "ck_priority c"]
      none_needs_secure[of "ck_same_site c" "ck_secure c"] by (auto simp: cookie_sound_def)
  ultimately show ?thesis
    using assms(4,5) by (simp add: cookie_from_profile_def as_cookie_def entry_of_def)
qed

lemma cookie_profile_form:
  "cookie_authority_enabled s \<Longrightarrow>
   cookie_profile t s = map entry_of (filter (\<lambda>c. \<not> expired_unix (ck_expires_unix c) t) (cookies s))"
  by (auto simp: cookie_profile_def map_filter_def to_profile_def intro!: arg_cong2[of _ _ _ _ map] ext filter_cong)

lemma map_key_entry [simp]: "map key_of (map entry_of cs) = map key_of cs"
  by simp

lemma saved_profile_opens:
  assumes "jar_sound (cookies s)" "cookie_authority_enabled s" "list_all storable (cookies s)"
  shows "open_cookie_profile t' (cookie_profile t s) =
    Ok (map entry_of (filter (\<lambda>c. \<not> expired_unix (ck_expires_unix c) t \<and> \<not> expired_unix (ck_expires_unix c) t')
      (cookies s)))"
proof -
  let ?kept = "filter (\<lambda>c. \<not> expired_unix (ck_expires_unix c) t) (cookies s)"
  have "jar_shape ?kept" using assms(1) by (simp add: jar_sound_def shape_filter)
  then have "jar_shape (map entry_of ?kept)" by (simp add: jar_shape_def del: map_map)
  moreover have "list_all entry_ok (map entry_of ?kept)"
    using assms(1,3) sound_entry_ok by (auto simp: list_all_iff jar_sound_def)
  ultimately have "validate_cookie_profile (map entry_of ?kept) = Ok ()" by (simp add: validate_profile_iff)
  then show ?thesis
    by (simp add: open_cookie_profile_def cookie_profile_form[OF assms(2)] filter_map o_def filter_filter conj_commute)
qed

lemma push_reloaded:
  "list_all (\<lambda>c. \<exists>c'. cookie_from_profile t (entry_of c) = Ok (Some c') \<and> entry_of c' = entry_of c) cs \<Longrightarrow>
   \<exists>jar'. push_profile t (map entry_of cs) jar = Ok (jar @ jar') \<and> map entry_of jar' = map entry_of cs"
proof (induction cs arbitrary: jar)
  case (Cons c cs)
  then obtain c' where c: "cookie_from_profile t (entry_of c) = Ok (Some c')" "entry_of c' = entry_of c" by auto
  obtain jar' where "push_profile t (map entry_of cs) (jar @ [c']) = Ok ((jar @ [c']) @ jar')"
    "map entry_of jar' = map entry_of cs"
    using Cons by fastforce
  then show ?case using c by (intro exI[of _ "c' # jar'"]) simp
qed simp

text \<open>Claim C18. A saved jar opens again: when the domains are in the accepted alphabet and no domain or
  path is longer than the profile allows, the profile a sound jar is saved as passes its validation at
  any later opening and the new jar has the same cookies in the same order, less those that expired in
  between, provided their expiry is within the range of the clock.\<close>

theorem saved_cookies_load_again:
  assumes "jar_sound (cookies s)" and "cookie_authority_enabled s" and "list_all storable (cookies s)"
    and "list_all (\<lambda>c. valid_cookie_domain (ck_domain c)) (cookies s)"
    and "list_all (\<lambda>c. expiry_instant t' (ck_expires_unix c) \<noteq> None) (cookies s)"
  shows "\<exists>ps s'. open_cookie_profile t' (cookie_profile t s) = Ok ps \<and> network_from_profile t' ps = Ok s' \<and>
    map entry_of (cookies s') = map entry_of (filter (\<lambda>c. \<not> expired_unix (ck_expires_unix c) t \<and>
      \<not> expired_unix (ck_expires_unix c) t') (cookies s))"
proof -
  let ?cs = "filter (\<lambda>c. \<not> expired_unix (ck_expires_unix c) t \<and> \<not> expired_unix (ck_expires_unix c) t') (cookies s)"
  have "list_all (\<lambda>c. \<exists>c'. cookie_from_profile t' (entry_of c) = Ok (Some c') \<and> entry_of c' = entry_of c) ?cs"
    unfolding list_all_iff
  proof
    fix c assume "c \<in> set ?cs"
    then have c: "c \<in> set (cookies s)" "\<not> expired_unix (ck_expires_unix c) t'" by auto
    then obtain e where "expiry_instant t' (ck_expires_unix c) = Some e" using assms(5) by (auto simp: list_all_iff)
    then show "\<exists>c'. cookie_from_profile t' (entry_of c) = Ok (Some c') \<and> entry_of c' = entry_of c"
      using c assms(1,3,4) by (intro reload_entry) (auto simp: jar_sound_def list_all_iff storable_def)
  qed
  then obtain jar where "push_profile t' (map entry_of ?cs) [] = Ok ([] @ jar)" "map entry_of jar = map entry_of ?cs"
    using push_reloaded by blast
  then show ?thesis
    using saved_profile_opens[OF assms(1-3)] by (auto simp: network_from_profile_def)
qed

text \<open>One entry the loader refuses spoils the profile.\<close>

lemma push_refused:
  "p \<in> set ps \<Longrightarrow> (\<And>c. cookie_from_profile t p \<noteq> Ok c) \<Longrightarrow> \<exists>e. push_profile t ps jar = Err e"
proof (induction ps arbitrary: jar)
  case (Cons q ps)
  then show ?case by (cases "cookie_from_profile t q") (auto split: option.splits)
qed simp

lemma plain_cookie_read:
  assumes "url_host_str L url = Some h"
  shows "read_set_cookie L url ''a=b'' = Some (''a'', ''b'', initial_attributes L url (to_ascii_lowercase h))"
proof -
  have t: "trim_bytes ''a=b'' = ''a=b''" "trim_bytes ''a'' = ''a''" "trim_bytes ''b'' = ''b''" "trim_bytes [] = []"
    by (rule trim_bytes_visible, simp add: visible_byte_def byte_def)+
  have v: "valid_cookie_text ''a'' True" "valid_cookie_text ''b'' False" by code_simp+
  have a: "store_attribute host [] x = Some x" for host x
    by (simp add: store_attribute_def eq_ignore_ascii_case_def)
  have c: "checked_attributes L url (initial_attributes L url host) = Some (initial_attributes L url host)" for host
    by (simp add: checked_attributes_def initial_attributes_def normalize_cookie_same_site_def
        normalize_cookie_priority_def none_but_insecure_def)
  show ?thesis
    by (simp add: read_set_cookie_def assms t v a c split_on_def MAX_NATIVE_COOKIE_BYTES_def)
qed

lemma plain_cookie_stored:
  assumes "jar_sound (cookies l)" "cookie_authority_enabled l" "url_host_str L url = Some h"
  shows "\<exists>l'. receive_set_cookie L t url ''a=b'' l = (Ok (), l') \<and>
    cookies l' = jar_put (as_cookie (attribute_entry t ''a'' ''b'' (initial_attributes L url (to_ascii_lowercase h)))
      None None None) (cookies l) \<and> cookie_authority_enabled l'"
  using assms(1,2) plain_cookie_read[OF assms(3)]
  by (simp add: receive_set_cookie_def store_cookie_def store_read_cookie_eq jar_sound_def Let_def
      initial_attributes_def attribute_entry_def attribute_expiry_def expiry_instant_def MAX_NATIVE_COOKIE_BYTES_def)

text \<open>Claim C29. One plain cookie from a host outside the accepted alphabet (an IPv6 address in its brackets,
  a name with an underscore) makes the saved cookies unusable: the jar takes it, the profile it is saved
  in passes validation, and building a loader from that profile fails.\<close>

theorem unsupported_host_spoils_profile:
  assumes "jar_sound (cookies l)" and "cookie_authority_enabled l" and "list_all storable (cookies l)"
    and "url_host_str L url = Some h" and "h \<noteq> []" and "\<not> valid_cookie_domain (to_ascii_lowercase h)"
    and "length h \<le> MAX_NATIVE_COOKIE_PROFILE_BYTES"
    and "length (default_cookie_path L url) \<le> MAX_NATIVE_COOKIE_PROFILE_BYTES"
  shows "\<exists>l' ps e. receive_set_cookie L t url ''a=b'' l = (Ok (), l') \<and>
    open_cookie_profile t' (cookie_profile t l') = Ok ps \<and> network_from_profile t' ps = Err e"
proof -
  let ?a = "initial_attributes L url (to_ascii_lowercase h)"
  let ?c = "as_cookie (attribute_entry t ''a'' ''b'' ?a) None None None"
  obtain l' where r: "receive_set_cookie L t url ''a=b'' l = (Ok (), l')"
    "cookies l' = jar_put ?c (cookies l)" "cookie_authority_enabled l'"
    using plain_cookie_stored[OF assms(1,2,4)] by blast
  then have mem: "?c \<in> set (cookies l')" by (simp add: jar_put_def Let_def)
  have "storable ?c"
    using assms(5,7,8)
    by (auto simp: storable_def as_cookie_def attribute_entry_def initial_attributes_def to_ascii_lowercase_def)
  then have st: "list_all storable (cookies l')"
    using r assms(3) set_jar_put[of ?c "cookies l"] by (auto simp: list_all_iff)
  define ps where "ps = map entry_of (filter (\<lambda>c. \<not> expired_unix (ck_expires_unix c) t \<and>
      \<not> expired_unix (ck_expires_unix c) t') (cookies l'))"
  have o: "open_cookie_profile t' (cookie_profile t l') = Ok ps"
    using saved_profile_opens[OF sound_receive[OF assms(1)], of L t url "''a=b''" t' t] r st by (simp add: ps_def)
  have "entry_of ?c \<in> set ps"
    using mem by (auto simp: ps_def expired_unix_def as_cookie_def attribute_entry_def initial_attributes_def
        attribute_expiry_def intro!: imageI)
  moreover have "profile_text_invalid (entry_of ?c)"
    using assms(6) by (simp add: profile_text_invalid_def as_cookie_def attribute_entry_def initial_attributes_def)
  then have "\<And>c. cookie_from_profile t' (entry_of ?c) \<noteq> Ok c" by (simp add: cookie_from_profile_def)
  ultimately obtain e where "push_profile t' ps [] = Err e" using push_refused by blast
  then have "network_from_profile t' ps = Err e" by (simp add: network_from_profile_def)
  then show ?thesis using o r(1) by blast
qed

section \<open>A script can replace an HttpOnly cookie\<close>

lemma plain_cookie_flags: "\<not> names_attribute ''httponly'' ''a=b''"
  by (simp add: names_attribute_def split_on_def)

text \<open>A page's script cannot read an \<open>HttpOnly\<close> cookie but can replace it: a write of a plain
  value under the same name removes the hidden cookie from the jar and leaves a visible one with the
  script's value in its place.\<close>

theorem script_replaces_http_only_cookie:
  assumes "jar_sound (cookies l)" and "cookie_authority_enabled l" and "c \<in> set (cookies l)" and "ck_http_only c"
    and "document_cookie_owner L doc ''a=b'' = Ok (Some url)" and "url_host_str L url = Some h"
    and "key_of c = (''a'', to_ascii_lowercase h, default_cookie_path L url)"
  shows "\<exists>l' c'. set_document_cookie L t doc ''a=b'' l = (Ok (), l') \<and> c \<notin> set (cookies l') \<and>
    c' \<in> set (cookies l') \<and> key_of c' = key_of c \<and> ck_value c' = ''b'' \<and> \<not> ck_http_only c'"
proof -
  let ?c = "as_cookie (attribute_entry t ''a'' ''b'' (initial_attributes L url (to_ascii_lowercase h))) None None None"
  have k: "key_of ?c = key_of c"
    unfolding assms(7) by (simp add: key_of_def as_cookie_def attribute_entry_def initial_attributes_def)
  have new: "\<not> ck_http_only ?c" "ck_value ?c = ''b''"
    by (simp_all add: as_cookie_def attribute_entry_def initial_attributes_def)
  obtain l' where l': "receive_set_cookie L t url ''a=b'' l = (Ok (), l')" "cookies l' = jar_put ?c (cookies l)"
    using plain_cookie_stored[OF assms(1,2,6)] by blast
  have "c \<notin> set (cookies l')"
    using k new(1) assms(4) set_tl_subset[of "without_key (key_of ?c) (cookies l)"]
    by (auto simp: l'(2) jar_put_def Let_def without_key_iff split: if_splits)
  moreover have "set_document_cookie L t doc ''a=b'' l = (Ok (), l')"
    using l'(1) assms(5) by (simp add: set_document_cookie_def plain_cookie_flags)
  moreover have "?c \<in> set (cookies l')" by (simp add: l'(2) jar_put_def Let_def)
  ultimately show ?thesis using k new by blast
qed

end
