(* ===== verification/Cookie_Replay.thy ===== *)
theory Cookie_Replay
  imports Cookie_Promises
begin

text \<open>
  The log of changes is faithful. What a change does is given on the stored forms of a jar's cookies;
  applying a log to a jar does that change by change, and every operation of a loader leaves a log that
  does to its jar what the operation did. So a transaction on a copy of a loader can be committed by
  its log.
\<close>

section \<open>What a log means\<close>

definition norm_entry :: "native_cookie_profile_entry \<Rightarrow> native_cookie_profile_entry" where
  "norm_entry p = p\<lparr>
     ck_same_site := (case normalize_cookie_same_site (ck_same_site p) of Inr v \<Rightarrow> v | Inl _ \<Rightarrow> None),
     ck_priority := (case normalize_cookie_priority (ck_priority p) of Inr v \<Rightarrow> v | Inl _ \<Rightarrow> None)\<rparr>"

definition settle_change ::
  "native_cookie_change \<Rightarrow> native_cookie_profile_entry list \<Rightarrow> native_cookie_profile_entry list" where
  "settle_change ch es =
     (case cc_cookie ch of None \<Rightarrow> without_key (change_key ch) es | Some p \<Rightarrow> jar_put (norm_entry p) es)"

definition settle ::
  "native_cookie_change list \<Rightarrow> native_cookie_profile_entry list \<Rightarrow> native_cookie_profile_entry list" where
  "settle chs es = fold settle_change chs es"

text \<open>A change whose cookie can be installed at the given time.\<close>

definition loadable :: "cookie_clock \<Rightarrow> native_cookie_change \<Rightarrow> bool" where
  "loadable t ch \<longleftrightarrow>
     (case cc_cookie ch of None \<Rightarrow> True | Some p \<Rightarrow> \<exists>c. cookie_from_profile t p = Ok (Some c))"

lemma settle_simps [simp]:
  "settle [] es = es"
  "settle (ch # chs) es = settle chs (settle_change ch es)"
  "settle (chs @ dhs) es = settle dhs (settle chs es)"
  by (simp_all add: settle_def)

lemma settle_removal [simp]: "settle_change (removal k) es = without_key k es"
  by (simp add: settle_change_def)

lemma settle_arrival [simp]: "settle_change (arrival p) es = jar_put (norm_entry p) es"
  by (simp add: settle_change_def)

lemma entries_without: "map entry_of (without_key k jar) = without_key k (map entry_of jar)"
  by (simp add: without_key_def filter_map o_def)

lemma entries_put: "map entry_of (jar_put c jar) = jar_put (entry_of c) (map entry_of jar)"
  by (simp add: jar_put_def Let_def entries_without[symmetric] map_tl)

lemma shape_entries [simp]: "jar_shape (map entry_of jar) = jar_shape jar"
  by (simp add: jar_shape_def o_def)

lemma entry_of_installed: "cookie_from_profile t p = Ok (Some c) \<Longrightarrow> entry_of c = norm_entry p"
  by (drule from_profile_Some) (auto simp: as_cookie_def entry_of_def norm_entry_def)

lemma apply_change_settles:
  assumes "cookie_authority_enabled s" "jar_sound (cookies s)" "loadable t ch"
  shows "\<exists>s'. apply_change t ch s = (Ok (), s') \<and> cookie_authority_enabled s' \<and>
    map entry_of (cookies s') = settle_change ch (map entry_of (cookies s))"
proof (cases "cc_cookie ch")
  case None
  then show ?thesis
    using assms(1) by (simp add: apply_change_def remove_cookie_def settle_change_def entries_without Let_def)
next
  case (Some p)
  then obtain c where c: "cookie_from_profile t p = Ok (Some c)" using assms(3) by (auto simp: loadable_def)
  then show ?thesis
    using Some assms(1,2) entry_of_installed[OF c]
    by (simp add: apply_change_def set_cookie_profile_eq jar_sound_def settle_change_def entries_put)
qed

lemma apply_log_settles:
  "cookie_authority_enabled s \<Longrightarrow> jar_sound (cookies s) \<Longrightarrow> list_all (loadable t) chs \<Longrightarrow>
   \<exists>s'. try_each (apply_change t) chs s = (Ok (), s') \<and>
     map entry_of (cookies s') = settle chs (map entry_of (cookies s))"
proof (induction chs arbitrary: s)
  case (Cons ch chs)
  obtain s' where s': "apply_change t ch s = (Ok (), s')" "cookie_authority_enabled s'"
    "map entry_of (cookies s') = settle_change ch (map entry_of (cookies s))"
    using apply_change_settles[of s t ch] Cons.prems by auto
  have "jar_sound (cookies s')" using sound_apply_change[OF Cons.prems(2), of t ch] s'(1) by simp
  then show ?case using Cons.IH[of s'] Cons.prems(3) s' by auto
qed simp

section \<open>Every operation logs what it does\<close>

definition owner :: "cookie_loader \<Rightarrow> bool" where
  "owner l \<longleftrightarrow> cookie_authority_enabled l \<and> jar_sound (cookies l)"

definition logs :: "cookie_clock \<Rightarrow> cookie_loader \<Rightarrow> cookie_loader \<Rightarrow> bool" where
  "logs t l l' \<longleftrightarrow>
     (\<exists>chs. cookie_changes l' = cookie_changes l @ chs \<and>
        (list_all (loadable t) chs \<longrightarrow>
         map entry_of (cookies l') = settle chs (map entry_of (cookies l)))) \<and>
     (owner l \<longrightarrow> owner l')"

lemma logs_refl [simp]: "logs t l l"
  by (auto simp: logs_def intro!: exI[of _ "[]"])

lemma logs_trans: assumes "logs t l m" "logs t m n" shows "logs t l n"
proof -
  obtain chs dhs where "cookie_changes m = cookie_changes l @ chs" "cookie_changes n = cookie_changes m @ dhs"
    "list_all (loadable t) chs \<longrightarrow> map entry_of (cookies m) = settle chs (map entry_of (cookies l))"
    "list_all (loadable t) dhs \<longrightarrow> map entry_of (cookies n) = settle dhs (map entry_of (cookies m))"
    using assms by (auto simp: logs_def)
  then have "cookie_changes n = cookie_changes l @ (chs @ dhs) \<and>
      (list_all (loadable t) (chs @ dhs) \<longrightarrow>
       map entry_of (cookies n) = settle (chs @ dhs) (map entry_of (cookies l)))"
    by simp
  then show ?thesis using assms unfolding logs_def by blast
qed

lemma logs_each:
  assumes "\<And>x l. owner l \<Longrightarrow> logs t l (snd (f x l))" "owner l"
  shows "logs t l (snd (try_each f xs l))"
proof -
  have "logs t l (snd (try_each f xs l)) \<and> owner (snd (try_each f xs l))"
  proof (rule try_each_keeps[where P = "\<lambda>m. logs t l m \<and> owner m"])
    fix x m assume "logs t l m \<and> owner m"
    then show "logs t l (snd (f x m)) \<and> owner (snd (f x m))"
      using assms(1)[of m x] logs_trans by (auto simp: logs_def)
  qed (use assms(2) in simp)
  then show ?thesis by simp
qed

lemma logsI:
  "cookie_changes l' = cookie_changes l @ chs \<Longrightarrow>
   (list_all (loadable t) chs \<Longrightarrow> map entry_of (cookies l') = settle chs (map entry_of (cookies l))) \<Longrightarrow>
   (owner l \<Longrightarrow> owner l') \<Longrightarrow> logs t l l'"
  by (auto simp: logs_def)

text \<open>Taking the oldest out first and then putting is putting into the full jar.\<close>

lemma evict_then_put:
  assumes "jar_shape es" "MAX_NATIVE_COOKIE_PROFILE_ENTRIES \<le> length (without_key (key_of v) es)"
  shows "jar_put v (without_key (key_of (hd (without_key (key_of v) es))) es) = jar_put v es"
proof -
  let ?kept = "without_key (key_of v) es"
  have k: "jar_shape ?kept" using assms(1) by (rule shape_without)
  obtain x xs where x: "?kept = x # xs"
    using assms(2) entries_pos by (cases ?kept) auto
  have "without_key (key_of v) (without_key (key_of x) es) = without_key (key_of x) ?kept"
    by (simp add: without_key_def conj_commute)
  also have "\<dots> = without_key (key_of x) (x # xs)" by (simp only: x)
  also have "\<dots> = xs"
  proof -
    have "key_of x \<notin> key_of ` set xs" using k unfolding x by (simp add: jar_shape_def)
    then have "filter (\<lambda>c. key_of c \<noteq> key_of x) xs = xs" by (metis (mono_tags, lifting) filter_True image_eqI)
    then show ?thesis by (simp add: without_key_def)
  qed
  finally have w: "without_key (key_of v) (without_key (key_of x) es) = xs" .
  have "length xs < MAX_NATIVE_COOKIE_PROFILE_ENTRIES" using k by (simp add: x jar_shape_def)
  then show ?thesis using assms(2) by (simp add: jar_put_def x w)
qed

lemma norm_read_entry:
  assumes "read_set_cookie L url line = Some (n, v, a)"
  shows "norm_entry (attribute_entry t n v a) = attribute_entry t n v a"
  using read_set_cookie_facts[OF assms] canonical_same_site[of "at_same_site a"]
    canonical_priority[of "at_priority a"]
  by (auto simp: norm_entry_def attribute_entry_def attributes_sound_def)

lemma entry_of_as_cookie: "entry_of (as_cookie p (ck_same_site p) (ck_priority p) e) = p"
  by (simp add: entry_of_def as_cookie_def)

lemma read_key: "key_of (attribute_entry t n v a) = (n, at_domain a, at_path a)"
  by (simp add: key_of_def attribute_entry_def)

lemma hd_entries: "jar \<noteq> [] \<Longrightarrow> key_of (hd (map entry_of jar)) = key_of (hd jar)"
  by (cases jar) auto

lemma full_nonempty: "MAX_NATIVE_COOKIE_PROFILE_ENTRIES \<le> length jar \<Longrightarrow> jar \<noteq> []"
  using entries_pos by auto

lemma settle_put:
  assumes "jar_shape jar" "key_of q = k" "norm_entry q = entry_of c" "key_of c = k"
    "chs = [] \<or> MAX_NATIVE_COOKIE_PROFILE_ENTRIES \<le> length (without_key k jar) \<and>
       chs = [removal (key_of (hd (without_key k jar)))]"
  shows "settle (chs @ [arrival q]) (map entry_of jar) = map entry_of (jar_put c jar)"
proof -
  have e: "key_of (entry_of c) = k" using assms(4) by simp
  have "jar_put (entry_of c) (without_key (key_of (hd (without_key k jar))) (map entry_of jar)) =
      jar_put (entry_of c) (map entry_of jar)"
    if f: "MAX_NATIVE_COOKIE_PROFILE_ENTRIES \<le> length (without_key k jar)"
    using evict_then_put[of "map entry_of jar" "entry_of c"] f assms(1) full_nonempty[OF f]
    by (simp add: e assms(4) entries_without[symmetric] hd_entries)
  then show ?thesis using assms(3,5) by (auto simp: entries_put)
qed

lemma logs_receive:
  assumes l: "owner l"
  shows "logs t' l (snd (receive_set_cookie L t url line l))"
proof (cases "MAX_NATIVE_COOKIE_BYTES < length line \<or> read_set_cookie L url line = None")
  case True
  then have "receive_set_cookie L t url line l = (Ok (), l)"
    by (auto simp: receive_set_cookie_def store_cookie_def log_changes_def)
  then show ?thesis by simp
next
  case False
  then obtain n v a where r: "read_set_cookie L url line = Some (n, v, a)" by auto
  have sh: "jar_shape (cookies l)" and au: "cookie_authority_enabled l" using l by (simp_all add: owner_def jar_sound_def)
  define q where "q = attribute_entry t n v a"
  define k where "k = (n, at_domain a, at_path a)"
  have st: "store_cookie L t url line l = store_read_cookie t n v a l"
    using False r au by (simp add: store_cookie_def)
  have own: "owner (snd (receive_set_cookie L t url line l))"
    using l sound_receive[of l L t url line] au
    by (auto simp: owner_def receive_set_cookie_def st store_read_cookie_eq[OF sh] Let_def split: option.splits)
  show ?thesis
  proof (cases "case at_max_age a of Some age \<Rightarrow> age \<le> 0 | None \<Rightarrow> False")
    case True
    let ?chs = "if list_ex (\<lambda>c. key_of c = k) (cookies l) then [removal k] else []"
    have "snd (receive_set_cookie L t url line l) = log_changes ?chs (l\<lparr>cookies := without_key k (cookies l)\<rparr>)"
      using True by (simp add: receive_set_cookie_def st store_read_cookie_eq[OF sh] k_def Let_def)
    then show ?thesis
      using own by (intro logsI[of _ _ ?chs]) (auto simp: log_changes_def entries_without[symmetric] without_absent)
  next
    case False
    show ?thesis
    proof (cases "expiry_instant t (ck_expires_unix q)")
      case None
      then have "snd (receive_set_cookie L t url line l) = l"
        using False by (simp add: receive_set_cookie_def st store_read_cookie_eq[OF sh] q_def Let_def)
      then show ?thesis by simp
    next
      case (Some e)
      define c where "c = as_cookie q (at_same_site a) (at_priority a) e"
      let ?evicted = "if MAX_NATIVE_COOKIE_PROFILE_ENTRIES \<le> length (without_key k (cookies l))
        then [removal (key_of (hd (without_key k (cookies l))))] else []"
      have "snd (receive_set_cookie L t url line l) =
          log_changes (?evicted @ [arrival q]) (l\<lparr>cookies := jar_put c (cookies l)\<rparr>)"
        using False Some
        by (simp add: receive_set_cookie_def st store_read_cookie_eq[OF sh] q_def c_def k_def Let_def)
      moreover have "norm_entry q = entry_of c" "key_of q = k" "key_of c = k"
        using norm_read_entry[OF r, of t] entry_of_as_cookie[of q e]
        by (simp_all add: q_def c_def k_def as_cookie_def attribute_entry_def key_of_def)
      ultimately show ?thesis
        using own settle_put[OF sh, of q k c ?evicted]
        by (intro logsI[of _ _ "?evicted @ [arrival q]"]) (simp_all add: log_changes_def)
    qed
  qed
qed

lemma logs_install:
  assumes l: "owner l"
  shows "logs t' l (snd (install_profile t p l))"
proof -
  have sh: "jar_shape (cookies l)" and au: "cookie_authority_enabled l" using l by (simp_all add: owner_def jar_sound_def)
  have own: "owner (snd (install_profile t p l))"
    using l sound_install_profile[of l t p] au
    by (auto simp: owner_def install_profile_def remove_cookie_def set_cookie_profile_eq[OF au sh] Let_def
        split: sum.splits option.splits)
  consider (refused) e where "cookie_from_profile t p = Err e" | (expired) "cookie_from_profile t p = Ok None"
    | (put) c where "cookie_from_profile t p = Ok (Some c)"
    by (metis not_None_eq obj_sumE)
  then show ?thesis
  proof cases
    case refused
    then show ?thesis by (simp add: install_profile_def)
  next
    case expired
    let ?removed = "length (without_key (key_of p) (cookies l)) \<noteq> length (cookies l)"
    let ?chs = "if ?removed then [removal (key_of p)] else []"
    have same: "without_key (key_of p) (cookies l) = cookies l" if "\<not> ?removed"
      using that without_absent[of "key_of p" "cookies l"] unfolding without_key_def
      by (metis (mono_tags, lifting) filter_True length_filter_less less_irrefl_nat)
    have "snd (install_profile t p l) = log_changes ?chs (l\<lparr>cookies := without_key (key_of p) (cookies l)\<rparr>)"
      using expired au by (simp add: install_profile_def remove_cookie_def log_changes_def Let_def)
    then show ?thesis
      using own same by (intro logsI[of _ _ ?chs]) (auto simp: log_changes_def entries_without[symmetric])
  next
    case put
    let ?kept = "without_key (key_of c) (cookies l)"
    let ?full = "MAX_NATIVE_COOKIE_PROFILE_ENTRIES \<le> length ?kept"
    let ?evicted = "case (if ?full then to_profile t (hd ?kept) else None) of
      None \<Rightarrow> [] | Some x \<Rightarrow> [removal (key_of x)]"
    have "snd (install_profile t p l) =
        log_changes (?evicted @ [arrival p]) (l\<lparr>cookies := jar_put c (cookies l)\<rparr>)"
      using put by (simp add: install_profile_def set_cookie_profile_eq[OF au sh])
    moreover have "?evicted = [] \<or> ?full \<and> ?evicted = [removal (key_of (hd ?kept))]"
      by (auto simp: to_profile_def split: if_splits)
    ultimately show ?thesis
      using own settle_put[OF sh, of p "key_of c" c ?evicted] from_profile_key[OF put] entry_of_installed[OF put]
      by (intro logsI[of _ _ "?evicted @ [arrival p]"]) (simp_all add: log_changes_def)
  qed
qed

lemma logs_take_change:
  assumes l: "owner l" and t: "now_unix t \<le> now_unix t'"
  shows "logs t' l (snd (take_change t ch l))"
proof -
  have sh: "jar_shape (cookies l)" and au: "cookie_authority_enabled l" using l by (simp_all add: owner_def jar_sound_def)
  have own: "owner (snd (take_change t ch l))"
    using l sound_take_change[of l t ch] au
    by (auto simp: owner_def take_change_def remove_cookie_def set_cookie_profile_eq[OF au sh] Let_def
        split: sum.splits option.splits)
  have gone: "\<not> loadable t' ch" if "cc_cookie ch = Some p" "cookie_from_profile t p = Ok None" for p
  proof -
    have "expired_unix (ck_expires_unix p) t"
      using that(2) by (auto simp: cookie_from_profile_def split: if_splits sum.splits option.splits)
    then have "expired_unix (ck_expires_unix p) t'" using t by (auto simp: expired_unix_def split: option.splits)
    then show ?thesis using that(1) by (auto simp: loadable_def dest: from_profile_Some)
  qed
  consider (removal) "cc_cookie ch = None"
    | (refused) p e where "cc_cookie ch = Some p" "cookie_from_profile t p = Err e"
    | (expired) p where "cc_cookie ch = Some p" "cookie_from_profile t p = Ok None"
    | (put) p c where "cc_cookie ch = Some p" "cookie_from_profile t p = Ok (Some c)"
    by (metis not_None_eq obj_sumE)
  then show ?thesis
  proof cases
    case removal
    then show ?thesis using own au
      by (intro logsI[of _ _ "[ch]"])
        (simp_all add: take_change_def remove_cookie_def log_changes_def settle_change_def entries_without Let_def)
  next
    case refused
    then show ?thesis by (simp add: take_change_def)
  next
    case expired
    then show ?thesis using own au gone
      by (intro logsI[of _ _ "[ch]"]) (simp_all add: take_change_def remove_cookie_def log_changes_def Let_def)
  next
    case put
    then show ?thesis using own entry_of_installed[OF put(2)]
      by (intro logsI[of _ _ "[ch]"])
        (simp_all add: take_change_def set_cookie_profile_eq[OF au sh] log_changes_def settle_change_def entries_put)
  qed
qed

lemma settle_removals:
  "settle (map (\<lambda>c. removal (key_of c)) cs) es = filter (\<lambda>e. key_of e \<notin> key_of ` set cs) es"
  by (induction cs arbitrary: es) (auto simp: without_key_def intro!: filter_cong)

lemma logs_clear: "owner l \<Longrightarrow> logs t l (clear_cookies l)"
proof -
  assume l: "owner l"
  let ?chs = "map (\<lambda>c. removal (key_of c)) (cookies l)"
  have "settle ?chs (map entry_of (cookies l)) = []" by (auto simp: settle_removals filter_empty_conv)
  moreover have "owner (clear_cookies l)" using l sound_clear[of l] by (auto simp: owner_def clear_cookies_def)
  ultimately show ?thesis
    using l by (intro logsI[of _ _ ?chs]) (simp_all add: clear_cookies_def owner_def)
qed

section \<open>Committing a staged transaction\<close>

text \<open>The steps of a transaction; a change from outside is taken no later than the commit.\<close>

fun staged_event :: "cookie_clock \<Rightarrow> 'u cookie_event \<Rightarrow> bool" where
  "staged_event t (Set_Cookie_Header _ _ _) = True"
| "staged_event t (Script_Cookie _ _ _) = True"
| "staged_event t (Websocket_Cookies _ _ _) = True"
| "staged_event t (Install_Profiles _ _) = True"
| "staged_event t (Apply_Changes t0 _) \<longleftrightarrow> now_unix t0 \<le> now_unix t"
| "staged_event t Clear_Cookies = True"
| "staged_event t _ = False"

lemma logs_websocket: "owner l \<Longrightarrow> logs t' l (snd (websocket_header L t url h l))"
  by (simp add: websocket_header_def logs_receive)

lemma logs_step:
  assumes "owner l" "staged_event t e"
  shows "logs t l (cookie_step L l e)"
proof (cases e)
  case (Script_Cookie t0 doc v)
  then show ?thesis
    using assms(1) by (auto simp: set_document_cookie_def logs_receive split: sum.splits option.splits)
next
  case (Websocket_Cookies t0 url hs)
  then show ?thesis
    using assms(1) by (auto simp: apply_websocket_response_cookies_def intro!: logs_each logs_websocket split: sum.splits)
next
  case (Install_Profiles t0 ps)
  then show ?thesis using assms(1) by (auto simp: set_cookie_profiles_def intro!: logs_each logs_install)
next
  case (Apply_Changes t0 chs)
  then show ?thesis
    using assms by (auto simp: apply_cookie_changes_def intro!: logs_each logs_take_change)
qed (use assms in \<open>auto simp: logs_receive logs_clear\<close>)

lemma logs_run:
  "owner l \<Longrightarrow> list_all (staged_event t) es \<Longrightarrow> logs t l (fold (\<lambda>e l. cookie_step L l e) es l)"
proof (induction es arbitrary: l)
  case (Cons e es)
  have s: "logs t l (cookie_step L l e)" using Cons.prems by (auto intro: logs_step)
  then have "owner (cookie_step L l e)" using Cons.prems(1) by (simp add: logs_def)
  then show ?case using Cons s by (auto intro: logs_trans)
qed simp

text \<open>Claim C15. A transaction run on a copy of a loader can be committed by its changes alone: after any
  sequence of response headers, script writes, WebSocket responses, installed profiles, applied
  changes and clearings on the copy, failed ones and evictions included, committing the changes logged
  since the checkpoint succeeds and gives the jar the very cookies of the copy, in its order, as long
  as every cookie in the changes can still be installed at the time of the commit.\<close>

theorem staged_changes_replay:
  assumes "jar_sound (cookies l)" and "cookie_authority_enabled l" and "list_all (staged_event t) es"
    and "list_all (loadable t)
      (cookie_changes_since (fold (\<lambda>e l. cookie_step L l e) es l) (cookie_change_checkpoint l))"
  shows "\<exists>jar. commit_staged_cookie_state t (fold (\<lambda>e l. cookie_step L l e) es l)
      (cookie_changes_since (fold (\<lambda>e l. cookie_step L l e) es l) (cookie_change_checkpoint l)) l =
      (Ok (), (fold (\<lambda>e l. cookie_step L l e) es l)\<lparr>cookies := jar\<rparr>) \<and>
    map entry_of jar = map entry_of (cookies (fold (\<lambda>e l. cookie_step L l e) es l))"
proof -
  let ?l = "fold (\<lambda>e l. cookie_step L l e) es l"
  have "logs t l ?l" using assms(1-3) by (intro logs_run) (simp_all add: owner_def)
  then obtain chs where chs: "cookie_changes ?l = cookie_changes l @ chs"
    "list_all (loadable t) chs \<longrightarrow> map entry_of (cookies ?l) = settle chs (map entry_of (cookies l))"
    by (auto simp: logs_def)
  have since: "cookie_changes_since ?l (cookie_change_checkpoint l) = chs"
    by (simp add: cookie_changes_since_def cookie_change_checkpoint_def chs(1))
  then have ok: "list_all (loadable t) chs" using assms(4) by simp
  let ?s = "\<lparr>cookie_authority_enabled = True, cookies = cookies l\<rparr>"
  obtain s' where "try_each (apply_change t) chs ?s = (Ok (), s')"
    "map entry_of (cookies s') = settle chs (map entry_of (cookies l))"
    using apply_log_settles[of ?s t chs] assms(1) ok by auto
  then show ?thesis
    using chs(2) ok unfolding since
    by (intro exI[of _ "cookies s'"]) (simp add: commit_staged_cookie_state_def jar_apply_changes_def)
qed

end
