(* ===== verification/Csp_Ledger.thy ===== *)
theory Csp_Ledger
  imports Csp_Reports
begin

text \<open>
  The policy ledger of the resource loader (\<open>resource_loader/policies.rs\<close> and the storing functions of
  \<open>resource_loader.rs\<close>): the policies of the documents the loader has seen, keyed by address, the
  policy headers and referrer policies kept beside them, the violations waiting for the page and, as a
  log, the reports handed to the delivery tasks. Every function that changes one of them is a
  definition; the caches, the cookie jar and the requests of the loader are not part of this state.
  The file system and the \<open>url\<close> crate are arguments, in \<open>policy_env\<close>.
\<close>

definition MAX_NATIVE_CACHE_ENTRIES :: nat where
  "MAX_NATIVE_CACHE_ENTRIES = 32"

datatype native_fetch_referrer_policy =
    NoReferrer | NoReferrerWhenDowngrade | SameOrigin | Origin | StrictOrigin
  | OriginWhenCrossOrigin | StrictOriginWhenCrossOrigin | UnsafeUrl

record 'u policy_env =
  en_lib :: "'u csp_lib"
  en_jsons :: json_lib
  en_to_file_path :: "'u \<Rightarrow> path option"
  en_canonicalize :: "path \<Rightarrow> path option"
  en_is_file :: "path \<Rightarrow> bool"

record policy_ledger =
  allowed_file_roots :: "path list"
  document_policies :: "(string, native_csp_policy) btree"
  response_policy_headers :: "(string, (string \<times> string) list) btree"
  referrer_policies :: "(string, native_fetch_referrer_policy) btree"
  csp_violations :: "native_csp_violation list"
  scheduled_reports :: "native_csp_report_delivery list"

definition policy_of :: "'u policy_env \<Rightarrow> policy_ledger \<Rightarrow> 'u \<Rightarrow> native_csp_policy" where
  "policy_of E l url = bt_get_or default_policy_csp (document_policies l) (cache_key (en_lib E) url)"

section \<open>Storing\<close>

definition evict_first :: "string \<Rightarrow> (string, 'v) btree \<Rightarrow> (string, 'v) btree" where
  "evict_first key m =
     (if \<not> bt_contains m key \<and> MAX_NATIVE_CACHE_ENTRIES \<le> length m then
        (case m of [] \<Rightarrow> m | (oldest, _) # _ \<Rightarrow> bt_remove oldest m)
      else m)"

definition store_document_policy :: "string \<Rightarrow> native_csp_policy \<Rightarrow> policy_ledger \<Rightarrow> policy_ledger" where
  "store_document_policy key policy l =
     l\<lparr>document_policies := bt_insert key policy (evict_first key (document_policies l))\<rparr>"

definition store_document_response_policy_headers ::
  "string \<Rightarrow> (string \<times> string) list \<Rightarrow> policy_ledger \<Rightarrow> policy_ledger" where
  "store_document_response_policy_headers key headers l =
     (if headers = [] then l\<lparr>response_policy_headers := bt_remove key (response_policy_headers l)\<rparr>
      else l\<lparr>response_policy_headers :=
               bt_insert key headers (evict_first key (response_policy_headers l))\<rparr>)"

definition store_document_referrer_policy ::
  "string \<Rightarrow> native_fetch_referrer_policy option \<Rightarrow> policy_ledger \<Rightarrow> policy_ledger" where
  "store_document_referrer_policy key policy l =
     (case policy of
        None \<Rightarrow> l\<lparr>referrer_policies := bt_remove key (referrer_policies l)\<rparr>
      | Some p \<Rightarrow> l\<lparr>referrer_policies := bt_insert key p (evict_first key (referrer_policies l))\<rparr>)"

section \<open>Referrer policies\<close>

definition parse_referrer_policy :: "string \<Rightarrow> native_fetch_referrer_policy option" where
  "parse_referrer_policy value =
     (if value = '''' \<or> value = ''strict-origin-when-cross-origin'' then Some StrictOriginWhenCrossOrigin
      else if value = ''no-referrer'' then Some NoReferrer
      else if value = ''no-referrer-when-downgrade'' then Some NoReferrerWhenDowngrade
      else if value = ''same-origin'' then Some SameOrigin
      else if value = ''origin'' then Some Origin
      else if value = ''strict-origin'' then Some StrictOrigin
      else if value = ''origin-when-cross-origin'' then Some OriginWhenCrossOrigin
      else if value = ''unsafe-url'' then Some UnsafeUrl
      else None)"

definition referrer_tokens :: "string \<Rightarrow> native_fetch_referrer_policy list" where
  "referrer_tokens value =
     List.map_filter
       (\<lambda>t. let token = trim_bytes t in if token = [] then None else parse_referrer_policy token)
       (split_on (CHR '','') value)"

definition last_of :: "'a list \<Rightarrow> 'a option" where
  "last_of xs = (if xs = [] then None else Some (last xs))"

definition referrer_policy_from_headers :: "header_values \<Rightarrow> native_fetch_referrer_policy option" where
  "referrer_policy_from_headers headers =
     last_of (concat (map referrer_tokens (List.map_filter id (headers ''referrer-policy''))))"

definition referrer_policy_from_header_pairs ::
  "(string \<times> string) list \<Rightarrow> native_fetch_referrer_policy option" where
  "referrer_policy_from_header_pairs headers =
     last_of (concat (map (\<lambda>nv. referrer_tokens (snd nv))
       (filter (\<lambda>nv. eq_ignore_ascii_case (fst nv) ''referrer-policy'') headers)))"

section \<open>Who owns a document's policy\<close>

definition file_url_path :: "'u policy_env \<Rightarrow> 'u \<Rightarrow> string \<Rightarrow> (native_engine_error, path) result" where
  "file_url_path E url resource_name =
     (if \<not> eq_ignore_ascii_case (url_scheme (en_lib E) url) ''file'' then
        Err (UnsupportedUrl (resource_name @ '' URL must use the file scheme''))
      else if (case url_host_str (en_lib E) url of
                 None \<Rightarrow> False
               | Some host \<Rightarrow> \<not> eq_ignore_ascii_case host ''localhost'') then
        Err (UnsupportedUrl (resource_name @ '' URL host must be empty or localhost''))
      else ok_or (UnsupportedUrl (resource_name @ '' URL could not be converted to a local path''))
             (en_to_file_path E url))"

definition path_starts_with :: "path \<Rightarrow> path \<Rightarrow> bool" where
  "path_starts_with p root \<longleftrightarrow> take (length root) p = root"

definition allowed_file_path ::
  "'u policy_env \<Rightarrow> policy_ledger \<Rightarrow> 'u \<Rightarrow> string \<Rightarrow> (native_engine_error, path) result" where
  "allowed_file_path E l url resource_name =
     res_bind (file_url_path E url resource_name) (\<lambda>requested.
       case en_canonicalize E requested of
         None \<Rightarrow> Err (UnsupportedUrl (resource_name @ '' is not an accessible local file''))
       | Some canonical \<Rightarrow>
           if \<not> en_is_file E canonical then
             Err (UnsupportedUrl (resource_name @ '' must resolve to a regular file''))
           else if \<not> list_ex (path_starts_with canonical) (allowed_file_roots l) then
             Err (UnsupportedUrl (resource_name @ '' is outside the configured file roots''))
           else Ok canonical)"

text \<open>\<open>Iterator::max_by_key\<close> keeps the last of several maxima.\<close>

fun deepest :: "path list \<Rightarrow> path option" where
  "deepest [] = None"
| "deepest (r # rs) =
     (case deepest rs of None \<Rightarrow> Some r | Some b \<Rightarrow> if length b < length r then Some r else Some b)"

definition allowed_file_root_for_path :: "policy_ledger \<Rightarrow> path \<Rightarrow> path option" where
  "allowed_file_root_for_path l p = deepest (filter (path_starts_with p) (allowed_file_roots l))"

definition resolve_local_file_subresource_url ::
  "'u policy_env \<Rightarrow> 'u \<Rightarrow> string \<Rightarrow> (native_engine_error, 'u option) result" where
  "resolve_local_file_subresource_url E document_url href =
     res_bind (ok_or (UnsupportedUrl ''file subresource URL could not be resolved against the document'')
       (url_join (en_lib E) document_url href)) (\<lambda>target.
     res_bind (reject_credentials (en_lib E) target) (\<lambda>_.
       Ok (if eq_ignore_ascii_case (url_scheme (en_lib E) target) ''file'' then Some target else None)))"

definition local_file_subresource_path ::
  "'u policy_env \<Rightarrow> policy_ledger \<Rightarrow> string \<Rightarrow> string \<Rightarrow> string \<Rightarrow>
   (native_engine_error, ('u \<times> path) option) result" where
  "local_file_subresource_path E l document_url0 href resource_name =
     res_bind (parse_owner (en_lib E) document_url0 (resource_name @ '' owner URL is not valid URL syntax''))
       (\<lambda>document_url.
     res_bind (reject_credentials (en_lib E) document_url) (\<lambda>_.
       if \<not> is_file_url (en_lib E) (url_str (en_lib E) document_url) then Ok None
       else
         res_bind (resolve_local_file_subresource_url E document_url href) (\<lambda>target.
           case target of
             None \<Rightarrow> Ok None
           | Some t \<Rightarrow>
               res_bind (allowed_file_path E l t resource_name) (\<lambda>p. Ok (Some (t, p))))))"

definition csp_document_owner ::
  "'u policy_env \<Rightarrow> policy_ledger \<Rightarrow> string \<Rightarrow> string \<Rightarrow>
   (native_engine_error, ('u \<times> path option) option) result" where
  "csp_document_owner E l document_url0 resource_name =
     res_bind (validate_url_text resource_name document_url0) (\<lambda>_.
     res_bind (parse_owner (en_lib E) document_url0 (resource_name @ '' is not valid URL syntax''))
       (\<lambda>document_url.
     res_bind (reject_credentials (en_lib E) document_url) (\<lambda>_.
       if is_network_url (en_lib E) (url_str (en_lib E) document_url) then Ok (Some (document_url, None))
       else if \<not> is_file_url (en_lib E) (url_str (en_lib E) document_url) then Ok None
       else
         res_bind (local_file_subresource_path E l (url_str (en_lib E) document_url)
           (url_str (en_lib E) document_url) resource_name) (\<lambda>found.
           case found of
             None \<Rightarrow> Ok None
           | Some (_, p) \<Rightarrow>
               Ok (map_option (\<lambda>root. (document_url, Some root)) (allowed_file_root_for_path l p))))))"

definition owner_url :: "string" where
  "owner_url = ''CSP document URL''"

definition document_policy ::
  "'u policy_env \<Rightarrow> policy_ledger \<Rightarrow> string \<Rightarrow> (native_engine_error, native_csp_policy option) result" where
  "document_policy E l document_url =
     res_bind (csp_document_owner E l document_url owner_url) (\<lambda>found.
       case found of
         None \<Rightarrow> Ok None
       | Some (url, _) \<Rightarrow> Ok (bt_get (document_policies l) (cache_key (en_lib E) url)))"

section \<open>Recording violations\<close>

definition queue_csp_violation ::
  "'u policy_env \<Rightarrow> native_csp_policy \<Rightarrow> 'u \<Rightarrow> string \<Rightarrow> string \<Rightarrow> policy_ledger \<Rightarrow>
   native_csp_declaration \<times> string \<Rightarrow> policy_ledger" where
  "queue_csp_violation E policy document_url blocked smp l entry =
     (let (declaration, directive) = entry in
      if MAX_NATIVE_CSP_VIOLATIONS \<le> length (csp_violations l) then l
      else
        let violation = csp_violation_record (en_lib E) document_url blocked directive
              (original_policy declaration) smp in
        l\<lparr>scheduled_reports := scheduled_reports l @
             csp_report_deliveries_for_declaration (en_lib E) (en_jsons E) (reporting_endpoints policy)
               declaration document_url violation,
          csp_violations := csp_violations l @ [violation]\<rparr>)"

definition record_report_only_url_violations_with_metadata_and_path ::
  "'u policy_env \<Rightarrow> native_csp_policy \<Rightarrow> native_subresource_kind \<Rightarrow> 'u \<Rightarrow> 'u \<Rightarrow> bool \<Rightarrow> string option \<Rightarrow>
   bool \<Rightarrow> policy_ledger \<Rightarrow> policy_ledger" where
  "record_report_only_url_violations_with_metadata_and_path E policy kind document_url resource_url
      parser_inserted nonce ignore_path l =
     (let violations =
            (if ignore_path
             then report_only_url_violations_for_redirect (en_lib E) policy kind document_url
                    resource_url parser_inserted nonce
             else report_only_url_violations (en_lib E) policy kind document_url resource_url
                    parser_inserted nonce) in
      foldl (queue_csp_violation E policy document_url
        (without_fragment (url_str (en_lib E) resource_url)) '''') l violations)"

definition record_report_only_url_violations_with_metadata ::
  "'u policy_env \<Rightarrow> native_csp_policy \<Rightarrow> native_subresource_kind \<Rightarrow> 'u \<Rightarrow> 'u \<Rightarrow> bool \<Rightarrow> string option \<Rightarrow>
   policy_ledger \<Rightarrow> policy_ledger" where
  "record_report_only_url_violations_with_metadata E policy kind document_url resource_url
      parser_inserted nonce l =
     record_report_only_url_violations_with_metadata_and_path E policy kind document_url resource_url
       parser_inserted nonce False l"

definition record_report_only_url_violations_for_redirect ::
  "'u policy_env \<Rightarrow> native_csp_policy \<Rightarrow> native_subresource_kind \<Rightarrow> 'u \<Rightarrow> 'u \<Rightarrow> bool \<Rightarrow> string option \<Rightarrow>
   policy_ledger \<Rightarrow> policy_ledger" where
  "record_report_only_url_violations_for_redirect E policy kind document_url resource_url
      parser_inserted nonce l =
     record_report_only_url_violations_with_metadata_and_path E policy kind document_url resource_url
       parser_inserted nonce True l"

definition record_report_only_url_violations ::
  "'u policy_env \<Rightarrow> native_csp_policy \<Rightarrow> native_subresource_kind \<Rightarrow> 'u \<Rightarrow> 'u \<Rightarrow> policy_ledger \<Rightarrow> policy_ledger" where
  "record_report_only_url_violations E policy kind document_url resource_url l =
     record_report_only_url_violations_with_metadata E policy kind document_url resource_url True None l"

definition record_report_only_navigation_violations ::
  "'u policy_env \<Rightarrow> native_csp_policy \<Rightarrow> native_navigation_policy_kind \<Rightarrow> 'u \<Rightarrow> 'u \<Rightarrow>
   policy_ledger \<Rightarrow> policy_ledger" where
  "record_report_only_navigation_violations E policy kind document_url target_url l =
     foldl (queue_csp_violation E policy document_url
       (without_fragment (url_str (en_lib E) target_url)) '''') l
       (report_only_navigation_violations (en_lib E) policy kind document_url target_url)"

definition record_report_only_inline_violations ::
  "'u policy_env \<Rightarrow> native_csp_policy \<Rightarrow> native_inline_csp_kind \<Rightarrow> 'u \<Rightarrow> string \<Rightarrow> string option \<Rightarrow>
   policy_ledger \<Rightarrow> policy_ledger" where
  "record_report_only_inline_violations E policy kind document_url source nonce l =
     foldl (queue_csp_violation E policy document_url ''inline'' (take_chars 40 source)) l
       (report_only_inline_violations (en_lib E) policy kind source nonce)"

definition take_csp_violations :: "policy_ledger \<Rightarrow> native_csp_violation list \<times> policy_ledger" where
  "take_csp_violations l = (csp_violations l, l\<lparr>csp_violations := []\<rparr>)"

section \<open>Inline scripts and styles\<close>

definition inline_script_policy ::
  "'u policy_env \<Rightarrow> policy_ledger \<Rightarrow> string \<Rightarrow> (native_engine_error, native_inline_script_policy) result" where
  "inline_script_policy E l document_url =
     res_bind (document_policy E l document_url) (\<lambda>found.
       Ok (case found of
             None \<Rightarrow> \<lparr>isp_policies = [], isp_report_only = [], isp_endpoints = []\<rparr>
           | Some p \<Rightarrow> \<lparr>isp_policies = csp_policies p, isp_report_only = report_only_policies p,
               isp_endpoints = reporting_endpoints p\<rparr>))"

text \<open>The common body of \<open>allows_inline_script\<close> and the two style checks.\<close>

definition allows_inline_kind ::
  "'u policy_env \<Rightarrow> native_inline_csp_kind \<Rightarrow> string \<Rightarrow> string \<Rightarrow> string option \<Rightarrow> bool \<Rightarrow> policy_ledger \<Rightarrow>
   (native_engine_error, bool) result \<times> policy_ledger" where
  "allows_inline_kind E kind document_url source nonce report l =
     (case csp_document_owner E l document_url owner_url of
        Inl e \<Rightarrow> (Err e, l)
      | Inr None \<Rightarrow> (Ok True, l)
      | Inr (Some (url, _)) \<Rightarrow>
          let policy = policy_of E l url in
          (Ok (policy_allows_inline (en_lib E) policy kind source nonce),
           if report then record_report_only_inline_violations E policy kind url source nonce l else l))"

definition allows_inline_script ::
  "'u policy_env \<Rightarrow> string \<Rightarrow> string \<Rightarrow> string option \<Rightarrow> policy_ledger \<Rightarrow>
   (native_engine_error, bool) result \<times> policy_ledger" where
  "allows_inline_script E document_url source nonce l =
     allows_inline_kind E ScriptElement document_url source nonce True l"

definition allows_inline_style_element_with_reporting ::
  "'u policy_env \<Rightarrow> string \<Rightarrow> string \<Rightarrow> string option \<Rightarrow> bool \<Rightarrow> policy_ledger \<Rightarrow>
   (native_engine_error, bool) result \<times> policy_ledger" where
  "allows_inline_style_element_with_reporting E document_url source nonce report l =
     allows_inline_kind E StyleElement document_url source nonce report l"

definition allows_inline_style_attribute_with_reporting ::
  "'u policy_env \<Rightarrow> string \<Rightarrow> string \<Rightarrow> bool \<Rightarrow> policy_ledger \<Rightarrow>
   (native_engine_error, bool) result \<times> policy_ledger" where
  "allows_inline_style_attribute_with_reporting E document_url source report l =
     allows_inline_kind E StyleAttribute document_url source None report l"

definition allows_inline_style_element ::
  "'u policy_env \<Rightarrow> string \<Rightarrow> string \<Rightarrow> string option \<Rightarrow> policy_ledger \<Rightarrow>
   (native_engine_error, bool) result \<times> policy_ledger" where
  "allows_inline_style_element E document_url source nonce l =
     allows_inline_style_element_with_reporting E document_url source nonce True l"

definition allows_inline_style_element_silent ::
  "'u policy_env \<Rightarrow> string \<Rightarrow> string \<Rightarrow> string option \<Rightarrow> policy_ledger \<Rightarrow>
   (native_engine_error, bool) result \<times> policy_ledger" where
  "allows_inline_style_element_silent E document_url source nonce l =
     allows_inline_style_element_with_reporting E document_url source nonce False l"

definition allows_inline_style_attribute ::
  "'u policy_env \<Rightarrow> string \<Rightarrow> string \<Rightarrow> policy_ledger \<Rightarrow>
   (native_engine_error, bool) result \<times> policy_ledger" where
  "allows_inline_style_attribute E document_url source l =
     allows_inline_style_attribute_with_reporting E document_url source True l"

definition allows_inline_style_attribute_silent ::
  "'u policy_env \<Rightarrow> string \<Rightarrow> string \<Rightarrow> policy_ledger \<Rightarrow>
   (native_engine_error, bool) result \<times> policy_ledger" where
  "allows_inline_style_attribute_silent E document_url source l =
     allows_inline_style_attribute_with_reporting E document_url source False l"

section \<open>Connections\<close>

record 'u native_websocket_target =
  ws_url :: 'u
  ws_cookie :: "string option"
  ws_violations :: "native_csp_violation list"
  ws_deliveries :: "native_csp_report_delivery list"

definition websocket_reports ::
  "'u policy_env \<Rightarrow> native_csp_policy \<Rightarrow> 'u \<Rightarrow> 'u \<Rightarrow> 'u \<Rightarrow>
   (native_csp_violation \<times> native_csp_report_delivery list) list" where
  "websocket_reports E policy document_url target_url policy_target =
     map (\<lambda>(declaration, directive).
            let violation = csp_violation_record (en_lib E) document_url
                  (without_fragment (url_str (en_lib E) target_url)) directive
                  (original_policy declaration) '''' in
            (violation,
             csp_report_deliveries_for_declaration (en_lib E) (en_jsons E) (reporting_endpoints policy)
               declaration document_url violation))
       (take MAX_NATIVE_CSP_VIOLATIONS
         (report_only_websocket_violations (en_lib E) policy document_url target_url policy_target))"

text \<open>\<open>websocket_target\<close>. The cookie header of the handshake comes from the cookie jar, a
  component of its own: \<open>cookie\<close> is its answer for the HTTP form of the address and the document.\<close>

definition websocket_target ::
  "'u policy_env \<Rightarrow> ('u \<Rightarrow> 'u \<Rightarrow> string option) \<Rightarrow> policy_ledger \<Rightarrow> string \<Rightarrow> string \<Rightarrow>
   (native_engine_error, 'u native_websocket_target) result" where
  "websocket_target E cookie l document_url0 href =
     res_bind (validate_url_text ''WebSocket owner URL'' document_url0) (\<lambda>_.
     res_bind (validate_url_text ''WebSocket URL'' href) (\<lambda>_.
     res_bind (parse_owner (en_lib E) document_url0 ''WebSocket owner URL is not valid HTTP(S) syntax'')
       (\<lambda>document_url.
     if \<not> is_network_url (en_lib E) (url_str (en_lib E) document_url) then
       Err (UnsupportedUrl ''WebSocket requires an HTTP(S) document owner'')
     else
     res_bind (reject_credentials (en_lib E) document_url) (\<lambda>_.
     res_bind (ok_or (UnsupportedUrl ''WebSocket URL could not be resolved against the document'')
       (url_join (en_lib E) document_url href)) (\<lambda>target_url.
     res_bind (reject_credentials (en_lib E) target_url) (\<lambda>_.
     if url_scheme (en_lib E) target_url \<notin> {''ws'', ''wss''} then
       Err (UnsupportedUrl ''WebSocket URL must use ws or wss'')
     else if url_scheme (en_lib E) document_url = ''https'' \<and> url_scheme (en_lib E) target_url = ''ws'' then
       Err (Network ''WebSocket policy'' ''HTTPS documents cannot open insecure ws connections'')
     else
       let policy = policy_of E l document_url;
           http_scheme = (if url_scheme (en_lib E) target_url = ''wss'' then ''https'' else ''http'') in
       res_bind (ok_or (UnsupportedUrl ''WebSocket policy URL could not be normalized'')
         (url_set_scheme (en_lib E) http_scheme target_url)) (\<lambda>policy_target.
       let reports = websocket_reports E policy document_url target_url policy_target in
       if \<not> policy_allows (en_lib E) policy Kind_Connect document_url target_url \<and>
          \<not> policy_allows (en_lib E) policy Kind_Connect document_url policy_target then
         Err (Network ''WebSocket policy'' ''document CSP blocked the WebSocket connect target'')
       else
         res_bind (ok_or (UnsupportedUrl ''WebSocket cookie URL could not be normalized'')
           (url_set_scheme (en_lib E) http_scheme target_url)) (\<lambda>cookie_target.
         Ok \<lparr>ws_url = target_url, ws_cookie = cookie cookie_target document_url,
              ws_violations = map fst reports, ws_deliveries = concat (map snd reports)\<rparr>))))))))"

definition enforce_service_worker_policy ::
  "'u policy_env \<Rightarrow> native_subresource_kind \<Rightarrow> string \<Rightarrow> string \<Rightarrow> policy_ledger \<Rightarrow> 'u \<Rightarrow> 'u \<Rightarrow>
   (native_engine_error, unit) result" where
  "enforce_service_worker_policy E kind operation blocked l document_url target_url =
     (if \<not> mixed_content_allowed (en_lib E) document_url target_url then
        Err (Network operation ''HTTPS documents cannot fetch HTTP resources'')
      else if \<not> policy_allows (en_lib E) (policy_of E l document_url) kind document_url target_url then
        Err (Network operation blocked)
      else Ok ())"

definition enforce_service_worker_connect_policy ::
  "'u policy_env \<Rightarrow> policy_ledger \<Rightarrow> 'u \<Rightarrow> 'u \<Rightarrow> (native_engine_error, unit) result" where
  "enforce_service_worker_connect_policy E =
     enforce_service_worker_policy E Kind_Connect ''service worker fetch policy''
       ''document CSP blocked the connect target''"

definition enforce_service_worker_font_policy ::
  "'u policy_env \<Rightarrow> policy_ledger \<Rightarrow> 'u \<Rightarrow> 'u \<Rightarrow> (native_engine_error, unit) result" where
  "enforce_service_worker_font_policy E =
     enforce_service_worker_policy E Kind_Font ''service worker font policy''
       ''document CSP blocked the font target''"

definition report_service_worker_connect_policy ::
  "'u policy_env \<Rightarrow> 'u \<Rightarrow> 'u \<Rightarrow> policy_ledger \<Rightarrow> policy_ledger" where
  "report_service_worker_connect_policy E document_url target_url l =
     record_report_only_url_violations E (policy_of E l document_url) Kind_Connect document_url target_url l"

definition report_service_worker_font_policy ::
  "'u policy_env \<Rightarrow> 'u \<Rightarrow> 'u \<Rightarrow> policy_ledger \<Rightarrow> policy_ledger" where
  "report_service_worker_font_policy E document_url target_url l =
     record_report_only_url_violations E (policy_of E l document_url) Kind_Font document_url target_url l"

section \<open>Frames, files and navigation\<close>

definition snapshot_owner ::
  "'u policy_env \<Rightarrow> string \<Rightarrow> string \<Rightarrow> (native_engine_error, 'u option) result" where
  "snapshot_owner E owner_name document_url0 =
     res_bind (validate_url_text owner_name document_url0) (\<lambda>_.
     res_bind (parse_owner (en_lib E) document_url0 (owner_name @ '' is not valid URL syntax''))
       (\<lambda>document_url.
       if \<not> is_network_url (en_lib E) (url_str (en_lib E) document_url) then Ok None
       else res_bind (reject_credentials (en_lib E) document_url) (\<lambda>_. Ok (Some document_url))))"

definition frame_sources_for_document ::
  "'u policy_env \<Rightarrow> policy_ledger \<Rightarrow> string \<Rightarrow> (native_engine_error, string list list option) result" where
  "frame_sources_for_document E l document_url0 =
     res_bind (snapshot_owner E ''frame policy owner URL'' document_url0) (\<lambda>owner.
       Ok (case owner of
             None \<Rightarrow> None
           | Some url \<Rightarrow>
               Option.bind (bt_get (document_policies l) (cache_key (en_lib E) url)) frame_source_groups))"

definition navigation_sources_for_document ::
  "'u policy_env \<Rightarrow> policy_ledger \<Rightarrow> string \<Rightarrow> native_navigation_policy_kind \<Rightarrow>
   (native_engine_error, string list list option) result" where
  "navigation_sources_for_document E l document_url0 kind =
     res_bind (snapshot_owner E ''navigation policy owner URL'' document_url0) (\<lambda>owner.
       Ok (case owner of
             None \<Rightarrow> None
           | Some url \<Rightarrow>
               Option.bind (bt_get (document_policies l) (cache_key (en_lib E) url))
                 (\<lambda>p. navigation_source_groups p kind)))"

definition rooted_file_subresource_allowed ::
  "'u policy_env \<Rightarrow> policy_ledger \<Rightarrow> string \<Rightarrow> 'u \<Rightarrow> path \<Rightarrow> native_subresource_kind \<Rightarrow> string \<Rightarrow>
   (native_engine_error, bool) result" where
  "rooted_file_subresource_allowed E l document_url resource_url resource_path kind resource_name =
     res_bind (csp_document_owner E l document_url resource_name) (\<lambda>found.
       case found of
         Some (owner, Some _) \<Rightarrow>
           (case allowed_file_root_for_path l resource_path of
              None \<Rightarrow> Ok False
            | Some root \<Rightarrow>
                Ok (policy_allows_rooted_file_resource (en_lib E) (policy_of E l owner) kind owner
                      resource_url (Some root)))
       | _ \<Rightarrow> Ok True)"

definition allows_rooted_file_frame_navigation ::
  "'u policy_env \<Rightarrow> policy_ledger \<Rightarrow> string \<Rightarrow> string \<Rightarrow> (native_engine_error, bool) result" where
  "allows_rooted_file_frame_navigation E l document_url0 target_url0 =
     res_bind (validate_url_text ''frame policy owner URL'' document_url0) (\<lambda>_.
     res_bind (validate_url_text ''embedded frame URL'' target_url0) (\<lambda>_.
     if without_fragment target_url0 = ''about:blank'' then Ok True
     else
     res_bind (csp_document_owner E l document_url0 ''frame policy owner URL'') (\<lambda>found.
       case found of
         Some (document_url, Some _) \<Rightarrow>
           res_bind (parse_owner (en_lib E) target_url0 ''embedded frame URL is not valid URL syntax'')
             (\<lambda>target_url.
           res_bind (reject_credentials (en_lib E) target_url) (\<lambda>_.
             case bt_get (document_policies l) (cache_key (en_lib E) document_url) of
               None \<Rightarrow> Ok True
             | Some policy \<Rightarrow>
                 let decide = (\<lambda>root. Ok (policy_allows_rooted_file_resource (en_lib E) policy Kind_Frame
                                document_url target_url root)) in
                 if is_file_url (en_lib E) (url_str (en_lib E) target_url) then
                   (case allowed_file_path E l target_url ''file frame'' of
                      Inl (UnsupportedUrl _) \<Rightarrow> Ok False
                    | Inl e \<Rightarrow> Err e
                    | Inr p \<Rightarrow>
                        (case allowed_file_root_for_path l p of
                           None \<Rightarrow> Ok False
                         | Some root \<Rightarrow> decide (Some root)))
                 else decide None))
       | _ \<Rightarrow> Ok True)))"

definition navigation_policy ::
  "'u policy_env \<Rightarrow> policy_ledger \<Rightarrow> string \<Rightarrow> string \<Rightarrow>
   (native_engine_error, 'u \<times> 'u \<times> native_csp_policy) result" where
  "navigation_policy E l document_url0 target_url0 =
     res_bind (validate_url_text ''CSP navigation owner URL'' document_url0) (\<lambda>_.
     res_bind (validate_url_text ''CSP navigation target URL'' target_url0) (\<lambda>_.
     res_bind (parse_owner (en_lib E) document_url0 ''CSP navigation owner URL is not valid URL syntax'')
       (\<lambda>document_url.
     res_bind (parse_owner (en_lib E) target_url0 ''CSP navigation target URL is not valid URL syntax'')
       (\<lambda>target_url.
     res_bind (reject_credentials (en_lib E) document_url) (\<lambda>_.
     res_bind (reject_credentials (en_lib E) target_url) (\<lambda>_.
       if \<not> is_network_url (en_lib E) (url_str (en_lib E) document_url)
       then Ok (document_url, target_url, default_policy_csp)
       else Ok (document_url, target_url, policy_of E l document_url)))))))"

definition allows_navigation ::
  "'u policy_env \<Rightarrow> string \<Rightarrow> string \<Rightarrow> native_navigation_policy_kind \<Rightarrow> policy_ledger \<Rightarrow>
   (native_engine_error, bool) result \<times> policy_ledger" where
  "allows_navigation E document_url0 target_url0 kind l =
     (case navigation_policy E l document_url0 target_url0 of
        Inl e \<Rightarrow> (Err e, l)
      | Inr (document_url, target_url, policy) \<Rightarrow>
          (Ok (policy_allows_navigation (en_lib E) policy kind document_url target_url),
           record_report_only_navigation_violations E policy kind document_url target_url l))"

definition allows_navigation_silent ::
  "'u policy_env \<Rightarrow> policy_ledger \<Rightarrow> string \<Rightarrow> string \<Rightarrow> native_navigation_policy_kind \<Rightarrow>
   (native_engine_error, bool) result" where
  "allows_navigation_silent E l document_url0 target_url0 kind =
     res_bind (navigation_policy E l document_url0 target_url0)
       (\<lambda>(document_url, target_url, policy).
          Ok (policy_allows_navigation (en_lib E) policy kind document_url target_url))"

section \<open>Changing a document's policies\<close>

text \<open>\<open>entry(key).or_default()\<close>, then the root, then the change: the entry and the root stay when the
  change is refused.\<close>

definition change_meta_policies ::
  "(native_csp_policy \<Rightarrow> (native_engine_error, native_csp_policy) result) \<Rightarrow> string \<Rightarrow> path option \<Rightarrow>
   policy_ledger \<Rightarrow> (native_engine_error, unit) result \<times> policy_ledger" where
  "change_meta_policies f key file_root l =
     (let policy = (bt_get_or default_policy_csp (document_policies l) key)\<lparr>rooted_file_self_root := file_root\<rparr> in
      case f policy of
        Inl e \<Rightarrow> (Err e, l\<lparr>document_policies := bt_insert key policy (document_policies l)\<rparr>)
      | Inr changed \<Rightarrow> (Ok (), l\<lparr>document_policies := bt_insert key changed (document_policies l)\<rparr>))"

definition meta_owner_name :: string where
  "meta_owner_name = ''CSP meta policy owner URL''"

definition apply_meta_content_security_policies ::
  "'u policy_env \<Rightarrow> string \<Rightarrow> string list \<Rightarrow> policy_ledger \<Rightarrow>
   (native_engine_error, unit) result \<times> policy_ledger" where
  "apply_meta_content_security_policies E document_url values l =
     (case csp_document_owner E l document_url meta_owner_name of
        Inl e \<Rightarrow> (Err e, l)
      | Inr None \<Rightarrow> (Ok (), l)
      | Inr (Some (url, file_root)) \<Rightarrow>
          if MAX_NATIVE_CSP_POLICIES < length values then
            (Err (limit_error ''CSP meta policies'' MAX_NATIVE_CSP_POLICIES (length values)), l)
          else change_meta_policies (replace_meta_policies values) (cache_key (en_lib E) url) file_root l)"

definition append_meta_content_security_policies ::
  "'u policy_env \<Rightarrow> string \<Rightarrow> string list \<Rightarrow> policy_ledger \<Rightarrow>
   (native_engine_error, unit) result \<times> policy_ledger" where
  "append_meta_content_security_policies E document_url values l =
     (if values = [] then (Ok (), l)
      else
        (case csp_document_owner E l document_url meta_owner_name of
           Inl e \<Rightarrow> (Err e, l)
         | Inr None \<Rightarrow> (Ok (), l)
         | Inr (Some (url, file_root)) \<Rightarrow>
             if MAX_NATIVE_CSP_POLICIES < length values then
               (Err (limit_error ''CSP meta policies'' MAX_NATIVE_CSP_POLICIES (length values)), l)
             else change_meta_policies (append_meta_policies values) (cache_key (en_lib E) url) file_root l))"

definition document_meta_content_security_policies ::
  "'u policy_env \<Rightarrow> policy_ledger \<Rightarrow> string \<Rightarrow> (native_engine_error, string list) result" where
  "document_meta_content_security_policies E l document_url =
     res_bind (csp_document_owner E l document_url meta_owner_name) (\<lambda>found.
       Ok (case found of
             None \<Rightarrow> []
           | Some (url, _) \<Rightarrow>
               (case bt_get (document_policies l) (cache_key (en_lib E) url) of
                  None \<Rightarrow> []
                | Some p \<Rightarrow> meta_policy_sources p)))"

definition add_policy_pair ::
  "json_lib \<Rightarrow> native_csp_policy \<Rightarrow> string \<times> string \<Rightarrow> native_csp_policy" where
  "add_policy_pair J policy nv =
     (let (name, value) = nv in
      if eq_ignore_ascii_case name ''content-security-policy'' then
        policy\<lparr>csp_policies := csp_policies policy @ [parse_csp_directives value]\<rparr>
      else if eq_ignore_ascii_case name ''content-security-policy-report-only'' then
        policy\<lparr>report_only_policies := report_only_policies policy @
                 [\<lparr>directives = parse_csp_directives value, original_policy = value\<rparr>]\<rparr>
      else if eq_ignore_ascii_case name ''reporting-endpoints'' \<or> eq_ignore_ascii_case name ''report-to'' then
        add_reporting_endpoint_header J policy name value
      else policy)"

fun policy_from_pairs ::
  "json_lib \<Rightarrow> (string \<times> string) list \<Rightarrow> native_csp_policy \<Rightarrow> (native_engine_error, native_csp_policy) result" where
  "policy_from_pairs J [] policy = Ok policy"
| "policy_from_pairs J (nv # nvs) policy =
     (if MAX_NATIVE_RESPONSE_HEADER_VALUE_BYTES < length (snd nv) then
        Err (limit_error ''CSP response policy'' MAX_NATIVE_RESPONSE_HEADER_VALUE_BYTES (length (snd nv)))
      else policy_from_pairs J nvs (add_policy_pair J policy nv))"

definition counted :: "native_csp_policy \<Rightarrow> native_csp_policy" where
  "counted policy = policy\<lparr>header_policy_count := length (csp_policies policy)\<rparr>"

definition set_document_content_security_policy_from_pairs ::
  "'u policy_env \<Rightarrow> string \<Rightarrow> (string \<times> string) list \<Rightarrow> policy_ledger \<Rightarrow>
   (native_engine_error, unit) result \<times> policy_ledger" where
  "set_document_content_security_policy_from_pairs E document_url0 headers l =
     (case snapshot_owner E ''CSP response policy owner URL'' document_url0 of
        Inl e \<Rightarrow> (Err e, l)
      | Inr None \<Rightarrow> (Ok (), l)
      | Inr (Some url) \<Rightarrow>
          (case policy_from_pairs (en_jsons E) headers default_policy_csp of
             Inl e \<Rightarrow> (Err e, l)
           | Inr policy \<Rightarrow>
               (Ok (),
                store_document_referrer_policy (cache_key (en_lib E) url)
                  (referrer_policy_from_header_pairs headers)
                  (store_document_policy (cache_key (en_lib E) url) (counted policy) l))))"

text \<open>What a document load commits for its final address (\<open>navigation_load.rs\<close>, after the body), and
  what a revalidation with status 304 updates.\<close>

definition commit_response_policies ::
  "'u policy_env \<Rightarrow> 'u \<Rightarrow> header_values \<Rightarrow> policy_ledger \<Rightarrow>
   (native_engine_error, unit) result \<times> policy_ledger" where
  "commit_response_policies E final_url headers l =
     (let key = cache_key (en_lib E) final_url;
          l1 = store_document_policy key (content_security_policy (en_jsons E) headers) l in
      case document_response_policy_headers headers of
        Inl e \<Rightarrow> (Err e, l1)
      | Inr pairs \<Rightarrow>
          (Ok (),
           store_document_referrer_policy key (referrer_policy_from_headers headers)
             (store_document_response_policy_headers key pairs l1)))"

definition revalidate_response_policies ::
  "string \<Rightarrow> header_values \<Rightarrow> policy_ledger \<Rightarrow> (native_engine_error, unit) result \<times> policy_ledger" where
  "revalidate_response_policies key headers l =
     (case document_response_policy_headers headers of
        Inl e \<Rightarrow> (Err e, l)
      | Inr updates \<Rightarrow>
          let l1 = (if updates = [] then l
                    else store_document_response_policy_headers key
                           (merge_document_response_policy_headers
                             (bt_get_or [] (response_policy_headers l) key) updates)
                           (l\<lparr>response_policy_headers := bt_remove key (response_policy_headers l)\<rparr>)) in
          (Ok (),
           if headers ''referrer-policy'' \<noteq> []
           then store_document_referrer_policy key (referrer_policy_from_headers headers) l1 else l1))"

text \<open>A frame whose document has no address of its own takes over the policy of its parent's loader.\<close>

definition inherit_document_policy_from ::
  "'u policy_env \<Rightarrow> policy_ledger \<Rightarrow> string \<Rightarrow> policy_ledger \<Rightarrow> (native_engine_error, unit) result \<times> policy_ledger" where
  "inherit_document_policy_from E parent document_url l =
     (case url_parse (en_lib E) (without_fragment document_url) of
        None \<Rightarrow> (Err (UnsupportedUrl ''inherited resource policy URL is invalid''), l)
      | Some parsed \<Rightarrow>
          let key = cache_key (en_lib E) parsed in
          (Ok (),
           case bt_get (document_policies parent) key of
             None \<Rightarrow> l
           | Some policy \<Rightarrow> l\<lparr>document_policies := bt_insert key policy (document_policies l)\<rparr>))"

definition document_referrer_policy ::
  "'u policy_env \<Rightarrow> policy_ledger \<Rightarrow> string \<Rightarrow> (native_engine_error, native_fetch_referrer_policy) result" where
  "document_referrer_policy E l document_url0 =
     res_bind (ok_or (UnsupportedUrl ''Document referrer policy owner URL is not valid URL syntax'')
       (url_parse (en_lib E) document_url0)) (\<lambda>url.
     res_bind (reject_credentials (en_lib E) url) (\<lambda>_.
       Ok (bt_get_or StrictOriginWhenCrossOrigin (referrer_policies l) (cache_key (en_lib E) url))))"

definition stored_response_policy_headers ::
  "'u policy_env \<Rightarrow> policy_ledger \<Rightarrow> string \<Rightarrow> (native_engine_error, (string \<times> string) list) result" where
  "stored_response_policy_headers E l document_url0 =
     res_bind (parse_owner (en_lib E) document_url0
       ''Document response policy owner URL is not valid URL syntax'') (\<lambda>url.
     res_bind (reject_credentials (en_lib E) url) (\<lambda>_.
       Ok (bt_get_or [] (response_policy_headers l) (cache_key (en_lib E) url))))"

end
