(* ===== verification/Csp_Meaning.thy ===== *)
theory Csp_Meaning
  imports Csp_Source
begin

text \<open>
  The meaning of the matchers. A host source is exactly a text of the grammar; a wildcard host
  matches the hosts with more labels in front of its own; a nonce source lists one nonce; the check
  of a redirect is the check of the request with the path forgotten, so its answer depends on nothing
  of the path.
\<close>

section \<open>The characters of the parts\<close>

definition part_char :: "char \<Rightarrow> bool" where
  "part_char c \<longleftrightarrow> byte c < 128 \<and> c \<noteq> CHR '':'' \<and> c \<noteq> CHR ''/''"

lemma alphabetic_plain: "is_ascii_alphabetic c \<Longrightarrow> part_char c"
  by (auto simp: is_ascii_alphabetic_def part_char_def byte_def)

lemma digit_plain: "byte_is_digit c \<Longrightarrow> part_char c"
  by (auto simp: byte_is_digit_def part_char_def byte_def)

lemma alphanumeric_plain: "is_ascii_alphanumeric c \<Longrightarrow> part_char c"
  by (auto simp: is_ascii_alphanumeric_def intro: alphabetic_plain digit_plain)

lemma part_chars [simp]:
  "part_char (CHR ''+'')" "part_char (CHR ''-'')" "part_char (CHR ''.'')" "part_char (CHR ''*'')"
  by (simp_all add: part_char_def byte_def)

lemma scheme_plain: "csp_scheme_part_is_valid s \<Longrightarrow> list_all part_char s"
  by (cases s) (auto simp: csp_scheme_part_is_valid_def list_all_iff
      dest: alphabetic_plain alphanumeric_plain)

lemma label_plain: "host_label_ok l \<Longrightarrow> list_all part_char l"
  by (auto simp: host_label_ok_def list_all_iff intro: alphanumeric_plain)

lemma joined_plain:
  "list_all host_label_ok ls \<Longrightarrow> list_all part_char (join_with (CHR ''.'') ls)"
proof (induction ls)
  case (Cons l ls)
  then show ?case by (cases ls) (auto dest: label_plain)
qed simp

lemma labels_plain:
  "list_all host_label_ok (split_on (CHR ''.'') h) \<Longrightarrow> list_all part_char h"
  using joined_plain[of "split_on (CHR ''.'') h"] by simp

lemma host_cases:
  assumes "csp_host_part_is_valid v"
  obtains "v = ''*''"
  | h where "v = h \<or> v = ''*.'' @ h" "h \<noteq> []" "CHR ''*'' \<notin> set h"
      "list_all host_label_ok (split_on (CHR ''.'') h) \<or>
       (\<exists>g. h = g @ ''.'' \<and> g \<noteq> [] \<and> list_all host_label_ok (split_on (CHR ''.'') g))"
proof (cases "v = ''*''")
  case False
  obtain h where h: "h = (case strip_prefix ''*.'' v of Some h \<Rightarrow> h | None \<Rightarrow> v)" by blast
  have v: "v = h \<or> v = ''*.'' @ h"
    using strip_prefix_Some_iff[of "''*.''" v] by (auto simp: h split: option.splits)
  have ok: "h \<noteq> []" "CHR ''*'' \<notin> set h"
      "list_all host_label_ok (split_on (CHR ''.'')
         (case strip_suffix ''.'' h of Some g \<Rightarrow> g | None \<Rightarrow> h))"
      "(case strip_suffix ''.'' h of Some g \<Rightarrow> g | None \<Rightarrow> h) \<noteq> []"
    using assms False by (auto simp: csp_host_part_is_valid_def h[symmetric] Let_def split: if_splits)
  show ?thesis
  proof (cases "strip_suffix ''.'' h")
    case None
    then show ?thesis using ok v by (intro that(2)[of h]) auto
  next
    case (Some g)
    have "g \<noteq> []" "list_all host_label_ok (split_on (CHR ''.'') g)"
      using ok(3,4) unfolding Some by simp_all
    moreover have "h = g @ ''.''" using Some by (simp add: strip_suffix_Some_iff)
    ultimately show ?thesis using ok(1,2) v by (intro that(2)[of h]) blast+
  qed
qed (use that in blast)

lemma host_plain: "csp_host_part_is_valid h \<Longrightarrow> list_all part_char h"
  by (elim host_cases) (auto dest: labels_plain)

lemma host_nonempty: "csp_host_part_is_valid h \<Longrightarrow> h \<noteq> []"
  by (elim host_cases) auto

lemma port_plain: "port_text_ok p \<Longrightarrow> list_all part_char p"
  by (auto simp: port_text_ok_def list_all_iff dest: digit_plain)

lemma port_nonempty: "port_text_ok p \<Longrightarrow> p \<noteq> []"
  by (simp add: port_text_ok_def)

lemma plain_not_in:
  assumes "list_all part_char s"
  shows "CHR '':'' \<notin> set s" "CHR ''/'' \<notin> set s" "is_ascii s"
  using assms by (auto simp: list_all_iff part_char_def is_ascii_def)

lemmas part_facts =
  scheme_plain[THEN plain_not_in(1)] scheme_plain[THEN plain_not_in(2)] scheme_plain[THEN plain_not_in(3)]
  host_plain[THEN plain_not_in(1)] host_plain[THEN plain_not_in(2)] host_plain[THEN plain_not_in(3)]
  port_plain[THEN plain_not_in(1)] port_plain[THEN plain_not_in(2)] port_plain[THEN plain_not_in(3)]
  host_nonempty port_nonempty

lemma path_facts:
  assumes "csp_path_part_is_valid p"
  shows "\<exists>q. p = CHR ''/'' # q" "is_ascii p"
  using assms by (auto simp: csp_path_part_is_valid_def starts_with_iff split: if_splits)

lemma is_ascii_append [simp]: "is_ascii (a @ b) \<longleftrightarrow> is_ascii a \<and> is_ascii b"
  by (simp add: is_ascii_def)

lemma is_ascii_Cons [simp]: "is_ascii (c # b) \<longleftrightarrow> byte c < 128 \<and> is_ascii b"
  by (simp add: is_ascii_def)

section \<open>The parser decides the grammar\<close>

lemma infix_after: "CHR '':'' \<notin> set a \<Longrightarrow> has_infix ''://'' (a @ b) = has_infix ''://'' b"
  by (induction a) (auto simp: starts_with_iff)

lemma infix_colon:
  "p \<noteq> [] \<Longrightarrow> CHR '':'' \<notin> set p \<Longrightarrow> CHR ''/'' \<notin> set p \<Longrightarrow>
   has_infix ''://'' (CHR '':'' # p @ b) = has_infix ''://'' b"
  using infix_after[of p b] by (cases p) (auto simp: starts_with_iff)

lemma split_once_str_None_iff: "p \<noteq> [] \<Longrightarrow> split_once_str p s = None \<longleftrightarrow> \<not> has_infix p s"
  by (induction s) auto

lemma split_once_str_Some: "split_once_str p s = Some (a, b) \<Longrightarrow> s = a @ p @ b"
  by (induction s arbitrary: a) (auto simp: starts_with_iff split: if_splits)

lemma split_once_str_first:
  "CHR '':'' \<notin> set a \<Longrightarrow> split_once_str ''://'' (a @ ''://'' @ b) = Some (a, b)"
  by (induction a) (auto simp: starts_with_iff)

definition authority_of :: "native_csp_host_source \<Rightarrow> string" where
  "authority_of h = hs_host h @ (case hs_port h of None \<Rightarrow> [] | Some p \<Rightarrow> CHR '':'' # p)"

definition path_text :: "native_csp_host_source \<Rightarrow> string" where
  "path_text h = (case hs_path h of None \<Rightarrow> [] | Some p \<Rightarrow> p)"

lemma print_parts:
  "print_host_source h =
     (case hs_scheme h of None \<Rightarrow> [] | Some s \<Rightarrow> s @ ''://'') @ authority_of h @ path_text h"
  by (simp add: print_host_source_def authority_of_def path_text_def)

lemma wf_parts:
  assumes "host_source_wf h"
  shows "csp_host_part_is_valid (hs_host h)"
    "hs_scheme h = Some s \<Longrightarrow> csp_scheme_part_is_valid s"
    "hs_port h = Some p \<Longrightarrow> port_text_ok p"
    "hs_path h = Some q \<Longrightarrow> csp_path_part_is_valid q"
    "hs_scheme h = None \<Longrightarrow> hs_path h = Some q \<Longrightarrow> \<not> has_infix ''://'' q"
  using assms by (simp_all add: host_source_wf_def)

lemma authority_plain:
  assumes "host_source_wf h"
  shows "authority_of h \<noteq> []" "CHR ''/'' \<notin> set (authority_of h)" "is_ascii (authority_of h)"
proof -
  note host = part_facts(4-6)[OF wf_parts(1)[OF assms]] host_nonempty[OF wf_parts(1)[OF assms]]
  show "authority_of h \<noteq> []" using host by (simp add: authority_of_def)
  show "CHR ''/'' \<notin> set (authority_of h)"
    using host wf_parts(3)[OF assms] by (cases "hs_port h") (auto simp: authority_of_def dest: part_facts(8))
  show "is_ascii (authority_of h)"
    using host wf_parts(3)[OF assms]
    by (cases "hs_port h") (auto simp: authority_of_def byte_def is_ascii_def[of "[]"] dest: part_facts(9))
qed

lemma authority_colons:
  assumes "host_source_wf h"
  shows "has_infix ''://'' (authority_of h @ b) = has_infix ''://'' b"
    "rsplit_once (CHR '':'') (authority_of h) = map_option (\<lambda>p. (hs_host h, p)) (hs_port h)"
proof -
  note host = part_facts(4)[OF wf_parts(1)[OF assms]]
  show "has_infix ''://'' (authority_of h @ b) = has_infix ''://'' b"
  proof (cases "hs_port h")
    case None
    then show ?thesis using host infix_after by (simp add: authority_of_def)
  next
    case (Some p)
    note port = part_facts(7,8,11)[OF wf_parts(3)[OF assms Some]]
    show ?thesis
      using infix_after[OF host, of "CHR '':'' # p @ b"] infix_colon[OF port(3,1,2), of b] Some
      by (simp add: authority_of_def)
  qed
  show "rsplit_once (CHR '':'') (authority_of h) = map_option (\<lambda>p. (hs_host h, p)) (hs_port h)"
  proof (cases "hs_port h")
    case None
    then show ?thesis using host by (simp add: authority_of_def rsplit_once_None_iff)
  next
    case (Some p)
    then show ?thesis
      using part_facts(7)[OF wf_parts(3)[OF assms Some]] by (simp add: authority_of_def rsplit_once_Some_iff)
  qed
qed

lemma path_text_split:
  assumes "host_source_wf h"
  shows "split_once (CHR ''/'') (authority_of h @ path_text h) =
    map_option (\<lambda>p. (authority_of h, tl p)) (hs_path h)"
proof (cases "hs_path h")
  case None
  then show ?thesis using authority_plain(2)[OF assms] by (simp add: path_text_def split_once_None_iff)
next
  case (Some p)
  then obtain q where "p = CHR ''/'' # q"
    using assms path_facts(1)[of p] by (auto simp: host_source_wf_def)
  then show ?thesis
    using Some authority_plain(2)[OF assms] by (simp add: path_text_def split_once_Some_iff)
qed

lemma scheme_split:
  assumes "host_source_wf h"
  shows "split_once_str ''://'' (print_host_source h) =
    map_option (\<lambda>s. (s, authority_of h @ path_text h)) (hs_scheme h)"
proof (cases "hs_scheme h")
  case None
  then have "\<not> has_infix ''://'' (path_text h)"
    using assms by (cases "hs_path h") (auto simp: host_source_wf_def path_text_def)
  then show ?thesis
    using None authority_colons(1)[OF assms] by (simp add: print_parts split_once_str_None_iff)
next
  case (Some s)
  then have "CHR '':'' \<notin> set s" using assms by (simp add: host_source_wf_def part_facts)
  then show ?thesis using Some split_once_str_first by (simp add: print_parts)
qed

lemma print_ascii:
  assumes "host_source_wf h"
  shows "is_ascii (print_host_source h)" "print_host_source h \<noteq> []"
proof -
  have "is_ascii (path_text h)"
    using wf_parts(4)[OF assms] path_facts(2) by (cases "hs_path h") (auto simp: path_text_def is_ascii_def[of "[]"])
  moreover have "is_ascii (case hs_scheme h of None \<Rightarrow> [] | Some s \<Rightarrow> s @ ''://'')"
    using wf_parts(2)[OF assms] part_facts(3)
    by (cases "hs_scheme h") (auto simp: byte_def is_ascii_def[of "[]"])
  ultimately show "is_ascii (print_host_source h)"
    using authority_plain(3)[OF assms] by (simp add: print_parts)
  show "print_host_source h \<noteq> []" using authority_plain(1)[OF assms] by (simp add: print_parts)
qed

lemma parse_printed:
  assumes "host_source_wf h"
  shows "parse_csp_host_source (print_host_source h) = Some h"
proof -
  obtain sch host port path where
    h: "h = \<lparr>hs_scheme = sch, hs_host = host, hs_port = port, hs_path = path\<rparr>" by (cases h)
  have auth: "authority_of h @ path_text h = authority_of h" if "path = None"
    using that by (simp add: h path_text_def)
  have slash: "CHR ''/'' # tl p = p" if "path = Some p" for p
    using that path_facts(1)[OF wf_parts(4)[OF assms]] by (auto simp: h)
  have s: "split_once_str ''://'' (print_host_source h) =
      map_option (\<lambda>s. (s, authority_of h @ path_text h)) sch"
    using scheme_split[OF assms] by (simp add: h)
  have p: "split_once (CHR ''/'') (authority_of h @ path_text h) = map_option (\<lambda>p. (authority_of h, tl p)) path"
    using path_text_split[OF assms] by (simp add: h)
  have r: "rsplit_once (CHR '':'') (authority_of h) = map_option (\<lambda>p. (host, p)) port"
    using authority_colons(2)[OF assms] by (simp add: h)
  have a: "authority_of h = host" if "port = None" using that by (simp add: h authority_of_def)
  have ok: "pred_option csp_scheme_part_is_valid sch" "csp_host_part_is_valid host"
    "pred_option port_text_ok port" "pred_option csp_path_part_is_valid path"
    using assms by (simp_all add: h host_source_wf_def)
  have sch': "(case split_once_str ''://'' (print_host_source h) of
      None \<Rightarrow> (None, print_host_source h) | Some (s, r) \<Rightarrow> (Some s, r)) = (sch, authority_of h @ path_text h)"
    unfolding s by (cases sch) (simp_all add: print_parts h)
  have path': "(case split_once (CHR ''/'') (authority_of h @ path_text h) of
      None \<Rightarrow> (authority_of h @ path_text h, None)
    | Some (a, p) \<Rightarrow> (a, Some (CHR ''/'' # p))) = (authority_of h, path)"
    unfolding p using auth slash by (cases path) simp_all
  have port': "(case rsplit_once (CHR '':'') (authority_of h) of
      None \<Rightarrow> Some (authority_of h, None)
    | Some (hh, pp) \<Rightarrow> if port_text_ok pp then Some (hh, Some pp) else None) = Some (host, port)"
    unfolding r using a ok(3) by (cases port) simp_all
  have guards: "\<not> (case sch of None \<Rightarrow> False | Some sch \<Rightarrow> \<not> csp_scheme_part_is_valid sch)"
    "\<not> (case path of None \<Rightarrow> False | Some p \<Rightarrow> \<not> csp_path_part_is_valid p)"
    using ok by (auto split: option.splits)
  show ?thesis
    unfolding parse_csp_host_source_def sch' Let_def prod.case path' port'
    using print_ascii[OF assms] authority_plain(1)[OF assms] guards ok(2) by (simp add: h)
qed

lemma parsed_prints:
  assumes "parse_csp_host_source e = Some h"
  shows "host_source_wf h \<and> print_host_source h = e"
proof -
  obtain sch rest where sch: "(case split_once_str ''://'' e of
      Some (s, r) \<Rightarrow> (Some s, r) | None \<Rightarrow> (None, e)) = (sch, rest)" by fastforce
  obtain auth path where path: "(case split_once (CHR ''/'') rest of
      None \<Rightarrow> (rest, None) | Some (a, p) \<Rightarrow> (a, Some (CHR ''/'' # p))) = (auth, path)" by fastforce
  obtain host port where hp: "(case rsplit_once (CHR '':'') auth of
      None \<Rightarrow> Some (auth, None)
    | Some (hh, pp) \<Rightarrow> if port_text_ok pp then Some (hh, Some pp) else None) = Some (host, port)"
    and h: "h = \<lparr>hs_scheme = sch, hs_host = host, hs_port = port, hs_path = path\<rparr>"
    and ok: "pred_option csp_scheme_part_is_valid sch" "csp_host_part_is_valid host"
      "pred_option csp_path_part_is_valid path"
    using assms by (auto simp: parse_csp_host_source_def sch path split: if_splits option.splits)
  have e: "e = (case sch of None \<Rightarrow> [] | Some s \<Rightarrow> s @ ''://'') @ rest"
    and no_sep: "sch = None \<Longrightarrow> \<not> has_infix ''://'' e"
    using sch by (auto dest: split_once_str_Some simp: split_once_str_None_iff split: option.splits)
  have rest: "rest = auth @ (case path of None \<Rightarrow> [] | Some p \<Rightarrow> p)"
    using path by (auto simp: split_once_Some_iff split: option.splits)
  have auth: "auth = host @ (case port of None \<Rightarrow> [] | Some p \<Rightarrow> CHR '':'' # p)"
    and port: "pred_option port_text_ok port"
    using hp by (auto simp: rsplit_once_Some_iff split: option.splits if_splits)
  have "\<not> has_infix ''://'' p" if "sch = None" "path = Some p" for p
    using no_sep[OF that(1)] that port ok(2)
    by (cases port) (auto simp: e rest auth infix_after infix_colon part_facts)
  then show ?thesis
    using ok port by (cases path) (auto simp: h host_source_wf_def print_host_source_def e rest auth)
qed

lemma parse_csp_host_source_iff:
  "parse_csp_host_source e = Some h \<longleftrightarrow> host_source_wf h \<and> print_host_source h = e"
  using parse_printed parsed_prints by blast

section \<open>Hosts\<close>

text \<open>The labels of a host name, without the trailing dots and in lower case.\<close>

definition host_labels :: "string \<Rightarrow> string list" where
  "host_labels h = split_on (CHR ''.'') (to_ascii_lowercase (trim_end_matches (CHR ''.'') h))"

lemma lower_byte_fixed:
  "lower_byte c = CHR ''*'' \<longleftrightarrow> c = CHR ''*''" "lower_byte c = CHR ''.'' \<longleftrightarrow> c = CHR ''.''"
proof -
  have "byte (lower_byte c) = (if 65 \<le> byte c \<and> byte c \<le> 90 then byte c + 32 else byte c)"
    by (simp add: lower_byte_def byte_char_of)
  then show "lower_byte c = CHR ''*'' \<longleftrightarrow> c = CHR ''*''" "lower_byte c = CHR ''.'' \<longleftrightarrow> c = CHR ''.''"
    by (auto simp: byte_inj[symmetric] split: if_splits) (auto simp: byte_def)
qed

lemma star_lower: "CHR ''*'' \<in> set (to_ascii_lowercase s) \<longleftrightarrow> CHR ''*'' \<in> set s"
  by (induction s) (auto simp: lower_byte_fixed eq_commute[of "CHR ''*''"])

lemma trim_end_subset: "set (trim_end_matches c s) \<subseteq> set s"
  by (auto simp: trim_end_matches_def dest: set_dropWhileD)

lemma trim_end_append:
  "\<exists>x \<in> set b. x \<noteq> c \<Longrightarrow> trim_end_matches c (a @ b) = a @ trim_end_matches c b"
  by (auto simp: trim_end_matches_def dropWhile_append1)

lemma labels_nondot:
  assumes "list_all host_label_ok (split_on (CHR ''.'') g)"
  shows "\<exists>x \<in> set g. x \<noteq> CHR ''.''"
proof -
  obtain l ls where l: "split_on (CHR ''.'') g = l # ls" by (meson neq_Nil_conv split_on_nonempty)
  then have "l \<noteq> []" using assms by (auto simp: host_label_ok_def)
  moreover have "CHR ''.'' \<notin> set l" "set l \<subseteq> set g"
    using split_on_pieces[of l "CHR ''.''" g] l by auto
  ultimately show ?thesis by (metis last_in_set subsetD)
qed

lemma wildcard_suffix:
  "(length d < length rh \<and> (case strip_suffix d rh of None \<Rightarrow> False | Some p \<Rightarrow> ends_with ''.'' p)) \<longleftrightarrow>
   (\<exists>ps. ps \<noteq> [] \<and> split_on (CHR ''.'') rh = ps @ split_on (CHR ''.'') d)"
proof -
  have "(length d < length rh \<and> (case strip_suffix d rh of None \<Rightarrow> False | Some p \<Rightarrow> ends_with ''.'' p)) \<longleftrightarrow>
      (\<exists>a. rh = a @ CHR ''.'' # d)"
  proof
    assume "length d < length rh \<and> (case strip_suffix d rh of None \<Rightarrow> False | Some p \<Rightarrow> ends_with ''.'' p)"
    then show "\<exists>a. rh = a @ CHR ''.'' # d"
      by (auto simp: strip_suffix_Some_iff ends_with_iff split: option.splits)
  next
    assume "\<exists>a. rh = a @ CHR ''.'' # d"
    then obtain a where rh: "rh = (a @ ''.'') @ d" by auto
    then have "strip_suffix d rh = Some (a @ ''.'')" by (simp add: strip_suffix_Some_iff)
    then show "length d < length rh \<and>
        (case strip_suffix d rh of None \<Rightarrow> False | Some p \<Rightarrow> ends_with ''.'' p)"
      by (auto simp: rh ends_with_iff)
  qed
  then show ?thesis by (simp add: ends_with_sep_iff)
qed

lemma host_part_matches_iff:
  assumes "csp_host_part_is_valid p"
  shows "csp_host_part_matches p host \<longleftrightarrow>
    p = ''*'' \<or>
    (\<exists>d. p = ''*.'' @ d \<and> (\<exists>ps. ps \<noteq> [] \<and> host_labels host = ps @ host_labels d)) \<or>
    CHR ''*'' \<notin> set p \<and> host_labels host = host_labels p"
proof -
  let ?rh = "to_ascii_lowercase (trim_end_matches (CHR ''.'') host)"
  show ?thesis
    using assms
  proof (cases rule: host_cases)
    case 1
    have "to_ascii_lowercase (trim_end_matches (CHR ''.'') ''*'') = ''*''"
      by (simp add: trim_end_matches_def lower_byte_fixed)
    then show ?thesis using 1 by (simp add: csp_host_part_matches_def)
  next
    case (2 h)
    have nd: "\<exists>x \<in> set h. x \<noteq> CHR ''.''" 
      using 2(4) labels_nondot[of h] by (elim disjE exE) (auto dest: labels_nondot)
    show ?thesis
    proof (cases "p = ''*.'' @ h")
      case True
      have t: "to_ascii_lowercase (trim_end_matches (CHR ''.'') p) =
          ''*.'' @ to_ascii_lowercase (trim_end_matches (CHR ''.'') h)"
        unfolding True trim_end_append[OF nd] by (simp add: lower_byte_fixed)
      have sp: "strip_prefix ''*.'' (''*.'' @ s) = Some s" for s by (simp add: strip_prefix_Some_iff)
      have ne: "''*.'' @ s \<noteq> ''*''" for s by simp
      have "csp_host_part_matches p host \<longleftrightarrow>
          (\<exists>ps. ps \<noteq> [] \<and> host_labels host = ps @ host_labels h)"
        unfolding csp_host_part_matches_def Let_def t sp host_labels_def
        using wildcard_suffix[of "to_ascii_lowercase (trim_end_matches (CHR ''.'') h)" ?rh] ne by simp
      then show ?thesis using True by auto
    next
      case False
      then have p: "p = h" using 2(1) by blast
      let ?p = "to_ascii_lowercase (trim_end_matches (CHR ''.'') p)"
      have ns: "CHR ''*'' \<notin> set ?p"
        using 2(3) trim_end_subset[of "CHR ''.''" p] by (auto simp: star_lower p)
      then have "strip_prefix ''*.'' ?p = None" "?p \<noteq> ''*''"
        by (auto simp: strip_prefix_def starts_with_iff)
      then have "csp_host_part_matches p host \<longleftrightarrow> ?p = ?rh"
        by (simp add: csp_host_part_matches_def eq_ignore_ascii_case_def)
      also have "\<dots> \<longleftrightarrow> host_labels host = host_labels p"
        unfolding host_labels_def split_on_inj by (rule eq_commute)
      finally show ?thesis using 2(3) by (auto simp: p)
    qed
  qed
qed

section \<open>Paths\<close>

lemma pieces_agree_iff:
  "length ps \<le> length qs \<Longrightarrow>
   list_all (\<lambda>(p, q). f p = f q) (zip ps qs) \<longleftrightarrow> map f ps = take (length ps) (map f qs)"
proof (induction ps arbitrary: qs)
  case (Cons p ps)
  then show ?case by (cases qs) auto
qed simp

text \<open>A path pattern that ends in a slash covers everything below it, any other exactly itself,
  comparing the pieces after percent-decoding.\<close>

lemma path_part_matches_iff:
  assumes "pattern \<noteq> []"
  shows "csp_path_part_matches pattern path \<longleftrightarrow>
    pattern = ''/'' \<and> path = [] \<or>
    (let ps = map csp_percent_decode_path_piece (split_on (CHR ''/'') pattern);
         qs = map csp_percent_decode_path_piece (split_on (CHR ''/'') path) in
     if ends_with ''/'' pattern then \<exists>below. below \<noteq> [] \<and> qs = butlast ps @ below else qs = ps)"
proof -
  let ?P = "split_on (CHR ''/'') pattern" and ?Q = "split_on (CHR ''/'') path"
  let ?f = csp_percent_decode_path_piece
  have exact: "length ?P = length ?Q \<and> list_all (\<lambda>(p, q). ?f p = ?f q) (zip ?P ?Q) \<longleftrightarrow> map ?f ?Q = map ?f ?P"
  proof (cases "length ?P = length ?Q")
    case True
    then show ?thesis using pieces_agree_iff[of ?P ?Q ?f] by auto
  next
    case False
    then show ?thesis by (auto dest: map_eq_imp_length_eq)
  qed
  have below: "length ?P \<le> length ?Q \<and> list_all (\<lambda>(p, q). ?f p = ?f q) (zip (butlast ?P) ?Q) \<longleftrightarrow>
      (\<exists>below. below \<noteq> [] \<and> map ?f ?Q = butlast (map ?f ?P) @ below)" (is "?L \<longleftrightarrow> ?R")
  proof
    assume L: ?L
    then have n: "length (butlast ?P) < length ?Q" 
      by (cases ?P rule: rev_cases) auto
    have "map ?f (butlast ?P) = take (length (butlast ?P)) (map ?f ?Q)"
      using L n pieces_agree_iff[of "butlast ?P" ?Q ?f] by simp
    then have "map ?f ?Q = butlast (map ?f ?P) @ drop (length (butlast ?P)) (map ?f ?Q)"
      by (metis append_take_drop_id map_butlast)
    moreover have "drop (length (butlast ?P)) (map ?f ?Q) \<noteq> []" using n by simp
    ultimately show ?R by blast
  next
    assume ?R
    then obtain b where b: "b \<noteq> []" "map ?f ?Q = butlast (map ?f ?P) @ b" by blast
    have "length ?Q = length ?P - 1 + length b" using arg_cong[OF b(2), of length] by simp
    moreover have "0 < length b" using b(1) by simp
    ultimately have n: "length ?P \<le> length ?Q" by linarith
    have "map ?f (butlast ?P) = take (length (butlast ?P)) (map ?f ?Q)"
      using b(2) by (simp add: map_butlast)
    then show ?L using n pieces_agree_iff[of "butlast ?P" ?Q ?f] by simp
  qed
  show ?thesis
    using assms exact below by (auto simp: csp_path_part_matches_def Let_def not_less)
qed

section \<open>Nonces\<close>

lemma get_7_iff:
  assumes "n = [] \<or> \<not> is_continuation (hd n)"
  shows "get_from 7 b = Some n \<longleftrightarrow> (\<exists>p. b = p @ n \<and> length p = 7)"
proof
  assume b: "get_from 7 b = Some n"
  then have "drop 7 b = n" "7 \<le> length b"
    by (auto simp: get_from_def is_char_boundary_def split: if_splits)
  then have "b = take 7 b @ n" "length (take 7 b) = 7" by (metis append_take_drop_id, simp)
  then show "\<exists>p. b = p @ n \<and> length p = 7" by blast
next
  assume "\<exists>p. b = p @ n \<and> length p = 7"
  then show "get_from 7 b = Some n"
    using assms by (cases n) (auto simp: get_from_def is_char_boundary_def nth_append)
qed

lemma nonce_matches_iff:
  assumes "n = [] \<or> \<not> is_continuation (hd n)"
  shows "csp_nonce_matches source n \<longleftrightarrow>
    (\<exists>p. source = p @ n @ [CHR 0x27] \<and> eq_ignore_ascii_case p nonce_prefix)"
proof
  assume m: "csp_nonce_matches source n"
  then obtain b where b: "source = b @ [CHR 0x27]" "get_from 7 b = Some n"
    by (auto simp: csp_nonce_matches_def strip_suffix_Some_iff split: option.splits)
  then obtain p where p: "b = p @ n" "length p = 7" using get_7_iff[OF assms] by blast
  have "get_to 7 source = Some p" if "get_to 7 source = Some q" for q
    using that p b(1) by (auto simp: get_to_def split: if_splits)
  then have "eq_ignore_ascii_case p nonce_prefix"
    using m by (auto simp: csp_nonce_matches_def split: option.splits)
  then show "\<exists>p. source = p @ n @ [CHR 0x27] \<and> eq_ignore_ascii_case p nonce_prefix"
    using b p by auto
next
  assume "\<exists>p. source = p @ n @ [CHR 0x27] \<and> eq_ignore_ascii_case p nonce_prefix"
  then obtain p where p: "source = (p @ n) @ [CHR 0x27]" "eq_ignore_ascii_case p nonce_prefix" by auto
  have len: "length p = 7"
    using arg_cong[OF p(2)[unfolded eq_ignore_ascii_case_def], of length] by (simp add: nonce_prefix_def)
  have "strip_suffix [CHR 0x27] source = Some (p @ n)" by (simp add: p strip_suffix_Some_iff)
  moreover have "get_from 7 (p @ n) = Some n" using get_7_iff[OF assms] len by blast
  moreover have "get_to 7 source = Some p"
    using len assms
    by (cases n) (auto simp: p(1) get_to_def is_char_boundary_def nth_append is_continuation_def byte_def)
  ultimately show "csp_nonce_matches source n" using p(2) by (simp add: csp_nonce_matches_def)
qed

section \<open>Redirects\<close>

text \<open>Two addresses that agree in everything but the path.\<close>

definition same_but_path :: "'u csp_lib \<Rightarrow> 'u \<Rightarrow> 'u \<Rightarrow> 'u \<Rightarrow> bool" where
  "same_but_path L document_url u v \<longleftrightarrow>
     url_scheme L u = url_scheme L v \<and> url_host_str L u = url_host_str L v \<and>
     url_port L u = url_port L v \<and>
     same_origin L document_url u = same_origin L document_url v"

lemma host_source_forget_path:
  "csp_host_source_matches L h d u False \<Longrightarrow> csp_host_source_matches L h d u True"
  by (auto simp: csp_host_source_matches_def Let_def split: option.splits if_splits)

lemma expression_forget_path:
  "csp_source_expression_matches L e d u False \<Longrightarrow> csp_source_expression_matches L e d u True"
  by (auto simp: csp_source_expression_matches_def split: option.splits if_splits
      intro: host_source_forget_path)

lemma sources_forget_path:
  "csp_sources_allow_with_path L ss d u False \<Longrightarrow> csp_sources_allow_with_path L ss d u True"
  by (auto simp: csp_sources_allow_with_path_def list_ex_iff split: option.splits if_splits
      intro: expression_forget_path)

lemma script_sources_forget_path:
  "csp_script_sources_allow_with_path L ss d u pi n False \<Longrightarrow>
   csp_script_sources_allow_with_path L ss d u pi n True"
  by (auto simp: csp_script_sources_allow_with_path_def split: option.splits if_splits
      intro: sources_forget_path)

lemma expression_same_but_path:
  assumes "same_but_path L d u v"
  shows "csp_source_expression_matches L e d u True = csp_source_expression_matches L e d v True"
proof -
  have eq: "url_scheme L u = url_scheme L v" "url_host_str L u = url_host_str L v"
    "url_port L u = url_port L v" "same_origin L d u = same_origin L d v"
    using assms by (simp_all add: same_but_path_def)
  have "csp_self_source_matches L d u = csp_self_source_matches L d v"
    by (simp only: csp_self_source_matches_def csp_upgrade_ports_compatible_def eq)
  moreover have "csp_host_source_matches L h d u True = csp_host_source_matches L h d v True" for h
    by (simp add: csp_host_source_matches_def csp_port_part_matches_def eq split: option.splits)
  ultimately show ?thesis by (simp only: csp_source_expression_matches_def eq)
qed

lemma sources_same_but_path:
  assumes "same_but_path L d u v"
  shows "csp_sources_allow_with_path L ss d u True = csp_sources_allow_with_path L ss d v True"
  by (simp only: csp_sources_allow_with_path_def expression_same_but_path[OF assms])

section \<open>WebSocket addresses\<close>

text \<open>
  The address a WebSocket is checked under besides its own: the same host, port and path with the
  scheme of the HTTP family. The assumptions are what the \<open>url\<close> crate documents: \<open>set_scheme\<close>
  leaves the other parts (the default ports of \<open>ws\<close> and \<open>http\<close> agree, as do those of \<open>wss\<close> and
  \<open>https\<close>), hosts of special schemes are in lower case, and the origin of an address with a host is
  its scheme, host and port.
\<close>

definition tuple_origin :: "'u csp_lib \<Rightarrow> 'u \<Rightarrow> 'u \<Rightarrow> bool" where
  "tuple_origin L d u \<longleftrightarrow>
     (same_origin L d u \<longleftrightarrow>
        url_scheme L d = url_scheme L u \<and> url_host_str L d = url_host_str L u \<and>
        or_option (url_port L d) (csp_default_port (url_scheme L d)) =
        or_option (url_port L u) (csp_default_port (url_scheme L u)))"

definition websocket_forms :: "'u csp_lib \<Rightarrow> 'u \<Rightarrow> 'u \<Rightarrow> 'u \<Rightarrow> bool" where
  "websocket_forms L d ws http \<longleftrightarrow>
     url_scheme L d \<in> {''http'', ''https''} \<and>
     (url_scheme L ws = ''wss'' \<and> url_scheme L http = ''https'' \<or>
      url_scheme L ws = ''ws'' \<and> url_scheme L http = ''http'') \<and>
     url_host_str L http = url_host_str L ws \<and> url_port L http = url_port L ws \<and>
     url_path L http = url_path L ws \<and>
     tuple_origin L d ws \<and> tuple_origin L d http \<and>
     (\<forall>a b. url_host_str L d = Some a \<longrightarrow> url_host_str L ws = Some b \<longrightarrow>
        eq_ignore_ascii_case a b \<longrightarrow> a = b)"

lemma scheme_words:
  "to_ascii_lowercase ''http'' = ''http''" "to_ascii_lowercase ''https'' = ''https''"
  "to_ascii_lowercase ''ws'' = ''ws''" "to_ascii_lowercase ''wss'' = ''wss''"
  "to_ascii_lowercase ''blob'' = ''blob''" "to_ascii_lowercase ''ftp'' = ''ftp''"
  by code_simp+

lemma default_ports:
  "csp_default_port ''http'' = Some 80" "csp_default_port ''https'' = Some 443"
  "csp_default_port ''ws'' = Some 80" "csp_default_port ''wss'' = Some 443"
  by (simp_all add: csp_default_port_def scheme_words del: lowercase_simps)

lemma websocket_port:
  "websocket_forms L d ws http \<Longrightarrow>
   csp_default_port (url_scheme L http) = csp_default_port (url_scheme L ws)"
  by (auto simp: websocket_forms_def default_ports)

lemma websocket_scheme:
  assumes "websocket_forms L d ws http" "csp_scheme_part_matches p (url_scheme L ws)"
  shows "csp_scheme_part_matches p (url_scheme L http)"
  using assms unfolding websocket_forms_def
  by (auto simp: csp_scheme_part_matches_def eq_ignore_ascii_case_def scheme_words simp del: lowercase_simps)

lemma websocket_not_document_scheme:
  assumes "websocket_forms L d ws http"
  shows "\<not> csp_scheme_part_matches (url_scheme L d) (url_scheme L ws)"
    "\<not> eq_ignore_ascii_case (url_scheme L ws) (url_scheme L d)"
    "url_scheme L ws \<notin> {''http'', ''https''}" "\<not> same_origin L d ws"
  using assms unfolding websocket_forms_def tuple_origin_def
  by (auto simp: csp_scheme_part_matches_def eq_ignore_ascii_case_def scheme_words simp del: lowercase_simps)

lemma websocket_self:
  assumes w: "websocket_forms L d ws http" and m: "csp_self_source_matches L d ws"
  shows "csp_self_source_matches L d http"
proof -
  obtain a b where h: "url_host_str L d = Some a" "url_host_str L ws = Some b"
      "eq_ignore_ascii_case a b" "csp_upgrade_ports_compatible L d ws"
    and sch: "url_scheme L ws = ''ws'' \<longrightarrow> url_scheme L d = ''http''"
    using m w websocket_not_document_scheme[OF w]
    by (auto simp: csp_self_source_matches_def websocket_forms_def scheme_words Let_def
        simp del: lowercase_simps split: option.splits if_splits)
  have ports: "csp_upgrade_ports_compatible L d http"
    using h(4) w websocket_port[OF w] by (simp add: csp_upgrade_ports_compatible_def websocket_forms_def)
  have hosts: "url_host_str L http = Some b" "a = b" using w h by (auto simp: websocket_forms_def)
  show ?thesis
  proof (cases "url_scheme L ws = ''wss''")
    case True
    then show ?thesis
      using w h ports hosts
      by (auto simp: csp_self_source_matches_def websocket_forms_def scheme_words
          eq_ignore_ascii_case_def simp del: lowercase_simps)
  next
    case False
    then have s: "url_scheme L ws = ''ws''" "url_scheme L http = ''http''" "url_scheme L d = ''http''"
      using w sch by (auto simp: websocket_forms_def)
    have "same_origin L d http"
      using w h hosts ports s
      by (auto simp: websocket_forms_def tuple_origin_def csp_upgrade_ports_compatible_def default_ports
          or_option_def split: option.splits)
    then show ?thesis
      using s by (simp add: csp_self_source_matches_def eq_ignore_ascii_case_def scheme_words
          del: lowercase_simps)
  qed
qed

lemma websocket_host_source:
  assumes w: "websocket_forms L d ws http" and m: "csp_host_source_matches L h d ws False"
  shows "csp_host_source_matches L h d http False"
proof -
  obtain s where s: "hs_scheme h = Some s"
    using m websocket_not_document_scheme(1)[OF w]
    by (cases "hs_scheme h") (auto simp: csp_host_source_matches_def split: option.splits)
  have eq: "url_host_str L http = url_host_str L ws" "url_port L http = url_port L ws"
    "url_path L http = url_path L ws"
    using w by (simp_all add: websocket_forms_def)
  have "csp_port_part_matches L p http = csp_port_part_matches L p ws" for p
    by (simp add: csp_port_part_matches_def eq websocket_port[OF w])
  then show ?thesis
    using m websocket_scheme[OF w, of s]
    by (auto simp: csp_host_source_matches_def eq s split: option.splits if_splits)
qed

lemma websocket_expression:
  assumes "websocket_forms L d ws http" "csp_source_expression_matches L e d ws False"
  shows "csp_source_expression_matches L e d http False"
  using assms websocket_not_document_scheme[OF assms(1)] websocket_self[OF assms(1)]
    websocket_scheme[OF assms(1)] websocket_host_source[OF assms(1)]
  by (auto simp: csp_source_expression_matches_def split: option.splits if_splits)

lemma websocket_sources:
  "websocket_forms L d ws http \<Longrightarrow> csp_sources_allow L ss d ws \<Longrightarrow> csp_sources_allow L ss d http"
  by (auto simp: csp_sources_allow_def csp_sources_allow_with_path_def list_ex_iff
      split: option.splits if_splits intro: websocket_expression)

end
