(* ===== verification/Csp_Rules.thy ===== *)
theory Csp_Rules
  imports Csp_Policy Csp_Meaning
begin

text \<open>
  What the policies of a document promise. The directive a report names is the one whose sources
  decide; a report-only declaration is reported exactly when it would refuse the request if it were
  enforced; checking a redirect forgets the path and nothing else; a WebSocket is allowed when every
  policy allows one of its two forms; a list of policies refuses more the longer it is.
\<close>

section \<open>Directives and their sources\<close>

lemma or_option_simps [simp]:
  "or_option None b = b" "or_option (Some x) b = Some x" "or_option b None = b"
  by (simp_all add: or_option_def split: option.splits)

lemma map_or_option: "map_option f (or_option a b) = or_option (map_option f a) (map_option f b)"
  by (cases a) simp_all

lemma named_sources [simp]: "map_option snd (named n s) = s"
  by (cases s) (simp_all add: named_def)

lemma directive_for_sources:
  "map_option snd (directive_for d kind) = or_option (sources_for d kind) (default_sources d)"
  by (cases kind) (simp_all add: directive_for_def map_or_option)

lemma inline_directive_for_sources:
  "map_option snd (inline_directive_for d kind) = inline_sources_for d kind"
  by (cases kind) (simp_all add: inline_directive_for_def map_or_option)

lemma directive_for_None_iff:
  "directive_for d kind = None \<longleftrightarrow> or_option (sources_for d kind) (default_sources d) = None"
  using directive_for_sources[of d kind] by (cases "or_option (sources_for d kind) (default_sources d)") auto

lemma directive_for_SomeD:
  "directive_for d kind = Some (n, s) \<Longrightarrow> or_option (sources_for d kind) (default_sources d) = Some s"
  using directive_for_sources[of d kind] by simp

lemma inline_directive_for_SomeD:
  "inline_directive_for d kind = Some (n, s) \<Longrightarrow> inline_sources_for d kind = Some s"
  using inline_directive_for_sources[of d kind] by simp

lemma inline_directive_for_None_iff:
  "inline_directive_for d kind = None \<longleftrightarrow> inline_sources_for d kind = None"
  using inline_directive_for_sources[of d kind] by (cases "inline_sources_for d kind") auto

lemma no_sources_allow [simp]:
  "csp_sources_allow L None d u" "csp_sources_allow_for_redirect L None d u"
  "csp_script_sources_allow L None d u pi n" "csp_script_sources_allow_for_redirect L None d u pi n"
  "inline_csp_sources_allow L None s n a b"
  by (simp_all add: csp_sources_allow_def csp_sources_allow_for_redirect_def
      csp_sources_allow_with_path_def csp_script_sources_allow_def
      csp_script_sources_allow_for_redirect_def csp_script_sources_allow_with_path_def
      inline_csp_sources_allow_def)

section \<open>Report-only declarations\<close>

text \<open>The declaration as if it were enforced.\<close>

definition as_enforced :: "native_csp_declaration \<Rightarrow> native_csp_policy" where
  "as_enforced declaration = default_policy_csp\<lparr>csp_policies := [directives declaration]\<rparr>"

definition url_allowed ::
  "'u csp_lib \<Rightarrow> native_csp_policy \<Rightarrow> native_subresource_kind \<Rightarrow> 'u \<Rightarrow> 'u \<Rightarrow> bool \<Rightarrow> string option \<Rightarrow> bool \<Rightarrow> bool" where
  "url_allowed L p kind document_url resource_url parser_inserted nonce redirect =
     (if kind = Kind_Script then
        (if redirect then policy_allows_script_redirect L p document_url resource_url parser_inserted nonce
         else policy_allows_script L p document_url resource_url parser_inserted nonce)
      else if redirect then policy_allows_redirect L p kind document_url resource_url
      else policy_allows L p kind document_url resource_url)"

lemma in_map_filter_iff: "y \<in> set (List.map_filter f xs) \<longleftrightarrow> (\<exists>x \<in> set xs. f x = Some y)"
  by (force simp: List.map_filter_def)

lemma map_filter_guard:
  assumes "\<And>x. x \<in> set xs \<Longrightarrow> map_option fst (f x) = (if P x then Some x else None)"
  shows "map fst (List.map_filter f xs) = filter P xs"
  using assms
proof (induction xs)
  case (Cons x xs)
  then have "map_option fst (f x) = (if P x then Some x else None)" by simp
  then show ?case using Cons by (cases "f x") (auto simp: List.map_filter_def split: if_splits)
qed (simp add: List.map_filter_def)

lemma url_reports:
  "map fst (report_only_url_violations_with_path L p kind d u pi n redirect) =
   filter (\<lambda>decl. \<not> url_allowed L (as_enforced decl) kind d u pi n redirect) (report_only_policies p)"
  unfolding report_only_url_violations_with_path_def
proof (rule map_filter_guard)
  fix decl :: native_csp_declaration
  let ?d = "directives decl"
  show "map_option fst (case directive_for ?d kind of None \<Rightarrow> None | Some (directive, sources) \<Rightarrow>
      let allowed = if kind = Kind_Script
            then if redirect then directives_allow_script_redirect L ?d d u pi n
                 else directives_allow_script L ?d d u pi n
            else if redirect then csp_sources_allow_for_redirect L (Some sources) d u
                 else csp_sources_allow L (Some sources) d u
      in if \<not> allowed then Some (decl, directive) else None) =
    (if \<not> url_allowed L (as_enforced decl) kind d u pi n redirect then Some decl else None)"
  proof (cases "directive_for ?d kind")
    case None
    then have "or_option (sources_for ?d kind) (default_sources ?d) = None" by (simp add: directive_for_None_iff)
    then show ?thesis
      using None by (auto simp: url_allowed_def as_enforced_def policy_allows_def policy_allows_redirect_def
          policy_allows_script_def policy_allows_script_redirect_def directives_allow_def
          directives_allow_redirect_def directives_allow_script_def directives_allow_script_redirect_def)
  next
    case (Some ns)
    obtain name s where ns: "ns = (name, s)" by fastforce
    have "or_option (sources_for ?d kind) (default_sources ?d) = Some s"
      using directive_for_SomeD Some ns by blast
    then show ?thesis
      using Some ns by (auto simp: url_allowed_def as_enforced_def policy_allows_def
          policy_allows_redirect_def policy_allows_script_def policy_allows_script_redirect_def
          directives_allow_def directives_allow_redirect_def)
  qed
qed

lemma navigation_reports:
  "map fst (report_only_navigation_violations L p kind d u) =
   filter (\<lambda>decl. \<not> policy_allows_navigation L (as_enforced decl) kind d u) (report_only_policies p)"
  unfolding report_only_navigation_violations_def
  by (rule map_filter_guard) (auto simp: policy_allows_navigation_def as_enforced_def
      directives_allow_navigation_def split: option.splits)

lemma inline_reports:
  "map fst (report_only_inline_violations L p kind source n) =
   filter (\<lambda>decl. \<not> policy_allows_inline L (as_enforced decl) kind source n) (report_only_policies p)"
  unfolding report_only_inline_violations_def
proof (rule map_filter_guard)
  fix decl :: native_csp_declaration
  let ?d = "directives decl"
  show "map_option fst (case inline_directive_for ?d kind of None \<Rightarrow> None | Some (directive, sources) \<Rightarrow>
      if \<not> inline_csp_sources_allow L (Some sources) source n (is_attribute kind) (is_script kind)
      then Some (decl, directive) else None) =
    (if \<not> policy_allows_inline L (as_enforced decl) kind source n then Some decl else None)"
  proof (cases "inline_directive_for ?d kind")
    case None
    then have "inline_sources_for ?d kind = None" by (simp add: inline_directive_for_None_iff)
    then show ?thesis
      using None by (simp add: policy_allows_inline_def as_enforced_def directives_allow_inline_def)
  next
    case (Some ns)
    then show ?thesis
      using inline_directive_for_SomeD[of ?d kind "fst ns" "snd ns"]
      by (cases ns) (simp add: policy_allows_inline_def as_enforced_def directives_allow_inline_def)
  qed
qed

text \<open>The name in a report is that of a directive the declaration carries, and its sources are
  those the decision was taken on.\<close>

lemma url_report_directive:
  assumes "(decl, name) \<in> set (report_only_url_violations_with_path L p kind d u pi n redirect)"
  shows "\<exists>s. directive_for (directives decl) kind = Some (name, s) \<and>
    or_option (sources_for (directives decl) kind) (default_sources (directives decl)) = Some s"
proof -
  obtain s where "directive_for (directives decl) kind = Some (name, s)"
    using assms unfolding report_only_url_violations_with_path_def in_map_filter_iff
    by (auto simp: Let_def split: option.splits if_splits)
  then show ?thesis using directive_for_SomeD by blast
qed

section \<open>Redirects\<close>

lemma directives_forget_path:
  "directives_allow L x kind d u \<Longrightarrow> directives_allow_redirect L x kind d u"
  "directives_allow_script L x d u pi n \<Longrightarrow> directives_allow_script_redirect L x d u pi n"
  by (simp_all add: directives_allow_def directives_allow_redirect_def csp_sources_allow_def
      csp_sources_allow_for_redirect_def directives_allow_script_def directives_allow_script_redirect_def
      csp_script_sources_allow_def csp_script_sources_allow_for_redirect_def
      sources_forget_path script_sources_forget_path)

lemma directives_same_but_path:
  assumes "same_but_path L d u v"
  shows "directives_allow_redirect L x kind d u = directives_allow_redirect L x kind d v"
    "directives_allow_script_redirect L x d u pi n = directives_allow_script_redirect L x d v pi n"
  using sources_same_but_path[OF assms]
  by (simp_all add: directives_allow_redirect_def csp_sources_allow_for_redirect_def
      directives_allow_script_redirect_def csp_script_sources_allow_for_redirect_def
      csp_script_sources_allow_with_path_def split: option.splits)

lemma url_allowed_forget_path:
  "url_allowed L p kind d u pi n False \<Longrightarrow> url_allowed L p kind d u pi n True"
  by (auto simp: url_allowed_def policy_allows_def policy_allows_redirect_def policy_allows_script_def
      policy_allows_script_redirect_def list_all_iff directives_forget_path split: if_splits)

lemma url_allowed_same_but_path:
  "same_but_path L d u v \<Longrightarrow> url_allowed L p kind d u pi n True = url_allowed L p kind d v pi n True"
  by (simp add: url_allowed_def policy_allows_redirect_def policy_allows_script_redirect_def
      directives_same_but_path[of L d u v])

section \<open>WebSockets\<close>

lemma websocket_directives:
  "websocket_forms L d ws http \<Longrightarrow> directives_allow L x kind d ws \<Longrightarrow> directives_allow L x kind d http"
  by (simp add: directives_allow_def websocket_sources)

lemma websocket_per_policy:
  assumes "websocket_forms L d ws http"
  shows "policy_allows L p kind d ws \<or> policy_allows L p kind d http \<longleftrightarrow>
    list_all (\<lambda>x. directives_allow L x kind d ws \<or> directives_allow L x kind d http) (csp_policies p)"
  using websocket_directives[OF assms] by (auto simp: policy_allows_def list_all_iff)

section \<open>More policies refuse more\<close>

text \<open>One policy set covers another when it holds all of its policies.\<close>

definition at_least_as_strict :: "native_csp_policy \<Rightarrow> native_csp_policy \<Rightarrow> bool" where
  "at_least_as_strict q p \<longleftrightarrow> set (csp_policies p) \<subseteq> set (csp_policies q)"

lemma strict_refl [simp]: "at_least_as_strict p p"
  by (simp add: at_least_as_strict_def)

lemma strict_trans: "at_least_as_strict r q \<Longrightarrow> at_least_as_strict q p \<Longrightarrow> at_least_as_strict r p"
  by (auto simp: at_least_as_strict_def)

lemma strict_decisions:
  assumes "at_least_as_strict q p"
  shows "policy_allows L q kind d u \<Longrightarrow> policy_allows L p kind d u"
    "policy_allows_redirect L q kind d u \<Longrightarrow> policy_allows_redirect L p kind d u"
    "policy_allows_script L q d u pi n \<Longrightarrow> policy_allows_script L p d u pi n"
    "policy_allows_script_redirect L q d u pi n \<Longrightarrow> policy_allows_script_redirect L p d u pi n"
    "policy_allows_navigation L q nav d u \<Longrightarrow> policy_allows_navigation L p nav d u"
    "policy_allows_inline L q inl src n \<Longrightarrow> policy_allows_inline L p inl src n"
  using assms
  by (auto simp: at_least_as_strict_def policy_allows_def policy_allows_redirect_def
      policy_allows_script_def policy_allows_script_redirect_def policy_allows_navigation_def
      policy_allows_inline_def list_all_iff)

lemma append_meta_strict:
  "append_meta_policies values p = Inr q \<Longrightarrow> at_least_as_strict q p"
  by (auto simp: append_meta_policies_def at_least_as_strict_def Let_def split: if_splits)

section \<open>Snapshots for the frame registry\<close>

text \<open>A frame registry that keeps only the groups of sources decides as the policies do.\<close>

lemma frame_groups_decide:
  "policy_allows L p Kind_Frame d u \<longleftrightarrow>
   (case frame_source_groups p of
      None \<Rightarrow> True
    | Some groups \<Rightarrow> list_all (\<lambda>s. csp_sources_allow L (Some s) d u) groups)"
proof -
  let ?g = "\<lambda>x. or_option (sources_for x Kind_Frame) (default_sources x)"
  have "list_all (\<lambda>x. csp_sources_allow L (?g x) d u) xs \<longleftrightarrow>
      list_all (\<lambda>s. csp_sources_allow L (Some s) d u) (List.map_filter ?g xs)" for xs
  proof (induction xs)
    case (Cons x xs)
    then show ?case by (cases "?g x") (simp_all add: List.map_filter_def)
  qed (simp add: List.map_filter_def)
  then show ?thesis
    by (simp add: policy_allows_def directives_allow_def frame_source_groups_def some_groups_def)
qed

lemma navigation_groups_decide:
  "policy_allows_navigation L p kind d u \<longleftrightarrow>
   (case navigation_source_groups p kind of
      None \<Rightarrow> True
    | Some groups \<Rightarrow> list_all (\<lambda>s. csp_sources_allow L (Some s) d u) groups)"
proof -
  have "list_all (\<lambda>x. directives_allow_navigation L x kind d u) xs \<longleftrightarrow>
      list_all (\<lambda>s. csp_sources_allow L (Some s) d u)
        (List.map_filter (\<lambda>x. navigation_sources_for x kind) xs)" for xs
  proof (induction xs)
    case (Cons x xs)
    then show ?case
      by (cases "navigation_sources_for x kind")
        (simp_all add: List.map_filter_def directives_allow_navigation_def)
  qed (simp add: List.map_filter_def)
  then show ?thesis
    by (simp add: policy_allows_navigation_def navigation_source_groups_def some_groups_def)
qed

end
