(* ===== verification/Csp_Invariant.thy ===== *)
theory Csp_Invariant
  imports Csp_Ledger Csp_Rules
begin

text \<open>
  The ledger as a machine. Its commands are the entry points that change it; the invariant says that
  the policies from the document are those of the texts on record, within their bound, that the
  reporting endpoints are bounded and distinct, that the kept headers, referrer policies and waiting
  violations are bounded, and that the table of policies exceeds its 32 entries only by what was
  inserted without making room. The log of scheduled reports is not bounded.
\<close>

datatype 'u ledger_command =
    Commit_Response 'u header_values
  | Store_Worker_Policy 'u header_values
  | Revalidate_Response string header_values
  | Set_From_Pairs string "(string \<times> string) list"
  | Apply_Meta string "string list"
  | Append_Meta string "string list"
  | Inherit_Policy policy_ledger string
  | Check_Inline native_inline_csp_kind string string "string option" bool
  | Check_Navigation string string native_navigation_policy_kind
  | Report_Url native_subresource_kind 'u 'u bool "string option" bool
  | Take_Violations

fun ledger_step :: "'u policy_env \<Rightarrow> policy_ledger \<Rightarrow> 'u ledger_command \<Rightarrow> policy_ledger" where
  "ledger_step E l (Commit_Response url headers) = snd (commit_response_policies E url headers l)"
| "ledger_step E l (Store_Worker_Policy url headers) =
     store_document_policy (cache_key (en_lib E) url) (content_security_policy (en_jsons E) headers) l"
| "ledger_step E l (Revalidate_Response key headers) = snd (revalidate_response_policies key headers l)"
| "ledger_step E l (Set_From_Pairs url pairs) =
     snd (set_document_content_security_policy_from_pairs E url pairs l)"
| "ledger_step E l (Apply_Meta url values) = snd (apply_meta_content_security_policies E url values l)"
| "ledger_step E l (Append_Meta url values) = snd (append_meta_content_security_policies E url values l)"
| "ledger_step E l (Inherit_Policy parent url) = snd (inherit_document_policy_from E parent url l)"
| "ledger_step E l (Check_Inline kind url source nonce report) =
     snd (allows_inline_kind E kind url source nonce report l)"
| "ledger_step E l (Check_Navigation url target kind) = snd (allows_navigation E url target kind l)"
| "ledger_step E l (Report_Url kind url target parser_inserted nonce redirect) =
     record_report_only_url_violations_with_metadata_and_path E (policy_of E l url) kind url target
       parser_inserted nonce redirect l"
| "ledger_step E l Take_Violations = snd (take_csp_violations l)"

definition new_ledger :: "path list \<Rightarrow> policy_ledger" where
  "new_ledger roots = \<lparr>allowed_file_roots = roots, document_policies = [], response_policy_headers = [],
     referrer_policies = [], csp_violations = [], scheduled_reports = []\<rparr>"

section \<open>The invariant\<close>

definition endpoint_list_ok :: "string list \<Rightarrow> bool" where
  "endpoint_list_ok es \<longleftrightarrow> length es \<le> MAX_NATIVE_CSP_REPORT_ENDPOINTS \<and> distinct es \<and>
     list_all (\<lambda>e. length e \<le> MAX_NATIVE_CSP_REPORT_ENDPOINT_BYTES) es"

definition endpoints_ok :: "(string, string list) btree \<Rightarrow> bool" where
  "endpoints_ok m \<longleftrightarrow> bt_wf m \<and> (\<forall>g es. bt_get m g = Some es \<longrightarrow> endpoint_list_ok es)"

definition policy_wf :: "native_csp_policy \<Rightarrow> bool" where
  "policy_wf p \<longleftrightarrow>
     header_policy_count p \<le> length (csp_policies p) \<and>
     drop (header_policy_count p) (csp_policies p) = map parse_csp_directives (meta_policy_sources p) \<and>
     (meta_policy_sources p \<noteq> [] \<longrightarrow> length (csp_policies p) \<le> MAX_NATIVE_CSP_POLICIES) \<and>
     endpoints_ok (reporting_endpoints p)"

definition ledger_wf :: "policy_ledger \<Rightarrow> bool" where
  "ledger_wf l \<longleftrightarrow>
     bt_wf (document_policies l) \<and> (\<forall>k p. bt_get (document_policies l) k = Some p \<longrightarrow> policy_wf p) \<and>
     bt_wf (response_policy_headers l) \<and> length (response_policy_headers l) \<le> MAX_NATIVE_CACHE_ENTRIES \<and>
     bt_wf (referrer_policies l) \<and> length (referrer_policies l) \<le> MAX_NATIVE_CACHE_ENTRIES \<and>
     length (csp_violations l) \<le> MAX_NATIVE_CSP_VIOLATIONS"

lemma policy_wf_default [simp]: "policy_wf default_policy_csp"
  by (simp add: policy_wf_def default_policy_csp_def endpoints_ok_def)

lemma add_endpoint_ok: "endpoints_ok m \<Longrightarrow> endpoints_ok (add_endpoint m entry)"
  by (cases entry) (auto simp: add_endpoint_def endpoints_ok_def endpoint_list_ok_def bt_get_or_def
      MAX_NATIVE_CSP_REPORT_ENDPOINTS_def split: option.splits)

lemma add_endpoints_ok: "endpoints_ok m \<Longrightarrow> endpoints_ok (foldl add_endpoint m entries)"
  by (induction entries arbitrary: m) (auto intro: add_endpoint_ok)

lemma add_reporting_header_facts:
  "endpoints_ok (reporting_endpoints p) \<Longrightarrow>
   endpoints_ok (reporting_endpoints (add_reporting_endpoint_header J p name value))"
  "csp_policies (add_reporting_endpoint_header J p name value) = csp_policies p"
  "header_policy_count (add_reporting_endpoint_header J p name value) = header_policy_count p"
  "meta_policy_sources (add_reporting_endpoint_header J p name value) = meta_policy_sources p"
  by (simp_all add: add_reporting_endpoint_header_def add_endpoints_ok)

text \<open>A policy that is being built from headers has no part from the document.\<close>

definition building :: "native_csp_policy \<Rightarrow> bool" where
  "building p \<longleftrightarrow> meta_policy_sources p = [] \<and> endpoints_ok (reporting_endpoints p)"

lemma building_default [simp]: "building default_policy_csp"
  by (simp add: building_def default_policy_csp_def endpoints_ok_def)

lemma building_counted: "building p \<Longrightarrow> policy_wf (counted p)"
  by (simp add: building_def counted_def policy_wf_def)

lemma building_header: "building p \<Longrightarrow> building (add_reporting_endpoint_header J p name value)"
  by (simp add: building_def add_reporting_header_facts)

lemma building_headers:
  "building p \<Longrightarrow> building (foldl (\<lambda>p v. add_reporting_endpoint_header J p name v) p vs)"
  by (induction vs arbitrary: p) (auto intro: building_header)

lemma content_security_policy_wf: "policy_wf (content_security_policy J headers)"
proof -
  have "building (default_policy_csp\<lparr>csp_policies := x, report_only_policies := y\<rparr>)" for x y
    by (simp add: building_def default_policy_csp_def endpoints_ok_def)
  then show ?thesis
    unfolding content_security_policy_def Let_def counted_def[symmetric]
    by (intro building_counted building_headers)
qed

lemma building_pair: "building p \<Longrightarrow> building (add_policy_pair J p nv)"
  by (cases nv) (auto simp: add_policy_pair_def building_def add_reporting_header_facts)

lemma policy_from_pairs_building:
  "policy_from_pairs J nvs p = Inr q \<Longrightarrow> building p \<Longrightarrow> building q"
  by (induction J nvs p rule: policy_from_pairs.induct) (auto intro: building_pair split: if_splits)

lemma saturated_bound:
  "nat_saturating_add u64_max a b \<le> MAX_NATIVE_CSP_POLICIES \<longleftrightarrow> a + b \<le> MAX_NATIVE_CSP_POLICIES"
  by (auto simp: nat_saturating_add_def MAX_NATIVE_CSP_POLICIES_def u64_max_def)

lemma replace_meta_wf:
  "replace_meta_policies values p = Inr q \<Longrightarrow> policy_wf p \<Longrightarrow> policy_wf q"
  by (auto simp: replace_meta_policies_def policy_wf_def saturated_bound not_less split: if_splits)

lemma append_meta_wf:
  "append_meta_policies values p = Inr q \<Longrightarrow> policy_wf p \<Longrightarrow> policy_wf q"
  by (auto simp: append_meta_policies_def policy_wf_def Let_def saturated_bound not_less split: if_splits)

lemma policy_wf_root: "policy_wf p \<Longrightarrow> policy_wf (p\<lparr>rooted_file_self_root := r\<rparr>)"
  by (simp add: policy_wf_def)

section \<open>Every command keeps it\<close>

lemma evict_first_get:
  "bt_get (evict_first key m) k = Some v \<Longrightarrow> bt_get m k = Some v"
  by (auto simp: evict_first_def split: if_splits list.splits)

lemma evict_first_wf: "bt_wf m \<Longrightarrow> bt_wf (evict_first key m)"
  by (auto simp: evict_first_def split: list.splits)

lemma bt_remove_head:
  assumes "bt_wf ((k, v) # m)"
  shows "bt_remove k ((k, v) # m) = m"
proof -
  have "\<forall>kv \<in> set m. fst kv \<noteq> k" using assms by (auto simp: bt_wf_def)
  then show ?thesis by (simp add: bt_remove_def filter_id_conv)
qed

lemma evict_insert_length:
  assumes "bt_wf m" "length m \<le> n" "MAX_NATIVE_CACHE_ENTRIES \<le> n"
  shows "length (bt_insert key v (evict_first key m)) \<le> n"
proof (cases m)
  case Nil
  then show ?thesis using assms(3) by (simp add: evict_first_def MAX_NATIVE_CACHE_ENTRIES_def)
next
  case (Cons kv rest)
  obtain k0 v0 where kv: "kv = (k0, v0)" by fastforce
  show ?thesis
  proof (cases "bt_contains m key")
    case True
    then show ?thesis using assms by (auto simp: evict_first_def bt_length_insert bt_contains_def)
  next
    case False
    then show ?thesis
      using assms bt_remove_head[of k0 v0 rest] bt_wf_remove[OF assms(1), of k0]
      by (auto simp: evict_first_def bt_length_insert bt_contains_def Cons kv)
  qed
qed

lemma store_policy_wf: "ledger_wf l \<Longrightarrow> policy_wf p \<Longrightarrow> ledger_wf (store_document_policy key p l)"
  by (auto simp: ledger_wf_def store_document_policy_def evict_first_wf dest: evict_first_get)

lemma store_headers_wf: "ledger_wf l \<Longrightarrow> ledger_wf (store_document_response_policy_headers key hs l)"
  by (auto simp: ledger_wf_def store_document_response_policy_headers_def evict_first_wf
      evict_insert_length[OF _ _ order_refl] intro: order_trans[OF bt_length_remove])

lemma store_referrer_wf: "ledger_wf l \<Longrightarrow> ledger_wf (store_document_referrer_policy key p l)"
  by (auto simp: ledger_wf_def store_document_referrer_policy_def evict_first_wf
      evict_insert_length[OF _ _ order_refl] intro: order_trans[OF bt_length_remove] split: option.splits)

lemma queue_wf: "ledger_wf l \<Longrightarrow> ledger_wf (queue_csp_violation E p d b s l entry)"
  by (cases entry) (auto simp: ledger_wf_def queue_csp_violation_def Let_def)

lemma queue_all_wf: "ledger_wf l \<Longrightarrow> ledger_wf (foldl (queue_csp_violation E p d b s) l entries)"
  by (induction entries arbitrary: l) (auto intro: queue_wf)

lemma policy_wf_get_or: "ledger_wf l \<Longrightarrow> policy_wf (bt_get_or default_policy_csp (document_policies l) k)"
  by (auto simp: ledger_wf_def bt_get_or_def split: option.splits)

lemma change_meta_wf:
  assumes "ledger_wf l" "\<And>p q. f p = Inr q \<Longrightarrow> policy_wf p \<Longrightarrow> policy_wf q"
  shows "ledger_wf (snd (change_meta_policies f key root l))"
proof -
  let ?p = "(bt_get_or default_policy_csp (document_policies l) key)\<lparr>rooted_file_self_root := root\<rparr>"
  have "policy_wf ?p" using assms(1) by (intro policy_wf_root policy_wf_get_or)
  moreover have "ledger_wf (l\<lparr>document_policies := bt_insert key q (document_policies l)\<rparr>)"
    if "policy_wf q" for q
    using assms(1) that by (auto simp: ledger_wf_def)
  ultimately show ?thesis
    using assms(2) by (auto simp: change_meta_policies_def Let_def split: sum.splits)
qed

text \<open>A parent to inherit from has a ledger of its own.\<close>

fun command_wf :: "'u ledger_command \<Rightarrow> bool" where
  "command_wf (Inherit_Policy parent _) = ledger_wf parent"
| "command_wf _ = True"

lemma ledger_step_wf:
  assumes "ledger_wf l" "command_wf c"
  shows "ledger_wf (ledger_step E l c)"
proof (cases c)
  case (Commit_Response url headers)
  then show ?thesis
    using assms by (auto simp: commit_response_policies_def Let_def split: sum.splits
        intro: store_policy_wf store_headers_wf store_referrer_wf content_security_policy_wf)
next
  case (Revalidate_Response key headers)
  have "ledger_wf (l\<lparr>response_policy_headers := bt_remove key (response_policy_headers l)\<rparr>)"
    using assms by (auto simp: ledger_wf_def intro: order_trans[OF bt_length_remove])
  then show ?thesis
    using assms Revalidate_Response by (auto simp: revalidate_response_policies_def Let_def
        split: sum.splits intro!: store_headers_wf store_referrer_wf)
next
  case (Set_From_Pairs url pairs)
  then show ?thesis
    using assms by (auto simp: set_document_content_security_policy_from_pairs_def
        split: sum.splits option.splits dest: policy_from_pairs_building
        intro!: store_policy_wf store_referrer_wf building_counted)
next
  case (Apply_Meta url vs)
  then show ?thesis
    using assms change_meta_wf[OF assms(1) replace_meta_wf]
    by (auto simp: apply_meta_content_security_policies_def split: sum.splits option.splits)
next
  case (Append_Meta url vs)
  then show ?thesis
    using assms change_meta_wf[OF assms(1) append_meta_wf]
    by (auto simp: append_meta_content_security_policies_def split: sum.splits option.splits)
next
  case (Inherit_Policy parent url)
  then show ?thesis
    using assms by (auto simp: inherit_document_policy_from_def ledger_wf_def Let_def split: option.splits)
next
  case (Check_Inline kind url source nonce report)
  then show ?thesis
    using assms by (auto simp: allows_inline_kind_def Let_def record_report_only_inline_violations_def
        split: sum.splits option.splits intro: queue_all_wf)
next
  case (Check_Navigation url target kind)
  then show ?thesis
    using assms by (auto simp: allows_navigation_def record_report_only_navigation_violations_def
        split: sum.splits intro: queue_all_wf)
next
  case (Report_Url kind url target pi nonce redirect)
  then show ?thesis
    using assms by (simp add: record_report_only_url_violations_with_metadata_and_path_def queue_all_wf)
next
  case (Store_Worker_Policy url headers)
  then show ?thesis using assms by (simp add: store_policy_wf content_security_policy_wf)
next
  case Take_Violations
  then show ?thesis using assms by (simp add: take_csp_violations_def ledger_wf_def)
qed

section \<open>The table of policies\<close>

text \<open>The commands that insert a policy without making room: the default policy of a document that
  declares one, and an inherited policy.\<close>

fun unevicted :: "'u ledger_command \<Rightarrow> nat" where
  "unevicted (Apply_Meta _ _) = 1"
| "unevicted (Append_Meta _ _) = 1"
| "unevicted (Inherit_Policy _ _) = 1"
| "unevicted _ = 0"

lemma queue_policies [simp]: "document_policies (queue_csp_violation E p d b s l entry) = document_policies l"
  by (cases entry) (simp add: queue_csp_violation_def Let_def)

lemma queue_all_policies [simp]:
  "document_policies (foldl (queue_csp_violation E p d b s) l entries) = document_policies l"
  by (induction entries arbitrary: l) simp_all

lemma stores_keep_policies [simp]:
  "document_policies (store_document_response_policy_headers key hs l) = document_policies l"
  "document_policies (store_document_referrer_policy key r l) = document_policies l"
  by (simp_all add: store_document_response_policy_headers_def store_document_referrer_policy_def
      split: option.splits)

text \<open>The commands that only look at the policies.\<close>

fun looks_only :: "'u ledger_command \<Rightarrow> bool" where
  "looks_only (Revalidate_Response _ _) = True"
| "looks_only (Check_Inline _ _ _ _ _) = True"
| "looks_only (Check_Navigation _ _ _) = True"
| "looks_only (Report_Url _ _ _ _ _ _) = True"
| "looks_only Take_Violations = True"
| "looks_only _ = False"

lemma looks_only_policies: "looks_only c \<Longrightarrow> document_policies (ledger_step E l c) = document_policies l"
  by (cases c) (auto simp: revalidate_response_policies_def allows_inline_kind_def record_report_only_inline_violations_def
      allows_navigation_def record_report_only_navigation_violations_def take_csp_violations_def
      record_report_only_url_violations_with_metadata_and_path_def Let_def split: sum.splits option.splits)

lemma store_policy_length:
  "bt_wf (document_policies l) \<Longrightarrow> length (document_policies l) \<le> n \<Longrightarrow> MAX_NATIVE_CACHE_ENTRIES \<le> n \<Longrightarrow>
   length (document_policies (store_document_policy key p l)) \<le> n"
  by (simp add: store_document_policy_def evict_insert_length)

lemma change_meta_length:
  "length (document_policies (snd (change_meta_policies f key root l))) \<le> Suc (length (document_policies l))"
  by (simp add: change_meta_policies_def Let_def bt_length_insert_le split: sum.split)

lemma table_grows:
  assumes "ledger_wf l" "length (document_policies l) \<le> MAX_NATIVE_CACHE_ENTRIES + n"
  shows "length (document_policies (ledger_step E l c)) \<le> MAX_NATIVE_CACHE_ENTRIES + (n + unevicted c)"
proof (cases "looks_only c")
  case True
  then show ?thesis using looks_only_policies [OF True] assms(2) by simp
next
  case False
  have wf: "bt_wf (document_policies l)" using assms(1) by (simp add: ledger_wf_def)
  have store: "length (document_policies (store_document_policy key p l)) \<le> MAX_NATIVE_CACHE_ENTRIES + n" for key p
    by (rule store_policy_length [OF wf assms(2)]) simp
  have meta: "length (document_policies (snd (change_meta_policies f key root l))) \<le> MAX_NATIVE_CACHE_ENTRIES + Suc n" for f key root
    using change_meta_length [of f key root l] assms(2) by simp
  show ?thesis
    using False store meta assms(2)
    by (cases c) (auto simp: commit_response_policies_def set_document_content_security_policy_from_pairs_def
        apply_meta_content_security_policies_def append_meta_content_security_policies_def inherit_document_policy_from_def
        Let_def split: sum.splits option.splits intro: order_trans [OF bt_length_insert_le])
qed

text \<open>
  The ledgers of loaders, beginning with a new one, after any commands; a parent to inherit from is the
  loader of another frame. The number counts the insertions without making room.
\<close>

inductive loader_ledger :: "'u policy_env \<Rightarrow> policy_ledger \<Rightarrow> nat \<Rightarrow> bool" for E where
  new: "loader_ledger E (new_ledger roots) 0"
| command: "loader_ledger E l n \<Longrightarrow> (\<And>parent url. c = Inherit_Policy parent url \<Longrightarrow> \<exists>m. loader_ledger E parent m) \<Longrightarrow>
     loader_ledger E (ledger_step E l c) (n + unevicted c)"

interpretation ledger: guarded_machine "\<lambda>(l, n) c. (ledger_step E l c, n + unevicted c)" "\<lambda>_. command_wf"
  "\<lambda>(l, n). ledger_wf l \<and> length (document_policies l) \<le> MAX_NATIVE_CACHE_ENTRIES + n" for E :: "'u policy_env"
  by unfold_locales (auto intro: ledger_step_wf table_grows)

lemma new_ledger_wf: "ledger_wf (new_ledger roots)"
  by (simp add: ledger_wf_def new_ledger_def)

lemma loader_ledger_wf: "loader_ledger E l n \<Longrightarrow> ledger_wf l \<and> length (document_policies l) \<le> MAX_NATIVE_CACHE_ENTRIES + n"
proof (induction rule: loader_ledger.induct)
  case (command l n c)
  then have "command_wf c" by (cases c) auto
  then show ?case using ledger.guarded_step [of "(l, n)" c E] command.IH(1) by simp
qed (simp add: new_ledger_wf, simp add: new_ledger_def)

end
