(* ===== verification/Csp_Promises.thy ===== *)
theory Csp_Promises
  imports Csp_Invariant
begin

text \<open>
  What the content security policy of the native engine promises, stated of the entry points: the
  grammar of host sources, the agreement of report-only with enforced policies, what a redirect
  reveals, when a WebSocket opens, that a page at work cannot relax its policy, the bounds of the
  ledger, and two ways in which a policy is lost.
\<close>

section \<open>A page at work\<close>

text \<open>
  Storing a policy under a key spares the one of a document when it is not the document's key and, in
  a full table, the document's is not the first.
\<close>

definition spares_key :: "'u policy_env \<Rightarrow> 'u \<Rightarrow> policy_ledger \<Rightarrow> string \<Rightarrow> bool" where
  "spares_key E d l key \<longleftrightarrow>
     key \<noteq> cache_key (en_lib E) d \<and>
     (bt_contains (document_policies l) key \<or> length (document_policies l) < MAX_NATIVE_CACHE_ENTRIES \<or>
      map fst (take 1 (document_policies l)) \<noteq> [cache_key (en_lib E) d])"

text \<open>
  The commands that spare the policy of a document: what the page does, and the loads, worker starts
  and inheritances that store a policy for another address and do not evict it.
\<close>

fun spares :: "'u policy_env \<Rightarrow> 'u \<Rightarrow> policy_ledger \<Rightarrow> 'u ledger_command \<Rightarrow> bool" where
  "spares E d l (Commit_Response url _) = spares_key E d l (cache_key (en_lib E) url)"
| "spares E d l (Store_Worker_Policy url _) = spares_key E d l (cache_key (en_lib E) url)"
| "spares E d l (Set_From_Pairs url _) =
     (case snapshot_owner E ''CSP response policy owner URL'' url of
        Inr (Some u) \<Rightarrow> spares_key E d l (cache_key (en_lib E) u) | _ \<Rightarrow> True)"
| "spares E d l (Apply_Meta url _) =
     (case csp_document_owner E l url meta_owner_name of
        Inr (Some (u, _)) \<Rightarrow> cache_key (en_lib E) u \<noteq> cache_key (en_lib E) d | _ \<Rightarrow> True)"
| "spares E d l (Inherit_Policy _ url) =
     (case url_parse (en_lib E) (without_fragment url) of
        Some u \<Rightarrow> cache_key (en_lib E) u \<noteq> cache_key (en_lib E) d | None \<Rightarrow> True)"
| "spares E d l _ = True"

lemma evict_first_other:
  "bt_contains m key \<or> length m < MAX_NATIVE_CACHE_ENTRIES \<or> map fst (take 1 m) \<noteq> [k] \<Longrightarrow> bt_get (evict_first key m) k = bt_get m k"
  by (cases m) (auto simp: evict_first_def)

lemma stored_elsewhere: "spares_key E d l key \<Longrightarrow> policy_of E (store_document_policy key p l) d = policy_of E l d"
  using evict_first_other [of "document_policies l" key "cache_key (en_lib E) d"]
  by (auto simp: policy_of_def store_document_policy_def spares_key_def bt_get_or_def)

lemma changed_elsewhere: "key \<noteq> cache_key (en_lib E) d \<Longrightarrow> policy_of E (snd (change_meta_policies f key root l)) d = policy_of E l d"
  by (simp add: policy_of_def change_meta_policies_def bt_get_or_def Let_def split: sum.split)

lemma change_append_strict:
  "at_least_as_strict
     (bt_get_or default_policy_csp
       (document_policies (snd (change_meta_policies (append_meta_policies vs) key root l))) k)
     (bt_get_or default_policy_csp (document_policies l) k)"
proof -
  let ?p = "(bt_get_or default_policy_csp (document_policies l) key)\<lparr>rooted_file_self_root := root\<rparr>"
  have p: "at_least_as_strict ?p (bt_get_or default_policy_csp (document_policies l) key)"
    by (simp add: at_least_as_strict_def)
  show ?thesis
  proof (cases "append_meta_policies vs ?p")
    case (Inl e)
    then show ?thesis using p by (simp add: change_meta_policies_def bt_get_or_def)
  next
    case (Inr q)
    then show ?thesis
      using strict_trans[OF append_meta_strict[OF Inr] p]
      by (simp add: change_meta_policies_def bt_get_or_def)
  qed
qed

lemma spared_step_strict:
  assumes "spares E d l c"
  shows "at_least_as_strict (policy_of E (ledger_step E l c) d) (policy_of E l d)"
proof (cases "looks_only c")
  case True
  then show ?thesis using looks_only_policies [OF True, of E l] by (simp add: policy_of_def)
next
  case False
  have append: "at_least_as_strict (policy_of E (snd (change_meta_policies (append_meta_policies vs) key root l)) d) (policy_of E l d)"
    for vs key root
    using change_append_strict [of vs key root l] by (simp add: policy_of_def)
  have kept: "policy_of E (store_document_response_policy_headers key hs m) d = policy_of E m d"
      "policy_of E (store_document_referrer_policy key r m) d = policy_of E m d" for key hs r m
    by (simp_all add: policy_of_def)
  have inherited: "policy_of E (l\<lparr>document_policies := bt_insert key p (document_policies l)\<rparr>) d = policy_of E l d"
    if "key \<noteq> cache_key (en_lib E) d" for key p
    using that by (simp add: policy_of_def bt_get_or_def)
  show ?thesis
    using False assms append
    by (cases c) (auto simp: commit_response_policies_def set_document_content_security_policy_from_pairs_def
        apply_meta_content_security_policies_def append_meta_content_security_policies_def inherit_document_policy_from_def
        stored_elsewhere changed_elsewhere inherited kept Let_def split: sum.splits option.splits)
qed

interpretation live: guarded_machine "ledger_step E" "spares E d" "\<lambda>l. at_least_as_strict (policy_of E l d) p"
  for E :: "'u policy_env" and d p
  by unfold_locales (rule strict_trans[OF spared_step_strict])

section \<open>WebSocket targets\<close>

lemma websocket_target_Inr:
  assumes "websocket_target E cookie l doc href = Inr t"
  shows "\<exists>d http. url_parse (en_lib E) (without_fragment doc) = Some d \<and>
    url_scheme (en_lib E) (ws_url t) \<in> {''ws'', ''wss''} \<and>
    \<not> (url_scheme (en_lib E) d = ''https'' \<and> url_scheme (en_lib E) (ws_url t) = ''ws'') \<and>
    url_set_scheme (en_lib E) (if url_scheme (en_lib E) (ws_url t) = ''wss'' then ''https'' else ''http'')
      (ws_url t) = Some http \<and>
    (policy_allows (en_lib E) (policy_of E l d) Kind_Connect d (ws_url t) \<or>
     policy_allows (en_lib E) (policy_of E l d) Kind_Connect d http) \<and>
    ws_cookie t = cookie http d"
proof -
  have ok: "ok_or e x = Inr y \<longleftrightarrow> x = Some y" for e :: native_engine_error and x :: "'a option" and y
    by (cases x) auto
  show ?thesis
    using assms unfolding websocket_target_def res_bind_Inr_iff parse_owner_def ok Let_def
    by (auto simp: res_bind_Inr_iff ok split: if_splits)
qed

section \<open>The properties\<close>

text \<open>Claim C24. The parser of host sources accepts exactly the texts of the grammar (a valid scheme
  before \<open>://\<close>, a valid host, a port of digits within 16 bits or a star, a valid path; no \<open>://\<close> in
  the path of a source without a scheme) and returns their parts: it is the inverse of printing.\<close>

theorem host_sources_are_a_grammar:
  "parse_csp_host_source e = Some h \<longleftrightarrow> host_source_wf h \<and> print_host_source h = e"
  by (rule parse_csp_host_source_iff)

text \<open>Claim C22. A report-only declaration is reported for a request, a redirect, a navigation or an
  inline script or style exactly when it would refuse it if it were the document's enforced policy,
  and the reports come in the order of the declarations.\<close>

theorem report_only_agrees_with_enforcement:
  "map fst (report_only_url_violations L p kind d u pi n) =
     filter (\<lambda>decl. \<not> (if kind = Kind_Script then policy_allows_script L (as_enforced decl) d u pi n
                       else policy_allows L (as_enforced decl) kind d u)) (report_only_policies p) \<and>
   map fst (report_only_url_violations_for_redirect L p kind d u pi n) =
     filter (\<lambda>decl. \<not> (if kind = Kind_Script then policy_allows_script_redirect L (as_enforced decl) d u pi n
                       else policy_allows_redirect L (as_enforced decl) kind d u)) (report_only_policies p) \<and>
   map fst (report_only_navigation_violations L p nav d u) =
     filter (\<lambda>decl. \<not> policy_allows_navigation L (as_enforced decl) nav d u) (report_only_policies p) \<and>
   map fst (report_only_inline_violations L p inl source n) =
     filter (\<lambda>decl. \<not> policy_allows_inline L (as_enforced decl) inl source n) (report_only_policies p)"
  using url_reports[of L p kind d u pi n False] url_reports[of L p kind d u pi n True]
  by (simp add: report_only_url_violations_def report_only_url_violations_for_redirect_def url_allowed_def
      navigation_reports inline_reports)

text \<open>Claim C23. The decision on a redirect does not depend on the path of the target, so a page
  cannot learn the path from it, and it refuses nothing that a direct request to the same host would
  be allowed.\<close>

theorem redirects_reveal_no_path:
  assumes "same_but_path L d u v"
  shows "policy_allows_redirect L p kind d u = policy_allows_redirect L p kind d v \<and>
    policy_allows_script_redirect L p d u pi n = policy_allows_script_redirect L p d v pi n \<and>
    (policy_allows L p kind d u \<longrightarrow> policy_allows_redirect L p kind d v) \<and>
    (policy_allows_script L p d u pi n \<longrightarrow> policy_allows_script_redirect L p d v pi n)"
  using directives_same_but_path[OF assms] directives_forget_path(1)[of L _ _ d u]
    directives_forget_path(2)[of L _ d u pi n]
  by (simp add: policy_allows_def policy_allows_script_def policy_allows_redirect_def
      policy_allows_script_redirect_def list_all_iff)

text \<open>Claim C25. Whatever the loaders do, a ledger keeps its invariant: the policies from a
  document are those of its recorded texts and within their bound, the endpoints of a group are
  distinct and at most eight, the kept headers and the referrer policies are at most 32 each and the waiting violations
  at most 128. The table of policies holds at most 32 and as many as were inserted without making room, once for
  every declaration of a document and every inheritance; a load or a worker start never makes a table of 32 or more longer. The
  scheduled reports are not bounded.\<close>

theorem ledger_stays_bounded:
  assumes "loader_ledger E l n"
  shows "ledger_wf l \<and> length (document_policies l) \<le> MAX_NATIVE_CACHE_ENTRIES + n \<and>
    length (response_policy_headers l) \<le> 32 \<and> length (referrer_policies l) \<le> 32 \<and> length (csp_violations l) \<le> 128 \<and>
    length (document_policies (store_document_policy key p l)) \<le> max 32 (length (document_policies l))"
proof -
  have l: "ledger_wf l" "length (document_policies l) \<le> MAX_NATIVE_CACHE_ENTRIES + n" using loader_ledger_wf [OF assms] by auto
  have "length (document_policies (store_document_policy key p l)) \<le> max 32 (length (document_policies l))"
    using l(1) by (intro store_policy_length) (simp_all add: ledger_wf_def MAX_NATIVE_CACHE_ENTRIES_def)
  then show ?thesis using l by (simp add: ledger_wf_def MAX_NATIVE_CACHE_ENTRIES_def MAX_NATIVE_CSP_VIOLATIONS_def)
qed

text \<open>Claim C13. As long as the loader stores no other policy for a document's address and does not
  evict the document's policy, nothing that the policy refused becomes allowed, whatever the page does
  (policies it adds, checks, reports, revalidation) and whatever other documents and workers are
  loaded: removing or editing a processed policy cannot relax it. A load of the same address, or of
  a worker from it, replaces the policy, and a load into a full table may evict it.\<close>

theorem live_page_only_tightens:
  assumes "guarded_run (ledger_step E) (spares E d) l cs l'" and "q = policy_of E l' d"
  shows "(policy_allows (en_lib E) q kind d u \<longrightarrow> policy_allows (en_lib E) (policy_of E l d) kind d u) \<and>
    (policy_allows_redirect (en_lib E) q kind d u \<longrightarrow>
     policy_allows_redirect (en_lib E) (policy_of E l d) kind d u) \<and>
    (policy_allows_script (en_lib E) q d u pi n \<longrightarrow>
     policy_allows_script (en_lib E) (policy_of E l d) d u pi n) \<and>
    (policy_allows_script_redirect (en_lib E) q d u pi n \<longrightarrow>
     policy_allows_script_redirect (en_lib E) (policy_of E l d) d u pi n) \<and>
    (policy_allows_navigation (en_lib E) q nav d u \<longrightarrow>
     policy_allows_navigation (en_lib E) (policy_of E l d) nav d u) \<and>
    (policy_allows_inline (en_lib E) q inl source n \<longrightarrow>
     policy_allows_inline (en_lib E) (policy_of E l d) inl source n)"
proof -
  have "at_least_as_strict q (policy_of E l d)"
    unfolding assms(2) by (rule live.guarded_run_inv[OF assms(1) strict_refl])
  note strict = strict_decisions[OF this]
  show ?thesis by (intro conjI impI; rule strict)
qed

text \<open>Claim C30. The ledger forgets: when it holds 32 documents, committing the response of another
  one drops the policy of the document with the first address, which may still be open, and from then
  on its policy is the empty one, which allows everything.\<close>

theorem evicted_policy_fails_open:
  assumes "bt_wf (document_policies l)" "document_policies l = (cache_key (en_lib E) d, p) # rest"
    and "MAX_NATIVE_CACHE_ENTRIES \<le> length (document_policies l)"
    and "\<not> bt_contains (document_policies l) (cache_key (en_lib E) v)"
  shows "policy_of E (snd (commit_response_policies E v headers l)) d = default_policy_csp \<and>
    policy_allows L (policy_of E (snd (commit_response_policies E v headers l)) d) kind d u \<and>
    policy_allows_inline L (policy_of E (snd (commit_response_policies E v headers l)) d) inl source n"
proof -
  have "evict_first (cache_key (en_lib E) v) (document_policies l) = rest"
    using assms bt_remove_head[of "cache_key (en_lib E) d" p rest] by (simp add: evict_first_def)
  moreover have "bt_get rest (cache_key (en_lib E) d) = None"
    using assms(1,2) bt_get_remove[of "cache_key (en_lib E) d" "document_policies l" "cache_key (en_lib E) d"]
      bt_remove_head[of "cache_key (en_lib E) d" p rest] by simp
  moreover have "cache_key (en_lib E) d \<noteq> cache_key (en_lib E) v"
    using assms(2,4) by (auto simp: bt_contains_def bt_get_def)
  ultimately have "policy_of E (snd (commit_response_policies E v headers l)) d = default_policy_csp"
    by (auto simp: policy_of_def commit_response_policies_def Let_def store_document_policy_def
        bt_get_or_def split: sum.splits)
  then show ?thesis
    by (simp add: policy_allows_def policy_allows_inline_def) (simp add: default_policy_csp_def)
qed

end
