(* ===== verification/Csp_Demo.thy ===== *)
theory Csp_Demo
  imports Csp_Promises "HOL-Library.Code_Target_Nat"
begin

text \<open>
  Concrete addresses and documents: the instances on which the properties of the policies are
  exercised, and two header values whose reading loses a restriction.
\<close>

section \<open>A small address library\<close>

type_synonym demo_url = "string \<times> string \<times> string"

definition demo_parse :: "string \<Rightarrow> demo_url option" where
  "demo_parse s =
     (case split_once_str ''://'' s of
        None \<Rightarrow> None
      | Some (sch, rest) \<Rightarrow>
          (case split_once (CHR ''/'') rest of
             None \<Rightarrow> Some (sch, rest, ''/'')
           | Some (h, p) \<Rightarrow> Some (sch, h, CHR ''/'' # p)))"

definition demo_str :: "demo_url \<Rightarrow> string" where
  "demo_str u = (case u of (s, h, p) \<Rightarrow> s @ ''://'' @ h @ p)"

definition demo_lib :: "demo_url csp_lib" where
  "demo_lib = \<lparr>
     url_parse = demo_parse, url_join = (\<lambda>_. demo_parse), url_str = demo_str,
     url_scheme = fst, url_host_str = (\<lambda>u. Some (fst (snd u))), url_port = (\<lambda>_. None),
     url_path = (\<lambda>u. snd (snd u)), url_username = (\<lambda>_. []), url_password = (\<lambda>_. None),
     url_set_scheme = (\<lambda>s u. Some (s, snd u)), url_no_fragment = id,
     same_origin = (\<lambda>u v. fst u = fst v \<and> fst (snd u) = fst (snd v)),
     sha256 = id, sha384 = id, sha512 = id, base64_encode = id\<rparr>"

definition demo_jsons :: json_lib where
  "demo_jsons = \<lparr>json_from_str = (\<lambda>_. None), json_to_vec = (\<lambda>_. Some [])\<rparr>"

definition demo_csp_env :: "demo_url policy_env" where
  "demo_csp_env = \<lparr>en_lib = demo_lib, en_jsons = demo_jsons, en_to_file_path = (\<lambda>_. None),
     en_canonicalize = Some, en_is_file = (\<lambda>_. True)\<rparr>"

definition page :: demo_url where
  "page = (''https'', ''a.example'', ''/'')"

definition headers_of :: "string list \<Rightarrow> header_values" where
  "headers_of values name = (if name = ''content-security-policy'' then map Some values else [])"

section \<open>Witnesses\<close>

theorem redirects_reveal_no_path_witness:
  "same_but_path demo_lib page (''https'', ''b.example'', ''/x'') (''https'', ''b.example'', ''/secret'') \<and>
   policy_allows_redirect demo_lib
     (default_policy_csp\<lparr>csp_policies := [parse_csp_directives ''connect-src https://b.example/x'']\<rparr>)
     Kind_Connect page (''https'', ''b.example'', ''/secret'')"
proof -
  have s: "same_but_path demo_lib page (''https'', ''b.example'', ''/x'') (''https'', ''b.example'', ''/secret'')"
    by (simp add: same_but_path_def demo_lib_def page_def)
  have a: "policy_allows demo_lib
     (default_policy_csp\<lparr>csp_policies := [parse_csp_directives ''connect-src https://b.example/x'']\<rparr>)
     Kind_Connect page (''https'', ''b.example'', ''/x'')"
    by code_simp
  show ?thesis using s a redirects_reveal_no_path[OF s] by blast
qed

definition demo_ledger :: "string list \<Rightarrow> policy_ledger" where
  "demo_ledger values = store_document_policy ''https://a.example/''
     (content_security_policy demo_jsons (headers_of values)) (new_ledger [])"

lemma take_chars_code [code]:
  "take_chars n s = (if n = 0 then [] else case s of [] \<Rightarrow> []
     | c # t \<Rightarrow> c # takeWhile is_continuation t @ take_chars (n - 1) (dropWhile is_continuation t))"
  by (cases n; cases s) simp_all

definition elsewhere :: demo_url where
  "elsewhere = (''https'', ''b.example'', ''/w.js'')"

theorem live_page_only_tightens_witness:
  "\<exists>l'. guarded_run (ledger_step demo_csp_env) (spares demo_csp_env page) (demo_ledger [''script-src https:''])
     [Append_Meta ''https://a.example/'' [''script-src *''], Store_Worker_Policy elsewhere (headers_of []), Take_Violations] l' \<and>
   \<not> policy_allows_inline (en_lib demo_csp_env) (policy_of demo_csp_env l' page) ScriptElement ''alert(1)'' None"
proof -
  let ?l = "demo_ledger [''script-src https:'']"
  let ?cs = "[Append_Meta ''https://a.example/'' [''script-src *''], Store_Worker_Policy elsewhere (headers_of []), Take_Violations]"
  let ?l1 = "ledger_step demo_csp_env ?l (Append_Meta ''https://a.example/'' [''script-src *''])"
  have "spares demo_csp_env page ?l1 (Store_Worker_Policy elsewhere (headers_of []))" by code_simp
  then obtain l' where run: "guarded_run (ledger_step demo_csp_env) (spares demo_csp_env page) ?l ?cs l'" by auto
  have "\<not> policy_allows_inline (en_lib demo_csp_env) (policy_of demo_csp_env ?l page) ScriptElement ''alert(1)'' None"
    by code_simp
  then show ?thesis using live_page_only_tightens[OF run refl] run by blast
qed

text \<open>A loader that loaded a page, whose document then declared a policy, and a frame that inherits it.\<close>

definition loaded_ledger :: policy_ledger where
  "loaded_ledger = ledger_step demo_csp_env (ledger_step demo_csp_env (new_ledger []) (Commit_Response page (headers_of [''script-src https:''])))
     (Append_Meta ''https://a.example/'' [''img-src https:''])"

definition framed_ledger :: policy_ledger where
  "framed_ledger = ledger_step demo_csp_env (new_ledger []) (Inherit_Policy loaded_ledger ''https://a.example/'')"

theorem ledger_stays_bounded_witness:
  "length (document_policies framed_ledger) = 1 \<and> ledger_wf framed_ledger"
proof -
  have "loader_ledger demo_csp_env loaded_ledger 1"
    unfolding loaded_ledger_def
    using loader_ledger.command [OF loader_ledger.command [OF loader_ledger.new [of demo_csp_env "[]"], of "Commit_Response page (headers_of [''script-src https:''])"],
        of "Append_Meta ''https://a.example/'' [''img-src https:'']"] by simp
  then have "loader_ledger demo_csp_env framed_ledger (0 + unevicted (Inherit_Policy loaded_ledger ''https://a.example/'' :: demo_url ledger_command))"
    unfolding framed_ledger_def by (intro loader_ledger.command loader_ledger.new) auto
  note ledger_stays_bounded [OF this]
  moreover have "length (document_policies framed_ledger) = 1" by code_simp
  ultimately show ?thesis by blast
qed

definition demo_socket :: demo_url where
  "demo_socket = (''wss'', ''a.example'', ''/s'')"

lemma demo_forms: "websocket_forms demo_lib page demo_socket (''https'', ''a.example'', ''/s'')"
  by (simp add: websocket_forms_def tuple_origin_def demo_lib_def page_def demo_socket_def or_option_def
      default_ports)

lemma demo_env_lib: "en_lib demo_csp_env = demo_lib"
  by (simp add: demo_csp_env_def)

lemma demo_parsed: "url_parse demo_lib (without_fragment ''https://a.example/'') = Some page"
  by code_simp

lemma demo_upgrade: "url_set_scheme demo_lib ''https'' demo_socket = Some (''https'', ''a.example'', ''/s'')"
  by (simp add: demo_lib_def demo_socket_def)

lemma demo_socket_wss: "url_scheme demo_lib demo_socket = ''wss''"
  by (simp add: demo_lib_def demo_socket_def)

definition crowd :: "policy_ledger" where
  "crowd = (new_ledger [])\<lparr>document_policies :=
     map (\<lambda>i. (demo_str (''https'', [char_of (65 + i)], ''/''),
        content_security_policy demo_jsons (headers_of [''default-src https:'']))) [0 ..< 32 :: nat]\<rparr>"

theorem evicted_policy_fails_open_witness:
  "policy_allows demo_lib
     (policy_of demo_csp_env (snd (commit_response_policies demo_csp_env page (\<lambda>_. []) crowd)) (''https'', ''A'', ''/''))
     Kind_Script (''https'', ''A'', ''/'') (''http'', ''evil.example'', ''/x.js'') \<and>
   \<not> policy_allows demo_lib (policy_of demo_csp_env crowd (''https'', ''A'', ''/''))
     Kind_Script (''https'', ''A'', ''/'') (''http'', ''evil.example'', ''/x.js'')"
proof -
  have wf: "bt_wf (document_policies crowd)" by code_simp
  have hd: "document_policies crowd = (cache_key (en_lib demo_csp_env) (''https'', ''A'', ''/''),
      snd (hd (document_policies crowd))) # tl (document_policies crowd)"
    by code_simp
  have len: "MAX_NATIVE_CACHE_ENTRIES \<le> length (document_policies crowd)" by code_simp
  have new: "\<not> bt_contains (document_policies crowd) (cache_key (en_lib demo_csp_env) page)" by code_simp
  have "\<not> policy_allows demo_lib (policy_of demo_csp_env crowd (''https'', ''A'', ''/''))
     Kind_Script (''https'', ''A'', ''/'') (''http'', ''evil.example'', ''/x.js'')"
    by code_simp
  then show ?thesis using evicted_policy_fails_open[OF wf hd len new] by blast
qed

section \<open>Two readings of a header\<close>

definition none_source :: string where
  "none_source = quoted ''none''"

text \<open>A later directive of the same name replaces an earlier one.\<close>

lemma later_directive_wins:
  "default_sources (parse_csp_directives (''default-src '' @ none_source @ ''; default-src *'')) = Some [''*'']"
  by code_simp

definition joined_header :: string where
  "joined_header = ''script-src '' @ none_source @ '', default-src *''"

lemma joined_directives:
  "parse_csp_directives joined_header =
     default_directives\<lparr>script_sources := Some [none_source @ '','', ''default-src'', ''*'']\<rparr>"
  by code_simp

definition strict_header :: string where
  "strict_header = ''script-src '' @ none_source"

lemma separate_directives:
  "parse_csp_directives strict_header =
     default_directives\<lparr>script_sources := Some [none_source]\<rparr>"
  by code_simp

text \<open>Two policies in one header value, separated by a comma as the header's list syntax
  has it, are read as one: the second policy's star becomes a source of the first policy's
  \<open>script-src\<close>, and a script is allowed that the same two policies in two header values refuse.\<close>

theorem joined_header_loses_policy:
  assumes "url_scheme L u = ''https''"
  shows "policy_allows_script L (content_security_policy J (headers_of [joined_header])) d u pi None \<and>
    \<not> policy_allows_script L
        (content_security_policy J (headers_of [strict_header, ''default-src *''])) d u pi None"
proof -
  have one: "csp_policies (content_security_policy J (headers_of vs)) = map parse_csp_directives vs" for vs
    by (simp add: content_security_policy_def headers_of_def Let_def List.map_filter_def header_directives_def
        default_policy_csp_def o_def)
  have kw: "\<not> keyword_listed ''strict-dynamic'' [none_source @ '','', ''default-src'', ''*'']"
      "\<not> keyword_listed ''strict-dynamic'' [none_source]"
    and none: "eq_ignore_ascii_case none_source (quoted ''none'')"
      "\<not> eq_ignore_ascii_case ''*'' (quoted ''none'')"
    by code_simp+
  have "csp_source_expression_matches L ''*'' d u False"
    using assms by (simp add: csp_source_expression_matches_def MAX_NATIVE_CSP_SOURCE_EXPRESSION_BYTES_def)
  then have "directives_allow_script L (parse_csp_directives joined_header) d u pi None"
    using kw(1) none(2)
    by (simp add: joined_directives directives_allow_script_def csp_script_sources_allow_def
        csp_script_sources_allow_with_path_def nonce_listed_def csp_sources_allow_with_path_def
        default_directives_def)
  moreover have "\<not> directives_allow_script L (parse_csp_directives strict_header) d u pi None"
    using kw(2) none(1)
    by (simp add: separate_directives directives_allow_script_def csp_script_sources_allow_def
        csp_script_sources_allow_with_path_def nonce_listed_def csp_sources_allow_with_path_def
        default_directives_def)
  ultimately show ?thesis by (simp add: policy_allows_script_def one)
qed

theorem joined_header_loses_policy_witness:
  "url_scheme demo_lib page = ''https'' \<and>
   policy_allows_script demo_lib (content_security_policy demo_jsons (headers_of [joined_header]))
     page page True None"
proof -
  have s: "url_scheme demo_lib page = ''https''" by (simp add: demo_lib_def page_def)
  show ?thesis using s joined_header_loses_policy[OF s, of demo_jsons page True] by simp
qed

end
