(* ===== verification/Cookie_Demo.thy ===== *)
theory Cookie_Demo
  imports Cookie_Replay Csp_Demo
begin

text \<open>
  Concrete jars and profiles: the instances on which the properties of the cookies are exercised, and
  three small cases that end badly: a profile whose expiry the clock cannot hold, a refused batch whose
  log comes back in the wrong order, and two owners under one public suffix.
\<close>

definition demo_clock :: cookie_clock where
  "demo_clock = \<lparr>now_instant = (100, 0), now_unix = 1000\<rparr>"

definition demo_entry :: "string \<Rightarrow> string \<Rightarrow> native_cookie_profile_entry" where
  "demo_entry n v = \<lparr>ck_name = n, ck_value = v, ck_domain = ''a.example'', ck_path = ''/'', ck_host_only = True,
     ck_secure = False, ck_http_only = False, ck_same_site = None, ck_priority = None, ck_expires_unix = None\<rparr>"

definition demo_cookie :: "string \<Rightarrow> string \<Rightarrow> native_cookie" where
  "demo_cookie n v = as_cookie (demo_entry n v) None None None"

definition demo_loader :: "native_cookie list \<Rightarrow> cookie_loader" where
  "demo_loader jar = \<lparr>cookie_authority_enabled = True, cookies = jar, cookie_changes = []\<rparr>"

section \<open>Witnesses\<close>

theorem diff_then_merge_witness:
  "validate_cookie_profile [demo_entry ''a'' ''1''] = Ok () \<and>
   (\<exists>cs. merge_cookie_changes [demo_entry ''a'' ''1'']
      (diff_cookie_profiles [demo_entry ''a'' ''1''] [demo_entry ''b'' ''2'', demo_entry ''a'' ''3'']) = Ok cs \<and>
      mset cs = mset [demo_entry ''b'' ''2'', demo_entry ''a'' ''3''])"
proof -
  have "validate_cookie_profile [demo_entry ''a'' ''1''] = Ok ()"
    "validate_cookie_profile [demo_entry ''b'' ''2'', demo_entry ''a'' ''3''] = Ok ()"
    by code_simp+
  then show ?thesis using diff_then_merge by blast
qed

theorem coalescing_loses_nothing_witness:
  "\<exists>cs q. coalesce_cookie_changes ''o''
      [arrival (demo_entry ''b'' ''2''), arrival (demo_entry ''b'' ''3'')] = Ok cs \<and>
    distinct (map change_key cs) \<and> merge_cookie_changes [demo_entry ''a'' ''1''] cs = Ok q \<and>
    mset q = mset [demo_entry ''a'' ''1'', demo_entry ''b'' ''3'']"
proof (rule coalescing_loses_nothing)
  show "validate_cookie_profile [demo_entry ''a'' ''1''] = Ok ()" by code_simp
  show "merge_cookie_changes [demo_entry ''a'' ''1'']
      [arrival (demo_entry ''b'' ''2''), arrival (demo_entry ''b'' ''3'')] =
      Ok [demo_entry ''a'' ''1'', demo_entry ''b'' ''3'']" by code_simp
  show "card (key_of ` set [demo_entry ''a'' ''1''] \<union>
      change_key ` set [arrival (demo_entry ''b'' ''2''), arrival (demo_entry ''b'' ''3'')])
      \<le> MAX_NATIVE_COOKIE_PROFILE_ENTRIES" by code_simp
qed

theorem hidden_cookies_do_not_matter_witness:
  "cookie_header_for_request demo_lib demo_clock (demo_loader [(demo_cookie ''a'' ''1'')\<lparr>ck_secure := True\<rparr>])
     (''http'', ''a.example'', ''/'') None True (Navigation Nav_Get) =
   cookie_header_for_request demo_lib demo_clock (demo_loader [])
     (''http'', ''a.example'', ''/'') None True (Navigation Nav_Get)"
proof -
  have "\<not> eq_ignore_ascii_case (url_scheme demo_lib (''http'', ''a.example'', ''/'')) ''https''"
    by code_simp
  then show ?thesis
    using hidden_cookies_do_not_matter[of demo_lib demo_clock
        "demo_loader [(demo_cookie ''a'' ''1'')\<lparr>ck_secure := True\<rparr>]" "[]"
        "(''http'', ''a.example'', ''/'')" None True "Navigation Nav_Get"]
    by (simp add: demo_loader_def)
qed

lemma demo_network:
  "network_from_profile demo_clock [demo_entry ''a'' ''1''] =
     Ok \<lparr>cookie_authority_enabled = True, cookies = [demo_cookie ''a'' ''1'']\<rparr>"
  by code_simp

theorem cookie_jar_stays_sound_witness:
  "jar_sound (cookies (fold (\<lambda>e l. cookie_step demo_lib l e)
     [Set_Cookie_Header demo_clock (''https'', ''a.example'', ''/'') ''b=2; Secure; Max-Age=60'', Clear_Cookies,
      Install_Profiles demo_clock [demo_entry ''c'' ''3'']]
     (loader_of \<lparr>cookie_authority_enabled = True, cookies = [demo_cookie ''a'' ''1'']\<rparr>)))"
proof (rule cookie_jar_stays_sound)
  show "validate_cookie_profile [demo_entry ''a'' ''1''] = Ok ()" by code_simp
qed (rule demo_network)

theorem saved_cookies_load_again_witness:
  "\<exists>ps s'. open_cookie_profile demo_clock (cookie_profile demo_clock (demo_loader [demo_cookie ''a'' ''1''])) = Ok ps \<and>
    network_from_profile demo_clock ps = Ok s' \<and> map entry_of (cookies s') = [demo_entry ''a'' ''1'']"
proof -
  have s: "jar_sound [demo_cookie ''a'' ''1'']" "storable (demo_cookie ''a'' ''1'')"
    "valid_cookie_domain (ck_domain (demo_cookie ''a'' ''1''))"
    "expiry_instant demo_clock (ck_expires_unix (demo_cookie ''a'' ''1'')) \<noteq> None"
    "\<not> expired_unix (ck_expires_unix (demo_cookie ''a'' ''1'')) demo_clock"
    "entry_of (demo_cookie ''a'' ''1'') = demo_entry ''a'' ''1''"
    by code_simp+
  then show ?thesis
    using saved_cookies_load_again[of "demo_loader [demo_cookie ''a'' ''1'']" demo_clock demo_clock]
    by (simp add: demo_loader_def)
qed

theorem unsupported_host_spoils_profile_witness:
  "\<exists>l' ps e. receive_set_cookie demo_lib demo_clock (''http'', ''[::1]'', ''/'') ''a=b'' (demo_loader []) = (Ok (), l') \<and>
    open_cookie_profile demo_clock (cookie_profile demo_clock l') = Ok ps \<and>
    network_from_profile demo_clock ps = Err e"
proof (rule unsupported_host_spoils_profile)
  show "jar_sound (cookies (demo_loader []))" by code_simp
  show "\<not> valid_cookie_domain (to_ascii_lowercase ''[::1]'')" by code_simp
  show "length (default_cookie_path demo_lib (''http'', ''[::1]'', ''/'')) \<le> MAX_NATIVE_COOKIE_PROFILE_BYTES"
    by code_simp
qed (simp_all add: demo_loader_def demo_lib_def MAX_NATIVE_COOKIE_PROFILE_BYTES_def)

theorem script_replaces_http_only_cookie_witness:
  "\<exists>l' c'. set_document_cookie demo_lib demo_clock ''https://a.example/'' ''a=b''
      (demo_loader [(demo_cookie ''a'' ''secret'')\<lparr>ck_http_only := True\<rparr>]) = (Ok (), l') \<and>
    (demo_cookie ''a'' ''secret'')\<lparr>ck_http_only := True\<rparr> \<notin> set (cookies l') \<and> c' \<in> set (cookies l') \<and>
    key_of c' = key_of ((demo_cookie ''a'' ''secret'')\<lparr>ck_http_only := True\<rparr>) \<and> ck_value c' = ''b'' \<and> \<not> ck_http_only c'"
proof (rule script_replaces_http_only_cookie)
  show "jar_sound (cookies (demo_loader [(demo_cookie ''a'' ''secret'')\<lparr>ck_http_only := True\<rparr>]))" by code_simp
  show "document_cookie_owner demo_lib ''https://a.example/'' ''a=b'' = Ok (Some (''https'', ''a.example'', ''/''))"
    by code_simp
  show "key_of ((demo_cookie ''a'' ''secret'')\<lparr>ck_http_only := True\<rparr>) =
      (''a'', to_ascii_lowercase ''a.example'', default_cookie_path demo_lib (''https'', ''a.example'', ''/''))"
    by code_simp
qed (simp_all add: demo_loader_def demo_lib_def)

definition demo_events :: "demo_url cookie_event list" where
  "demo_events = [Install_Profiles demo_clock [demo_entry ''a'' ''1''], Clear_Cookies,
     Install_Profiles demo_clock [demo_entry ''b'' ''2'']]"

lemma demo_log:
  "cookie_changes_since (fold (\<lambda>e l. cookie_step demo_lib l e) demo_events (demo_loader []))
     (cookie_change_checkpoint (demo_loader [])) =
   [arrival (demo_entry ''a'' ''1''), removal (key_of (demo_entry ''a'' ''1'')), arrival (demo_entry ''b'' ''2'')]"
  by code_simp

theorem staged_changes_replay_witness:
  "\<exists>jar. commit_staged_cookie_state demo_clock
      (fold (\<lambda>e l. cookie_step demo_lib l e) demo_events (demo_loader []))
      (cookie_changes_since (fold (\<lambda>e l. cookie_step demo_lib l e) demo_events (demo_loader []))
        (cookie_change_checkpoint (demo_loader []))) (demo_loader []) =
      (Ok (), (fold (\<lambda>e l. cookie_step demo_lib l e) demo_events (demo_loader []))\<lparr>cookies := jar\<rparr>) \<and>
    map entry_of jar = map entry_of (cookies (fold (\<lambda>e l. cookie_step demo_lib l e) demo_events (demo_loader [])))"
proof (rule staged_changes_replay)
  have "cookie_from_profile demo_clock (demo_entry ''a'' ''1'') = Ok (Some (demo_cookie ''a'' ''1''))"
    "cookie_from_profile demo_clock (demo_entry ''b'' ''2'') = Ok (Some (demo_cookie ''b'' ''2''))"
    by code_simp+
  then show "list_all (loadable demo_clock)
      (cookie_changes_since (fold (\<lambda>e l. cookie_step demo_lib l e) demo_events (demo_loader []))
        (cookie_change_checkpoint (demo_loader [])))"
    by (simp add: demo_log loadable_def)
  show "jar_sound (cookies (demo_loader []))" by code_simp
qed (simp_all add: demo_loader_def demo_events_def)

section \<open>Cases that end badly\<close>

text \<open>The validation does not bound the expiry; the clock's addition does, by a panic.\<close>

lemma huge_expiry_panics:
  "validate_cookie_profile [(demo_entry ''a'' ''1'')\<lparr>ck_expires_unix := Some u64_max\<rparr>] = Ok () \<and>
   network_from_profile demo_clock [(demo_entry ''a'' ''1'')\<lparr>ck_expires_unix := Some u64_max\<rparr>] = Err Panic"
  by code_simp

text \<open>A refused batch: the loader's own earlier change returns behind the change that overtook it, so the
  log ends with a value the jar no longer has.\<close>

lemma refused_batch_reorders_log:
  "(case reconcile_pending_content_cookie_changes demo_lib demo_clock []
      ([arrival (demo_entry ''a'' ''2''), arrival (demo_entry [] ''x'')],
       (demo_loader [demo_cookie ''a'' ''1''])\<lparr>cookie_changes := [arrival (demo_entry ''a'' ''1'')]\<rparr>) of
    (_, _, l) \<Rightarrow> (map ck_value (cookies l), cookie_changes l)) =
   ([''2''], [arrival (demo_entry ''a'' ''2''), arrival (demo_entry ''a'' ''1'')])"
  by code_simp

text \<open>A site is the last two labels of a host, also where those are a suffix shared by many owners.\<close>

lemma two_label_suffix_is_one_site:
  "same_site_request demo_lib (''https'', ''a.co.uk'', ''/'') (Some (''https'', ''b.co.uk'', ''/''))"
  by code_simp

end
