(* ===== verification/Spec2Isabelle.thy ===== *)
theory Spec2Isabelle
  imports Native_Runtime Nav_History Global_Policy Coord_Gaps Task_Graph Task_Demo Loop_Detect Tool_Waves Queue_Recovery Sse_Chunks Todo_Promises
    Cookie_Demo
begin

text \<open>
  A verification development for Glass, a workspace for coding agents with a browser of its own
  (a Rust workspace under \<^verbatim>\<open>src/crates\<close>). It models the parts that decide: schedulers, durable
  checkpoints and queues, policies, decoders. Input and output, processes and drawing are left out.

  \<^bold>\<open>The parts and their theories.\<close>

  \<^item> \<^emph>\<open>Shared\<close>. \<open>Prelude\<close> has results (an error to the left, a value to the right), saturating and
    checked arithmetic at the width of the code, bounded queues, and the locales for runs of a state machine.
    \<open>BTree_Map\<close> has the ordered maps of the code as sorted lists with the locale \<open>ordered_map\<close>.
    \<open>Unicode_Text\<close> has UTF-8 as the standard library checks and splits it, \<open>Byte_Text\<close> the functions on
    strings as bytes, \<open>Json_Value\<close> the JSON values the code inspects.

  \<^item> \<^emph>\<open>Native engine\<close> (\<^verbatim>\<open>glass-browser-core/src/native_engine\<close>): \<open>Native_Error\<close> (\<^verbatim>\<open>error.rs\<close>,
    \<^verbatim>\<open>lifecycle.rs\<close>), \<open>Nav_Scheduler\<close> (\<^verbatim>\<open>scheduler.rs\<close>), \<open>Native_Runtime\<close> (\<^verbatim>\<open>runtime.rs\<close>,
    \<^verbatim>\<open>worker.rs\<close>), \<open>Nav_History\<close> (\<^verbatim>\<open>history.rs\<close>). The runtime owns a scheduler and refuses work after a
    cancellation or a close; the history is shown to refine a bounded zipper.

  \<^item> \<^emph>\<open>Content security policy\<close> (\<^verbatim>\<open>native_engine/resource_loader\<close>: \<^verbatim>\<open>csp.rs\<close>, \<^verbatim>\<open>csp_headers.rs\<close>,
    \<^verbatim>\<open>policies.rs\<close> and the storing functions of \<^verbatim>\<open>resource_loader.rs\<close>): \<open>Csp_Source\<close> has source
    expressions and their matching, \<open>Csp_Meaning\<close> what they mean (the grammar of host sources, subdomains,
    paths, nonces, redirects, the two forms of a WebSocket address), \<open>Csp_Policy\<close> the directives, the headers and the
    decisions, \<open>Csp_Rules\<close> what the decisions promise, \<open>Csp_Reports\<close> addresses and reports, \<open>Csp_Ledger\<close> the
    loader's ledger of policies with every function that changes it, \<open>Csp_Invariant\<close> the ledger as a machine (the
    locale \<open>guarded_machine\<close>), \<open>Csp_Promises\<close> the properties (what spares a document's policy as a
    \<open>guarded_machine\<close> too) and \<open>Csp_Demo\<close> the witnesses.
    The \<open>url\<close> crate, digests, JSON text and files are arguments (\<open>csp_lib\<close>, \<open>json_lib\<close>, \<open>policy_env\<close>).

  \<^item> \<^emph>\<open>Cookies\<close> (\<^verbatim>\<open>native_engine/resource_loader\<close>: \<^verbatim>\<open>cookie_policy.rs\<close>, \<^verbatim>\<open>cookie_methods.rs\<close>, the
    cookie functions of \<^verbatim>\<open>resource_loader.rs\<close> and \<^verbatim>\<open>policies.rs\<close>; the cookie profile in
    \<^verbatim>\<open>javascript/profile_storage.rs\<close>, \<^verbatim>\<open>engine/storage.rs\<close> and \<^verbatim>\<open>content_process/profile_state.rs\<close>): \<open>Cookie_Policy\<close> has
    the data, the two clocks, matching and the \<open>SameSite\<close> rule, \<open>Cookie_Jar\<close> the loader's jar with the header, the
    reading of a \<^verbatim>\<open>Set-Cookie\<close> line and every operation, outcome and state together, \<open>Cookie_Profile\<close> the stored
    profile, its validation and the batches of changes. \<open>Cookie_Rules\<close> has the locale \<open>keyed_store\<close> for a bounded
    store with one value per key, interpreted on the jar and on the profile; \<open>Cookie_Sync\<close> difference, merging and
    coalescing, \<open>Cookie_Sending\<close> what a request carries, \<open>Cookie_Invariant\<close> the loader as a \<open>machine\<close>,
    \<open>Cookie_Promises\<close> the properties of the whole, \<open>Cookie_Replay\<close> the faithfulness of the log of changes and
    \<open>Cookie_Demo\<close> the witnesses. A panic of the clock's addition is an outcome of its own (\<open>fault\<close>). This theory
    puts the jar behind the policy ledger's \<open>websocket_target\<close>, as the loader does.

  \<^item> \<^emph>\<open>Tasks\<close> (\<^verbatim>\<open>glass-dev/src/tasks.rs\<close>): \<open>Task_Model\<close> has the data and the decisions on it,
    \<open>Task_Graph\<close> the dependency walk and verification by parts. The scheduler is a state (\<open>task_world\<close>: the
    table, the next number, the event cursor, the outside) under an environment (\<open>task_env\<close>: the agents'
    trait, the clock, the size and the write of the checkpoint, commands and files). \<open>Task_Monad\<close> has
    operations that may fail and keep what they changed before; \<open>Task_Sched\<close> the room in the checkpoint;
    \<open>Task_Ops\<close> starting, events, failures, budgets, verification and blocking; \<open>Task_Commands\<close> refresh,
    creation and the commands; \<open>Task_Open\<close> loading, the checks of a start and recovery; \<open>Task_Crew\<close> the
    overnight crew. \<open>Task_Invariant\<close> and \<open>Task_Keeps\<close> have a calculus for what operations lead to, in the
    locales \<open>trimmable\<close> and \<open>refresh_contract\<close>, extended by \<open>command_contract\<close> in \<open>Task_Safety\<close>: a predicate on
    snapshots that survives each change to a snapshot survives every operation. It is interpreted on the validity of
    snapshots, on the bound of attempts, on finished states and on the place in a crew. \<open>Task_Reach\<close>,
    \<open>Task_Reload\<close>, \<open>Task_Blocking\<close>, \<open>Task_Promises\<close> and \<open>Task_Progress\<close> have what follows, \<open>Task_Stall\<close> a
    requirement that stops every refresh; \<open>Task_Demo\<close> the witnesses and other runs that go wrong. Runs (\<open>life\<close> in
    \<open>Task_Reload\<close>) have the state in memory and the state the file holds, which may be older, or of the middle of a
    command, after a write that failed.

  \<^item> \<^emph>\<open>Coordination of tasks\<close> (\<^verbatim>\<open>glass-dev/src/tasks/task_coordination.rs\<close>): \<open>Coord_State\<close> (the durable
    state and the dependency walk), \<open>Coord_Ops\<close> (its operations with every write as a step that may fail),
    \<open>Coord_Valid\<close> (the checks of a start), \<open>Coord_Inv\<close>, \<open>Coord_Effects\<close>, \<open>Coord_Reload\<close> and \<open>Coord_Wake\<close>
    (invariants), \<open>Coord_Guarantees\<close> and \<open>Coord_Once\<close> (what is promised), \<open>Coord_Demo\<close> (witnesses) and
    \<open>Coord_Gaps\<close> (where the promise fails). It shares \<open>Task_Model\<close> with the scheduler and is kept apart from
    its table: the scheduler writes both into one checkpoint, and each half is shown to load again.

  \<^item> \<^emph>\<open>Agent core\<close> (\<^verbatim>\<open>glass-core/src\<close>): \<open>Global_Policy\<close> (\<^verbatim>\<open>policy.rs\<close>), \<open>Loop_Detect\<close>
    (\<^verbatim>\<open>loop_detect.rs\<close>), \<open>Tool_Waves\<close> (\<^verbatim>\<open>concurrency.rs\<close>), \<open>Session_Log\<close>, \<open>Follow_Up_Queue\<close> and
    \<open>Queue_Recovery\<close> (\<^verbatim>\<open>session.rs\<close>, \<^verbatim>\<open>queue.rs\<close>), \<open>Sse\<close> and \<open>Sse_Chunks\<close> (\<^verbatim>\<open>sse.rs\<close>), \<open>Todo_Board\<close>
    and \<open>Todo_Promises\<close> (\<^verbatim>\<open>todo.rs\<close>).

  \<^bold>\<open>What is shown.\<close> Durable state: whatever the operations, failing writes and restarts, what was saved
  is accepted by the next start and read back (coordination, tasks, follow-up queue, checklist). The conditions are part of
  the claims, and runs that show they are needed stand beside them: admitted operations over one task table for coordination,
  well-formed event kinds and working trees that are still there for tasks, no prompt after a torn receipt and no branched
  log for the queue. Once and in
  order: an owner is woken at most once, events are delivered in sequence, deliveries are numbered once,
  identifiers are never given twice. Progress: the blocking loop ends and, with room in the checkpoint for the tables
  it passes through, blocks exactly the tasks that cannot run; with room, writes and agents for the starts that scheduling
  makes, ready tasks are started; a refresh leaves nothing to do, automatic attempts are bounded. Equivalence with a
  reference: the wildcard matcher and the meaning of a pattern, the dependency walk and reachability, the stream
  decoder and its independence of how the bytes were cut, the parser of host sources and its grammar. Policies: a
  document's content security policy is never relaxed until it is replaced or evicted, the ledger is bounded but for
  what is inserted without eviction, report-only agrees with enforcement, a redirect reveals no
  path; a full ledger and a joined header are shown to lose a policy. Cookies: the header is exactly what the rules
  allow, what must stay hidden has no influence on it, the jar stays sound and bounded, and its copies are kept in
  step by differences, coalesced batches and replayed changes; a host outside the accepted alphabet is shown to spoil
  the saved profile. Both together confine a WebSocket handshake. Every claim whose statement has hypotheses is applied to
  a concrete input next to it or in a theory named for demonstrations.

  \<^bold>\<open>Bounds.\<close> Counters are natural numbers with the saturation or the check of the code written out, or
  machine words where wrap-around matters. No loop has fuel: the wildcard matcher is
  a \<open>while_option\<close> that is shown to return, the others are functions with a measure, such as the evidence left
  for making room, the queued tasks for blocking and the unvisited tasks for the walk. Strings are lists of bytes, and of
  scalar values where the code goes through characters.

  \<^bold>\<open>Not modelled.\<close> The agent loop and its tools, the providers, desktop, team and serving, the resident agents, the
  daemons, the browser backends, the servers and the terminal interfaces: they consist of input and output
  through third-party crates, or of drawing. Within the modelled parts: the JSON text of checkpoints (its length
  is a parameter), paths and permissions of files, the rendering of messages, the clock between two reads of one
  operation, the classification of shell commands, and of the resource loader everything but its policies and
  cookies (caches, requests and their responses).
\<close>

section \<open>A WebSocket handshake: policy and cookies together\<close>

text \<open>The cookie the loader selects for a handshake, and \<open>websocket_target\<close> with it.\<close>

definition handshake_cookie ::
  "'u csp_lib \<Rightarrow> cookie_clock \<Rightarrow> 'a cookie_network_scheme \<Rightarrow> 'u \<Rightarrow> 'u \<Rightarrow> string option" where
  "handshake_cookie L t s cookie_target document_url =
     cookie_header_for_request L t s cookie_target (Some document_url) False (Navigation Nav_Get)"

definition open_websocket ::
  "'u policy_env \<Rightarrow> cookie_clock \<Rightarrow> 'a cookie_network_scheme \<Rightarrow> policy_ledger \<Rightarrow> string \<Rightarrow> string \<Rightarrow>
   (native_engine_error, 'u native_websocket_target) result" where
  "open_websocket E t s l document_url href =
     websocket_target E (handshake_cookie (en_lib E) t s) l document_url href"

lemma handshake_cookie_hidden:
  "(url_scheme L http = ''http'' \<longrightarrow> handshake_cookie L t s http d =
      handshake_cookie L t (s\<lparr>cookies := filter (\<lambda>c. \<not> ck_secure c) (cookies s)\<rparr>) http d) \<and>
    (\<not> same_site_request L http (Some d) \<longrightarrow> handshake_cookie L t s http d =
      handshake_cookie L t
        (s\<lparr>cookies := filter (\<lambda>c. cookie_same_site (ck_same_site c) = SameSite_None) (cookies s)\<rparr>) http d)"
proof (intro conjI impI)
  have "\<not> eq_ignore_ascii_case ''http'' ''https''" by code_simp
  moreover assume "url_scheme L http = ''http''"
  ultimately have "\<not> eq_ignore_ascii_case (url_scheme L http) ''https''" by simp
  then show "handshake_cookie L t s http d =
      handshake_cookie L t (s\<lparr>cookies := filter (\<lambda>c. \<not> ck_secure c) (cookies s)\<rparr>) http d"
    unfolding handshake_cookie_def cookie_header_for_request_def
    by (intro header_ignores[symmetric]) (auto simp: may_travel_def)
next
  assume "\<not> same_site_request L http (Some d)"
  then show "handshake_cookie L t s http d = handshake_cookie L t
      (s\<lparr>cookies := filter (\<lambda>c. cookie_same_site (ck_same_site c) = SameSite_None) (cookies s)\<rparr>) http d"
    unfolding handshake_cookie_def cookie_header_for_request_def
    by (intro header_ignores[symmetric]) (auto simp: may_travel_def split: native_cookie_same_site.splits)
qed

text \<open>Claim C21. A WebSocket handshake is confined by the document's policy and by the cookie rules: it opens
  only over an address of scheme \<open>ws\<close> or \<open>wss\<close>, never as plain \<open>ws\<close> from an \<open>https\<close> document, and only when
  every policy of the document allows one of its two forms; over \<open>ws\<close> its cookie header does not depend
  on the \<open>Secure\<close> cookies, and towards another site only on the \<open>SameSite=None\<close> ones. The assumption on
  the address is what the \<open>url\<close> crate documents of changing \<open>ws\<close> to \<open>http\<close> and \<open>wss\<close> to \<open>https\<close>: the scheme is
  the new one, host, port and path stay, hosts are in lower case and origins are those of the parts.\<close>

theorem websocket_handshake_is_confined:
  assumes "open_websocket E t s l doc href = Ok w"
    and "\<And>d http. url_parse (en_lib E) (without_fragment doc) = Some d \<Longrightarrow>
      url_set_scheme (en_lib E) (if url_scheme (en_lib E) (ws_url w) = ''wss'' then ''https'' else ''http'')
        (ws_url w) = Some http \<Longrightarrow> websocket_forms (en_lib E) d (ws_url w) http"
  shows "\<exists>d http. url_parse (en_lib E) (without_fragment doc) = Some d \<and>
    url_scheme (en_lib E) (ws_url w) \<in> {''ws'', ''wss''} \<and>
    \<not> (url_scheme (en_lib E) d = ''https'' \<and> url_scheme (en_lib E) (ws_url w) = ''ws'') \<and>
    url_set_scheme (en_lib E) (if url_scheme (en_lib E) (ws_url w) = ''wss'' then ''https'' else ''http'')
      (ws_url w) = Some http \<and>
    list_all (\<lambda>x. directives_allow (en_lib E) x Kind_Connect d (ws_url w) \<or>
      directives_allow (en_lib E) x Kind_Connect d http) (csp_policies (policy_of E l d)) \<and>
    (url_scheme (en_lib E) (ws_url w) = ''ws'' \<longrightarrow> ws_cookie w =
      handshake_cookie (en_lib E) t (s\<lparr>cookies := filter (\<lambda>c. \<not> ck_secure c) (cookies s)\<rparr>) http d) \<and>
    (\<not> same_site_request (en_lib E) http (Some d) \<longrightarrow> ws_cookie w =
      handshake_cookie (en_lib E) t
        (s\<lparr>cookies := filter (\<lambda>c. cookie_same_site (ck_same_site c) = SameSite_None) (cookies s)\<rparr>) http d)"
proof -
  let ?L = "en_lib E"
  obtain d http where d: "url_parse ?L (without_fragment doc) = Some d"
    and s: "url_scheme ?L (ws_url w) \<in> {''ws'', ''wss''}"
      "\<not> (url_scheme ?L d = ''https'' \<and> url_scheme ?L (ws_url w) = ''ws'')"
    and h: "url_set_scheme ?L (if url_scheme ?L (ws_url w) = ''wss'' then ''https'' else ''http'')
        (ws_url w) = Some http"
    and a: "policy_allows ?L (policy_of E l d) Kind_Connect d (ws_url w) \<or>
        policy_allows ?L (policy_of E l d) Kind_Connect d http"
    and c: "ws_cookie w = handshake_cookie ?L t s http d"
    using websocket_target_Inr[OF assms(1)[unfolded open_websocket_def]] by blast
  have "(url_scheme ?L http = ''http'') = (url_scheme ?L (ws_url w) = ''ws'')"
    using assms(2)[OF d h] by (auto simp: websocket_forms_def)
  then show ?thesis
    using d s h a c websocket_per_policy[OF assms(2)[OF d h]]
      handshake_cookie_hidden[of ?L http t s d]
    by auto
qed

text \<open>A page without encryption that opens a socket on another site, and a jar with a cookie that is only
  for encrypted requests, one that stays on its site and one that may travel.\<close>

definition plain_page :: demo_url where
  "plain_page = (''http'', ''a.example'', ''/'')"

definition other_socket :: demo_url where
  "other_socket = (''ws'', ''b.example'', ''/s'')"

definition other_jar :: "native_cookie list" where
  "other_jar = map (\<lambda>c. c\<lparr>ck_domain := ''b.example''\<rparr>)
     [(demo_cookie ''a'' ''1'')\<lparr>ck_secure := True, ck_same_site := Some ''None''\<rparr>,
      (demo_cookie ''b'' ''2'')\<lparr>ck_same_site := Some ''Lax''\<rparr>,
      (demo_cookie ''c'' ''3'')\<lparr>ck_same_site := Some ''None''\<rparr>]"

definition plain_ledger :: policy_ledger where
  "plain_ledger = store_document_policy ''http://a.example/''
     (content_security_policy demo_jsons (headers_of [''connect-src ws://b.example''])) (new_ledger [])"

lemma other_forms: "websocket_forms demo_lib plain_page other_socket (''http'', ''b.example'', ''/s'')"
proof -
  have "\<not> eq_ignore_ascii_case ''a.example'' ''b.example''" by code_simp
  then show ?thesis
    by (simp add: websocket_forms_def tuple_origin_def demo_lib_def plain_page_def other_socket_def)
qed

theorem websocket_handshake_is_confined_witness:
  "\<exists>w. open_websocket demo_csp_env demo_clock (demo_loader other_jar) plain_ledger ''http://a.example/'' ''ws://b.example/s'' = Ok w \<and>
     ws_cookie w = Some ''c=3'' \<and> list_all (\<lambda>x. directives_allow demo_lib x Kind_Connect plain_page other_socket \<or>
       directives_allow demo_lib x Kind_Connect plain_page (''http'', ''b.example'', ''/s'')) (csp_policies (policy_of demo_csp_env plain_ledger plain_page)) \<and>
     ws_cookie w = handshake_cookie demo_lib demo_clock (demo_loader (filter (\<lambda>c. \<not> ck_secure c) other_jar)) (''http'', ''b.example'', ''/s'') plain_page \<and>
     ws_cookie w = handshake_cookie demo_lib demo_clock
       (demo_loader (filter (\<lambda>c. cookie_same_site (ck_same_site c) = SameSite_None) other_jar)) (''http'', ''b.example'', ''/s'') plain_page"
proof -
  define w where "w = \<lparr>ws_url = other_socket, ws_cookie = Some ''c=3'', ws_violations = [], ws_deliveries = []\<rparr>"
  have t: "open_websocket demo_csp_env demo_clock (demo_loader other_jar) plain_ledger ''http://a.example/'' ''ws://b.example/s'' = Ok w"
    unfolding w_def by code_simp
  have u: "ws_url w = other_socket" "ws_cookie w = Some ''c=3''" by (simp_all add: w_def)
  have parsed: "url_parse demo_lib (without_fragment ''http://a.example/'') = Some plain_page" by code_simp
  have plain: "url_scheme demo_lib other_socket = ''ws''" "(''ws'' = ''wss'') = False" "(if False then ''https'' else ''http'') = ''http''"
      "url_set_scheme demo_lib ''http'' other_socket = Some (''http'', ''b.example'', ''/s'')"
    by (simp_all add: demo_lib_def other_socket_def)
  have cross: "\<not> same_site_request demo_lib (''http'', ''b.example'', ''/s'') (Some plain_page)" by code_simp
  have jar: "(demo_loader other_jar)\<lparr>cookies := filter P (cookies (demo_loader other_jar))\<rparr> = demo_loader (filter P other_jar)" for P
    by (simp add: demo_loader_def)
  have forms: "websocket_forms (en_lib demo_csp_env) d (ws_url w) http"
    if "url_parse (en_lib demo_csp_env) (without_fragment ''http://a.example/'') = Some d"
      "url_set_scheme (en_lib demo_csp_env)
        (if url_scheme (en_lib demo_csp_env) (ws_url w) = ''wss'' then ''https'' else ''http'') (ws_url w) = Some http"
    for d http
    using that other_forms unfolding u demo_env_lib parsed plain by auto
  show ?thesis
    using websocket_handshake_is_confined[OF t, OF forms] t cross
    unfolding u demo_env_lib parsed plain jar by (intro exI[of _ w]) (auto simp: u)
qed

end
